(* ===== verification/Prelude.thy ===== *)
theory Prelude
  imports Main "HOL-Library.AList" "HOL-Library.List_Lexorder"
begin

text \<open>
  Shared ground of the development.

  \<^item> Python strings are lists of Unicode code points (type \<open>pystr\<close>); \<open>u ''abc''\<close> is
    the literal of an ASCII string, and a text with other characters is written as its list
    of code points.  \<open>py_strip\<close> is \<open>str.strip()\<close> with Python's own whitespace table.
  \<^item> An exception is the left value of a sum; \<open>rbind\<close> sequences two fallible steps and
    stops at the first exception.  \<open>rmap\<close> is a \<open>for\<close> loop that collects results and
    stops at the first exception.
  \<^item> A dictionary is an insertion-ordered association list: \<open>AList.update\<close> overwrites in
    place or appends, exactly like \<open>d[k] = v\<close>; \<open>map_of\<close> is \<open>d.get\<close>.
  \<^item> An aware \<open>datetime\<close> is the number of microseconds since the epoch (type
    \<open>instant\<close>); a \<open>timedelta\<close> is a number of microseconds.

  The collections \<open>result_simps\<close> and \<open>dict_simps\<close> carry the component proofs.
\<close>

named_theorems result_simps \<open>rewriting of the result monad\<close>
named_theorems dict_simps \<open>rewriting of insertion-ordered dictionaries\<close>

section \<open>Strings\<close>

type_synonym pystr = "nat list"

definition u :: "string \<Rightarrow> pystr" where
  "u s = map of_char s"

lemma u_inject [simp]: "u a = u b \<longleftrightarrow> a = b"
proof -
  have "inj (map (of_char :: char \<Rightarrow> nat))"
    by (simp add: inj_mapI inj_def)
  then show ?thesis by (auto simp: u_def dest: injD)
qed

lemma u_Nil [simp]: "u [] = []" and u_eq_Nil [simp]: "u s = [] \<longleftrightarrow> s = []"
  by (simp_all add: u_def)

text \<open>The code points for which \<open>str.isspace\<close> holds.\<close>

definition py_isspace :: "nat \<Rightarrow> bool" where
  "py_isspace c \<longleftrightarrow> (9 \<le> c \<and> c \<le> 13) \<or> (28 \<le> c \<and> c \<le> 32) \<or> c = 133 \<or> c = 160 \<or> c = 5760
     \<or> (8192 \<le> c \<and> c \<le> 8202) \<or> c = 8232 \<or> c = 8233 \<or> c = 8239 \<or> c = 8287 \<or> c = 12288"

text \<open>\<open>s.strip(chars)\<close> for a character class, and \<open>s.strip()\<close>.\<close>

definition strip_by :: "('a \<Rightarrow> bool) \<Rightarrow> 'a list \<Rightarrow> 'a list" where
  "strip_by p s = rev (dropWhile p (rev (dropWhile p s)))"

definition py_strip :: "pystr \<Rightarrow> pystr" where
  "py_strip s = strip_by py_isspace s"

lemma hd_rev_dropWhile_rev:
  assumes "\<not> p (hd xs)" and "rev (dropWhile p (rev xs)) \<noteq> []"
  shows "hd (rev (dropWhile p (rev xs))) = hd xs"
proof -
  have "rev xs = takeWhile p (rev xs) @ dropWhile p (rev xs)"
    by simp
  then have "xs = rev (dropWhile p (rev xs)) @ rev (takeWhile p (rev xs))"
    by (metis rev_append rev_rev_ident)
  then show ?thesis using assms(2) by (metis hd_append2)
qed

lemma strip_by_edges:
  assumes "strip_by p s \<noteq> []"
  shows "\<not> p (hd (strip_by p s))" and "\<not> p (last (strip_by p s))"
proof -
  let ?d = "dropWhile p s"
  have "?d \<noteq> []"
    using assms unfolding strip_by_def by (metis dropWhile.simps(1) rev.simps(1))
  then have hd_d: "\<not> p (hd ?d)"
    by (rule hd_dropWhile)
  show "\<not> p (hd (strip_by p s))"
    using hd_rev_dropWhile_rev [of p ?d] assms hd_d by (simp add: strip_by_def)
  have "dropWhile p (rev ?d) \<noteq> []"
    using assms by (simp add: strip_by_def)
  then show "\<not> p (last (strip_by p s))"
    by (simp add: strip_by_def last_rev hd_dropWhile)
qed

lemma strip_by_id:
  assumes "s \<noteq> [] \<Longrightarrow> \<not> p (hd s) \<and> \<not> p (last s)"
  shows "strip_by p s = s"
proof (cases "s = []")
  case False
  then have "dropWhile p s = s" and "dropWhile p (rev s) = rev s"
    using assms by (auto simp: dropWhile_eq_self_iff hd_rev)
  then show ?thesis by (simp add: strip_by_def)
qed (simp add: strip_by_def)

lemma strip_by_idem [simp]: "strip_by p (strip_by p s) = strip_by p s"
  by (rule strip_by_id) (simp add: strip_by_edges)

lemma set_strip_by: "set (strip_by p s) \<subseteq> set s"
  by (auto simp: strip_by_def dest!: set_dropWhileD)

lemma length_strip_by: "length (strip_by p s) \<le> length s"
  unfolding strip_by_def using length_dropWhile_le
  by (metis le_trans length_rev)

text \<open>Evaluation of string operations on literals.\<close>

lemmas str_eval = u_def py_strip_def strip_by_def py_isspace_def

lemma py_strip_idem [simp]: "py_strip (py_strip s) = py_strip s"
  by (simp add: py_strip_def)

section \<open>Decimal rendering\<close>

text \<open>\<open>str(n)\<close> of a natural number, and zero padding to a width.\<close>

fun decimal :: "nat \<Rightarrow> pystr" where
  "decimal n = (if n < 10 then [48 + n] else decimal (n div 10) @ [48 + n mod 10])"

declare decimal.simps [simp del]

definition zero_pad :: "nat \<Rightarrow> pystr \<Rightarrow> pystr" where
  "zero_pad w s = replicate (w - length s) 48 @ s"

definition decimal_value :: "pystr \<Rightarrow> nat" where
  "decimal_value s = foldl (\<lambda>a c. 10 * a + (c - 48)) 0 s"

lemma decimal_value_snoc: "decimal_value (s @ [c]) = 10 * decimal_value s + (c - 48)"
  by (simp add: decimal_value_def)

lemma decimal_value_decimal [simp]: "decimal_value (decimal n) = n"
proof (induction n rule: decimal.induct)
  case (1 n)
  show ?case
  proof (cases "n < 10")
    case True
    then show ?thesis by (simp add: decimal.simps [of n] decimal_value_def)
  next
    case False
    then have "decimal_value (decimal n) = 10 * (n div 10) + n mod 10"
      using 1 by (simp add: decimal.simps [of n] decimal_value_snoc)
    then show ?thesis by simp
  qed
qed

lemma decimal_value_zeros: "decimal_value (replicate k 48 @ s) = decimal_value s"
  unfolding decimal_value_def by (induction k) simp_all

lemma zero_pad_value [simp]: "decimal_value (zero_pad w (decimal n)) = n"
  by (simp add: zero_pad_def decimal_value_zeros)

section \<open>Exceptions as values\<close>

fun rbind :: "'e + 'a \<Rightarrow> ('a \<Rightarrow> 'e + 'b) \<Rightarrow> 'e + 'b" where
  "rbind (Inl e) f = Inl e"
| "rbind (Inr x) f = f x"

definition guard_r :: "bool \<Rightarrow> 'e \<Rightarrow> 'e + unit" where
  "guard_r b e = (if b then Inr () else Inl e)"

lemma rbind_Inr [result_simps]:
  "rbind m f = Inr y \<longleftrightarrow> (\<exists>x. m = Inr x \<and> f x = Inr y)"
  by (cases m) auto

lemma rbind_Inl [result_simps]:
  "rbind m f = Inl e \<longleftrightarrow> m = Inl e \<or> (\<exists>x. m = Inr x \<and> f x = Inl e)"
  by (cases m) auto

lemma guard_r_Inr [result_simps]: "guard_r b e = Inr x \<longleftrightarrow> b"
  by (simp add: guard_r_def)

lemma guard_r_Inl [result_simps]: "guard_r b e = Inl e' \<longleftrightarrow> \<not> b \<and> e' = e"
  by (auto simp: guard_r_def)

lemma guard_r_True [simp]: "guard_r True e = Inr ()"
  and guard_r_False [simp]: "guard_r False e = Inl e"
  by (simp_all add: guard_r_def)

lemma rbind_cong [fundef_cong]:
  "m = m' \<Longrightarrow> (\<And>x. m' = Inr x \<Longrightarrow> f x = g x) \<Longrightarrow> rbind m f = rbind m' g"
  by (cases m') auto

fun rmap :: "('a \<Rightarrow> 'e + 'b) \<Rightarrow> 'a list \<Rightarrow> 'e + 'b list" where
  "rmap f [] = Inr []"
| "rmap f (x # xs) = rbind (f x) (\<lambda>y. rbind (rmap f xs) (\<lambda>ys. Inr (y # ys)))"

lemma rmap_Inr:
  "rmap f xs = Inr ys \<longleftrightarrow> list_all2 (\<lambda>x y. f x = Inr y) xs ys"
  by (induction xs arbitrary: ys) (auto simp: result_simps list_all2_Cons1)

lemma list_all2_member:
  "list_all2 R xs ys \<Longrightarrow> y \<in> set ys \<Longrightarrow> \<exists>x \<in> set xs. R x y"
  "list_all2 R xs ys \<Longrightarrow> x \<in> set xs \<Longrightarrow> \<exists>y \<in> set ys. R x y"
  by (induction rule: list_all2_induct; auto)+

lemma rmap_Inl:
  "rmap f xs = Inl e \<Longrightarrow> \<exists>x \<in> set xs. f x = Inl e"
  by (induction xs) (auto simp: result_simps)

lemma rmap_total: "(\<And>x. x \<in> set xs \<Longrightarrow> \<exists>y. f x = Inr y) \<Longrightarrow> \<exists>ys. rmap f xs = Inr ys"
proof (induction xs)
  case (Cons x xs)
  then obtain y ys where "f x = Inr y" "rmap f xs = Inr ys" by fastforce
  then show ?case by simp
qed simp

lemma map_sum_Inr: "map_sum f id x = Inr y \<longleftrightarrow> x = Inr y"
  by (cases x) auto

text \<open>\<open>if not b: raise e\<close> followed by the rest, and a \<open>for\<close> loop whose body only raises.\<close>

fun rthen :: "'e + unit \<Rightarrow> 'e + 'a \<Rightarrow> 'e + 'a" where
  "rthen (Inl e) m = Inl e"
| "rthen (Inr x) m = m"

lemma rthen_Inr [result_simps]: "rthen a m = Inr x \<longleftrightarrow> a = Inr () \<and> m = Inr x"
  by (cases a) auto

lemma rthen_Inl: "rthen a m = Inl e \<longleftrightarrow> a = Inl e \<or> a = Inr () \<and> m = Inl e"
  by (cases a) auto

lemma rthen_cong [fundef_cong]: "a = a' \<Longrightarrow> (a' = Inr () \<Longrightarrow> m = m') \<Longrightarrow> rthen a m = rthen a' m'"
  by (cases a') auto

fun for_each :: "('a \<Rightarrow> 'e + unit) \<Rightarrow> 'a list \<Rightarrow> 'e + unit" where
  "for_each f [] = Inr ()"
| "for_each f (x # xs) = rthen (f x) (for_each f xs)"

lemma for_each_Inr [result_simps]: "for_each f xs = Inr () \<longleftrightarrow> (\<forall>x \<in> set xs. f x = Inr ())"
  by (induction xs) (auto simp: result_simps)

lemma for_each_Inl: "for_each f xs = Inl e \<Longrightarrow> \<exists>x \<in> set xs. f x = Inl e"
  by (induction xs) (auto simp: rthen_Inl)

text \<open>A \<open>for\<close> loop that updates a state and stops at the first exception.\<close>

fun rfold :: "('x \<Rightarrow> 's \<Rightarrow> 'e + 's) \<Rightarrow> 'x list \<Rightarrow> 's \<Rightarrow> 'e + 's" where
  "rfold f [] s = Inr s"
| "rfold f (x # xs) s = rbind (f x s) (rfold f xs)"

lemma rfold_invariant:
  assumes "\<And>x s s'. x \<in> set xs \<Longrightarrow> I s \<Longrightarrow> f x s = Inr s' \<Longrightarrow> I s'"
  shows "rfold f xs s = Inr s' \<Longrightarrow> I s \<Longrightarrow> I s'"
  using assms by (induction xs arbitrary: s) (auto simp: result_simps)

lemma unit_result_cases: "(r :: 'e + unit) = Inr () \<or> (\<exists>e. r = Inl e)"
  by (cases r) auto

section \<open>Insertion-ordered dictionaries\<close>

type_synonym ('k, 'v) dict = "('k \<times> 'v) list"

lemma map_of_update [dict_simps]: "map_of (AList.update k v d) = (map_of d)(k \<mapsto> v)"
  by (rule AList.update_conv')

lemma set_update_subset: "set (AList.update k v d) \<subseteq> insert (k, v) (set d)"
  by (induction d) auto

lemma keys_update: "set (map fst (AList.update k v d)) = insert k (set (map fst d))"
  by (simp add: AList.dom_update)

lemma distinct_keys_update [simp]:
  "distinct (map fst d) \<Longrightarrow> distinct (map fst (AList.update k v d))"
  by (rule AList.distinct_update)

lemma update_length:
  "length (AList.update k v d) = (if k \<in> fst ` set d then length d else Suc (length d))"
  by (induction d) auto

section \<open>Order-preserving duplicate removal\<close>

text \<open>\<open>list(dict.fromkeys(xs))\<close>: the first occurrence of every element, in order.\<close>

fun dedup_acc :: "'a list \<Rightarrow> 'a list \<Rightarrow> 'a list" where
  "dedup_acc seen [] = []"
| "dedup_acc seen (x # xs) =
     (if x \<in> set seen then dedup_acc seen xs else x # dedup_acc (x # seen) xs)"

definition from_keys :: "'a list \<Rightarrow> 'a list" where
  "from_keys xs = dedup_acc [] xs"

lemma set_dedup_acc: "set (dedup_acc seen xs) = set xs - set seen"
  by (induction seen xs rule: dedup_acc.induct) auto

lemma distinct_dedup_acc: "distinct (dedup_acc seen xs)"
  by (induction seen xs rule: dedup_acc.induct) (auto simp: set_dedup_acc)

lemma set_from_keys [simp]: "set (from_keys xs) = set xs"
  by (simp add: from_keys_def set_dedup_acc)

lemma distinct_from_keys [simp]: "distinct (from_keys xs)"
  by (simp add: from_keys_def distinct_dedup_acc)

lemma from_keys_eq_Nil [simp]: "from_keys xs = [] \<longleftrightarrow> xs = []"
  by (metis set_empty set_from_keys)

section \<open>Time\<close>

type_synonym instant = int

definition us_second :: int where "us_second = 1000000"
definition us_hour :: int where "us_hour = 3600 * us_second"
definition us_day :: int where "us_day = 24 * us_hour"

lemmas us_defs = us_second_def us_hour_def us_day_def

lemma us_pos [simp]: "0 < us_second" "0 < us_hour" "0 < us_day"
  by (simp_all add: us_defs)

section \<open>Dynamically typed values\<close>

text \<open>The values of a \<open>dict[str, object]\<close>: event data, message payloads, metering payloads.\<close>

datatype pyval = PNone | PBool bool | PInt int | PStr pystr | PDatetime instant
  | PList "pyval list" | PDict "(pystr \<times> pyval) list"

type_synonym payload = "(pystr, pyval) dict"

end
