(* ===== verification/Domain.thy ===== *)
theory Domain
  imports Prelude
begin

text \<open>
  The value objects of \<^verbatim>\<open>domain/\<close>: the error taxonomy (\<^verbatim>\<open>errors.py\<close>), the
  identifiers (\<^verbatim>\<open>identifiers.py\<close>), roles, tenant context, data scope and expected range
  (\<^verbatim>\<open>identity.py\<close>), and the typed query boundaries (\<^verbatim>\<open>queries.py\<close>).

  A frozen dataclass is a record; a \<open>__post_init__\<close> that raises is a checked constructor
  returning \<open>value_error + 'a\<close>.  A \<open>frozenset\<close> is a set, an optional field an option.
\<close>

section \<open>errors.py: the MES error taxonomy\<close>

datatype mes_error_code = INVALID_REQUEST | UNAUTHENTICATED | FORBIDDEN | NOT_FOUND
  | RATE_LIMITED | TIMEOUT | UPSTREAM_UNAVAILABLE | UPSTREAM_INVALID
  | UNSUPPORTED_OPERATION | INTERNAL_ERROR

fun mes_error_code_value :: "mes_error_code \<Rightarrow> pystr" where
  "mes_error_code_value INVALID_REQUEST = u ''invalid_request''"
| "mes_error_code_value UNAUTHENTICATED = u ''unauthenticated''"
| "mes_error_code_value FORBIDDEN = u ''forbidden''"
| "mes_error_code_value NOT_FOUND = u ''not_found''"
| "mes_error_code_value RATE_LIMITED = u ''rate_limited''"
| "mes_error_code_value TIMEOUT = u ''timeout''"
| "mes_error_code_value UPSTREAM_UNAVAILABLE = u ''upstream_unavailable''"
| "mes_error_code_value UPSTREAM_INVALID = u ''upstream_invalid''"
| "mes_error_code_value UNSUPPORTED_OPERATION = u ''unsupported_operation''"
| "mes_error_code_value INTERNAL_ERROR = u ''internal_error''"

text \<open>The subclasses of \<open>MesError\<close>, each with the message it was raised with.\<close>

datatype mes_error =
    InvalidRequestError pystr
  | UnauthenticatedError pystr
  | ForbiddenError pystr
  | NotFoundError pystr
  | RateLimitedError pystr "int option"
  | MesTimeoutError pystr
  | UpstreamUnavailableError pystr
  | UpstreamInvalidError pystr
  | UnsupportedOperationError pystr
  | InternalError pystr
  | TenantDisabledError pystr

fun mes_code :: "mes_error \<Rightarrow> mes_error_code" where
  "mes_code (InvalidRequestError m) = INVALID_REQUEST"
| "mes_code (UnauthenticatedError m) = UNAUTHENTICATED"
| "mes_code (ForbiddenError m) = FORBIDDEN"
| "mes_code (NotFoundError m) = NOT_FOUND"
| "mes_code (RateLimitedError m r) = RATE_LIMITED"
| "mes_code (MesTimeoutError m) = TIMEOUT"
| "mes_code (UpstreamUnavailableError m) = UPSTREAM_UNAVAILABLE"
| "mes_code (UpstreamInvalidError m) = UPSTREAM_INVALID"
| "mes_code (UnsupportedOperationError m) = UNSUPPORTED_OPERATION"
| "mes_code (InternalError m) = INTERNAL_ERROR"
| "mes_code (TenantDisabledError m) = FORBIDDEN"

fun mes_message :: "mes_error \<Rightarrow> pystr" where
  "mes_message (InvalidRequestError m) = m"
| "mes_message (UnauthenticatedError m) = m"
| "mes_message (ForbiddenError m) = m"
| "mes_message (NotFoundError m) = m"
| "mes_message (RateLimitedError m r) = m"
| "mes_message (MesTimeoutError m) = m"
| "mes_message (UpstreamUnavailableError m) = m"
| "mes_message (UpstreamInvalidError m) = m"
| "mes_message (UnsupportedOperationError m) = m"
| "mes_message (InternalError m) = m"
| "mes_message (TenantDisabledError m) = m"

text \<open>\<open>MesError.__str__\<close>.\<close>

definition mes_error_str :: "mes_error \<Rightarrow> pystr" where
  "mes_error_str e = mes_error_code_value (mes_code e) @ u '': '' @ mes_message e"

section \<open>identifiers.py and the identifier classes of identity.py\<close>

datatype value_error = ValueError pystr
datatype key_error = KeyError pystr
datatype index_error = IndexError

type_synonym tenant_id = pystr
type_synonym interaction_id = pystr
type_synonym user_id = pystr
type_synonym employee_id = pystr
type_synonym dept_id = pystr
type_synonym scope_version = pystr

definition TenantId :: "pystr \<Rightarrow> value_error + tenant_id" where
  "TenantId v = (if v = [] \<or> v \<noteq> py_strip v
     then Inl (ValueError (u ''tenant ID must be non-empty and have no surrounding whitespace''))
     else Inr v)"

definition InteractionId :: "pystr \<Rightarrow> value_error + interaction_id" where
  "InteractionId v = (if v = [] \<or> v \<noteq> py_strip v
     then Inl (ValueError (u ''interaction ID must be non-empty and have no surrounding whitespace''))
     else Inr v)"

definition NonEmptyId :: "pystr \<Rightarrow> value_error + pystr" where
  "NonEmptyId v = (if v = [] \<or> v \<noteq> py_strip v
     then Inl (ValueError (u ''identifier must be non-empty and have no surrounding whitespace''))
     else Inr v)"

lemma NonEmptyId_strip:
  "NonEmptyId (py_strip v) = (if py_strip v = []
     then Inl (ValueError (u ''identifier must be non-empty and have no surrounding whitespace''))
     else Inr (py_strip v))"
  by (simp add: NonEmptyId_def)

section \<open>identity.py: roles\<close>

datatype role = EMPLOYEE | GROUP_LEADER | MANAGER | OWNER

lemma UNIV_role: "UNIV = {EMPLOYEE, GROUP_LEADER, MANAGER, OWNER}"
  using role.exhaust by blast

instantiation role :: finite
begin

instance
  by standard (simp add: UNIV_role)

end

definition ROLE_BY_MES_CODE :: "(pystr, role) dict" where
  "ROLE_BY_MES_CODE = [(u ''00'', EMPLOYEE), (u ''01'', GROUP_LEADER),
     (u ''02'', MANAGER), (u ''99'', OWNER)]"

text \<open>\<open>{role: code for code, role in _ROLE_BY_MES_CODE.items()}\<close>.\<close>

definition MES_CODE_BY_ROLE :: "(role, pystr) dict" where
  "MES_CODE_BY_ROLE = fold (\<lambda>(c, r) d. AList.update r c d) ROLE_BY_MES_CODE []"

definition from_mes_code :: "pystr \<Rightarrow> value_error + role" where
  "from_mes_code code = (case map_of ROLE_BY_MES_CODE (py_strip code) of
     Some r \<Rightarrow> Inr r
   | None \<Rightarrow> Inl (ValueError (u ''unknown MES role code: '' @ code)))"

fun role_mes_code :: "role \<Rightarrow> pystr" where
  "role_mes_code r = the (map_of MES_CODE_BY_ROLE r)"

section \<open>identity.py: membership, context and scope\<close>

record tenant_membership =
  tm_user_id :: user_id
  tm_tenant_id :: tenant_id
  tm_employee_id :: employee_id
  tm_display_name :: pystr
  tm_role :: role
  tm_bound_dept_ids :: "dept_id list"

record identity =
  id_tenant_id :: tenant_id
  id_user_id :: user_id

record tenant_context =
  tc_tenant_id :: tenant_id
  tc_user_id :: user_id
  tc_employee_id :: employee_id
  tc_role :: role
  tc_resolved_at :: instant

datatype platform_capability = USAGE_AGGREGATE | USAGE_REPORT

record platform_scope_d =
  psd_principal_id :: pystr
  psd_tenant_ids :: "tenant_id set"
  psd_capabilities :: "platform_capability set"

definition psd_allows :: "platform_scope_d \<Rightarrow> platform_capability \<Rightarrow> bool" where
  "psd_allows s c \<longleftrightarrow> c \<in> psd_capabilities s"

definition psd_covers :: "platform_scope_d \<Rightarrow> tenant_id \<Rightarrow> bool" where
  "psd_covers s t \<longleftrightarrow> t \<in> psd_tenant_ids s"

record data_scope =
  ds_tenant_id :: tenant_id
  ds_employee_ids :: "employee_id set"
  ds_dept_ids :: "dept_id set"
  ds_evaluated_at :: instant
  ds_scope_version :: scope_version
  ds_mes_filtered :: bool

definition is_whole_tenant :: "data_scope \<Rightarrow> bool" where
  "is_whole_tenant s = False"

definition narrow_to_employees :: "data_scope \<Rightarrow> employee_id set \<Rightarrow> data_scope option" where
  "narrow_to_employees s ids =
     (let narrowed = ds_employee_ids s \<inter> ids
      in if narrowed = {} then None else Some (s\<lparr>ds_employee_ids := narrowed\<rparr>))"

definition narrow_to_depts :: "data_scope \<Rightarrow> dept_id set \<Rightarrow> data_scope option" where
  "narrow_to_depts s ids =
     (let narrowed = ds_dept_ids s \<inter> ids
      in if narrowed = {} then None else Some (s\<lparr>ds_dept_ids := narrowed\<rparr>))"

section \<open>identity.py: the expected range\<close>

datatype expected_range_kind = SELF | GROUP | DEPT | WHOLE_TENANT

record expected_range =
  er_role :: role
  er_employee_id :: "employee_id option"
  er_dept_ids :: "dept_id set"
  er_whole_tenant :: bool

definition range_from_context :: "tenant_context \<Rightarrow> data_scope \<Rightarrow> expected_range" where
  "range_from_context c s = \<lparr>er_role = tc_role c, er_employee_id = Some (tc_employee_id c),
     er_dept_ids = ds_dept_ids s, er_whole_tenant = (tc_role c = OWNER)\<rparr>"

definition range_kind :: "expected_range \<Rightarrow> expected_range_kind" where
  "range_kind r = (if er_whole_tenant r then WHOLE_TENANT
     else if er_role r = EMPLOYEE then SELF
     else if er_role r = GROUP_LEADER then GROUP
     else DEPT)"

definition allows_employee :: "expected_range \<Rightarrow> pystr option \<Rightarrow> bool" where
  "allows_employee r uid = (case uid of None \<Rightarrow> True
     | Some w \<Rightarrow> er_whole_tenant r \<or> er_employee_id r = Some w)"

definition allows_dept :: "expected_range \<Rightarrow> pystr option \<Rightarrow> bool" where
  "allows_dept r dept = (case dept of None \<Rightarrow> True
     | Some d \<Rightarrow> er_whole_tenant r \<or> d \<in> er_dept_ids r)"

section \<open>queries.py: typed query boundaries\<close>

record narrowed_filters =
  nf_tenant_id :: tenant_id
  nf_employee_ids :: "employee_id set option"
  nf_dept_ids :: "dept_id set option"
  nf_order_codes :: "pystr set option"
  nf_style_codes :: "pystr set option"
  nf_plan_codes :: "pystr set option"
  nf_material_ids :: "pystr set option"
  nf_requested_dept_ids :: "dept_id set option"
  nf_bed_codes :: "pystr set option"

text \<open>A \<open>datetime\<close> with or without a timezone; the number is the instant, or the naive wall
  clock reading.\<close>

datatype datetime = Aware instant | Naive int

record time_range =
  tr_start :: instant
  tr_end :: instant

datatype time_range_error = TimeRangeError pystr

definition TimeRange :: "datetime \<Rightarrow> datetime \<Rightarrow> time_range_error + time_range" where
  "TimeRange s e = (case (s, e) of
     (Aware a, Aware b) \<Rightarrow>
       if a \<ge> b then Inl (TimeRangeError (u ''time range start must be before end''))
       else Inr \<lparr>tr_start = a, tr_end = b\<rparr>
   | _ \<Rightarrow> Inl (TimeRangeError (u ''time range bounds must be timezone-aware'')))"

record pagination_request =
  pr_page :: int
  pr_size :: int
  pr_max_size :: int

definition PaginationRequest :: "int \<Rightarrow> int \<Rightarrow> int \<Rightarrow> value_error + pagination_request" where
  "PaginationRequest page sz max_size =
     (if page < 1 then Inl (ValueError (u ''page must be >= 1''))
      else if sz < 1 then Inl (ValueError (u ''size must be >= 1''))
      else if sz > max_size
        then Inl (ValueError (u ''size exceeds the approved maximum page size''))
      else Inr \<lparr>pr_page = page, pr_size = sz, pr_max_size = max_size\<rparr>)"

text \<open>
  \<open>local_calendar_dates\<close>.  The time zone is an argument: \<open>off\<close> gives the UTC offset (in
  microseconds) the zone has at an instant.  A local date is the number of the local day, so
  that its ISO rendering is order preserving.
\<close>

definition local_day :: "(instant \<Rightarrow> int) \<Rightarrow> instant \<Rightarrow> int" where
  "local_day off t = (t + off t) div us_day"

definition local_calendar_dates ::
  "(instant \<Rightarrow> int) \<Rightarrow> instant \<Rightarrow> instant \<Rightarrow> int \<times> int" where
  "local_calendar_dates off start end' =
     (local_day off start, (end' + off end' - 1) div us_day)"

section \<open>Lemmas\<close>

lemmas scope_defs = narrow_to_employees_def narrow_to_depts_def range_from_context_def
  range_kind_def allows_employee_def allows_dept_def

lemma mes_code_by_role: "map_of MES_CODE_BY_ROLE =
    [EMPLOYEE \<mapsto> u ''00'', GROUP_LEADER \<mapsto> u ''01'', MANAGER \<mapsto> u ''02'', OWNER \<mapsto> u ''99'']"
  by (rule ext) (simp add: MES_CODE_BY_ROLE_def ROLE_BY_MES_CODE_def dict_simps)

lemma role_mes_code_simps [simp]:
  "role_mes_code EMPLOYEE = u ''00''" "role_mes_code GROUP_LEADER = u ''01''"
  "role_mes_code MANAGER = u ''02''" "role_mes_code OWNER = u ''99''"
  by (simp_all add: mes_code_by_role)

declare role_mes_code.simps [simp del]

lemma narrow_to_employees_Some:
  "narrow_to_employees s ids = Some t \<longleftrightarrow>
     ds_employee_ids s \<inter> ids \<noteq> {} \<and> t = s\<lparr>ds_employee_ids := ds_employee_ids s \<inter> ids\<rparr>"
  by (auto simp: narrow_to_employees_def Let_def)

lemma narrow_to_depts_Some:
  "narrow_to_depts s ids = Some t \<longleftrightarrow>
     ds_dept_ids s \<inter> ids \<noteq> {} \<and> t = s\<lparr>ds_dept_ids := ds_dept_ids s \<inter> ids\<rparr>"
  by (auto simp: narrow_to_depts_def Let_def)

lemma TimeRange_Inr:
  "TimeRange s e = Inr r \<longleftrightarrow>
     s = Aware (tr_start r) \<and> e = Aware (tr_end r) \<and> tr_start r < tr_end r"
  by (cases r) (auto simp: TimeRange_def split: datetime.splits if_splits)

text \<open>
  \<open>Role.from_mes_code\<close> and the \<open>mes_code\<close> property invert each other: the code of a
  role is read back as that role, whatever blanks surround it, and a code is accepted only
  when, stripped, it is the code of the role returned.  An unreviewed code never becomes a role.
\<close>

theorem role_code_roundtrip:
  "from_mes_code (role_mes_code r) = Inr r \<and>
   (from_mes_code c = Inr r \<longleftrightarrow> py_strip c = role_mes_code r)"
proof
  have strip: "py_strip (role_mes_code r) = role_mes_code r"
    by (cases r) (simp_all add: str_eval)
  show fwd: "from_mes_code (role_mes_code r) = Inr r"
    unfolding from_mes_code_def strip by (cases r) (simp_all add: ROLE_BY_MES_CODE_def)
  show "from_mes_code c = Inr r \<longleftrightarrow> py_strip c = role_mes_code r"
    by (cases r) (auto simp: from_mes_code_def ROLE_BY_MES_CODE_def
        split: option.splits if_splits)
qed

text \<open>
  Narrowing a data scope only ever shrinks it: the result keeps the tenant, the version
  and the \<open>mes_filtered\<close> trust, its id sets are non-empty subsets of the old ones, and an
  empty intersection is refused instead of being returned as an unrestricted scope.
\<close>

theorem narrowing_never_broadens:
  "(narrow_to_employees s ids = Some t \<longrightarrow>
      ds_employee_ids t = ds_employee_ids s \<inter> ids \<and> ds_employee_ids t \<noteq> {} \<and>
      ds_dept_ids t = ds_dept_ids s \<and> ds_tenant_id t = ds_tenant_id s \<and>
      ds_mes_filtered t = ds_mes_filtered s \<and> ds_scope_version t = ds_scope_version s) \<and>
   (narrow_to_employees s ids = None \<longleftrightarrow> ds_employee_ids s \<inter> ids = {}) \<and>
   (narrow_to_depts s ids = Some t \<longrightarrow>
      ds_dept_ids t = ds_dept_ids s \<inter> ids \<and> ds_dept_ids t \<noteq> {} \<and>
      ds_employee_ids t = ds_employee_ids s \<and> ds_tenant_id t = ds_tenant_id s \<and>
      ds_mes_filtered t = ds_mes_filtered s \<and> ds_scope_version t = ds_scope_version s) \<and>
   (narrow_to_depts s ids = None \<longleftrightarrow> ds_dept_ids s \<inter> ids = {})"
  by (auto simp: narrow_to_employees_Some narrow_to_depts_Some narrow_to_employees_def
      narrow_to_depts_def Let_def)

definition demo_scope :: data_scope where
  "demo_scope = \<lparr>ds_tenant_id = u ''fac'', ds_employee_ids = {u ''e1''},
     ds_dept_ids = {u ''d1'', u ''d2''}, ds_evaluated_at = 0,
     ds_scope_version = u ''scope-1'', ds_mes_filtered = False\<rparr>"

theorem narrowing_never_broadens_witness:
  "narrow_to_depts demo_scope {u ''d2'', u ''d3''} =
     Some (demo_scope\<lparr>ds_dept_ids := {u ''d2''}\<rparr>) \<and>
   ds_dept_ids (demo_scope\<lparr>ds_dept_ids := {u ''d2''}\<rparr>) =
     ds_dept_ids demo_scope \<inter> {u ''d2'', u ''d3''}"
proof -
  have eq: "narrow_to_depts demo_scope {u ''d2'', u ''d3''} =
      Some (demo_scope\<lparr>ds_dept_ids := {u ''d2''}\<rparr>)"
    by (simp add: narrow_to_depts_def demo_scope_def)
  then show ?thesis
    using narrowing_never_broadens
      [of demo_scope "{u ''d2'', u ''d3''}" "demo_scope\<lparr>ds_dept_ids := {u ''d2''}\<rparr>"]
    by blast
qed

text \<open>
  The local calendar dates sent to the MES cover the half-open interval exactly: for an
  instant \<open>t\<close> of \<open>[start, end)\<close> the local day of \<open>t\<close> lies between \<open>dates\<close> and
  \<open>datee\<close>, and both bounds are days of instants of the interval (the first one and the last
  microsecond), so the window neither loses nor gains a day.  The offset is the one constant
  offset of the factory zone.
\<close>

theorem local_calendar_dates_exact:
  assumes "start < end'" and "local_calendar_dates (\<lambda>_. k) start end' = (d1, d2)"
  shows "d1 = local_day (\<lambda>_. k) start \<and> d2 = local_day (\<lambda>_. k) (end' - 1) \<and>
    (\<forall>t. start \<le> t \<and> t < end' \<longrightarrow>
       d1 \<le> local_day (\<lambda>_. k) t \<and> local_day (\<lambda>_. k) t \<le> d2)"
proof -
  have eqs: "d1 = (start + k) div us_day" "d2 = (end' - 1 + k) div us_day"
    using assms(2) by (simp_all add: local_calendar_dates_def local_day_def algebra_simps)
  have "d1 \<le> local_day (\<lambda>_. k) t \<and> local_day (\<lambda>_. k) t \<le> d2"
    if "start \<le> t" "t < end'" for t
    using that by (simp add: eqs local_day_def zdiv_mono1)
  then show ?thesis
    by (simp add: eqs local_day_def algebra_simps)
qed

text \<open>Midnight of 1 September 2026 in the factory zone (UTC+8) is 16:00 of 31 August in UTC;
  the September window still reads 1 to 30 September.\<close>

theorem local_calendar_dates_exact_witness:
  "local_calendar_dates (\<lambda>_. 8 * us_hour) (20696 * us_day - 8 * us_hour)
     (20726 * us_day - 8 * us_hour) = (20696, 20725) \<and>
   local_day (\<lambda>_. 8 * us_hour) (20726 * us_day - 8 * us_hour - 1) = 20725"
proof -
  let ?s = "20696 * us_day - 8 * us_hour" and ?e = "20726 * us_day - 8 * us_hour"
  have lt: "?s < ?e" by (simp add: us_defs)
  have eq: "local_calendar_dates (\<lambda>_. 8 * us_hour) ?s ?e = (20696, 20725)"
    by (simp add: local_calendar_dates_def local_day_def us_defs)
  show ?thesis
    using local_calendar_dates_exact [OF lt eq] eq by simp
qed

end
