(* ===== verification/Authorization.thy ===== *)
theory Authorization
  imports Domain
begin

text \<open>
  Trusted authorization: \<^verbatim>\<open>application/authorization.py\<close> (membership resolution, scope
  evaluation, revalidation of a bound snapshot, scope version tokens) and the capability-role
  matrix of \<^verbatim>\<open>application/permission_matrix.py\<close>.

  The ports \<open>MembershipSource\<close> and \<open>OrganizationSource\<close> are arguments: functions that
  return a value or raise \<open>LookupError\<close>, \<open>RuntimeError\<close> or something else.  The
  \<open>ScopeVersionAssigner\<close> port is the locale \<open>version_assigner\<close>, interpreted on
  \<open>FixedScopeVersionAssigner\<close>.
\<close>

section \<open>authorization.py\<close>

datatype identity_error_code = IE_UNAUTHENTICATED | IE_NOT_FOUND | IE_FORBIDDEN
  | IE_INVALID_REQUEST | IE_INTERNAL_ERROR

text \<open>What a port may raise, and what \<open>AuthorizationService\<close> raises: a structured rejection, or
  an exception of a port that it does not catch.\<close>

datatype port_error = LookupError | RuntimeError | OtherError pystr

datatype auth_error = IdentityRejectionError identity_error_code pystr | PortError port_error

record trusted_credential =
  cred_tenant_id :: tenant_id
  cred_user_id :: user_id

type_synonym membership_source = "trusted_credential \<Rightarrow> instant \<Rightarrow> port_error + tenant_membership"
type_synonym organization_source = "tenant_id \<Rightarrow> employee_id \<Rightarrow> port_error + dept_id list"

record resolved_authorization =
  ra_identity :: identity
  ra_tenant_context :: tenant_context
  ra_data_scope :: data_scope

definition resolve_membership ::
  "membership_source \<Rightarrow> trusted_credential \<Rightarrow> instant \<Rightarrow> auth_error + tenant_membership" where
  "resolve_membership memberships credential as_of =
     (case memberships credential as_of of
        Inl LookupError \<Rightarrow> Inl (IdentityRejectionError IE_NOT_FOUND
          (u ''no active employee record for the credential''))
      | Inl RuntimeError \<Rightarrow> Inl (IdentityRejectionError IE_INTERNAL_ERROR
          (u ''credential resolution failed''))
      | Inl e \<Rightarrow> Inl (PortError e)
      | Inr membership \<Rightarrow>
          if tm_tenant_id membership \<noteq> cred_tenant_id credential
             \<or> tm_user_id membership \<noteq> cred_user_id credential
          then Inl (IdentityRejectionError IE_FORBIDDEN
            (u ''resolved membership does not match the credential''))
          else Inr membership)"

definition current_depts ::
  "organization_source \<Rightarrow> tenant_membership \<Rightarrow> auth_error + dept_id list" where
  "current_depts organizations membership =
     (if tm_bound_dept_ids membership \<noteq> [] then Inr (tm_bound_dept_ids membership)
      else case organizations (tm_tenant_id membership) (tm_employee_id membership) of
          Inl LookupError \<Rightarrow> Inl (IdentityRejectionError IE_NOT_FOUND
            (u ''no current department membership for the employee''))
        | Inl e \<Rightarrow> Inl (PortError e)
        | Inr depts \<Rightarrow> Inr depts)"

text \<open>\<open>authorize\<close> draws one version token from the assigner's state \<open>vs\<close>; no token is drawn
  when the resolution fails.\<close>

definition authorize ::
  "membership_source \<Rightarrow> organization_source \<Rightarrow> ('v \<Rightarrow> scope_version \<times> 'v) \<Rightarrow>
   trusted_credential \<Rightarrow> instant \<Rightarrow> 'v \<Rightarrow> (auth_error + resolved_authorization) \<times> 'v" where
  "authorize memberships organizations new_version credential as_of vs =
     (case resolve_membership memberships credential as_of of
        Inl e \<Rightarrow> (Inl e, vs)
      | Inr membership \<Rightarrow>
          (case current_depts organizations membership of
             Inl e \<Rightarrow> (Inl e, vs)
           | Inr dept_ids \<Rightarrow>
               (let (version, vs') = new_version vs in
                (Inr \<lparr>ra_identity = \<lparr>id_tenant_id = tm_tenant_id membership,
                                    id_user_id = tm_user_id membership\<rparr>,
                      ra_tenant_context = \<lparr>tc_tenant_id = tm_tenant_id membership,
                        tc_user_id = tm_user_id membership,
                        tc_employee_id = tm_employee_id membership,
                        tc_role = tm_role membership, tc_resolved_at = as_of\<rparr>,
                      ra_data_scope = \<lparr>ds_tenant_id = tm_tenant_id membership,
                        ds_employee_ids = {tm_employee_id membership},
                        ds_dept_ids = set dept_ids, ds_evaluated_at = as_of,
                        ds_scope_version = version,
                        ds_mes_filtered = (tm_role membership = OWNER)\<rparr>\<rparr>, vs'))))"

definition is_current ::
  "membership_source \<Rightarrow> organization_source \<Rightarrow> resolved_authorization \<Rightarrow>
   trusted_credential \<Rightarrow> instant \<Rightarrow> auth_error + bool" where
  "is_current memberships organizations authorization credential as_of =
     rbind (resolve_membership memberships credential as_of) (\<lambda>membership.
     rbind (current_depts organizations membership) (\<lambda>departments.
       let context = ra_tenant_context authorization; scope = ra_data_scope authorization in
       Inr (tm_tenant_id membership = tc_tenant_id context \<and>
            tm_user_id membership = tc_user_id context \<and>
            tm_employee_id membership = tc_employee_id context \<and>
            tm_role membership = tc_role context \<and>
            ds_employee_ids scope = {tm_employee_id membership} \<and>
            ds_dept_ids scope = set departments \<and>
            ds_mes_filtered scope = (tm_role membership = OWNER))))"

text \<open>\<open>FixedScopeVersionAssigner\<close>: a prefix and a counter; \<open>f"{counter:08d}"\<close> pads the
  decimal digits with zeros to width eight.\<close>

record fixed_assigner =
  fa_prefix :: pystr
  fa_counter :: nat

definition fixed_new_version :: "fixed_assigner \<Rightarrow> scope_version \<times> fixed_assigner" where
  "fixed_new_version a =
     (let n = Suc (fa_counter a) in
      (fa_prefix a @ u ''-'' @ zero_pad 8 (decimal n), a\<lparr>fa_counter := n\<rparr>))"

section \<open>permission\_matrix.py\<close>

datatype capability = OWN_OUTPUT | OWN_PAYROLL_SUMMARY | OWN_PAYROLL_DETAIL | GROUP_INCOME_RANK
  | ORDER_PROGRESS | ORDER_OUTPUT | WORKSHOP_COMPARISON | TEAM_PAYROLL_LIST
  | FACTORY_ORDER_OVERVIEW | WORKSHOP_OUTPUT_OVERVIEW | FACTORY_PAYROLL_STATS
  | ANY_EMPLOYEE_PAYROLL | FACTORY_OUTPUT_DASHBOARD

fun capability_value :: "capability \<Rightarrow> pystr" where
  "capability_value OWN_OUTPUT = u ''FR-001''"
| "capability_value OWN_PAYROLL_SUMMARY = u ''FR-002''"
| "capability_value OWN_PAYROLL_DETAIL = u ''FR-003''"
| "capability_value GROUP_INCOME_RANK = u ''FR-004''"
| "capability_value ORDER_PROGRESS = u ''FR-005''"
| "capability_value ORDER_OUTPUT = u ''FR-006''"
| "capability_value WORKSHOP_COMPARISON = u ''FR-007''"
| "capability_value TEAM_PAYROLL_LIST = u ''FR-008''"
| "capability_value FACTORY_ORDER_OVERVIEW = u ''FR-009''"
| "capability_value WORKSHOP_OUTPUT_OVERVIEW = u ''FR-010''"
| "capability_value FACTORY_PAYROLL_STATS = u ''FR-011''"
| "capability_value ANY_EMPLOYEE_PAYROLL = u ''FR-012''"
| "capability_value FACTORY_OUTPUT_DASHBOARD = u ''FR-013''"

definition ALL_ROLES :: "role set" where
  "ALL_ROLES = {EMPLOYEE, GROUP_LEADER, MANAGER, OWNER}"
definition MANAGEMENT_ROLES :: "role set" where
  "MANAGEMENT_ROLES = {GROUP_LEADER, MANAGER}"
definition OWNER_ROLES :: "role set" where
  "OWNER_ROLES = {OWNER}"
definition MANAGEMENT_AND_OWNER_ROLES :: "role set" where
  "MANAGEMENT_AND_OWNER_ROLES = MANAGEMENT_ROLES \<union> OWNER_ROLES"

definition CAPABILITY_ROLES :: "(capability, role set) dict" where
  "CAPABILITY_ROLES =
     [(OWN_OUTPUT, ALL_ROLES),
      (OWN_PAYROLL_SUMMARY, ALL_ROLES),
      (OWN_PAYROLL_DETAIL, ALL_ROLES),
      (GROUP_INCOME_RANK, MANAGEMENT_AND_OWNER_ROLES),
      (ORDER_PROGRESS, MANAGEMENT_AND_OWNER_ROLES),
      (ORDER_OUTPUT, MANAGEMENT_AND_OWNER_ROLES),
      (WORKSHOP_COMPARISON, MANAGEMENT_AND_OWNER_ROLES),
      (TEAM_PAYROLL_LIST, MANAGEMENT_AND_OWNER_ROLES),
      (FACTORY_ORDER_OVERVIEW, OWNER_ROLES),
      (WORKSHOP_OUTPUT_OVERVIEW, MANAGEMENT_AND_OWNER_ROLES),
      (FACTORY_PAYROLL_STATS, OWNER_ROLES),
      (ANY_EMPLOYEE_PAYROLL, MANAGEMENT_AND_OWNER_ROLES),
      (FACTORY_OUTPUT_DASHBOARD, OWNER_ROLES)]"

definition REGISTERED_CAPABILITIES :: "capability list" where
  "REGISTERED_CAPABILITIES = map fst CAPABILITY_ROLES"

definition capabilities_for_role :: "role \<Rightarrow> capability list" where
  "capabilities_for_role r = map fst (filter (\<lambda>(c, roles). r \<in> roles) CAPABILITY_ROLES)"

record authorization_decision =
  ad_allowed :: bool
  ad_capability_id :: pystr
  ad_reason :: "pystr option"
  ad_available_capabilities :: "pystr list"

definition deny :: "pystr \<Rightarrow> pystr \<Rightarrow> role option \<Rightarrow> authorization_decision" where
  "deny capability_id why r =
     \<lparr>ad_allowed = False, ad_capability_id = capability_id, ad_reason = Some why,
      ad_available_capabilities = (case r of
          Some r' \<Rightarrow> sort (map capability_value (capabilities_for_role r'))
        | None \<Rightarrow> sort (map capability_value REGISTERED_CAPABILITIES))\<rparr>"

definition authorize_capability ::
  "capability \<Rightarrow> tenant_context \<Rightarrow> data_scope \<Rightarrow> authorization_decision" where
  "authorize_capability c context scope =
     (if ds_tenant_id scope \<noteq> tc_tenant_id context then
        deny (capability_value c) (u ''data scope does not belong to the active tenant'')
          (Some (tc_role context))
      else if c \<notin> set REGISTERED_CAPABILITIES then
        deny (capability_value c) (u ''capability is not registered'') (Some (tc_role context))
      else if tc_role context \<notin> the (map_of CAPABILITY_ROLES c) then
        deny (capability_value c) (u ''capability is not available for the current role'')
          (Some (tc_role context))
      else \<lparr>ad_allowed = True, ad_capability_id = capability_value c, ad_reason = None,
            ad_available_capabilities = []\<rparr>)"

section \<open>The version assigner interface\<close>

text \<open>
  The port promises an opaque, unique token per evaluation.  A run draws tokens one after the
  other; \<open>idx\<close> is the number of tokens drawn so far, and tokens of different indices differ.
\<close>

locale version_assigner =
  fixes new_version :: "'v \<Rightarrow> scope_version \<times> 'v"
    and idx :: "'v \<Rightarrow> nat"
    and token :: "'v \<Rightarrow> nat \<Rightarrow> scope_version"
  assumes idx_new: "idx (snd (new_version v)) = Suc (idx v)"
    and token_frame: "token (snd (new_version v)) = token v"
    and token_new: "fst (new_version v) = token v (Suc (idx v))"
    and token_inj: "token v i = token v j \<Longrightarrow> i = j"
begin

fun draw :: "nat \<Rightarrow> 'v \<Rightarrow> scope_version list \<times> 'v" where
  "draw 0 v = ([], v)"
| "draw (Suc n) v = (let (t, v') = new_version v; (ts, v'') = draw n v' in (t # ts, v''))"

lemma draw_tokens: "fst (draw n v) = map (token v) [Suc (idx v)..<Suc (idx v + n)]"
proof (induction n arbitrary: v)
  case (Suc n)
  have step: "fst (draw (Suc n) v) = fst (new_version v) # fst (draw n (snd (new_version v)))"
    by (simp add: Let_def split_beta)
  have "[Suc (idx v)..<Suc (idx v + Suc n)] =
      Suc (idx v) # [Suc (Suc (idx v))..<Suc (Suc (idx v) + n)]"
    by (simp add: upt_conv_Cons)
  then show ?case
    using step Suc.IH [of "snd (new_version v)"] by (simp add: idx_new token_frame token_new)
qed simp

lemma draw_distinct: "distinct (fst (draw n v))"
  unfolding draw_tokens distinct_map by (auto intro: inj_onI token_inj)

end

interpretation fixed: version_assigner fixed_new_version fa_counter
  "\<lambda>a n. fa_prefix a @ u ''-'' @ zero_pad 8 (decimal n)"
proof
  fix v :: fixed_assigner and i j
  show "fa_counter (snd (fixed_new_version v)) = Suc (fa_counter v)"
    by (simp add: fixed_new_version_def Let_def)
  show "(\<lambda>n. fa_prefix (snd (fixed_new_version v)) @ u ''-'' @ zero_pad 8 (decimal n)) =
      (\<lambda>n. fa_prefix v @ u ''-'' @ zero_pad 8 (decimal n))"
    by (simp add: fixed_new_version_def Let_def)
  show "fst (fixed_new_version v) =
      fa_prefix v @ u ''-'' @ zero_pad 8 (decimal (Suc (fa_counter v)))"
    by (simp add: fixed_new_version_def Let_def)
  show "fa_prefix v @ u ''-'' @ zero_pad 8 (decimal i) =
      fa_prefix v @ u ''-'' @ zero_pad 8 (decimal j) \<Longrightarrow> i = j"
    by (metis append_same_eq same_append_eq zero_pad_value)
qed

section \<open>Lemmas\<close>

lemmas matrix_defs = CAPABILITY_ROLES_def REGISTERED_CAPABILITIES_def ALL_ROLES_def
  MANAGEMENT_ROLES_def OWNER_ROLES_def MANAGEMENT_AND_OWNER_ROLES_def

lemma resolve_membership_Inr:
  "resolve_membership ms c t = Inr m \<longleftrightarrow>
     ms c t = Inr m \<and> tm_tenant_id m = cred_tenant_id c \<and> tm_user_id m = cred_user_id c"
  by (auto simp: resolve_membership_def split: sum.splits port_error.splits if_splits)

lemma authorize_Inr:
  "fst (authorize ms os nv c t v) = Inr a \<longleftrightarrow>
     (\<exists>m ds. resolve_membership ms c t = Inr m \<and> current_depts os m = Inr ds \<and>
        a = \<lparr>ra_identity = \<lparr>id_tenant_id = tm_tenant_id m, id_user_id = tm_user_id m\<rparr>,
             ra_tenant_context = \<lparr>tc_tenant_id = tm_tenant_id m, tc_user_id = tm_user_id m,
               tc_employee_id = tm_employee_id m, tc_role = tm_role m, tc_resolved_at = t\<rparr>,
             ra_data_scope = \<lparr>ds_tenant_id = tm_tenant_id m,
               ds_employee_ids = {tm_employee_id m}, ds_dept_ids = set ds, ds_evaluated_at = t,
               ds_scope_version = fst (nv v), ds_mes_filtered = (tm_role m = OWNER)\<rparr>\<rparr>)"
  by (auto simp: authorize_def Let_def split_beta split: sum.splits)

lemma registered_all: "c \<in> set REGISTERED_CAPABILITIES"
  by (cases c) (simp_all add: matrix_defs)

lemma distinct_capability_values: "inj capability_value"
  by (rule injI, case_tac x; case_tac y) simp_all

lemma in_capabilities_for_role:
  "c \<in> set (capabilities_for_role r) \<longleftrightarrow> r \<in> the (map_of CAPABILITY_ROLES c)"
  by (cases c; cases r) (simp_all add: capabilities_for_role_def matrix_defs)

text \<open>The \<open>capability is not registered\<close> branch is dead: the matrix covers the enum.\<close>

lemma authorize_capability_allowed:
  "ad_allowed (authorize_capability c ctx sc) \<longleftrightarrow>
     ds_tenant_id sc = tc_tenant_id ctx \<and> c \<in> set (capabilities_for_role (tc_role ctx))"
  by (simp add: authorize_capability_def deny_def registered_all in_capabilities_for_role)

section \<open>Properties\<close>


definition demo_cred :: trusted_credential where
  "demo_cred = \<lparr>cred_tenant_id = u ''fac'', cred_user_id = u ''w1''\<rparr>"

definition demo_member :: "role \<Rightarrow> tenant_membership" where
  "demo_member r = \<lparr>tm_user_id = u ''w1'', tm_tenant_id = u ''fac'', tm_employee_id = u ''w1'',
     tm_display_name = u ''Li'', tm_role = r, tm_bound_dept_ids = [u ''d1'']\<rparr>"

definition demo_auth :: "role \<Rightarrow> resolved_authorization" where
  "demo_auth r = \<lparr>ra_identity = \<lparr>id_tenant_id = u ''fac'', id_user_id = u ''w1''\<rparr>,
     ra_tenant_context = \<lparr>tc_tenant_id = u ''fac'', tc_user_id = u ''w1'',
       tc_employee_id = u ''w1'', tc_role = r, tc_resolved_at = 5\<rparr>,
     ra_data_scope = \<lparr>ds_tenant_id = u ''fac'', ds_employee_ids = {u ''w1''},
       ds_dept_ids = {u ''d1''}, ds_evaluated_at = 5,
       ds_scope_version = u ''scope-00000001'', ds_mes_filtered = (r = OWNER)\<rparr>\<rparr>"

definition demo_assigner :: fixed_assigner where
  "demo_assigner = \<lparr>fa_prefix = u ''scope'', fa_counter = 0\<rparr>"

lemma demo_version: "fst (fixed_new_version demo_assigner) = u ''scope-00000001''"
  by (simp add: fixed_new_version_def demo_assigner_def zero_pad_def decimal.simps [of "Suc 0"]
      u_def numeral_eq_Suc)

lemma demo_authorize:
  "fst (authorize (\<lambda>c t. Inr (demo_member r)) os fixed_new_version demo_cred 5 demo_assigner) =
     Inr (demo_auth r)"
  by (simp add: authorize_Inr resolve_membership_def current_depts_def demo_cred_def
      demo_member_def demo_auth_def demo_version)


text \<open>
  \<^bold>\<open>C31\<close>.  Revalidation agrees with authorization: at a moment when \<open>authorize\<close> would issue
  \<open>b\<close>, the bound snapshot \<open>a\<close> is current exactly when it carries the same tenant, user,
  employee, role, employee set, department set and trust flag as \<open>b\<close>; a changed role, binding or
  department is noticed, and a fresh snapshot is always current.
\<close>

theorem is_current_iff_reauthorized:
  assumes "fst (authorize ms os nv cred now v) = Inr b"
  shows "is_current ms os a cred now = Inr
     (tc_tenant_id (ra_tenant_context a) = tc_tenant_id (ra_tenant_context b) \<and>
      tc_user_id (ra_tenant_context a) = tc_user_id (ra_tenant_context b) \<and>
      tc_employee_id (ra_tenant_context a) = tc_employee_id (ra_tenant_context b) \<and>
      tc_role (ra_tenant_context a) = tc_role (ra_tenant_context b) \<and>
      ds_employee_ids (ra_data_scope a) = ds_employee_ids (ra_data_scope b) \<and>
      ds_dept_ids (ra_data_scope a) = ds_dept_ids (ra_data_scope b) \<and>
      ds_mes_filtered (ra_data_scope a) = ds_mes_filtered (ra_data_scope b))
    \<and> is_current ms os b cred now = Inr True"
  using assms by (auto simp: authorize_Inr is_current_def Let_def)

theorem is_current_iff_reauthorized_witness:
  "is_current (\<lambda>c t. Inr (demo_member MANAGER)) (\<lambda>t e. Inl LookupError) (demo_auth OWNER)
     demo_cred 5 = Inr False \<and>
   is_current (\<lambda>c t. Inr (demo_member MANAGER)) (\<lambda>t e. Inl LookupError) (demo_auth MANAGER)
     demo_cred 5 = Inr True"
  using is_current_iff_reauthorized
      [OF demo_authorize [of MANAGER "\<lambda>t e. Inl LookupError"], of "demo_auth OWNER"]
  by (simp add: demo_auth_def)

text \<open>
  The tokens \<open>FixedScopeVersionAssigner\<close> hands out over any number of evaluations are
  pairwise different, so two scope evaluations never share a version.
\<close>

theorem fixed_scope_versions_distinct:
  "distinct (fst (fixed.draw n a)) \<and>
   fst (fixed.draw n a) = map (\<lambda>k. fa_prefix a @ u ''-'' @ zero_pad 8 (decimal k))
     [Suc (fa_counter a)..<Suc (fa_counter a + n)]"
  using fixed.draw_distinct fixed.draw_tokens by simp

text \<open>
  A capability is allowed exactly when the scope belongs to the active tenant and the
  matrix lists the role; a refusal always says why and offers, in sorted order, exactly the
  capabilities of the caller's role.
\<close>

theorem authorize_capability_spec:
  "(ad_allowed (authorize_capability c ctx sc) \<longleftrightarrow>
      ds_tenant_id sc = tc_tenant_id ctx \<and> tc_role ctx \<in> the (map_of CAPABILITY_ROLES c)) \<and>
   ad_capability_id (authorize_capability c ctx sc) = capability_value c \<and>
   (ad_allowed (authorize_capability c ctx sc) \<longleftrightarrow>
      ad_reason (authorize_capability c ctx sc) = None) \<and>
   (ad_allowed (authorize_capability c ctx sc) \<or>
      (sorted (ad_available_capabilities (authorize_capability c ctx sc)) \<and>
       set (ad_available_capabilities (authorize_capability c ctx sc)) =
         capability_value ` {k. tc_role ctx \<in> the (map_of CAPABILITY_ROLES k)}))"
proof -
  have set_caps: "set (capabilities_for_role r) = {k. r \<in> the (map_of CAPABILITY_ROLES k)}" for r
    by (auto simp: in_capabilities_for_role)
  show ?thesis
    by (simp add: authorize_capability_def deny_def registered_all set_caps)
qed

text \<open>
  A wider role never loses a capability: what an employee may use, group leaders and
  managers may use, and what they may use, the owner may use; only the owner has the
  factory-wide capabilities, and nobody but an employee is below management.
\<close>

theorem capability_matrix_monotone:
  "set (capabilities_for_role EMPLOYEE) \<subseteq> set (capabilities_for_role GROUP_LEADER) \<and>
   set (capabilities_for_role GROUP_LEADER) = set (capabilities_for_role MANAGER) \<and>
   set (capabilities_for_role MANAGER) \<subseteq> set (capabilities_for_role OWNER) \<and>
   set (capabilities_for_role OWNER) = UNIV \<and>
   set (capabilities_for_role OWNER) - set (capabilities_for_role MANAGER) =
     {FACTORY_ORDER_OVERVIEW, FACTORY_PAYROLL_STATS, FACTORY_OUTPUT_DASHBOARD} \<and>
   set (capabilities_for_role EMPLOYEE) =
     {OWN_OUTPUT, OWN_PAYROLL_SUMMARY, OWN_PAYROLL_DETAIL}"
proof -
  have "c \<in> set (capabilities_for_role OWNER)" for c
    by (cases c) (simp_all add: in_capabilities_for_role matrix_defs)
  then have o: "set (capabilities_for_role OWNER) = UNIV"
    by blast
  have e: "set (capabilities_for_role EMPLOYEE) =
      {OWN_OUTPUT, OWN_PAYROLL_SUMMARY, OWN_PAYROLL_DETAIL}"
    and g: "set (capabilities_for_role GROUP_LEADER) = {OWN_OUTPUT, OWN_PAYROLL_SUMMARY,
       OWN_PAYROLL_DETAIL, GROUP_INCOME_RANK, ORDER_PROGRESS, ORDER_OUTPUT, WORKSHOP_COMPARISON,
       TEAM_PAYROLL_LIST, WORKSHOP_OUTPUT_OVERVIEW, ANY_EMPLOYEE_PAYROLL}"
    and m: "set (capabilities_for_role MANAGER) = set (capabilities_for_role GROUP_LEADER)"
    by (simp_all add: capabilities_for_role_def matrix_defs)
  have "c \<in> UNIV - set (capabilities_for_role GROUP_LEADER) \<longleftrightarrow>
      c \<in> {FACTORY_ORDER_OVERVIEW, FACTORY_PAYROLL_STATS, FACTORY_OUTPUT_DASHBOARD}" for c
    by (cases c) (simp_all add: g)
  then have d: "UNIV - set (capabilities_for_role GROUP_LEADER) =
      {FACTORY_ORDER_OVERVIEW, FACTORY_PAYROLL_STATS, FACTORY_OUTPUT_DASHBOARD}"
    by blast
  have "set (capabilities_for_role EMPLOYEE) \<subseteq> set (capabilities_for_role GROUP_LEADER)"
    by (simp add: e g)
  then show ?thesis
    by (simp add: o m d e)
qed

end
