(* ===== verification/Session.thy ===== *)
theory Session
  imports Complex_Main Domain
begin

text \<open>
  The session domain of \<^verbatim>\<open>domain/session.py\<close>: the conversation state machine with its
  transition table and history, the interaction statuses with their terminal events, the durable
  record types, and the parser output types.

  The machine is a record threaded through \<open>transition_to\<close>, which fails with the pair of states
  of an illegal transition.  \<open>session_step\<close> is one successful transition and
  \<open>session_reach\<close> the machines a fresh conversation can become; the invariant
  \<open>machine_wf\<close> (the history is a chain of allowed transitions from \<open>PARSING\<close> to the
  current state) holds in all of them, by rule induction.
\<close>

section \<open>The state machine\<close>

datatype session_state = PARSING | CLARIFYING | AUTHORIZING | EXECUTING | COMPOSING | ANSWERED
  | ARCHIVED | CANCELLED | FAILED

fun ALLOWED_TRANSITIONS :: "session_state \<Rightarrow> session_state set" where
  "ALLOWED_TRANSITIONS PARSING = {ANSWERED, CLARIFYING, AUTHORIZING, CANCELLED, FAILED}"
| "ALLOWED_TRANSITIONS CLARIFYING = {PARSING, AUTHORIZING, CANCELLED, FAILED}"
| "ALLOWED_TRANSITIONS AUTHORIZING = {EXECUTING, CANCELLED, FAILED}"
| "ALLOWED_TRANSITIONS EXECUTING = {COMPOSING, CLARIFYING, CANCELLED, FAILED}"
| "ALLOWED_TRANSITIONS COMPOSING = {ANSWERED, CANCELLED, FAILED}"
| "ALLOWED_TRANSITIONS ANSWERED = {PARSING, ARCHIVED, CANCELLED, FAILED}"
| "ALLOWED_TRANSITIONS ARCHIVED = {}"
| "ALLOWED_TRANSITIONS CANCELLED = {}"
| "ALLOWED_TRANSITIONS FAILED = {}"

definition TERMINAL_STATES :: "session_state set" where
  "TERMINAL_STATES = {ARCHIVED, CANCELLED, FAILED}"

datatype invalid_transition = InvalidStateTransitionError session_state session_state

definition is_terminal :: "session_state \<Rightarrow> bool" where
  "is_terminal s \<longleftrightarrow> s \<in> TERMINAL_STATES"

definition can_transition :: "session_state \<Rightarrow> session_state \<Rightarrow> bool" where
  "can_transition source target =
     (if target = FAILED then source \<notin> TERMINAL_STATES
      else target \<in> ALLOWED_TRANSITIONS source)"

definition assert_transition :: "session_state \<Rightarrow> session_state \<Rightarrow> invalid_transition + unit" where
  "assert_transition source target =
     (if \<not> can_transition source target then Inl (InvalidStateTransitionError source target)
      else Inr ())"

record state_transition =
  from_state :: session_state
  to_state :: session_state
  st_reason :: pystr
  st_occurred_at :: instant

record session_machine =
  sm_state :: session_state
  sm_history :: "state_transition list"

definition initial_machine :: session_machine where
  "initial_machine = \<lparr>sm_state = PARSING, sm_history = []\<rparr>"

definition transition_to ::
  "session_machine \<Rightarrow> session_state \<Rightarrow> pystr \<Rightarrow> instant \<Rightarrow> invalid_transition + session_machine"
where
  "transition_to m target why tm =
     rbind (assert_transition (sm_state m) target) (\<lambda>_.
       Inr \<lparr>sm_state = target,
            sm_history = sm_history m @ [\<lparr>from_state = sm_state m, to_state = target,
                                          st_reason = why, st_occurred_at = tm\<rparr>]\<rparr>)"

section \<open>Interaction statuses and terminal events\<close>

datatype interaction_status = IPending | IRunning | ICompleted | IFailed | ICancelled

definition TERMINAL_INTERACTION_STATUSES :: "interaction_status set" where
  "TERMINAL_INTERACTION_STATUSES = {ICompleted, IFailed, ICancelled}"

datatype message_role = USER | ASSISTANT | SYSTEM

datatype message_kind = PLAIN_TEXT | CHAT | CLARIFICATION | PHASE | RESULT_TABLE | ERROR | THINKING

record interaction_record =
  ir_interaction_id :: interaction_id
  ir_session_id :: pystr
  ir_tenant_id :: tenant_id
  ir_user_id :: user_id
  ir_status :: interaction_status
  ir_state :: session_state
  ir_input_text :: pystr
  ir_capability_id :: "pystr option"
  ir_clarification_rounds :: int
  ir_last_event_sequence :: int
  ir_error_category :: "pystr option"
  ir_created_at :: instant
  ir_updated_at :: instant
  ir_completed_at :: "instant option"

record message_record =
  mr_message_id :: pystr
  mr_interaction_id :: interaction_id
  mr_session_id :: pystr
  mr_tenant_id :: tenant_id
  mr_user_id :: user_id
  mr_role :: message_role
  mr_kind :: message_kind
  mr_sequence :: int
  mr_text :: pystr
  mr_payload :: payload
  mr_created_at :: instant

record conversation_record =
  cr_session_id :: pystr
  cr_tenant_id :: tenant_id
  cr_user_id :: user_id
  cr_created_at :: instant
  cr_updated_at :: instant

record session_event =
  ev_sequence :: int
  ev_name :: pystr
  ev_data :: payload

definition INTERACTION_HEARTBEAT :: pystr where
  "INTERACTION_HEARTBEAT = u ''interaction.heartbeat''"
definition INTERACTION_COMPLETED :: pystr where
  "INTERACTION_COMPLETED = u ''interaction.completed''"
definition INTERACTION_FAILED :: pystr where
  "INTERACTION_FAILED = u ''interaction.failed''"
definition INTERACTION_CANCELLED :: pystr where
  "INTERACTION_CANCELLED = u ''interaction.cancelled''"

definition TERMINAL_EVENT_NAMES :: "pystr set" where
  "TERMINAL_EVENT_NAMES = {INTERACTION_COMPLETED, INTERACTION_FAILED, INTERACTION_CANCELLED}"

definition TERMINAL_EVENT_BY_STATUS :: "(interaction_status, pystr) dict" where
  "TERMINAL_EVENT_BY_STATUS = [(ICompleted, INTERACTION_COMPLETED),
     (IFailed, INTERACTION_FAILED), (ICancelled, INTERACTION_CANCELLED)]"

definition terminal_event_name :: "interaction_status \<Rightarrow> value_error + pystr" where
  "terminal_event_name status = (case map_of TERMINAL_EVENT_BY_STATUS status of
     Some n \<Rightarrow> Inr n
   | None \<Rightarrow> Inl (ValueError (u '' is not a terminal interaction status'')))"

section \<open>Parser output\<close>

record intent_slots =
  sl_time_range_start :: "instant option"
  sl_time_range_end :: "instant option"
  sl_time_expression :: "pystr option"
  sl_order_codes :: "pystr list"
  sl_plan_codes :: "pystr list"
  sl_style_codes :: "pystr list"
  sl_bed_codes :: "pystr list"
  sl_material_ids :: "pystr list"
  sl_dept_names :: "pystr list"
  sl_employee_names :: "pystr list"

definition filled_names :: "intent_slots \<Rightarrow> pystr set" where
  "filled_names s =
     (if sl_time_range_start s \<noteq> None \<and> sl_time_range_end s \<noteq> None
        then {u ''time_range''} else {}) \<union>
     set (map fst (filter (\<lambda>(n, vs). vs \<noteq> [])
       [(u ''order_codes'', sl_order_codes s), (u ''plan_codes'', sl_plan_codes s),
        (u ''style_codes'', sl_style_codes s), (u ''bed_codes'', sl_bed_codes s),
        (u ''material_ids'', sl_material_ids s), (u ''dept_names'', sl_dept_names s),
        (u ''employee_names'', sl_employee_names s)]))"

text \<open>The confidence is a float, read as its real value; \<open>None\<close> stands for a NaN, for which
  \<open>0.0 <= c <= 1.0\<close> is false.\<close>

record capability_intent =
  ci_capability_id :: "pystr option"
  ci_confidence :: real
  ci_slots :: intent_slots
  ci_missing :: "pystr list"
  ci_ambiguous :: "pystr list"

definition CapabilityIntent ::
  "pystr option \<Rightarrow> real option \<Rightarrow> intent_slots \<Rightarrow> pystr list \<Rightarrow> pystr list
   \<Rightarrow> value_error + capability_intent" where
  "CapabilityIntent cap conf slots missing ambiguous = (case conf of
     Some c \<Rightarrow> if \<not> (0 \<le> c \<and> c \<le> 1)
       then Inl (ValueError (u ''confidence must be between 0.0 and 1.0''))
       else Inr \<lparr>ci_capability_id = cap, ci_confidence = c, ci_slots = slots,
                 ci_missing = missing, ci_ambiguous = ambiguous\<rparr>
   | None \<Rightarrow> Inl (ValueError (u ''confidence must be between 0.0 and 1.0'')))"

definition needs_clarification :: "capability_intent \<Rightarrow> bool" where
  "needs_clarification i \<longleftrightarrow>
     ci_capability_id i = None \<or> ci_missing i \<noteq> [] \<or> ci_ambiguous i \<noteq> []"

section \<open>Steps, reachable machines and the history invariant\<close>

inductive session_step :: "session_machine \<Rightarrow> session_machine \<Rightarrow> bool" where
  apply_transition: "transition_to m target why tm = Inr m' \<Longrightarrow> session_step m m'"

inductive session_reach :: "session_machine \<Rightarrow> bool" where
  fresh: "session_reach initial_machine"
| more: "session_reach m \<Longrightarrow> session_step m m' \<Longrightarrow> session_reach m'"

inductive_cases session_stepE: "session_step m m'"

fun chained :: "session_state \<Rightarrow> state_transition list \<Rightarrow> session_state \<Rightarrow> bool" where
  "chained s [] t \<longleftrightarrow> s = t"
| "chained s (h # hs) t \<longleftrightarrow>
     from_state h = s \<and> can_transition s (to_state h) \<and> chained (to_state h) hs t"

definition machine_wf :: "session_machine \<Rightarrow> bool" where
  "machine_wf m \<longleftrightarrow> chained PARSING (sm_history m) (sm_state m)"

lemmas state_defs = can_transition_def TERMINAL_STATES_def is_terminal_def

lemma can_transition_table: "can_transition s t \<longleftrightarrow> t \<in> ALLOWED_TRANSITIONS s"
  by (cases s) (auto simp: state_defs)

lemma transition_to_Inr:
  "transition_to m t why tm = Inr m' \<longleftrightarrow>
     can_transition (sm_state m) t \<and>
     m' = \<lparr>sm_state = t, sm_history = sm_history m @ [\<lparr>from_state = sm_state m, to_state = t,
             st_reason = why, st_occurred_at = tm\<rparr>]\<rparr>"
  by (auto simp: transition_to_def assert_transition_def result_simps)

lemma chained_append: "chained s (hs @ gs) t \<longleftrightarrow> (\<exists>v. chained s hs v \<and> chained v gs t)"
  by (induction hs arbitrary: s) auto

lemma session_step_wf: "session_step m m' \<Longrightarrow> machine_wf m \<Longrightarrow> machine_wf m'"
  by (auto elim!: session_stepE simp: transition_to_Inr machine_wf_def chained_append)

lemma session_reach_wf: "session_reach m \<Longrightarrow> machine_wf m"
proof (induction rule: session_reach.induct)
  case fresh
  then show ?case by (simp add: machine_wf_def initial_machine_def)
next
  case (more m m')
  then show ?case by (blast intro: session_step_wf)
qed

lemma chained_nth:
  "chained s hs t \<Longrightarrow> i < length hs \<Longrightarrow> can_transition (from_state (hs ! i)) (to_state (hs ! i))"
  by (induction hs arbitrary: s i) (auto simp: nth_Cons split: nat.splits)

lemma chained_prev:
  "chained s hs t \<Longrightarrow> i < length hs \<Longrightarrow>
     from_state (hs ! i) = (if i = 0 then s else to_state (hs ! (i - 1)))"
proof (induction hs arbitrary: s i)
  case (Cons h hs)
  show ?case
  proof (cases i)
    case (Suc j)
    then have "from_state (hs ! j) = (if j = 0 then to_state h else to_state (hs ! (j - 1)))"
      using Cons by simp
    then show ?thesis using Suc by (cases j) simp_all
  qed (use Cons.prems in simp)
qed simp

lemma enter_executing: "can_transition s EXECUTING \<Longrightarrow> s = AUTHORIZING"
  and enter_composing: "can_transition s COMPOSING \<Longrightarrow> s = EXECUTING"
  by (cases s; simp add: can_transition_table)+

inductive state_path :: "session_state \<Rightarrow> session_state \<Rightarrow> bool" where
  here: "state_path s s"
| step: "can_transition s t \<Longrightarrow> state_path t v \<Longrightarrow> state_path s v"

lemma state_path_to_answered: "\<not> is_terminal s \<Longrightarrow> state_path s ANSWERED"
proof -
  have c: "state_path COMPOSING ANSWERED" and p: "state_path PARSING ANSWERED"
    by (rule state_path.step [of _ ANSWERED], simp add: can_transition_table,
        rule state_path.here)+
  have e: "state_path EXECUTING ANSWERED"
    by (rule state_path.step [of _ COMPOSING]) (simp_all add: can_transition_table c)
  have a: "state_path AUTHORIZING ANSWERED"
    by (rule state_path.step [of _ EXECUTING]) (simp_all add: can_transition_table e)
  have cl: "state_path CLARIFYING ANSWERED"
    by (rule state_path.step [of _ AUTHORIZING]) (simp_all add: can_transition_table a)
  assume "\<not> is_terminal s"
  then show ?thesis
    by (cases s) (auto simp: state_defs c p e a cl intro: state_path.here)
qed

section \<open>Properties\<close>

text \<open>
  In every conversation a fresh machine can become, the history is one unbroken chain
  from \<open>PARSING\<close> to the current state in which every entry is a transition the table allows:
  entry \<open>i\<close> starts where entry \<open>i - 1\<close> ended.
\<close>

theorem session_history_chain:
  assumes "session_reach m" and "i < length (sm_history m)"
  shows "from_state (sm_history m ! i) =
           (if i = 0 then PARSING else to_state (sm_history m ! (i - 1))) \<and>
         to_state (sm_history m ! i) \<in> ALLOWED_TRANSITIONS (from_state (sm_history m ! i)) \<and>
         sm_state m = to_state (last (sm_history m))"
proof -
  have wf: "chained PARSING (sm_history m) (sm_state m)"
    using session_reach_wf [OF assms(1)] by (simp add: machine_wf_def)
  obtain hs h where h: "sm_history m = hs @ [h]"
    using assms(2) by (metis length_0_conv not_less_zero rev_exhaust)
  have "sm_state m = to_state (last (sm_history m))"
    using wf by (auto simp: h chained_append)
  then show ?thesis
    using chained_prev [OF wf assms(2)] chained_nth [OF wf assms(2)]
    by (simp add: can_transition_table)
qed

definition demo_machine :: session_machine where
  "demo_machine = \<lparr>sm_state = EXECUTING, sm_history =
     [\<lparr>from_state = PARSING, to_state = AUTHORIZING, st_reason = u ''routed'', st_occurred_at = 1\<rparr>,
      \<lparr>from_state = AUTHORIZING, to_state = EXECUTING, st_reason = u ''allowed'', st_occurred_at = 2\<rparr>]\<rparr>"

lemma demo_machine_reach: "session_reach demo_machine"
proof -
  let ?m = "\<lparr>sm_state = AUTHORIZING, sm_history =
     [\<lparr>from_state = PARSING, to_state = AUTHORIZING, st_reason = u ''routed'', st_occurred_at = 1\<rparr>]\<rparr>"
  have "session_step initial_machine ?m"
    by (rule session_step.intros [of _ AUTHORIZING "u ''routed''" 1])
      (simp add: transition_to_Inr initial_machine_def can_transition_table)
  then have "session_reach ?m"
    by (rule session_reach.more [OF session_reach.fresh])
  moreover have "session_step ?m demo_machine"
    by (rule session_step.intros [of _ EXECUTING "u ''allowed''" 2])
      (simp add: transition_to_Inr demo_machine_def can_transition_table)
  ultimately show ?thesis by (rule session_reach.more)
qed

theorem session_history_chain_witness:
  "from_state (sm_history demo_machine ! 1) = to_state (sm_history demo_machine ! 0) \<and>
   sm_state demo_machine = EXECUTING"
proof -
  have "1 < length (sm_history demo_machine)" by (simp add: demo_machine_def)
  then show ?thesis
    using session_history_chain [OF demo_machine_reach, of 1] by (simp add: demo_machine_def)
qed

text \<open>
  \<^bold>\<open>C13\<close>.  No answer is composed without authorization: in every reachable conversation an entry
  that leaves \<open>COMPOSING\<close> is preceded immediately by \<open>EXECUTING\<close> to \<open>COMPOSING\<close>, and
  that one by \<open>AUTHORIZING\<close> to \<open>EXECUTING\<close>.
\<close>

theorem no_composition_without_authorization:
  assumes reach: "session_reach m" and i: "i < length (sm_history m)"
    and comp: "from_state (sm_history m ! i) = COMPOSING"
  shows "2 \<le> i \<and>
    from_state (sm_history m ! (i - 1)) = EXECUTING \<and> to_state (sm_history m ! (i - 1)) = COMPOSING \<and>
    from_state (sm_history m ! (i - 2)) = AUTHORIZING \<and> to_state (sm_history m ! (i - 2)) = EXECUTING"
proof -
  let ?h = "sm_history m"
  have wf: "chained PARSING ?h (sm_state m)"
    using session_reach_wf [OF reach] by (simp add: machine_wf_def)
  have prev: "from_state (?h ! j) = (if j = 0 then PARSING else to_state (?h ! (j - 1)))"
    if "j \<le> i" for j
    using chained_prev [OF wf] that i by simp
  have ok: "can_transition (from_state (?h ! j)) (to_state (?h ! j))" if "j \<le> i" for j
    using chained_nth [OF wf] that i by simp
  have i0: "i \<noteq> 0" and c1: "to_state (?h ! (i - 1)) = COMPOSING"
    using prev [of i] comp by (auto split: if_splits)
  then have e1: "from_state (?h ! (i - 1)) = EXECUTING"
    using ok [of "i - 1"] enter_composing by simp
  then have i1: "i - 1 \<noteq> 0" and c2: "to_state (?h ! (i - 2)) = EXECUTING"
    using prev [of "i - 1"] by (auto split: if_splits simp: numeral_2_eq_2)
  then have "from_state (?h ! (i - 2)) = AUTHORIZING"
    using ok [of "i - 2"] enter_executing by simp
  then show ?thesis using i0 i1 c1 e1 c2 by simp
qed

definition demo_answered :: session_machine where
  "demo_answered = \<lparr>sm_state = ANSWERED, sm_history = sm_history demo_machine @
     [\<lparr>from_state = EXECUTING, to_state = COMPOSING, st_reason = u ''rows'', st_occurred_at = 3\<rparr>,
      \<lparr>from_state = COMPOSING, to_state = ANSWERED, st_reason = u ''done'', st_occurred_at = 4\<rparr>]\<rparr>"

lemma demo_answered_reach: "session_reach demo_answered"
proof -
  let ?m = "\<lparr>sm_state = COMPOSING, sm_history = sm_history demo_machine @
     [\<lparr>from_state = EXECUTING, to_state = COMPOSING, st_reason = u ''rows'', st_occurred_at = 3\<rparr>]\<rparr>"
  have "session_step demo_machine ?m"
    by (rule session_step.intros [of _ COMPOSING "u ''rows''" 3])
      (simp add: transition_to_Inr demo_machine_def can_transition_table)
  then have "session_reach ?m" by (rule session_reach.more [OF demo_machine_reach])
  moreover have "session_step ?m demo_answered"
    by (rule session_step.intros [of _ ANSWERED "u ''done''" 4])
      (simp add: transition_to_Inr demo_answered_def can_transition_table)
  ultimately show ?thesis by (rule session_reach.more)
qed

theorem no_composition_without_authorization_witness:
  "from_state (sm_history demo_answered ! 3) = COMPOSING \<and>
   from_state (sm_history demo_answered ! 1) = AUTHORIZING"
proof -
  have len: "3 < length (sm_history demo_answered)"
    and comp: "from_state (sm_history demo_answered ! 3) = COMPOSING"
    by (simp_all add: demo_answered_def demo_machine_def)
  show ?thesis
    using no_composition_without_authorization [OF demo_answered_reach len comp] comp by simp
qed

text \<open>
  Terminal states are final and failure is always possible before them: from a terminal
  state every transition is refused with the offending pair, from any other state a transition to
  \<open>FAILED\<close> succeeds, and from any other state an answer can still be reached.
\<close>

theorem terminal_states_final:
  "(is_terminal (sm_state m) \<longleftrightarrow>
      (\<forall>t why tm. transition_to m t why tm = Inl (InvalidStateTransitionError (sm_state m) t))) \<and>
   (\<not> is_terminal (sm_state m) \<longleftrightarrow>
      transition_to m FAILED why tm = Inr \<lparr>sm_state = FAILED, sm_history = sm_history m @
        [\<lparr>from_state = sm_state m, to_state = FAILED, st_reason = why, st_occurred_at = tm\<rparr>]\<rparr>) \<and>
   (is_terminal (sm_state m) \<or> state_path (sm_state m) ANSWERED)"
proof -
  have fin: "is_terminal s \<longleftrightarrow> (\<forall>t. \<not> can_transition s t)" for s
    by (cases s) (auto simp: state_defs)
  have fail: "\<not> is_terminal s \<longleftrightarrow> can_transition s FAILED" for s
    by (auto simp: state_defs)
  have "transition_to m t why tm = Inl (InvalidStateTransitionError (sm_state m) t) \<longleftrightarrow>
      \<not> can_transition (sm_state m) t" for t why tm
    by (auto simp: transition_to_def assert_transition_def)
  then show ?thesis
    using fin fail state_path_to_answered by (auto simp: transition_to_Inr) blast
qed

text \<open>
  \<open>terminal_event_name\<close> is defined exactly on the terminal interaction statuses, its
  results are exactly the terminal event names, and different statuses have different events.
\<close>

theorem terminal_event_name_bijective:
  "((\<exists>n. terminal_event_name s = Inr n) \<longleftrightarrow> s \<in> TERMINAL_INTERACTION_STATUSES) \<and>
   {n. \<exists>s. terminal_event_name s = Inr n} = TERMINAL_EVENT_NAMES \<and>
   (terminal_event_name s = Inr n \<and> terminal_event_name s' = Inr n \<longrightarrow> s = s')"
proof -
  have eq: "terminal_event_name s = Inr n \<longleftrightarrow>
      (s = ICompleted \<and> n = INTERACTION_COMPLETED) \<or> (s = IFailed \<and> n = INTERACTION_FAILED) \<or>
      (s = ICancelled \<and> n = INTERACTION_CANCELLED)" for s n
    by (cases s) (auto simp: terminal_event_name_def TERMINAL_EVENT_BY_STATUS_def)
  have names: "INTERACTION_COMPLETED \<noteq> INTERACTION_FAILED"
    "INTERACTION_COMPLETED \<noteq> INTERACTION_CANCELLED" "INTERACTION_FAILED \<noteq> INTERACTION_CANCELLED"
    by (simp_all add: INTERACTION_COMPLETED_def INTERACTION_FAILED_def INTERACTION_CANCELLED_def)
  show ?thesis
    using names by (auto simp: eq TERMINAL_INTERACTION_STATUSES_def TERMINAL_EVENT_NAMES_def)
qed

theorem terminal_event_name_bijective_witness:
  "terminal_event_name IFailed = Inr INTERACTION_FAILED \<and> IFailed \<in> TERMINAL_INTERACTION_STATUSES"
proof -
  have "terminal_event_name IFailed = Inr INTERACTION_FAILED"
    by (simp add: terminal_event_name_def TERMINAL_EVENT_BY_STATUS_def)
  then show ?thesis
    using terminal_event_name_bijective [of IFailed INTERACTION_FAILED IFailed] by blast
qed

end
