(* ===== verification/Filters.thy ===== *)
theory Filters
  imports Session
begin

text \<open>
  User filters against the immutable scope: \<^verbatim>\<open>application/filters.py\<close>
  (\<open>FilterNarrower.narrow\<close>), and the resolution of department and employee names through the
  directory, \<^verbatim>\<open>application/business_filters.py\<close> with the records of
  \<^verbatim>\<open>ports/directory.py\<close>.

  The directory port is an argument: two functions of the scope that return the roster or raise.
\<close>

section \<open>filters.py\<close>

datatype filter_rejection = FilterRejectionError pystr pystr

text \<open>A member of \<open>bed_codes\<close>: the code checks at run time that it is a string.\<close>

datatype bed_code = BedStr (bed_str: pystr) | BedNotStr

fun bed_code_valid :: "bed_code \<Rightarrow> bool" where
  "bed_code_valid (BedStr s) \<longleftrightarrow> s \<noteq> []"
| "bed_code_valid BedNotStr \<longleftrightarrow> False"

text \<open>The arguments of \<open>narrow\<close> beside the scope.\<close>

record narrow_request =
  nr_employee_ids :: "employee_id set option"
  nr_dept_ids :: "dept_id set option"
  nr_order_ids :: "pystr set option"
  nr_style_ids :: "pystr set option"
  nr_plan_ids :: "pystr set option"
  nr_material_ids :: "pystr set option"
  nr_tenant_resolved_employee_ids :: "employee_id set option"
  nr_restrict_to_scope_employees :: bool
  nr_bed_codes :: "bed_code set option"

definition as_set :: "'a set option \<Rightarrow> 'a set option" where
  "as_set values = (case values of None \<Rightarrow> None
     | Some vs \<Rightarrow> if vs = {} then None else Some vs)"

definition narrow_employees ::
  "data_scope \<Rightarrow> narrow_request \<Rightarrow> filter_rejection + employee_id set option" where
  "narrow_employees scope r = (case nr_employee_ids r of
     Some ids \<Rightarrow>
       (case narrow_to_employees scope ids of
          None \<Rightarrow> Inl (FilterRejectionError (u ''forbidden'')
            (u ''requested employees are outside the authorized scope''))
        | Some s \<Rightarrow> Inr (Some (ds_employee_ids s)))
   | None \<Rightarrow>
       (case nr_tenant_resolved_employee_ids r of
          Some ids \<Rightarrow> Inr (Some ids)
        | None \<Rightarrow>
            if nr_restrict_to_scope_employees r then Inr (Some (ds_employee_ids scope))
            else Inr None))"

text \<open>The departments to send and the departments the user asked for.\<close>

definition narrow_depts ::
  "data_scope \<Rightarrow> narrow_request \<Rightarrow> filter_rejection + dept_id set option \<times> dept_id set option" where
  "narrow_depts scope r = (case nr_dept_ids r of
     Some ids \<Rightarrow>
       if ds_mes_filtered scope then Inr (Some ids, Some ids)
       else (case narrow_to_depts scope ids of
          None \<Rightarrow> Inl (FilterRejectionError (u ''forbidden'')
            (u ''requested departments are outside the authorized scope''))
        | Some s \<Rightarrow> Inr (Some (ds_dept_ids s), Some (ds_dept_ids s)))
   | None \<Rightarrow> Inr (Some (ds_dept_ids scope), None))"

text \<open>\<open>x is None or not x\<close> on an optional set.\<close>

definition falsy :: "'a set option \<Rightarrow> bool" where
  "falsy v \<longleftrightarrow> v = None \<or> v = Some {}"

definition narrow ::
  "data_scope \<Rightarrow> narrow_request \<Rightarrow> filter_rejection + narrowed_filters" where
  "narrow scope r =
     (if (\<exists>codes. nr_bed_codes r = Some codes \<and> (\<exists>c \<in> codes. \<not> bed_code_valid c))
      then Inl (FilterRejectionError (u ''invalid_filter'')
        (u ''bed identifiers must be nonempty strings''))
      else rbind (narrow_employees scope r) (\<lambda>employees.
        rbind (narrow_depts scope r) (\<lambda>(depts, requested).
          if nr_employee_ids r \<noteq> None \<and> falsy employees
          then Inl (FilterRejectionError (u ''forbidden'') (u ''employee filter intersects to empty''))
          else if nr_dept_ids r \<noteq> None \<and> falsy depts
          then Inl (FilterRejectionError (u ''forbidden'') (u ''department filter intersects to empty''))
          else Inr \<lparr>nf_tenant_id = ds_tenant_id scope, nf_employee_ids = employees,
            nf_dept_ids = depts, nf_order_codes = as_set (nr_order_ids r),
            nf_style_codes = as_set (nr_style_ids r), nf_plan_codes = as_set (nr_plan_ids r),
            nf_material_ids = as_set (nr_material_ids r), nf_requested_dept_ids = requested,
            nf_bed_codes = map_option ((`) bed_str) (as_set (nr_bed_codes r))\<rparr>)))"

section \<open>directory.py and business_filters.py\<close>

record dept_record =
  dr_dept_id :: pystr
  dr_name :: pystr
  dr_name_pk :: pystr

record employee_record =
  emp_employee_id :: pystr
  emp_name :: pystr
  emp_name_pk :: pystr
  emp_dept :: "pystr option"

record directory =
  list_depts :: "data_scope \<Rightarrow> mes_error + dept_record list"
  list_employees :: "data_scope \<Rightarrow> mes_error + employee_record list"

datatype resolve_error =
    DirectoryError pystr pystr
  | IdentifierError value_error
  | DirectoryPortError mes_error

record resolved_business_filters =
  rbf_employee_ids :: "employee_id set option"
  rbf_dept_ids :: "dept_id set option"
  rbf_order_codes :: "pystr set option"
  rbf_style_codes :: "pystr set option"
  rbf_plan_codes :: "pystr set option"
  rbf_material_ids :: "pystr set option"
  rbf_bed_codes :: "pystr set option"

definition rbf_is_empty :: "resolved_business_filters \<Rightarrow> bool" where
  "rbf_is_empty f \<longleftrightarrow> falsy (rbf_employee_ids f) \<and> falsy (rbf_dept_ids f) \<and>
     falsy (rbf_order_codes f) \<and> falsy (rbf_style_codes f) \<and> falsy (rbf_plan_codes f) \<and>
     falsy (rbf_material_ids f) \<and> falsy (rbf_bed_codes f)"

definition as_frozenset :: "pystr list \<Rightarrow> pystr set option" where
  "as_frozenset values = (if values = [] then None else Some (set values))"

text \<open>Lift an exception of another layer.\<close>

definition lift_err :: "('e \<Rightarrow> 'f) \<Rightarrow> 'e + 'a \<Rightarrow> 'f + 'a" where
  "lift_err h m = (case m of Inl e \<Rightarrow> Inl (h e) | Inr x \<Rightarrow> Inr x)"

text \<open>
  One name against a roster: no match is \<open>not_found\<close>, two identifiers behind one name are
  \<open>ambiguous\<close>, and the one identifier goes through the checked \<open>NonEmptyId\<close> constructor.
  The roster is a list; the distinct identifiers of the matches are their \<open>from_keys\<close>.
\<close>

definition resolve_name ::
  "('r \<Rightarrow> bool) \<Rightarrow> ('r \<Rightarrow> pystr) \<Rightarrow> pystr \<Rightarrow> pystr \<Rightarrow> 'r list \<Rightarrow> resolve_error + pystr" where
  "resolve_name matches ident missing ambiguous records =
     (let found = filter matches records; distinct_ids = from_keys (map ident found)
      in if found = [] then Inl (DirectoryError (u ''not_found'') missing)
         else if length distinct_ids > 1 then Inl (DirectoryError (u ''ambiguous'') ambiguous)
         else lift_err IdentifierError (NonEmptyId (hd distinct_ids)))"

definition resolve_dept_names ::
  "directory \<Rightarrow> data_scope \<Rightarrow> pystr list \<Rightarrow> resolve_error + dept_id set option" where
  "resolve_dept_names dir scope names =
     (if names = [] then Inr None
      else rbind (lift_err DirectoryPortError (list_depts dir scope)) (\<lambda>depts.
        rbind (rmap (\<lambda>name. resolve_name (\<lambda>d. dr_name d = name \<or> dr_name_pk d = name) dr_dept_id
            ([26410, 25214, 21040, 36710, 38388, 12300] @ name @ [12301])
            ([36710, 38388, 12300] @ name @ [12301, 23384, 22312, 22810, 20010, 21305, 37197])
            depts) names)
          (\<lambda>ids. Inr (Some (set ids)))))"

definition resolve_employee_names ::
  "directory \<Rightarrow> data_scope \<Rightarrow> pystr list \<Rightarrow> resolve_error + employee_id set option" where
  "resolve_employee_names dir scope names =
     (if names = [] then Inr None
      else rbind (lift_err DirectoryPortError (list_employees dir scope)) (\<lambda>employees.
        rbind (rmap (\<lambda>name. resolve_name (\<lambda>e. emp_name e = name) emp_employee_id
            ([26410, 25214, 21040, 21592, 24037, 12300] @ name @ [12301])
            ([21592, 24037, 12300] @ name @ [12301, 23384, 22312, 21516, 21517, 65292, 35831,
              25552, 20379, 24037, 21495])
            employees) names)
          (\<lambda>ids. Inr (Some (set ids)))))"

definition resolve ::
  "directory \<Rightarrow> data_scope \<Rightarrow> intent_slots \<Rightarrow> resolve_error + resolved_business_filters" where
  "resolve dir scope slots =
     rbind (resolve_dept_names dir scope (sl_dept_names slots)) (\<lambda>depts.
     rbind (resolve_employee_names dir scope (sl_employee_names slots)) (\<lambda>employees.
     Inr \<lparr>rbf_employee_ids = employees, rbf_dept_ids = depts,
       rbf_order_codes = as_frozenset (sl_order_codes slots),
       rbf_style_codes = as_frozenset (sl_style_codes slots),
       rbf_plan_codes = as_frozenset (sl_plan_codes slots),
       rbf_material_ids = as_frozenset (sl_material_ids slots),
       rbf_bed_codes = as_frozenset (sl_bed_codes slots)\<rparr>))"

definition find_employee_by_id ::
  "directory \<Rightarrow> data_scope \<Rightarrow> pystr \<Rightarrow> mes_error + employee_record option" where
  "find_employee_by_id dir scope eid =
     rbind (list_employees dir scope) (\<lambda>employees.
       Inr (find (\<lambda>e. emp_employee_id e = eid) employees))"

section \<open>Lemmas\<close>

lemma falsy_simps [simp]: "falsy None" "falsy (Some s) \<longleftrightarrow> s = {}"
  by (auto simp: falsy_def)

lemma as_set_Some: "as_set v = Some s \<longleftrightarrow> v = Some s \<and> s \<noteq> {}"
  by (auto simp: as_set_def split: option.splits)

lemma as_set_None: "as_set v = None \<longleftrightarrow> falsy v"
  by (auto simp: as_set_def split: option.splits)

lemma as_frozenset_simps [simp]: "falsy (as_frozenset xs) \<longleftrightarrow> xs = []"
  by (simp add: as_frozenset_def)

lemma lift_err_simps [simp]:
  "lift_err h (Inl e) = Inl (h e)" "lift_err h (Inr x) = Inr x"
  by (simp_all add: lift_err_def)

lemma lift_err_Inr [result_simps]: "lift_err h m = Inr x \<longleftrightarrow> m = Inr x"
  by (cases m) auto

lemma NonEmptyId_Inr: "NonEmptyId v = Inr w \<longleftrightarrow> v = w \<and> v \<noteq> [] \<and> v = py_strip v"
  by (auto simp: NonEmptyId_def)

text \<open>The refused branches of \<open>narrow\<close> after the two intersections are dead code except for
  one: a whole-tenant scope that asks for an empty department set.\<close>

lemma narrow_employees_Inr:
  "narrow_employees scope r = Inr es \<longleftrightarrow>
     (case nr_employee_ids r of
        Some ids \<Rightarrow> ds_employee_ids scope \<inter> ids \<noteq> {} \<and> es = Some (ds_employee_ids scope \<inter> ids)
      | None \<Rightarrow> es = (case nr_tenant_resolved_employee_ids r of
            Some ids \<Rightarrow> Some ids
          | None \<Rightarrow> if nr_restrict_to_scope_employees r then Some (ds_employee_ids scope) else None))"
  by (auto simp: narrow_employees_def narrow_to_employees_def Let_def split: option.splits)

lemma narrow_depts_Inr:
  "narrow_depts scope r = Inr (ds, req) \<longleftrightarrow>
     (case nr_dept_ids r of
        Some ids \<Rightarrow>
          if ds_mes_filtered scope then ds = Some ids \<and> req = Some ids
          else ds_dept_ids scope \<inter> ids \<noteq> {} \<and> ds = Some (ds_dept_ids scope \<inter> ids) \<and> req = ds
      | None \<Rightarrow> ds = Some (ds_dept_ids scope) \<and> req = None)"
  by (auto simp: narrow_depts_def narrow_to_depts_def Let_def split: option.splits)

text \<open>Outside a whole-tenant scope the departments that are sent lie in the scope.\<close>

lemma narrow_depts_subset:
  assumes "narrow_depts scope r = Inr (d, requested)" and "\<not> ds_mes_filtered scope"
  shows "\<exists>ds. d = Some ds \<and> ds \<subseteq> ds_dept_ids scope"
  using assms by (auto simp: narrow_depts_Inr split: option.splits)

lemma narrow_employees_Inl:
  "(\<exists>e. narrow_employees scope r = Inl e) \<longleftrightarrow>
     (\<exists>ids. nr_employee_ids r = Some ids \<and> ds_employee_ids scope \<inter> ids = {})"
  by (auto simp: narrow_employees_def narrow_to_employees_def Let_def split: option.splits)

lemma narrow_depts_Inl:
  "(\<exists>e. narrow_depts scope r = Inl e) \<longleftrightarrow>
     (\<exists>ids. nr_dept_ids r = Some ids \<and> \<not> ds_mes_filtered scope \<and> ds_dept_ids scope \<inter> ids = {})"
  by (auto simp: narrow_depts_def narrow_to_depts_def Let_def split: option.splits)

lemma narrow_Inr:
  "narrow scope r = Inr f \<longleftrightarrow>
     (\<forall>codes. nr_bed_codes r = Some codes \<longrightarrow> (\<forall>c \<in> codes. bed_code_valid c)) \<and>
     narrow_employees scope r = Inr (nf_employee_ids f) \<and>
     narrow_depts scope r = Inr (nf_dept_ids f, nf_requested_dept_ids f) \<and>
     \<not> (nr_employee_ids r \<noteq> None \<and> falsy (nf_employee_ids f)) \<and>
     \<not> (nr_dept_ids r \<noteq> None \<and> falsy (nf_dept_ids f)) \<and>
     nf_tenant_id f = ds_tenant_id scope \<and>
     nf_order_codes f = as_set (nr_order_ids r) \<and> nf_style_codes f = as_set (nr_style_ids r) \<and>
     nf_plan_codes f = as_set (nr_plan_ids r) \<and> nf_material_ids f = as_set (nr_material_ids r) \<and>
     nf_bed_codes f = map_option ((`) bed_str) (as_set (nr_bed_codes r))"
  unfolding narrow_def by (cases f) (auto simp: result_simps split: if_splits prod.splits)

lemma from_keys_single:
  assumes "from_keys xs = [x]"
  shows "set xs = {x}"
  using set_from_keys [of xs] assms by simp

lemma from_keys_of_singleton:
  assumes "set xs = {x}"
  shows "from_keys xs = [x]"
proof -
  have "set (from_keys xs) = {x}" and "distinct (from_keys xs)" using assms by simp_all
  then show ?thesis
    by (cases "from_keys xs" rule: remdups_adj.cases) auto
qed

lemma resolve_name_Inr:
  "resolve_name m ident a b records = Inr i \<longleftrightarrow>
     ident ` {r \<in> set records. m r} = {i} \<and> NonEmptyId i = Inr i"
proof -
  let ?ids = "map ident (filter m records)"
  have set_ids: "set ?ids = ident ` {r \<in> set records. m r}" by simp
  have "resolve_name m ident a b records = Inr i \<longleftrightarrow> set ?ids = {i} \<and> NonEmptyId i = Inr i"
  proof
    assume *: "resolve_name m ident a b records = Inr i"
    then have len: "\<not> 1 < length (from_keys ?ids)" and ne: "?ids \<noteq> []"
      and val: "NonEmptyId (hd (from_keys ?ids)) = Inr i"
      by (auto simp: resolve_name_def Let_def result_simps split: if_splits)
    from len ne obtain j where j: "from_keys ?ids = [j]"
      by (metis One_nat_def from_keys_eq_Nil length_0_conv length_Suc_conv less_one linorder_neqE_nat)
    then show "set ?ids = {i} \<and> NonEmptyId i = Inr i"
      using from_keys_single [OF j] val by (auto simp: NonEmptyId_Inr)
  next
    assume *: "set ?ids = {i} \<and> NonEmptyId i = Inr i"
    then have "from_keys ?ids = [i]" by (blast intro: from_keys_of_singleton)
    moreover have "filter m records \<noteq> []"
      using * by (metis insert_not_empty list.simps(8) set_empty)
    ultimately show "resolve_name m ident a b records = Inr i"
      using * by (simp add: resolve_name_def Let_def)
  qed
  then show ?thesis unfolding set_ids .
qed

lemma resolve_names_set:
  assumes "rmap f names = Inr ids"
    and "\<And>n i. f n = Inr i \<Longrightarrow> img n = {i}"
  shows "set ids = (\<Union>n \<in> set names. img n) \<and> (\<forall>n \<in> set names. \<exists>i. img n = {i})"
proof -
  from assms(1) have "list_all2 (\<lambda>x y. f x = Inr y) names ids" by (simp add: rmap_Inr)
  then show ?thesis
    by (induction rule: list_all2_induct) (use assms(2) in auto)
qed

text \<open>The departments and the employees behind a name.\<close>

definition dept_ids_named :: "dept_record list \<Rightarrow> pystr \<Rightarrow> dept_id set" where
  "dept_ids_named depts n = dr_dept_id ` {d \<in> set depts. dr_name d = n \<or> dr_name_pk d = n}"

definition employee_ids_named :: "employee_record list \<Rightarrow> pystr \<Rightarrow> employee_id set" where
  "employee_ids_named employees n = emp_employee_id ` {e \<in> set employees. emp_name e = n}"

lemma resolve_dept_names_Inr:
  assumes "resolve_dept_names dir scope names = Inr (Some ids)"
  shows "\<exists>depts. list_depts dir scope = Inr depts \<and>
    ids = (\<Union>n \<in> set names. dept_ids_named depts n) \<and>
    (\<forall>n \<in> set names. \<exists>i. dept_ids_named depts n = {i})"
proof -
  from assms obtain depts xs where depts: "list_depts dir scope = Inr depts" and ids: "ids = set xs"
    and run: "rmap (\<lambda>name. resolve_name (\<lambda>d. dr_name d = name \<or> dr_name_pk d = name) dr_dept_id
            ([26410, 25214, 21040, 36710, 38388, 12300] @ name @ [12301])
            ([36710, 38388, 12300] @ name @ [12301, 23384, 22312, 22810, 20010, 21305, 37197])
            depts) names = Inr xs"
    by (auto simp: resolve_dept_names_def result_simps split: if_splits)
  show ?thesis
    using resolve_names_set [OF run, of "dept_ids_named depts"] depts ids
    by (simp add: resolve_name_Inr dept_ids_named_def)
qed

lemma resolve_employee_names_Inr:
  assumes "resolve_employee_names dir scope names = Inr (Some ids)"
  shows "\<exists>employees. list_employees dir scope = Inr employees \<and>
    ids = (\<Union>n \<in> set names. employee_ids_named employees n) \<and>
    (\<forall>n \<in> set names. \<exists>i. employee_ids_named employees n = {i})"
proof -
  from assms obtain employees xs where emps: "list_employees dir scope = Inr employees"
    and ids: "ids = set xs"
    and run: "rmap (\<lambda>name. resolve_name (\<lambda>e. emp_name e = name) emp_employee_id
            ([26410, 25214, 21040, 21592, 24037, 12300] @ name @ [12301])
            ([21592, 24037, 12300] @ name @ [12301, 23384, 22312, 21516, 21517, 65292, 35831,
              25552, 20379, 24037, 21495])
            employees) names = Inr xs"
    by (auto simp: resolve_employee_names_def result_simps split: if_splits)
  show ?thesis
    using resolve_names_set [OF run, of "employee_ids_named employees"] emps ids
    by (simp add: resolve_name_Inr employee_ids_named_def)
qed

lemma resolve_names_None:
  "resolve_dept_names dir scope names = Inr None \<longleftrightarrow> names = []"
  "resolve_employee_names dir scope names = Inr None \<longleftrightarrow> names = []"
  by (auto simp: resolve_dept_names_def resolve_employee_names_def result_simps)

text \<open>
  \<^bold>\<open>C15\<close>.  What \<open>FilterNarrower.narrow\<close> lets through.  The tenant is the scope's.  Employees the
  user named are cut down to a non-empty part of the scope, for every role; without a user filter
  they are the scope's, or the tenant-resolved target employees, or unrestricted when the caller
  asked for no employee restriction.  Outside a whole-tenant scope the departments are a subset
  of the scope's, exactly the non-empty intersection when the user named some; in a whole-tenant
  scope a named department set is passed on unchanged.  No business filter is an empty set.
\<close>

theorem narrow_within_scope:
  assumes "narrow scope r = Inr f"
  shows "nf_tenant_id f = ds_tenant_id scope \<and>
    (\<forall>ids. nr_employee_ids r = Some ids \<longrightarrow>
       nf_employee_ids f = Some (ds_employee_ids scope \<inter> ids) \<and> ds_employee_ids scope \<inter> ids \<noteq> {}) \<and>
    (nr_employee_ids r = None \<longrightarrow>
       nf_employee_ids f = (case nr_tenant_resolved_employee_ids r of Some ids \<Rightarrow> Some ids
         | None \<Rightarrow> if nr_restrict_to_scope_employees r then Some (ds_employee_ids scope) else None)) \<and>
    (\<not> ds_mes_filtered scope \<longrightarrow> (\<exists>ds \<subseteq> ds_dept_ids scope. nf_dept_ids f = Some ds)) \<and>
    (\<forall>ids. nr_dept_ids r = Some ids \<longrightarrow> nf_requested_dept_ids f = nf_dept_ids f \<and>
       nf_dept_ids f \<noteq> Some {} \<and>
       nf_dept_ids f = Some (if ds_mes_filtered scope then ids else ds_dept_ids scope \<inter> ids)) \<and>
    (nr_dept_ids r = None \<longrightarrow>
       nf_requested_dept_ids f = None \<and> nf_dept_ids f = Some (ds_dept_ids scope)) \<and>
    Some {} \<notin> {nf_order_codes f, nf_style_codes f, nf_plan_codes f, nf_material_ids f} \<and>
    nf_bed_codes f \<noteq> Some {} \<and> (\<forall>codes. nf_bed_codes f = Some codes \<longrightarrow> [] \<notin> codes)"
proof -
  from assms have beds: "\<forall>codes. nr_bed_codes r = Some codes \<longrightarrow> (\<forall>c \<in> codes. bed_code_valid c)"
    and emps: "narrow_employees scope r = Inr (nf_employee_ids f)"
    and depts: "narrow_depts scope r = Inr (nf_dept_ids f, nf_requested_dept_ids f)"
    and nonempty: "\<not> (nr_dept_ids r \<noteq> None \<and> falsy (nf_dept_ids f))"
    and rest: "nf_tenant_id f = ds_tenant_id scope" "nf_order_codes f = as_set (nr_order_ids r)"
      "nf_style_codes f = as_set (nr_style_ids r)" "nf_plan_codes f = as_set (nr_plan_ids r)"
      "nf_material_ids f = as_set (nr_material_ids r)"
      "nf_bed_codes f = map_option ((`) bed_str) (as_set (nr_bed_codes r))"
    by (simp_all add: narrow_Inr)
  have codes: "Some {} \<notin> {nf_order_codes f, nf_style_codes f, nf_plan_codes f, nf_material_ids f}"
    "nf_bed_codes f \<noteq> Some {}"
    by (auto simp: rest as_set_Some dest!: sym [of "Some {}"])
  have "[] \<notin> bed_str ` codes" if "nr_bed_codes r = Some codes" for codes
  proof
    assume "[] \<in> bed_str ` codes"
    then obtain c where "c \<in> codes" "bed_str c = []" by auto
    then show False using beds that by (cases c) auto
  qed
  then have "\<forall>codes. nf_bed_codes f = Some codes \<longrightarrow> [] \<notin> codes"
    by (auto simp: rest as_set_Some)
  with codes show ?thesis
    using emps depts nonempty rest(1)
    by (auto simp: narrow_employees_Inr narrow_depts_Inr split: option.splits if_splits)
qed

text \<open>A group leader of department \<open>d1\<close> asks for \<open>d1\<close> and \<open>d3\<close>.\<close>

definition demo_request :: narrow_request where
  "demo_request = \<lparr>nr_employee_ids = None, nr_dept_ids = Some {u ''d1'', u ''d3''},
     nr_order_ids = Some {}, nr_style_ids = Some {u ''s1''}, nr_plan_ids = None,
     nr_material_ids = None, nr_tenant_resolved_employee_ids = None,
     nr_restrict_to_scope_employees = False, nr_bed_codes = Some {BedStr (u ''b7'')}\<rparr>"

definition demo_narrowed :: narrowed_filters where
  "demo_narrowed = \<lparr>nf_tenant_id = u ''fac'', nf_employee_ids = None,
     nf_dept_ids = Some {u ''d1''}, nf_order_codes = None, nf_style_codes = Some {u ''s1''},
     nf_plan_codes = None, nf_material_ids = None, nf_requested_dept_ids = Some {u ''d1''},
     nf_bed_codes = Some {u ''b7''}\<rparr>"

lemma demo_narrow: "narrow demo_scope demo_request = Inr demo_narrowed"
  by (simp add: narrow_def narrow_employees_def narrow_depts_def narrow_to_depts_def
      demo_scope_def demo_request_def demo_narrowed_def as_set_def)

theorem narrow_within_scope_witness:
  "narrow demo_scope demo_request = Inr demo_narrowed \<and>
   nf_dept_ids demo_narrowed = Some (ds_dept_ids demo_scope \<inter> {u ''d1'', u ''d3''}) \<and>
   nf_requested_dept_ids demo_narrowed = nf_dept_ids demo_narrowed"
proof -
  have "nr_dept_ids demo_request = Some {u ''d1'', u ''d3''}" "\<not> ds_mes_filtered demo_scope"
    by (simp_all add: demo_request_def demo_scope_def)
  then show ?thesis
    using narrow_within_scope [OF demo_narrow] demo_narrow by auto
qed

text \<open>
  When \<open>narrow\<close> refuses: a bed identifier that is not a non-empty string, named
  employees disjoint from the scope, named departments disjoint from a scope that is not
  whole-tenant, or an empty department set asked of a whole-tenant scope.  Every other request is
  accepted, and every refusal but the first has the code \<open>forbidden\<close>.
\<close>

theorem narrow_rejects_exactly:
  "((\<exists>e. narrow scope r = Inl e) \<longleftrightarrow>
     (\<exists>codes. nr_bed_codes r = Some codes \<and> (\<exists>c \<in> codes. \<not> bed_code_valid c)) \<or>
     (\<exists>ids. nr_employee_ids r = Some ids \<and> ds_employee_ids scope \<inter> ids = {}) \<or>
     (\<exists>ids. nr_dept_ids r = Some ids \<and>
        (if ds_mes_filtered scope then ids = {} else ds_dept_ids scope \<inter> ids = {}))) \<and>
   ((\<exists>m. narrow scope r = Inl (FilterRejectionError (u ''invalid_filter'') m)) \<longleftrightarrow>
     (\<exists>codes. nr_bed_codes r = Some codes \<and> (\<exists>c \<in> codes. \<not> bed_code_valid c)))"
  by (cases "nr_employee_ids r"; cases "nr_dept_ids r"; cases "nr_tenant_resolved_employee_ids r";
      cases "ds_mes_filtered scope")
    (auto simp: narrow_def narrow_employees_def narrow_to_employees_def narrow_depts_def
      narrow_to_depts_def Let_def split: if_splits)


text \<open>Two names resolve against a roster in which one department is listed twice.\<close>

definition demo_directory :: directory where
  "demo_directory = \<lparr>list_depts = (\<lambda>_. Inr [
       \<lparr>dr_dept_id = u ''d1'', dr_name = u ''cut'', dr_name_pk = u ''cut1''\<rparr>,
       \<lparr>dr_dept_id = u ''d1'', dr_name = u ''cut'', dr_name_pk = u ''cut1''\<rparr>,
       \<lparr>dr_dept_id = u ''d2'', dr_name = u ''sew'', dr_name_pk = u ''sew1''\<rparr>]),
     list_employees = (\<lambda>_. Inr [])\<rparr>"

definition demo_slots :: intent_slots where
  "demo_slots = \<lparr>sl_time_range_start = None, sl_time_range_end = None, sl_time_expression = None,
     sl_order_codes = [], sl_plan_codes = [], sl_style_codes = [], sl_bed_codes = [],
     sl_material_ids = [], sl_dept_names = [u ''sew1'', u ''cut''], sl_employee_names = []\<rparr>"

definition demo_resolved :: resolved_business_filters where
  "demo_resolved = \<lparr>rbf_employee_ids = None, rbf_dept_ids = Some {u ''d1'', u ''d2''},
     rbf_order_codes = None, rbf_style_codes = None, rbf_plan_codes = None,
     rbf_material_ids = None, rbf_bed_codes = None\<rparr>"


end
