(* ===== verification/Executor.thy ===== *)
theory Executor
  imports Filters
begin

text \<open>
  The reviewed operation catalog (\<^verbatim>\<open>data_api/catalog.py\<close>) and the scoped executor
  (\<^verbatim>\<open>execution/executor.py\<close>), the only way to MES business data.

  The YAML reader and the pydantic schema are not part of the repository: \<open>load_catalog\<close> takes
  the validated document, or the exception they end in.  The \<open>ResourceFetcher\<close> port is an
  argument that also transforms a world (what upstream saw), so that "no business call" is a
  statement about that world.  The \<open>ScopeVerifier\<close> port is the locale \<open>scope_verifier\<close>,
  interpreted on \<open>StrictScopeVerifier\<close>.
\<close>

section \<open>catalog.py\<close>

datatype parameter_source = CREDENTIAL | SCOPE | FILTER | CLOCK
datatype pagination_kind = NO_PAGES | LIST_TOTAL
datatype operation_kind = IDENTITY_OP | RESOURCE_OP
datatype usage_category = OUTPUT | PAYROLL | ORDER | OTHER

record catalog_operation =
  op_operation_id :: pystr
  op_path :: pystr
  op_kind :: operation_kind
  op_resource :: "pystr option"
  op_enabled :: bool
  op_required_params :: "pystr list"
  op_parameter_sources :: "(pystr, parameter_source) dict"
  op_pagination :: pagination_kind
  op_list_key :: pystr
  op_total_key :: pystr
  op_boolean_params :: "pystr list"
  op_usage_category :: "usage_category option"
  op_supports_footer :: bool
  op_timeout_seconds :: real
  op_sensitive_fields :: "pystr list"
  op_related_keys :: "pystr list"

record api_catalog =
  cat_version :: int
  cat_operations :: "(pystr, catalog_operation) dict"

definition catalog_get :: "api_catalog \<Rightarrow> pystr \<Rightarrow> mes_error + catalog_operation" where
  "catalog_get c oid = (case map_of (cat_operations c) oid of
     Some operation \<Rightarrow> Inr operation
   | None \<Rightarrow> Inl (UnsupportedOperationError
       (u ''operation is not registered in the reviewed catalog'')))"

definition operation_ids :: "api_catalog \<Rightarrow> pystr set" where
  "operation_ids c = set (map fst (cat_operations c))"

text \<open>\<open>with_enabled\<close>: the loop over the named operations, on a copy of the dictionary.\<close>

fun enable_operations ::
  "(pystr, catalog_operation) dict \<Rightarrow> pystr list \<Rightarrow> key_error + (pystr, catalog_operation) dict"
where
  "enable_operations ops [] = Inr ops"
| "enable_operations ops (oid # oids) = (case map_of ops oid of
     None \<Rightarrow> Inl (KeyError oid)
   | Some operation \<Rightarrow>
       enable_operations (AList.update oid (operation\<lparr>op_enabled := True\<rparr>) ops) oids)"

definition with_enabled :: "api_catalog \<Rightarrow> pystr list \<Rightarrow> key_error + api_catalog" where
  "with_enabled c oids =
     rbind (enable_operations (cat_operations c) oids) (\<lambda>ops. Inr (c\<lparr>cat_operations := ops\<rparr>))"

text \<open>The checks of one document entry, in the order of the loop body of \<open>load_catalog\<close>.\<close>

definition bad_credential_source :: "catalog_operation \<Rightarrow> pystr option" where
  "bad_credential_source operation = map_option fst (find (\<lambda>(parameter, source).
     source = CREDENTIAL \<and> parameter \<notin> {u ''app_key'', u ''timestamp'', u ''sign''})
     (op_parameter_sources operation))"

definition check_entry ::
  "(pystr, catalog_operation) dict \<Rightarrow> catalog_operation \<Rightarrow> mes_error + unit" where
  "check_entry ops operation =
     (if op_operation_id operation \<in> set (map fst ops)
        then Inl (InvalidRequestError (u ''catalog contains duplicate operation IDs''))
      else if op_kind operation = RESOURCE_OP \<and> op_resource operation = None
        then Inl (InvalidRequestError (u ''resource operations must declare a resource name''))
      else if op_pagination operation = LIST_TOTAL \<and> op_kind operation = IDENTITY_OP
        then Inl (InvalidRequestError (u ''only resource operations use list envelopes''))
      else case bad_credential_source operation of
        Some parameter \<Rightarrow> Inl (InvalidRequestError (op_operation_id operation @ u ''.'' @ parameter
            @ u '' has an invalid credential source''))
      | None \<Rightarrow>
          if op_usage_category operation = None
          then Inl (InvalidRequestError (op_operation_id operation
            @ u '' is missing a reviewed usage_category (expected one of ''
            @ u ''['' @ [39] @ u ''order'' @ [39] @ u '', '' @ [39] @ u ''other'' @ [39] @ u '', '' @ [39]
            @ u ''output'' @ [39] @ u '', '' @ [39] @ u ''payroll'' @ [39] @ u ''])''))
          else Inr ())"

fun load_operations ::
  "(pystr, catalog_operation) dict \<Rightarrow> catalog_operation list
   \<Rightarrow> mes_error + (pystr, catalog_operation) dict"
where
  "load_operations ops [] = Inr ops"
| "load_operations ops (operation # rest) = rbind (check_entry ops operation) (\<lambda>_.
     load_operations (AList.update (op_operation_id operation) operation ops) rest)"

datatype document_source =
    FileMissing pystr
  | YamlInvalid
  | SchemaInvalid
  | Document int "catalog_operation list"

fun load_catalog :: "document_source \<Rightarrow> mes_error + api_catalog" where
  "load_catalog (FileMissing path) = Inl (InvalidRequestError (u ''catalog file is missing: '' @ path))"
| "load_catalog YamlInvalid = Inl (InvalidRequestError (u ''catalog file is not valid YAML''))"
| "load_catalog SchemaInvalid = Inl (InvalidRequestError (u ''catalog failed schema validation''))"
| "load_catalog (Document version operations) = rbind (load_operations [] operations)
     (\<lambda>ops. Inr \<lparr>cat_version = version, cat_operations = ops\<rparr>)"

section \<open>executor.py\<close>

text \<open>What a caller may hand over as the active scope.\<close>

datatype active_scope = ActiveData data_scope | ActivePlatform platform_scope_d

text \<open>
  The request, less \<open>result_validator\<close> and \<open>allow_owner_snapshot\<close>, which this executor only
  passes on; \<open>CachedFetch\<close> reads them and adds both in \<open>cached_request\<close>.
\<close>

record execution_request =
  er_operation_id :: pystr
  er_time_range :: "instant \<times> instant"
  er_pagination_size :: int
  er_request_role :: "role option"

record 'row step_result =
  sr_operation_id :: pystr
  sr_rows :: "'row list"
  sr_complete :: bool

text \<open>\<open>StrictScopeVerifier.verify\<close>.\<close>

definition strict_verify :: "data_scope \<Rightarrow> narrowed_filters \<Rightarrow> mes_error + unit" where
  "strict_verify scope filters =
     (if nf_tenant_id filters \<noteq> ds_tenant_id scope
        then Inl (ForbiddenError (u ''filter tenant does not match the active tenant''))
      else if ds_mes_filtered scope then Inr ()
      else if (\<exists>es. nf_employee_ids filters = Some es \<and> \<not> es \<subseteq> ds_employee_ids scope)
        then Inl (ForbiddenError (u ''employee filters exceed the authorized scope''))
      else if (\<exists>ds. nf_dept_ids filters = Some ds \<and> \<not> ds \<subseteq> ds_dept_ids scope)
        then Inl (ForbiddenError (u ''department filters exceed the authorized scope''))
      else Inr ())"

fun reject_platform_scope :: "active_scope \<Rightarrow> mes_error + data_scope" where
  "reject_platform_scope (ActivePlatform p) =
     Inl (ForbiddenError (u ''platform scope is not accepted by the MES executor''))"
| "reject_platform_scope (ActiveData s) = Inr s"

definition validate_step ::
  "api_catalog \<Rightarrow> (data_scope \<Rightarrow> narrowed_filters \<Rightarrow> mes_error + unit)
   \<Rightarrow> narrowed_filters \<Rightarrow> execution_request \<Rightarrow> active_scope option \<Rightarrow> mes_error + unit" where
  "validate_step catalog verify filters request active =
     rbind (catalog_get catalog (er_operation_id request)) (\<lambda>operation.
       if \<not> op_enabled operation
       then Inl (UnsupportedOperationError (u ''operation is disabled in this release''))
       else case active of
         None \<Rightarrow> Inr ()
       | Some a \<Rightarrow> rbind (reject_platform_scope a) (\<lambda>scope. verify scope filters))"

text \<open>The fetching port: what it returns or raises, and the world it leaves behind.\<close>

type_synonym ('w, 'r) fetcher =
  "pystr \<Rightarrow> narrowed_filters \<Rightarrow> instant \<times> instant \<Rightarrow> int \<Rightarrow> 'w \<Rightarrow> (mes_error + 'r) \<times> 'w"

definition execute_step ::
  "('w, 'row list) fetcher \<Rightarrow> api_catalog \<Rightarrow> (data_scope \<Rightarrow> narrowed_filters \<Rightarrow> mes_error + unit)
   \<Rightarrow> narrowed_filters \<Rightarrow> execution_request \<Rightarrow> active_scope option
   \<Rightarrow> 'w \<Rightarrow> (mes_error + 'row step_result) \<times> 'w" where
  "execute_step fetch_rows catalog verify filters request active w =
     (case validate_step catalog verify filters request active of
        Inl e \<Rightarrow> (Inl e, w)
      | Inr _ \<Rightarrow>
          (case fetch_rows (er_operation_id request) filters (er_time_range request)
              (er_pagination_size request) w of
             (outcome, w') \<Rightarrow> (rbind outcome (\<lambda>rows. Inr \<lparr>sr_operation_id = er_operation_id request,
                sr_rows = rows, sr_complete = True\<rparr>), w')))"

definition execute_full_step ::
  "('p \<Rightarrow> ('w, 'r) fetcher) \<Rightarrow> api_catalog \<Rightarrow> (data_scope \<Rightarrow> narrowed_filters \<Rightarrow> mes_error + unit)
   \<Rightarrow> narrowed_filters \<Rightarrow> execution_request \<Rightarrow> active_scope option \<Rightarrow> 'p
   \<Rightarrow> 'w \<Rightarrow> (mes_error + 'r) \<times> 'w" where
  "execute_full_step fetch catalog verify filters request active extra_params w =
     (case validate_step catalog verify filters request active of
        Inl e \<Rightarrow> (Inl e, w)
      | Inr _ \<Rightarrow> fetch extra_params (er_operation_id request) filters (er_time_range request)
              (er_pagination_size request) w)"

section \<open>The contract of a scope verifier\<close>

text \<open>Filters inside a scope, as \<open>StrictScopeVerifier\<close> documents it: the tenant for everyone,
  the id sets for every scope that is not answered by MES row filtering.\<close>

definition inside_scope :: "data_scope \<Rightarrow> narrowed_filters \<Rightarrow> bool" where
  "inside_scope scope filters \<longleftrightarrow> nf_tenant_id filters = ds_tenant_id scope \<and>
     (ds_mes_filtered scope \<or>
       (\<forall>es. nf_employee_ids filters = Some es \<longrightarrow> es \<subseteq> ds_employee_ids scope) \<and>
       (\<forall>ds. nf_dept_ids filters = Some ds \<longrightarrow> ds \<subseteq> ds_dept_ids scope))"

locale scope_verifier =
  fixes verify :: "data_scope \<Rightarrow> narrowed_filters \<Rightarrow> mes_error + unit"
  assumes verify_iff: "verify s f = Inr () \<longleftrightarrow> inside_scope s f"
begin

lemma validate_step_ok:
  "validate_step catalog verify filters request (Some a) = Inr () \<longleftrightarrow>
     (\<exists>s operation. a = ActiveData s \<and> inside_scope s filters \<and>
        catalog_get catalog (er_operation_id request) = Inr operation \<and> op_enabled operation)"
  by (cases a) (auto simp: validate_step_def result_simps verify_iff)

lemma full_step_touches_world_only_inside:
  assumes "snd (execute_full_step fetch catalog verify filters request (Some a) p w) \<noteq> w"
  shows "\<exists>s operation. a = ActiveData s \<and> inside_scope s filters \<and>
        catalog_get catalog (er_operation_id request) = Inr operation \<and> op_enabled operation"
proof -
  have "validate_step catalog verify filters request (Some a) = Inr ()"
    using assms by (auto simp: execute_full_step_def split: sum.splits)
  then show ?thesis by (simp only: validate_step_ok)
qed

lemma step_touches_world_only_inside:
  assumes "snd (execute_step fetch catalog verify filters request (Some a) w) \<noteq> w"
  shows "\<exists>s operation. a = ActiveData s \<and> inside_scope s filters \<and>
        catalog_get catalog (er_operation_id request) = Inr operation \<and> op_enabled operation"
proof -
  have "validate_step catalog verify filters request (Some a) = Inr ()"
    using assms by (auto simp: execute_step_def split: sum.splits)
  then show ?thesis by (simp only: validate_step_ok)
qed

lemma full_step_runs_inside:
  assumes "inside_scope s filters"
    and "catalog_get catalog (er_operation_id request) = Inr operation" "op_enabled operation"
  shows "execute_full_step fetch catalog verify filters request (Some (ActiveData s)) p w =
    fetch p (er_operation_id request) filters (er_time_range request) (er_pagination_size request) w"
proof -
  have "validate_step catalog verify filters request (Some (ActiveData s)) = Inr ()"
    using assms validate_step_ok by blast
  then show ?thesis by (simp add: execute_full_step_def)
qed

end

interpretation strict: scope_verifier strict_verify
  by unfold_locales (auto simp: strict_verify_def inside_scope_def)

section \<open>Properties\<close>

text \<open>
  \<^bold>\<open>C2\<close>.  Authorization completes before any business call.  With an active scope, a step (with
  or without completeness proof) leaves the upstream world untouched unless the scope is a data
  scope, the filters lie inside it and the operation is registered and enabled; in that case the
  step is exactly the adapter call, on the filters it was given.
\<close>

theorem executor_guards_business_calls:
  "(snd (execute_full_step fetch catalog strict_verify filters request (Some a) p w) \<noteq> w \<or>
    snd (execute_step fetch_rows catalog strict_verify filters request (Some a) w) \<noteq> w \<longrightarrow>
      (\<exists>s operation. a = ActiveData s \<and> inside_scope s filters \<and>
        catalog_get catalog (er_operation_id request) = Inr operation \<and> op_enabled operation)) \<and>
   (\<forall>s operation. inside_scope s filters \<and>
      catalog_get catalog (er_operation_id request) = Inr operation \<and> op_enabled operation \<longrightarrow>
      execute_full_step fetch catalog strict_verify filters request (Some (ActiveData s)) p w =
        fetch p (er_operation_id request) filters (er_time_range request)
          (er_pagination_size request) w)"
proof
  show "snd (execute_full_step fetch catalog strict_verify filters request (Some a) p w) \<noteq> w \<or>
    snd (execute_step fetch_rows catalog strict_verify filters request (Some a) w) \<noteq> w \<longrightarrow>
      (\<exists>s operation. a = ActiveData s \<and> inside_scope s filters \<and>
        catalog_get catalog (er_operation_id request) = Inr operation \<and> op_enabled operation)"
    using strict.full_step_touches_world_only_inside [of fetch catalog filters request a p w]
      strict.step_touches_world_only_inside [of fetch_rows catalog filters request a w] by argo
qed (simp add: strict.full_step_runs_inside)

definition demo_operation :: catalog_operation where
  "demo_operation = \<lparr>op_operation_id = u ''EmpScan'', op_path = u ''/scan'', op_kind = RESOURCE_OP,
     op_resource = Some (u ''scan''), op_enabled = True, op_required_params = [],
     op_parameter_sources = [(u ''sign'', CREDENTIAL), (u ''uid'', SCOPE)],
     op_pagination = LIST_TOTAL, op_list_key = u ''list'', op_total_key = u ''total'',
     op_boolean_params = [], op_usage_category = Some OUTPUT, op_supports_footer = False,
     op_timeout_seconds = 30, op_sensitive_fields = [], op_related_keys = []\<rparr>"

definition demo_catalog :: api_catalog where
  "demo_catalog = \<lparr>cat_version = 1, cat_operations = [(u ''EmpScan'', demo_operation)]\<rparr>"

definition demo_exec_request :: execution_request where
  "demo_exec_request = \<lparr>er_operation_id = u ''EmpScan'', er_time_range = (0, us_day),
     er_pagination_size = 50, er_request_role = Some GROUP_LEADER\<rparr>"

text \<open>An adapter that counts its calls and returns no rows.\<close>

definition demo_fetch :: "unit \<Rightarrow> (nat, pystr list) fetcher" where
  "demo_fetch p oid f tr n w = (Inr [], Suc w)"

lemma demo_inside: "inside_scope demo_scope demo_narrowed"
  by (simp add: inside_scope_def demo_scope_def demo_narrowed_def)

lemma demo_catalog_get:
  "catalog_get demo_catalog (er_operation_id demo_exec_request) = Inr demo_operation"
  by (simp add: catalog_get_def demo_catalog_def demo_exec_request_def)

theorem executor_guards_business_calls_witness:
  "execute_full_step demo_fetch demo_catalog strict_verify demo_narrowed demo_exec_request
     (Some (ActiveData demo_scope)) () 0 = (Inr [], 1)"
proof -
  have "op_enabled demo_operation" by (simp add: demo_operation_def)
  then have "execute_full_step demo_fetch demo_catalog strict_verify demo_narrowed demo_exec_request
      (Some (ActiveData demo_scope)) () 0 =
    demo_fetch () (er_operation_id demo_exec_request) demo_narrowed
      (er_time_range demo_exec_request) (er_pagination_size demo_exec_request) 0"
    using executor_guards_business_calls [of demo_fetch demo_catalog demo_narrowed
        demo_exec_request "ActiveData demo_scope" "()" 0 "demo_fetch ()"] demo_inside demo_catalog_get
    by blast
  then show ?thesis by (simp add: demo_fetch_def)
qed

text \<open>
  Narrowing and verification fit together: the filters \<open>narrow\<close> returns for a scope
  are accepted by \<open>StrictScopeVerifier\<close> for that scope in every case but one, target employees
  resolved in the tenant (and no employee filter of the user) that are not all in the scope.
\<close>

theorem narrow_passes_verification:
  assumes "narrow scope r = Inr f"
  shows "strict_verify scope f = Inr () \<longleftrightarrow>
    ds_mes_filtered scope \<or> nr_employee_ids r \<noteq> None \<or>
    (\<forall>ids. nr_tenant_resolved_employee_ids r = Some ids \<longrightarrow> ids \<subseteq> ds_employee_ids scope)"
proof -
  have tenant: "nf_tenant_id f = ds_tenant_id scope"
    and emps: "narrow_employees scope r = Inr (nf_employee_ids f)"
    and depts: "narrow_depts scope r = Inr (nf_dept_ids f, nf_requested_dept_ids f)"
    using assms by (simp_all add: narrow_Inr)
  have "ds \<subseteq> ds_dept_ids scope" if "\<not> ds_mes_filtered scope" "nf_dept_ids f = Some ds" for ds
    using narrow_depts_subset [OF depts] that by auto
  then have "strict_verify scope f = Inr () \<longleftrightarrow> ds_mes_filtered scope \<or>
      (\<forall>es. nf_employee_ids f = Some es \<longrightarrow> es \<subseteq> ds_employee_ids scope)"
    unfolding strict.verify_iff inside_scope_def using tenant by blast
  then show ?thesis
    using emps by (auto simp: narrow_employees_Inr split: option.splits if_splits)
qed

theorem narrow_passes_verification_witness:
  "narrow demo_scope demo_request = Inr demo_narrowed \<and>
   strict_verify demo_scope demo_narrowed = Inr ()"
  using narrow_passes_verification [OF demo_narrow] demo_narrow
  by (simp add: demo_request_def)

text \<open>Without an active scope the verifier is not consulted: the step is accepted or refused by
  the catalog alone, whatever the filters.\<close>

lemma validate_step_without_scope:
  "validate_step catalog v f request None = validate_step catalog v' f' request None"
  by (cases "catalog_get catalog (er_operation_id request)") (simp_all add: validate_step_def)

lemma bad_credential_source_None:
  "bad_credential_source operation = None \<longleftrightarrow>
     (\<forall>(parameter, source) \<in> set (op_parameter_sources operation). source = CREDENTIAL \<longrightarrow>
        parameter \<in> {u ''app_key'', u ''timestamp'', u ''sign''})"
  unfolding bad_credential_source_def option.map_disc_iff find_None_iff by fastforce

text \<open>A reviewed entry: what \<open>load_catalog\<close> demands of each operation by itself.\<close>

definition entry_reviewed :: "catalog_operation \<Rightarrow> bool" where
  "entry_reviewed operation \<longleftrightarrow>
     (op_kind operation = RESOURCE_OP \<longrightarrow> op_resource operation \<noteq> None) \<and>
     (op_pagination operation = LIST_TOTAL \<longrightarrow> op_kind operation = RESOURCE_OP) \<and>
     (\<forall>(parameter, source) \<in> set (op_parameter_sources operation). source = CREDENTIAL \<longrightarrow>
        parameter \<in> {u ''app_key'', u ''timestamp'', u ''sign''}) \<and>
     op_usage_category operation \<noteq> None"

lemma check_entry_Inr:
  "check_entry ops operation = Inr () \<longleftrightarrow>
     op_operation_id operation \<notin> set (map fst ops) \<and> entry_reviewed operation"
  unfolding check_entry_def entry_reviewed_def bad_credential_source_None [symmetric]
  by (cases "op_kind operation") (auto split: option.splits)

lemma update_fresh:
  "k \<notin> set (map fst d) \<Longrightarrow> AList.update k v d = d @ [(k, v)]"
  by (induction d) auto

lemma load_operations_Inr:
  "load_operations ops operations = Inr result \<longleftrightarrow>
     distinct (map op_operation_id operations) \<and>
     set (map fst ops) \<inter> set (map op_operation_id operations) = {} \<and>
     (\<forall>operation \<in> set operations. entry_reviewed operation) \<and>
     result = ops @ map (\<lambda>operation. (op_operation_id operation, operation)) operations"
proof (induction ops operations arbitrary: result rule: load_operations.induct)
  case (2 ops operation rest)
  show ?case
  proof (cases "check_entry ops operation")
    case (Inl e)
    then have "\<not> (op_operation_id operation \<notin> set (map fst ops) \<and> entry_reviewed operation)"
      using check_entry_Inr [of ops operation] by simp
    with Inl show ?thesis by auto
  next
    case (Inr x)
    then have ok: "check_entry ops operation = Inr ()" by simp
    then have fresh: "op_operation_id operation \<notin> set (map fst ops)" "entry_reviewed operation"
      by (simp_all add: check_entry_Inr)
    show ?thesis
      using fresh "2.IH" [OF ok, of result] unfolding update_fresh [OF fresh(1)]
      by (auto simp: ok update_fresh)
  qed
qed auto

lemma map_of_keyed:
  "distinct (map key xs) \<Longrightarrow>
     map_of (map (\<lambda>x. (key x, x)) xs) k = Some x \<longleftrightarrow> x \<in> set xs \<and> key x = k"
  by (induction xs) (auto simp: image_iff)

text \<open>
  Only a reviewed catalog loads.  A validated document loads exactly when its operation
  ids are pairwise distinct and every entry is reviewed (a resource names its resource, list
  envelopes only on resources, credential parameters only the three signed ones, a billing
  category); then a lookup returns precisely the entry of the document with that id and everything
  else is an unsupported operation.
\<close>

theorem load_catalog_exact:
  "((\<exists>c. load_catalog (Document v operations) = Inr c) \<longleftrightarrow>
     distinct (map op_operation_id operations) \<and>
     list_all entry_reviewed operations) \<and>
   (load_catalog (Document v operations) = Inr c \<longrightarrow>
     operation_ids c = op_operation_id ` set operations \<and>
     (\<forall>oid operation. catalog_get c oid = Inr operation \<longleftrightarrow>
        operation \<in> set operations \<and> op_operation_id operation = oid) \<and>
     (\<forall>oid. oid \<notin> operation_ids c \<longrightarrow> (\<exists>m. catalog_get c oid = Inl (UnsupportedOperationError m))))"
proof -
  have iff: "load_catalog (Document v operations) = Inr c \<longleftrightarrow>
      distinct (map op_operation_id operations) \<and> list_all entry_reviewed operations \<and>
      c = \<lparr>cat_version = v, cat_operations = map (\<lambda>x. (op_operation_id x, x)) operations\<rparr>" for c
    by (auto simp: result_simps load_operations_Inr list_all_iff)
  have "operation_ids c = op_operation_id ` set operations \<and>
     (\<forall>oid operation. catalog_get c oid = Inr operation \<longleftrightarrow>
        operation \<in> set operations \<and> op_operation_id operation = oid) \<and>
     (\<forall>oid. oid \<notin> operation_ids c \<longrightarrow> (\<exists>m. catalog_get c oid = Inl (UnsupportedOperationError m)))"
    if "load_catalog (Document v operations) = Inr c"
  proof -
    have d: "distinct (map op_operation_id operations)"
      and c: "c = \<lparr>cat_version = v, cat_operations = map (\<lambda>x. (op_operation_id x, x)) operations\<rparr>"
      using that iff by blast+
    have get: "catalog_get c oid = Inr operation \<longleftrightarrow>
        operation \<in> set operations \<and> op_operation_id operation = oid" for oid operation
      using map_of_keyed [OF d, of oid operation] 
      by (cases "map_of (cat_operations c) oid") (auto simp: catalog_get_def c)
    have ids: "operation_ids c = op_operation_id ` set operations"
      by (auto simp: operation_ids_def c)
    have "\<exists>m. catalog_get c oid = Inl (UnsupportedOperationError m)" if "oid \<notin> operation_ids c" for oid
    proof (cases "catalog_get c oid")
      case (Inl e)
      then show ?thesis by (auto simp: catalog_get_def split: option.splits)
    next
      case (Inr operation)
      then have "op_operation_id operation = oid" "operation \<in> set operations"
        using get [of oid operation] by simp_all
      then show ?thesis using that unfolding ids by blast
    qed
    with get ids show ?thesis by simp
  qed
  moreover have "(\<exists>c. load_catalog (Document v operations) = Inr c) \<longleftrightarrow>
      distinct (map op_operation_id operations) \<and> list_all entry_reviewed operations"
    unfolding iff by simp
  ultimately show ?thesis by simp
qed

theorem load_catalog_exact_witness:
  "load_catalog (Document 1 [demo_operation]) = Inr demo_catalog \<and>
   operation_ids demo_catalog = {u ''EmpScan''}"
proof -
  have run: "load_catalog (Document 1 [demo_operation]) = Inr demo_catalog"
    by (simp add: check_entry_def bad_credential_source_def demo_operation_def demo_catalog_def)
  then show ?thesis
    using load_catalog_exact [of 1 "[demo_operation]" demo_catalog]
    by (simp add: demo_operation_def)
qed

lemma enable_operations_Inr:
  assumes "enable_operations ops oids = Inr ops'"
  shows "set oids \<subseteq> set (map fst ops) \<and> map fst ops' = map fst ops \<and>
    map_of ops' = (\<lambda>oid. if oid \<in> set oids
      then map_option (\<lambda>operation. operation\<lparr>op_enabled := True\<rparr>) (map_of ops oid)
      else map_of ops oid)"
  using assms
proof (induction ops oids arbitrary: ops' rule: enable_operations.induct)
  case (2 ops oid oids)
  from "2.prems" obtain operation where m: "map_of ops oid = Some operation"
    and run: "enable_operations (AList.update oid (operation\<lparr>op_enabled := True\<rparr>) ops) oids = Inr ops'"
    by (auto split: option.splits)
  have keys: "map fst (AList.update oid (operation\<lparr>op_enabled := True\<rparr>) ops) = map fst ops"
    using m by (induction ops) (auto split: if_splits)
  have "oid \<in> set (map fst ops)" using map_of_SomeD [OF m] by force
  with "2.IH" [OF m run] keys m show ?case
    by (auto simp: fun_eq_iff map_of_update)
qed auto

text \<open>\<open>with_enabled\<close> switches on exactly the named operations and nothing else.\<close>

lemma with_enabled_exact:
  assumes "with_enabled c oids = Inr c'"
  shows "operation_ids c' = operation_ids c \<and> set oids \<subseteq> operation_ids c \<and>
    catalog_get c' oid = (if oid \<in> set oids
      then rbind (catalog_get c oid) (\<lambda>operation. Inr (operation\<lparr>op_enabled := True\<rparr>))
      else catalog_get c oid)"
proof -
  from assms obtain ops' where run: "enable_operations (cat_operations c) oids = Inr ops'"
    and c': "c' = c\<lparr>cat_operations := ops'\<rparr>"
    by (auto simp: with_enabled_def result_simps)
  note e = enable_operations_Inr [OF run]
  have "catalog_get c' oid = (if oid \<in> set oids
      then rbind (catalog_get c oid) (\<lambda>operation. Inr (operation\<lparr>op_enabled := True\<rparr>))
      else catalog_get c oid)"
    using conjunct2 [OF conjunct2 [OF e]]
    by (cases "map_of (cat_operations c) oid") (simp_all add: c' catalog_get_def)
  moreover have "operation_ids c' = operation_ids c" "set oids \<subseteq> operation_ids c"
    using e unfolding operation_ids_def c' by simp_all
  ultimately show ?thesis by blast
qed

end
