(* ===== verification/Recipes.thy ===== *)
theory Recipes
  imports Executor
begin

text \<open>
  Reviewed capability recipes, \<^verbatim>\<open>execution/recipes.py\<close>: the recipe data model, the
  structural validation (references, cycles, metric versions, card and aux declarations), the
  loading of recipe files and the check of drill targets across recipes.

  The YAML reader and the pydantic schema are outside the repository: a recipe file is given as
  the document they return, or as their failure; the repository's own model validators run on the
  document.  The Unicode tables behind \<open>str.isalpha\<close> and \<open>str.isalnum\<close> are an argument
  (\<open>char_class\<close>).
\<close>

section \<open>The recipe model\<close>

datatype step_kind = API | LOCAL
datatype column_type = MONEY | PERCENT | DATE | QUANTITY
datatype card_kind = KPI | TABLE | RANKING
datatype aggregation = AGG_SUM | AGG_NONE
datatype aux_into = INTO_CHART | INTO_METRICS | INTO_DETAILS
datatype degradation = INCOMPLETE_MARKER | FAIL
datatype param_value = ParamStr pystr | ParamList "pystr list"

record param_binding =
  pb_from_step :: pystr
  pb_column :: pystr

record recipe_step =
  rs_step_id :: pystr
  rs_kind :: step_kind
  rs_operation_id :: "pystr option"
  rs_depends_on :: "pystr list"
  rs_parallel_group :: "pystr option"
  rs_optional :: bool
  rs_compute :: "pystr option"
  rs_params :: "(pystr, param_value) dict option"
  rs_param_bindings :: "(pystr, param_binding) dict option"
  rs_filter_bindings :: "(pystr, pystr) dict option"

record result_column =
  rc_name :: pystr
  rc_source_step :: pystr
  rc_title :: "pystr option"
  rc_metric :: "pystr option"
  rc_column_type :: "column_type option"
  rc_unit :: "pystr option"
  rc_aggregation :: aggregation

record card_alert_marker =
  cam_column :: pystr
  cam_equals :: pystr

record card_action_spec =
  cas_label :: pystr
  cas_capability_id :: pystr
  cas_bind_from :: "(pystr, pystr) dict"
  cas_clear_fields :: "pystr list"

record aux_metric =
  am_name :: pystr
  am_title :: pystr
  am_unit :: "pystr option"
  am_total_key :: "pystr option"

record aux_output =
  ao_aux_id :: pystr
  ao_into :: aux_into
  ao_compute :: pystr
  ao_depends_on :: "pystr list"
  ao_chart_unit :: "pystr option"
  ao_label_column :: pystr
  ao_value_column :: pystr
  ao_metrics :: "aux_metric list"
  ao_title :: "pystr option"
  ao_columns :: "result_column list"
  ao_group_by :: "pystr option"
  ao_status_column :: "pystr option"
  ao_hidden_columns :: "pystr list"
  ao_filter_bindings :: "(pystr, pystr) dict option"
  ao_actions :: "card_action_spec list"

record card_spec =
  cs_kind :: card_kind
  cs_metrics :: "pystr list"
  cs_totals :: "pystr list"
  cs_preview_max_rows :: "int option"
  cs_preview_max_groups :: int
  cs_group_by :: "pystr option"
  cs_group_name_from :: "pystr option"
  cs_rank_column :: "pystr option"
  cs_alert_marker :: "card_alert_marker option"
  cs_actions :: "card_action_spec list"
  cs_notes :: "pystr list"
  cs_hidden_columns :: "pystr list"

record capability_recipe =
  cr_capability_id :: pystr
  cr_title :: pystr
  cr_required_slots :: "pystr list"
  cr_steps :: "recipe_step list"
  cr_result_columns :: "result_column list"
  cr_metric_versions :: "(pystr, pystr) dict"
  cr_card :: "card_spec option"
  cr_aux_outputs :: "aux_output list"
  cr_degradation :: degradation
  cr_footer_reconciliation :: "(pystr, pystr) dict option"

definition CARD_METRIC_TYPES :: "column_type option set" where
  "CARD_METRIC_TYPES = {Some MONEY, Some QUANTITY, Some PERCENT}"

definition BUSINESS_FILTER_KEYS :: "pystr set" where
  "BUSINESS_FILTER_KEYS = {u ''order_codes'', u ''style_codes'', u ''plan_codes'',
     u ''material_ids'', u ''requested_dept_ids''}"

definition ALLOWED_DRILL_SLOT_KEYS :: "pystr set" where
  "ALLOWED_DRILL_SLOT_KEYS = {u ''dept_ids'', u ''employee_uid'', u ''order_codes'',
     u ''style_codes'', u ''plan_codes'', u ''material_ids''}"

definition ALLOWED_ACTION_CLEAR_FIELDS :: "pystr set" where
  "ALLOWED_ACTION_CLEAR_FIELDS = {u ''order_codes'', u ''style_codes'', u ''plan_codes'',
     u ''material_ids''}"

definition MAX_PREVIEW_ROWS :: int where "MAX_PREVIEW_ROWS = 100"
definition MAX_PREVIEW_GROUPS :: int where "MAX_PREVIEW_GROUPS = 200"

text \<open>\<open>(d or {}).items()\<close>.\<close>

definition items_or_empty :: "('k, 'v) dict option \<Rightarrow> ('k \<times> 'v) list" where
  "items_or_empty d = (case d of None \<Rightarrow> [] | Some items \<Rightarrow> items)"

text \<open>The two model validators: a comma-joined \<open>groupbyFields\<close> is refused, and an action may
  clear approved business fields only (\<open>CardAction.__post_init__\<close>).\<close>

definition groupby_fields_must_be_an_array :: "recipe_step \<Rightarrow> bool" where
  "groupby_fields_must_be_an_array s \<longleftrightarrow>
     \<not> (\<exists>v. map_of (items_or_empty (rs_params s)) (u ''groupbyFields'') = Some (ParamStr v))"

definition to_spec :: "card_action_spec \<Rightarrow> value_error + card_action_spec" where
  "to_spec a = (if list_ex (\<lambda>n. n \<notin> ALLOWED_ACTION_CLEAR_FIELDS) (cas_clear_fields a)
     then Inl (ValueError (u ''Card actions can only clear approved business fields''))
     else Inr a)"

definition recipe_actions :: "capability_recipe \<Rightarrow> card_action_spec list" where
  "recipe_actions r = (case cr_card r of None \<Rightarrow> [] | Some c \<Rightarrow> cs_actions c) @
     concat (map ao_actions (cr_aux_outputs r))"

definition schema_validators :: "capability_recipe \<Rightarrow> bool" where
  "schema_validators r \<longleftrightarrow> list_all groupby_fields_must_be_an_array (cr_steps r) \<and>
     list_all (\<lambda>a. to_spec a = Inr a) (recipe_actions r)"

section \<open>Identifiers\<close>

record char_class =
  cc_isalpha :: "nat \<Rightarrow> bool"
  cc_isalnum :: "nat \<Rightarrow> bool"

fun is_safe_identifier :: "char_class \<Rightarrow> pystr \<Rightarrow> bool" where
  "is_safe_identifier cc [] = False"
| "is_safe_identifier cc (first # rest) =
     ((cc_isalpha cc first \<or> first = 95) \<and> list_all (\<lambda>c. cc_isalnum cc c \<or> c = 95) rest)"

section \<open>Cycle detection\<close>

definition edges_of :: "recipe_step list \<Rightarrow> (pystr, pystr list) dict" where
  "edges_of steps = fold (\<lambda>s d. AList.update (rs_step_id s) (rs_depends_on s) d) steps []"

definition cycle_error :: mes_error where
  "cycle_error = InvalidRequestError (u ''recipe contains a circular dependency'')"

definition unvisited :: "(pystr, pystr list) dict \<Rightarrow> pystr set \<Rightarrow> nat" where
  "unvisited edges visiting = card (fst ` set edges - visiting)"

lemma unvisited_decreases:
  assumes "map_of edges node = Some deps" and "node \<notin> visiting"
  shows "unvisited edges (insert node visiting) < unvisited edges visiting"
proof -
  have "node \<in> fst ` set edges" using map_of_SomeD [OF assms(1)] by force
  then show ?thesis
    unfolding unvisited_def using assms(2) by (intro psubset_card_mono) auto
qed

text \<open>
  The closure \<open>visit\<close> of \<open>_reject_cycles\<close> and its loop over the dependencies.  The path
  \<open>visiting\<close> is restored on every normal return, so it is passed down; \<open>visited\<close> is
  threaded.  A node without an entry has no dependencies.
\<close>

function (sequential)
  visit :: "(pystr, pystr list) dict \<Rightarrow> pystr \<Rightarrow> pystr set \<Rightarrow> pystr set \<Rightarrow> mes_error + pystr set"
and visit_all ::
  "(pystr, pystr list) dict \<Rightarrow> pystr list \<Rightarrow> pystr set \<Rightarrow> pystr set \<Rightarrow> mes_error + pystr set"
where
  "visit edges node visiting visited =
     (if node \<in> visiting then Inl cycle_error
      else if node \<in> visited then Inr visited
      else (case map_of edges node of
          None \<Rightarrow> Inr (insert node visited)
        | Some deps \<Rightarrow> rbind (visit_all edges deps (insert node visiting) visited)
            (\<lambda>visited'. Inr (insert node visited'))))"
| "visit_all edges [] visiting visited = Inr visited"
| "visit_all edges (d # ds) visiting visited =
     rbind (visit edges d visiting visited) (\<lambda>visited'. visit_all edges ds visiting visited')"
  by pat_completeness auto

termination
  by (relation "inv_image (less_than <*lex*> less_than) (\<lambda>x. case x of
      Inl (edges, node, visiting, visited) \<Rightarrow> (unvisited edges visiting, 0)
    | Inr (edges, ds, visiting, visited) \<Rightarrow> (unvisited edges visiting, Suc (length ds)))")
    (auto intro: unvisited_decreases)

definition reject_cycles :: "capability_recipe \<Rightarrow> mes_error + unit" where
  "reject_cycles recipe =
     (let edges = edges_of (cr_steps recipe)
      in rbind (visit_all edges (map fst edges) {} {}) (\<lambda>_. Inr ()))"

section \<open>Validation\<close>

text \<open>\<open>if cond: raise InvalidRequestError(msg)\<close>.\<close>

definition reject_if :: "bool \<Rightarrow> pystr \<Rightarrow> mes_error + unit" where
  "reject_if b msg = (if b then Inl (InvalidRequestError msg) else Inr ())"

definition validate_step_refs ::
  "char_class \<Rightarrow> pystr set \<Rightarrow> pystr set \<Rightarrow> pystr set \<Rightarrow> recipe_step \<Rightarrow> mes_error + unit" where
  "validate_step_refs cc registered step_ids api_step_ids s =
     rthen (case rs_kind s of
         API \<Rightarrow> reject_if (rs_operation_id s \<notin> Some ` registered)
           (u ''step '' @ rs_step_id s @ u '' references an unregistered API'')
       | LOCAL \<Rightarrow> reject_if (rs_compute s = None)
           (u ''local step '' @ rs_step_id s @ u '' requires a compute rule''))
     (rthen (for_each (\<lambda>d. reject_if (d \<notin> step_ids)
         (u ''step '' @ rs_step_id s @ u '' depends on unknown step '' @ d)) (rs_depends_on s))
     (rthen (for_each (\<lambda>(param, binding).
         rthen (reject_if (pb_from_step binding \<notin> api_step_ids)
           (u ''step '' @ rs_step_id s @ u '' param '' @ param @ u '' binds from a non-API step''))
         (reject_if (\<not> is_safe_identifier cc (pb_from_step binding)
             \<or> \<not> is_safe_identifier cc (pb_column binding))
           (u ''step '' @ rs_step_id s @ u '' param '' @ param @ u '' binds an unsafe identifier'')))
         (items_or_empty (rs_param_bindings s)))
     (for_each (\<lambda>(_, filter_key). reject_if (filter_key \<notin> BUSINESS_FILTER_KEYS)
         (u ''step '' @ rs_step_id s @ u '' binds an unknown business filter '' @ filter_key))
         (items_or_empty (rs_filter_bindings s)))))"

definition columns_by_name :: "result_column list \<Rightarrow> (pystr, result_column) dict" where
  "columns_by_name columns = fold (\<lambda>c d. AList.update (rc_name c) c d) columns []"

definition opt_list :: "'a option \<Rightarrow> 'a list" where
  "opt_list v = (case v of None \<Rightarrow> [] | Some x \<Rightarrow> [x])"

definition card_references :: "card_spec \<Rightarrow> pystr list" where
  "card_references spec = cs_metrics spec @ cs_totals spec @ opt_list (cs_group_by spec) @
     opt_list (cs_rank_column spec) @ opt_list (map_option cam_column (cs_alert_marker spec)) @
     opt_list (cs_group_name_from spec)"

definition validate_card_action ::
  "char_class \<Rightarrow> (pystr, result_column) dict \<Rightarrow> card_action_spec \<Rightarrow> mes_error + unit" where
  "validate_card_action cc by_name action =
     rthen (reject_if (\<not> is_safe_identifier cc (cas_capability_id action))
       (u ''card action capability_id must be a plain identifier''))
     (for_each (\<lambda>(slot_key, column_name).
        rthen (reject_if (slot_key \<notin> ALLOWED_DRILL_SLOT_KEYS)
          (u ''card action binds an unknown drill slot '' @ slot_key))
        (reject_if (column_name \<notin> fst ` set by_name)
          (u ''card action binds unknown result column '' @ column_name)))
      (cas_bind_from action))"

definition validate_card :: "char_class \<Rightarrow> capability_recipe \<Rightarrow> mes_error + unit" where
  "validate_card cc recipe = (case cr_card recipe of
     None \<Rightarrow> Inl (InvalidRequestError (u ''card validation requires a card declaration''))
   | Some spec \<Rightarrow>
       let by_name = columns_by_name (cr_result_columns recipe) in
       rthen (reject_if (\<not> set (cs_hidden_columns spec) \<subseteq> fst ` set by_name)
         (u ''card has unknown hidden columns''))
       (rthen (for_each (\<lambda>name. reject_if (name \<notin> fst ` set by_name)
           (u ''card references unknown result column '' @ name)) (card_references spec))
       (rthen (if cs_kind spec = KPI
          then rthen (reject_if (cs_metrics spec = []) (u ''kpi card requires at least one metric''))
            (reject_if (cs_group_by spec \<noteq> None \<or> cs_rank_column spec \<noteq> None
                \<or> cs_alert_marker spec \<noteq> None)
              (u ''kpi card cannot declare a preview table''))
          else (case cs_preview_max_rows spec of
              None \<Rightarrow> Inl (InvalidRequestError (u ''table-bearing card requires preview_max_rows''))
            | Some n \<Rightarrow>
                rthen (reject_if (\<not> (1 \<le> n \<and> n \<le> MAX_PREVIEW_ROWS))
                  (u ''card preview_max_rows must be within 1..100''))
                (reject_if (cs_kind spec = RANKING \<and> cs_rank_column spec = None)
                  (u ''ranking card requires rank_column''))))
       (rthen (reject_if (\<not> (1 \<le> cs_preview_max_groups spec
             \<and> cs_preview_max_groups spec \<le> MAX_PREVIEW_GROUPS))
           (u ''card preview_max_groups must be within 1..200''))
       (rthen (for_each (\<lambda>name.
           reject_if (rc_column_type (the (map_of by_name name)) \<notin> CARD_METRIC_TYPES)
             (u ''card metric '' @ name @ u '' must be a numeric column (['' @ [39] @ u ''money'' @ [39]
              @ u '', '' @ [39] @ u ''percent'' @ [39] @ u '', '' @ [39] @ u ''quantity'' @ [39]
              @ u ''])'')) (cs_metrics spec))
         (for_each (validate_card_action cc by_name) (cs_actions spec)))))))"

text \<open>The branch of \<open>_validate_aux_outputs\<close> for an exportable detail view.\<close>

definition validate_detail_view ::
  "char_class \<Rightarrow> capability_recipe \<Rightarrow> aux_output \<Rightarrow> mes_error + unit" where
  "validate_detail_view cc recipe aux =
     (let names = map rc_name (ao_columns aux) in
      rthen (reject_if (ao_title aux \<in> {None, Some []} \<or> names = [] \<or> \<not> distinct names)
        (u ''aux output '' @ ao_aux_id aux @ u '' requires unique detail columns and title''))
      (rthen (reject_if (ao_group_by aux \<notin> Some ` set names
           \<or> ao_group_by aux \<notin> Some ` rc_name ` set (cr_result_columns recipe))
        (u ''aux output '' @ ao_aux_id aux @ u '' requires a shared result group key''))
      (rthen (reject_if (ao_status_column aux \<notin> insert None (Some ` set names))
        (u ''aux output '' @ ao_aux_id aux @ u '' has an unknown status column''))
      (rthen (reject_if (\<not> set (ao_hidden_columns aux) \<subseteq> set names)
        (u ''aux output '' @ ao_aux_id aux @ u '' has unknown hidden columns''))
      (rthen (for_each (\<lambda>column.
          rthen (reject_if (\<not> is_safe_identifier cc (rc_name column)
              \<or> rc_source_step column \<notin> rs_step_id ` set (cr_steps recipe))
            (u ''aux output '' @ ao_aux_id aux @ u '' has an invalid detail source''))
          (reject_if (rc_metric column \<notin> insert None (Some ` fst ` set (cr_metric_versions recipe)))
            (u ''aux output '' @ ao_aux_id aux @ u '' has an unversioned metric''))) (ao_columns aux))
      (for_each (\<lambda>action.
          rthen (reject_if (\<not> is_safe_identifier cc (cas_capability_id action))
            (u ''detail action has an invalid capability''))
          (reject_if (list_ex (\<lambda>(slot, column).
              slot \<notin> ALLOWED_DRILL_SLOT_KEYS \<or> column \<notin> set names) (cas_bind_from action))
            (u ''detail action has an invalid business binding''))) (ao_actions aux)))))))"

definition validate_aux_total ::
  "capability_recipe \<Rightarrow> aux_output \<Rightarrow> aux_metric \<Rightarrow> mes_error + unit" where
  "validate_aux_total recipe aux metric = (case am_total_key metric of
     None \<Rightarrow> Inr ()
   | Some key \<Rightarrow>
       reject_if (case find (\<lambda>c. rc_name c = key) (cr_result_columns recipe) of
           None \<Rightarrow> True
         | Some c \<Rightarrow> rc_column_type c \<notin> CARD_METRIC_TYPES \<or> rc_aggregation c \<noteq> AGG_NONE)
         (u ''aux output '' @ ao_aux_id aux @ u '' has an invalid nonadditive total''))"

definition validate_aux_output ::
  "char_class \<Rightarrow> capability_recipe \<Rightarrow> pystr set \<Rightarrow> aux_output \<Rightarrow> mes_error + unit" where
  "validate_aux_output cc recipe api_step_ids aux =
     rthen (for_each (\<lambda>d. reject_if (d \<notin> api_step_ids)
         (u ''aux output '' @ ao_aux_id aux @ u '' depends on unknown API step '' @ d))
         (ao_depends_on aux))
     (rthen (reject_if (py_strip (ao_compute aux) = [])
         (u ''aux output '' @ ao_aux_id aux @ u '' requires a compute rule''))
     (rthen (for_each (\<lambda>(sql_param, filter_key).
         reject_if (\<not> is_safe_identifier cc sql_param \<or> filter_key \<notin> BUSINESS_FILTER_KEYS)
           (u ''aux output '' @ ao_aux_id aux @ u '' has an invalid filter binding''))
         (items_or_empty (ao_filter_bindings aux)))
     (rthen (case ao_into aux of
         INTO_CHART \<Rightarrow> reject_if (ao_chart_unit aux = None)
           (u ''aux output '' @ ao_aux_id aux @ u '' declares a chart without chart_unit'')
       | INTO_DETAILS \<Rightarrow> validate_detail_view cc recipe aux
       | INTO_METRICS \<Rightarrow> reject_if (ao_metrics aux = [])
           (u ''aux output '' @ ao_aux_id aux @ u '' declares metrics without entries''))
     (for_each (validate_aux_total recipe aux) (ao_metrics aux)))))"

definition validate_aux_outputs ::
  "char_class \<Rightarrow> capability_recipe \<Rightarrow> pystr set \<Rightarrow> mes_error + unit" where
  "validate_aux_outputs cc recipe api_step_ids =
     rthen (reject_if (card (ao_aux_id ` set (cr_aux_outputs recipe)) \<noteq> length (cr_aux_outputs recipe))
       (u ''recipe contains duplicate aux output IDs''))
     (for_each (validate_aux_output cc recipe api_step_ids) (cr_aux_outputs recipe))"

definition validate_recipe ::
  "char_class \<Rightarrow> pystr set \<Rightarrow> capability_recipe \<Rightarrow> mes_error + unit" where
  "validate_recipe cc registered recipe =
     (let step_ids = rs_step_id ` set (cr_steps recipe);
          api_step_ids = rs_step_id ` {s \<in> set (cr_steps recipe). rs_kind s = API} in
      rthen (reject_if (card step_ids \<noteq> length (cr_steps recipe))
        (u ''recipe contains duplicate step IDs''))
      (rthen (for_each (validate_step_refs cc registered step_ids api_step_ids) (cr_steps recipe))
      (rthen (reject_cycles recipe)
      (rthen (for_each (\<lambda>column.
          rthen (reject_if (rc_source_step column \<notin> step_ids)
            (u ''result column '' @ rc_name column @ u '' references unknown step ''
              @ rc_source_step column))
          (reject_if (rc_metric column \<notin> insert None (Some ` fst ` set (cr_metric_versions recipe)))
            (u ''result column '' @ rc_name column @ u '' uses a metric without a version'')))
          (cr_result_columns recipe))
      (rthen (if cr_card recipe \<noteq> None then validate_card cc recipe else Inr ())
        (validate_aux_outputs cc recipe api_step_ids))))))"

section \<open>Loading\<close>

datatype recipe_file = Unreadable | BadSchema | RecipeDocument int "capability_recipe list"

record recipe_registry =
  rr_version :: int
  rr_recipes :: "(pystr, capability_recipe) dict"

definition registry_get :: "recipe_registry \<Rightarrow> pystr \<Rightarrow> mes_error + capability_recipe" where
  "registry_get r cid = (case map_of (rr_recipes r) cid of
     Some recipe \<Rightarrow> Inr recipe
   | None \<Rightarrow> Inl (InvalidRequestError (u ''capability recipe is not registered: '' @ cid)))"

fun register_recipes ::
  "char_class \<Rightarrow> pystr set \<Rightarrow> (pystr, capability_recipe) dict \<Rightarrow> capability_recipe list
   \<Rightarrow> mes_error + (pystr, capability_recipe) dict"
where
  "register_recipes cc registered recipes [] = Inr recipes"
| "register_recipes cc registered recipes (r # rs) =
     rthen (reject_if (cr_capability_id r \<in> fst ` set recipes)
       (u ''duplicate capability ID across recipe files''))
     (rthen (validate_recipe cc registered r)
       (register_recipes cc registered (AList.update (cr_capability_id r) r recipes) rs))"

text \<open>The loop over the sorted files: the registry built so far and the last version seen.\<close>

fun load_files ::
  "char_class \<Rightarrow> pystr set \<Rightarrow> int \<times> (pystr, capability_recipe) dict \<Rightarrow> (pystr \<times> recipe_file) list
   \<Rightarrow> mes_error + int \<times> (pystr, capability_recipe) dict"
where
  "load_files cc registered (version, recipes) [] = Inr (version, recipes)"
| "load_files cc registered (version, recipes) ((name, Unreadable) # files) =
     Inl (InvalidRequestError (u ''recipe file is unreadable: '' @ name))"
| "load_files cc registered (version, recipes) ((name, BadSchema) # files) =
     Inl (InvalidRequestError (u ''recipe failed schema validation: '' @ name))"
| "load_files cc registered (version, recipes) ((name, RecipeDocument v rs) # files) =
     rthen (reject_if (\<not> list_all schema_validators rs)
       (u ''recipe failed schema validation: '' @ name))
     (rbind (register_recipes cc registered recipes rs) (\<lambda>recipes'.
       load_files cc registered (v, recipes') files))"

definition validate_card_action_targets ::
  "(pystr, capability_recipe) dict \<Rightarrow> mes_error + unit" where
  "validate_card_action_targets recipes = for_each (\<lambda>recipe.
     for_each (\<lambda>action. reject_if (cas_capability_id action \<notin> fst ` set recipes)
       (u ''card action of '' @ cr_capability_id recipe @ u '' targets unregistered ''
         @ u ''capability '' @ cas_capability_id action)) (recipe_actions recipe)) (map snd recipes)"

definition load_recipes ::
  "char_class \<Rightarrow> pystr set \<Rightarrow> (pystr \<times> recipe_file) list \<Rightarrow> mes_error + recipe_registry" where
  "load_recipes cc registered files =
     rbind (load_files cc registered (1, []) files) (\<lambda>(version, recipes).
       rthen (validate_card_action_targets recipes)
         (Inr \<lparr>rr_version = version, rr_recipes = recipes\<rparr>))"

lemma reject_if_Inr [result_simps]: "reject_if b m = Inr () \<longleftrightarrow> \<not> b"
  by (simp add: reject_if_def)

lemma validate_recipe_Inr:
  "validate_recipe cc registered recipe = Inr () \<longleftrightarrow>
     distinct (map rs_step_id (cr_steps recipe)) \<and>
     (\<forall>s \<in> set (cr_steps recipe). validate_step_refs cc registered
        (rs_step_id ` set (cr_steps recipe))
        (rs_step_id ` {s \<in> set (cr_steps recipe). rs_kind s = API}) s = Inr ()) \<and>
     reject_cycles recipe = Inr () \<and>
     (\<forall>c \<in> set (cr_result_columns recipe). rc_source_step c \<in> rs_step_id ` set (cr_steps recipe) \<and>
        (\<forall>m. rc_metric c = Some m \<longrightarrow> m \<in> fst ` set (cr_metric_versions recipe))) \<and>
     (cr_card recipe \<noteq> None \<longrightarrow> validate_card cc recipe = Inr ()) \<and>
     validate_aux_outputs cc recipe (rs_step_id ` {s \<in> set (cr_steps recipe). rs_kind s = API}) = Inr ()"
proof -
  have card: "card (rs_step_id ` set (cr_steps recipe)) = length (cr_steps recipe) \<longleftrightarrow>
      distinct (map rs_step_id (cr_steps recipe))"
    using distinct_card [of "map rs_step_id (cr_steps recipe)"]
      card_distinct [of "map rs_step_id (cr_steps recipe)"] by auto
  have metric: "m \<in> insert None (Some ` K) \<longleftrightarrow> (\<forall>x. m = Some x \<longrightarrow> x \<in> K)" for m :: "'a option" and K
    by (cases m) auto
  show ?thesis
    unfolding validate_recipe_def Let_def result_simps metric
    by (simp add: card result_simps metric)
qed

section \<open>The cycle check is exact\<close>

definition edge_rel :: "(pystr, pystr list) dict \<Rightarrow> (pystr \<times> pystr) set" where
  "edge_rel edges = {(n, d). \<exists>deps. map_of edges n = Some deps \<and> d \<in> set deps}"

text \<open>A visited set is explored: closed under dependencies and free of cycles.\<close>

definition explored :: "(pystr, pystr list) dict \<Rightarrow> pystr set \<Rightarrow> bool" where
  "explored edges D \<longleftrightarrow> (\<forall>(n, d) \<in> edge_rel edges. n \<in> D \<longrightarrow> d \<in> D) \<and>
     (\<forall>n \<in> D. (n, n) \<notin> (edge_rel edges)\<^sup>+)"

lemma explored_trancl:
  assumes "explored edges D" and "(n, m) \<in> (edge_rel edges)\<^sup>+" and "n \<in> D"
  shows "m \<in> D"
  using assms(2,3,1) by induction (auto simp: explored_def)

lemma explored_insert:
  assumes "explored edges D" and "n \<notin> D"
    and "\<And>d. (n, d) \<in> edge_rel edges \<Longrightarrow> d \<in> D"
  shows "explored edges (insert n D)"
proof -
  have "(n, n) \<notin> (edge_rel edges)\<^sup>+"
  proof
    assume "(n, n) \<in> (edge_rel edges)\<^sup>+"
    then obtain d where "(n, d) \<in> edge_rel edges" and "d = n \<or> (d, n) \<in> (edge_rel edges)\<^sup>+"
      by (meson tranclD2 converse_tranclE)
    then show False using assms explored_trancl by blast
  qed
  then show ?thesis using assms by (auto simp: explored_def)
qed

lemma visit_explores:
  "visit edges n V D = Inr D' \<Longrightarrow> explored edges D \<Longrightarrow> D \<inter> V = {} \<Longrightarrow>
     D \<subseteq> D' \<and> n \<in> D' \<and> explored edges D' \<and> D' \<inter> V = {}"
  "visit_all edges ds V D = Inr D' \<Longrightarrow> explored edges D \<Longrightarrow> D \<inter> V = {} \<Longrightarrow>
     D \<subseteq> D' \<and> set ds \<subseteq> D' \<and> explored edges D' \<and> D' \<inter> V = {}"
proof (induction edges n V D and edges ds V D arbitrary: D' and D' rule: visit_visit_all.induct)
  case (1 edges n V D)
  show ?case
  proof (cases "n \<in> D \<or> n \<in> V")
    case True
    then show ?thesis using "1.prems" by (auto split: if_splits)
  next
    case fresh: False
    show ?thesis
    proof (cases "map_of edges n")
      case None
      have "(n, d) \<notin> edge_rel edges" for d using None by (simp add: edge_rel_def)
      then have "explored edges (insert n D)"
        using explored_insert [of edges D n] "1.prems"(2) fresh by blast
      moreover have "D' = insert n D" using "1.prems"(1) None fresh by simp
      ultimately show ?thesis using "1.prems"(3) fresh by blast
    next
      case (Some deps)
      with "1.prems"(1) fresh obtain D1 where D1: "visit_all edges deps (insert n V) D = Inr D1"
        and D': "D' = insert n D1"
        by (auto simp: result_simps)
      have "D \<subseteq> D1 \<and> set deps \<subseteq> D1 \<and> explored edges D1 \<and> D1 \<inter> insert n V = {}"
        using "1.IH" [OF _ _ Some D1] "1.prems"(2,3) fresh by blast
      moreover have "d \<in> set deps" if "(n, d) \<in> edge_rel edges" for d
        using that Some by (simp add: edge_rel_def)
      ultimately show ?thesis
        using explored_insert [of edges D1 n] fresh D' by blast
    qed
  qed
next
  case (3 edges d ds V D)
  from "3.prems"(1) obtain D1 where
    D1: "visit edges d V D = Inr D1" "visit_all edges ds V D1 = Inr D'"
    unfolding visit_all.simps result_simps by blast
  have a: "D \<subseteq> D1 \<and> d \<in> D1 \<and> explored edges D1 \<and> D1 \<inter> V = {}"
    using "3.IH"(1) [OF D1(1)] "3.prems"(2,3) by blast
  then have "D1 \<subseteq> D' \<and> set ds \<subseteq> D' \<and> explored edges D' \<and> D' \<inter> V = {}"
    using "3.IH"(2) [OF D1] by blast
  with a show ?case by (simp only: list.set insert_subset) blast
qed auto

lemma visit_rejects_cycle:
  "visit edges n V D = Inl e \<Longrightarrow> (\<And>v. v \<in> V \<Longrightarrow> (v, n) \<in> (edge_rel edges)\<^sup>+) \<Longrightarrow>
     e = cycle_error \<and> (\<exists>x. (x, x) \<in> (edge_rel edges)\<^sup>+)"
  "visit_all edges ds V D = Inl e \<Longrightarrow>
     (\<And>v d. v \<in> V \<Longrightarrow> d \<in> set ds \<Longrightarrow> (v, d) \<in> (edge_rel edges)\<^sup>+) \<Longrightarrow>
     e = cycle_error \<and> (\<exists>x. (x, x) \<in> (edge_rel edges)\<^sup>+)"
proof (induction edges n V D and edges ds V D rule: visit_visit_all.induct)
  case (1 edges n V D)
  show ?case
  proof (cases "n \<in> V")
    case True
    then show ?thesis using "1.prems" by auto
  next
    case False
    with "1.prems"(1) obtain deps where fresh: "n \<notin> D" and Some: "map_of edges n = Some deps"
      and run: "visit_all edges deps (insert n V) D = Inl e"
      by (auto simp: result_simps split: if_splits option.splits)
    have "(v, d) \<in> (edge_rel edges)\<^sup>+" if "v \<in> insert n V" "d \<in> set deps" for v d
    proof -
      have "(n, d) \<in> edge_rel edges" using that(2) Some by (simp add: edge_rel_def)
      then show ?thesis using that(1) "1.prems"(2) by (auto intro: trancl.trancl_into_trancl)
    qed
    then show ?thesis using "1.IH" [OF False fresh Some run] by blast
  qed
next
  case (3 edges d ds V D)
  show ?case
  proof (cases "visit edges d V D")
    case (Inl e')
    then show ?thesis using "3.IH"(1) [of] "3.prems" by auto
  next
    case (Inr D1)
    then show ?thesis using "3.IH"(2) [OF Inr] "3.prems" by auto
  qed
qed auto

lemma reject_cycles_edges:
  "reject_cycles recipe = Inr () \<longleftrightarrow> acyclic (edge_rel (edges_of (cr_steps recipe)))"
  "reject_cycles recipe = Inl e \<Longrightarrow> e = cycle_error"
proof -
  let ?e = "edges_of (cr_steps recipe)"
  let ?run = "visit_all ?e (map fst ?e) {} {}"
  have eq: "reject_cycles recipe = rbind ?run (\<lambda>_. Inr ())"
    by (simp add: reject_cycles_def Let_def)
  have ok: "acyclic (edge_rel ?e)" if "?run = Inr D" for D
  proof (rule acyclicI, rule allI, rule notI)
    fix x assume x: "(x, x) \<in> (edge_rel ?e)\<^sup>+"
    then obtain y where "(x, y) \<in> edge_rel ?e" by (meson tranclD)
    then have "x \<in> set (map fst ?e)"
      by (auto simp: edge_rel_def dest!: map_of_SomeD intro: rev_image_eqI)
    moreover have "set (map fst ?e) \<subseteq> D \<and> explored ?e D"
      using visit_explores(2) [OF that] by (simp add: explored_def)
    ultimately show False using x by (auto simp: explored_def)
  qed
  have bad: "e = cycle_error \<and> (\<exists>x. (x, x) \<in> (edge_rel ?e)\<^sup>+)" if "?run = Inl e" for e
    using visit_rejects_cycle(2) [OF that] by simp
  show "reject_cycles recipe = Inr () \<longleftrightarrow> acyclic (edge_rel ?e)"
    unfolding eq by (cases ?run) (use ok bad in \<open>auto simp: acyclic_def\<close>)
  show "reject_cycles recipe = Inl e \<Longrightarrow> e = cycle_error"
    unfolding eq by (cases ?run) (use bad in auto)
qed

text \<open>The dependency relation of the steps themselves.\<close>

definition depends_rel :: "recipe_step list \<Rightarrow> (pystr \<times> pystr) set" where
  "depends_rel steps = {(rs_step_id s, d) |s d. s \<in> set steps \<and> d \<in> set (rs_depends_on s)}"

lemma fold_update_keys:
  "set (map fst (fold (\<lambda>x d. AList.update (k x) (f x) d) xs d)) = set (map fst d) \<union> k ` set xs"
proof (induction xs arbitrary: d)
  case (Cons x xs)
  show ?case unfolding fold_Cons comp_apply Cons.IH keys_update by simp
qed simp

lemma map_of_fold_update:
  "distinct (map k xs) \<Longrightarrow>
   map_of (fold (\<lambda>x d. AList.update (k x) (f x) d) xs d) n =
     (case find (\<lambda>x. k x = n) xs of Some x \<Rightarrow> Some (f x) | None \<Rightarrow> map_of d n)"
proof (induction xs arbitrary: d)
  case (Cons x xs)
  have "find (\<lambda>y. k y = n) xs = None" if "k x = n"
    using Cons.prems that unfolding find_None_iff
    by (metis distinct.simps(2) imageI list.set_map list.simps(9))
  then show ?case using Cons by (auto simp: dict_simps split: option.splits)
qed simp

lemma edge_rel_edges_of:
  assumes "distinct (map rs_step_id steps)"
  shows "edge_rel (edges_of steps) = depends_rel steps"
proof -
  have "map_of (edges_of steps) n = Some deps \<longleftrightarrow>
      (\<exists>s \<in> set steps. rs_step_id s = n \<and> rs_depends_on s = deps)" for n deps
  proof -
    have "map_of (edges_of steps) n = map_option rs_depends_on (find (\<lambda>s. rs_step_id s = n) steps)"
      unfolding edges_of_def map_of_fold_update [OF assms] by (simp split: option.splits)
    moreover have found: "find (\<lambda>s. rs_step_id s = n) steps = Some s \<longleftrightarrow>
        s \<in> set steps \<and> rs_step_id s = n" for s
      using assms by (induction steps) (auto simp: image_iff)
    ultimately show ?thesis
      by (simp only: map_option_eq_Some found) blast
  qed
  then show ?thesis unfolding edge_rel_def depends_rel_def by auto
qed

section \<open>Loading keeps only valid recipes\<close>

definition registry_wf :: "char_class \<Rightarrow> pystr set \<Rightarrow> (pystr, capability_recipe) dict \<Rightarrow> bool" where
  "registry_wf cc registered recipes \<longleftrightarrow> distinct (map fst recipes) \<and>
     (\<forall>(k, r) \<in> set recipes. cr_capability_id r = k \<and> validate_recipe cc registered r = Inr () \<and>
        schema_validators r)"

lemma register_recipes_wf:
  "register_recipes cc registered recipes rs = Inr recipes' \<Longrightarrow> registry_wf cc registered recipes \<Longrightarrow>
   list_all schema_validators rs \<Longrightarrow>
   registry_wf cc registered recipes' \<and>
   fst ` set recipes' = fst ` set recipes \<union> cr_capability_id ` set rs"
proof (induction cc registered recipes rs rule: register_recipes.induct)
  case (2 cc registered recipes r rs)
  from "2.prems"(1) have fresh: "cr_capability_id r \<notin> fst ` set recipes"
    and ok: "validate_recipe cc registered r = Inr ()"
    and run: "register_recipes cc registered (AList.update (cr_capability_id r) r recipes) rs = Inr recipes'"
    by (simp_all add: result_simps)
  have upd: "AList.update (cr_capability_id r) r recipes = recipes @ [(cr_capability_id r, r)]"
    using fresh by (simp add: update_fresh)
  have "registry_wf cc registered (recipes @ [(cr_capability_id r, r)])"
    using "2.prems"(2,3) fresh ok by (auto simp: registry_wf_def)
  then show ?case
    using "2.IH" [OF _ _ run] fresh ok "2.prems"(3) unfolding upd
    by (simp add: reject_if_def Un_assoc [symmetric])
qed simp

lemma load_files_wf:
  "load_files cc registered vr files = Inr vr' \<Longrightarrow> registry_wf cc registered (snd vr) \<Longrightarrow>
   registry_wf cc registered (snd vr')"
proof (induction cc registered vr files rule: load_files.induct)
  case (4 cc registered version recipes name v rs files)
  from "4.prems"(1) obtain recipes' where schema: "list_all schema_validators rs"
    and reg: "register_recipes cc registered recipes rs = Inr recipes'"
    and run: "load_files cc registered (v, recipes') files = Inr vr'"
    by (auto simp: result_simps)
  have "reject_if (\<not> list_all schema_validators rs)
      (u ''recipe failed schema validation: '' @ name) = Inr ()"
    using schema by (simp add: reject_if_def)
  then show ?case
    using "4.IH" [OF _ reg run] register_recipes_wf [OF reg _ schema] "4.prems"(2) by simp
qed simp_all

lemma recipe_dependencies:
  assumes "validate_recipe cc registered recipe = Inr ()" and "s \<in> set (cr_steps recipe)"
  shows "set (rs_depends_on s) \<subseteq> rs_step_id ` set (cr_steps recipe)"
    and "rs_kind s = API \<Longrightarrow> \<exists>oid \<in> registered. rs_operation_id s = Some oid"
    and "(p, b) \<in> set (items_or_empty (rs_param_bindings s)) \<Longrightarrow>
      is_safe_identifier cc (pb_from_step b) \<and> is_safe_identifier cc (pb_column b)"
proof -
  have "validate_step_refs cc registered (rs_step_id ` set (cr_steps recipe))
      (rs_step_id ` {s \<in> set (cr_steps recipe). rs_kind s = API}) s = Inr ()"
    using assms by (simp add: validate_recipe_Inr)
  then have v: "\<forall>d \<in> set (rs_depends_on s). d \<in> rs_step_id ` set (cr_steps recipe)"
    "rs_kind s = API \<longrightarrow> rs_operation_id s \<in> Some ` registered"
    "\<forall>(p, b) \<in> set (items_or_empty (rs_param_bindings s)).
       is_safe_identifier cc (pb_from_step b) \<and> is_safe_identifier cc (pb_column b)"
    by (auto simp: validate_step_refs_def result_simps split: step_kind.splits)
  show "set (rs_depends_on s) \<subseteq> rs_step_id ` set (cr_steps recipe)" using v(1) by blast
  show "rs_kind s = API \<Longrightarrow> \<exists>oid \<in> registered. rs_operation_id s = Some oid" using v(2) by blast
  show "(p, b) \<in> set (items_or_empty (rs_param_bindings s)) \<Longrightarrow>
      is_safe_identifier cc (pb_from_step b) \<and> is_safe_identifier cc (pb_column b)"
    using v(3) by blast
qed

lemma recipe_acyclic:
  assumes "validate_recipe cc registered recipe = Inr ()"
  shows "distinct (map rs_step_id (cr_steps recipe)) \<and> acyclic (depends_rel (cr_steps recipe))"
proof -
  have "distinct (map rs_step_id (cr_steps recipe))" "reject_cycles recipe = Inr ()"
    using assms unfolding validate_recipe_Inr by blast+
  then show ?thesis using edge_rel_edges_of by (simp add: reject_cycles_edges(1))
qed

text \<open>No \<open>columns_by_name[name]\<close> of \<open>_validate_card\<close> can raise: the metrics are among the
  references checked before.\<close>

lemma validate_card_metrics_known:
  assumes "validate_card cc recipe = Inr ()" and "cr_card recipe = Some spec"
    and "name \<in> set (cs_metrics spec)"
  shows "\<exists>c. map_of (columns_by_name (cr_result_columns recipe)) name = Some c \<and>
    rc_column_type c \<in> CARD_METRIC_TYPES"
proof -
  have "name \<in> fst ` set (columns_by_name (cr_result_columns recipe))"
    and ty: "rc_column_type (the (map_of (columns_by_name (cr_result_columns recipe)) name)) \<in> CARD_METRIC_TYPES"
    using assms by (auto simp: validate_card_def Let_def result_simps card_references_def)
  then obtain c where "map_of (columns_by_name (cr_result_columns recipe)) name = Some c"
    by (metis domIff dom_map_of_conv_image_fst not_None_eq)
  with ty show ?thesis by simp
qed

text \<open>
  \<^bold>\<open>C39\<close>.  The depth-first cycle check decides acyclicity: for steps with distinct ids it passes
  exactly when the dependency relation has no cycle, and otherwise raises the one
  circular-dependency error.  It always terminates, also on cyclic input.
\<close>

theorem reject_cycles_exact:
  assumes "distinct (map rs_step_id (cr_steps recipe))"
  shows "(reject_cycles recipe = Inr () \<longleftrightarrow> acyclic (depends_rel (cr_steps recipe))) \<and>
    (reject_cycles recipe = Inl cycle_error \<longleftrightarrow> \<not> acyclic (depends_rel (cr_steps recipe)))"
  using reject_cycles_edges [of recipe] edge_rel_edges_of [OF assms]
    unit_result_cases [of "reject_cycles recipe"] by (metis Inl_not_Inr)

definition demo_step :: "string \<Rightarrow> string list \<Rightarrow> recipe_step" where
  "demo_step n ds = \<lparr>rs_step_id = u n, rs_kind = API, rs_operation_id = Some (u ''EmpScan''),
     rs_depends_on = map u ds, rs_parallel_group = None, rs_optional = False, rs_compute = None,
     rs_params = None, rs_param_bindings = None, rs_filter_bindings = None\<rparr>"

definition demo_recipe :: "recipe_step list \<Rightarrow> capability_recipe" where
  "demo_recipe steps = \<lparr>cr_capability_id = u ''own_output'', cr_title = [], cr_required_slots = [],
     cr_steps = steps, cr_result_columns = [], cr_metric_versions = [], cr_card = None,
     cr_aux_outputs = [], cr_degradation = FAIL, cr_footer_reconciliation = None\<rparr>"

theorem reject_cycles_exact_witness:
  "acyclic (depends_rel [demo_step ''c'' [''b'', ''a''], demo_step ''b'' [''a''], demo_step ''a'' []]) \<and>
   \<not> acyclic (depends_rel [demo_step ''a'' [''b''], demo_step ''b'' [''a'']])"
proof
  let ?ok = "demo_recipe [demo_step ''c'' [''b'', ''a''], demo_step ''b'' [''a''], demo_step ''a'' []]"
  have "reject_cycles ?ok = Inr ()"
    by (simp add: reject_cycles_def edges_of_def demo_recipe_def demo_step_def)
  then show "acyclic (depends_rel [demo_step ''c'' [''b'', ''a''], demo_step ''b'' [''a''], demo_step ''a'' []])"
    using reject_cycles_exact [of ?ok] by (simp add: demo_recipe_def demo_step_def)
  let ?bad = "demo_recipe [demo_step ''a'' [''b''], demo_step ''b'' [''a'']]"
  have "reject_cycles ?bad = Inl cycle_error"
    by (simp add: reject_cycles_def edges_of_def demo_recipe_def demo_step_def)
  then show "\<not> acyclic (depends_rel [demo_step ''a'' [''b''], demo_step ''b'' [''a'']])"
    using reject_cycles_exact [of ?bad] by (simp add: demo_recipe_def demo_step_def)
qed

text \<open>
  \<^bold>\<open>C40\<close>.  Unreviewed recipes never register.  A registry that loads returns, for a capability id,
  a recipe with that id that passed validation: its step ids are distinct, its dependencies are
  steps of the recipe and free of cycles, every API step names a registered operation, every bound
  parameter goes through identifiers that are safe to put into sandbox SQL, and every drill action
  leads to a registered capability and clears approved fields only.
\<close>

theorem load_recipes_sound:
  assumes "load_recipes cc registered files = Inr r" and "registry_get r cid = Inr recipe"
  shows "cr_capability_id recipe = cid \<and>
    distinct (map rs_step_id (cr_steps recipe)) \<and> acyclic (depends_rel (cr_steps recipe)) \<and>
    (\<forall>s \<in> set (cr_steps recipe). set (rs_depends_on s) \<subseteq> rs_step_id ` set (cr_steps recipe) \<and>
       (rs_kind s = API \<longrightarrow> (\<exists>oid \<in> registered. rs_operation_id s = Some oid)) \<and>
       (\<forall>(p, b) \<in> set (items_or_empty (rs_param_bindings s)).
          is_safe_identifier cc (pb_from_step b) \<and> is_safe_identifier cc (pb_column b))) \<and>
    (\<forall>a \<in> set (recipe_actions recipe). (\<exists>target. registry_get r (cas_capability_id a) = Inr target) \<and>
       set (cas_clear_fields a) \<subseteq> ALLOWED_ACTION_CLEAR_FIELDS)"
proof -
  from assms(1) obtain v recipes where load: "load_files cc registered (1, []) files = Inr (v, recipes)"
    and targets: "validate_card_action_targets recipes = Inr ()"
    and r: "r = \<lparr>rr_version = v, rr_recipes = recipes\<rparr>"
    by (auto simp: load_recipes_def result_simps)
  have wf: "registry_wf cc registered recipes"
    using load_files_wf [OF load] by (simp add: registry_wf_def)
  from assms(2) have mem: "(cid, recipe) \<in> set recipes"
    by (auto simp: registry_get_def r split: option.splits dest: map_of_SomeD)
  with wf have cid: "cr_capability_id recipe = cid" and ok: "validate_recipe cc registered recipe = Inr ()"
    and sv: "schema_validators recipe"
    by (auto simp: registry_wf_def)
  have "\<exists>target. registry_get r (cas_capability_id a) = Inr target" if "a \<in> set (recipe_actions recipe)" for a
  proof -
    have "cas_capability_id a \<in> fst ` set recipes"
      using targets mem that by (force simp: validate_card_action_targets_def result_simps)
    then show ?thesis
      by (cases "map_of recipes (cas_capability_id a)")
        (auto simp: registry_get_def r map_of_eq_None_iff)
  qed
  moreover have "set (cas_clear_fields a) \<subseteq> ALLOWED_ACTION_CLEAR_FIELDS"
    if "a \<in> set (recipe_actions recipe)" for a
    using sv that by (auto simp: schema_validators_def list_all_iff to_spec_def list_ex_iff split: if_splits)
  ultimately show ?thesis
    using cid recipe_acyclic [OF ok] recipe_dependencies [OF ok] by blast
qed

definition ascii_class :: char_class where
  "ascii_class = \<lparr>cc_isalpha = (\<lambda>c. 65 \<le> c \<and> c \<le> 90 \<or> 97 \<le> c \<and> c \<le> 122),
     cc_isalnum = (\<lambda>c. 48 \<le> c \<and> c \<le> 57 \<or> 65 \<le> c \<and> c \<le> 90 \<or> 97 \<le> c \<and> c \<le> 122)\<rparr>"

lemma demo_recipe_valid:
  "validate_recipe ascii_class {u ''EmpScan''}
     (demo_recipe [demo_step ''b'' [''a''], demo_step ''a'' []]) = Inr ()"
proof -
  let ?r = "demo_recipe [demo_step ''b'' [''a''], demo_step ''a'' []]"
  have "reject_cycles ?r = Inr ()"
    by (simp add: reject_cycles_def edges_of_def demo_recipe_def demo_step_def)
  then show ?thesis
    unfolding validate_recipe_Inr
    by (simp add: demo_recipe_def demo_step_def validate_step_refs_def validate_aux_outputs_def
        reject_if_def items_or_empty_def)
qed

theorem load_recipes_sound_witness:
  "acyclic (depends_rel [demo_step ''b'' [''a''], demo_step ''a'' []])"
proof -
  let ?r = "demo_recipe [demo_step ''b'' [''a''], demo_step ''a'' []]"
  note val = demo_recipe_valid
  have sv: "schema_validators ?r"
    by (simp add: schema_validators_def demo_recipe_def demo_step_def recipe_actions_def
        groupby_fields_must_be_an_array_def items_or_empty_def)
  have load: "load_recipes ascii_class {u ''EmpScan''} [(u ''l1.yaml'', RecipeDocument 1 [?r])] =
      Inr \<lparr>rr_version = 1, rr_recipes = [(u ''own_output'', ?r)]\<rparr>"
    using val sv by (simp add: load_recipes_def reject_if_def validate_card_action_targets_def)
      (simp add: demo_recipe_def recipe_actions_def)
  have get: "registry_get \<lparr>rr_version = 1, rr_recipes = [(u ''own_output'', ?r)]\<rparr> (u ''own_output'') = Inr ?r"
    by (simp add: registry_get_def)
  show ?thesis
    using load_recipes_sound [OF load get] by (simp add: demo_recipe_def)
qed

end
