(* ===== verification/Dag.thy ===== *)
theory Dag
  imports Recipes "HOL-Library.Product_Lexorder" "HOL-Library.Multiset"
begin

text \<open>
  The bounded DAG executor, \<^verbatim>\<open>execution/dag.py\<close>: waves of steps, the budget tracker, the
  request cache and the outcome of a run.

  The members of a wave run concurrently under \<open>asyncio.gather\<close>.  A run is driven by an
  explicit list of events: \<open>Start i\<close> is the synchronous part of \<open>_run_step\<close> up to the call
  of the step runner, \<open>Finish i\<close> is the arrival of the runner's reply.  Tasks start in order
  (the event loop is first-in first-out), replies arrive in any order; a list of events the loop
  could not produce gives \<open>None\<close>.  Theorems quantify over all lists.  The step runner and the
  request factory are arguments.
\<close>

section \<open>Budget, outcomes\<close>

record execution_budget =
  eb_max_api_calls :: int
  eb_max_pages :: int
  eb_max_rows :: int
  eb_time_limit_seconds :: real

datatype step_status = COMPLETE | INCOMPLETE | FAILED_STEP | SKIPPED

record 'row step_outcome =
  so_step_id :: pystr
  so_status :: step_status
  so_rows :: "'row list"
  so_reason :: "pystr option"

record 'row dag_result =
  dr_outcomes :: "'row step_outcome list"
  dr_complete :: bool
  dr_cancel_reason :: "pystr option"

definition rows_for :: "'row dag_result \<Rightarrow> pystr \<Rightarrow> 'row list" where
  "rows_for r sid = (case find (\<lambda>o'. so_step_id o' = sid) (dr_outcomes r) of
     Some o' \<Rightarrow> so_rows o' | None \<Rightarrow> [])"

text \<open>What a step can raise: an exhausted budget, a MES error, anything else.\<close>

datatype dag_exn = BudgetExceededError pystr | MesExn mes_error | OtherExn pystr

record budget_tracker =
  bt_api_calls :: int
  bt_pages :: int
  bt_rows :: int

definition new_tracker :: budget_tracker where
  "new_tracker = \<lparr>bt_api_calls = 0, bt_pages = 0, bt_rows = 0\<rparr>"

definition charge_call ::
  "execution_budget \<Rightarrow> budget_tracker \<Rightarrow> (dag_exn + unit) \<times> budget_tracker" where
  "charge_call b t = (let t' = t\<lparr>bt_api_calls := bt_api_calls t + 1\<rparr> in
     (if bt_api_calls t' > eb_max_api_calls b
      then Inl (BudgetExceededError (u ''api_call_budget_exhausted'')) else Inr (), t'))"

definition charge_pages ::
  "execution_budget \<Rightarrow> int \<Rightarrow> budget_tracker \<Rightarrow> (dag_exn + unit) \<times> budget_tracker" where
  "charge_pages b n t = (let t' = t\<lparr>bt_pages := bt_pages t + n\<rparr> in
     (if bt_pages t' > eb_max_pages b
      then Inl (BudgetExceededError (u ''page_budget_exhausted'')) else Inr (), t'))"

definition charge_rows ::
  "execution_budget \<Rightarrow> int \<Rightarrow> budget_tracker \<Rightarrow> (dag_exn + unit) \<times> budget_tracker" where
  "charge_rows b n t = (let t' = t\<lparr>bt_rows := bt_rows t + n\<rparr> in
     (if bt_rows t' > eb_max_rows b
      then Inl (BudgetExceededError (u ''row_budget_exhausted'')) else Inr (), t'))"

text \<open>The elapsed time is the reading of the monotonic clock less \<open>started_at\<close>.\<close>

definition check_time :: "execution_budget \<Rightarrow> real \<Rightarrow> dag_exn + unit" where
  "check_time b elapsed = (if elapsed > eb_time_limit_seconds b
     then Inl (BudgetExceededError (u ''time_budget_exhausted'')) else Inr ())"

section \<open>Waves\<close>

definition ready_steps :: "pystr set \<Rightarrow> recipe_step list \<Rightarrow> recipe_step list" where
  "ready_steps done remaining = filter (\<lambda>s. set (rs_depends_on s) \<subseteq> done) remaining"

text \<open>All ready members of parallel groups, or else the first ready step alone.\<close>

definition next_wave :: "recipe_step list \<Rightarrow> recipe_step list" where
  "next_wave ready = (let grouped = filter (\<lambda>s. rs_parallel_group s \<noteq> None) ready in
     if grouped = [] then take 1 ready else grouped)"

lemma next_wave_subset: "set (next_wave ready) \<subseteq> set ready"
  using set_take_subset [of 1 ready] by (auto simp: next_wave_def Let_def)

lemma next_wave_nonempty: "ready \<noteq> [] \<Longrightarrow> next_wave ready \<noteq> []"
  by (simp add: next_wave_def Let_def)

definition without :: "recipe_step list \<Rightarrow> recipe_step list \<Rightarrow> recipe_step list" where
  "without remaining wave = filter (\<lambda>s. rs_step_id s \<notin> rs_step_id ` set wave) remaining"

lemma without_shorter:
  assumes "ready_steps done remaining \<noteq> []"
  shows "length (without remaining (next_wave (ready_steps done remaining))) < length remaining"
proof -
  obtain s where "s \<in> set (next_wave (ready_steps done remaining))"
    using next_wave_nonempty [OF assms] by (meson last_in_set)
  then have "s \<in> set remaining" "rs_step_id s \<in> rs_step_id ` set (next_wave (ready_steps done remaining))"
    using next_wave_subset [of "ready_steps done remaining"] by (auto simp: ready_steps_def)
  then show ?thesis
    unfolding without_def by (intro length_filter_less [of s]) auto
qed

function waves_from ::
  "recipe_step list \<Rightarrow> pystr set \<Rightarrow> mes_error + recipe_step list list" where
  "waves_from remaining done =
     (if remaining = [] then Inr []
      else let ready = ready_steps done remaining in
        if ready = [] then Inl (InternalError (u ''recipe dependency graph is cyclic''))
        else let wave = next_wave ready in
          rbind (waves_from (without remaining wave) (done \<union> rs_step_id ` set wave))
            (\<lambda>waves. Inr (wave # waves)))"
  by pat_completeness auto

termination
  by (relation "measure (\<lambda>(remaining, _). length remaining)") (auto simp: without_shorter)

declare waves_from.simps [simp del]

text \<open>\<open>{step.step_id: step for step in steps}\<close>, as the list of its values.\<close>

definition parallel_groups :: "recipe_step list \<Rightarrow> mes_error + recipe_step list list" where
  "parallel_groups steps =
     waves_from (map snd (fold (\<lambda>s d. AList.update (rs_step_id s) s d) steps [])) {}"

section \<open>One wave\<close>

type_synonym step_key = "pystr \<times> (pystr \<times> pystr) list"
type_synonym request_factory = "recipe_step \<Rightarrow> pystr \<times> (pystr \<times> pystr) list"
type_synonym 'row step_runner =
  "recipe_step \<Rightarrow> budget_tracker \<Rightarrow> (dag_exn + 'row step_outcome) \<times> budget_tracker"

definition cache_key :: "request_factory \<Rightarrow> recipe_step \<Rightarrow> step_key" where
  "cache_key factory s = (case factory s of (oid, query) \<Rightarrow> (oid, sort query))"

datatype 'row task = Waiting | Running step_key | Ended "dag_exn + 'row step_outcome"

text \<open>The state the tasks of a wave share, the tasks, and the calls made so far with their
  replies.\<close>

record 'row wave_state =
  ws_tracker :: budget_tracker
  ws_cache :: "(step_key, 'row step_outcome) dict"
  ws_tasks :: "'row task list"
  ws_calls :: "recipe_step list"
  ws_replies :: "(recipe_step \<times> 'row step_outcome) list"

definition plain_outcome :: "pystr \<Rightarrow> step_status \<Rightarrow> pystr option \<Rightarrow> 'row step_outcome" where
  "plain_outcome sid status reason =
     \<lparr>so_step_id = sid, so_status = status, so_rows = [], so_reason = reason\<rparr>"

text \<open>\<open>_run_step\<close> until it awaits the runner.\<close>

definition start_step ::
  "execution_budget \<Rightarrow> request_factory \<Rightarrow> recipe_step \<Rightarrow> nat \<Rightarrow> 'row wave_state \<Rightarrow> 'row wave_state" where
  "start_step b factory s i w =
     (if rs_kind s \<noteq> API
      then w\<lparr>ws_tasks := (ws_tasks w)[i := Ended (Inr (plain_outcome (rs_step_id s) COMPLETE None))]\<rparr>
      else (case map_of (ws_cache w) (cache_key factory s) of
          Some cached \<Rightarrow> w\<lparr>ws_tasks := (ws_tasks w)[i := Ended (Inr
            \<lparr>so_step_id = rs_step_id s, so_status = so_status cached, so_rows = so_rows cached,
             so_reason = if so_status cached = COMPLETE then Some (u ''deduplicated'')
               else so_reason cached\<rparr>)]\<rparr>
        | None \<Rightarrow> (case charge_call b (ws_tracker w) of
            (Inl e, t) \<Rightarrow> w\<lparr>ws_tracker := t, ws_tasks := (ws_tasks w)[i := Ended (Inl e)]\<rparr>
          | (Inr _, t) \<Rightarrow> w\<lparr>ws_tracker := t, ws_calls := ws_calls w @ [s],
              ws_tasks := (ws_tasks w)[i := Running (cache_key factory s)]\<rparr>)))"

text \<open>The rest of \<open>_run_step\<close>: an optional step turns a MES error into an incomplete outcome,
  a reply is cached.\<close>

definition finish_step ::
  "'row step_runner \<Rightarrow> recipe_step \<Rightarrow> nat \<Rightarrow> step_key \<Rightarrow> 'row wave_state \<Rightarrow> 'row wave_state" where
  "finish_step runner s i key w = (case runner s (ws_tracker w) of
     (Inl (MesExn e), t) \<Rightarrow> w\<lparr>ws_tracker := t, ws_tasks := (ws_tasks w)[i := Ended
        (if rs_optional s
         then Inr (plain_outcome (rs_step_id s) INCOMPLETE (Some
           (case e of UpstreamInvalidError _ \<Rightarrow> u ''upstream_invalid'' | _ \<Rightarrow> u ''optional_failed'')))
         else Inl (MesExn e))]\<rparr>
   | (Inl e, t) \<Rightarrow> w\<lparr>ws_tracker := t, ws_tasks := (ws_tasks w)[i := Ended (Inl e)]\<rparr>
   | (Inr reply, t) \<Rightarrow> w\<lparr>ws_tracker := t, ws_cache := AList.update key reply (ws_cache w),
        ws_replies := ws_replies w @ [(s, reply)],
        ws_tasks := (ws_tasks w)[i := Ended (Inr \<lparr>so_step_id = rs_step_id s,
          so_status = so_status reply, so_rows = so_rows reply, so_reason = None\<rparr>)]\<rparr>)"

datatype event = Start nat | Finish nat

fun run_event ::
  "execution_budget \<Rightarrow> request_factory \<Rightarrow> 'row step_runner \<Rightarrow> recipe_step list \<Rightarrow> event
   \<Rightarrow> 'row wave_state \<Rightarrow> 'row wave_state option"
where
  "run_event b factory runner steps (Start i) w =
     (if i < length steps \<and> ws_tasks w ! i = Waiting \<and> Waiting \<notin> set (take i (ws_tasks w))
      then Some (start_step b factory (steps ! i) i w) else None)"
| "run_event b factory runner steps (Finish i) w =
     (if i < length steps then (case ws_tasks w ! i of
        Running key \<Rightarrow> Some (finish_step runner (steps ! i) i key w)
      | _ \<Rightarrow> None) else None)"

fun run_events ::
  "execution_budget \<Rightarrow> request_factory \<Rightarrow> 'row step_runner \<Rightarrow> recipe_step list \<Rightarrow> event list
   \<Rightarrow> 'row wave_state \<Rightarrow> 'row wave_state option"
where
  "run_events b factory runner steps [] w = Some w"
| "run_events b factory runner steps (e # es) w =
     Option.bind (run_event b factory runner steps e w) (run_events b factory runner steps es)"

fun ended :: "'row task \<Rightarrow> bool" where
  "ended (Ended r) = True"
| "ended t = False"

fun task_result :: "'row task \<Rightarrow> dag_exn + 'row step_outcome" where
  "task_result (Ended r) = r"
| "task_result t = Inl (OtherExn [])"

text \<open>\<open>asyncio.gather(..., return_exceptions=True)\<close> returns when every task has ended.\<close>

definition gather ::
  "execution_budget \<Rightarrow> request_factory \<Rightarrow> 'row step_runner \<Rightarrow> recipe_step list \<Rightarrow> event list
   \<Rightarrow> 'row wave_state \<Rightarrow> 'row wave_state option" where
  "gather b factory runner steps events w =
     (case run_events b factory runner steps events (w\<lparr>ws_tasks := replicate (length steps) Waiting\<rparr>) of
        None \<Rightarrow> None
      | Some w' \<Rightarrow> if list_all ended (ws_tasks w') then Some w' else None)"

section \<open>The run\<close>

type_synonym 'row results = "(pystr, 'row step_outcome) dict"

text \<open>The zip loop: outcomes are recorded until the first exception, which is raised.\<close>

fun collect ::
  "(recipe_step \<times> (dag_exn + 'row step_outcome)) list \<Rightarrow> 'row results \<Rightarrow> 'row results \<times> dag_exn option"
where
  "collect [] results = (results, None)"
| "collect ((s, Inl e) # rest) results = (results, Some e)"
| "collect ((s, Inr outcome) # rest) results =
     collect rest (AList.update (rs_step_id s) outcome results)"

fun skip_missing :: "recipe_step list \<Rightarrow> 'row results \<Rightarrow> 'row results" where
  "skip_missing [] results = results"
| "skip_missing (s # ss) results =
     (if rs_step_id s \<notin> fst ` set results \<and> \<not> set (rs_depends_on s) \<subseteq> fst ` set results
      then skip_missing ss (AList.update (rs_step_id s)
        (plain_outcome (rs_step_id s) SKIPPED (Some (u ''dependency_failed''))) results)
      else skip_missing ss results)"

text \<open>The loop over the waves; for each, the elapsed time at its check and its events.\<close>

fun execute_waves ::
  "execution_budget \<Rightarrow> request_factory \<Rightarrow> 'row step_runner \<Rightarrow> recipe_step list list
   \<Rightarrow> (real \<times> event list) list \<Rightarrow> 'row results \<Rightarrow> 'row wave_state
   \<Rightarrow> ('row results \<times> dag_exn option \<times> 'row wave_state) option"
where
  "execute_waves b factory runner [] envs results w = Some (results, None, w)"
| "execute_waves b factory runner (g # gs) [] results w = None"
| "execute_waves b factory runner (g # gs) ((elapsed, events) # envs) results w =
     (case check_time b elapsed of
        Inl e \<Rightarrow> Some (results, Some e, w)
      | Inr _ \<Rightarrow>
          let runnable = filter (\<lambda>s. set (rs_depends_on s) \<subseteq> fst ` set results) g in
          (case gather b factory runner runnable events w of
             None \<Rightarrow> None
           | Some w' \<Rightarrow>
               (case collect (zip runnable (map task_result (ws_tasks w'))) results of
                  (results', Some e) \<Rightarrow> Some (results', Some e, w')
                | (results', None) \<Rightarrow>
                    execute_waves b factory runner gs envs (skip_missing g results') w')))"

definition initial_wave :: "'row wave_state" where
  "initial_wave = \<lparr>ws_tracker = new_tracker, ws_cache = [], ws_tasks = [], ws_calls = [],
     ws_replies = []\<rparr>"

definition dag_outcome :: "'row results \<Rightarrow> dag_exn option \<Rightarrow> dag_exn + 'row dag_result" where
  "dag_outcome results exn = (let outcomes = map snd results in case exn of
     Some (BudgetExceededError reason) \<Rightarrow>
       Inr \<lparr>dr_outcomes = outcomes, dr_complete = False, dr_cancel_reason = Some reason\<rparr>
   | Some (MesExn e) \<Rightarrow>
       Inr \<lparr>dr_outcomes = outcomes, dr_complete = False,
         dr_cancel_reason = Some (u ''mes_error:'' @ mes_error_code_value (mes_code e))\<rparr>
   | Some (OtherExn m) \<Rightarrow> Inl (OtherExn m)
   | None \<Rightarrow>
       let complete = list_all (\<lambda>o'. so_status o' \<in> {COMPLETE, SKIPPED}) outcomes in
       Inr \<lparr>dr_outcomes = outcomes, dr_complete = complete,
         dr_cancel_reason = if complete then None else Some (u ''partial_failure'')\<rparr>)"

definition execute ::
  "execution_budget \<Rightarrow> request_factory \<Rightarrow> 'row step_runner \<Rightarrow> (real \<times> event list) list
   \<Rightarrow> recipe_step list \<Rightarrow> ((dag_exn + 'row dag_result) \<times> 'row wave_state) option" where
  "execute b factory runner envs steps = (case parallel_groups steps of
     Inl e \<Rightarrow> Some (Inl (MesExn e), initial_wave)
   | Inr groups \<Rightarrow> map_option (\<lambda>(results, exn, w). (dag_outcome results exn, w))
       (execute_waves b factory runner groups envs [] initial_wave))"

section \<open>Waves respect the dependencies\<close>

lemma fold_update_distinct:
  assumes "distinct (map rs_step_id (map snd d @ steps))" and "map fst d = map rs_step_id (map snd d)"
  shows "map snd (fold (\<lambda>s d. AList.update (rs_step_id s) s d) steps d) = map snd d @ steps"
  using assms
proof (induction steps arbitrary: d)
  case (Cons s steps)
  have "rs_step_id s \<notin> set (map fst d)"
    unfolding Cons.prems(2) using Cons.prems(1) by auto
  then have upd: "AList.update (rs_step_id s) s d = d @ [(rs_step_id s, s)]"
    by (rule update_fresh)
  show ?case
    using Cons.IH [of "d @ [(rs_step_id s, s)]"] Cons.prems by (simp add: upd)
qed simp

lemma parallel_groups_distinct:
  "distinct (map rs_step_id steps) \<Longrightarrow> parallel_groups steps = waves_from steps {}"
  using fold_update_distinct [of "[]" steps] by (simp add: parallel_groups_def)

text \<open>A set of remaining steps all of which wait for a remaining step has a cycle.\<close>

lemma ready_exists:
  assumes "acyclic (depends_rel steps)" and "set remaining \<subseteq> set steps" and "remaining \<noteq> []"
    and "\<And>s. s \<in> set remaining \<Longrightarrow> set (rs_depends_on s) \<subseteq> done \<union> rs_step_id ` set remaining"
  shows "ready_steps done remaining \<noteq> []"
proof -
  have "finite (depends_rel steps)"
  proof -
    have "depends_rel steps = (\<Union>s \<in> set steps. {rs_step_id s} \<times> set (rs_depends_on s))"
      by (auto simp: depends_rel_def)
    then show ?thesis by simp
  qed
  then have wf: "wf ((depends_rel steps)\<inverse>)"
    using assms(1) by (simp add: finite_acyclic_wf_converse)
  have "rs_step_id ` set remaining \<noteq> {}" using assms(3) by simp
  then obtain n where n: "n \<in> rs_step_id ` set remaining"
    and least: "\<And>d. (d, n) \<in> (depends_rel steps)\<inverse> \<Longrightarrow> d \<notin> rs_step_id ` set remaining"
    using wf unfolding wf_eq_minimal by (metis ex_in_conv)
  then obtain s where s: "s \<in> set remaining" "n = rs_step_id s" by auto
  have "set (rs_depends_on s) \<subseteq> done"
    using assms(2) assms(4) [of s] s least by (fastforce simp: depends_rel_def)
  then show ?thesis using s(1) by (auto simp: ready_steps_def filter_empty_conv)
qed

definition wave_order :: "pystr set \<Rightarrow> recipe_step list list \<Rightarrow> bool" where
  "wave_order before waves \<longleftrightarrow> (\<forall>k < length waves. waves ! k \<noteq> [] \<and>
     (\<forall>s \<in> set (waves ! k). set (rs_depends_on s) \<subseteq> before \<union> rs_step_id ` set (concat (take k waves))))"

lemma wave_order_Cons:
  "wave_order before (w # ws) \<longleftrightarrow> w \<noteq> [] \<and> (\<forall>s \<in> set w. set (rs_depends_on s) \<subseteq> before) \<and>
     wave_order (before \<union> rs_step_id ` set w) ws"
  unfolding wave_order_def by (auto simp: All_less_Suc2 image_Un Un_assoc)

lemma mset_next_wave:
  assumes "distinct (map rs_step_id remaining)"
  shows "mset (next_wave (ready_steps done remaining)) +
    mset (without remaining (next_wave (ready_steps done remaining))) = mset remaining"
proof -
  let ?w = "next_wave (ready_steps done remaining)"
  have d: "distinct remaining" using assms by (simp add: distinct_map)
  have sub: "set ?w \<subseteq> set remaining"
    using next_wave_subset [of "ready_steps done remaining"] by (auto simp: ready_steps_def)
  have dw: "distinct ?w"
    using d by (simp add: next_wave_def ready_steps_def Let_def)
  have "set (without remaining ?w) = set remaining - set ?w"
    using assms sub by (auto simp: without_def distinct_map inj_on_def)
  moreover have "distinct (without remaining ?w)" using d by (simp add: without_def)
  ultimately have "mset (without remaining ?w) = mset_set (set remaining - set ?w)"
    using mset_set_set by metis
  moreover have "mset ?w = mset_set (set ?w)" "mset remaining = mset_set (set remaining)"
    using mset_set_set d dw by metis+
  ultimately show ?thesis
    using sub by (simp add: mset_set_Diff subset_imp_msubset_mset_set)
qed

lemma waves_from_complete:
  assumes "acyclic (depends_rel steps)" and "set remaining \<subseteq> set steps"
    and "distinct (map rs_step_id remaining)"
    and "\<And>s. s \<in> set remaining \<Longrightarrow> set (rs_depends_on s) \<subseteq> done \<union> rs_step_id ` set remaining"
  shows "\<exists>waves. waves_from remaining done = Inr waves \<and> mset (concat waves) = mset remaining \<and>
    wave_order done waves"
  using assms(2-)
proof (induction remaining "done" rule: waves_from.induct)
  case (1 remaining "done")
  show ?case
  proof (cases "remaining = []")
    case True
    then show ?thesis by (simp add: waves_from.simps wave_order_def)
  next
    case False
    let ?ready = "ready_steps done remaining" and ?w = "next_wave (ready_steps done remaining)"
    have ready: "?ready \<noteq> []"
      using ready_exists [OF assms(1) "1.prems"(1) False "1.prems"(3)] .
    have w: "set ?w \<subseteq> set ?ready" by (rule next_wave_subset)
    have sub: "set (without remaining ?w) \<subseteq> set remaining" by (auto simp: without_def)
    have ids: "rs_step_id ` set remaining \<subseteq> rs_step_id ` set ?w \<union> rs_step_id ` set (without remaining ?w)"
      by (auto simp: without_def)
    have "distinct (map rs_step_id (without remaining ?w))"
      using "1.prems"(2) by (simp add: without_def distinct_map_filter)
    moreover have "set (rs_depends_on s) \<subseteq> (done \<union> rs_step_id ` set ?w) \<union>
        rs_step_id ` set (without remaining ?w)" if "s \<in> set (without remaining ?w)" for s
      using "1.prems"(3) [of s] sub ids that by blast
    ultimately obtain waves where
      "waves_from (without remaining ?w) (done \<union> rs_step_id ` set ?w) = Inr waves"
      "mset (concat waves) = mset (without remaining ?w)"
      "wave_order (done \<union> rs_step_id ` set ?w) waves"
      using "1.IH" [OF False refl ready refl] sub "1.prems"(1) by blast
    moreover have "\<forall>s \<in> set ?w. set (rs_depends_on s) \<subseteq> done"
      using w by (auto simp: ready_steps_def)
    moreover have "?w \<noteq> []" using next_wave_nonempty [OF ready] .
    ultimately show ?thesis
      using mset_next_wave [OF "1.prems"(2), of "done"] False ready
      by (subst waves_from.simps) (simp add: Let_def wave_order_Cons)
  qed
qed

text \<open>
  \<^bold>\<open>C34\<close>.  A validated recipe can always be scheduled: \<open>_parallel_groups\<close> does not raise its
  cyclic-graph error, every step lands in exactly one wave, no wave is empty, and a step comes
  strictly after all the steps it depends on.
\<close>

theorem parallel_groups_schedule:
  assumes "validate_recipe cc registered recipe = Inr ()"
  shows "\<exists>waves. parallel_groups (cr_steps recipe) = Inr waves \<and>
    mset (concat waves) = mset (cr_steps recipe) \<and>
    (\<forall>k < length waves. waves ! k \<noteq> [] \<and> (\<forall>s \<in> set (waves ! k).
       set (rs_depends_on s) \<subseteq> rs_step_id ` set (concat (take k waves))))"
proof -
  note ra = recipe_acyclic [OF assms]
  have "\<exists>waves. waves_from (cr_steps recipe) {} = Inr waves \<and>
      mset (concat waves) = mset (cr_steps recipe) \<and> wave_order {} waves"
    using waves_from_complete [of "cr_steps recipe" "cr_steps recipe" "{}"] ra
      recipe_dependencies(1) [OF assms] by simp
  then show ?thesis
    unfolding parallel_groups_distinct [OF conjunct1 [OF ra]] wave_order_def by simp
qed

theorem parallel_groups_schedule_witness:
  "\<exists>waves. parallel_groups [demo_step ''b'' [''a''], demo_step ''a'' []] = Inr waves \<and>
     mset (concat waves) = mset [demo_step ''b'' [''a''], demo_step ''a'' []]"
  using parallel_groups_schedule [OF demo_recipe_valid] by (auto simp: demo_recipe_def)

section \<open>Accounting of a run\<close>

text \<open>What the code relies on from the step runner: it never lowers the call counter.\<close>

definition runner_keeps_calls :: "'row step_runner \<Rightarrow> bool" where
  "runner_keeps_calls runner \<longleftrightarrow> (\<forall>s t. bt_api_calls t \<le> bt_api_calls (snd (runner s t)))"

text \<open>Rows of an outcome for a step come from a reply to a call with the same cache key.\<close>

definition sourced ::
  "request_factory \<Rightarrow> (recipe_step \<times> 'row step_outcome) list \<Rightarrow> recipe_step \<Rightarrow> 'row step_outcome \<Rightarrow> bool" where
  "sourced factory replies s outcome \<longleftrightarrow> so_step_id outcome = rs_step_id s \<and>
     (so_rows outcome = [] \<or> (\<exists>(s', reply) \<in> set replies.
        cache_key factory s' = cache_key factory s \<and> so_rows outcome = so_rows reply))"

lemma sourced_mono: "sourced factory replies s outcome \<Longrightarrow> sourced factory (replies @ rs) s outcome"
  by (auto simp: sourced_def)

fun task_ok :: "request_factory \<Rightarrow> (recipe_step \<times> 'row step_outcome) list \<Rightarrow> recipe_step \<Rightarrow> 'row task \<Rightarrow> bool"
where
  "task_ok factory replies s Waiting = True"
| "task_ok factory replies s (Running key) = (key = cache_key factory s)"
| "task_ok factory replies s (Ended (Inl e)) = True"
| "task_ok factory replies s (Ended (Inr outcome)) = sourced factory replies s outcome"

lemma task_ok_mono: "task_ok factory replies s t \<Longrightarrow> task_ok factory (replies @ rs) s t"
  by (cases "(factory, replies, s, t)" rule: task_ok.cases) (auto intro: sourced_mono)

definition shared_inv :: "execution_budget \<Rightarrow> request_factory \<Rightarrow> 'row wave_state \<Rightarrow> bool" where
  "shared_inv b factory w \<longleftrightarrow>
     int (length (ws_calls w)) \<le> bt_api_calls (ws_tracker w) \<and>
     int (length (ws_calls w)) \<le> max 0 (eb_max_api_calls b) \<and>
     (\<forall>(key, reply) \<in> set (ws_cache w). \<exists>s. (s, reply) \<in> set (ws_replies w) \<and> cache_key factory s = key)"

definition wave_inv ::
  "execution_budget \<Rightarrow> request_factory \<Rightarrow> recipe_step list \<Rightarrow> 'row wave_state \<Rightarrow> bool" where
  "wave_inv b factory steps w \<longleftrightarrow> shared_inv b factory w \<and>
     list_all2 (task_ok factory (ws_replies w)) steps (ws_tasks w)"

lemma list_all2_update_right:
  "list_all2 P xs ys \<Longrightarrow> i < length xs \<Longrightarrow> P (xs ! i) y \<Longrightarrow> list_all2 P xs (ys[i := y])"
  using list_all2_update_cong [of P xs ys "xs ! i" y i] by simp

lemma start_step_inv:
  assumes inv: "wave_inv b factory steps w" and i: "i < length steps"
  shows "wave_inv b factory steps (start_step b factory (steps ! i) i w)"
proof -
  have tasks: "list_all2 (task_ok factory (ws_replies w)) steps (ws_tasks w)"
    and sh: "shared_inv b factory w"
    using inv by (simp_all add: wave_inv_def)
  note upd = list_all2_update_right [OF tasks i]
  let ?s = "steps ! i"
  show ?thesis
  proof (cases "rs_kind ?s = API")
    case False
    then show ?thesis
      using sh upd by (simp add: start_step_def wave_inv_def shared_inv_def sourced_def plain_outcome_def)
  next
    case api: True
    show ?thesis
    proof (cases "map_of (ws_cache w) (cache_key factory ?s)")
      case (Some cached)
      then obtain s' where "(s', cached) \<in> set (ws_replies w)" "cache_key factory s' = cache_key factory ?s"
        using sh by (fastforce simp: shared_inv_def dest: map_of_SomeD)
      then have "sourced factory (ws_replies w) ?s \<lparr>so_step_id = rs_step_id ?s,
          so_status = so_status cached, so_rows = so_rows cached,
          so_reason = if so_status cached = COMPLETE then Some (u ''deduplicated'') else so_reason cached\<rparr>"
        by (auto simp: sourced_def)
      then show ?thesis
        using sh upd Some api by (simp add: start_step_def wave_inv_def shared_inv_def)
    next
      case None
      then show ?thesis
        using sh upd api by (auto simp: start_step_def wave_inv_def shared_inv_def charge_call_def Let_def)
    qed
  qed
qed

lemma cache_update_inv:
  assumes "\<forall>(k, r) \<in> set cache. \<exists>s. (s, r) \<in> set replies \<and> cache_key factory s = k"
  shows "\<forall>(k, r) \<in> set (AList.update (cache_key factory s) reply cache).
    \<exists>s'. (s', r) \<in> set (replies @ [(s, reply)]) \<and> cache_key factory s' = k"
proof -
  have sub: "set (AList.update (cache_key factory s) reply cache) \<subseteq>
      insert (cache_key factory s, reply) (set cache)"
    by (induction cache) auto
  show ?thesis
    using assms sub by fastforce
qed

lemma finish_step_inv:
  assumes inv: "wave_inv b factory steps w" and i: "i < length steps"
    and run: "ws_tasks w ! i = Running key" and runner: "runner_keeps_calls runner"
  shows "wave_inv b factory steps (finish_step runner (steps ! i) i key w)"
proof -
  have tasks: "list_all2 (task_ok factory (ws_replies w)) steps (ws_tasks w)"
    and sh: "shared_inv b factory w"
    using inv by (simp_all add: wave_inv_def)
  let ?s = "steps ! i"
  have key: "key = cache_key factory ?s"
    using list_all2_nthD [OF tasks i] run by simp
  obtain r t where rt: "runner ?s (ws_tracker w) = (r, t)" by fastforce
  have t: "bt_api_calls (ws_tracker w) \<le> bt_api_calls t"
    using runner rt unfolding runner_keeps_calls_def by (metis snd_conv)
  note upd = list_all2_update_right [OF tasks i]
  show ?thesis
  proof (cases r)
    case (Inl e)
    have "shared_inv b factory (w\<lparr>ws_tracker := t, ws_tasks := ts\<rparr>)" for ts
      using sh t by (auto simp: shared_inv_def)
    then show ?thesis
      using upd Inl rt by (cases e) (auto simp: finish_step_def wave_inv_def sourced_def plain_outcome_def)
  next
    case (Inr reply)
    have mono: "list_all2 (task_ok factory (ws_replies w @ [(?s, reply)])) steps (ws_tasks w)"
      using tasks by (rule list_all2_mono) (rule task_ok_mono)
    have "\<forall>(k, r) \<in> set (AList.update key reply (ws_cache w)).
        \<exists>s'. (s', r) \<in> set (ws_replies w @ [(?s, reply)]) \<and> cache_key factory s' = k"
      unfolding key by (rule cache_update_inv) (use sh in \<open>simp add: shared_inv_def\<close>)
    then show ?thesis
      using list_all2_update_right [OF mono i] sh t Inr rt
      by (simp add: finish_step_def wave_inv_def shared_inv_def sourced_def)
  qed
qed

lemma run_events_inv:
  "run_events b factory runner steps events w = Some w' \<Longrightarrow> runner_keeps_calls runner \<Longrightarrow>
   wave_inv b factory steps w \<Longrightarrow> wave_inv b factory steps w'"
proof (induction b factory runner steps events w rule: run_events.induct)
  case (2 b factory runner steps e es w)
  from "2.prems"(1) obtain w1 where step: "run_event b factory runner steps e w = Some w1"
    and rest: "run_events b factory runner steps es w1 = Some w'"
    by (auto simp: bind_eq_Some_conv)
  have "wave_inv b factory steps w1"
    using step "2.prems"(2,3)
    by (cases e) (auto intro: start_step_inv finish_step_inv split: if_splits task.splits)
  then show ?case using "2.IH" [OF step rest "2.prems"(2)] by simp
qed simp

text \<open>The replies only grow, so outcomes recorded in an earlier wave stay sourced.\<close>

definition extends :: "'row wave_state \<Rightarrow> 'row wave_state \<Rightarrow> bool" where
  "extends w w' \<longleftrightarrow> (\<exists>rs. ws_replies w' = ws_replies w @ rs)"

lemma extends_refl: "extends w w" by (simp add: extends_def)

lemma extends_trans: "extends w w1 \<Longrightarrow> extends w1 w2 \<Longrightarrow> extends w w2"
  by (auto simp: extends_def)

lemma run_event_extends: "run_event b factory runner steps e w = Some w' \<Longrightarrow> extends w w'"
  by (cases e) (auto simp: extends_def start_step_def finish_step_def charge_call_def Let_def
      split: if_splits option.splits task.splits prod.splits sum.splits dag_exn.splits)

lemma run_events_extends: "run_events b factory runner steps events w = Some w' \<Longrightarrow> extends w w'"
proof (induction events arbitrary: w)
  case (Cons e es)
  then obtain w1 where "run_event b factory runner steps e w = Some w1"
    "run_events b factory runner steps es w1 = Some w'"
    by (auto simp: bind_eq_Some_conv)
  then show ?case using Cons.IH run_event_extends extends_trans by blast
qed (simp add: extends_refl)

lemma gather_inv:
  assumes "gather b factory runner steps events w = Some w'" and "runner_keeps_calls runner"
    and "shared_inv b factory w"
  shows "wave_inv b factory steps w' \<and> list_all ended (ws_tasks w') \<and> extends w w'"
proof -
  let ?w = "w\<lparr>ws_tasks := replicate (length steps) Waiting\<rparr>"
  have run: "run_events b factory runner steps events ?w = Some w'" and e: "list_all ended (ws_tasks w')"
    using assms(1) by (auto simp: gather_def split: option.splits if_splits)
  have "wave_inv b factory steps ?w"
    using assms(3) by (auto simp: wave_inv_def shared_inv_def list_all2_conv_all_nth)
  moreover have "extends w w'"
    using run_events_extends [OF run] by (simp add: extends_def)
  ultimately show ?thesis using run_events_inv [OF run assms(2)] e by blast
qed

definition results_ok ::
  "request_factory \<Rightarrow> recipe_step list \<Rightarrow> 'row wave_state \<Rightarrow> 'row results \<Rightarrow> bool" where
  "results_ok factory steps w results \<longleftrightarrow>
     (\<forall>(k, outcome) \<in> set results. \<exists>s \<in> set steps. k = rs_step_id s \<and>
        sourced factory (ws_replies w) s outcome)"

lemma results_ok_extends:
  "results_ok factory steps w results \<Longrightarrow> extends w w' \<Longrightarrow> results_ok factory steps w' results"
  unfolding results_ok_def extends_def by (fastforce intro: sourced_mono)

lemma results_ok_update:
  assumes "results_ok factory steps w results" and "s \<in> set steps"
    and "sourced factory (ws_replies w) s outcome"
  shows "results_ok factory steps w (AList.update (rs_step_id s) outcome results)"
proof -
  have "set (AList.update (rs_step_id s) outcome results) \<subseteq> insert (rs_step_id s, outcome) (set results)"
    by (induction results) auto
  then show ?thesis using assms unfolding results_ok_def by blast
qed

lemma collect_ok:
  "collect (zip ss (map task_result ts)) results = (results', exn) \<Longrightarrow>
   list_all2 (task_ok factory (ws_replies w)) ss ts \<Longrightarrow> list_all ended ts \<Longrightarrow>
   set ss \<subseteq> set steps \<Longrightarrow> results_ok factory steps w results \<Longrightarrow>
   results_ok factory steps w results' \<and>
   (exn = None \<longrightarrow> fst ` set results' = fst ` set results \<union> rs_step_id ` set ss)"
proof (induction ss arbitrary: ts results)
  case (Cons s ss)
  from Cons.prems(2) obtain t ts' where ts: "ts = t # ts'"
    and t: "task_ok factory (ws_replies w) s t" "list_all2 (task_ok factory (ws_replies w)) ss ts'"
    by (auto simp: list_all2_Cons1)
  from Cons.prems(3) ts obtain r where r: "t = Ended r" by (cases t) auto
  show ?case
  proof (cases r)
    case (Inl e)
    then show ?thesis using Cons.prems ts r by auto
  next
    case (Inr outcome)
    have "results_ok factory steps w (AList.update (rs_step_id s) outcome results)"
      using results_ok_update [of factory steps w results s outcome] Cons.prems(4,5) t(1) r Inr by simp
    moreover have "fst ` set (AList.update (rs_step_id s) outcome results) =
        insert (rs_step_id s) (fst ` set results)"
      by (simp add: AList.dom_update)
    moreover have "collect (zip ss (map task_result ts'))
        (AList.update (rs_step_id s) outcome results) = (results', exn)"
      using Cons.prems(1) ts r Inr by simp
    ultimately show ?thesis
      using Cons.IH [of ts' "AList.update (rs_step_id s) outcome results"] t(2) Cons.prems(3,4) ts
      by simp
  qed
qed simp

lemma skip_missing_none:
  "rs_step_id ` set g \<subseteq> fst ` set results \<Longrightarrow> skip_missing g results = results"
  by (induction g) auto

lemma execute_waves_ok:
  assumes "execute_waves b factory runner groups envs results w = Some (results', exn, w')"
    and "runner_keeps_calls runner" and "shared_inv b factory w"
    and "results_ok factory steps w results" and "set (concat groups) \<subseteq> set steps"
    and "wave_order (fst ` set results) groups"
  shows "shared_inv b factory w' \<and> results_ok factory steps w' results' \<and>
    (exn = None \<longrightarrow> fst ` set results' = fst ` set results \<union> rs_step_id ` set (concat groups))"
  using assms
proof (induction groups arbitrary: envs results w)
  case (Cons g gs)
  obtain elapsed events envs' where envs: "envs = (elapsed, events) # envs'"
    using Cons.prems(1) by (cases envs) auto
  have runnable: "filter (\<lambda>s. set (rs_depends_on s) \<subseteq> fst ` set results) g = g"
    and rest: "wave_order (fst ` set results \<union> rs_step_id ` set g) gs"
    using Cons.prems(6) by (auto simp: wave_order_Cons intro: filter_True)
  show ?case
  proof (cases "check_time b elapsed")
    case (Inl e)
    then show ?thesis using Cons.prems envs by auto
  next
    case time: (Inr x)
    then obtain w1 where gather: "gather b factory runner g events w = Some w1"
      using Cons.prems(1) envs runnable by (auto split: option.splits)
    note inv = gather_inv [OF gather Cons.prems(2) Cons.prems(3)]
    obtain results1 exn1 where c: "collect (zip g (map task_result (ws_tasks w1))) results = (results1, exn1)"
      by fastforce
    have ok1: "results_ok factory steps w1 results1 \<and>
        (exn1 = None \<longrightarrow> fst ` set results1 = fst ` set results \<union> rs_step_id ` set g)"
    proof (rule collect_ok [OF c])
      show "list_all2 (task_ok factory (ws_replies w1)) g (ws_tasks w1)" "list_all ended (ws_tasks w1)"
        using inv by (simp_all add: wave_inv_def)
      show "set g \<subseteq> set steps" using Cons.prems(5) by simp
      show "results_ok factory steps w1 results" using results_ok_extends Cons.prems(4) inv by blast
    qed
    have sh: "shared_inv b factory w1" using inv by (simp add: wave_inv_def)
    show ?thesis
    proof (cases exn1)
      case (Some e)
      then show ?thesis using Cons.prems(1) envs time runnable gather c ok1 sh by auto
    next
      case None
      have skip: "skip_missing g results1 = results1"
        using ok1 None by (intro skip_missing_none) auto
      have run: "execute_waves b factory runner gs envs' results1 w1 = Some (results', exn, w')"
        using Cons.prems(1) envs time runnable gather c None skip by simp
      have "shared_inv b factory w' \<and> results_ok factory steps w' results' \<and>
          (exn = None \<longrightarrow> fst ` set results' = fst ` set results1 \<union> rs_step_id ` set (concat gs))"
        using Cons.IH [OF run Cons.prems(2) sh] ok1 None Cons.prems(5) rest by simp
      then show ?thesis using ok1 None by auto
    qed
  qed
qed simp


definition demo_budget :: execution_budget where
  "demo_budget = \<lparr>eb_max_api_calls = 20, eb_max_pages = 100, eb_max_rows = 20000,
     eb_time_limit_seconds = 30\<rparr>"

definition demo_runner :: "nat step_runner" where
  "demo_runner s t = (Inr \<lparr>so_step_id = rs_step_id s, so_status = COMPLETE, so_rows = [7],
     so_reason = None\<rparr>, t)"

definition demo_factory :: request_factory where
  "demo_factory s = (u ''EmpScan'', [])"

definition demo_outcome :: "string \<Rightarrow> pystr option \<Rightarrow> nat step_outcome" where
  "demo_outcome n reason =
     \<lparr>so_step_id = u n, so_status = COMPLETE, so_rows = [7], so_reason = reason\<rparr>"

definition demo_end :: "nat wave_state" where
  "demo_end = \<lparr>ws_tracker = \<lparr>bt_api_calls = 1, bt_pages = 0, bt_rows = 0\<rparr>,
     ws_cache = [((u ''EmpScan'', []), demo_outcome ''a'' None)],
     ws_tasks = [Ended (Inr (demo_outcome ''b'' (Some (u ''deduplicated''))))],
     ws_calls = [demo_step ''a'' []], ws_replies = [(demo_step ''a'' [], demo_outcome ''a'' None)]\<rparr>"

lemmas dag_eval = execute_waves.simps gather_def start_step_def finish_step_def charge_call_def
  check_time_def cache_key_def demo_step_def demo_budget_def demo_runner_def demo_factory_def
  demo_outcome_def demo_end_def initial_wave_def new_tracker_def

lemma demo_groups:
  "parallel_groups [demo_step ''b'' [''a''], demo_step ''a'' []] =
     Inr [[demo_step ''a'' []], [demo_step ''b'' [''a'']]]"
  by (simp add: parallel_groups_def waves_from.simps ready_steps_def next_wave_def without_def
      demo_step_def)

lemma demo_run:
  "execute demo_budget demo_factory demo_runner [(0, [Start 0, Finish 0]), (1, [Start 0])]
     [demo_step ''b'' [''a''], demo_step ''a'' []] =
   Some (Inr \<lparr>dr_outcomes = [demo_outcome ''a'' None, demo_outcome ''b'' (Some (u ''deduplicated''))],
     dr_complete = True, dr_cancel_reason = None\<rparr>, demo_end)"
  unfolding execute_def demo_groups by (simp add: dag_eval dag_outcome_def)


text \<open>Two members of one parallel group with the same request: when both start before the first
  reply arrives, both call the runner; when the reply comes first, the second is deduplicated.\<close>

definition demo_pair :: "recipe_step list" where
  "demo_pair = [demo_step ''a'' [], demo_step ''b'' []]"

lemma concurrent_requests_not_deduplicated:
  "map_option (length \<circ> ws_calls) (gather demo_budget demo_factory demo_runner demo_pair
     [Start 0, Start 1, Finish 0, Finish 1] initial_wave) = Some 2 \<and>
   map_option (length \<circ> ws_calls) (gather demo_budget demo_factory demo_runner demo_pair
     [Start 0, Finish 0, Start 1] initial_wave) = Some 1"
  by (simp add: dag_eval demo_pair_def numeral_2_eq_2)

section \<open>A wave always completes\<close>

fun task_weight :: "'row task \<Rightarrow> nat" where
  "task_weight Waiting = 2"
| "task_weight (Running key) = 1"
| "task_weight (Ended r) = 0"

definition pending_work :: "'row wave_state \<Rightarrow> nat" where
  "pending_work w = sum_list (map task_weight (ws_tasks w))"

lemma pending_work_update:
  assumes "i < length (ws_tasks w)" and "ws_tasks w' = (ws_tasks w)[i := t]"
    and "task_weight t < task_weight (ws_tasks w ! i)"
  shows "pending_work w' < pending_work w"
proof -
  have "task_weight (ws_tasks w ! i) \<le> sum_list (map task_weight (ws_tasks w))"
    using assms(1) by (intro member_le_sum_list) simp_all
  moreover have "sum_list (map task_weight (ws_tasks w')) =
      sum_list (map task_weight (ws_tasks w)) + task_weight t - task_weight (ws_tasks w ! i)"
    using assms(1,2) sum_list_update [of i "map task_weight (ws_tasks w)" "task_weight t"]
    by (simp add: map_update)
  ultimately show ?thesis using assms(3) by (simp add: pending_work_def)
qed

lemma start_step_tasks:
  "\<exists>t. ws_tasks (start_step b factory s i w) = (ws_tasks w)[i := t] \<and> task_weight t < 2"
  by (auto simp: start_step_def charge_call_def Let_def split: option.splits)

lemma finish_step_tasks:
  "\<exists>t. ws_tasks (finish_step runner s i key w) = (ws_tasks w)[i := t] \<and> task_weight t = 0"
  by (auto simp: finish_step_def split: prod.splits sum.splits dag_exn.splits)

lemma run_event_progress:
  assumes "run_event b factory runner steps e w = Some w'" and "length (ws_tasks w) = length steps"
  shows "pending_work w' < pending_work w \<and> length (ws_tasks w') = length steps"
proof (cases e)
  case (Start i)
  then have i: "i < length steps" "ws_tasks w ! i = Waiting" and w': "w' = start_step b factory (steps ! i) i w"
    using assms(1) by (auto split: if_splits)
  obtain t where "ws_tasks w' = (ws_tasks w)[i := t]" "task_weight t < 2"
    using start_step_tasks [of b factory "steps ! i" i w] w' by blast
  then show ?thesis using pending_work_update [of i w w' t] i assms(2) by simp
next
  case (Finish i)
  then obtain key where i: "i < length steps" "ws_tasks w ! i = Running key"
    and w': "w' = finish_step runner (steps ! i) i key w"
    using assms(1) by (auto split: if_splits task.splits)
  obtain t where "ws_tasks w' = (ws_tasks w)[i := t]" "task_weight t = 0"
    using finish_step_tasks [of runner "steps ! i" i key w] w' by blast
  then show ?thesis using pending_work_update [of i w w' t] i assms(2) by simp
qed

lemma enabled_event:
  assumes "length (ws_tasks w) = length steps" and "\<not> list_all ended (ws_tasks w)"
  shows "\<exists>e w'. run_event b factory runner steps e w = Some w'"
proof (cases "Waiting \<in> set (ws_tasks w)")
  case True
  define i where "i = length (takeWhile (\<lambda>t. t \<noteq> Waiting) (ws_tasks w))"
  have i: "i < length (ws_tasks w)"
  proof -
    have "takeWhile (\<lambda>t. t \<noteq> Waiting) (ws_tasks w) \<noteq> ws_tasks w"
      using True by (auto simp: takeWhile_eq_all_conv)
    then show ?thesis
      unfolding i_def by (metis length_takeWhile_le nat_less_le take_all_iff takeWhile_eq_take)
  qed
  have "ws_tasks w ! i = Waiting"
    using nth_length_takeWhile [of "\<lambda>t. t \<noteq> Waiting" "ws_tasks w"] i by (simp add: i_def)
  moreover have "Waiting \<notin> set (take i (ws_tasks w))"
    unfolding i_def takeWhile_eq_take [symmetric] by (auto dest: set_takeWhileD)
  ultimately have "run_event b factory runner steps (Start i) w =
      Some (start_step b factory (steps ! i) i w)"
    using i assms(1) by simp
  then show ?thesis by blast
next
  case False
  then obtain i where i: "i < length (ws_tasks w)" "\<not> ended (ws_tasks w ! i)"
    using assms(2) by (auto simp: list_all_iff in_set_conv_nth)
  with False obtain key where "ws_tasks w ! i = Running key"
    by (cases "ws_tasks w ! i") (auto simp: in_set_conv_nth)
  then have "run_event b factory runner steps (Finish i) w =
      Some (finish_step runner (steps ! i) i key w)"
    using i assms(1) by simp
  then show ?thesis by blast
qed

lemma run_events_bounded:
  "run_events b factory runner steps events w = Some w' \<Longrightarrow> length (ws_tasks w) = length steps \<Longrightarrow>
   length events + pending_work w' \<le> pending_work w \<and> length (ws_tasks w') = length steps"
proof (induction events arbitrary: w)
  case (Cons e es)
  then obtain w1 where step: "run_event b factory runner steps e w = Some w1"
    and rest: "run_events b factory runner steps es w1 = Some w'"
    by (auto simp: bind_eq_Some_conv)
  show ?case
    using run_event_progress [OF step Cons.prems(2)] Cons.IH [OF rest] by simp
qed simp

lemma run_events_completes:
  "length (ws_tasks w) = length steps \<Longrightarrow>
   \<exists>events w'. run_events b factory runner steps events w = Some w' \<and> list_all ended (ws_tasks w')"
proof (induction "pending_work w" arbitrary: w rule: less_induct)
  case less
  show ?case
  proof (cases "list_all ended (ws_tasks w)")
    case True
    then have "run_events b factory runner steps [] w = Some w \<and> list_all ended (ws_tasks w)" by simp
    then show ?thesis by blast
  next
    case False
    then obtain e w1 where step: "run_event b factory runner steps e w = Some w1"
      using enabled_event less.prems by blast
    note progress = run_event_progress [OF step less.prems]
    then obtain events w' where "run_events b factory runner steps events w1 = Some w'"
      and e: "list_all ended (ws_tasks w')"
      using less.hyps by blast
    then have "run_events b factory runner steps (e # events) w = Some w'"
      using step by simp
    then show ?thesis using e by blast
  qed
qed

lemma run_events_append:
  "run_events b factory runner steps (es @ es') w =
     Option.bind (run_events b factory runner steps es w) (run_events b factory runner steps es')"
  by (induction es arbitrary: w) (auto split: bind_splits)

text \<open>
  A wave cannot hang or spin: whatever the runner replies, every interleaving of a wave of
  \<open>n\<close> steps consists of at most \<open>2 * n\<close> events, and every partial interleaving can be
  continued to one that ends all tasks, so that \<open>gather\<close> returns.
\<close>

theorem gather_always_completes:
  assumes "run_events b factory runner steps events
      (w\<lparr>ws_tasks := replicate (length steps) Waiting\<rparr>) = Some w1"
  shows "length events \<le> 2 * length steps \<and>
    (\<exists>rest w2. gather b factory runner steps (events @ rest) w = Some w2)"
proof -
  let ?w = "w\<lparr>ws_tasks := replicate (length steps) Waiting\<rparr>"
  have "pending_work ?w = 2 * length steps"
    by (simp add: pending_work_def sum_list_replicate)
  then have bound: "length events \<le> 2 * length steps" and len: "length (ws_tasks w1) = length steps"
    using run_events_bounded [OF assms] by simp_all
  obtain rest w2 where "run_events b factory runner steps rest w1 = Some w2" "list_all ended (ws_tasks w2)"
    using run_events_completes [OF len] by blast
  then have "gather b factory runner steps (events @ rest) w = Some w2"
    using assms by (simp add: gather_def run_events_append)
  then show ?thesis using bound by blast
qed

theorem gather_always_completes_witness:
  "\<exists>rest w2. gather demo_budget demo_factory demo_runner demo_pair ([Start 0, Start 1] @ rest)
     initial_wave = Some w2"
proof -
  obtain w1 where "run_events demo_budget demo_factory demo_runner demo_pair [Start 0, Start 1]
      (initial_wave\<lparr>ws_tasks := replicate (length demo_pair) Waiting\<rparr>) = Some w1"
    by (simp add: dag_eval demo_pair_def)
  then show ?thesis using gather_always_completes by blast
qed

end
