(* ===== verification/Pager.thy ===== *)
theory Pager
  imports Domain
begin

text \<open>
  The bounded pager, \<^verbatim>\<open>data_api/pagination.py\<close>: one resize, duplicate and missing page
  detection, page and row budgets, and a completeness proof against the total of the envelope.

  The MES adapter is an argument that may answer differently at every call (its first argument
  counts the calls); row schema and \<open>repr\<close> are arguments too.  A round of the loop is the step
  function \<open>pager_step\<close>; the loop is total because the single resize and the page budget bound
  it.
\<close>

section \<open>Data\<close>

record pager_budget =
  pb_max_pages :: int
  pb_max_rows :: int
  pb_page_size :: int
  pb_page_size_ceiling :: int

text \<open>The adapter's payload: footer and list envelope (\<open>BadEnvelope\<close> when list or total cannot
  be read).\<close>

datatype 'raw envelope = BadEnvelope | Envelope "'raw list" int

record 'raw mes_payload =
  mp_footer :: "(pystr, pystr) dict option"
  mp_envelope :: "'raw envelope"

type_synonym 'raw adapter = "nat \<Rightarrow> int \<Rightarrow> int \<Rightarrow> mes_error + 'raw mes_payload"

record 'a paged_result =
  pg_items :: "'a list"
  pg_total :: int
  pg_pages_fetched :: int
  pg_complete :: bool
  pg_reason :: "pystr option"
  pg_footer :: "(pystr, pystr) dict option"

record mes_fetch_progress =
  fp_page :: int
  fp_rows :: int
  fp_total :: int

definition fingerprint_of :: "('a \<Rightarrow> pystr) \<Rightarrow> 'a list \<Rightarrow> pystr list" where
  "fingerprint_of repr items = sort (map repr items)"

text \<open>The local variables of \<open>fetch_all\<close>, the number of adapter calls and the published
  progress.\<close>

record 'a pager_state =
  ps_items :: "'a list"
  ps_seen_pages :: "pystr list set"
  ps_expected_total :: "int option"
  ps_footer :: "(pystr, pystr) dict option"
  ps_page_number :: int
  ps_size :: int
  ps_resized :: bool
  ps_calls :: nat
  ps_progress :: "mes_fetch_progress list"

text \<open>The row schema of the operation, Python's \<open>repr\<close> of a validated row, and the list key.\<close>

record ('raw, 'a) row_model =
  rm_validate :: "'raw \<Rightarrow> 'a option"
  rm_repr :: "'a \<Rightarrow> pystr"
  rm_list_key :: pystr

section \<open>Operations\<close>

text \<open>\<open>xs[:n]\<close>.\<close>

definition py_take :: "int \<Rightarrow> 'a list \<Rightarrow> 'a list" where
  "py_take n xs = (if n \<ge> 0 then take (nat n) xs else take (nat (int (length xs) + n)) xs)"

text \<open>\<open>expected_total or len(items)\<close>.\<close>

definition total_or_len :: "int option \<Rightarrow> 'a list \<Rightarrow> int" where
  "total_or_len t xs = (case t of Some n \<Rightarrow> if n \<noteq> 0 then n else int (length xs)
     | None \<Rightarrow> int (length xs))"

definition incomplete ::
  "'a list \<Rightarrow> int \<Rightarrow> int \<Rightarrow> string \<Rightarrow> (pystr, pystr) dict option \<Rightarrow> 'a paged_result" where
  "incomplete items tot pages reason footer = \<lparr>pg_items = items, pg_total = tot,
     pg_pages_fetched = pages, pg_complete = False, pg_reason = Some (u reason), pg_footer = footer\<rparr>"

definition completed ::
  "'a list \<Rightarrow> int \<Rightarrow> int \<Rightarrow> (pystr, pystr) dict option \<Rightarrow> 'a paged_result" where
  "completed items tot pages footer = \<lparr>pg_items = items, pg_total = tot,
     pg_pages_fetched = pages, pg_complete = True, pg_reason = None, pg_footer = footer\<rparr>"

datatype 'a pager_out =
    Stop "mes_error + 'a paged_result" "'a pager_state"
  | Continue "'a pager_state"

fun validate_items :: "('raw \<Rightarrow> 'a option) \<Rightarrow> 'raw list \<Rightarrow> 'a list option" where
  "validate_items validate [] = Some []"
| "validate_items validate (x # xs) = (case validate x of
     None \<Rightarrow> None
   | Some y \<Rightarrow> (case validate_items validate xs of None \<Rightarrow> None | Some ys \<Rightarrow> Some (y # ys)))"

text \<open>One validated page: its rows and its total, or the exception of the adapter or of
  validation.\<close>

definition read_page ::
  "('raw, 'a) row_model \<Rightarrow> 'raw mes_payload \<Rightarrow> mes_error + 'a list \<times> int" where
  "read_page m payload = (case mp_envelope payload of
     BadEnvelope \<Rightarrow> Inl (UpstreamInvalidError (u ''list envelope failed validation (list_key=''
       @ [39] @ rm_list_key m @ [39] @ u '')''))
   | Envelope raw tot \<Rightarrow>
       if tot < 0 then Inl (UpstreamInvalidError (u ''list total must be nonnegative''))
       else (case validate_items (rm_validate m) raw of
           None \<Rightarrow> Inl (UpstreamInvalidError (u ''row failed schema validation''))
         | Some page \<Rightarrow> Inr (page, tot)))"

text \<open>The part of a round after the resize decision: duplicate detection, accumulation and the
  four ends.\<close>

definition accumulate ::
  "pager_budget \<Rightarrow> ('a \<Rightarrow> pystr) \<Rightarrow> 'a list \<Rightarrow> int \<Rightarrow> 'a pager_state \<Rightarrow> 'a pager_out" where
  "accumulate b repr page tot s =
     (let fp = fingerprint_of repr page; n = ps_page_number s; footer = ps_footer s in
      if page \<noteq> [] \<and> fp \<in> ps_seen_pages s
      then Stop (Inr (incomplete (ps_items s) tot n ''duplicate_page'' footer)) s
      else
        let items = ps_items s @ page;
            s' = s\<lparr>ps_items := items,
              ps_seen_pages := (if page \<noteq> [] then insert fp (ps_seen_pages s) else ps_seen_pages s),
              ps_progress := ps_progress s @ [\<lparr>fp_page = n, fp_rows = int (length items), fp_total = tot\<rparr>]\<rparr>
        in
        if int (length items) > tot
        then Stop (Inr (incomplete (py_take (min tot (pb_max_rows b)) items) tot n
          ''row_overflow'' footer)) s'
        else if int (length items) > pb_max_rows b
        then Stop (Inr (incomplete (py_take (pb_max_rows b) items) tot n
          ''row_budget_exhausted'' footer)) s'
        else if int (length items) = tot
        then Stop (Inr (completed items tot n footer)) s'
        else if page = []
        then Stop (Inr (incomplete items tot n ''missing_pages'' footer)) s'
        else Continue (s'\<lparr>ps_page_number := n + 1\<rparr>))"

text \<open>The first answer fixes the expected total; it may already be everything, or trigger the one
  resize.\<close>

definition first_page ::
  "pager_budget \<Rightarrow> ('a \<Rightarrow> pystr) \<Rightarrow> 'a list \<Rightarrow> int \<Rightarrow> 'a pager_state \<Rightarrow> 'a pager_out" where
  "first_page b repr page tot s0 =
     (let s = s0\<lparr>ps_expected_total := Some tot\<rparr>; n = ps_page_number s; footer = ps_footer s in
      if int (length page) > tot
      then Stop (Inr (incomplete (py_take (min tot (pb_max_rows b)) page) tot n
        ''row_overflow'' footer)) s
      else if int (length page) > pb_max_rows b
      then Stop (Inr (incomplete (py_take (pb_max_rows b) page) tot n
        ''row_budget_exhausted'' footer)) s
      else if int (length page) = tot
      then let items = ps_items s @ page in
        Stop (Inr (completed items tot n footer))
          (s\<lparr>ps_items := items, ps_progress := ps_progress s @
            [\<lparr>fp_page = n, fp_rows = int (length items), fp_total = tot\<rparr>]\<rparr>)
      else if \<not> ps_resized s \<and> tot > ps_size s \<and> pb_page_size_ceiling b > ps_size s
      then Continue (s\<lparr>ps_size := pb_page_size_ceiling b, ps_resized := True, ps_items := [],
        ps_seen_pages := {}, ps_page_number := 1\<rparr>)
      else accumulate b repr page tot s)"

definition pager_step ::
  "pager_budget \<Rightarrow> ('raw, 'a) row_model \<Rightarrow> 'raw adapter \<Rightarrow> 'a pager_state \<Rightarrow> 'a pager_out" where
  "pager_step b m adapter s =
     (if ps_page_number s > pb_max_pages b
      then Stop (Inr (incomplete (ps_items s) (total_or_len (ps_expected_total s) (ps_items s))
        (ps_page_number s - 1) ''page_budget_exhausted'' (ps_footer s))) s
      else if int (length (ps_items s)) \<ge> pb_max_rows b
      then Stop (Inr (incomplete (py_take (pb_max_rows b) (ps_items s))
        (total_or_len (ps_expected_total s) (ps_items s))
        (ps_page_number s - 1) ''row_budget_exhausted'' (ps_footer s))) s
      else (case adapter (ps_calls s) (ps_page_number s) (ps_size s) of
          Inl e \<Rightarrow> Stop (Inl e) (s\<lparr>ps_calls := ps_calls s + 1\<rparr>)
        | Inr payload \<Rightarrow>
            let s1 = s\<lparr>ps_calls := ps_calls s + 1,
              ps_footer := (if mp_footer payload \<noteq> None then mp_footer payload else ps_footer s)\<rparr> in
            (case read_page m payload of
               Inl e \<Rightarrow> Stop (Inl e) s1
             | Inr (page, tot) \<Rightarrow>
                 (case ps_expected_total s1 of
                    None \<Rightarrow> first_page b (rm_repr m) page tot s1
                  | Some expected \<Rightarrow>
                      if expected \<noteq> tot
                      then Stop (Inr (incomplete (ps_items s1) tot (ps_page_number s1)
                        ''total_drift'' (ps_footer s1))) s1
                      else accumulate b (rm_repr m) page tot s1))))"

definition pager_rank :: "pager_budget \<Rightarrow> 'a pager_state \<Rightarrow> nat \<times> nat" where
  "pager_rank b s = (if ps_resized s then 0 else 1, nat (pb_max_pages b + 1 - ps_page_number s))"

lemma accumulate_Continue:
  assumes "accumulate b repr page tot s = Continue s'"
  shows "s' = s\<lparr>ps_items := ps_items s @ page,
      ps_seen_pages := insert (fingerprint_of repr page) (ps_seen_pages s),
      ps_page_number := ps_page_number s + 1,
      ps_progress := ps_progress s @ [\<lparr>fp_page = ps_page_number s,
        fp_rows = int (length (ps_items s @ page)), fp_total = tot\<rparr>]\<rparr> \<and>
    page \<noteq> [] \<and> fingerprint_of repr page \<notin> ps_seen_pages s \<and>
    int (length (ps_items s @ page)) < tot \<and> int (length (ps_items s @ page)) \<le> pb_max_rows b"
  using assms by (auto simp: accumulate_def Let_def split: if_splits)

lemma pager_step_rank:
  assumes "pager_step b m adapter s = Continue s'"
  shows "(pager_rank b s', pager_rank b s) \<in> less_than <*lex*> less_than"
proof -
  have page: "ps_page_number s \<le> pb_max_pages b"
    using assms by (auto simp: pager_step_def split: if_splits)
  have acc: "(pager_rank b s', pager_rank b s) \<in> less_than <*lex*> less_than"
    if "accumulate b (rm_repr m) pg tot s1 = Continue s'" "ps_resized s1 = ps_resized s"
      "ps_page_number s1 = ps_page_number s" for pg tot s1
    using accumulate_Continue [OF that(1)] that(2,3) page by (auto simp: pager_rank_def)
  have first: "(pager_rank b s', pager_rank b s) \<in> less_than <*lex*> less_than"
    if "first_page b (rm_repr m) pg tot s1 = Continue s'" "ps_resized s1 = ps_resized s"
      "ps_page_number s1 = ps_page_number s" for pg tot s1
  proof (cases "\<not> ps_resized s1 \<and> tot > ps_size s1 \<and> pb_page_size_ceiling b > ps_size s1")
    case True
    then show ?thesis using that by (auto simp: first_page_def Let_def pager_rank_def split: if_splits)
  next
    case False
    then show ?thesis
      using that acc [of pg tot "s1\<lparr>ps_expected_total := Some tot\<rparr>"]
      by (auto simp: first_page_def Let_def split: if_splits)
  qed
  show ?thesis
    using assms unfolding pager_step_def Let_def
    by (auto split: if_splits sum.splits prod.splits option.splits intro: acc first)
qed

function fetch_loop ::
  "pager_budget \<Rightarrow> ('raw, 'a) row_model \<Rightarrow> 'raw adapter \<Rightarrow> 'a pager_state
   \<Rightarrow> (mes_error + 'a paged_result) \<times> 'a pager_state" where
  "fetch_loop b m adapter s = (case pager_step b m adapter s of
     Stop r s' \<Rightarrow> (r, s')
   | Continue s' \<Rightarrow> fetch_loop b m adapter s')"
  by pat_completeness auto

termination
  by (relation "inv_image (less_than <*lex*> less_than) (\<lambda>(b, _, _, s). pager_rank b s)")
    (auto dest: pager_step_rank)

declare fetch_loop.simps [simp del]

definition initial_pager :: "pager_budget \<Rightarrow> 'a pager_state" where
  "initial_pager b = \<lparr>ps_items = [], ps_seen_pages = {}, ps_expected_total = None, ps_footer = None,
     ps_page_number = 1, ps_size = pb_page_size b, ps_resized = False, ps_calls = 0, ps_progress = []\<rparr>"

definition fetch_all ::
  "pager_budget \<Rightarrow> ('raw, 'a) row_model \<Rightarrow> 'raw adapter
   \<Rightarrow> (mes_error + 'a paged_result) \<times> 'a pager_state" where
  "fetch_all b m adapter = fetch_loop b m adapter (initial_pager b)"

section \<open>What a walk saw\<close>

text \<open>The page and total that call number \<open>n\<close> returned, if it returned a valid page.\<close>

definition page_at ::
  "('raw, 'a) row_model \<Rightarrow> 'raw adapter \<Rightarrow> nat \<Rightarrow> int \<Rightarrow> int \<Rightarrow> ('a list \<times> int) option" where
  "page_at m adapter n p size' = (case adapter n p size' of
     Inl _ \<Rightarrow> None
   | Inr payload \<Rightarrow> (case read_page m payload of Inl _ \<Rightarrow> None | Inr r \<Rightarrow> Some r))"

text \<open>Pages 1, 2, ... of one size, fetched by consecutive calls from call \<open>n\<close> on, all with the
  same total.\<close>

definition walk ::
  "('raw, 'a) row_model \<Rightarrow> 'raw adapter \<Rightarrow> nat \<Rightarrow> int \<Rightarrow> int \<Rightarrow> 'a list list \<Rightarrow> bool" where
  "walk m adapter n size' tot pages \<longleftrightarrow>
     (\<forall>j < length pages. page_at m adapter (n + j) (int j + 1) size' = Some (pages ! j, tot))"

lemma walk_Nil [simp]: "walk m adapter n size' tot []"
  by (simp add: walk_def)

lemma walk_snoc:
  "walk m adapter n size' tot (pages @ [page]) \<longleftrightarrow> walk m adapter n size' tot pages \<and>
     page_at m adapter (n + length pages) (int (length pages) + 1) size' = Some (page, tot)"
  by (auto simp: walk_def All_less_Suc nth_append)

definition pager_inv ::
  "pager_budget \<Rightarrow> ('raw, 'a) row_model \<Rightarrow> 'raw adapter \<Rightarrow> 'a pager_state \<Rightarrow> 'a list list \<Rightarrow> bool" where
  "pager_inv b m adapter s pages \<longleftrightarrow>
     ps_page_number s = int (length pages) + 1 \<and>
     int (length pages) \<le> max 0 (pb_max_pages b) \<and>
     ps_calls s = length pages + (if ps_resized s then 1 else 0) \<and>
     ps_size s = (if ps_resized s then pb_page_size_ceiling b else pb_page_size b) \<and>
     ps_items s = concat pages \<and>
     int (length (ps_items s)) \<le> max 0 (pb_max_rows b) \<and>
     (case ps_expected_total s of
        None \<Rightarrow> pages = [] \<and> \<not> ps_resized s
      | Some tot \<Rightarrow> 0 \<le> tot \<and> int (length (ps_items s)) \<le> tot \<and>
          walk m adapter (ps_calls s - length pages) (ps_size s) tot pages)"

text \<open>What the pager guarantees of a result.\<close>

definition proven_complete ::
  "pager_budget \<Rightarrow> ('raw, 'a) row_model \<Rightarrow> 'raw adapter \<Rightarrow> 'a paged_result \<Rightarrow> bool" where
  "proven_complete b m adapter r \<longleftrightarrow> int (length (pg_items r)) = pg_total r \<and>
     (\<exists>n size' pages. n \<le> 1 \<and> size' \<in> {pb_page_size b, pb_page_size_ceiling b} \<and>
        walk m adapter n size' (pg_total r) pages \<and> pg_items r = concat pages \<and>
        pg_pages_fetched r = int (length pages))"

definition result_ok ::
  "pager_budget \<Rightarrow> ('raw, 'a) row_model \<Rightarrow> 'raw adapter \<Rightarrow> 'a paged_result \<Rightarrow> bool" where
  "result_ok b m adapter r \<longleftrightarrow> int (length (pg_items r)) \<le> max 0 (pb_max_rows b) \<and>
     (pg_complete r \<longleftrightarrow> pg_reason r = None) \<and> (pg_complete r \<longrightarrow> proven_complete b m adapter r)"

definition stop_ok ::
  "pager_budget \<Rightarrow> ('raw, 'a) row_model \<Rightarrow> 'raw adapter \<Rightarrow> mes_error + 'a paged_result \<Rightarrow> 'a pager_state \<Rightarrow> bool" where
  "stop_ok b m adapter r s \<longleftrightarrow> int (ps_calls s) \<le> max 0 (pb_max_pages b) + 1 \<and>
     (case r of Inl _ \<Rightarrow> True | Inr res \<Rightarrow> result_ok b m adapter res)"

fun out_ok ::
  "pager_budget \<Rightarrow> ('raw, 'a) row_model \<Rightarrow> 'raw adapter \<Rightarrow> 'a pager_out \<Rightarrow> bool" where
  "out_ok b m adapter (Stop r s) \<longleftrightarrow> stop_ok b m adapter r s"
| "out_ok b m adapter (Continue s) \<longleftrightarrow> (\<exists>pages. pager_inv b m adapter s pages)"

lemma length_py_take: "0 \<le> n \<Longrightarrow> int (length (py_take n xs)) \<le> n"
  by (simp add: py_take_def)

lemma result_ok_incomplete:
  "int (length items) \<le> max 0 (pb_max_rows b) \<Longrightarrow>
   result_ok b m adapter (incomplete items tot n reason footer)"
  by (simp add: result_ok_def incomplete_def)

lemma result_ok_py_take:
  assumes "0 \<le> n" and "n \<le> pb_max_rows b"
  shows "result_ok b m adapter (incomplete (py_take n items) tot k reason footer)"
  using length_py_take [OF assms(1), of items] assms by (intro result_ok_incomplete) simp

lemma result_ok_completed:
  assumes "walk m adapter n size' tot pages" and "n \<le> 1"
    and "size' \<in> {pb_page_size b, pb_page_size_ceiling b}"
    and "int (length (concat pages)) = tot" and "tot \<le> pb_max_rows b"
  shows "result_ok b m adapter (completed (concat pages) tot (int (length pages)) footer)"
  using assms by (auto simp: result_ok_def completed_def proven_complete_def)

text \<open>The accumulating part of a round, in a state whose last call has just returned
  \<open>(page, tot)\<close>.\<close>

lemma accumulate_ok:
  assumes page: "page_at m adapter (n + length pages) (int (length pages) + 1) (ps_size s) = Some (page, tot)"
    and s: "ps_page_number s = int (length pages) + 1" "int (length pages) < max 0 (pb_max_pages b)"
      "ps_calls s = Suc (n + length pages)" "n = (if ps_resized s then 1 else 0)"
      "ps_size s = (if ps_resized s then pb_page_size_ceiling b else pb_page_size b)"
      "ps_items s = concat pages" "int (length (ps_items s)) < pb_max_rows b"
      "ps_expected_total s = Some tot" "0 \<le> tot" "int (length (ps_items s)) \<le> tot"
      "walk m adapter n (ps_size s) tot pages"
  shows "out_ok b m adapter (accumulate b (rm_repr m) page tot s)"
proof -
  let ?pages = "pages @ [page]" and ?items = "ps_items s @ page"
  have rows: "0 < pb_max_rows b" using s(7) by linarith
  have w: "walk m adapter n (ps_size s) tot ?pages" using page s(11) by (simp add: walk_snoc)
  have items: "?items = concat ?pages" using s(6) by simp
  have size': "ps_size s \<in> {pb_page_size b, pb_page_size_ceiling b}" using s(5) by simp
  have n: "n \<le> 1" using s(4) by simp
  have calls: "int (ps_calls s) \<le> max 0 (pb_max_pages b) + 1" using s(2,3,4) by auto
  consider (dup) "page \<noteq> [] \<and> fingerprint_of (rm_repr m) page \<in> ps_seen_pages s"
    | (over) "\<not> (page \<noteq> [] \<and> fingerprint_of (rm_repr m) page \<in> ps_seen_pages s)"
        "int (length ?items) > tot"
    | (rows) "\<not> (page \<noteq> [] \<and> fingerprint_of (rm_repr m) page \<in> ps_seen_pages s)"
        "int (length ?items) \<le> tot" "int (length ?items) > pb_max_rows b"
    | (all) "\<not> (page \<noteq> [] \<and> fingerprint_of (rm_repr m) page \<in> ps_seen_pages s)"
        "int (length ?items) = tot" "int (length ?items) \<le> pb_max_rows b"
    | (more) "\<not> (page \<noteq> [] \<and> fingerprint_of (rm_repr m) page \<in> ps_seen_pages s)"
        "int (length ?items) < tot" "int (length ?items) \<le> pb_max_rows b"
    by linarith
  then show ?thesis
  proof cases
    case dup
    then show ?thesis
      using calls s(7) by (simp add: accumulate_def Let_def stop_ok_def result_ok_incomplete)
  next
    case over
    have "result_ok b m adapter (incomplete (py_take (min tot (pb_max_rows b)) ?items) tot
        (ps_page_number s) ''row_overflow'' (ps_footer s))"
      using s(9) rows by (intro result_ok_py_take) auto
    then show ?thesis using over calls by (auto simp: accumulate_def Let_def stop_ok_def)
  next
    case rows
    have "result_ok b m adapter (incomplete (py_take (pb_max_rows b) ?items) tot
        (ps_page_number s) ''row_budget_exhausted'' (ps_footer s))"
      using s(7) by (intro result_ok_py_take) auto
    then show ?thesis using rows calls by (auto simp: accumulate_def Let_def stop_ok_def)
  next
    case all
    have "result_ok b m adapter (completed ?items tot (ps_page_number s) (ps_footer s))"
      using result_ok_completed [OF w n size', of "ps_footer s"] all items s(1)
      by (simp add: add.commute)
    then show ?thesis using all calls by (auto simp: accumulate_def Let_def stop_ok_def)
  next
    case more
    have "pager_inv b m adapter (s\<lparr>ps_items := ?items, ps_seen_pages := S, ps_progress := P,
        ps_page_number := ps_page_number s + 1\<rparr>) ?pages" for S P
      using s w items more by (simp add: pager_inv_def)
    then show ?thesis
      using more calls by (auto simp: accumulate_def Let_def stop_ok_def result_ok_incomplete)
  qed
qed

lemma first_page_ok:
  assumes page: "page_at m adapter 0 1 (ps_size s) = Some (page, tot)"
    and s: "ps_page_number s = 1" "0 < pb_max_pages b" "ps_calls s = 1" "\<not> ps_resized s"
      "ps_size s = pb_page_size b" "ps_items s = []" "0 < pb_max_rows b" "0 \<le> tot"
  shows "out_ok b m adapter (first_page b (rm_repr m) page tot s)"
proof -
  let ?s = "s\<lparr>ps_expected_total := Some tot\<rparr>"
  have acc: "out_ok b m adapter (accumulate b (rm_repr m) page tot ?s)"
    using accumulate_ok [of m adapter 0 "[]" ?s page tot b] page s by simp
  have w: "walk m adapter 0 (pb_page_size b) tot [page]"
    using page s(5) by (simp add: walk_def)
  have take: "result_ok b m adapter (incomplete (py_take (min tot (pb_max_rows b)) page) tot k r f)"
      "result_ok b m adapter (incomplete (py_take (pb_max_rows b) page) tot k r f)" for k r f
    using s(7,8) by (auto intro: result_ok_py_take)
  have "result_ok b m adapter (completed page tot 1 (ps_footer s))"
    if "int (length page) = tot" "tot \<le> pb_max_rows b"
    using result_ok_completed [OF w, of b "ps_footer s"] that by simp
  moreover have "pager_inv b m adapter (?s\<lparr>ps_size := pb_page_size_ceiling b, ps_resized := True,
      ps_items := [], ps_seen_pages := {}, ps_page_number := 1\<rparr>) []"
    using s by (simp add: pager_inv_def)
  ultimately show ?thesis
    using acc take s by (auto simp: first_page_def Let_def stop_ok_def)
qed

lemma pager_step_ok:
  assumes inv: "pager_inv b m adapter s pages"
  shows "out_ok b m adapter (pager_step b m adapter s)"
proof -
  have len: "int (length (ps_items s)) \<le> max 0 (pb_max_rows b)"
    and pno: "ps_page_number s = int (length pages) + 1" "int (length pages) \<le> max 0 (pb_max_pages b)"
    and calls: "ps_calls s = length pages + (if ps_resized s then 1 else 0)"
    using inv unfolding pager_inv_def by blast+
  have c1: "int (ps_calls s) \<le> max 0 (pb_max_pages b) + 1" using calls pno by simp
  show ?thesis
  proof (cases "ps_page_number s > pb_max_pages b \<or> int (length (ps_items s)) \<ge> pb_max_rows b")
    case True
    have "result_ok b m adapter (incomplete (py_take (pb_max_rows b) (ps_items s)) t k r f)"
      if "pb_max_rows b \<le> int (length (ps_items s))" for t k r f
    proof (cases "pb_max_rows b \<ge> 0")
      case True
      then show ?thesis by (intro result_ok_py_take) auto
    next
      case False
      then have "py_take (pb_max_rows b) (ps_items s) = []" using len by (simp add: py_take_def)
      then show ?thesis by (simp add: result_ok_incomplete)
    qed
    then show ?thesis
      using True c1 len by (auto simp: pager_step_def stop_ok_def result_ok_incomplete)
  next
    case go: False
    have c2: "int (Suc (ps_calls s)) \<le> max 0 (pb_max_pages b) + 1" using calls pno go by simp
    show ?thesis
    proof (cases "page_at m adapter (ps_calls s) (ps_page_number s) (ps_size s)")
      case None
      then show ?thesis
        using go c2 by (auto simp: pager_step_def page_at_def stop_ok_def Let_def split: sum.splits)
    next
      case (Some r)
      note fetched = Some
      obtain page tot where r: "r = (page, tot)" by fastforce
      obtain payload where payload: "adapter (ps_calls s) (ps_page_number s) (ps_size s) = Inr payload"
        "read_page m payload = Inr (page, tot)"
        using Some r by (auto simp: page_at_def split: sum.splits)
      have tot: "0 \<le> tot"
        using payload(2) by (auto simp: read_page_def split: envelope.splits if_splits option.splits)
      define s1 where "s1 = s\<lparr>ps_calls := ps_calls s + 1,
        ps_footer := (if mp_footer payload \<noteq> None then mp_footer payload else ps_footer s)\<rparr>"
      have step: "pager_step b m adapter s = (case ps_expected_total s1 of
          None \<Rightarrow> first_page b (rm_repr m) page tot s1
        | Some expected \<Rightarrow> if expected \<noteq> tot
            then Stop (Inr (incomplete (ps_items s1) tot (ps_page_number s1) ''total_drift'' (ps_footer s1))) s1
            else accumulate b (rm_repr m) page tot s1)"
      proof -
        have g: "\<not> ps_page_number s > pb_max_pages b" "\<not> int (length (ps_items s)) \<ge> pb_max_rows b"
          using go by blast+
        show ?thesis
          unfolding pager_step_def s1_def Let_def
          by (simp only: payload g if_False sum.case prod.case)
      qed
      show ?thesis
      proof (cases "ps_expected_total s")
        case None
        then have "pages = []" "\<not> ps_resized s" using inv by (simp_all add: pager_inv_def)
        then have "out_ok b m adapter (first_page b (rm_repr m) page tot s1)"
          using first_page_ok [of m adapter s1 page tot b] inv Some r go tot
          by (simp add: s1_def pager_inv_def)
        then show ?thesis using None step by (simp add: s1_def)
      next
        case (Some expected)
        have "out_ok b m adapter (accumulate b (rm_repr m) page tot s1)" if "expected = tot"
        proof -
          define n :: nat where "n = (if ps_resized s then 1 else 0)"
          have inv': "ps_size s = (if ps_resized s then pb_page_size_ceiling b else pb_page_size b)"
            "ps_items s = concat pages" "int (length (ps_items s)) \<le> tot"
            "walk m adapter (ps_calls s - length pages) (ps_size s) tot pages"
            using inv unfolding pager_inv_def Some that option.case by blast+
          have cn: "ps_calls s = n + length pages" using calls by (simp add: n_def)
          have eq: "ps_page_number s1 = ps_page_number s" "ps_calls s1 = Suc (ps_calls s)"
            "ps_resized s1 = ps_resized s" "ps_size s1 = ps_size s" "ps_items s1 = ps_items s"
            "ps_expected_total s1 = ps_expected_total s"
            by (simp_all add: s1_def)
          have pa: "page_at m adapter (n + length pages) (int (length pages) + 1) (ps_size s) = Some (page, tot)"
            using fetched r cn pno(1) by simp
          have lt: "int (length pages) < max 0 (pb_max_pages b)" "int (length (ps_items s)) < pb_max_rows b"
            using go pno(1) by auto
          have w: "walk m adapter n (ps_size s) tot pages" using inv'(4) cn by simp
          show ?thesis
            using pa lt w inv'(1-3) cn pno(1) tot that Some
            by (intro accumulate_ok [of m adapter n pages]) (simp_all only: eq n_def)
        qed
        then show ?thesis
          using Some step c2 len by (auto simp: s1_def stop_ok_def result_ok_incomplete)
      qed
    qed
  qed
qed

lemma fetch_loop_ok:
  "pager_inv b m adapter s pages \<Longrightarrow> fetch_loop b m adapter s = (r, s') \<Longrightarrow> stop_ok b m adapter r s'"
proof (induction b m adapter s arbitrary: pages rule: fetch_loop.induct)
  case (1 b m adapter s)
  show ?case
  proof (cases "pager_step b m adapter s")
    case (Stop r1 s1)
    then show ?thesis
      using "1.prems" pager_step_ok [OF "1.prems"(1)] by (simp add: fetch_loop.simps)
  next
    case (Continue s1)
    then obtain pages' where "pager_inv b m adapter s1 pages'"
      using pager_step_ok [OF "1.prems"(1)] by auto
    moreover have "fetch_loop b m adapter s1 = (r, s')"
      using "1.prems"(2) Continue by (simp add: fetch_loop.simps [of b m adapter s])
    ultimately show ?thesis using "1.IH" [OF Continue] by blast
  qed
qed

lemma initial_pager_inv: "pager_inv b m adapter (initial_pager b) []"
  by (simp add: pager_inv_def initial_pager_def)

section \<open>An honest source is read completely\<close>

text \<open>A source that holds \<open>data\<close> and serves page \<open>p\<close> of any size from it.\<close>

definition honest :: "'a list \<Rightarrow> 'a adapter" where
  "honest data n p size' = Inr \<lparr>mp_footer = None,
     mp_envelope = Envelope (take (nat size') (drop (nat ((p - 1) * size')) data)) (int (length data))\<rparr>"

definition plain_rows :: "('a \<Rightarrow> pystr) \<Rightarrow> ('a, 'a) row_model" where
  "plain_rows repr = \<lparr>rm_validate = Some, rm_repr = repr, rm_list_key = u ''list''\<rparr>"

lemma validate_items_Some: "validate_items Some xs = Some xs"
  by (induction xs) simp_all

lemma read_page_honest:
  "read_page (plain_rows repr) \<lparr>mp_footer = f, mp_envelope = Envelope xs (int n)\<rparr> = Inr (xs, int n)"
  by (simp add: read_page_def plain_rows_def validate_items_Some)

text \<open>The state of the walk over \<open>data\<close> in pages of \<open>sz\<close> rows before page \<open>q + 1\<close>.\<close>

definition walking :: "('a \<Rightarrow> pystr) \<Rightarrow> 'a list \<Rightarrow> nat \<Rightarrow> nat \<Rightarrow> 'a pager_state \<Rightarrow> bool" where
  "walking repr data sz q s \<longleftrightarrow> q * sz < length data \<and>
     ps_page_number s = int q + 1 \<and> ps_size s = int sz \<and> ps_items s = take (q * sz) data \<and>
     ps_expected_total s = Some (int (length data)) \<and>
     (\<forall>fp \<in> ps_seen_pages s. set fp \<subseteq> repr ` set (take (q * sz) data))"

lemma accumulate_walking:
  assumes w: "walking repr data sz q s" and sz: "0 < sz" and d: "distinct (map repr data)"
    and rows: "int (length data) \<le> pb_max_rows b"
  shows "(\<exists>footer s'. accumulate b repr (take sz (drop (q * sz) data)) (int (length data)) s =
        Stop (Inr (completed data (int (length data)) (int q + 1) footer)) s') \<or>
     (\<exists>s'. accumulate b repr (take sz (drop (q * sz) data)) (int (length data)) s = Continue s' \<and>
        walking repr data sz (Suc q) s')"
proof -
  let ?page = "take sz (drop (q * sz) data)" and ?fp = "fingerprint_of repr (take sz (drop (q * sz) data))"
  have page: "?page \<noteq> []" using w sz by (auto simp: walking_def)
  have items: "ps_items s @ ?page = take (Suc q * sz) data"
    using w take_add [of "q * sz" sz data] by (simp add: walking_def add.commute)
  have fp: "set ?fp = repr ` set ?page" by (simp add: fingerprint_of_def)
  have dis: "repr ` set ?page \<inter> repr ` set (take (q * sz) data) = {}"
  proof -
    have "distinct (map repr (take (q * sz) data @ drop (q * sz) data))" using d by simp
    then have "repr ` set (take (q * sz) data) \<inter> repr ` set (drop (q * sz) data) = {}"
      by (simp only: map_append distinct_append set_map)
    then show ?thesis using set_take_subset [of sz "drop (q * sz) data"] by blast
  qed
  have ne: "repr ` set ?page \<noteq> {}" using page by simp
  have seen: "set f \<subseteq> repr ` set (take (q * sz) data)" if "f \<in> ps_seen_pages s" for f
    using w that by (simp add: walking_def)
  have fresh: "?fp \<notin> ps_seen_pages s"
  proof
    assume "?fp \<in> ps_seen_pages s"
    from seen [OF this] have "repr ` set ?page \<subseteq> repr ` set (take (q * sz) data)"
      by (simp only: fp)
    then show False using dis ne by (simp only: Int_absorb2)
  qed
  have len: "length (ps_items s @ ?page) = min (length data) (Suc q * sz)"
    unfolding items by (simp add: min.commute)
  show ?thesis
  proof (cases "Suc q * sz \<ge> length data")
    case True
    have all: "ps_items s @ ?page = data" using items True by simp
    have "\<exists>s'. accumulate b repr ?page (int (length data)) s =
        Stop (Inr (completed data (int (length data)) (int q + 1) (ps_footer s))) s'"
      unfolding accumulate_def Let_def all using fresh rows w by (simp add: walking_def)
    then show ?thesis by blast
  next
    case False
    then have lt: "Suc q * sz < length data" by simp
    then have lti: "int sz + int q * int sz < int (length data)"
      by (metis mult_Suc of_nat_add of_nat_less_iff of_nat_mult)
    let ?s' = "s\<lparr>ps_items := ps_items s @ ?page, ps_seen_pages := insert ?fp (ps_seen_pages s),
      ps_progress := ps_progress s @ [\<lparr>fp_page = ps_page_number s,
        fp_rows = int (length (ps_items s @ ?page)), fp_total = int (length data)\<rparr>],
      ps_page_number := ps_page_number s + 1\<rparr>"
    have "accumulate b repr ?page (int (length data)) s = Continue ?s'"
      unfolding accumulate_def Let_def len using fresh page rows lt lti by simp
    moreover have "walking repr data sz (Suc q) ?s'"
    proof -
      have a: "repr ` set (take (q * sz) data) \<subseteq> repr ` set (take (Suc q * sz) data)"
        by (intro image_mono set_take_subset_set_take) simp
      have "set ?page \<subseteq> set (take (Suc q * sz) data)"
        using items by (metis set_append Un_upper2)
      then have c: "repr ` set ?page \<subseteq> repr ` set (take (Suc q * sz) data)"
        by (rule image_mono)
      have "set f \<subseteq> repr ` set (take (Suc q * sz) data)" if "f \<in> insert ?fp (ps_seen_pages s)" for f
        using that
      proof
        assume "f = ?fp"
        then show ?thesis using c by (simp only: fp)
      next
        assume "f \<in> ps_seen_pages s"
        from seen [OF this] a show ?thesis by (rule order_trans)
      qed
      then show ?thesis
        using w lt items unfolding walking_def by simp
    qed
    ultimately show ?thesis by blast
  qed
qed

lemma fetch_loop_walking:
  assumes "walking repr data sz q s" and "0 < sz" and "distinct (map repr data)"
    and "int (length data) \<le> pb_max_rows b" and "int (length data) \<le> pb_max_pages b * int sz"
  shows "\<exists>r s'. fetch_loop b (plain_rows repr) (honest data) s = (Inr r, s') \<and>
    pg_complete r \<and> pg_items r = data"
  using assms(1)
proof (induction "length data - q * sz" arbitrary: q s rule: less_induct)
  case less
  let ?page = "take sz (drop (q * sz) data)"
  have lt: "q * sz < length data" using less.prems by (simp add: walking_def)
  have q: "int q + 1 \<le> pb_max_pages b"
  proof -
    have "int q * int sz < pb_max_pages b * int sz"
      using lt assms(5) by (metis of_nat_less_iff of_nat_mult order_less_le_trans)
    then show ?thesis using assms(2) by simp
  qed
  have room: "int q * int sz < pb_max_rows b"
    using lt assms(4) by (metis of_nat_less_iff of_nat_mult order_less_le_trans)
  define s1 where "s1 = s\<lparr>ps_calls := ps_calls s + 1, ps_footer := ps_footer s\<rparr>"
  have step: "pager_step b (plain_rows repr) (honest data) s =
      accumulate b repr ?page (int (length data)) s1"
    using less.prems q room
    by (simp add: pager_step_def walking_def honest_def read_page_honest s1_def Let_def nat_mult_distrib
        plain_rows_def [symmetric])
      (simp add: plain_rows_def)
  have "walking repr data sz q s1" using less.prems by (simp add: walking_def s1_def)
  from accumulate_walking [OF this assms(2-4)] show ?case
  proof (elim disjE exE conjE)
    fix footer s'
    assume "accumulate b repr ?page (int (length data)) s1 =
      Stop (Inr (completed data (int (length data)) (int q + 1) footer)) s'"
    then show ?thesis
      by (simp add: fetch_loop.simps [of b "plain_rows repr"] step completed_def)
  next
    fix s'
    assume c: "accumulate b repr ?page (int (length data)) s1 = Continue s'"
      and w: "walking repr data sz (Suc q) s'"
    have "length data - Suc q * sz < length data - q * sz" using lt assms(2) by simp
    from less.hyps [OF this w] show ?thesis
      by (simp add: fetch_loop.simps [of b "plain_rows repr" _ s] step c)
  qed
qed

text \<open>
  \<^bold>\<open>C11\<close>.  A result the pager calls complete is complete.  It carries no reason; its rows are the
  concatenation of pages 1 to \<open>pages_fetched\<close>, all fetched with one page size by consecutive
  calls, each page validated and each reporting the same total, and there are exactly that many
  rows.  Every other result carries a reason, and no result has more rows than the row budget.
\<close>

theorem pager_complete_is_proven:
  assumes "fetch_all b m adapter = (Inr r, s)"
  shows "(pg_complete r \<longleftrightarrow> pg_reason r = None) \<and>
    int (length (pg_items r)) \<le> max 0 (pb_max_rows b) \<and>
    (pg_complete r \<longrightarrow> int (length (pg_items r)) = pg_total r \<and>
      (\<exists>n size' pages. n \<le> 1 \<and> size' \<in> {pb_page_size b, pb_page_size_ceiling b} \<and>
        pg_pages_fetched r = int (length pages) \<and> pg_items r = concat pages \<and>
        (\<forall>j < length pages. page_at m adapter (n + j) (int j + 1) size' = Some (pages ! j, pg_total r))))"
  using fetch_loop_ok [OF initial_pager_inv assms [unfolded fetch_all_def]]
  unfolding stop_ok_def result_ok_def proven_complete_def walk_def by auto

definition demo_pager :: pager_budget where
  "demo_pager = \<lparr>pb_max_pages = 5, pb_max_rows = 10, pb_page_size = 1, pb_page_size_ceiling = 2\<rparr>"

definition demo_rows :: "(nat, nat) row_model" where
  "demo_rows = plain_rows (\<lambda>n. [n])"

text \<open>Three rows: the probe of size 1 sees a total of 3, the pager resizes to 2 and walks two
  pages.\<close>

lemma demo_fetch_all:
  "\<exists>s. fetch_all demo_pager demo_rows (honest [7, 8, 9]) = (Inr (completed [7, 8, 9] 3 2 None), s)"
proof -
  note defs = demo_pager_def demo_rows_def plain_rows_def initial_pager_def pager_step_def honest_def
    read_page_def first_page_def accumulate_def fingerprint_of_def
  define s1 :: "nat pager_state" where "s1 = \<lparr>ps_items = [], ps_seen_pages = {},
    ps_expected_total = Some 3, ps_footer = None, ps_page_number = 1, ps_size = 2,
    ps_resized = True, ps_calls = 1, ps_progress = []\<rparr>"
  define s2 :: "nat pager_state" where "s2 = \<lparr>ps_items = [7, 8], ps_seen_pages = {[[7], [8]]},
    ps_expected_total = Some 3, ps_footer = None, ps_page_number = 2, ps_size = 2,
    ps_resized = True, ps_calls = 2, ps_progress = [\<lparr>fp_page = 1, fp_rows = 2, fp_total = 3\<rparr>]\<rparr>"
  have s1: "pager_step demo_pager demo_rows (honest [7, 8, 9]) (initial_pager demo_pager) = Continue s1"
    by (simp add: defs s1_def)
  have s2: "pager_step demo_pager demo_rows (honest [7, 8, 9]) s1 = Continue s2"
    by (simp add: defs s1_def s2_def Let_def)
  obtain s where s3: "pager_step demo_pager demo_rows (honest [7, 8, 9]) s2 =
      Stop (Inr (completed [7, 8, 9] 3 2 None)) s"
    by (simp add: defs s2_def Let_def)
  have "fetch_all demo_pager demo_rows (honest [7, 8, 9]) = (Inr (completed [7, 8, 9] 3 2 None), s)"
    unfolding fetch_all_def
    by (subst fetch_loop.simps, simp add: s1, subst fetch_loop.simps, simp add: s2,
        subst fetch_loop.simps, simp add: s3)
  then show ?thesis by blast
qed

theorem pager_complete_is_proven_witness:
  "\<exists>n pages. (7::nat) # [8, 9] = concat pages \<and> length pages = 2 \<and> n \<le> 1 \<and>
     (\<exists>size'. \<forall>j < 2. page_at demo_rows (honest [7, 8, 9]) (n + j) (int j + 1) size' = Some (pages ! j, 3))"
proof -
  obtain s where run: "fetch_all demo_pager demo_rows (honest [7, 8, 9]) =
      (Inr (completed [7, 8, 9] 3 2 None), s)"
    using demo_fetch_all by blast
  have "pg_complete (completed [7 :: nat, 8, 9] 3 2 None)" by (simp add: completed_def)
  then obtain n size' pages where *: "n \<le> 1" "2 = int (length pages)" "[7, 8, 9] = concat pages"
    "\<forall>j < length pages. page_at demo_rows (honest [7, 8, 9]) (n + j) (int j + 1) size' = Some (pages ! j, 3)"
    using pager_complete_is_proven [OF run] by (auto simp: completed_def)
  then have "length pages = 2" by simp
  with * show ?thesis by metis
qed

text \<open>
  The pager always returns, and asks upstream at most once more than its page budget
  allows (the one probe that a resize discards), whatever upstream answers.
\<close>

theorem pager_call_bound:
  "int (ps_calls (snd (fetch_all b m adapter))) \<le> max 0 (pb_max_pages b) + 1"
proof -
  obtain r s where "fetch_all b m adapter = (r, s)" by fastforce
  then show ?thesis
    using fetch_loop_ok [OF initial_pager_inv, of b m adapter r s] by (simp add: fetch_all_def stop_ok_def)
qed

text \<open>
  \<^bold>\<open>C35\<close>.  Nothing is lost or refused without need: a source that serves a fixed list of rows with
  distinct renderings is read completely and in order, resize included, whenever the rows fit the
  row budget and the pages of the size the pager settles on fit the page budget.
\<close>

theorem pager_reads_honest_source:
  assumes "0 < pb_page_size b" and "distinct (map repr data)"
    and "int (length data) \<le> pb_max_rows b" and "0 < pb_max_rows b" and "0 < pb_max_pages b"
    and "int (length data) \<le> pb_max_pages b *
      (if int (length data) > pb_page_size b then max (pb_page_size b) (pb_page_size_ceiling b)
       else pb_page_size b)"
  shows "\<exists>r s. fetch_all b (plain_rows repr) (honest data) = (Inr r, s) \<and> pg_complete r \<and>
    pg_items r = data"
proof -
  let ?sz = "nat (pb_page_size b)" and ?page = "take (nat (pb_page_size b)) data"
  define s1 where "s1 = (initial_pager b :: 'a pager_state)\<lparr>ps_calls := 1, ps_footer := None\<rparr>"
  have step: "pager_step b (plain_rows repr) (honest data) (initial_pager b) =
      first_page b repr ?page (int (length data)) s1"
    using assms(4,5)
    by (simp add: pager_step_def initial_pager_def honest_def read_page_honest s1_def Let_def
        plain_rows_def [symmetric]) (simp add: plain_rows_def)
  have unfold_loop: "fetch_all b (plain_rows repr) (honest data) =
      (case first_page b repr ?page (int (length data)) s1 of Stop r s' \<Rightarrow> (r, s')
       | Continue s' \<Rightarrow> fetch_loop b (plain_rows repr) (honest data) s')"
    by (simp add: fetch_all_def fetch_loop.simps [of b "plain_rows repr" _ "initial_pager b"] step)
  show ?thesis
  proof (cases "int (length data) > pb_page_size b")
    case False
    then show ?thesis
      using assms(3) unfold_loop
      by (simp add: first_page_def Let_def s1_def initial_pager_def completed_def)
  next
    case big: True
    have len: "int (length ?page) = pb_page_size b" using big assms(1) by simp
    show ?thesis
    proof (cases "pb_page_size_ceiling b > pb_page_size b")
      case True
      define s2 where "s2 = s1\<lparr>ps_expected_total := Some (int (length data)),
        ps_size := pb_page_size_ceiling b, ps_resized := True, ps_items := [], ps_seen_pages := {},
        ps_page_number := 1\<rparr>"
      have "first_page b repr ?page (int (length data)) s1 = Continue s2"
        using True big len assms(3)
        by (simp add: first_page_def Let_def s1_def s2_def initial_pager_def del: length_take)
      moreover have "walking repr data (nat (pb_page_size_ceiling b)) 0 s2"
        using big assms(1) True by (auto simp: walking_def s2_def)
      ultimately show ?thesis
        using fetch_loop_walking [of repr data "nat (pb_page_size_ceiling b)" 0 s2 b] True big assms
          unfold_loop by simp
    next
      case False
      let ?s = "s1\<lparr>ps_expected_total := Some (int (length data))\<rparr>"
      have first: "first_page b repr ?page (int (length data)) s1 =
          accumulate b repr ?page (int (length data)) ?s"
        using False big len assms(3)
        by (simp add: first_page_def Let_def s1_def initial_pager_def del: length_take)
      have "walking repr data ?sz 0 ?s"
        using big assms(1) by (auto simp: walking_def s1_def initial_pager_def)
      from accumulate_walking [OF this _ assms(2,3)] assms(1) show ?thesis
        using fetch_loop_walking [of repr data ?sz "Suc 0" _ b] unfold_loop first False big assms(1,2,3,6)
        by (auto simp: completed_def)
    qed
  qed
qed

theorem pager_reads_honest_source_witness:
  "\<exists>r s. fetch_all demo_pager (plain_rows (\<lambda>n. [n])) (honest [7, 8, 9]) = (Inr r, s) \<and> pg_complete r \<and>
     pg_items r = [7, 8, 9]"
  using pager_reads_honest_source [of demo_pager "\<lambda>n. [n]" "[7, 8, 9]"]
  by (simp add: demo_pager_def)

end
