(* ===== verification/Rollup.thy ===== *)
theory Rollup
  imports Complex_Main Domain
begin

text \<open>
  Usage rollups: the bucket computation and the worker of \<^verbatim>\<open>application/rollup.py\<close>, the row
  types of \<^verbatim>\<open>ports/rollup.py\<close> and the SQL store of \<^verbatim>\<open>persistence/rollup_store.py\<close>.

  The store is a record of tables: the three fact tables and the category table as lists, the
  two rollup tables as maps from their unique key.  A metric value is a real number (the code
  uses floats for sums of integers).  A \<open>defaultdict\<close> of buckets is a dictionary whose missing
  keys read as the base bucket; \<open>buckets[key][metric] += v\<close> raises \<open>KeyError\<close> for a metric
  the bucket does not have.
\<close>

section \<open>Row types\<close>

record interaction_fact_row =
  if_tenant_id :: pystr
  if_occurred_at :: instant
  if_event_type :: pystr
  if_user_subject_id :: pystr
  if_capability_id :: "pystr option"
  if_status :: "pystr option"
  if_duration_ms :: "int option"
  if_mes_duration_ms :: "int option"
  if_llm_duration_ms :: "int option"
  if_local_duration_ms :: "int option"

record llm_call_fact_row =
  lf_tenant_id :: pystr
  lf_occurred_at :: instant
  lf_logical_call_id :: pystr
  lf_prompt_tokens :: int
  lf_completion_tokens :: int
  lf_cached_tokens :: int
  lf_reasoning_tokens :: int

record mes_call_fact_row =
  mf_tenant_id :: pystr
  mf_occurred_at :: instant
  mf_operation_id :: pystr
  mf_status :: pystr

datatype granularity = HOUR | DAY

record rollup_row =
  rw_tenant_id :: pystr
  rw_bucket_start :: instant
  rw_metric :: pystr
  rw_value :: real
  rw_rollup_version :: pystr
  rw_rolled_up_at :: instant
  rw_granularity :: granularity

section \<open>Buckets\<close>

definition ROLLUP_VERSION :: pystr where "ROLLUP_VERSION = u ''rollup-v3''"

definition MES_CATEGORIES :: "pystr list" where
  "MES_CATEGORIES = [u ''output'', u ''payroll'', u ''order'', u ''other'']"

definition INTERACTION_METRICS :: "pystr list" where
  "INTERACTION_METRICS = [u ''questions'', u ''valid_questions'', u ''e2e_duration_ms'',
     u ''mes_duration_ms'', u ''llm_duration_ms'', u ''local_duration_ms'']"

definition LLM_METRICS :: "pystr list" where
  "LLM_METRICS = [u ''llm_physical_attempts'', u ''prompt_tokens'', u ''completion_tokens'',
     u ''cached_tokens'', u ''reasoning_tokens'']"

definition INTERACTION_STATUS_LABELS :: "pystr list" where
  "INTERACTION_STATUS_LABELS = [u ''completed'', u ''failed'', u ''cancelled'', u ''rejected'']"

type_synonym bucket = "(pystr, real) dict"

text \<open>The keys of \<open>_base_bucket\<close>, in the order they are put in.\<close>

definition base_keys :: "pystr list" where
  "base_keys = INTERACTION_METRICS @ LLM_METRICS @ map ((@) (u ''status.'')) INTERACTION_STATUS_LABELS @
     map (\<lambda>m. m @ u ''.count'') INTERACTION_METRICS @ map (\<lambda>m. m @ u ''.count'') LLM_METRICS @
     [u ''users'', u ''llm_logical_calls'', u ''mes_calls'', u ''mes_calls.completed'',
      u ''mes_calls.failed''] @ map ((@) (u ''mes_calls.'')) MES_CATEGORIES"

definition base_bucket :: bucket where
  "base_bucket = fold (\<lambda>m d. AList.update m 0 d) base_keys []"

definition hour_bucket :: "instant \<Rightarrow> instant" where
  "hour_bucket t = t div us_hour * us_hour"

definition midnight :: "instant \<Rightarrow> instant" where
  "midnight t = t div us_day * us_day"

definition bucket_key :: "granularity \<Rightarrow> instant \<Rightarrow> instant" where
  "bucket_key g t = (case g of HOUR \<Rightarrow> hour_bucket t | DAY \<Rightarrow> midnight t)"

section \<open>compute_bucket_metrics\<close>

record rollup_acc =
  acc_buckets :: "(instant, bucket) dict"
  acc_users :: "instant \<Rightarrow> pystr set"
  acc_calls :: "instant \<Rightarrow> pystr set"

definition bucket_of :: "rollup_acc \<Rightarrow> instant \<Rightarrow> bucket" where
  "bucket_of a k = (case map_of (acc_buckets a) k of Some b \<Rightarrow> b | None \<Rightarrow> base_bucket)"

text \<open>Reading \<open>buckets[key]\<close> creates it.\<close>

definition touch :: "instant \<Rightarrow> rollup_acc \<Rightarrow> rollup_acc" where
  "touch k a = a\<lparr>acc_buckets := AList.update k (bucket_of a k) (acc_buckets a)\<rparr>"

definition bump :: "instant \<Rightarrow> pystr \<Rightarrow> real \<Rightarrow> rollup_acc \<Rightarrow> key_error + rollup_acc" where
  "bump k m v a = (case map_of (bucket_of a k) m of
     None \<Rightarrow> Inl (KeyError m)
   | Some x \<Rightarrow> Inr (a\<lparr>acc_buckets :=
       AList.update k (AList.update m (x + v) (bucket_of a k)) (acc_buckets a)\<rparr>))"

fun bump_all :: "instant \<Rightarrow> (pystr \<times> real) list \<Rightarrow> rollup_acc \<Rightarrow> key_error + rollup_acc" where
  "bump_all k [] a = Inr a"
| "bump_all k ((m, v) # incs) a = rbind (bump k m v a) (bump_all k incs)"

text \<open>\<open>+= value\<close> and \<open>.count += 1\<close> for every value that is a number.\<close>

definition value_incs :: "(pystr \<times> int option) list \<Rightarrow> (pystr \<times> real) list" where
  "value_incs fs = concat (map (\<lambda>(metric, value). case value of
     None \<Rightarrow> [] | Some v \<Rightarrow> [(metric, of_int v), (metric @ u ''.count'', 1)]) fs)"

definition duration_fields :: "interaction_fact_row \<Rightarrow> (pystr \<times> int option) list" where
  "duration_fields f = [(u ''e2e_duration_ms'', if_duration_ms f),
     (u ''mes_duration_ms'', if_mes_duration_ms f), (u ''llm_duration_ms'', if_llm_duration_ms f),
     (u ''local_duration_ms'', if_local_duration_ms f)]"

definition add_interaction ::
  "granularity \<Rightarrow> interaction_fact_row \<Rightarrow> rollup_acc \<Rightarrow> key_error + rollup_acc" where
  "add_interaction g f a =
     (let k = bucket_key g (if_occurred_at f) in
      rbind (if if_event_type f = u ''interaction_started'' then bump k (u ''questions'') 1 a
        else if if_event_type f = u ''interaction_routed'' \<and> if_capability_id f \<noteq> None
          then bump k (u ''valid_questions'') 1 a
        else Inr a) (\<lambda>a1.
      let a2 = (if if_user_subject_id f \<noteq> []
        then a1\<lparr>acc_users := (acc_users a1)(k := insert (if_user_subject_id f) (acc_users a1 k))\<rparr>
        else a1) in
      rbind (case if_status f of
          None \<Rightarrow> Inr a2
        | Some status \<Rightarrow>
            if status = [] then Inr a2
            else if u ''status.'' @ status \<in> set (map fst (bucket_of a2 k))
              then bump k (u ''status.'' @ status) 1 (touch k a2)
            else Inr (touch k a2)) (\<lambda>a3.
      bump_all k (value_incs (duration_fields f)) a3)))"

text \<open>The facts of an LLM call carry four of the five \<open>_LLM_METRICS\<close> as attributes;
  \<open>getattr(fact, "llm_physical_attempts", None)\<close> is \<open>None\<close>.\<close>

definition token_fields :: "llm_call_fact_row \<Rightarrow> (pystr \<times> int option) list" where
  "token_fields f = [(u ''llm_physical_attempts'', None), (u ''prompt_tokens'', Some (lf_prompt_tokens f)),
     (u ''completion_tokens'', Some (lf_completion_tokens f)), (u ''cached_tokens'', Some (lf_cached_tokens f)),
     (u ''reasoning_tokens'', Some (lf_reasoning_tokens f))]"

definition add_llm ::
  "granularity \<Rightarrow> llm_call_fact_row \<Rightarrow> rollup_acc \<Rightarrow> key_error + rollup_acc" where
  "add_llm g f a =
     (let k = bucket_key g (lf_occurred_at f) in
      rbind (bump k (u ''llm_physical_attempts'') 1 a) (\<lambda>a1.
      let a2 = (if lf_logical_call_id f \<noteq> []
        then a1\<lparr>acc_calls := (acc_calls a1)(k := insert (lf_logical_call_id f) (acc_calls a1 k))\<rparr>
        else a1) in
      bump_all k (value_incs (token_fields f)) a2))"

definition mes_category :: "(pystr, pystr) dict \<Rightarrow> mes_call_fact_row \<Rightarrow> pystr" where
  "mes_category categories f = (case map_of categories (mf_operation_id f) of
     Some c \<Rightarrow> c | None \<Rightarrow> u ''other'')"

definition mes_incs :: "(pystr, pystr) dict \<Rightarrow> mes_call_fact_row \<Rightarrow> (pystr \<times> real) list" where
  "mes_incs categories f = [(u ''mes_calls'', 1),
     (u ''mes_calls.'' @ (if mf_status f = u ''completed'' then u ''completed'' else u ''failed''), 1),
     (u ''mes_calls.'' @ mes_category categories f, 1)]"

definition add_mes ::
  "(pystr, pystr) dict \<Rightarrow> granularity \<Rightarrow> mes_call_fact_row \<Rightarrow> rollup_acc \<Rightarrow> key_error + rollup_acc" where
  "add_mes categories g f a = bump_all (bucket_key g (mf_occurred_at f)) (mes_incs categories f) a"

definition empty_acc :: rollup_acc where
  "empty_acc = \<lparr>acc_buckets = [], acc_users = (\<lambda>_. {}), acc_calls = (\<lambda>_. {})\<rparr>"

definition finish_bucket :: "rollup_acc \<Rightarrow> instant \<Rightarrow> bucket \<Rightarrow> bucket" where
  "finish_bucket a k b = AList.update (u ''llm_logical_calls'') (real (card (acc_calls a k)))
     (AList.update (u ''users'') (real (card (acc_users a k))) b)"

definition compute_bucket_metrics ::
  "interaction_fact_row list \<Rightarrow> llm_call_fact_row list \<Rightarrow> mes_call_fact_row list
   \<Rightarrow> (pystr, pystr) dict \<Rightarrow> granularity \<Rightarrow> key_error + (instant, bucket) dict" where
  "compute_bucket_metrics interactions llms mess categories g =
     rbind (rfold (add_interaction g) interactions empty_acc) (\<lambda>a1.
     rbind (rfold (add_llm g) llms a1) (\<lambda>a2.
     rbind (rfold (add_mes categories g) mess a2) (\<lambda>a3.
     Inr (map (\<lambda>(k, b). (k, finish_bucket a3 k b)) (acc_buckets a3)))))"

section \<open>The store\<close>

type_synonym rollup_table = "pystr \<times> instant \<times> pystr \<rightharpoonup> real \<times> pystr \<times> instant"

text \<open>The daily table is keyed by the date; a date is represented by its midnight.\<close>

record rollup_store =
  st_interactions :: "interaction_fact_row list"
  st_llm_calls :: "llm_call_fact_row list"
  st_mes_calls :: "mes_call_fact_row list"
  st_categories :: "(pystr \<times> pystr) list"
  st_hourly :: rollup_table
  st_daily :: rollup_table

definition in_window :: "instant \<Rightarrow> instant \<Rightarrow> instant \<Rightarrow> bool" where
  "in_window start end' t \<longleftrightarrow> start \<le> t \<and> t < end'"

definition list_tenant_ids :: "rollup_store \<Rightarrow> instant \<Rightarrow> instant \<Rightarrow> pystr list" where
  "list_tenant_ids st start end' = from_keys
     (map if_tenant_id (filter (\<lambda>f. in_window start end' (if_occurred_at f)) (st_interactions st)) @
      map lf_tenant_id (filter (\<lambda>f. in_window start end' (lf_occurred_at f)) (st_llm_calls st)) @
      map mf_tenant_id (filter (\<lambda>f. in_window start end' (mf_occurred_at f)) (st_mes_calls st)))"

definition list_facts ::
  "rollup_store \<Rightarrow> pystr list \<Rightarrow> instant \<Rightarrow> instant
   \<Rightarrow> interaction_fact_row list \<times> llm_call_fact_row list \<times> mes_call_fact_row list" where
  "list_facts st tenants start end' =
     (filter (\<lambda>f. if_tenant_id f \<in> set tenants \<and> in_window start end' (if_occurred_at f)) (st_interactions st),
      filter (\<lambda>f. lf_tenant_id f \<in> set tenants \<and> in_window start end' (lf_occurred_at f)) (st_llm_calls st),
      filter (\<lambda>f. mf_tenant_id f \<in> set tenants \<and> in_window start end' (mf_occurred_at f)) (st_mes_calls st))"

definition list_mes_categories :: "rollup_store \<Rightarrow> (pystr, pystr) dict" where
  "list_mes_categories st = fold (\<lambda>(oid, c) d. AList.update oid c d) (st_categories st) []"

definition upsert_row :: "rollup_row \<Rightarrow> rollup_store \<Rightarrow> rollup_store" where
  "upsert_row r st =
     (let v = (rw_value r, rw_rollup_version r, rw_rolled_up_at r) in case rw_granularity r of
        HOUR \<Rightarrow> st\<lparr>st_hourly := (st_hourly st)((rw_tenant_id r, rw_bucket_start r, rw_metric r) \<mapsto> v)\<rparr>
      | DAY \<Rightarrow> st\<lparr>st_daily := (st_daily st)
          ((rw_tenant_id r, midnight (rw_bucket_start r), rw_metric r) \<mapsto> v)\<rparr>)"

definition upsert_rollup_rows :: "rollup_row list \<Rightarrow> rollup_store \<Rightarrow> rollup_store" where
  "upsert_rollup_rows rows st = fold upsert_row rows st"

section \<open>Engine and worker\<close>

record rollup_run =
  run_tenant_ids :: "pystr list"
  run_start :: instant
  run_end :: instant
  run_hourly_rows :: nat
  run_daily_rows :: nat

definition rows_of ::
  "pystr \<Rightarrow> instant \<Rightarrow> granularity \<Rightarrow> (instant, bucket) dict \<Rightarrow> rollup_row list" where
  "rows_of tenant now g buckets = concat (map (\<lambda>(k, b). map (\<lambda>(m, v).
     \<lparr>rw_tenant_id = tenant, rw_bucket_start = k, rw_metric = m, rw_value = v,
      rw_rollup_version = ROLLUP_VERSION, rw_rolled_up_at = now, rw_granularity = g\<rparr>) b) buckets)"

text \<open>The rows of one tenant: the loop body of \<open>rollup_range\<close>, with its two bucket sets.\<close>

definition tenant_rollup ::
  "interaction_fact_row list \<times> llm_call_fact_row list \<times> mes_call_fact_row list
   \<Rightarrow> (pystr, pystr) dict \<Rightarrow> instant \<Rightarrow> pystr
   \<Rightarrow> key_error + rollup_row list \<times> instant list \<times> instant list" where
  "tenant_rollup facts categories now tenant = (case facts of (is, ls, ms) \<Rightarrow>
     let ti = filter (\<lambda>f. if_tenant_id f = tenant) is;
         tl' = filter (\<lambda>f. lf_tenant_id f = tenant) ls;
         tm = filter (\<lambda>f. mf_tenant_id f = tenant) ms in
     rbind (compute_bucket_metrics ti tl' tm categories HOUR) (\<lambda>hourly.
     rbind (compute_bucket_metrics ti tl' tm categories DAY) (\<lambda>daily.
     Inr (rows_of tenant now HOUR hourly @ rows_of tenant now DAY daily, map fst hourly, map fst daily))))"

definition rollup_range ::
  "pystr list \<Rightarrow> instant \<Rightarrow> instant \<Rightarrow> instant \<Rightarrow> rollup_store \<Rightarrow> key_error + rollup_run \<times> rollup_store" where
  "rollup_range tenants start end' now st =
     (if tenants = [] \<or> start \<ge> end'
      then Inr (\<lparr>run_tenant_ids = tenants, run_start = start, run_end = end', run_hourly_rows = 0,
        run_daily_rows = 0\<rparr>, st)
      else rbind (rmap (tenant_rollup (list_facts st tenants start end') (list_mes_categories st) now) tenants)
        (\<lambda>parts. Inr (\<lparr>run_tenant_ids = tenants, run_start = start, run_end = end',
          run_hourly_rows = card (\<Union>(_, hs, _) \<in> set parts. set hs),
          run_daily_rows = card (\<Union>(_, _, ds) \<in> set parts. set ds)\<rparr>,
          upsert_rollup_rows (concat (map fst parts)) st)))"

text \<open>\<open>run_once\<close>: the configured tenants, or those with facts in the window; the engine's clock
  is read as \<open>now\<close>.\<close>

definition run_once ::
  "pystr list \<Rightarrow> int \<Rightarrow> instant \<Rightarrow> rollup_store \<Rightarrow> key_error + rollup_run \<times> rollup_store" where
  "run_once configured window_hours now st =
     (let start = now - window_hours * us_hour;
          tenants = (if configured \<noteq> [] then configured else list_tenant_ids st start now)
      in rollup_range tenants start now now st)"

section \<open>What a fact adds\<close>

definition inc_sum :: "(pystr \<times> real) list \<Rightarrow> pystr \<Rightarrow> real" where
  "inc_sum incs m = (\<Sum>(m', v) \<leftarrow> incs. if m' = m then v else 0)"

lemma inc_sum_simps [simp]:
  "inc_sum [] m = 0" "inc_sum ((m', v) # incs) m = (if m' = m then v else 0) + inc_sum incs m"
  "inc_sum (xs @ ys) m = inc_sum xs m + inc_sum ys m"
  by (simp_all add: inc_sum_def)

definition interaction_incs :: "interaction_fact_row \<Rightarrow> (pystr \<times> real) list" where
  "interaction_incs f =
     (if if_event_type f = u ''interaction_started'' then [(u ''questions'', 1)]
      else if if_event_type f = u ''interaction_routed'' \<and> if_capability_id f \<noteq> None
        then [(u ''valid_questions'', 1)] else []) @
     (case if_status f of None \<Rightarrow> [] | Some s \<Rightarrow>
        if s \<noteq> [] \<and> u ''status.'' @ s \<in> set base_keys then [(u ''status.'' @ s, 1)] else []) @
     value_incs (duration_fields f)"

definition llm_incs :: "llm_call_fact_row \<Rightarrow> (pystr \<times> real) list" where
  "llm_incs f = (u ''llm_physical_attempts'', 1) # value_incs (token_fields f)"

text \<open>Accumulators whose buckets have exactly the base metrics.\<close>

definition bucket_wf :: "bucket \<Rightarrow> bool" where
  "bucket_wf b \<longleftrightarrow> distinct (map fst b) \<and> fst ` set b = set base_keys"

definition acc_wf :: "rollup_acc \<Rightarrow> bool" where
  "acc_wf a \<longleftrightarrow> distinct (map fst (acc_buckets a)) \<and> (\<forall>b \<in> snd ` set (acc_buckets a). bucket_wf b)"

definition metric_at :: "rollup_acc \<Rightarrow> instant \<Rightarrow> pystr \<Rightarrow> real" where
  "metric_at a k m = (case map_of (bucket_of a k) m of Some x \<Rightarrow> x | None \<Rightarrow> 0)"

lemma map_of_fold_zero:
  "map_of (fold (\<lambda>m d. AList.update m v d) ks d) m = (if m \<in> set ks then Some v else map_of d m)"
  by (induction ks arbitrary: d) (auto simp: dict_simps)

lemma map_of_base_bucket: "map_of base_bucket m = (if m \<in> set base_keys then Some 0 else None)"
  by (simp add: base_bucket_def map_of_fold_zero)

lemma fst_set_map_of: "fst ` set d = dom (map_of d)"
  by (simp add: dom_map_of_conv_image_fst)

lemma base_bucket_wf: "bucket_wf base_bucket"
proof -
  have "distinct (map fst (fold (\<lambda>m d. AList.update m (0::real) d) ks d))" if "distinct (map fst d)" for ks d
    using that by (induction ks arbitrary: d) simp_all
  then have "distinct (map fst base_bucket)"
    unfolding base_bucket_def by (metis distinct.simps(1) list.simps(8))
  moreover have "fst ` set base_bucket = set base_keys"
    unfolding fst_set_map_of by (auto simp: map_of_base_bucket dom_def)
  ultimately show ?thesis by (simp add: bucket_wf_def)
qed

lemma acc_wf_bucket: "acc_wf a \<Longrightarrow> (k, b) \<in> set (acc_buckets a) \<Longrightarrow> bucket_wf b"
  unfolding acc_wf_def by (force intro: rev_image_eqI)

lemma bucket_of_wf: "acc_wf a \<Longrightarrow> bucket_wf (bucket_of a k)"
  using base_bucket_wf acc_wf_bucket [of a k]
  by (auto simp: bucket_of_def split: option.split dest: map_of_SomeD)

lemma acc_wf_update:
  assumes "acc_wf a" and "bucket_wf b"
  shows "acc_wf (a\<lparr>acc_buckets := AList.update k b (acc_buckets a)\<rparr>)"
proof -
  have "bucket_wf b'" if "(k', b') \<in> set (AList.update k b (acc_buckets a))" for k' b'
    using subsetD [OF set_update_subset that] acc_wf_bucket [OF assms(1)] assms(2) by auto
  then show ?thesis using assms unfolding acc_wf_def by auto
qed

lemma acc_wf_other [simp]:
  "acc_wf (a\<lparr>acc_users := x\<rparr>) = acc_wf a" "acc_wf (a\<lparr>acc_calls := y\<rparr>) = acc_wf a"
  by (simp_all add: acc_wf_def)

lemma metric_at_other [simp]:
  "metric_at (a\<lparr>acc_users := x\<rparr>) k m = metric_at a k m" "metric_at (a\<lparr>acc_calls := y\<rparr>) k m = metric_at a k m"
  by (simp_all add: metric_at_def bucket_of_def)

text \<open>\<open>a'\<close> is \<open>a\<close> with the increments booked in bucket \<open>k\<close>.\<close>

definition books :: "rollup_acc \<Rightarrow> rollup_acc \<Rightarrow> instant \<Rightarrow> (pystr \<times> real) list \<Rightarrow> bool" where
  "books a a' k incs \<longleftrightarrow> acc_wf a' \<and> acc_users a' = acc_users a \<and> acc_calls a' = acc_calls a \<and>
     fst ` set (acc_buckets a) \<subseteq> fst ` set (acc_buckets a') \<and>
     (incs \<noteq> [] \<longrightarrow> k \<in> fst ` set (acc_buckets a')) \<and>
     (\<forall>k' m. metric_at a' k' m = metric_at a k' m + (if k' = k then inc_sum incs m else 0))"

lemma books_trans: "books a a1 k xs \<Longrightarrow> books a1 a2 k ys \<Longrightarrow> books a a2 k (xs @ ys)"
  by (auto simp: books_def)

lemma touch_books: "acc_wf a \<Longrightarrow> books a (touch k a) k []"
  using acc_wf_update [of a "bucket_of a k" k] bucket_of_wf [of a k]
  by (auto simp: books_def touch_def metric_at_def bucket_of_def dict_simps AList.dom_update
      split: option.splits)

lemma bump_books:
  assumes wf: "acc_wf a" and m: "m \<in> set base_keys"
  shows "\<exists>a'. bump k m v a = Inr a' \<and> books a a' k [(m, v)]"
proof -
  have "m \<in> dom (map_of (bucket_of a k))"
    using m bucket_of_wf [OF wf, of k] by (simp add: dom_map_of_conv_image_fst bucket_wf_def)
  then obtain x where x: "map_of (bucket_of a k) m = Some x" by blast
  let ?b = "AList.update m (x + v) (bucket_of a k)"
  let ?a = "a\<lparr>acc_buckets := AList.update k ?b (acc_buckets a)\<rparr>"
  have "acc_wf ?a"
    using bucket_of_wf [OF wf, of k] m
    by (intro acc_wf_update [OF wf]) (auto simp: bucket_wf_def AList.dom_update)
  moreover have "metric_at ?a k' m' = metric_at a k' m' + (if k' = k \<and> m' = m then v else 0)" for k' m'
    using x by (auto simp: metric_at_def bucket_of_def dict_simps split: option.splits)
  ultimately have "books a ?a k [(m, v)]"
    by (auto simp: books_def AList.dom_update)
  then show ?thesis using x by (auto simp: bump_def)
qed

lemma bump_all_books:
  "acc_wf a \<Longrightarrow> fst ` set incs \<subseteq> set base_keys \<Longrightarrow> \<exists>a'. bump_all k incs a = Inr a' \<and> books a a' k incs"
proof (induction k incs a rule: bump_all.induct)
  case (1 k a)
  then show ?case by (simp add: books_def)
next
  case (2 k m v incs a)
  obtain a1 where a1: "bump k m v a = Inr a1" "books a a1 k [(m, v)]"
    using bump_books [OF "2.prems"(1), of m k v] "2.prems"(2) by auto
  then obtain a2 where "bump_all k incs a1 = Inr a2" "books a1 a2 k incs"
    using "2.IH" [OF a1(1)] "2.prems"(2) by (auto simp: books_def)
  then show ?case using a1 books_trans [of a a1 k "[(m, v)]" a2 incs] by auto
qed

lemmas base_key_defs = base_keys_def INTERACTION_METRICS_def LLM_METRICS_def
  INTERACTION_STATUS_LABELS_def MES_CATEGORIES_def

lemma value_incs_keys:
  "fst ` set (value_incs (duration_fields f)) \<subseteq> set base_keys"
  "fst ` set (value_incs (token_fields g)) \<subseteq> set base_keys"
  by (auto simp: value_incs_def duration_fields_def token_fields_def base_key_defs split: option.splits)

lemma base_key_members:
  "u ''questions'' \<in> set base_keys" "u ''valid_questions'' \<in> set base_keys"
  "u ''llm_physical_attempts'' \<in> set base_keys"
  by (simp_all add: base_key_defs)

lemma books_refl: "acc_wf a \<Longrightarrow> books a a k []"
  by (simp add: books_def)

lemma books_users: "books a a' k incs \<Longrightarrow> books (a\<lparr>acc_users := x\<rparr>) (a'\<lparr>acc_users := x\<rparr>) k incs"
  by (simp add: books_def)

lemma books_calls: "books a a' k incs \<Longrightarrow> books (a\<lparr>acc_calls := x\<rparr>) (a'\<lparr>acc_calls := x\<rparr>) k incs"
  by (simp add: books_def)

lemma books_wf: "books a a' k incs \<Longrightarrow> acc_wf a'"
  by (simp add: books_def)

definition fact_users :: "granularity \<Rightarrow> interaction_fact_row \<Rightarrow> instant \<Rightarrow> pystr set" where
  "fact_users g f k = (if bucket_key g (if_occurred_at f) = k \<and> if_user_subject_id f \<noteq> []
     then {if_user_subject_id f} else {})"

definition fact_calls :: "granularity \<Rightarrow> llm_call_fact_row \<Rightarrow> instant \<Rightarrow> pystr set" where
  "fact_calls g f k = (if bucket_key g (lf_occurred_at f) = k \<and> lf_logical_call_id f \<noteq> []
     then {lf_logical_call_id f} else {})"

lemma add_interaction_books:
  assumes wf: "acc_wf a"
  shows "\<exists>a'. add_interaction g f a = Inr a' \<and>
    books (a\<lparr>acc_users := (\<lambda>k. acc_users a k \<union> fact_users g f k)\<rparr>) a'
      (bucket_key g (if_occurred_at f)) (interaction_incs f)"
proof -
  let ?k = "bucket_key g (if_occurred_at f)"
  define e1 where "e1 = (if if_event_type f = u ''interaction_started'' then [(u ''questions'', 1::real)]
      else if if_event_type f = u ''interaction_routed'' \<and> if_capability_id f \<noteq> None
        then [(u ''valid_questions'', 1)] else [])"
  define e2 where "e2 = (case if_status f of None \<Rightarrow> [] | Some s \<Rightarrow>
        if s \<noteq> [] \<and> u ''status.'' @ s \<in> set base_keys then [(u ''status.'' @ s, 1::real)] else [])"
  have "\<exists>a1. (if if_event_type f = u ''interaction_started'' then bump ?k (u ''questions'') 1 a
        else if if_event_type f = u ''interaction_routed'' \<and> if_capability_id f \<noteq> None
          then bump ?k (u ''valid_questions'') 1 a
        else Inr a) = Inr a1 \<and> books a a1 ?k e1"
    using bump_books [OF wf base_key_members(1), of ?k 1] bump_books [OF wf base_key_members(2), of ?k 1]
      books_refl [OF wf, of ?k] unfolding e1_def by (simp only: split: if_split) blast
  then obtain a1 where a1: "(if if_event_type f = u ''interaction_started'' then bump ?k (u ''questions'') 1 a
        else if if_event_type f = u ''interaction_routed'' \<and> if_capability_id f \<noteq> None
          then bump ?k (u ''valid_questions'') 1 a
        else Inr a) = Inr a1" "books a a1 ?k e1"
    by blast
  define U where "U = (\<lambda>k. acc_users a k \<union> fact_users g f k)"
  define a2 where "a2 = (if if_user_subject_id f \<noteq> []
        then a1\<lparr>acc_users := (acc_users a1)(?k := insert (if_user_subject_id f) (acc_users a1 ?k))\<rparr>
        else a1)"
  have users: "acc_users a1 = acc_users a" using a1(2) by (simp add: books_def)
  then have "a2 = a1\<lparr>acc_users := U\<rparr>"
    unfolding a2_def U_def fact_users_def by (cases a1) (auto simp: fun_eq_iff)
  then have b2: "books (a\<lparr>acc_users := U\<rparr>) a2 ?k e1" using books_users [OF a1(2)] by simp
  note wf2 = books_wf [OF b2]
  obtain a3 where a3: "(case if_status f of
          None \<Rightarrow> Inr a2
        | Some status \<Rightarrow>
            if status = [] then Inr a2
            else if u ''status.'' @ status \<in> set (map fst (bucket_of a2 ?k))
              then bump ?k (u ''status.'' @ status) 1 (touch ?k a2)
            else Inr (touch ?k a2)) = Inr a3" "books a2 a3 ?k e2"
  proof -
    have keys: "set (map fst (bucket_of a2 ?k)) = set base_keys"
      using bucket_of_wf [OF wf2, of ?k] by (simp add: bucket_wf_def)
    have tb: "books a2 (touch ?k a2) ?k []" using touch_books [OF wf2] .
    show thesis
    proof (cases "\<exists>s. if_status f = Some s \<and> s \<noteq> [] \<and> u ''status.'' @ s \<in> set base_keys")
      case True
      then obtain s where s: "if_status f = Some s" "s \<noteq> []" "u ''status.'' @ s \<in> set base_keys" by blast
      obtain a3 where "bump ?k (u ''status.'' @ s) 1 (touch ?k a2) = Inr a3"
        "books (touch ?k a2) a3 ?k [(u ''status.'' @ s, 1)]"
        using bump_books [OF books_wf [OF tb] s(3)] by blast
      then show thesis using that [of a3] s keys books_trans [OF tb] by (simp add: e2_def)
    next
      case False
      then have e2: "e2 = []" unfolding e2_def by (auto split: option.split)
      show thesis
      proof (cases "if_status f = None \<or> if_status f = Some []")
        case True
        then show thesis using that [of a2] books_refl [OF wf2] e2 by auto
      next
        case nonempty: False
        then show thesis using that [of "touch ?k a2"] tb e2 False keys by (auto split: option.split)
      qed
    qed
  qed
  obtain a4 where a4: "bump_all ?k (value_incs (duration_fields f)) a3 = Inr a4"
    "books a3 a4 ?k (value_incs (duration_fields f))"
    using bump_all_books [OF books_wf [OF a3(2)] value_incs_keys(1)] by blast
  have "add_interaction g f a = Inr a4"
    unfolding add_interaction_def Let_def a1(1) rbind.simps a2_def [symmetric] a3(1) a4(1) by simp
  moreover have "books (a\<lparr>acc_users := U\<rparr>) a4 ?k (interaction_incs f)"
    using books_trans [OF books_trans [OF b2 a3(2)] a4(2)]
    by (simp add: interaction_incs_def e1_def e2_def)
  ultimately show ?thesis unfolding U_def by blast
qed

lemma add_llm_books:
  assumes wf: "acc_wf a"
  shows "\<exists>a'. add_llm g f a = Inr a' \<and>
    books (a\<lparr>acc_calls := (\<lambda>k. acc_calls a k \<union> fact_calls g f k)\<rparr>) a'
      (bucket_key g (lf_occurred_at f)) (llm_incs f)"
proof -
  let ?k = "bucket_key g (lf_occurred_at f)"
  obtain a1 where a1: "bump ?k (u ''llm_physical_attempts'') 1 a = Inr a1"
    "books a a1 ?k [(u ''llm_physical_attempts'', 1)]"
    using bump_books [OF wf base_key_members(3)] by blast
  define C where "C = (\<lambda>k. acc_calls a k \<union> fact_calls g f k)"
  define a2 where "a2 = (if lf_logical_call_id f \<noteq> []
        then a1\<lparr>acc_calls := (acc_calls a1)(?k := insert (lf_logical_call_id f) (acc_calls a1 ?k))\<rparr>
        else a1)"
  have calls: "acc_calls a1 = acc_calls a" using a1(2) by (simp add: books_def)
  then have "a2 = a1\<lparr>acc_calls := C\<rparr>"
    unfolding a2_def C_def fact_calls_def by (cases a1) (auto simp: fun_eq_iff)
  then have b2: "books (a\<lparr>acc_calls := C\<rparr>) a2 ?k [(u ''llm_physical_attempts'', 1)]"
    using books_calls [OF a1(2)] by simp
  obtain a3 where a3: "bump_all ?k (value_incs (token_fields f)) a2 = Inr a3"
    "books a2 a3 ?k (value_incs (token_fields f))"
    using bump_all_books [OF books_wf [OF b2] value_incs_keys(2)] by blast
  have "add_llm g f a = Inr a3"
    unfolding add_llm_def Let_def a1(1) rbind.simps a2_def [symmetric] a3(1) by simp
  then show ?thesis
    using books_trans [OF b2 a3(2)] unfolding C_def llm_incs_def by auto
qed

lemma mes_incs_keys:
  "mes_category categories f \<in> set MES_CATEGORIES \<Longrightarrow> fst ` set (mes_incs categories f) \<subseteq> set base_keys"
  by (auto simp: mes_incs_def base_key_defs u_def)

text \<open>A run over a list of facts books the sum of what the facts add.\<close>

definition booked ::
  "rollup_acc \<Rightarrow> rollup_acc \<Rightarrow> (instant \<Rightarrow> pystr \<Rightarrow> real) \<Rightarrow> (instant \<Rightarrow> pystr set) \<Rightarrow> (instant \<Rightarrow> pystr set)
   \<Rightarrow> instant set \<Rightarrow> bool" where
  "booked a a' d us cs ks \<longleftrightarrow> acc_wf a' \<and> fst ` set (acc_buckets a) \<union> ks \<subseteq> fst ` set (acc_buckets a') \<and>
     (\<forall>k. acc_users a' k = acc_users a k \<union> us k) \<and> (\<forall>k. acc_calls a' k = acc_calls a k \<union> cs k) \<and>
     (\<forall>k m. metric_at a' k m = metric_at a k m + d k m)"

lemma booked_trans:
  assumes "booked a a1 d us cs ks" and "booked a1 a2 d' us' cs' ks'"
  shows "booked a a2 (\<lambda>k m. d k m + d' k m) (\<lambda>k. us k \<union> us' k) (\<lambda>k. cs k \<union> cs' k) (ks \<union> ks')"
proof -
  have "fst ` set (acc_buckets a) \<union> (ks \<union> ks') \<subseteq> fst ` set (acc_buckets a2)"
    using assms unfolding booked_def by (meson Un_least Un_subset_iff order_trans)
  then show ?thesis using assms unfolding booked_def by (simp add: Un_assoc)
qed

lemma rfold_booked:
  assumes step: "\<And>f a. f \<in> set fs \<Longrightarrow> acc_wf a \<Longrightarrow> \<exists>a'. h f a = Inr a' \<and> booked a a' (d f) (us f) (cs f) (ks f)"
  shows "acc_wf a \<Longrightarrow> \<exists>a'. rfold h fs a = Inr a' \<and> booked a a' (\<lambda>k m. \<Sum>f\<leftarrow>fs. d f k m)
    (\<lambda>k. \<Union>f \<in> set fs. us f k) (\<lambda>k. \<Union>f \<in> set fs. cs f k) (\<Union>f \<in> set fs. ks f)"
  using step
proof (induction fs arbitrary: a)
  case Nil
  then show ?case by (simp add: booked_def)
next
  case (Cons f fs)
  obtain a1 where a1: "h f a = Inr a1" "booked a a1 (d f) (us f) (cs f) (ks f)"
    using Cons.prems(2) [of f a] Cons.prems(1) by auto
  then have "acc_wf a1" by (simp add: booked_def)
  then obtain a2 where a2: "rfold h fs a1 = Inr a2" "booked a1 a2 (\<lambda>k m. \<Sum>f\<leftarrow>fs. d f k m)
    (\<lambda>k. \<Union>f \<in> set fs. us f k) (\<lambda>k. \<Union>f \<in> set fs. cs f k) (\<Union>f \<in> set fs. ks f)"
    using Cons.IH [of a1] Cons.prems(2) by auto
  have "booked a a2 (\<lambda>k m. \<Sum>f\<leftarrow>f # fs. d f k m) (\<lambda>k. \<Union>f \<in> set (f # fs). us f k)
    (\<lambda>k. \<Union>f \<in> set (f # fs). cs f k) (\<Union>f \<in> set (f # fs). ks f)"
    using booked_trans [OF a1(2) a2(2)] by simp
  then show ?case using a1(1) a2(1) by auto
qed

definition share :: "granularity \<Rightarrow> instant \<Rightarrow> (pystr \<times> real) list \<Rightarrow> instant \<Rightarrow> pystr \<Rightarrow> real" where
  "share g t incs k m = (if bucket_key g t = k then inc_sum incs m else 0)"

definition made :: "granularity \<Rightarrow> instant \<Rightarrow> (pystr \<times> real) list \<Rightarrow> instant set" where
  "made g t incs = (if incs = [] then {} else {bucket_key g t})"

lemma books_booked:
  assumes "books a0 a' (bucket_key g t) incs" and "acc_buckets a0 = acc_buckets a"
    and "acc_users a0 = (\<lambda>k. acc_users a k \<union> us k)" and "acc_calls a0 = (\<lambda>k. acc_calls a k \<union> cs k)"
  shows "booked a a' (share g t incs) us cs (made g t incs)"
proof -
  have "metric_at a0 k m = metric_at a k m" for k m
    using assms(2) by (simp add: metric_at_def bucket_of_def)
  then show ?thesis
    using assms unfolding books_def booked_def share_def made_def by auto
qed

lemma add_interaction_booked:
  "acc_wf a \<Longrightarrow> \<exists>a'. add_interaction g f a = Inr a' \<and>
     booked a a' (share g (if_occurred_at f) (interaction_incs f)) (fact_users g f) (\<lambda>_. {})
       (made g (if_occurred_at f) (interaction_incs f))"
  using add_interaction_books [of a g f]
    books_booked [of "a\<lparr>acc_users := (\<lambda>k. acc_users a k \<union> fact_users g f k)\<rparr>"] by fastforce

lemma add_llm_booked:
  "acc_wf a \<Longrightarrow> \<exists>a'. add_llm g f a = Inr a' \<and>
     booked a a' (share g (lf_occurred_at f) (llm_incs f)) (\<lambda>_. {}) (fact_calls g f)
       (made g (lf_occurred_at f) (llm_incs f))"
  using add_llm_books [of a g f]
    books_booked [of "a\<lparr>acc_calls := (\<lambda>k. acc_calls a k \<union> fact_calls g f k)\<rparr>"] by fastforce

lemma add_mes_booked:
  "mes_category categories f \<in> set MES_CATEGORIES \<Longrightarrow> acc_wf a \<Longrightarrow> \<exists>a'. add_mes categories g f a = Inr a' \<and>
     booked a a' (share g (mf_occurred_at f) (mes_incs categories f)) (\<lambda>_. {}) (\<lambda>_. {})
       (made g (mf_occurred_at f) (mes_incs categories f))"
  using bump_all_books [OF _ mes_incs_keys [of categories f], of a "bucket_key g (mf_occurred_at f)"]
    books_booked [of a] by (fastforce simp: add_mes_def)

text \<open>The value of an additive metric of a bucket, stated over the facts.\<close>

definition metric_sum ::
  "interaction_fact_row list \<Rightarrow> llm_call_fact_row list \<Rightarrow> mes_call_fact_row list
   \<Rightarrow> (pystr, pystr) dict \<Rightarrow> granularity \<Rightarrow> instant \<Rightarrow> pystr \<Rightarrow> real" where
  "metric_sum is ls ms categories g k m =
     (\<Sum>f\<leftarrow>is. share g (if_occurred_at f) (interaction_incs f) k m) +
     (\<Sum>f\<leftarrow>ls. share g (lf_occurred_at f) (llm_incs f) k m) +
     (\<Sum>f\<leftarrow>ms. share g (mf_occurred_at f) (mes_incs categories f) k m)"

definition bucket_value ::
  "interaction_fact_row list \<Rightarrow> llm_call_fact_row list \<Rightarrow> mes_call_fact_row list
   \<Rightarrow> (pystr, pystr) dict \<Rightarrow> granularity \<Rightarrow> instant \<Rightarrow> pystr \<Rightarrow> real" where
  "bucket_value is ls ms categories g k m =
     (if m = u ''users'' then real (card (\<Union>f \<in> set is. fact_users g f k))
      else if m = u ''llm_logical_calls'' then real (card (\<Union>f \<in> set ls. fact_calls g f k))
      else metric_sum is ls ms categories g k m)"

definition made_buckets ::
  "interaction_fact_row list \<Rightarrow> llm_call_fact_row list \<Rightarrow> mes_call_fact_row list
   \<Rightarrow> (pystr, pystr) dict \<Rightarrow> granularity \<Rightarrow> instant set" where
  "made_buckets is ls ms categories g =
     (\<Union>f \<in> set is. made g (if_occurred_at f) (interaction_incs f)) \<union>
     (\<Union>f \<in> set ls. made g (lf_occurred_at f) (llm_incs f)) \<union>
     (\<Union>f \<in> set ms. made g (mf_occurred_at f) (mes_incs categories f))"

lemma finish_bucket_value:
  assumes "bucket_wf b"
  shows "bucket_wf (finish_bucket a k b) \<and>
    map_of (finish_bucket a k b) m = (if m = u ''llm_logical_calls'' then Some (real (card (acc_calls a k)))
      else if m = u ''users'' then Some (real (card (acc_users a k))) else map_of b m)"
proof -
  have "u ''users'' \<in> set base_keys" "u ''llm_logical_calls'' \<in> set base_keys"
    by (simp_all add: base_key_defs)
  then show ?thesis
    using assms by (auto simp: finish_bucket_def bucket_wf_def dict_simps AList.dom_update)
qed

lemma compute_bucket_metrics_ok:
  assumes cats: "\<forall>f \<in> set ms. mes_category categories f \<in> set MES_CATEGORIES"
  shows "\<exists>bs. compute_bucket_metrics is ls ms categories g = Inr bs \<and> distinct (map fst bs) \<and>
    made_buckets is ls ms categories g \<subseteq> fst ` set bs \<and>
    (\<forall>k b. (k, b) \<in> set bs \<longrightarrow> bucket_wf b \<and>
       (\<forall>m \<in> set base_keys. map_of b m = Some (bucket_value is ls ms categories g k m))) \<and>
    (\<forall>k m. k \<notin> fst ` set bs \<longrightarrow> metric_sum is ls ms categories g k m = 0)"
proof -
  have wf0: "acc_wf empty_acc" by (simp add: acc_wf_def empty_acc_def)
  obtain a1 where a1: "rfold (add_interaction g) is empty_acc = Inr a1"
    "booked empty_acc a1 (\<lambda>k m. \<Sum>f\<leftarrow>is. share g (if_occurred_at f) (interaction_incs f) k m)
      (\<lambda>k. \<Union>f \<in> set is. fact_users g f k) (\<lambda>k. \<Union>f \<in> set is. {})
      (\<Union>f \<in> set is. made g (if_occurred_at f) (interaction_incs f))"
    using rfold_booked [of "is" "add_interaction g" "\<lambda>f. share g (if_occurred_at f) (interaction_incs f)"
        "fact_users g" "\<lambda>_ _. {}" "\<lambda>f. made g (if_occurred_at f) (interaction_incs f)",
        OF add_interaction_booked wf0] by blast
  then have wf1: "acc_wf a1" by (simp add: booked_def)
  obtain a2 where a2: "rfold (add_llm g) ls a1 = Inr a2"
    "booked a1 a2 (\<lambda>k m. \<Sum>f\<leftarrow>ls. share g (lf_occurred_at f) (llm_incs f) k m)
      (\<lambda>k. \<Union>f \<in> set ls. {}) (\<lambda>k. \<Union>f \<in> set ls. fact_calls g f k)
      (\<Union>f \<in> set ls. made g (lf_occurred_at f) (llm_incs f))"
    using rfold_booked [of ls "add_llm g" "\<lambda>f. share g (lf_occurred_at f) (llm_incs f)"
        "\<lambda>_ _. {}" "fact_calls g" "\<lambda>f. made g (lf_occurred_at f) (llm_incs f)",
        OF add_llm_booked wf1] by blast
  then have wf2: "acc_wf a2" by (simp add: booked_def)
  obtain a3 where a3: "rfold (add_mes categories g) ms a2 = Inr a3"
    "booked a2 a3 (\<lambda>k m. \<Sum>f\<leftarrow>ms. share g (mf_occurred_at f) (mes_incs categories f) k m)
      (\<lambda>k. \<Union>f \<in> set ms. {}) (\<lambda>k. \<Union>f \<in> set ms. {})
      (\<Union>f \<in> set ms. made g (mf_occurred_at f) (mes_incs categories f))"
    using rfold_booked [of ms "add_mes categories g"
        "\<lambda>f. share g (mf_occurred_at f) (mes_incs categories f)"
        "\<lambda>_ _. {}" "\<lambda>_ _. {}" "\<lambda>f. made g (mf_occurred_at f) (mes_incs categories f)",
        OF add_mes_booked wf2] cats by blast
  note all = booked_trans [OF booked_trans [OF a1(2) a2(2)] a3(2)]
  have wf3: "acc_wf a3" and mk: "made_buckets is ls ms categories g \<subseteq> fst ` set (acc_buckets a3)"
    and us: "acc_users a3 k = (\<Union>f \<in> set is. fact_users g f k)"
    and cs: "acc_calls a3 k = (\<Union>f \<in> set ls. fact_calls g f k)"
    and mt: "metric_at a3 k m = metric_at empty_acc k m + metric_sum is ls ms categories g k m" for k m
    using all unfolding booked_def made_buckets_def metric_sum_def by (simp_all add: empty_acc_def)
  have zero: "metric_at empty_acc k m = 0" for k m
    by (simp add: metric_at_def bucket_of_def empty_acc_def map_of_base_bucket)
  define bs where "bs = map (\<lambda>(k, b). (k, finish_bucket a3 k b)) (acc_buckets a3)"
  have run: "compute_bucket_metrics is ls ms categories g = Inr bs"
    unfolding compute_bucket_metrics_def a1(1) a2(1) a3(1) bs_def rbind.simps by simp
  have keys: "map fst bs = map fst (acc_buckets a3)" by (simp add: bs_def case_prod_unfold)
  have vals: "bucket_wf b \<and> (\<forall>m \<in> set base_keys. map_of b m = Some (bucket_value is ls ms categories g k m))"
    if "(k, b) \<in> set bs" for k b
  proof -
    obtain b0 where b0: "(k, b0) \<in> set (acc_buckets a3)" "b = finish_bucket a3 k b0"
      using \<open>(k, b) \<in> set bs\<close> by (auto simp: bs_def)
    have wfb: "bucket_wf b0" using acc_wf_bucket [OF wf3 b0(1)] .
    have "map_of (acc_buckets a3) k = Some b0" using wf3 b0(1) by (simp add: acc_wf_def)
    then have "map_of b0 m = Some (metric_sum is ls ms categories g k m)" if "m \<in> set base_keys" for m
      using mt [of k m] zero wfb that unfolding metric_at_def bucket_of_def bucket_wf_def
      by (cases "map_of b0 m") (auto simp: map_of_eq_None_iff)
    then show ?thesis
      using finish_bucket_value [OF wfb, of a3 k] us cs
      by (auto simp: b0(2) bucket_value_def)
  qed
  have none: "metric_sum is ls ms categories g k m = 0" if "k \<notin> fst ` set bs" for k m
  proof -
    have "map_of (acc_buckets a3) k = None"
      using that keys by (metis list.set_map map_of_eq_None_iff)
    then show ?thesis
      using mt [of k m] zero by (simp add: metric_at_def bucket_of_def map_of_base_bucket split: if_splits)
  qed
  have "distinct (map fst bs)" using keys wf3 by (simp add: acc_wf_def)
  moreover have "made_buckets is ls ms categories g \<subseteq> fst ` set bs"
    using mk keys by (metis list.set_map)
  ultimately show ?thesis using run vals none by blast
qed

section \<open>Properties of the buckets\<close>

lemma sum_list_count: "(\<Sum>x\<leftarrow>xs. if P x then (1::real) else 0) = real (length (filter P xs))"
  by (induction xs) auto

lemma sum_list_if_zero: "(\<And>x. x \<in> set xs \<Longrightarrow> f x = (0::real)) \<Longrightarrow> (\<Sum>x\<leftarrow>xs. f x) = 0"
  by (induction xs) auto

lemmas inc_eval = interaction_incs_def llm_incs_def mes_incs_def value_incs_def duration_fields_def
  token_fields_def u_def

lemma interaction_incs_questions:
  "inc_sum (interaction_incs f) (u ''questions'') =
     (if if_event_type f = u ''interaction_started'' then 1 else 0)"
  by (auto simp: inc_eval split: option.split)

lemma interaction_incs_valid:
  "inc_sum (interaction_incs f) (u ''valid_questions'') =
     (if if_event_type f = u ''interaction_routed'' \<and> if_capability_id f \<noteq> None then 1 else 0)"
  by (auto simp: inc_eval split: option.split)

lemma interaction_incs_mes: "inc_sum (interaction_incs f) (u ''mes_calls'' @ s) = 0"
  by (auto simp: inc_eval split: option.split)

lemma llm_incs_mes: "inc_sum (llm_incs f) (u ''mes_calls'' @ s) = 0"
  by (auto simp: inc_eval)

lemma llm_incs_questions: "inc_sum (llm_incs f) (u ''questions'') = 0" "inc_sum (llm_incs f) (u ''valid_questions'') = 0"
  by (auto simp: inc_eval)

lemma mes_incs_questions:
  "inc_sum (mes_incs c f) (u ''questions'') = 0" "inc_sum (mes_incs c f) (u ''valid_questions'') = 0"
  by (auto simp: inc_eval)

lemma mes_incs_mes:
  assumes "mes_category c f \<in> set MES_CATEGORIES"
  shows "inc_sum (mes_incs c f) (u ''mes_calls'') = 1"
    and "inc_sum (mes_incs c f) (u ''mes_calls.completed'') = (if mf_status f = u ''completed'' then 1 else 0)"
    and "inc_sum (mes_incs c f) (u ''mes_calls.failed'') = (if mf_status f = u ''completed'' then 0 else 1)"
    and "\<And>cat. cat \<in> set MES_CATEGORIES \<Longrightarrow>
      inc_sum (mes_incs c f) (u ''mes_calls.'' @ cat) = (if mes_category c f = cat then 1 else 0)"
  using assms by (auto simp: mes_incs_def MES_CATEGORIES_def u_def)

lemma mes_metric_prefix:
  "u ''mes_calls'' = u ''mes_calls'' @ u []" "u ''mes_calls.completed'' = u ''mes_calls'' @ u ''.completed''"
  "u ''mes_calls.failed'' = u ''mes_calls'' @ u ''.failed''"
  "u ''mes_calls.'' @ cat = u ''mes_calls'' @ (u ''.'' @ cat)"
  by (simp_all add: u_def)

lemma metric_sum_mes:
  "metric_sum is ls ms c g k (u ''mes_calls'' @ s) =
     (\<Sum>f\<leftarrow>ms. share g (mf_occurred_at f) (mes_incs c f) k (u ''mes_calls'' @ s))"
  by (simp add: metric_sum_def share_def interaction_incs_mes llm_incs_mes sum_list_if_zero)

text \<open>The number of calls in a bucket that satisfy a condition.\<close>

definition mes_count ::
  "granularity \<Rightarrow> mes_call_fact_row list \<Rightarrow> instant \<Rightarrow> (mes_call_fact_row \<Rightarrow> bool) \<Rightarrow> real" where
  "mes_count g ms k P = real (length (filter (\<lambda>f. bucket_key g (mf_occurred_at f) = k \<and> P f) ms))"

lemma mes_metric_count:
  assumes "\<And>f. f \<in> set ms \<Longrightarrow> inc_sum (mes_incs c f) (u ''mes_calls'' @ s) = (if P f then 1 else 0)"
  shows "metric_sum is ls ms c g k (u ''mes_calls'' @ s) = mes_count g ms k P"
proof -
  have "(\<Sum>f\<leftarrow>ms. share g (mf_occurred_at f) (mes_incs c f) k (u ''mes_calls'' @ s)) =
      (\<Sum>f\<leftarrow>ms. if bucket_key g (mf_occurred_at f) = k \<and> P f then 1 else 0)"
    by (rule arg_cong [where f = sum_list]) (simp add: assms share_def)
  then show ?thesis by (simp add: metric_sum_mes mes_count_def sum_list_count)
qed

lemma mes_metrics:
  assumes "\<forall>f \<in> set ms. mes_category c f \<in> set MES_CATEGORIES"
  shows "metric_sum is ls ms c g k (u ''mes_calls'') = mes_count g ms k (\<lambda>_. True)"
    and "metric_sum is ls ms c g k (u ''mes_calls.completed'') = mes_count g ms k (\<lambda>f. mf_status f = u ''completed'')"
    and "metric_sum is ls ms c g k (u ''mes_calls.failed'') = mes_count g ms k (\<lambda>f. mf_status f \<noteq> u ''completed'')"
    and "cat \<in> set MES_CATEGORIES \<Longrightarrow>
      metric_sum is ls ms c g k (u ''mes_calls.'' @ cat) = mes_count g ms k (\<lambda>f. mes_category c f = cat)"
  using mes_metric_count [of ms c "u []" "\<lambda>_. True" "is" ls g k]
    mes_metric_count [of ms c "u ''.completed''" "\<lambda>f. mf_status f = u ''completed''" "is" ls g k]
    mes_metric_count [of ms c "u ''.failed''" "\<lambda>f. mf_status f \<noteq> u ''completed''" "is" ls g k]
    mes_metric_count [of ms c "u ''.'' @ cat" "\<lambda>f. mes_category c f = cat" "is" ls g k]
  unfolding mes_metric_prefix [symmetric] using mes_incs_mes assms by auto

lemma mes_count_partition:
  assumes "\<forall>f \<in> set ms. mes_category c f \<in> set MES_CATEGORIES"
  shows "mes_count g ms k (\<lambda>f. mf_status f = u ''completed'') + mes_count g ms k (\<lambda>f. mf_status f \<noteq> u ''completed'')
      = mes_count g ms k (\<lambda>_. True)"
    and "(\<Sum>cat\<leftarrow>MES_CATEGORIES. mes_count g ms k (\<lambda>f. mes_category c f = cat)) = mes_count g ms k (\<lambda>_. True)"
  using assms
  by (induction ms) (auto simp: mes_count_def MES_CATEGORIES_def)

lemma question_metrics:
  "metric_sum is ls ms c g k (u ''questions'') = real (length (filter (\<lambda>f.
     bucket_key g (if_occurred_at f) = k \<and> if_event_type f = u ''interaction_started'') is))"
  "metric_sum is ls ms c g k (u ''valid_questions'') = real (length (filter (\<lambda>f.
     bucket_key g (if_occurred_at f) = k \<and> if_event_type f = u ''interaction_routed'' \<and>
     if_capability_id f \<noteq> None) is))"
proof -
  have "(\<Sum>f\<leftarrow>is. share g (if_occurred_at f) (interaction_incs f) k (u ''questions'')) =
      (\<Sum>f\<leftarrow>is. if bucket_key g (if_occurred_at f) = k \<and> if_event_type f = u ''interaction_started''
        then 1 else 0)"
    by (rule arg_cong [where f = sum_list]) (auto simp: share_def interaction_incs_questions)
  then show "metric_sum is ls ms c g k (u ''questions'') = real (length (filter (\<lambda>f.
     bucket_key g (if_occurred_at f) = k \<and> if_event_type f = u ''interaction_started'') is))"
    by (simp only: metric_sum_def sum_list_count)
      (simp add: share_def llm_incs_questions mes_incs_questions sum_list_if_zero)
  have "(\<Sum>f\<leftarrow>is. share g (if_occurred_at f) (interaction_incs f) k (u ''valid_questions'')) =
      (\<Sum>f\<leftarrow>is. if bucket_key g (if_occurred_at f) = k \<and> if_event_type f = u ''interaction_routed'' \<and>
        if_capability_id f \<noteq> None then 1 else 0)"
    by (rule arg_cong [where f = sum_list]) (auto simp: share_def interaction_incs_valid)
  then show "metric_sum is ls ms c g k (u ''valid_questions'') = real (length (filter (\<lambda>f.
     bucket_key g (if_occurred_at f) = k \<and> if_event_type f = u ''interaction_routed'' \<and>
     if_capability_id f \<noteq> None) is))"
    by (simp only: metric_sum_def sum_list_count)
      (simp add: share_def llm_incs_questions mes_incs_questions sum_list_if_zero)
qed

lemma base_key_values:
  "u ''mes_calls'' \<in> set base_keys" "u ''mes_calls.completed'' \<in> set base_keys"
  "u ''mes_calls.failed'' \<in> set base_keys" "u ''users'' \<in> set base_keys"
  "cat \<in> set MES_CATEGORIES \<Longrightarrow> u ''mes_calls.'' @ cat \<in> set base_keys"
  by (auto simp: base_key_defs)

lemma not_overwritten:
  "u ''mes_calls'' @ s \<noteq> u ''users''" "u ''mes_calls'' @ s \<noteq> u ''llm_logical_calls''"
  "u ''questions'' \<notin> {u ''users'', u ''llm_logical_calls''}"
  "u ''valid_questions'' \<notin> {u ''users'', u ''llm_logical_calls''}"
  by (simp_all add: u_def)

text \<open>
  Every bucket counts its facts exactly once: questions are the started interactions of
  the bucket and valid questions the routed ones with a capability, users are the distinct
  subjects; MES calls are the fact rows of the bucket, and both the status split and the category
  split add up to them.  (The operation categories are those of the reviewed table.)
\<close>

theorem rollup_bucket_exact:
  assumes "compute_bucket_metrics is ls ms c g = Inr bs" and "(k, b) \<in> set bs"
    and "\<forall>f \<in> set ms. mes_category c f \<in> set MES_CATEGORIES"
  shows "map_of b (u ''questions'') = Some (real (length (filter (\<lambda>f.
      bucket_key g (if_occurred_at f) = k \<and> if_event_type f = u ''interaction_started'') is))) \<and>
    map_of b (u ''valid_questions'') = Some (real (length (filter (\<lambda>f.
      bucket_key g (if_occurred_at f) = k \<and> if_event_type f = u ''interaction_routed'' \<and>
      if_capability_id f \<noteq> None) is))) \<and>
    map_of b (u ''users'') = Some (real (card {if_user_subject_id f |f. f \<in> set is \<and>
      bucket_key g (if_occurred_at f) = k \<and> if_user_subject_id f \<noteq> []})) \<and>
    map_of b (u ''mes_calls'') = Some (mes_count g ms k (\<lambda>_. True)) \<and>
    the (map_of b (u ''mes_calls.completed'')) + the (map_of b (u ''mes_calls.failed'')) =
      mes_count g ms k (\<lambda>_. True) \<and>
    (\<Sum>cat\<leftarrow>MES_CATEGORIES. the (map_of b (u ''mes_calls.'' @ cat))) = mes_count g ms k (\<lambda>_. True)"
proof -
  have val: "map_of b m = Some (bucket_value is ls ms c g k m)" if "m \<in> set base_keys" for m
    using compute_bucket_metrics_ok [OF assms(3), of "is" ls g] assms(1,2) that by auto
  have mes: "map_of b (u ''mes_calls'' @ s) = Some (metric_sum is ls ms c g k (u ''mes_calls'' @ s))"
    if "u ''mes_calls'' @ s \<in> set base_keys" for s
    using val [OF that] not_overwritten(1,2) [of s] by (simp add: bucket_value_def)
  have m1: "map_of b (u ''mes_calls'') = Some (mes_count g ms k (\<lambda>_. True))"
    using mes [of "u []"] base_key_values(1) mes_metrics(1) [OF assms(3), of "is" ls g k] by simp
  have m2: "map_of b (u ''mes_calls.completed'') = Some (mes_count g ms k (\<lambda>f. mf_status f = u ''completed''))"
    using mes [of "u ''.completed''"] base_key_values(2) mes_metrics(2) [OF assms(3), of "is" ls g k]
    unfolding mes_metric_prefix [symmetric] by simp
  have m3: "map_of b (u ''mes_calls.failed'') = Some (mes_count g ms k (\<lambda>f. mf_status f \<noteq> u ''completed''))"
    using mes [of "u ''.failed''"] base_key_values(3) mes_metrics(3) [OF assms(3), of "is" ls g k]
    unfolding mes_metric_prefix [symmetric] by simp
  have m4: "the (map_of b (u ''mes_calls.'' @ cat)) = mes_count g ms k (\<lambda>f. mes_category c f = cat)"
    if "cat \<in> set MES_CATEGORIES" for cat
    using mes [of "u ''.'' @ cat"] base_key_values(5) [OF that] mes_metrics(4) [OF assms(3) that, of "is" ls g k]
    unfolding mes_metric_prefix [symmetric] by simp
  have sum: "(\<Sum>cat\<leftarrow>MES_CATEGORIES. the (map_of b (u ''mes_calls.'' @ cat))) =
      (\<Sum>cat\<leftarrow>MES_CATEGORIES. mes_count g ms k (\<lambda>f. mes_category c f = cat))"
    by (rule arg_cong [where f = sum_list], rule map_cong [OF refl m4])
  have users: "(\<Union>f \<in> set is. fact_users g f k) = {if_user_subject_id f |f. f \<in> set is \<and>
      bucket_key g (if_occurred_at f) = k \<and> if_user_subject_id f \<noteq> []}"
    by (auto simp: fact_users_def split: if_splits)
  have q: "map_of b (u ''questions'') = Some (metric_sum is ls ms c g k (u ''questions''))"
    "map_of b (u ''valid_questions'') = Some (metric_sum is ls ms c g k (u ''valid_questions''))"
    using val base_key_members(1,2) not_overwritten(3,4) by (simp_all add: bucket_value_def)
  have us: "map_of b (u ''users'') = Some (real (card (\<Union>f \<in> set is. fact_users g f k)))"
    using val [OF base_key_values(4)] by (simp add: bucket_value_def)
  note part = mes_count_partition [OF assms(3), of g k]
  show ?thesis
    unfolding q us users question_metrics m1 m2 m3 sum option.sel part by (intro conjI refl)
qed

text \<open>The value of a metric in a computed rollup; an absent bucket counts nothing.\<close>

definition value_at :: "(instant, bucket) dict \<Rightarrow> instant \<Rightarrow> pystr \<Rightarrow> real" where
  "value_at bs k m = (case map_of bs k of None \<Rightarrow> 0 | Some b \<Rightarrow> the (map_of b m))"

lemma value_at_metric_sum:
  assumes "compute_bucket_metrics is ls ms c g = Inr bs"
    and "\<forall>f \<in> set ms. mes_category c f \<in> set MES_CATEGORIES"
    and "m \<in> set base_keys" and "m \<notin> {u ''users'', u ''llm_logical_calls''}"
  shows "value_at bs k m = metric_sum is ls ms c g k m"
proof (cases "map_of bs k")
  case None
  then have "k \<notin> fst ` set bs" by (simp add: map_of_eq_None_iff)
  then have "metric_sum is ls ms c g k m = 0"
    using compute_bucket_metrics_ok [OF assms(2), of "is" ls g] assms(1) by auto
  then show ?thesis using None by (simp add: value_at_def)
next
  case (Some b)
  then have "(k, b) \<in> set bs" by (rule map_of_SomeD)
  then have "map_of b m = Some (bucket_value is ls ms c g k m)"
    using compute_bucket_metrics_ok [OF assms(2), of "is" ls g] assms(1,3) by auto
  then show ?thesis using Some assms(4) by (simp add: value_at_def bucket_value_def)
qed

lemma hours_of_day:
  "(\<Sum>i<24. if hour_bucket t = d * us_day + int i * us_hour then x else (0::real)) =
     (if midnight t = d * us_day then x else 0)"
proof -
  define h where "h = t div us_hour"
  have us: "us_day = 24 * us_hour" by (simp add: us_day_def)
  have eq: "hour_bucket t = d * us_day + int i * us_hour \<longleftrightarrow> h = 24 * d + int i" for i
  proof -
    have "d * us_day + int i * us_hour = (24 * d + int i) * us_hour"
      by (simp add: us algebra_simps)
    moreover have "us_hour \<noteq> 0" by (simp add: us_defs)
    ultimately show ?thesis by (simp add: hour_bucket_def h_def)
  qed
  have "t div us_day = h div 24"
    by (simp add: h_def us zdiv_zmult2_eq mult.commute [of 24])
  then have day: "midnight t = d * us_day \<longleftrightarrow> h div 24 = d"
    by (simp add: midnight_def) (simp add: us_defs)
  show ?thesis
  proof (cases "h div 24 = d")
    case True
    define j where "j = nat (h mod 24)"
    have j: "j < 24" "h = 24 * d + int j"
      using True by (auto simp: j_def nat_less_iff)
    then have "(\<Sum>i<24. if h = 24 * d + int i then x else (0::real)) = (\<Sum>i<24. if i = j then x else 0)"
      by (intro sum.cong) auto
    then show ?thesis using j True by (simp add: eq day)
  next
    case False
    have "h \<noteq> 24 * d + int i" if "i < 24" for i :: nat
      using False that by auto
    then show ?thesis using False by (simp add: eq day)
  qed
qed

lemma share_day_hours:
  "share DAY t incs (d * us_day) m = (\<Sum>i<24. share HOUR t incs (d * us_day + int i * us_hour) m)"
  unfolding share_def bucket_key_def granularity.case hours_of_day ..

lemma sum_list_sum_swap: "(\<Sum>x\<leftarrow>xs. \<Sum>i<n. f x i) = (\<Sum>i<n. \<Sum>x\<leftarrow>xs. (f x i :: real))"
  by (induction xs) (simp_all add: sum.distrib)

text \<open>
  Hourly and daily rollups agree: for every additive metric the value of a day is the sum
  of its values over the 24 hours of that day (in UTC), hours without traffic counting zero.
\<close>

theorem daily_is_sum_of_hourly:
  assumes "compute_bucket_metrics is ls ms c HOUR = Inr hourly"
    and "compute_bucket_metrics is ls ms c DAY = Inr daily"
    and "\<forall>f \<in> set ms. mes_category c f \<in> set MES_CATEGORIES"
    and "m \<in> set base_keys" and "m \<notin> {u ''users'', u ''llm_logical_calls''}"
  shows "value_at daily (d * us_day) m = (\<Sum>i<24. value_at hourly (d * us_day + int i * us_hour) m)"
  unfolding value_at_metric_sum [OF assms(2,3,4,5)] value_at_metric_sum [OF assms(1,3,4,5)]
    metric_sum_def share_day_hours sum_list_sum_swap sum.distrib ..

section \<open>What the worker stores\<close>

definition table :: "granularity \<Rightarrow> rollup_store \<Rightarrow> rollup_table" where
  "table g st = (case g of HOUR \<Rightarrow> st_hourly st | DAY \<Rightarrow> st_daily st)"

definition row_key :: "rollup_row \<Rightarrow> pystr \<times> instant \<times> pystr" where
  "row_key r = (rw_tenant_id r,
     (case rw_granularity r of HOUR \<Rightarrow> rw_bucket_start r | DAY \<Rightarrow> midnight (rw_bucket_start r)), rw_metric r)"

definition row_val :: "rollup_row \<Rightarrow> real \<times> pystr \<times> instant" where
  "row_val r = (rw_value r, rw_rollup_version r, rw_rolled_up_at r)"

lemma table_upsert_row:
  "table g (upsert_row r st) =
     (if rw_granularity r = g then (table g st)(row_key r \<mapsto> row_val r) else table g st)"
  by (cases g; cases "rw_granularity r")
    (simp_all add: table_def upsert_row_def row_key_def row_val_def Let_def)

lemma table_upsert_rows:
  assumes "\<exists>r \<in> set rows. rw_granularity r = g \<and> row_key r = K"
    and "\<And>r. r \<in> set rows \<Longrightarrow> rw_granularity r = g \<Longrightarrow> row_key r = K \<Longrightarrow> row_val r = V"
  shows "table g (upsert_rollup_rows rows st) K = Some V"
  using assms
proof (induction rows rule: rev_induct)
  case (snoc r rows)
  show ?case
  proof (cases "rw_granularity r = g \<and> row_key r = K")
    case True
    then show ?thesis using snoc.prems(2) [of r] by (simp add: upsert_rollup_rows_def table_upsert_row)
  next
    case False
    have "table g (upsert_rollup_rows rows st) K = Some V"
      using snoc.prems False by (intro snoc.IH) auto
    then show ?thesis
      using False by (auto simp: upsert_rollup_rows_def table_upsert_row)
  qed
qed simp

lemma midnight_idem: "midnight (midnight t) = midnight t"
  by (simp add: midnight_def us_defs)

text \<open>The facts of one tenant in a window.\<close>

definition tenant_window ::
  "rollup_store \<Rightarrow> pystr \<Rightarrow> (instant \<Rightarrow> bool)
   \<Rightarrow> interaction_fact_row list \<times> llm_call_fact_row list \<times> mes_call_fact_row list" where
  "tenant_window st tenant W =
     (filter (\<lambda>f. if_tenant_id f = tenant \<and> W (if_occurred_at f)) (st_interactions st),
      filter (\<lambda>f. lf_tenant_id f = tenant \<and> W (lf_occurred_at f)) (st_llm_calls st),
      filter (\<lambda>f. mf_tenant_id f = tenant \<and> W (mf_occurred_at f)) (st_mes_calls st))"

definition window_value ::
  "rollup_store \<Rightarrow> pystr \<Rightarrow> (instant \<Rightarrow> bool) \<Rightarrow> granularity \<Rightarrow> instant \<Rightarrow> pystr \<Rightarrow> real" where
  "window_value st tenant W g k m = (case tenant_window st tenant W of (is, ls, ms) \<Rightarrow>
     bucket_value is ls ms (list_mes_categories st) g k m)"

definition window_buckets :: "rollup_store \<Rightarrow> pystr \<Rightarrow> (instant \<Rightarrow> bool) \<Rightarrow> granularity \<Rightarrow> instant set" where
  "window_buckets st tenant W g = (case tenant_window st tenant W of (is, ls, ms) \<Rightarrow>
     made_buckets is ls ms (list_mes_categories st) g)"

definition categories_reviewed :: "rollup_store \<Rightarrow> bool" where
  "categories_reviewed st \<longleftrightarrow>
     (\<forall>f \<in> set (st_mes_calls st). mes_category (list_mes_categories st) f \<in> set MES_CATEGORIES)"

lemma rows_of_members:
  "r \<in> set (rows_of tenant now g bs) \<longleftrightarrow> (\<exists>k b m v. (k, b) \<in> set bs \<and> (m, v) \<in> set b \<and>
     r = \<lparr>rw_tenant_id = tenant, rw_bucket_start = k, rw_metric = m, rw_value = v,
      rw_rollup_version = ROLLUP_VERSION, rw_rolled_up_at = now, rw_granularity = g\<rparr>)"
  unfolding rows_of_def by (force simp: image_iff)

lemma compute_bucket_keys:
  assumes "compute_bucket_metrics is ls ms c g = Inr bs" and "k \<in> made_buckets is ls ms c g"
  shows "\<exists>t. k = bucket_key g t"
  using assms(2) by (auto simp: made_buckets_def made_def split: if_splits)

abbreviation acc_keys :: "rollup_acc \<Rightarrow> instant set" where
  "acc_keys a \<equiv> fst ` set (acc_buckets a)"

lemma bump_keys: "bump k m v a = Inr a' \<Longrightarrow> acc_keys a' \<subseteq> insert k (acc_keys a)"
proof -
  assume "bump k m v a = Inr a'"
  then obtain b where "a' = a\<lparr>acc_buckets := AList.update k b (acc_buckets a)\<rparr>"
    by (auto simp: bump_def split: option.splits)
  then show ?thesis by (simp add: AList.dom_update)
qed

lemma bump_all_keys: "bump_all k incs a = Inr a' \<Longrightarrow> acc_keys a' \<subseteq> insert k (acc_keys a)"
proof (induction k incs a rule: bump_all.induct)
  case (2 k m v incs a)
  from "2.prems" obtain a1 where a1: "bump k m v a = Inr a1" "bump_all k incs a1 = Inr a'"
    by (auto simp: result_simps)
  show ?case using "2.IH" [OF a1] bump_keys [OF a1(1)] by blast
qed auto

lemma touch_keys: "acc_keys (touch k a) = insert k (acc_keys a)"
  by (simp add: touch_def AList.dom_update)

lemma add_keys:
  "add_interaction g f a = Inr a' \<Longrightarrow> acc_keys a' \<subseteq> range (bucket_key g) \<union> acc_keys a"
  "add_llm g f2 a = Inr a' \<Longrightarrow> acc_keys a' \<subseteq> range (bucket_key g) \<union> acc_keys a"
  "add_mes c g f3 a = Inr a' \<Longrightarrow> acc_keys a' \<subseteq> range (bucket_key g) \<union> acc_keys a"
proof -
  assume "add_mes c g f3 a = Inr a'"
  then show "acc_keys a' \<subseteq> range (bucket_key g) \<union> acc_keys a"
    unfolding add_mes_def by (auto dest: bump_all_keys)
next
  let ?k = "bucket_key g (lf_occurred_at f2)"
  assume "add_llm g f2 a = Inr a'"
  then obtain a1 where b: "bump ?k (u ''llm_physical_attempts'') 1 a = Inr a1"
    and r: "bump_all ?k (value_incs (token_fields f2)) (if lf_logical_call_id f2 \<noteq> []
        then a1\<lparr>acc_calls := (acc_calls a1)(?k := insert (lf_logical_call_id f2) (acc_calls a1 ?k))\<rparr>
        else a1) = Inr a'"
    unfolding add_llm_def Let_def result_simps by blast
  have "acc_keys a' \<subseteq> insert ?k (acc_keys a1)" using bump_all_keys [OF r] by (simp split: if_splits)
  then show "acc_keys a' \<subseteq> range (bucket_key g) \<union> acc_keys a" using bump_keys [OF b] by blast
next
  let ?k = "bucket_key g (if_occurred_at f)"
  assume "add_interaction g f a = Inr a'"
  then obtain a1 a3 where
    b1: "(if if_event_type f = u ''interaction_started'' then bump ?k (u ''questions'') 1 a
        else if if_event_type f = u ''interaction_routed'' \<and> if_capability_id f \<noteq> None
          then bump ?k (u ''valid_questions'') 1 a else Inr a) = Inr a1" and
    b3: "(case if_status f of
          None \<Rightarrow> Inr (if if_user_subject_id f \<noteq> []
        then a1\<lparr>acc_users := (acc_users a1)(?k := insert (if_user_subject_id f) (acc_users a1 ?k))\<rparr> else a1)
        | Some status \<Rightarrow> let a2 = (if if_user_subject_id f \<noteq> []
        then a1\<lparr>acc_users := (acc_users a1)(?k := insert (if_user_subject_id f) (acc_users a1 ?k))\<rparr> else a1) in
            if status = [] then Inr a2
            else if u ''status.'' @ status \<in> set (map fst (bucket_of a2 ?k))
              then bump ?k (u ''status.'' @ status) 1 (touch ?k a2)
            else Inr (touch ?k a2)) = Inr a3" and
    r: "bump_all ?k (value_incs (duration_fields f)) a3 = Inr a'"
    unfolding add_interaction_def Let_def result_simps by blast
  have k1: "acc_keys a1 \<subseteq> insert ?k (acc_keys a)"
    using b1 bump_keys by (simp split: if_splits) blast+
  define a2 where "a2 = (if if_user_subject_id f \<noteq> []
        then a1\<lparr>acc_users := (acc_users a1)(?k := insert (if_user_subject_id f) (acc_users a1 ?k))\<rparr> else a1)"
  have "acc_keys a2 = acc_keys a1" by (simp add: a2_def)
  then have k2: "acc_keys (touch ?k a2) \<subseteq> insert ?k (acc_keys a1)" "acc_keys a2 \<subseteq> insert ?k (acc_keys a1)"
    by (auto simp only: touch_keys)
  have "a3 = a2 \<or> a3 = touch ?k a2 \<or> (\<exists>m. bump ?k m 1 (touch ?k a2) = Inr a3)"
    using b3 unfolding a2_def [symmetric] Let_def
    by (simp only: sum.inject split: option.splits if_splits) blast+
  then have k3: "acc_keys a3 \<subseteq> insert ?k (acc_keys a1)"
  proof (elim disjE exE)
    fix m assume "bump ?k m 1 (touch ?k a2) = Inr a3"
    from order_trans [OF bump_keys [OF this] insert_mono [OF k2(1)]] show ?thesis by simp
  qed (use k2 in simp_all)
  show "acc_keys a' \<subseteq> range (bucket_key g) \<union> acc_keys a"
    using bump_all_keys [OF r] k3 k1 by blast
qed

lemma subset_Un_trans: "A \<subseteq> R \<union> B \<Longrightarrow> B \<subseteq> R \<union> C \<Longrightarrow> A \<subseteq> R \<union> C"
  by blast

lemma rfold_keys:
  assumes "\<And>f a a'. h f a = Inr a' \<Longrightarrow> acc_keys a' \<subseteq> R \<union> acc_keys a"
  shows "rfold h fs a = Inr a' \<Longrightarrow> acc_keys a' \<subseteq> R \<union> acc_keys a"
proof (induction fs arbitrary: a)
  case (Cons f fs)
  from Cons.prems obtain a1 where "h f a = Inr a1" "rfold h fs a1 = Inr a'" by (auto simp: result_simps)
  then show ?case using Cons.IH assms by blast
qed simp

lemma compute_bucket_range:
  assumes "compute_bucket_metrics is ls ms c g = Inr bs"
  shows "fst ` set bs \<subseteq> range (bucket_key g)"
proof -
  obtain a1 a2 a3 where a: "rfold (add_interaction g) is empty_acc = Inr a1" "rfold (add_llm g) ls a1 = Inr a2"
    "rfold (add_mes c g) ms a2 = Inr a3" "bs = map (\<lambda>(k, b). (k, finish_bucket a3 k b)) (acc_buckets a3)"
    using assms unfolding compute_bucket_metrics_def result_simps by auto
  have "acc_keys a1 \<subseteq> range (bucket_key g) \<union> acc_keys empty_acc"
    "acc_keys a2 \<subseteq> range (bucket_key g) \<union> acc_keys a1" "acc_keys a3 \<subseteq> range (bucket_key g) \<union> acc_keys a2"
    by (rule rfold_keys [OF _ a(1)], erule add_keys(1), rule rfold_keys [OF _ a(2)], erule add_keys(2),
        rule rfold_keys [OF _ a(3)], erule add_keys(3))
  then have "acc_keys a3 \<subseteq> range (bucket_key g) \<union> acc_keys empty_acc"
    using subset_Un_trans by metis
  moreover have "fst ` set bs = acc_keys a3" by (force simp: a(4))
  ultimately show ?thesis by (simp add: empty_acc_def)
qed

text \<open>The rows of one tenant hold the values of its window.\<close>

lemma tenant_rollup_rows:
  assumes facts: "tenant_rollup facts c now tenant = Inr (rows, hs, ds)"
    and split: "facts = (is, ls, ms)"
    and loc: "ti = filter (\<lambda>f. if_tenant_id f = tenant) is" "tl' = filter (\<lambda>f. lf_tenant_id f = tenant) ls"
      "tm = filter (\<lambda>f. mf_tenant_id f = tenant) ms"
    and cats: "\<forall>f \<in> set tm. mes_category c f \<in> set MES_CATEGORIES"
    and k: "k \<in> made_buckets ti tl' tm c g" and m: "m \<in> set base_keys"
  shows "(\<exists>r \<in> set rows. rw_granularity r = g \<and> row_key r = (tenant, k, m)) \<and>
    (\<forall>r \<in> set rows. rw_granularity r = g \<and> row_key r = (tenant, k, m) \<longrightarrow>
       row_val r = (bucket_value ti tl' tm c g k m, ROLLUP_VERSION, now)) \<and>
    (\<forall>r \<in> set rows. rw_tenant_id r = tenant)"
proof -
  obtain hourly daily where h: "compute_bucket_metrics ti tl' tm c HOUR = Inr hourly"
    and d: "compute_bucket_metrics ti tl' tm c DAY = Inr daily"
    and rows: "rows = rows_of tenant now HOUR hourly @ rows_of tenant now DAY daily"
    using facts unfolding tenant_rollup_def split Let_def by (auto simp: result_simps loc)
  define bs where "bs = (case g of HOUR \<Rightarrow> hourly | DAY \<Rightarrow> daily)"
  have bs: "compute_bucket_metrics ti tl' tm c g = Inr bs" using h d by (cases g) (simp_all add: bs_def)
  have grows: "r \<in> set rows \<and> rw_granularity r = g \<longleftrightarrow> r \<in> set (rows_of tenant now g bs)" for r
    unfolding rows by (cases g) (auto simp: bs_def rows_of_members)
  have ok: "made_buckets ti tl' tm c g \<subseteq> fst ` set bs"
    "\<And>k b. (k, b) \<in> set bs \<Longrightarrow> bucket_wf b \<and>
       (\<forall>m \<in> set base_keys. map_of b m = Some (bucket_value ti tl' tm c g k m))"
    using compute_bucket_metrics_ok [OF cats, of ti tl' g] bs by auto
  obtain b where b: "(k, b) \<in> set bs" using ok(1) k by force
  then have "map_of b m = Some (bucket_value ti tl' tm c g k m)" using ok(2) m by blast
  then have mv: "(m, bucket_value ti tl' tm c g k m) \<in> set b" by (rule map_of_SomeD)
  obtain t where t: "k = bucket_key g t" using compute_bucket_keys [OF bs k] by blast
  let ?r = "\<lparr>rw_tenant_id = tenant, rw_bucket_start = k, rw_metric = m,
    rw_value = bucket_value ti tl' tm c g k m, rw_rollup_version = ROLLUP_VERSION,
    rw_rolled_up_at = now, rw_granularity = g\<rparr>"
  have "?r \<in> set (rows_of tenant now g bs)" using b mv by (auto simp: rows_of_members)
  then have "?r \<in> set rows" using grows [of ?r] by simp
  moreover have "row_key ?r = (tenant, k, m)" 
    by (cases g) (simp_all add: row_key_def t bucket_key_def midnight_idem)
  ultimately have "\<exists>r \<in> set rows. rw_granularity r = g \<and> row_key r = (tenant, k, m)" by force
  moreover have "row_val r = (bucket_value ti tl' tm c g k m, ROLLUP_VERSION, now)"
    if r: "r \<in> set rows" "rw_granularity r = g" "row_key r = (tenant, k, m)" for r
  proof -
    obtain k' b' m' v where mem: "(k', b') \<in> set bs" "(m', v) \<in> set b'" "rw_value r = v"
      "rw_rollup_version r = ROLLUP_VERSION" "rw_rolled_up_at r = now" "rw_bucket_start r = k'" "rw_metric r = m'"
    proof -
      have "r \<in> set (rows_of tenant now g bs)" using r grows [of r] by simp
      then show thesis using that unfolding rows_of_members by force
    qed
    obtain t' where "k' = bucket_key g t'"
      using compute_bucket_range [OF bs] mem(1) by force
    then have "k' = k" "m' = m"
      using r(2,3) mem(6,7)
      by (auto simp: row_key_def bucket_key_def midnight_idem split: granularity.splits)
    then have "(k, b') \<in> set bs" "(m, v) \<in> set b'" using mem by simp_all
    moreover have "v = bucket_value ti tl' tm c g k m"
      using ok(2) [OF \<open>(k, b') \<in> set bs\<close>] \<open>(m, v) \<in> set b'\<close> m by (auto simp: bucket_wf_def)
    ultimately show ?thesis using mem by (simp add: row_val_def)
  qed
  moreover have "\<forall>r \<in> set rows. rw_tenant_id r = tenant"
    unfolding rows by (auto simp: rows_of_members)
  ultimately show ?thesis by blast
qed

lemma rollup_range_writes:
  assumes run: "rollup_range tenants start end' now st = Inr (run, st')" and lt: "start < end'"
    and tenant: "tenant \<in> set tenants" and cats: "categories_reviewed st"
    and k: "k \<in> window_buckets st tenant (in_window start end') g" and m: "m \<in> set base_keys"
  shows "table g st' (tenant, k, m) =
    Some (window_value st tenant (in_window start end') g k m, ROLLUP_VERSION, now)"
proof -
  let ?facts = "list_facts st tenants start end'" and ?c = "list_mes_categories st"
  have "tenants \<noteq> []" using tenant by auto
  then obtain parts where parts: "rmap (tenant_rollup ?facts ?c now) tenants = Inr parts"
    and st': "st' = upsert_rollup_rows (concat (map fst parts)) st"
    using run lt by (auto simp: rollup_range_def result_simps)
  obtain ti tl' tm where tw: "tenant_window st tenant (in_window start end') = (ti, tl', tm)"
    by (metis prod_cases3)
  have loc: "ti = filter (\<lambda>f. if_tenant_id f = tenant) (fst ?facts)"
    "tl' = filter (\<lambda>f. lf_tenant_id f = tenant) (fst (snd ?facts))"
    "tm = filter (\<lambda>f. mf_tenant_id f = tenant) (snd (snd ?facts))"
    using tw tenant by (auto simp: tenant_window_def list_facts_def intro: filter_cong)
  have cm: "\<forall>f \<in> set tm. mes_category ?c f \<in> set MES_CATEGORIES"
    using tw cats by (auto simp: tenant_window_def categories_reviewed_def)
  have km: "k \<in> made_buckets ti tl' tm ?c g" using k tw by (simp add: window_buckets_def)
  have part: "(\<exists>r \<in> set rows. rw_granularity r = g \<and> row_key r = (tenant, k, m)) \<and>
      (\<forall>r \<in> set rows. rw_granularity r = g \<and> row_key r = (tenant, k, m) \<longrightarrow>
         row_val r = (bucket_value ti tl' tm ?c g k m, ROLLUP_VERSION, now))"
    if "tenant_rollup ?facts ?c now tenant = Inr (rows, hs, ds)" for rows hs ds
    using tenant_rollup_rows [OF that _ loc cm km m] by simp
  have all2: "list_all2 (\<lambda>t p. tenant_rollup ?facts ?c now t = Inr p) tenants parts"
    using parts by (simp add: rmap_Inr)
  have mem: "\<exists>t \<in> set tenants. tenant_rollup ?facts ?c now t = Inr p" if "p \<in> set parts" for p
    using list_all2_member(1) [OF all2 that] .
  have ex: "\<exists>p \<in> set parts. tenant_rollup ?facts ?c now tenant = Inr p"
    using list_all2_member(2) [OF all2 tenant] .
  have owner: "rw_tenant_id r = t" if "tenant_rollup ?facts ?c now t = Inr (rows, hs, ds)" "r \<in> set rows" for t rows hs ds r
    using that by (auto simp: tenant_rollup_def Let_def result_simps rows_of_members split: prod.splits)
  have "table g (upsert_rollup_rows (concat (map fst parts)) st) (tenant, k, m) =
      Some (bucket_value ti tl' tm ?c g k m, ROLLUP_VERSION, now)"
  proof (rule table_upsert_rows)
    obtain rows hs ds where p: "(rows, hs, ds) \<in> set parts" "tenant_rollup ?facts ?c now tenant = Inr (rows, hs, ds)"
      using ex by (metis prod_cases3)
    show "\<exists>r \<in> set (concat (map fst parts)). rw_granularity r = g \<and> row_key r = (tenant, k, m)"
      using part [OF p(2)] p(1) by force
  next
    fix r assume r: "r \<in> set (concat (map fst parts))" "rw_granularity r = g" "row_key r = (tenant, k, m)"
    then obtain rows hs ds where p: "(rows, hs, ds) \<in> set parts" "r \<in> set rows" by auto
    then obtain t where t: "tenant_rollup ?facts ?c now t = Inr (rows, hs, ds)" using mem by blast
    have "t = tenant" using owner [OF t p(2)] r(3) by (simp add: row_key_def)
    then show "row_val r = (bucket_value ti tl' tm ?c g k m, ROLLUP_VERSION, now)"
      using part [of rows hs ds] t p(2) r(2,3) by blast
  qed
  then show ?thesis by (simp add: st' window_value_def tw)
qed

definition bucket_length :: "granularity \<Rightarrow> int" where
  "bucket_length g = (case g of HOUR \<Rightarrow> us_hour | DAY \<Rightarrow> us_day)"

lemma bucket_key_bounds: "bucket_key g t \<le> t \<and> t < bucket_key g t + bucket_length g"
proof -
  have "t div d * d \<le> t \<and> t < t div d * d + d" if "0 < d" for d :: int
    using that pos_mod_bound [of d t] pos_mod_sign [of d t] div_mult_mod_eq [of t d] by linarith
  then show ?thesis
    by (cases g) (simp_all add: bucket_key_def hour_bucket_def midnight_def bucket_length_def)
qed

lemma sum_list_filter_cond:
  "(\<And>x. x \<in> set xs \<Longrightarrow> \<not> P x \<Longrightarrow> f x = (0::real)) \<Longrightarrow> (\<Sum>x\<leftarrow>filter P xs. f x) = (\<Sum>x\<leftarrow>xs. f x)"
  by (induction xs) auto

text \<open>In a bucket that a window covers, the window loses nothing.\<close>

lemma window_value_covers:
  assumes "\<And>t. bucket_key g t = k \<Longrightarrow> W t"
  shows "window_value st tenant W g k m = window_value st tenant (\<lambda>_. True) g k m"
    and "k \<in> window_buckets st tenant W g \<longleftrightarrow> k \<in> window_buckets st tenant (\<lambda>_. True) g"
proof -
  let ?c = "list_mes_categories st"
  have share: "share g t incs k m' = 0" if "\<not> W t" for t incs m'
    using assms that by (auto simp: share_def)
  have made: "k \<in> made g t incs \<Longrightarrow> W t" for t incs
    using assms by (auto simp: made_def split: if_splits)
  have sums: "(\<Sum>f\<leftarrow>filter (\<lambda>f. ten f = tenant \<and> W (at' f)) xs. share g (at' f) (inc f) k m') =
      (\<Sum>f\<leftarrow>filter (\<lambda>f. ten f = tenant) xs. share g (at' f) (inc f) k m')"
    for ten :: "'f \<Rightarrow> pystr" and at' inc m' and xs :: "'f list"
  proof -
    have "filter (\<lambda>f. ten f = tenant \<and> W (at' f)) xs = filter (\<lambda>f. W (at' f)) (filter (\<lambda>f. ten f = tenant) xs)"
      by (simp add: conj_commute)
    then show ?thesis using share by (simp only:) (rule sum_list_filter_cond, blast)
  qed
  have users: "(\<Union>f \<in> set (filter (\<lambda>f. if_tenant_id f = tenant \<and> W (if_occurred_at f)) xs). fact_users g f k) =
      (\<Union>f \<in> set (filter (\<lambda>f. if_tenant_id f = tenant) xs). fact_users g f k)" for xs
    using assms by (auto simp: fact_users_def split: if_splits)
  have calls: "(\<Union>f \<in> set (filter (\<lambda>f. lf_tenant_id f = tenant \<and> W (lf_occurred_at f)) xs). fact_calls g f k) =
      (\<Union>f \<in> set (filter (\<lambda>f. lf_tenant_id f = tenant) xs). fact_calls g f k)" for xs
    using assms by (auto simp: fact_calls_def split: if_splits)
  show "window_value st tenant W g k m = window_value st tenant (\<lambda>_. True) g k m"
    unfolding window_value_def tenant_window_def prod.case bucket_value_def metric_sum_def users calls sums
    by simp
  show "k \<in> window_buckets st tenant W g \<longleftrightarrow> k \<in> window_buckets st tenant (\<lambda>_. True) g"
    unfolding window_buckets_def tenant_window_def prod.case made_buckets_def
    by (simp only: Un_iff UN_iff set_filter mem_Collect_eq) (blast dest: made)
qed

text \<open>
  \<^bold>\<open>C22\<close>.  The sweep is right on the buckets it covers: after a run of the worker, every hour and
  day bucket that lies inside the window and has traffic holds, for every metric, the value over
  all facts of the tenant in the store, whatever earlier runs had stored.  Replaying the sweep
  therefore repairs those buckets.
\<close>

theorem rollup_covered_bucket_exact:
  assumes "run_once configured window_hours now st = Inr (run, st')"
    and "tenant \<in> set (run_tenant_ids run)" and "categories_reviewed st"
    and "now - window_hours * us_hour \<le> k" and "k + bucket_length g \<le> now"
    and "k \<in> window_buckets st tenant (\<lambda>_. True) g" and "m \<in> set base_keys"
  shows "table g st' (tenant, k, m) =
    Some (window_value st tenant (\<lambda>_. True) g k m, ROLLUP_VERSION, now)"
proof -
  let ?start = "now - window_hours * us_hour"
  have covers: "in_window ?start now t" if "bucket_key g t = k" for t
    using bucket_key_bounds [of g t] that assms(4,5) by (auto simp: in_window_def)
  obtain tenants where run: "rollup_range tenants ?start now now st = Inr (run, st')"
    using assms(1) by (auto simp: run_once_def Let_def)
  have "0 < bucket_length g" by (cases g) (simp_all add: bucket_length_def)
  then have lt: "?start < now" using assms(4,5) by linarith
  have "run_tenant_ids run = tenants"
    using run lt by (auto simp: rollup_range_def result_simps split: if_splits)
  then have t: "tenant \<in> set tenants" using assms(2) by simp
  have "k \<in> window_buckets st tenant (in_window ?start now) g"
    using window_value_covers(2) [of g k "in_window ?start now" st tenant, OF covers] assms(6) by blast
  from rollup_range_writes [OF run lt t assms(3) this assms(7)] show ?thesis
    using window_value_covers(1) [of g k "in_window ?start now" st tenant m, OF covers] by simp
qed

text \<open>With reviewed categories the sweep does not raise.\<close>

lemma compute_bucket_metrics_total:
  "\<forall>f \<in> set ms. mes_category c f \<in> set MES_CATEGORIES \<Longrightarrow>
   \<exists>bs. compute_bucket_metrics is ls ms c g = Inr bs"
  using compute_bucket_metrics_ok [of ms c "is" ls g] by blast

lemma tenant_rollup_total:
  assumes "\<forall>f \<in> set (snd (snd facts)). mes_category c f \<in> set MES_CATEGORIES"
  shows "\<exists>p. tenant_rollup facts c now tenant = Inr p"
proof -
  obtain "is" ls ms where f: "facts = (is, ls, ms)" by (metis prod_cases3)
  let ?i = "filter (\<lambda>f. if_tenant_id f = tenant) is" and ?l = "filter (\<lambda>f. lf_tenant_id f = tenant) ls"
    and ?m = "filter (\<lambda>f. mf_tenant_id f = tenant) ms"
  have cats: "\<forall>f \<in> set ?m. mes_category c f \<in> set MES_CATEGORIES" using assms f by simp
  obtain h d where "compute_bucket_metrics ?i ?l ?m c HOUR = Inr h" "compute_bucket_metrics ?i ?l ?m c DAY = Inr d"
    using compute_bucket_metrics_total [OF cats, of ?i ?l HOUR]
      compute_bucket_metrics_total [OF cats, of ?i ?l DAY] by blast
  then show ?thesis by (simp add: tenant_rollup_def f Let_def)
qed

lemma run_once_total:
  assumes "categories_reviewed st" and "configured \<noteq> []"
  shows "\<exists>run st'. run_once configured window_hours now st = Inr (run, st') \<and> run_tenant_ids run = configured"
proof -
  let ?start = "now - window_hours * us_hour"
  have "\<exists>p. tenant_rollup (list_facts st configured ?start now) (list_mes_categories st) now t = Inr p" for t
    using assms(1) by (intro tenant_rollup_total) (simp add: list_facts_def categories_reviewed_def)
  then obtain parts where
    "rmap (tenant_rollup (list_facts st configured ?start now) (list_mes_categories st) now) configured = Inr parts"
    using rmap_total [of configured "tenant_rollup (list_facts st configured ?start now)
        (list_mes_categories st) now"] by blast
  then show ?thesis
    using assms(2) by (cases "?start \<ge> now") (simp_all add: run_once_def rollup_range_def)
qed

definition demo_fact :: "instant \<Rightarrow> string \<Rightarrow> interaction_fact_row" where
  "demo_fact t user = \<lparr>if_tenant_id = u ''fac'', if_occurred_at = t,
     if_event_type = u ''interaction_started'', if_user_subject_id = u user, if_capability_id = None,
     if_status = None, if_duration_ms = Some 5, if_mes_duration_ms = None, if_llm_duration_ms = None,
     if_local_duration_ms = None\<rparr>"

text \<open>Two questions of one day, ten minutes after midnight and ten minutes before the next.\<close>

definition demo_facts :: "interaction_fact_row list" where
  "demo_facts = [demo_fact (600 * us_second) ''a'', demo_fact (us_day - 600 * us_second) ''b'']"

definition demo_store :: rollup_store where
  "demo_store = \<lparr>st_interactions = demo_facts, st_llm_calls = [], st_mes_calls = [],
     st_categories = [], st_hourly = Map.empty, st_daily = Map.empty\<rparr>"

lemma demo_made: "0 \<in> made_buckets demo_facts [] [] c DAY"
  by (simp add: made_buckets_def made_def demo_facts_def demo_fact_def interaction_incs_def
      bucket_key_def midnight_def us_defs)

theorem rollup_bucket_exact_witness:
  "\<exists>bs b. compute_bucket_metrics demo_facts [] [] [] DAY = Inr bs \<and> (0, b) \<in> set bs \<and>
     map_of b (u ''questions'') = Some 2"
proof -
  obtain bs where bs: "compute_bucket_metrics demo_facts [] [] [] DAY = Inr bs"
    "made_buckets demo_facts [] [] [] DAY \<subseteq> fst ` set bs"
    using compute_bucket_metrics_ok [of "[]" "[]" demo_facts "[]" DAY] by auto
  then obtain b where b: "(0, b) \<in> set bs" using demo_made by force
  have "map_of b (u ''questions'') = Some 2"
    using rollup_bucket_exact [OF bs(1) b]
    by (simp add: demo_facts_def demo_fact_def bucket_key_def midnight_def us_defs)
  then show ?thesis using bs(1) b by blast
qed

theorem daily_is_sum_of_hourly_witness:
  "\<exists>hourly daily. compute_bucket_metrics demo_facts [] [] [] HOUR = Inr hourly \<and>
     compute_bucket_metrics demo_facts [] [] [] DAY = Inr daily \<and>
     value_at daily (0 * us_day) (u ''questions'') =
       (\<Sum>i<24. value_at hourly (0 * us_day + int i * us_hour) (u ''questions''))"
proof -
  obtain hourly daily where "compute_bucket_metrics demo_facts [] [] [] HOUR = Inr hourly"
    "compute_bucket_metrics demo_facts [] [] [] DAY = Inr daily"
    using compute_bucket_metrics_total [of "[]" "[]" demo_facts "[]" HOUR]
      compute_bucket_metrics_total [of "[]" "[]" demo_facts "[]" DAY] by auto
  then show ?thesis
    using daily_is_sum_of_hourly [of demo_facts "[]" "[]" "[]" hourly daily "u ''questions''" 0]
      base_key_members(1) not_overwritten(3) by auto
qed

lemma demo_value:
  "window_value demo_store (u ''fac'') W DAY 0 (u ''questions'') =
     real (length (filter (\<lambda>f. W (if_occurred_at f)) demo_facts))"
  using not_overwritten(3)
  by (simp add: window_value_def tenant_window_def demo_store_def bucket_value_def question_metrics
      demo_facts_def demo_fact_def bucket_key_def midnight_def us_defs)

lemma demo_categories: "categories_reviewed demo_store"
  by (simp add: categories_reviewed_def demo_store_def)

lemma demo_window_bucket:
  "W (us_day - 600 * us_second) \<Longrightarrow> 0 \<in> window_buckets demo_store (u ''fac'') W DAY"
  by (simp add: window_buckets_def tenant_window_def demo_store_def made_buckets_def made_def
      demo_facts_def demo_fact_def interaction_incs_def bucket_key_def midnight_def us_defs)

theorem rollup_covered_bucket_exact_witness:
  "\<exists>run st'. run_once [u ''fac''] 24 us_day demo_store = Inr (run, st') \<and>
     st_daily st' (u ''fac'', 0, u ''questions'') = Some (2, ROLLUP_VERSION, us_day)"
proof -
  obtain run st' where run: "run_once [u ''fac''] 24 us_day demo_store = Inr (run, st')"
    "run_tenant_ids run = [u ''fac'']"
    using run_once_total [OF demo_categories, of "[u ''fac'']"] by blast
  have "table DAY st' (u ''fac'', 0, u ''questions'') =
      Some (window_value demo_store (u ''fac'') (\<lambda>_. True) DAY 0 (u ''questions''), ROLLUP_VERSION, us_day)"
    using rollup_covered_bucket_exact [OF run(1), of "u ''fac''" 0 DAY "u ''questions''"] run(2)
      demo_categories demo_window_bucket base_key_members(1)
    by (simp add: bucket_length_def us_day_def)
  then show ?thesis using run by (simp add: table_def demo_value demo_facts_def)
qed

text \<open>
  The window does not start at a bucket boundary: half an hour after midnight the same sweep sees
  only the second question of the day before, and the upsert replaces the correct total by 1.
\<close>

lemma rollup_boundary_bucket_truncated:
  "\<exists>run st'. run_once [u ''fac''] 24 (us_day + 1800 * us_second) demo_store = Inr (run, st') \<and>
     st_daily st' (u ''fac'', 0, u ''questions'') = Some (1, ROLLUP_VERSION, us_day + 1800 * us_second) \<and>
     window_value demo_store (u ''fac'') (\<lambda>_. True) DAY 0 (u ''questions'') = 2"
proof -
  let ?now = "us_day + 1800 * us_second"
  let ?start = "?now - 24 * us_hour"
  obtain run st' where run: "run_once [u ''fac''] 24 ?now demo_store = Inr (run, st')"
    using run_once_total [OF demo_categories, of "[u ''fac'']"] by blast
  then have range: "rollup_range [u ''fac''] ?start ?now ?now demo_store = Inr (run, st')"
    by (simp add: run_once_def)
  have "table DAY st' (u ''fac'', 0, u ''questions'') =
      Some (window_value demo_store (u ''fac'') (in_window ?start ?now) DAY 0 (u ''questions''), ROLLUP_VERSION, ?now)"
    by (rule rollup_range_writes [OF range])
      (auto simp: demo_categories base_key_members in_window_def us_defs intro!: demo_window_bucket)
  then have "st_daily st' (u ''fac'', 0, u ''questions'') = Some (1, ROLLUP_VERSION, ?now)"
    by (simp add: table_def demo_value demo_facts_def demo_fact_def in_window_def us_defs)
  then show ?thesis using run by (simp add: demo_value demo_facts_def)
qed

end
