(* ===== verification/Tables.thy ===== *)
theory Tables
  imports Prelude
begin

text \<open>
  Relational tables, as the SQL statements of \<^verbatim>\<open>persistence/\<close> use them.  A table is the list
  of its rows in an arbitrary physical order; a unique constraint is a key function on rows, and
  \<open>keyed\<close> says that the table satisfies it.

  \<^item> \<open>insert_ignore\<close> is \<^verbatim>\<open>INSERT ... ON CONFLICT DO NOTHING\<close>;
  \<^item> \<open>upsert\<close> is \<^verbatim>\<open>INSERT ... ON CONFLICT DO UPDATE\<close> of every other column;
  \<^item> \<open>update_where\<close> is \<^verbatim>\<open>UPDATE ... WHERE ... RETURNING *\<close>, with the rows it returns;
  \<^item> \<open>find_row\<close> is a \<^verbatim>\<open>SELECT\<close> by key.

  The collection \<open>table_simps\<close> describes every statement through \<open>find_row\<close> and
  \<open>keyed\<close>, so that the stores above never reason about physical order.
\<close>

named_theorems table_simps \<open>lookups and keys after a statement\<close>

definition keyed :: "('r \<Rightarrow> 'k) \<Rightarrow> 'r list \<Rightarrow> bool" where
  "keyed key rows = distinct (map key rows)"

definition find_row :: "('r \<Rightarrow> 'k) \<Rightarrow> 'k \<Rightarrow> 'r list \<Rightarrow> 'r option" where
  "find_row key k rows = find (\<lambda>r. key r = k) rows"

definition insert_ignore :: "('r \<Rightarrow> 'k) \<Rightarrow> 'r \<Rightarrow> 'r list \<Rightarrow> 'r list" where
  "insert_ignore key r rows = (if key r \<in> key ` set rows then rows else rows @ [r])"

definition upsert :: "('r \<Rightarrow> 'k) \<Rightarrow> 'r \<Rightarrow> 'r list \<Rightarrow> 'r list" where
  "upsert key r rows = (if key r \<in> key ` set rows
     then map (\<lambda>x. if key x = key r then r else x) rows else rows @ [r])"

definition update_where :: "('r \<Rightarrow> bool) \<Rightarrow> ('r \<Rightarrow> 'r) \<Rightarrow> 'r list \<Rightarrow> 'r list \<times> 'r list" where
  "update_where P f rows = (map (\<lambda>r. if P r then f r else r) rows, map f (filter P rows))"

section \<open>Lookups\<close>

lemma find_row_Some: "find_row key k rows = Some r \<Longrightarrow> r \<in> set rows \<and> key r = k"
  by (auto simp: find_row_def find_Some_iff)

lemma find_row_None: "find_row key k rows = None \<longleftrightarrow> k \<notin> key ` set rows"
  by (auto simp: find_row_def find_None_iff)

lemma find_row_keyed:
  assumes "keyed key rows"
  shows "find_row key k rows = Some r \<longleftrightarrow> r \<in> set rows \<and> key r = k"
proof -
  have inj: "inj_on key (set rows)"
    using assms by (simp add: keyed_def distinct_map)
  have "find_row key (key r) rows = Some r" if "r \<in> set rows"
  proof -
    have "key r \<in> key ` set rows" using that by simp
    then obtain s where s: "find_row key (key r) rows = Some s"
      using find_row_None [of key "key r" rows] by (cases "find_row key (key r) rows") auto
    then show ?thesis using find_row_Some [OF s] that inj by (auto dest: inj_onD)
  qed
  then show ?thesis using find_row_Some [of key k rows r] by blast
qed

lemma find_row_append [table_simps]:
  "find_row key k (rows @ [r]) = (case find_row key k rows of
     None \<Rightarrow> if key r = k then Some r else None | Some s \<Rightarrow> Some s)"
  unfolding find_row_def by (induction rows) auto

lemma find_row_map [table_simps]:
  assumes "\<And>r. r \<in> set rows \<Longrightarrow> key (f r) = key r"
  shows "find_row key k (map f rows) = map_option f (find_row key k rows)"
  using assms unfolding find_row_def by (induction rows) auto

lemma find_row_insert_ignore [table_simps]:
  "find_row key k (insert_ignore key r rows) =
     (if k = key r \<and> k \<notin> key ` set rows then Some r else find_row key k rows)"
  using find_row_None [of key k rows]
  by (cases "find_row key k rows") (auto simp: insert_ignore_def find_row_append)

lemma find_row_upsert [table_simps]:
  "find_row key k (upsert key r rows) = (if k = key r then Some r else find_row key k rows)"
proof (cases "key r \<in> key ` set rows")
  case True
  have "find_row key k (upsert key r rows) =
      map_option (\<lambda>x. if key x = key r then r else x) (find_row key k rows)"
    using True by (simp add: upsert_def find_row_map)
  also have "\<dots> = (if k = key r then Some r else find_row key k rows)"
    using True find_row_None [of key k rows] find_row_Some [of key k rows]
    by (cases "find_row key k rows") auto
  finally show ?thesis .
next
  case False
  then show ?thesis
    using find_row_None [of key k rows]
    by (cases "find_row key k rows") (auto simp: upsert_def find_row_append image_iff)
qed

lemma find_row_update [table_simps]:
  assumes "\<And>r. key (f r) = key r"
  shows "find_row key k (fst (update_where P f rows)) =
    map_option (\<lambda>r. if P r then f r else r) (find_row key k rows)"
  using assms by (simp add: update_where_def find_row_map)

lemma find_row_filter [table_simps]:
  assumes "keyed key rows"
  shows "find_row key k (filter P rows) =
    (case find_row key k rows of None \<Rightarrow> None | Some r \<Rightarrow> if P r then Some r else None)"
  using assms
proof (induction rows)
  case (Cons r rows)
  then have IH: "find_row key k (filter P rows) =
      (case find_row key k rows of None \<Rightarrow> None | Some r \<Rightarrow> if P r then Some r else None)"
    and fresh: "key r \<notin> key ` set rows"
    by (simp_all add: keyed_def)
  show ?case
  proof (cases "key r = k")
    case True
    then have "find_row key k (filter P rows) = None"
      using fresh by (auto simp: find_row_None)
    then show ?thesis using True by (simp add: find_row_def)
  next
    case False
    then show ?thesis using IH by (simp add: find_row_def)
  qed
qed (simp add: find_row_def)

section \<open>Keys\<close>

lemma keyed_insert_ignore [table_simps]:
  "keyed key (insert_ignore key r rows) \<longleftrightarrow> keyed key rows"
  by (auto simp: insert_ignore_def keyed_def)

lemma map_key_upsert: "map key (upsert key r rows) =
    (if key r \<in> key ` set rows then map key rows else map key rows @ [key r])"
  by (auto simp: upsert_def)

lemma keyed_upsert [table_simps]: "keyed key (upsert key r rows) \<longleftrightarrow> keyed key rows"
  unfolding keyed_def map_key_upsert by auto

lemma keyed_update [table_simps]:
  assumes "\<And>r. key (f r) = key r"
  shows "keyed key (fst (update_where P f rows)) \<longleftrightarrow> keyed key rows"
proof -
  have "map key (fst (update_where P f rows)) = map key rows"
    using assms by (simp add: update_where_def)
  then show ?thesis by (simp add: keyed_def)
qed

lemma keyed_filter: "keyed key rows \<Longrightarrow> keyed key (filter P rows)"
  by (simp add: keyed_def distinct_map_filter)

lemma keyed_Nil [table_simps]: "keyed key []"
  by (simp add: keyed_def)

lemma set_insert_ignore:
  "set (insert_ignore key r rows) = (if key r \<in> key ` set rows then set rows else insert r (set rows))"
  by (auto simp: insert_ignore_def)

lemma insert_ignore_idem [simp]:
  "insert_ignore key r (insert_ignore key r rows) = insert_ignore key r rows"
  by (auto simp: insert_ignore_def)

lemma keys_insert_ignore: "key ` set (insert_ignore key r rows) = insert (key r) (key ` set rows)"
  by (auto simp: insert_ignore_def)

lemma insert_ignore_present: "key r \<in> key ` set rows \<Longrightarrow> insert_ignore key r rows = rows"
  by (simp add: insert_ignore_def)

lemma set_upsert:
  "keyed key rows \<Longrightarrow> set (upsert key r rows) = insert r {x \<in> set rows. key x \<noteq> key r}"
  by (auto simp: upsert_def image_iff)

lemma set_update_where: "set (fst (update_where P f rows)) = (\<lambda>r. if P r then f r else r) ` set rows"
  and returning_update: "set (snd (update_where P f rows)) = f ` {r \<in> set rows. P r}"
  by (simp_all add: update_where_def)

lemma keyed_upsert_other:
  assumes "keyed key rows" and "keyed key' rows"
    and "\<And>x. x \<in> set rows \<Longrightarrow> key x \<noteq> key r \<Longrightarrow> key' x \<noteq> key' r"
  shows "keyed key' (upsert key r rows)"
proof (cases "key r \<in> key ` set rows")
  case True
  have "distinct rows" and inj: "inj_on key (set rows)" "inj_on key' (set rows)"
    using assms(1,2) by (simp_all add: keyed_def distinct_map)
  let ?f = "\<lambda>x. if key x = key r then r else x"
  have "inj_on (key' \<circ> ?f) (set rows)"
  proof (rule inj_onI)
    fix x y assume x: "x \<in> set rows" and y: "y \<in> set rows" and eq: "(key' \<circ> ?f) x = (key' \<circ> ?f) y"
    show "x = y"
    proof (cases "key x = key r"; cases "key y = key r")
      assume "key x = key r" "key y = key r"
      then show ?thesis using inj_onD [OF inj(1) _ x y] by simp
    next
      assume "key x \<noteq> key r" "key y \<noteq> key r"
      then show ?thesis using inj_onD [OF inj(2) _ x y] eq by simp
    qed (use assms(3) [OF x] assms(3) [OF y] eq in auto)
  qed
  then show ?thesis
    using True \<open>distinct rows\<close> by (simp add: keyed_def upsert_def distinct_map comp_def)
next
  case False
  then have "key x \<noteq> key r" if "x \<in> set rows" for x using that by (metis image_eqI)
  then have "key' r \<notin> key' ` set rows" using assms(3) by (metis imageE)
  then show ?thesis using False assms(2) by (auto simp: keyed_def upsert_def)
qed

lemma keys_upsert: "key ` set (upsert key r rows) = insert (key r) (key ` set rows)"
  unfolding upsert_def by (auto simp: image_iff)

lemma keys_update_where:
  assumes "\<And>r. key (f r) = key r"
  shows "key ` set (fst (update_where P f rows)) = key ` set rows"
  unfolding set_update_where image_image using assms by (intro image_cong) auto

end
