(* ===== verification/Usage.thy ===== *)
theory Usage
  imports Session Tables
begin

text \<open>
  Metering: the usage events of \<^verbatim>\<open>application/usage.py\<close> and their direct write of
  \<^verbatim>\<open>persistence/metering.py\<close>.

  An event payload is a dictionary of dynamically typed values (\<open>pyval\<close>); the reader of the
  metering store inspects the type exactly as the code's \<open>isinstance\<close> tests do (a \<open>bool\<close>
  is an \<open>int\<close>).  The text routines of Python's library that the code calls but whose result
  it never looks into (ISO rendering and parsing of instants, SHA-256, integer parsing, \<open>repr\<close>, JSON inside
  Base64, and the floating-point \<open>int(total_seconds() * 1000)\<close>) are the fields of the parameter \<open>stdlib\<close>; the random identifiers are arguments.

  The metering transaction either writes the whole batch or nothing: \<open>write_usage_events\<close>
  takes the outcome of the database (\<open>fault\<close>) as an argument and never raises.
\<close>

section \<open>Values and library\<close>

record stdlib =
  std_isoformat :: "instant \<Rightarrow> pystr"
  std_fromisoformat :: "pystr \<Rightarrow> instant option"
  std_sha256_hex :: "pystr \<Rightarrow> pystr"
  std_int :: "pystr \<Rightarrow> int option"
  std_repr :: "pyval \<Rightarrow> pystr"
  std_pack :: "payload \<Rightarrow> pystr"
  std_unpack :: "pystr \<Rightarrow> pyval option"
  std_elapsed_ms :: "int \<Rightarrow> int"

definition decimal_int :: "int \<Rightarrow> pystr" where
  "decimal_int n = (if n < 0 then u ''-'' @ decimal (nat (- n)) else decimal (nat n))"

text \<open>\<open>str(value)\<close>.\<close>

fun py_str :: "stdlib \<Rightarrow> pyval \<Rightarrow> pystr" where
  "py_str std PNone = u ''None''"
| "py_str std (PBool b) = (if b then u ''True'' else u ''False'')"
| "py_str std (PInt n) = decimal_int n"
| "py_str std (PStr s) = s"
| "py_str std v = std_repr std v"

text \<open>\<open>payload.get(key)\<close> and a sequence of \<open>payload[key] = value\<close>.\<close>

definition pget :: "pystr \<Rightarrow> payload \<Rightarrow> pyval" where
  "pget k p = (case map_of p k of Some v \<Rightarrow> v | None \<Rightarrow> PNone)"

definition put :: "(pystr \<times> pyval) list \<Rightarrow> payload \<Rightarrow> payload" where
  "put kvs p = fold (\<lambda>(k, v). AList.update k v) kvs p"

definition opt_str :: "pystr option \<Rightarrow> pyval" where
  "opt_str v = (case v of None \<Rightarrow> PNone | Some s \<Rightarrow> PStr s)"

section \<open>usage.py: events\<close>

definition SCHEMA_VERSION :: pystr where "SCHEMA_VERSION = u ''1.0''"
definition LLM_CALL_EVENT_TYPE :: pystr where "LLM_CALL_EVENT_TYPE = u ''llm_call_completed''"

definition ROW_BUCKETS :: "(int \<times> pystr) list" where
  "ROW_BUCKETS = [(0, u ''0''), (10, u ''1-10''), (100, u ''11-100''), (1000, u ''101-1000'')]"

definition row_count_bucket :: "int \<Rightarrow> pystr" where
  "row_count_bucket n = (case find (\<lambda>(upper, label). n \<le> upper) ROW_BUCKETS of
     Some (upper, label) \<Rightarrow> label | None \<Rightarrow> u ''1001+'')"

definition INTERACTION_STATUS_MAP :: "(interaction_status, pystr) dict" where
  "INTERACTION_STATUS_MAP = [(ICompleted, u ''completed''), (IFailed, u ''failed''),
     (ICancelled, u ''cancelled'')]"

definition completion_status :: "interaction_status \<Rightarrow> pystr" where
  "completion_status s = (case map_of INTERACTION_STATUS_MAP s of Some v \<Rightarrow> v | None \<Rightarrow> u ''failed'')"

definition pseudonymous_subject :: "stdlib \<Rightarrow> tenant_id \<Rightarrow> user_id \<Rightarrow> pystr" where
  "pseudonymous_subject std tenant user = std_sha256_hex std (tenant @ [31] @ user)"

record usage_context =
  uc_tenant_id :: tenant_id
  uc_user_id :: user_id
  uc_session_id :: pystr
  uc_interaction_id :: interaction_id
  uc_trace_id :: pystr

record usage_event =
  ue_event_id :: pystr
  ue_event_type :: pystr
  ue_tenant_id :: tenant_id
  ue_payload :: payload
  ue_created_at :: instant

text \<open>\<open>UsageContext.envelope\<close>; the first argument after the library is the fresh
  \<open>uuid4\<close>.\<close>

definition envelope :: "stdlib \<Rightarrow> pystr \<Rightarrow> usage_context \<Rightarrow> pystr \<Rightarrow> instant \<Rightarrow> payload" where
  "envelope std event_id c event_type occurred_at =
     [(u ''event_id'', PStr event_id),
      (u ''schema_version'', PStr SCHEMA_VERSION),
      (u ''occurred_at'', PStr (std_isoformat std occurred_at)),
      (u ''tenant_id'', PStr (uc_tenant_id c)),
      (u ''user_subject_id'', PStr (pseudonymous_subject std (uc_tenant_id c) (uc_user_id c))),
      (u ''session_id'', PStr (uc_session_id c)),
      (u ''interaction_id'', PStr (uc_interaction_id c)),
      (u ''trace_id'', PStr (uc_trace_id c)),
      (u ''event_type'', PStr event_type)]"

text \<open>\<open>_wrap\<close>, \<open>_short\<close> and \<open>_resolve_span_edges\<close>.\<close>

definition wrap :: "usage_context \<Rightarrow> payload \<Rightarrow> instant \<Rightarrow> value_error + usage_event" where
  "wrap c p occurred_at = (case (pget (u ''event_id'') p, pget (u ''event_type'') p) of
     (PStr event_id, PStr event_type) \<Rightarrow>
       Inr \<lparr>ue_event_id = event_id, ue_event_type = event_type, ue_tenant_id = uc_tenant_id c,
            ue_payload = p, ue_created_at = occurred_at\<rparr>
   | _ \<Rightarrow> Inl (ValueError (u ''usage event envelope is malformed'')))"

definition short :: "pystr option \<Rightarrow> pyval" where
  "short v = (case v of None \<Rightarrow> PNone | Some s \<Rightarrow> if s = [] then PNone else PStr (take 64 s))"

definition us_millisecond :: int where "us_millisecond = 1000"

definition resolve_span_edges ::
  "instant \<Rightarrow> int \<Rightarrow> instant option \<Rightarrow> instant option \<Rightarrow> instant \<times> instant" where
  "resolve_span_edges occurred_at duration_ms started_at ended_at =
     (let measured = max 0 duration_ms * us_millisecond;
          end_at = (case ended_at of Some t \<Rightarrow> t | None \<Rightarrow> occurred_at);
          start_at = (case started_at of Some t \<Rightarrow> t | None \<Rightarrow> end_at - measured)
      in (start_at, end_at))"

fun role_value :: "role \<Rightarrow> pystr" where
  "role_value EMPLOYEE = u ''employee''"
| "role_value GROUP_LEADER = u ''group_leader''"
| "role_value MANAGER = u ''manager''"
| "role_value OWNER = u ''owner''"

definition interaction_started_event ::
  "stdlib \<Rightarrow> pystr \<Rightarrow> usage_context \<Rightarrow> instant \<Rightarrow> pystr \<Rightarrow> role \<Rightarrow> value_error + usage_event" where
  "interaction_started_event std event_id c occurred_at entrypoint r =
     wrap c (put [(u ''entrypoint'', PStr entrypoint), (u ''role_category'', PStr (role_value r))]
       (envelope std event_id c (u ''interaction_started'') occurred_at)) occurred_at"

definition interaction_routed_event ::
  "stdlib \<Rightarrow> pystr \<Rightarrow> usage_context \<Rightarrow> instant \<Rightarrow> pystr option \<Rightarrow> value_error + usage_event" where
  "interaction_routed_event std event_id c occurred_at cap =
     wrap c (put [(u ''capability'', opt_str cap)]
       (envelope std event_id c (u ''interaction_routed'') occurred_at)) occurred_at"

definition interaction_completed_event ::
  "stdlib \<Rightarrow> pystr \<Rightarrow> usage_context \<Rightarrow> instant \<Rightarrow> pystr \<Rightarrow> int \<Rightarrow> int \<Rightarrow> int \<Rightarrow> int \<Rightarrow> int \<Rightarrow>
   pystr option \<Rightarrow> value_error + usage_event" where
  "interaction_completed_event std event_id c occurred_at status duration_ms mes_duration_ms
       llm_duration_ms local_duration_ms result_row_count error_category =
     wrap c (put [(u ''status'', PStr status),
         (u ''duration_ms'', PInt (max 0 duration_ms)),
         (u ''mes_duration_ms'', PInt (max 0 mes_duration_ms)),
         (u ''llm_duration_ms'', PInt (max 0 llm_duration_ms)),
         (u ''local_duration_ms'', PInt (max 0 local_duration_ms)),
         (u ''result_rows_bucket'', PStr (row_count_bucket (max 0 result_row_count))),
         (u ''error_category'', short error_category)]
       (envelope std event_id c (u ''interaction_completed'') occurred_at)) occurred_at"

datatype model_stage = CLASSIFY | EXTRACT | PLAN | CLARIFY | SUMMARIZE | CHAT_STAGE | REPAIR
  | SCOPE_GUARD | THINKING_STAGE

fun model_stage_value :: "model_stage \<Rightarrow> pystr" where
  "model_stage_value CLASSIFY = u ''classify''"
| "model_stage_value EXTRACT = u ''extract''"
| "model_stage_value PLAN = u ''plan''"
| "model_stage_value CLARIFY = u ''clarify''"
| "model_stage_value SUMMARIZE = u ''summarize''"
| "model_stage_value CHAT_STAGE = u ''chat''"
| "model_stage_value REPAIR = u ''repair''"
| "model_stage_value SCOPE_GUARD = u ''scope_guard''"
| "model_stage_value THINKING_STAGE = u ''thinking''"

record llm_call =
  lc_logical_call_id :: pystr
  lc_stage :: model_stage
  lc_model_alias :: pystr
  lc_actual_model :: pystr
  lc_attempt :: int
  lc_prompt_tokens :: int
  lc_completion_tokens :: int
  lc_cached_tokens :: int
  lc_reasoning_tokens :: int
  lc_duration_ms :: int
  lc_status :: pystr
  lc_fallback_reason :: "pystr option"
  lc_error_category :: "pystr option"
  lc_includes_scope :: bool
  lc_scope_verdict :: "payload option"
  lc_started_at :: "instant option"
  lc_ended_at :: "instant option"
  lc_parent_span_id :: "pystr option"

definition llm_call_event ::
  "stdlib \<Rightarrow> pystr \<Rightarrow> usage_context \<Rightarrow> instant \<Rightarrow> llm_call \<Rightarrow> value_error + usage_event" where
  "llm_call_event std event_id c occurred_at call =
     (if lc_includes_scope call \<and> lc_stage call \<noteq> EXTRACT
      then Inl (ValueError (u ''includes_scope is only meaningful on the EXTRACT stage''))
      else let edges = resolve_span_edges occurred_at (max 0 (lc_duration_ms call))
                 (lc_started_at call) (lc_ended_at call) in
       wrap c (put ([(u ''logical_call_id'', PStr (lc_logical_call_id call)),
         (u ''stage'', PStr (model_stage_value (lc_stage call))),
         (u ''model_alias'', PStr (lc_model_alias call)),
         (u ''actual_model'', PStr (lc_actual_model call)),
         (u ''attempt'', PInt (max 1 (lc_attempt call))),
         (u ''prompt_tokens'', PInt (max 0 (lc_prompt_tokens call))),
         (u ''completion_tokens'', PInt (max 0 (lc_completion_tokens call))),
         (u ''cached_tokens'', PInt (max 0 (lc_cached_tokens call))),
         (u ''reasoning_tokens'', PInt (max 0 (lc_reasoning_tokens call))),
         (u ''duration_ms'', PInt (max 0 (lc_duration_ms call))),
         (u ''status'', PStr (lc_status call)),
         (u ''fallback_reason'', short (lc_fallback_reason call)),
         (u ''error_category'', short (lc_error_category call)),
         (u ''started_at'', PStr (std_isoformat std (fst edges))),
         (u ''ended_at'', PStr (std_isoformat std (snd edges))),
         (u ''parent_span_id'', short (lc_parent_span_id call))] @
         (if lc_includes_scope call
          then [(u ''includes_scope'', PBool True),
                (u ''scope_verdict'', case lc_scope_verdict call of None \<Rightarrow> PNone | Some v \<Rightarrow> PDict v)]
          else []))
       (envelope std event_id c LLM_CALL_EVENT_TYPE occurred_at)) occurred_at)"

record mes_call_record =
  mc_operation_id :: pystr
  mc_page_count :: int
  mc_row_count :: int
  mc_duration_ms :: int
  mc_status :: pystr
  mc_error_category :: "pystr option"
  mc_started_at :: "instant option"
  mc_ended_at :: "instant option"

definition mes_call_completed_event ::
  "stdlib \<Rightarrow> pystr \<Rightarrow> usage_context \<Rightarrow> instant \<Rightarrow> mes_call_record \<Rightarrow> pystr option \<Rightarrow>
   value_error + usage_event" where
  "mes_call_completed_event std event_id c occurred_at call parent_span_id =
     (let edges = resolve_span_edges occurred_at (max 0 (mc_duration_ms call))
            (mc_started_at call) (mc_ended_at call) in
      wrap c (put [(u ''operation_id'', PStr (mc_operation_id call)),
         (u ''page_count'', PInt (max 0 (mc_page_count call))),
         (u ''row_count_bucket'', PStr (row_count_bucket (max 0 (mc_row_count call)))),
         (u ''duration_ms'', PInt (max 0 (mc_duration_ms call))),
         (u ''status'', PStr (mc_status call)),
         (u ''error_category'', short (mc_error_category call)),
         (u ''started_at'', PStr (std_isoformat std (fst edges))),
         (u ''ended_at'', PStr (std_isoformat std (snd edges))),
         (u ''parent_span_id'', short parent_span_id)]
       (envelope std event_id c (u ''mes_call_completed'') occurred_at)) occurred_at)"

section \<open>usage.py: the context-local buffer\<close>

text \<open>The two context variables of one task.\<close>

record usage_buffer =
  ub_context :: "usage_context option"
  ub_events :: "usage_event list option"

definition set_usage_context :: "usage_context option \<Rightarrow> usage_buffer \<Rightarrow> usage_buffer" where
  "set_usage_context c b = (case c of
     None \<Rightarrow> b\<lparr>ub_events := None, ub_context := None\<rparr>
   | Some x \<Rightarrow> (case ub_events b of
         None \<Rightarrow> b\<lparr>ub_events := Some [], ub_context := c\<rparr>
       | Some es \<Rightarrow> b\<lparr>ub_context := c\<rparr>))"

definition drain_mes_events :: "usage_buffer \<Rightarrow> usage_event list \<times> usage_buffer" where
  "drain_mes_events b = (case ub_events b of
     None \<Rightarrow> ([], b) | Some es \<Rightarrow> (es, b\<lparr>ub_events := Some []\<rparr>))"

definition record_mes_call ::
  "stdlib \<Rightarrow> pystr \<Rightarrow> instant \<Rightarrow> mes_call_record \<Rightarrow> usage_buffer \<Rightarrow> usage_buffer" where
  "record_mes_call std event_id now call b = (case (ub_context b, ub_events b) of
     (Some c, Some es) \<Rightarrow> (case mes_call_completed_event std event_id c now call None of
         Inl e \<Rightarrow> b
       | Inr e \<Rightarrow> b\<lparr>ub_events := Some (es @ [e])\<rparr>)
   | _ \<Rightarrow> b)"

section \<open>metering.py\<close>

record usage_event_row =
  ur_event_id :: pystr
  ur_schema_version :: pystr
  ur_event_type :: pystr
  ur_tenant_id :: pystr
  ur_occurred_at :: instant
  ur_received_at :: instant
  ur_user_subject_id :: pystr
  ur_session_id :: pystr
  ur_interaction_id :: pystr
  ur_trace_id :: pystr
  ur_payload :: payload

record interaction_fact =
  fi_event_id :: pystr
  fi_tenant_id :: pystr
  fi_session_id :: pystr
  fi_interaction_id :: pystr
  fi_event_type :: pystr
  fi_user_subject_id :: pystr
  fi_occurred_at :: instant
  fi_capability_id :: "pystr option"
  fi_entrypoint :: "pystr option"
  fi_role_category :: "pystr option"
  fi_status :: "pystr option"
  fi_duration_ms :: "int option"
  fi_mes_duration_ms :: "int option"
  fi_llm_duration_ms :: "int option"
  fi_local_duration_ms :: "int option"
  fi_result_rows_bucket :: "pystr option"
  fi_error_category :: "pystr option"
  fi_received_at :: instant

record llm_call_fact =
  fl_event_id :: pystr
  fl_tenant_id :: pystr
  fl_session_id :: pystr
  fl_interaction_id :: pystr
  fl_occurred_at :: instant
  fl_logical_call_id :: pystr
  fl_stage :: pystr
  fl_model_alias :: pystr
  fl_actual_model :: pystr
  fl_attempt :: int
  fl_prompt_tokens :: int
  fl_completion_tokens :: int
  fl_cached_tokens :: int
  fl_reasoning_tokens :: int
  fl_duration_ms :: int
  fl_status :: pystr
  fl_fallback_reason :: "pystr option"
  fl_error_category :: "pystr option"
  fl_started_at :: "instant option"
  fl_ended_at :: "instant option"
  fl_parent_span_id :: "pystr option"
  fl_received_at :: instant

record mes_call_fact =
  fm_event_id :: pystr
  fm_tenant_id :: pystr
  fm_session_id :: pystr
  fm_interaction_id :: pystr
  fm_occurred_at :: instant
  fm_operation_id :: pystr
  fm_page_count :: int
  fm_row_count_bucket :: pystr
  fm_duration_ms :: int
  fm_status :: pystr
  fm_error_category :: "pystr option"
  fm_started_at :: "instant option"
  fm_ended_at :: "instant option"
  fm_parent_span_id :: "pystr option"
  fm_received_at :: instant

record metering_db =
  mt_usage_events :: "usage_event_row list"
  mt_interaction_facts :: "interaction_fact list"
  mt_llm_call_facts :: "llm_call_fact list"
  mt_mes_call_facts :: "mes_call_fact list"

definition empty_metering :: metering_db where
  "empty_metering = \<lparr>mt_usage_events = [], mt_interaction_facts = [], mt_llm_call_facts = [],
     mt_mes_call_facts = []\<rparr>"

definition usage_key :: "usage_event_row \<Rightarrow> pystr \<times> instant" where
  "usage_key r = (ur_event_id r, ur_occurred_at r)"

definition INTERACTION_EVENT_TYPES :: "pystr set" where
  "INTERACTION_EVENT_TYPES =
     {u ''interaction_started'', u ''interaction_routed'', u ''interaction_completed''}"
definition LLM_EVENT_TYPES :: "pystr set" where "LLM_EVENT_TYPES = {u ''llm_call_completed''}"
definition MES_EVENT_TYPES :: "pystr set" where "MES_EVENT_TYPES = {u ''mes_call_completed''}"

text \<open>The column readers \<open>_nullable\<close>, \<open>_nullable_int\<close>, \<open>_nullable_dt\<close> and
  \<open>_int\<close>.\<close>

definition nullable :: "stdlib \<Rightarrow> pyval \<Rightarrow> pystr option" where
  "nullable std v = (if v = PNone then None
     else let text = py_str std v in if text = [] then None else Some (take 64 text))"

fun nullable_int :: "pyval \<Rightarrow> int option" where
  "nullable_int (PInt n) = Some n"
| "nullable_int (PBool b) = Some (of_bool b)"
| "nullable_int v = None"

fun nullable_dt :: "stdlib \<Rightarrow> pyval \<Rightarrow> instant option" where
  "nullable_dt std (PStr s) = std_fromisoformat std s"
| "nullable_dt std (PDatetime t) = Some t"
| "nullable_dt std v = None"

fun int_column :: "stdlib \<Rightarrow> pyval \<Rightarrow> value_error + int" where
  "int_column std (PInt n) = Inr n"
| "int_column std (PBool b) = Inr (of_bool b)"
| "int_column std (PStr s) = (if s = [] then Inr 0 else (case std_int std s of
     Some n \<Rightarrow> Inr n | None \<Rightarrow> Inl (ValueError (u ''invalid literal for int()''))))"
| "int_column std v = Inr 0"

definition usage_row :: "stdlib \<Rightarrow> usage_event \<Rightarrow> usage_event_row" where
  "usage_row std e = (let p = ue_payload e; text = (\<lambda>k. py_str std (pget (u k) p)) in
     \<lparr>ur_event_id = ue_event_id e, ur_schema_version = text ''schema_version'',
      ur_event_type = ue_event_type e, ur_tenant_id = ue_tenant_id e,
      ur_occurred_at = ue_created_at e, ur_received_at = ue_created_at e,
      ur_user_subject_id = text ''user_subject_id'', ur_session_id = text ''session_id'',
      ur_interaction_id = text ''interaction_id'', ur_trace_id = text ''trace_id'', ur_payload = p\<rparr>)"

definition interaction_fact_of :: "stdlib \<Rightarrow> usage_event \<Rightarrow> interaction_fact" where
  "interaction_fact_of std e = (let p = ue_payload e; text = (\<lambda>k. py_str std (pget (u k) p));
       opt = (\<lambda>k. nullable std (pget (u k) p)); num = (\<lambda>k. nullable_int (pget (u k) p)) in
     \<lparr>fi_event_id = ue_event_id e, fi_tenant_id = ue_tenant_id e, fi_session_id = text ''session_id'',
      fi_interaction_id = text ''interaction_id'', fi_event_type = ue_event_type e,
      fi_user_subject_id = text ''user_subject_id'', fi_occurred_at = ue_created_at e,
      fi_capability_id = opt ''capability'', fi_entrypoint = opt ''entrypoint'',
      fi_role_category = opt ''role_category'', fi_status = opt ''status'',
      fi_duration_ms = num ''duration_ms'', fi_mes_duration_ms = num ''mes_duration_ms'',
      fi_llm_duration_ms = num ''llm_duration_ms'', fi_local_duration_ms = num ''local_duration_ms'',
      fi_result_rows_bucket = opt ''result_rows_bucket'', fi_error_category = opt ''error_category'',
      fi_received_at = ue_created_at e\<rparr>)"

definition llm_call_fact_of :: "stdlib \<Rightarrow> usage_event \<Rightarrow> value_error + llm_call_fact" where
  "llm_call_fact_of std e = (let p = ue_payload e; text = (\<lambda>k. py_str std (pget (u k) p));
       opt = (\<lambda>k. nullable std (pget (u k) p)); num = (\<lambda>k. int_column std (pget (u k) p)) in
     rbind (num ''attempt'') (\<lambda>attempt. rbind (num ''prompt_tokens'') (\<lambda>prompt_tokens.
     rbind (num ''completion_tokens'') (\<lambda>completion_tokens. rbind (num ''cached_tokens'') (\<lambda>cached_tokens.
     rbind (num ''reasoning_tokens'') (\<lambda>reasoning_tokens. rbind (num ''duration_ms'') (\<lambda>duration_ms.
     Inr \<lparr>fl_event_id = ue_event_id e, fl_tenant_id = ue_tenant_id e, fl_session_id = text ''session_id'',
      fl_interaction_id = text ''interaction_id'', fl_occurred_at = ue_created_at e,
      fl_logical_call_id = text ''logical_call_id'', fl_stage = text ''stage'',
      fl_model_alias = text ''model_alias'', fl_actual_model = text ''actual_model'',
      fl_attempt = (if attempt = 0 then 1 else attempt), fl_prompt_tokens = prompt_tokens,
      fl_completion_tokens = completion_tokens, fl_cached_tokens = cached_tokens,
      fl_reasoning_tokens = reasoning_tokens, fl_duration_ms = duration_ms, fl_status = text ''status'',
      fl_fallback_reason = opt ''fallback_reason'', fl_error_category = opt ''error_category'',
      fl_started_at = nullable_dt std (pget (u ''started_at'') p),
      fl_ended_at = nullable_dt std (pget (u ''ended_at'') p),
      fl_parent_span_id = opt ''parent_span_id'', fl_received_at = ue_created_at e\<rparr>)))))))"

definition mes_call_fact_of :: "stdlib \<Rightarrow> usage_event \<Rightarrow> value_error + mes_call_fact" where
  "mes_call_fact_of std e = (let p = ue_payload e; text = (\<lambda>k. py_str std (pget (u k) p));
       opt = (\<lambda>k. nullable std (pget (u k) p)) in
     rbind (int_column std (pget (u ''page_count'') p)) (\<lambda>page_count.
     rbind (int_column std (pget (u ''duration_ms'') p)) (\<lambda>duration_ms.
     Inr \<lparr>fm_event_id = ue_event_id e, fm_tenant_id = ue_tenant_id e, fm_session_id = text ''session_id'',
      fm_interaction_id = text ''interaction_id'', fm_occurred_at = ue_created_at e,
      fm_operation_id = text ''operation_id'', fm_page_count = page_count,
      fm_row_count_bucket = text ''row_count_bucket'', fm_duration_ms = duration_ms,
      fm_status = text ''status'', fm_error_category = opt ''error_category'',
      fm_started_at = nullable_dt std (pget (u ''started_at'') p),
      fm_ended_at = nullable_dt std (pget (u ''ended_at'') p),
      fm_parent_span_id = opt ''parent_span_id'', fm_received_at = ue_created_at e\<rparr>)))"

definition write_event :: "stdlib \<Rightarrow> usage_event \<Rightarrow> metering_db \<Rightarrow> value_error + metering_db" where
  "write_event std e db =
     (let db1 = db\<lparr>mt_usage_events := insert_ignore usage_key (usage_row std e) (mt_usage_events db)\<rparr> in
      if ue_event_type e \<in> INTERACTION_EVENT_TYPES then
        Inr (db1\<lparr>mt_interaction_facts :=
          insert_ignore fi_event_id (interaction_fact_of std e) (mt_interaction_facts db1)\<rparr>)
      else if ue_event_type e \<in> LLM_EVENT_TYPES then
        rbind (llm_call_fact_of std e) (\<lambda>f. Inr (db1\<lparr>mt_llm_call_facts :=
          insert_ignore fl_event_id f (mt_llm_call_facts db1)\<rparr>))
      else if ue_event_type e \<in> MES_EVENT_TYPES then
        rbind (mes_call_fact_of std e) (\<lambda>f. Inr (db1\<lparr>mt_mes_call_facts :=
          insert_ignore fm_event_id f (mt_mes_call_facts db1)\<rparr>))
      else Inr db1)"

fun write_events :: "stdlib \<Rightarrow> usage_event list \<Rightarrow> metering_db \<Rightarrow> value_error + metering_db" where
  "write_events std [] db = Inr db"
| "write_events std (e # es) db = rbind (write_event std e db) (write_events std es)"

text \<open>What the isolation wrapper logs and hands to the alert callback.\<close>

datatype metering_failure = DatabaseFault | PayloadFault value_error

definition write_usage_events ::
  "stdlib \<Rightarrow> bool \<Rightarrow> usage_event list \<Rightarrow> metering_db \<Rightarrow> metering_db \<times> metering_failure option" where
  "write_usage_events std fault es db =
     (if es = [] then (db, None)
      else if fault then (db, Some DatabaseFault)
      else (case write_events std es db of
          Inl e \<Rightarrow> (db, Some (PayloadFault e))
        | Inr db' \<Rightarrow> (db', None)))"

section \<open>The write is idempotent\<close>

definition metering_wf :: "metering_db \<Rightarrow> bool" where
  "metering_wf db \<longleftrightarrow> keyed usage_key (mt_usage_events db) \<and>
     keyed fi_event_id (mt_interaction_facts db) \<and> keyed fl_event_id (mt_llm_call_facts db) \<and>
     keyed fm_event_id (mt_mes_call_facts db)"

text \<open>The archive row and the fact row of an event are present.\<close>

definition metered :: "usage_event \<Rightarrow> metering_db \<Rightarrow> bool" where
  "metered e db \<longleftrightarrow>
     (ue_event_id e, ue_created_at e) \<in> usage_key ` set (mt_usage_events db) \<and>
     (ue_event_type e \<in> INTERACTION_EVENT_TYPES \<longrightarrow>
        ue_event_id e \<in> fi_event_id ` set (mt_interaction_facts db)) \<and>
     (ue_event_type e \<in> LLM_EVENT_TYPES \<longrightarrow> ue_event_id e \<in> fl_event_id ` set (mt_llm_call_facts db)) \<and>
     (ue_event_type e \<in> MES_EVENT_TYPES \<longrightarrow> ue_event_id e \<in> fm_event_id ` set (mt_mes_call_facts db))"

lemmas event_types = INTERACTION_EVENT_TYPES_def LLM_EVENT_TYPES_def MES_EVENT_TYPES_def

lemma row_keys [simp]:
  "usage_key (usage_row std e) = (ue_event_id e, ue_created_at e)"
  "fi_event_id (interaction_fact_of std e) = ue_event_id e"
  "llm_call_fact_of std e = Inr fl \<Longrightarrow> fl_event_id fl = ue_event_id e"
  "mes_call_fact_of std e = Inr fm \<Longrightarrow> fm_event_id fm = ue_event_id e"
  by (auto simp: usage_key_def usage_row_def interaction_fact_of_def llm_call_fact_of_def
      mes_call_fact_of_def Let_def result_simps)

text \<open>Whether the columns of an event can be read; this does not depend on the tables.\<close>

definition readable :: "stdlib \<Rightarrow> usage_event \<Rightarrow> bool" where
  "readable std e \<longleftrightarrow>
     (ue_event_type e \<in> LLM_EVENT_TYPES \<longrightarrow> (\<exists>f. llm_call_fact_of std e = Inr f)) \<and>
     (ue_event_type e \<in> MES_EVENT_TYPES \<longrightarrow> (\<exists>f. mes_call_fact_of std e = Inr f))"

lemma event_types_disjoint:
  "s \<in> INTERACTION_EVENT_TYPES \<Longrightarrow> s \<notin> LLM_EVENT_TYPES \<and> s \<notin> MES_EVENT_TYPES"
  "s \<in> LLM_EVENT_TYPES \<Longrightarrow> s \<notin> MES_EVENT_TYPES"
  by (auto simp: event_types)

text \<open>The tables after one event: each is unchanged or has the event's row inserted.\<close>

definition grows :: "('r \<Rightarrow> 'k) \<Rightarrow> bool \<Rightarrow> 'k \<Rightarrow> 'r list \<Rightarrow> 'r list \<Rightarrow> bool" where
  "grows key b k rows rows' \<longleftrightarrow>
     (if b then \<exists>r. key r = k \<and> rows' = insert_ignore key r rows else rows' = rows)"

lemma grows_keyed: "grows key b k rows rows' \<Longrightarrow> keyed key rows' \<longleftrightarrow> keyed key rows"
  by (auto simp: grows_def keyed_insert_ignore split: if_splits)

lemma grows_keys: "grows key b k rows rows' \<Longrightarrow>
    key ` set rows' = (if b then insert k (key ` set rows) else key ` set rows)"
  unfolding grows_def by (metis keys_insert_ignore)

lemma write_event_grows:
  assumes "write_event std e db = Inr db'"
  shows "grows usage_key True (ue_event_id e, ue_created_at e) (mt_usage_events db) (mt_usage_events db')"
    and "grows fi_event_id (ue_event_type e \<in> INTERACTION_EVENT_TYPES) (ue_event_id e)
      (mt_interaction_facts db) (mt_interaction_facts db')"
    and "grows fl_event_id (ue_event_type e \<in> LLM_EVENT_TYPES) (ue_event_id e)
      (mt_llm_call_facts db) (mt_llm_call_facts db')"
    and "grows fm_event_id (ue_event_type e \<in> MES_EVENT_TYPES) (ue_event_id e)
      (mt_mes_call_facts db) (mt_mes_call_facts db')"
  using assms event_types_disjoint [of "ue_event_type e"] row_keys(1) [of std e]
    row_keys(2) [of std e] row_keys(3) [of std e] row_keys(4) [of std e]
  unfolding write_event_def grows_def Let_def
  by (auto simp: rbind_Inr simp del: row_keys split: if_splits)

lemma write_event_readable: "write_event std e db = Inr db' \<Longrightarrow> readable std e"
  using event_types_disjoint [of "ue_event_type e"]
  unfolding write_event_def readable_def Let_def rbind_Inr by (auto split: if_splits simp: rbind_Inr)

lemma write_event_metered_self: "write_event std e db = Inr db' \<Longrightarrow> metered e db'"
  using write_event_grows [of std e db db', THEN grows_keys] by (simp add: metered_def)

lemma write_event_metered_mono: "write_event std e db = Inr db' \<Longrightarrow> metered e0 db \<Longrightarrow> metered e0 db'"
  using write_event_grows [of std e db db', THEN grows_keys] by (simp add: metered_def)

lemma write_event_wf: "write_event std e db = Inr db' \<Longrightarrow> metering_wf db \<Longrightarrow> metering_wf db'"
  using write_event_grows [of std e db db', THEN grows_keyed] by (simp add: metering_wf_def)

lemma write_event_metered:
  assumes "readable std e" and "metered e db"
  shows "write_event std e db = Inr db"
proof -
  have "insert_ignore usage_key (usage_row std e) (mt_usage_events db) = mt_usage_events db"
    using assms(2) by (intro insert_ignore_present) (simp add: metered_def)
  moreover have "insert_ignore fi_event_id (interaction_fact_of std e) (mt_interaction_facts db) =
      mt_interaction_facts db" if "ue_event_type e \<in> INTERACTION_EVENT_TYPES"
    using assms(2) that by (intro insert_ignore_present) (simp add: metered_def)
  moreover have "insert_ignore fl_event_id f (mt_llm_call_facts db) = mt_llm_call_facts db"
    if "ue_event_type e \<in> LLM_EVENT_TYPES" "llm_call_fact_of std e = Inr f" for f
    using assms(2) that by (intro insert_ignore_present) (simp add: metered_def)
  moreover have "insert_ignore fm_event_id f (mt_mes_call_facts db) = mt_mes_call_facts db"
    if "ue_event_type e \<in> MES_EVENT_TYPES" "mes_call_fact_of std e = Inr f" for f
    using assms(2) that by (intro insert_ignore_present) (simp add: metered_def)
  ultimately show ?thesis
    using assms(1) by (auto simp: write_event_def readable_def Let_def)
qed

lemma write_events_metered_mono: "write_events std es db = Inr db' \<Longrightarrow> metered e0 db \<Longrightarrow> metered e0 db'"
  by (induction es arbitrary: db) (auto simp: rbind_Inr dest: write_event_metered_mono)

lemma write_events_wf: "write_events std es db = Inr db' \<Longrightarrow> metering_wf db \<Longrightarrow> metering_wf db'"
  by (induction es arbitrary: db) (auto simp: rbind_Inr dest: write_event_wf)

lemma write_events_done:
  "write_events std es db = Inr db' \<Longrightarrow> e \<in> set es \<Longrightarrow> readable std e \<and> metered e db'"
proof (induction es arbitrary: db)
  case (Cons a es)
  then obtain db1 where a: "write_event std a db = Inr db1" and es: "write_events std es db1 = Inr db'"
    by (auto simp: rbind_Inr)
  show ?case
  proof (cases "e = a")
    case True
    then show ?thesis
      using write_event_readable [OF a] write_events_metered_mono [OF es write_event_metered_self [OF a]]
      by simp
  qed (use Cons.IH [OF es] Cons.prems(2) in simp)
qed simp

lemma write_events_metered:
  "\<forall>e \<in> set es. readable std e \<and> metered e db \<Longrightarrow> write_events std es db = Inr db"
  by (induction es) (auto simp: write_event_metered)

text \<open>
  Metering is idempotent.  After a successful write every event of the batch has its
  archive row and, for the metered types, its fact row; every table still holds each key at most
  once; and writing the same batch again (a retry or a replay) changes nothing.
\<close>

theorem metering_idempotent:
  assumes "write_usage_events std fault es db = (db', None)" and "metering_wf db"
  shows "metering_wf db' \<and> (\<forall>e \<in> set es. metered e db') \<and>
    write_usage_events std False es db' = (db', None)"
proof (cases "es = []")
  case False
  then have "write_events std es db = Inr db'"
    using assms(1) by (auto simp: write_usage_events_def split: if_splits sum.splits)
  then show ?thesis
    using assms(2) write_events_metered [of es std db'] write_events_done [of std es db db']
      write_events_wf [of std es db db'] False by (simp add: write_usage_events_def)
qed (use assms in \<open>simp add: write_usage_events_def\<close>)

section \<open>From a call to its fact row\<close>

definition shortened :: "pystr option \<Rightarrow> pystr option" where
  "shortened v = (case v of None \<Rightarrow> None | Some s \<Rightarrow> if s = [] then None else Some (take 64 s))"

lemma nullable_short [simp]: "nullable std (short v) = shortened v"
  by (auto simp: nullable_def short_def shortened_def Let_def split: option.splits)

lemmas payload_eval = pget_def put_def envelope_def

text \<open>
  From a MES call to its fact row.  Recording a call inside a metered interaction appends
  exactly one event to the buffer, and writing that event appends exactly one row to
  \<open>mes_call_fact\<close>, under the interaction of the context, with the operation, the clamped
  duration and page number, the row bucket, the shortened error category and the two wall-clock
  edges of the call (the start recovered from the duration when the adapter gave none); the other
  fact tables are untouched.  The library law used is that ISO parsing inverts ISO rendering.
\<close>

theorem mes_call_roundtrip:
  assumes iso: "\<And>t. std_fromisoformat std (std_isoformat std t) = Some t"
    and ctx: "ub_context b = Some c" and buf: "ub_events b = Some es"
    and fresh: "event_id \<notin> fm_event_id ` set (mt_mes_call_facts db)"
  shows "\<exists>e db'. ub_events (record_mes_call std event_id now call b) = Some (es @ [e]) \<and>
    write_usage_events std False [e] db = (db', None) \<and>
    mt_interaction_facts db' = mt_interaction_facts db \<and> mt_llm_call_facts db' = mt_llm_call_facts db \<and>
    mt_mes_call_facts db' = mt_mes_call_facts db @
      [\<lparr>fm_event_id = event_id, fm_tenant_id = uc_tenant_id c, fm_session_id = uc_session_id c,
        fm_interaction_id = uc_interaction_id c, fm_occurred_at = now,
        fm_operation_id = mc_operation_id call, fm_page_count = max 0 (mc_page_count call),
        fm_row_count_bucket = row_count_bucket (max 0 (mc_row_count call)),
        fm_duration_ms = max 0 (mc_duration_ms call), fm_status = mc_status call,
        fm_error_category = shortened (mc_error_category call),
        fm_started_at = Some (fst (resolve_span_edges now (mc_duration_ms call)
          (mc_started_at call) (mc_ended_at call))),
        fm_ended_at = Some (snd (resolve_span_edges now (mc_duration_ms call)
          (mc_started_at call) (mc_ended_at call))),
        fm_parent_span_id = None, fm_received_at = now\<rparr>]"
proof -
  define edges where "edges = resolve_span_edges now (mc_duration_ms call) (mc_started_at call) (mc_ended_at call)"
  have edges: "resolve_span_edges now (max 0 (mc_duration_ms call)) (mc_started_at call) (mc_ended_at call) = edges"
    by (simp add: edges_def resolve_span_edges_def)
  obtain e where e: "mes_call_completed_event std event_id c now call None = Inr e"
    and id: "ue_event_id e = event_id" and ty: "ue_event_type e = u ''mes_call_completed''"
    by (simp add: mes_call_completed_event_def wrap_def payload_eval Let_def)
  let ?row = "\<lparr>fm_event_id = event_id, fm_tenant_id = uc_tenant_id c, fm_session_id = uc_session_id c,
        fm_interaction_id = uc_interaction_id c, fm_occurred_at = now,
        fm_operation_id = mc_operation_id call, fm_page_count = max 0 (mc_page_count call),
        fm_row_count_bucket = row_count_bucket (max 0 (mc_row_count call)),
        fm_duration_ms = max 0 (mc_duration_ms call), fm_status = mc_status call,
        fm_error_category = shortened (mc_error_category call),
        fm_started_at = Some (fst edges), fm_ended_at = Some (snd edges),
        fm_parent_span_id = None, fm_received_at = now\<rparr>"
  have row: "mes_call_fact_of std e = Inr ?row"
    using e by (auto simp: mes_call_completed_event_def wrap_def payload_eval Let_def edges
        mes_call_fact_of_def iso nullable_short shortened_def)
  have "write_events std [e] db = Inr (db\<lparr>mt_usage_events :=
      insert_ignore usage_key (usage_row std e) (mt_usage_events db),
      mt_mes_call_facts := mt_mes_call_facts db @ [?row]\<rparr>)"
    using fresh by (simp add: write_event_def ty event_types row insert_ignore_def Let_def)
  moreover have "ub_events (record_mes_call std event_id now call b) = Some (es @ [e])"
    using e ctx buf by (simp add: record_mes_call_def)
  ultimately show ?thesis
    by (simp add: write_usage_events_def edges_def)
qed

section \<open>The buffer loses and repeats nothing\<close>

datatype buffer_action = Call pystr instant mes_call_record | Drain

fun run_actions :: "stdlib \<Rightarrow> buffer_action list \<Rightarrow> usage_buffer \<Rightarrow> usage_event list \<times> usage_buffer" where
  "run_actions std [] b = ([], b)"
| "run_actions std (Call event_id now call # as) b =
     run_actions std as (record_mes_call std event_id now call b)"
| "run_actions std (Drain # as) b =
     (let (es, b') = drain_mes_events b; (es', b'') = run_actions std as b' in (es @ es', b''))"

definition action_event :: "stdlib \<Rightarrow> usage_context \<Rightarrow> buffer_action \<Rightarrow> usage_event list" where
  "action_event std c a = (case a of Drain \<Rightarrow> []
     | Call event_id now call \<Rightarrow> (case mes_call_completed_event std event_id c now call None of
         Inl e \<Rightarrow> [] | Inr e \<Rightarrow> [e]))"

lemma run_actions_exact:
  assumes "ub_context b = Some c" and "ub_events b = Some es"
  shows "\<exists>rest. ub_events (snd (run_actions std as b)) = Some rest \<and>
    fst (run_actions std as b) @ rest = es @ concat (map (action_event std c) as)"
  using assms
proof (induction std as b arbitrary: es rule: run_actions.induct)
  case (2 std event_id now call as b)
  obtain e where e: "mes_call_completed_event std event_id c now call None = Inr e"
    by (simp add: mes_call_completed_event_def wrap_def payload_eval Let_def)
  then have "ub_events (record_mes_call std event_id now call b) = Some (es @ [e])"
    and "ub_context (record_mes_call std event_id now call b) = Some c"
    using "2.prems" by (simp_all add: record_mes_call_def)
  from "2.IH" [OF this(2,1)] show ?case by (simp add: action_event_def e)
next
  case (3 std as b)
  then have "ub_events (snd (drain_mes_events b)) = Some []" "ub_context (snd (drain_mes_events b)) = Some c"
    by (simp_all add: drain_mes_events_def)
  moreover have "fst (drain_mes_events b) = es"
    using "3.prems" by (simp add: drain_mes_events_def)
  ultimately obtain rest where
    "ub_events (snd (run_actions std as (snd (drain_mes_events b)))) = Some rest"
    "fst (run_actions std as (snd (drain_mes_events b))) @ rest = concat (map (action_event std c) as)"
    using "3.IH" [OF refl prod.collapse] by force
  then show ?case
    using \<open>fst (drain_mes_events b) = es\<close>
    by (simp add: action_event_def [of std c Drain] Let_def case_prod_beta)
qed simp

text \<open>
  The metering buffer loses and repeats nothing.  Open the buffer for an interaction and
  let calls and drains happen in any order: what the drains handed out, followed by what is still
  buffered, is the list of the events of the calls, each once and in order; and a drain right before
  closing leaves nothing behind.
\<close>

theorem usage_buffer_exact:
  assumes "ub_events b = None"
  shows "\<exists>rest. ub_events (snd (run_actions std as (set_usage_context (Some c) b))) = Some rest \<and>
    fst (run_actions std as (set_usage_context (Some c) b)) @ rest =
      concat (map (action_event std c) as) \<and>
    length (concat (map (action_event std c) as)) = length (filter (\<lambda>a. a \<noteq> Drain) as)"
proof -
  have one: "length (action_event std c a) = (if a = Drain then 0 else 1)" for a
    by (cases a) (simp_all add: action_event_def mes_call_completed_event_def wrap_def payload_eval Let_def)
  have "length (concat (map (action_event std c) as)) = length (filter (\<lambda>a. a \<noteq> Drain) as)"
    by (induction as) (simp_all add: one)
  then show ?thesis
    using run_actions_exact [of "set_usage_context (Some c) b" c "[]" std as] assms
    by (simp add: set_usage_context_def)
qed

section \<open>Witnesses\<close>

definition demo_std :: stdlib where
  "demo_std = \<lparr>std_isoformat = (\<lambda>t. [nat t, nat (- t)]),
     std_fromisoformat = (\<lambda>s. if length s = 2 then Some (int (s ! 0) - int (s ! 1)) else None),
     std_sha256_hex = (\<lambda>s. u ''h'' @ s), std_int = (\<lambda>s. None), std_repr = (\<lambda>v. []),
     std_pack = (\<lambda>p. []), std_unpack = (\<lambda>s. None), std_elapsed_ms = (\<lambda>d. d div 1000)\<rparr>"

definition demo_context :: usage_context where
  "demo_context = \<lparr>uc_tenant_id = u ''fac'', uc_user_id = u ''u1'', uc_session_id = u ''s1'',
     uc_interaction_id = u ''i1'', uc_trace_id = u ''t1''\<rparr>"

definition demo_call :: mes_call_record where
  "demo_call = \<lparr>mc_operation_id = u ''DeptQuery'', mc_page_count = 1, mc_row_count = 12,
     mc_duration_ms = 3, mc_status = u ''completed'', mc_error_category = None,
     mc_started_at = None, mc_ended_at = None\<rparr>"

definition demo_buffer :: usage_buffer where
  "demo_buffer = \<lparr>ub_context = None, ub_events = None\<rparr>"

lemma demo_iso: "std_fromisoformat demo_std (std_isoformat demo_std t) = Some t"
  by (simp add: demo_std_def)

theorem mes_call_roundtrip_witness:
  "\<exists>e db'. ub_events (record_mes_call demo_std (u ''e1'') 9000 demo_call
       (set_usage_context (Some demo_context) demo_buffer)) = Some [e] \<and>
     write_usage_events demo_std False [e] empty_metering = (db', None) \<and>
     map fm_started_at (mt_mes_call_facts db') = [Some 6000] \<and>
     map fm_row_count_bucket (mt_mes_call_facts db') = [u ''11-100'']"
  using mes_call_roundtrip [of demo_std "set_usage_context (Some demo_context) demo_buffer" demo_context "[]"
      "u ''e1''" empty_metering 9000 demo_call, OF demo_iso]
  by (fastforce simp: set_usage_context_def demo_buffer_def empty_metering_def demo_call_def
      resolve_span_edges_def us_millisecond_def row_count_bucket_def ROW_BUCKETS_def)

definition demo_event :: usage_event where
  "demo_event = \<lparr>ue_event_id = u ''e1'', ue_event_type = u ''interaction_routed'',
     ue_tenant_id = u ''fac'', ue_payload = [], ue_created_at = 5\<rparr>"

theorem metering_idempotent_witness:
  "\<exists>db'. write_usage_events demo_std False [demo_event] empty_metering = (db', None) \<and>
     length (mt_interaction_facts db') = 1 \<and>
     write_usage_events demo_std False [demo_event] db' = (db', None)"
proof -
  have "write_event demo_std demo_event empty_metering =
      Inr (empty_metering\<lparr>mt_usage_events := [usage_row demo_std demo_event],
        mt_interaction_facts := [interaction_fact_of demo_std demo_event]\<rparr>)"
    by (simp add: write_event_def event_types demo_event_def empty_metering_def insert_ignore_def Let_def)
  then have w: "write_usage_events demo_std False [demo_event] empty_metering =
      (empty_metering\<lparr>mt_usage_events := [usage_row demo_std demo_event],
        mt_interaction_facts := [interaction_fact_of demo_std demo_event]\<rparr>, None)"
    by (simp add: write_usage_events_def)
  then show ?thesis
    using metering_idempotent [OF w] by (simp add: metering_wf_def empty_metering_def keyed_Nil)
qed

theorem usage_buffer_exact_witness:
  "length (fst (run_actions demo_std [Call (u ''e1'') 1 demo_call, Drain, Call (u ''e2'') 2 demo_call]
     (set_usage_context (Some demo_context) demo_buffer))) \<le> 2"
  using usage_buffer_exact [of demo_buffer demo_std
      "[Call (u ''e1'') 1 demo_call, Drain, Call (u ''e2'') 2 demo_call]" demo_context]
  by (auto simp: demo_buffer_def dest!: arg_cong [where f = length])

end
