(* ===== verification/DebugTrace.thy ===== *)
theory DebugTrace
  imports Tables "HOL-Library.Product_Lexorder"
begin

text \<open>
  The debug payload channel: the capture records of \<^verbatim>\<open>observability/debug_trace.py\<close> and the
  store of \<^verbatim>\<open>persistence/debug_trace_store.py\<close>.  A captured payload is opaque here: it was
  redacted and bounded when it was recorded.  Like the metering write, a database fault drops the
  batch and is never raised.
\<close>

record captured_payload =
  cp_input :: pyval
  cp_output :: pyval
  cp_truncated :: bool
  cp_original_rows :: "int option"
  cp_original_bytes :: "int option"

record debug_capture =
  dc_span_key :: pystr
  dc_kind :: pystr
  dc_tenant_id :: pystr
  dc_user_id :: pystr
  dc_session_id :: pystr
  dc_interaction_id :: pystr
  dc_payload :: captured_payload
  dc_occurred_at :: instant
  dc_stage :: "pystr option"
  dc_logical_call_id :: "pystr option"
  dc_attempt :: "int option"
  dc_operation_id :: "pystr option"

text \<open>A row of \<open>debug_trace\<close>: the capture, its primary key and its expiry.\<close>

record debug_row =
  dr_trace_id :: pystr
  dr_capture :: debug_capture
  dr_expires_at :: instant

definition debug_retention :: "int \<Rightarrow> int" where
  "debug_retention retention_hours = max 1 retention_hours * us_hour"

definition debug_row_of :: "int \<Rightarrow> debug_capture \<Rightarrow> debug_row" where
  "debug_row_of retention c = \<lparr>dr_trace_id = dc_interaction_id c @ u '':'' @ dc_span_key c,
     dr_capture = c, dr_expires_at = dc_occurred_at c + retention\<rparr>"

definition debug_write ::
  "int \<Rightarrow> bool \<Rightarrow> debug_capture list \<Rightarrow> debug_row list \<Rightarrow> debug_row list" where
  "debug_write retention_hours fault captures rows =
     (if captures = [] \<or> fault then rows
      else fold (\<lambda>c. insert_ignore dr_trace_id (debug_row_of (debug_retention retention_hours) c))
        captures rows)"

definition purge_expired :: "bool \<Rightarrow> instant \<Rightarrow> debug_row list \<Rightarrow> nat \<times> debug_row list" where
  "purge_expired fault now rows = (if fault then (0, rows)
     else (length (filter (\<lambda>r. dr_expires_at r < now) rows), filter (\<lambda>r. \<not> dr_expires_at r < now) rows))"

definition load_payloads ::
  "pystr \<Rightarrow> pystr \<Rightarrow> pystr \<Rightarrow> instant \<Rightarrow> debug_row list \<Rightarrow> (pystr, debug_capture) dict" where
  "load_payloads tenant user interaction now rows =
     fold (\<lambda>r. AList.update (dc_span_key (dr_capture r)) (dr_capture r))
       (sort_key (\<lambda>r. (dc_occurred_at (dr_capture r), dr_trace_id r))
         (filter (\<lambda>r. dc_tenant_id (dr_capture r) = tenant \<and> dc_user_id (dr_capture r) = user \<and>
            dc_interaction_id (dr_capture r) = interaction \<and> now \<le> dr_expires_at r) rows)) []"

section \<open>Lemmas\<close>

lemma fold_update_values:
  "map_of (fold (\<lambda>r. AList.update (f r) (g r)) rs d) k = Some v \<Longrightarrow>
     map_of d k = Some v \<or> (\<exists>r \<in> set rs. f r = k \<and> g r = v)"
  by (induction rs arbitrary: d) (fastforce simp: dict_simps split: if_splits)+

lemma fold_update_dom:
  "map_of (fold (\<lambda>r. AList.update (f r) (g r)) rs d) k = None \<longleftrightarrow>
     map_of d k = None \<and> k \<notin> f ` set rs"
  by (induction rs arbitrary: d) (auto simp: dict_simps split: if_splits)

lemma debug_write_keyed:
  assumes "keyed dr_trace_id rows"
  shows "keyed dr_trace_id (debug_write h fault cs rows)"
proof -
  have "keyed dr_trace_id rows \<Longrightarrow>
      keyed dr_trace_id (fold (\<lambda>c. insert_ignore dr_trace_id (debug_row_of d c)) cs rows)" for d
    by (induction cs arbitrary: rows) (auto simp: table_simps)
  then show ?thesis using assms by (simp add: debug_write_def)
qed

lemma debug_write_rows:
  "set (debug_write h fault cs rows) \<subseteq> set rows \<union> debug_row_of (debug_retention h) ` set cs"
proof -
  have "set (fold (\<lambda>c. insert_ignore dr_trace_id (debug_row_of d c)) cs rows) \<subseteq>
      set rows \<union> debug_row_of d ` set cs" for d
    by (induction cs arbitrary: rows) (fastforce simp: set_insert_ignore split: if_splits)+
  then show ?thesis by (auto simp: debug_write_def)
qed

text \<open>
  Debug payloads are scoped and expire.  Every payload loaded for an owner's interaction is a
  capture of exactly that tenant, user and interaction under its own span key; it is either a row
  stored before or a capture of the batch just written, and in the latter case it is still inside
  its retention window.
\<close>

lemma debug_payloads_scoped:
  assumes "map_of (load_payloads tenant user interaction now (debug_write h fault cs rows)) k = Some c"
  shows "dc_span_key c = k \<and> dc_tenant_id c = tenant \<and> dc_user_id c = user \<and>
    dc_interaction_id c = interaction \<and>
    (c \<in> dr_capture ` set rows \<or> c \<in> set cs \<and> now \<le> dc_occurred_at c + max 1 h * us_hour)"
proof -
  let ?rows = "debug_write h fault cs rows"
  obtain r where r: "r \<in> set ?rows" "dr_capture r = c" "dc_span_key c = k"
    "dc_tenant_id c = tenant" "dc_user_id c = user" "dc_interaction_id c = interaction"
    "now \<le> dr_expires_at r"
    using fold_update_values [OF assms [unfolded load_payloads_def]] by auto
  then have "r \<in> set rows \<or> r \<in> debug_row_of (debug_retention h) ` set cs"
    using debug_write_rows by blast
  then show ?thesis using r by (auto simp: debug_row_of_def debug_retention_def)
qed

end
