(* ===== verification/Paging.thy ===== *)
theory Paging
  imports Tables "HOL-Library.Product_Lexorder"
begin

text \<open>
  Keyset pagination, as every listing of the session store does it: the rows are ordered by a key,
  a page holds the first \<open>limit\<close> rows strictly after the cursor, one extra row decides whether
  there is a next page, and the next cursor is the encoded key of the last row returned.

  \<open>walk_pages\<close> follows the cursors the way a client (and \<open>_session_history\<close>) does; its fuel
  bounds the number of requests.  The locale \<open>keyset_order\<close> is what the listings need of the
  order of their keys; its theorem is that a walk over fixed rows returns all of them, once and in
  order, with at most one request per row plus one.
\<close>

definition keyset_page :: "nat \<Rightarrow> ('r \<Rightarrow> 'c) \<Rightarrow> 'r list \<Rightarrow> 'r list \<times> 'c option" where
  "keyset_page limit cursor_of rows =
     (let fetched = take (Suc limit) rows; page = take limit fetched in
      (page, if length fetched > limit \<and> page \<noteq> [] then Some (cursor_of (last page)) else None))"

lemma keyset_page_eq:
  "keyset_page limit cursor_of rows = (take limit rows,
     if length rows > limit \<and> limit \<noteq> 0 then Some (cursor_of (last (take limit rows))) else None)"
  by (auto simp: keyset_page_def Let_def min_def)

fun walk_pages ::
  "nat \<Rightarrow> ('c option \<Rightarrow> 'e + 'r list \<times> 'c option) \<Rightarrow> 'c option \<Rightarrow> ('e + 'r list) option" where
  "walk_pages 0 fetch c = None"
| "walk_pages (Suc n) fetch c = (case fetch c of
     Inl e \<Rightarrow> Some (Inl e)
   | Inr (items, next_cursor) \<Rightarrow> (case next_cursor of
       None \<Rightarrow> Some (Inr items)
     | Some k \<Rightarrow> map_option (map_sum id (\<lambda>rest. items @ rest)) (walk_pages n fetch (Some k))))"

locale keyset_order =
  fixes before :: "'k \<Rightarrow> 'k \<Rightarrow> bool"
  assumes asym: "before a b \<Longrightarrow> \<not> before b a"
    and before_trans: "before a b \<Longrightarrow> before b c \<Longrightarrow> before a c"
begin

text \<open>The rows after the last row of a prefix are the rest.\<close>

lemma rows_after:
  assumes "sorted_wrt (\<lambda>r s. before (key r) (key s)) (pre @ rest)" and "pre \<noteq> []"
  shows "filter (\<lambda>s. before (key (last pre)) (key s)) (pre @ rest) = rest"
proof -
  have "\<not> before (key (last pre)) (key s)" if "s \<in> set pre" for s
  proof -
    have "s = last pre \<or> before (key s) (key (last pre))"
      using assms that by (cases pre rule: rev_cases) (auto simp: sorted_wrt_append)
    then show ?thesis using asym by blast
  qed
  moreover have "before (key (last pre)) (key s)" if "s \<in> set rest" for s
    using assms that last_in_set [OF assms(2)] by (auto simp: sorted_wrt_append)
  ultimately show ?thesis by (simp add: filter_empty_conv)
qed

lemma walk_suffix:
  assumes rows: "sorted_wrt (\<lambda>r s. before (key r) (key s)) rows" and limit: "0 < limit"
    and "next": "\<And>r. r \<in> set rows \<Longrightarrow> fetch (Some (cursor_of r)) =
      Inr (keyset_page limit cursor_of (filter (\<lambda>s. before (key r) (key s)) rows))"
  shows "rows = pre @ rest \<Longrightarrow> pre \<noteq> [] \<Longrightarrow> length rest < n \<Longrightarrow>
    walk_pages n fetch (Some (cursor_of (last pre))) = Some (Inr rest)"
proof (induction n arbitrary: pre rest)
  case (Suc n)
  have after: "fetch (Some (cursor_of (last pre))) = Inr (keyset_page limit cursor_of rest)"
    using "next" [of "last pre"] rows_after [of key pre rest] rows Suc.prems by simp
  show ?case
  proof (cases "length rest > limit")
    case False
    then show ?thesis by (simp add: after keyset_page_eq)
  next
    case True
    let ?page = "take limit rest"
    have "?page \<noteq> []" using True limit by auto
    then have "walk_pages n fetch (Some (cursor_of (last (pre @ ?page)))) = Some (Inr (drop limit rest))"
      using Suc.prems True limit by (intro Suc.IH) auto
    then show ?thesis using True limit \<open>?page \<noteq> []\<close> by (simp add: after keyset_page_eq)
  qed
qed simp

theorem walk_complete:
  assumes rows: "sorted_wrt (\<lambda>r s. before (key r) (key s)) rows" and limit: "0 < limit"
    and first: "fetch None = Inr (keyset_page limit cursor_of rows)"
    and "next": "\<And>r. r \<in> set rows \<Longrightarrow> fetch (Some (cursor_of r)) =
      Inr (keyset_page limit cursor_of (filter (\<lambda>s. before (key r) (key s)) rows))"
  shows "walk_pages (Suc (length rows)) fetch None = Some (Inr rows)"
proof (cases "length rows > limit")
  case False
  then show ?thesis by (simp add: first keyset_page_eq)
next
  case True
  let ?page = "take limit rows"
  have "?page \<noteq> []" using True limit by auto
  then have "walk_pages (length rows) fetch (Some (cursor_of (last ?page))) = Some (Inr (drop limit rows))"
    using True limit by (intro walk_suffix [OF rows limit "next"]) auto
  then show ?thesis using True limit by (simp add: first keyset_page_eq)
qed

end

interpretation ascending: keyset_order "(<) :: 'k::linorder \<Rightarrow> 'k \<Rightarrow> bool"
  by unfold_locales auto

interpretation descending: keyset_order "(>) :: 'k::linorder \<Rightarrow> 'k \<Rightarrow> bool"
  by unfold_locales auto

text \<open>\<^verbatim>\<open>ORDER BY\<close> a key that identifies the row gives strictly ordered rows.\<close>

lemma strictly_ordered:
  assumes "keyed key rows"
  shows "sorted_wrt (\<lambda>r s. key r < key s) (sort_key key rows)"
    and "sorted_wrt (\<lambda>r s. key s < key r) (rev (sort_key key rows))"
proof -
  have "distinct (map key (sort_key key rows))"
    using assms unfolding keyed_def by (metis distinct_map distinct_sort inj_on_cong set_sort)
  then have "sorted_wrt (<) (map key (sort_key key rows))"
    by (simp add: strict_sorted_iff)
  then show "sorted_wrt (\<lambda>r s. key r < key s) (sort_key key rows)"
    and "sorted_wrt (\<lambda>r s. key s < key r) (rev (sort_key key rows))"
    by (simp_all add: sorted_wrt_map sorted_wrt_rev)
qed

lemma filter_sort_key: "filter P (sort_key key rows) = sort_key key (filter P rows)"
  by (rule filter_sort)

end
