(* ===== verification/SessionStore.thy ===== *)
theory SessionStore
  imports Usage DebugTrace Paging "HOL-Library.Countable"
begin

text \<open>
  The durable session store: the tables of \<^verbatim>\<open>persistence/tables.py\<close>, the statements of
  \<^verbatim>\<open>persistence/queries.py\<close> and the operations of \<^verbatim>\<open>persistence/session_store.py\<close>.

  The database is a record of tables (\<open>session_db\<close>).  Each statement builder is one definition:
  a selection is a function of the table, an update returns the new table with the rows of its
  \<^verbatim>\<open>RETURNING\<close> clause.  Constraint violations are values (\<open>db_error\<close>): a transaction that
  meets one leaves the database as it was.  Text columns are ordered by code points, and the
  opaque cursor strings are packed and unpacked by the \<open>stdlib\<close> parameter.
\<close>

section \<open>Tables\<close>

record interaction_owner =
  ow_tenant_id :: tenant_id
  ow_user_id :: user_id

record event_row =
  evr_interaction_id :: interaction_id
  evr_sequence :: int
  evr_tenant_id :: tenant_id
  evr_user_id :: user_id
  evr_name :: pystr
  evr_data :: payload
  evr_created_at :: instant

record session_db =
  db_interactions :: "interaction_record list"
  db_messages :: "message_record list"
  db_conversations :: "conversation_record list"
  db_events :: "event_row list"
  db_metering :: metering_db
  db_debug :: "debug_row list"

definition empty_db :: session_db where
  "empty_db = \<lparr>db_interactions = [], db_messages = [], db_conversations = [], db_events = [],
     db_metering = empty_metering, db_debug = []\<rparr>"

record interaction_commit =
  ic_interaction :: interaction_record
  ic_messages :: "message_record list"
  ic_events :: "session_event list"
  ic_usage_events :: "usage_event list"
  ic_lifecycle :: bool

datatype db_error = UniqueViolation pystr | ForeignKeyViolation pystr | ConversationMissing

definition message_seq_key :: "message_record \<Rightarrow> interaction_id \<times> int" where
  "message_seq_key m = (mr_interaction_id m, mr_sequence m)"

definition message_order_key :: "message_record \<Rightarrow> instant \<times> interaction_id \<times> int" where
  "message_order_key m = (mr_created_at m, mr_interaction_id m, mr_sequence m)"

definition interaction_order_key :: "interaction_record \<Rightarrow> instant \<times> interaction_id" where
  "interaction_order_key r = (ir_created_at r, ir_interaction_id r)"

definition conversation_key :: "conversation_record \<Rightarrow> tenant_id \<times> user_id \<times> pystr" where
  "conversation_key c = (cr_tenant_id c, cr_user_id c, cr_session_id c)"

definition conversation_order_key :: "conversation_record \<Rightarrow> instant \<times> pystr" where
  "conversation_order_key c = (cr_updated_at c, cr_session_id c)"

definition event_key :: "event_row \<Rightarrow> interaction_id \<times> int" where
  "event_key e = (evr_interaction_id e, evr_sequence e)"

section \<open>Cursors\<close>

datatype cursor_error = CursorError

definition encode_cursor :: "stdlib \<Rightarrow> instant \<Rightarrow> pystr \<Rightarrow> pystr" where
  "encode_cursor std created_at row_id =
     std_pack std [(u ''at'', PStr (std_isoformat std created_at)), (u ''id'', PStr row_id)]"

definition decode_cursor :: "stdlib \<Rightarrow> pystr \<Rightarrow> cursor_error + instant \<times> pystr" where
  "decode_cursor std cursor = (case std_unpack std cursor of
     Some (PDict p) \<Rightarrow> (case (pget (u ''at'') p, pget (u ''id'') p) of
         (PStr raw_at, PStr raw_id) \<Rightarrow> (case std_fromisoformat std raw_at of
             Some t \<Rightarrow> Inr (t, raw_id) | None \<Rightarrow> Inl CursorError)
       | _ \<Rightarrow> Inl CursorError)
   | _ \<Rightarrow> Inl CursorError)"

definition encode_message_cursor :: "stdlib \<Rightarrow> instant \<Rightarrow> interaction_id \<Rightarrow> int \<Rightarrow> pystr" where
  "encode_message_cursor std created_at iid sequence =
     std_pack std [(u ''at'', PStr (std_isoformat std created_at)), (u ''iid'', PStr iid),
       (u ''seq'', PInt sequence)]"

definition decode_message_cursor :: "stdlib \<Rightarrow> pystr \<Rightarrow> cursor_error + instant \<times> interaction_id \<times> int" where
  "decode_message_cursor std cursor = (case std_unpack std cursor of
     Some (PDict p) \<Rightarrow> (case (pget (u ''at'') p, pget (u ''iid'') p) of
         (PStr raw_at, PStr raw_iid) \<Rightarrow> (case pget (u ''seq'') p of
             PInt raw_seq \<Rightarrow> (case std_fromisoformat std raw_at of
                 Some t \<Rightarrow> Inr (t, raw_iid, raw_seq) | None \<Rightarrow> Inl CursorError)
           | _ \<Rightarrow> Inl CursorError)
       | _ \<Rightarrow> Inl CursorError)
   | _ \<Rightarrow> Inl CursorError)"

section \<open>queries.py: selections\<close>

text \<open>\<open>_owned\<close>, for each table.\<close>

definition owns_interaction :: "interaction_owner \<Rightarrow> interaction_record \<Rightarrow> bool" where
  "owns_interaction own r \<longleftrightarrow> ir_tenant_id r = ow_tenant_id own \<and> ir_user_id r = ow_user_id own"
definition owns_message :: "interaction_owner \<Rightarrow> message_record \<Rightarrow> bool" where
  "owns_message own m \<longleftrightarrow> mr_tenant_id m = ow_tenant_id own \<and> mr_user_id m = ow_user_id own"
definition owns_conversation :: "interaction_owner \<Rightarrow> conversation_record \<Rightarrow> bool" where
  "owns_conversation own c \<longleftrightarrow> cr_tenant_id c = ow_tenant_id own \<and> cr_user_id c = ow_user_id own"
definition owns_event :: "interaction_owner \<Rightarrow> event_row \<Rightarrow> bool" where
  "owns_event own e \<longleftrightarrow> evr_tenant_id e = ow_tenant_id own \<and> evr_user_id e = ow_user_id own"

lemmas owns_defs = owns_interaction_def owns_message_def owns_conversation_def owns_event_def

definition select_interaction ::
  "interaction_owner \<Rightarrow> interaction_id \<Rightarrow> session_db \<Rightarrow> interaction_record list" where
  "select_interaction own iid db =
     filter (\<lambda>r. owns_interaction own r \<and> ir_interaction_id r = iid) (db_interactions db)"

definition select_events ::
  "interaction_owner \<Rightarrow> interaction_id \<Rightarrow> int \<Rightarrow> session_db \<Rightarrow> event_row list" where
  "select_events own iid after_sequence db = sort_key evr_sequence
     (filter (\<lambda>e. owns_event own e \<and> evr_interaction_id e = iid \<and> after_sequence < evr_sequence e)
       (db_events db))"

text \<open>The three paged selections, before their \<^verbatim>\<open>LIMIT\<close>: the caller takes one row more than the
  page (\<open>keyset_page\<close>).\<close>

definition select_messages ::
  "interaction_owner \<Rightarrow> pystr \<Rightarrow> (instant \<times> interaction_id \<times> int) option \<Rightarrow> message_kind set \<Rightarrow>
   session_db \<Rightarrow> message_record list" where
  "select_messages own sid cursor exclude_kinds db = sort_key message_order_key
     (filter (\<lambda>m. owns_message own m \<and> mr_session_id m = sid \<and> mr_kind m \<notin> exclude_kinds \<and>
        (case cursor of None \<Rightarrow> True | Some k \<Rightarrow> k < message_order_key m)) (db_messages db))"

definition select_interactions ::
  "interaction_owner \<Rightarrow> pystr \<Rightarrow> (instant \<times> interaction_id) option \<Rightarrow> session_db \<Rightarrow>
   interaction_record list" where
  "select_interactions own sid cursor db = sort_key interaction_order_key
     (filter (\<lambda>r. owns_interaction own r \<and> ir_session_id r = sid \<and>
        (case cursor of None \<Rightarrow> True | Some k \<Rightarrow> k < interaction_order_key r)) (db_interactions db))"

definition select_conversations ::
  "interaction_owner \<Rightarrow> (instant \<times> pystr) option \<Rightarrow> session_db \<Rightarrow> conversation_record list" where
  "select_conversations own cursor db = rev (sort_key conversation_order_key
     (filter (\<lambda>c. owns_conversation own c \<and>
        (case cursor of None \<Rightarrow> True | Some k \<Rightarrow> conversation_order_key c < k)) (db_conversations db)))"

definition select_latest_message ::
  "interaction_owner \<Rightarrow> pystr \<Rightarrow> message_kind set \<Rightarrow> session_db \<Rightarrow> message_record list" where
  "select_latest_message own sid kinds db = take 1 (rev (sort_key message_order_key
     (filter (\<lambda>m. owns_message own m \<and> mr_session_id m = sid \<and> mr_kind m \<in> kinds) (db_messages db))))"

definition select_conversation ::
  "interaction_owner \<Rightarrow> pystr \<Rightarrow> session_db \<Rightarrow> conversation_record list" where
  "select_conversation own sid db =
     filter (\<lambda>c. owns_conversation own c \<and> cr_session_id c = sid) (db_conversations db)"

definition count_conversations :: "interaction_owner \<Rightarrow> session_db \<Rightarrow> nat" where
  "count_conversations own db = length (filter (owns_conversation own) (db_conversations db))"

text \<open>The grouped reads of the conversation list, for one session: the newest readable message with
  the readable count, the text of the earliest user question, and the newest interaction with the
  interaction count.\<close>

definition select_conversation_messages ::
  "interaction_owner \<Rightarrow> pystr \<Rightarrow> session_db \<Rightarrow> (message_record \<times> nat) option" where
  "select_conversation_messages own sid db =
     (let rows = sort_key message_order_key (filter (\<lambda>m. owns_message own m \<and> mr_session_id m = sid \<and>
            mr_kind m \<noteq> PHASE) (db_messages db))
      in if rows = [] then None else Some (last rows, length rows))"

definition select_conversation_first_questions ::
  "interaction_owner \<Rightarrow> pystr \<Rightarrow> session_db \<Rightarrow> pystr option" where
  "select_conversation_first_questions own sid db =
     (let rows = sort_key message_order_key (filter (\<lambda>m. owns_message own m \<and> mr_session_id m = sid \<and>
            mr_role m = USER \<and> mr_kind m = PLAIN_TEXT) (db_messages db))
      in if rows = [] then None else Some (mr_text (hd rows)))"

definition select_conversation_interactions ::
  "interaction_owner \<Rightarrow> pystr \<Rightarrow> session_db \<Rightarrow> (interaction_record \<times> nat) option" where
  "select_conversation_interactions own sid db =
     (let rows = sort_key interaction_order_key
            (filter (\<lambda>r. owns_interaction own r \<and> ir_session_id r = sid) (db_interactions db))
      in if rows = [] then None else Some (last rows, length rows))"

section \<open>queries.py: updates\<close>

text \<open>\<open>insert_conversation\<close>: the flag is what \<^verbatim>\<open>RETURNING\<close> reports.\<close>

definition insert_conversation ::
  "tenant_id \<Rightarrow> user_id \<Rightarrow> pystr \<Rightarrow> instant \<Rightarrow> conversation_record list \<Rightarrow>
   bool \<times> conversation_record list" where
  "insert_conversation tenant user sid created_at rows =
     (let c = \<lparr>cr_session_id = sid, cr_tenant_id = tenant, cr_user_id = user,
            cr_created_at = created_at, cr_updated_at = created_at\<rparr>
      in (conversation_key c \<notin> conversation_key ` set rows, insert_ignore conversation_key c rows))"

definition touch_conversation ::
  "tenant_id \<Rightarrow> user_id \<Rightarrow> pystr \<Rightarrow> instant \<Rightarrow> conversation_record list \<Rightarrow>
   conversation_record list \<times> conversation_record list" where
  "touch_conversation tenant user sid now rows =
     update_where (\<lambda>c. conversation_key c = (tenant, user, sid))
       (\<lambda>c. c\<lparr>cr_updated_at := if cr_updated_at c > now then cr_updated_at c else now\<rparr>) rows"

definition claim_interaction_run ::
  "interaction_owner \<Rightarrow> interaction_id \<Rightarrow> instant \<Rightarrow> interaction_record list \<Rightarrow>
   interaction_record list \<times> interaction_record list" where
  "claim_interaction_run own iid now rows =
     update_where (\<lambda>r. owns_interaction own r \<and> ir_interaction_id r = iid \<and> ir_status r = IPending)
       (\<lambda>r. r\<lparr>ir_status := IRunning, ir_updated_at := now\<rparr>) rows"

definition touch_interaction_run ::
  "interaction_owner \<Rightarrow> interaction_id \<Rightarrow> int \<Rightarrow> instant \<Rightarrow> interaction_record list \<Rightarrow>
   interaction_record list" where
  "touch_interaction_run own iid last_event_sequence updated_at rows =
     fst (update_where (\<lambda>r. owns_interaction own r \<and> ir_interaction_id r = iid)
       (\<lambda>r. r\<lparr>ir_last_event_sequence := last_event_sequence, ir_updated_at := updated_at\<rparr>) rows)"

text \<open>The \<^verbatim>\<open>VALUES\<close> shared by the three recovery updates.\<close>

definition failed_by_sweep :: "instant \<Rightarrow> pystr \<Rightarrow> interaction_record \<Rightarrow> interaction_record" where
  "failed_by_sweep now category r = r\<lparr>ir_status := IFailed, ir_state := FAILED,
     ir_error_category := Some category, ir_updated_at := now, ir_completed_at := Some now,
     ir_last_event_sequence := ir_last_event_sequence r + 1\<rparr>"

definition fail_stale_interaction_run ::
  "interaction_owner \<Rightarrow> interaction_id \<Rightarrow> instant \<Rightarrow> instant \<Rightarrow> pystr \<Rightarrow> interaction_record list \<Rightarrow>
   interaction_record list \<times> interaction_record list" where
  "fail_stale_interaction_run own iid stale_before now category rows =
     update_where (\<lambda>r. owns_interaction own r \<and> ir_interaction_id r = iid \<and> ir_status r = IRunning \<and>
         ir_updated_at r < stale_before) (failed_by_sweep now category) rows"

definition fail_stale_interaction_runs ::
  "instant \<Rightarrow> instant \<Rightarrow> pystr \<Rightarrow> interaction_record list \<Rightarrow>
   interaction_record list \<times> interaction_record list" where
  "fail_stale_interaction_runs stale_before now category rows =
     update_where (\<lambda>r. ir_status r = IRunning \<and> ir_updated_at r < stale_before)
       (failed_by_sweep now category) rows"

definition fail_abandoned_interaction_runs ::
  "instant \<Rightarrow> instant \<Rightarrow> pystr \<Rightarrow> interaction_record list \<Rightarrow>
   interaction_record list \<times> interaction_record list" where
  "fail_abandoned_interaction_runs abandoned_before now category rows =
     update_where (\<lambda>r. ir_status r = IPending \<and> ir_created_at r < abandoned_before)
       (failed_by_sweep now category) rows"

section \<open>session\_store.py: the business transaction\<close>

definition refresh_conversation ::
  "interaction_record \<Rightarrow> conversation_record list \<Rightarrow> conversation_record list" where
  "refresh_conversation r rows =
     (let (touched, returned) = touch_conversation (ir_tenant_id r) (ir_user_id r) (ir_session_id r)
            (ir_updated_at r) rows
      in if returned = []
         then snd (insert_conversation (ir_tenant_id r) (ir_user_id r) (ir_session_id r)
           (ir_created_at r) touched)
         else touched)"

definition upsert_interaction :: "interaction_record \<Rightarrow> session_db \<Rightarrow> session_db" where
  "upsert_interaction r db = db\<lparr>db_interactions := upsert ir_interaction_id r (db_interactions db)\<rparr>"

definition touch_interaction :: "interaction_record \<Rightarrow> session_db \<Rightarrow> session_db" where
  "touch_interaction r db = db\<lparr>db_interactions := touch_interaction_run
     \<lparr>ow_tenant_id = ir_tenant_id r, ow_user_id = ir_user_id r\<rparr> (ir_interaction_id r)
     (ir_last_event_sequence r) (ir_updated_at r) (db_interactions db)\<rparr>"

text \<open>The message upsert on \<open>message_id\<close>: the other unique constraint and the foreign key are
  checked by the database.\<close>

definition upsert_message :: "message_record \<Rightarrow> session_db \<Rightarrow> db_error + session_db" where
  "upsert_message m db =
     (if mr_interaction_id m \<notin> ir_interaction_id ` set (db_interactions db)
      then Inl (ForeignKeyViolation (u ''agent_message''))
      else if \<exists>x \<in> set (db_messages db). mr_message_id x \<noteq> mr_message_id m \<and>
          message_seq_key x = message_seq_key m
      then Inl (UniqueViolation (u ''agent_message_sequence_key''))
      else Inr (db\<lparr>db_messages := upsert mr_message_id m (db_messages db)\<rparr>))"

definition upsert_event :: "interaction_record \<Rightarrow> session_event \<Rightarrow> session_db \<Rightarrow> db_error + session_db" where
  "upsert_event r e db =
     (if ir_interaction_id r \<notin> ir_interaction_id ` set (db_interactions db)
      then Inl (ForeignKeyViolation (u ''agent_interaction_event''))
      else Inr (db\<lparr>db_events := upsert event_key
        \<lparr>evr_interaction_id = ir_interaction_id r, evr_sequence = ev_sequence e,
         evr_tenant_id = ir_tenant_id r, evr_user_id = ir_user_id r, evr_name = ev_name e,
         evr_data = ev_data e, evr_created_at = ir_updated_at r\<rparr> (db_events db)\<rparr>))"

definition commit_interaction :: "interaction_commit \<Rightarrow> session_db \<Rightarrow> session_db" where
  "commit_interaction c db = (let r = ic_interaction c in
     if ic_lifecycle c
     then (let db1 = upsert_interaction r db
           in db1\<lparr>db_conversations := refresh_conversation r (db_conversations db1)\<rparr>)
     else touch_interaction r db)"

definition commit_tx :: "interaction_commit \<Rightarrow> session_db \<Rightarrow> db_error + session_db" where
  "commit_tx c db =
     rbind (rfold upsert_message (ic_messages c) (commit_interaction c db))
       (rfold (upsert_event (ic_interaction c)) (ic_events c))"

text \<open>
  What surrounds the store: the library, whether the metering and the debug transaction meet a
  database fault, the retention of the configured debug store (none when there is no store), and the
  captures recorded since the last commit.
\<close>

record store_env =
  env_std :: stdlib
  env_metering_fault :: bool
  env_debug_fault :: bool
  env_debug_retention :: "int option"
  env_captures :: "debug_capture list"

definition commit :: "store_env \<Rightarrow> interaction_commit \<Rightarrow> session_db \<Rightarrow> (db_error + unit) \<times> session_db" where
  "commit env c db = (case commit_tx c db of
     Inl e \<Rightarrow> (Inl e, db)
   | Inr db1 \<Rightarrow>
       (Inr (), db1\<lparr>db_metering := fst (write_usage_events (env_std env) (env_metering_fault env)
            (ic_usage_events c) (db_metering db1)),
          db_debug := (case env_debug_retention env of
              None \<Rightarrow> db_debug db1
            | Some h \<Rightarrow> debug_write h (env_debug_fault env) (env_captures env) (db_debug db1))\<rparr>))"

section \<open>session\_store.py: operations\<close>

definition first_row :: "'r list \<Rightarrow> 'r option" where
  "first_row rows = (case rows of [] \<Rightarrow> None | r # _ \<Rightarrow> Some r)"

definition with_interactions ::
  "interaction_record list \<times> interaction_record list \<Rightarrow> session_db \<Rightarrow>
   interaction_record list \<times> session_db" where
  "with_interactions result db = (snd result, db\<lparr>db_interactions := fst result\<rparr>)"

definition claim_run ::
  "interaction_owner \<Rightarrow> interaction_id \<Rightarrow> instant \<Rightarrow> session_db \<Rightarrow>
   interaction_record option \<times> session_db" where
  "claim_run own iid now db =
     apfst first_row (with_interactions (claim_interaction_run own iid now (db_interactions db)) db)"

definition fail_stale_run ::
  "interaction_owner \<Rightarrow> interaction_id \<Rightarrow> instant \<Rightarrow> instant \<Rightarrow> pystr \<Rightarrow> session_db \<Rightarrow>
   interaction_record option \<times> session_db" where
  "fail_stale_run own iid stale_before now category db = apfst first_row
     (with_interactions (fail_stale_interaction_run own iid stale_before now category (db_interactions db)) db)"

definition fail_stale_runs ::
  "instant \<Rightarrow> instant \<Rightarrow> pystr \<Rightarrow> session_db \<Rightarrow> interaction_record list \<times> session_db" where
  "fail_stale_runs stale_before now category db =
     with_interactions (fail_stale_interaction_runs stale_before now category (db_interactions db)) db"

definition fail_abandoned_runs ::
  "instant \<Rightarrow> instant \<Rightarrow> pystr \<Rightarrow> session_db \<Rightarrow> interaction_record list \<times> session_db" where
  "fail_abandoned_runs abandoned_before now category db =
     with_interactions (fail_abandoned_interaction_runs abandoned_before now category (db_interactions db)) db"

definition get_interaction ::
  "interaction_owner \<Rightarrow> interaction_id \<Rightarrow> session_db \<Rightarrow> interaction_record option" where
  "get_interaction own iid db = first_row (select_interaction own iid db)"

definition list_events ::
  "interaction_owner \<Rightarrow> interaction_id \<Rightarrow> int \<Rightarrow> session_db \<Rightarrow> session_event list" where
  "list_events own iid after_sequence db =
     map (\<lambda>e. \<lparr>ev_sequence = evr_sequence e, ev_name = evr_name e, ev_data = evr_data e\<rparr>)
       (select_events own iid after_sequence db)"

text \<open>\<open>decode(cursor) if cursor else None\<close>.\<close>

definition decoded_with :: "(pystr \<Rightarrow> cursor_error + 'k) \<Rightarrow> pystr option \<Rightarrow> cursor_error + 'k option" where
  "decoded_with decode cursor = (case cursor of
     None \<Rightarrow> Inr None
   | Some s \<Rightarrow> if s = [] then Inr None else rbind (decode s) (\<lambda>k. Inr (Some k)))"

definition list_messages ::
  "stdlib \<Rightarrow> interaction_owner \<Rightarrow> pystr \<Rightarrow> nat \<Rightarrow> message_kind set \<Rightarrow> session_db \<Rightarrow> pystr option \<Rightarrow>
   cursor_error + message_record list \<times> pystr option" where
  "list_messages std own sid limit exclude_kinds db cursor =
     rbind (decoded_with (decode_message_cursor std) cursor) (\<lambda>decoded.
       Inr (keyset_page limit
         (\<lambda>m. encode_message_cursor std (mr_created_at m) (mr_interaction_id m) (mr_sequence m))
         (select_messages own sid decoded exclude_kinds db)))"

definition list_interactions ::
  "stdlib \<Rightarrow> interaction_owner \<Rightarrow> pystr \<Rightarrow> nat \<Rightarrow> session_db \<Rightarrow> pystr option \<Rightarrow>
   cursor_error + interaction_record list \<times> pystr option" where
  "list_interactions std own sid limit db cursor =
     rbind (decoded_with (decode_cursor std) cursor) (\<lambda>decoded.
       Inr (keyset_page limit (\<lambda>r. encode_cursor std (ir_created_at r) (ir_interaction_id r))
         (select_interactions own sid decoded db)))"

definition latest_message ::
  "interaction_owner \<Rightarrow> pystr \<Rightarrow> message_kind set \<Rightarrow> session_db \<Rightarrow> message_record option" where
  "latest_message own sid kinds db =
     (if kinds = {} then None else first_row (select_latest_message own sid kinds db))"

record conversation_summary =
  cs_conversation :: conversation_record
  cs_interaction_count :: nat
  cs_message_count :: nat
  cs_last_message :: "message_record option"
  cs_last_status :: "interaction_status option"
  cs_title_source :: "pystr option"

definition hydrate_conversations ::
  "interaction_owner \<Rightarrow> conversation_record list \<Rightarrow> session_db \<Rightarrow> conversation_summary list" where
  "hydrate_conversations own records db = map (\<lambda>c.
     let message_row = select_conversation_messages own (cr_session_id c) db;
         turn_row = select_conversation_interactions own (cr_session_id c) db
     in \<lparr>cs_conversation = c,
         cs_interaction_count = (case turn_row of None \<Rightarrow> 0 | Some (r, n) \<Rightarrow> n),
         cs_message_count = (case message_row of None \<Rightarrow> 0 | Some (m, n) \<Rightarrow> n),
         cs_last_message = map_option fst message_row,
         cs_last_status = map_option (\<lambda>(r, n). ir_status r) turn_row,
         cs_title_source = select_conversation_first_questions own (cr_session_id c) db\<rparr>) records"

definition list_conversations ::
  "stdlib \<Rightarrow> interaction_owner \<Rightarrow> nat \<Rightarrow> session_db \<Rightarrow> pystr option \<Rightarrow>
   cursor_error + conversation_summary list \<times> pystr option" where
  "list_conversations std own limit db cursor =
     rbind (decoded_with (decode_cursor std) cursor) (\<lambda>decoded.
       Inr (apfst (\<lambda>page. hydrate_conversations own page db)
         (keyset_page limit (\<lambda>c. encode_cursor std (cr_updated_at c) (cr_session_id c))
           (select_conversations own decoded db))))"

definition get_conversation ::
  "interaction_owner \<Rightarrow> pystr \<Rightarrow> session_db \<Rightarrow> conversation_summary option" where
  "get_conversation own sid db = (case first_row (select_conversation own sid db) of
     None \<Rightarrow> None | Some c \<Rightarrow> first_row (hydrate_conversations own [c] db))"

definition create_conversation ::
  "interaction_owner \<Rightarrow> pystr \<Rightarrow> instant \<Rightarrow> session_db \<Rightarrow>
   (db_error + conversation_summary \<times> bool) \<times> session_db" where
  "create_conversation own sid now db =
     (let (inserted, rows) = insert_conversation (ow_tenant_id own) (ow_user_id own) sid now (db_conversations db);
          db1 = db\<lparr>db_conversations := rows\<rparr>
      in case get_conversation own sid db1 of
          None \<Rightarrow> (Inl ConversationMissing, db)
        | Some s \<Rightarrow> (Inr (s, inserted), db1))"

text \<open>\<open>delete_session\<close>; messages and events go with their interactions (\<^verbatim>\<open>ON DELETE
  CASCADE\<close>).\<close>

definition delete_session :: "interaction_owner \<Rightarrow> pystr \<Rightarrow> session_db \<Rightarrow> bool \<times> session_db" where
  "delete_session own sid db =
     (let doomed = filter (\<lambda>r. owns_interaction own r \<and> ir_session_id r = sid) (db_interactions db);
          ids = ir_interaction_id ` set doomed
      in (doomed \<noteq> [], db\<lparr>
         db_interactions := filter (\<lambda>r. \<not> (owns_interaction own r \<and> ir_session_id r = sid)) (db_interactions db),
         db_messages := filter (\<lambda>m. mr_interaction_id m \<notin> ids) (db_messages db),
         db_events := filter (\<lambda>e. evr_interaction_id e \<notin> ids) (db_events db)\<rparr>))"

section \<open>Operations as values\<close>

text \<open>Every operation that changes the database; a list of them is one interleaving of the
  transactions of all connections, workers and sweeps.\<close>

datatype store_op =
    Commit store_env interaction_commit
  | Claim interaction_owner interaction_id instant
  | FailStale interaction_owner interaction_id instant instant pystr
  | FailStaleRuns instant instant pystr
  | FailAbandoned instant instant pystr
  | CreateConversation interaction_owner pystr instant
  | DeleteSession interaction_owner pystr

fun apply_op :: "store_op \<Rightarrow> session_db \<Rightarrow> session_db" where
  "apply_op (Commit env c) db = snd (commit env c db)"
| "apply_op (Claim own iid now) db = snd (claim_run own iid now db)"
| "apply_op (FailStale own iid stale_before now category) db =
     snd (fail_stale_run own iid stale_before now category db)"
| "apply_op (FailStaleRuns stale_before now category) db = snd (fail_stale_runs stale_before now category db)"
| "apply_op (FailAbandoned abandoned_before now category) db =
     snd (fail_abandoned_runs abandoned_before now category db)"
| "apply_op (CreateConversation own sid now) db = snd (create_conversation own sid now db)"
| "apply_op (DeleteSession own sid) db = snd (delete_session own sid db)"

section \<open>The constraints hold\<close>

definition db_wf :: "session_db \<Rightarrow> bool" where
  "db_wf db \<longleftrightarrow>
     keyed ir_interaction_id (db_interactions db) \<and>
     keyed mr_message_id (db_messages db) \<and> keyed message_seq_key (db_messages db) \<and>
     keyed conversation_key (db_conversations db) \<and> keyed event_key (db_events db) \<and>
     mr_interaction_id ` set (db_messages db) \<subseteq> ir_interaction_id ` set (db_interactions db) \<and>
     evr_interaction_id ` set (db_events db) \<subseteq> ir_interaction_id ` set (db_interactions db) \<and>
     metering_wf (db_metering db) \<and> keyed dr_trace_id (db_debug db)"

lemma upsert_message_wf: "upsert_message m db = Inr db' \<Longrightarrow> db_wf db \<Longrightarrow> db_wf db'"
proof -
  assume m: "upsert_message m db = Inr db'" and wf: "db_wf db"
  then have new: "db' = db\<lparr>db_messages := upsert mr_message_id m (db_messages db)\<rparr>"
    and fk: "mr_interaction_id m \<in> ir_interaction_id ` set (db_interactions db)"
    and uniq: "\<And>x. x \<in> set (db_messages db) \<Longrightarrow> mr_message_id x \<noteq> mr_message_id m \<Longrightarrow>
      message_seq_key x \<noteq> message_seq_key m"
    by (auto simp: upsert_message_def split: if_splits)
  have "keyed message_seq_key (upsert mr_message_id m (db_messages db))"
    using wf uniq by (intro keyed_upsert_other) (auto simp: db_wf_def)
  moreover have "mr_interaction_id ` set (upsert mr_message_id m (db_messages db)) \<subseteq>
      ir_interaction_id ` set (db_interactions db)"
    using wf fk set_upsert [of mr_message_id "db_messages db" m] by (auto simp: db_wf_def)
  ultimately show "db_wf db'"
    using wf by (simp add: new db_wf_def keyed_upsert)
qed

lemma upsert_event_wf: "upsert_event r e db = Inr db' \<Longrightarrow> db_wf db \<Longrightarrow> db_wf db'"
proof -
  assume e: "upsert_event r e db = Inr db'" and wf: "db_wf db"
  obtain row where new: "db' = db\<lparr>db_events := upsert event_key row (db_events db)\<rparr>"
    and id: "evr_interaction_id row = ir_interaction_id r"
    and fk: "ir_interaction_id r \<in> ir_interaction_id ` set (db_interactions db)"
    using e by (auto simp: upsert_event_def split: if_splits)
  have "evr_interaction_id ` set (upsert event_key row (db_events db)) \<subseteq>
      ir_interaction_id ` set (db_interactions db)"
    using wf fk id set_upsert [of event_key "db_events db" row] by (auto simp: db_wf_def)
  then show "db_wf db'"
    using wf by (simp add: new db_wf_def keyed_upsert)
qed

lemma refresh_conversation_keyed:
  assumes "keyed conversation_key rows"
  shows "keyed conversation_key (refresh_conversation r rows)"
proof -
  let ?t = "touch_conversation (ir_tenant_id r) (ir_user_id r) (ir_session_id r) (ir_updated_at r) rows"
  have "keyed conversation_key (fst ?t)"
    using assms by (simp add: touch_conversation_def keyed_update conversation_key_def)
  then show ?thesis
    by (simp add: refresh_conversation_def insert_conversation_def Let_def case_prod_beta keyed_insert_ignore)
qed

lemma commit_interaction_wf:
  assumes "db_wf db"
  shows "db_wf (commit_interaction c db)"
proof -
  let ?r = "ic_interaction c"
  have "keyed ir_interaction_id (touch_interaction_run own (ir_interaction_id ?r) s t (db_interactions db))"
    "ir_interaction_id ` set (touch_interaction_run own (ir_interaction_id ?r) s t (db_interactions db)) =
      ir_interaction_id ` set (db_interactions db)" for own s t
    using assms by (simp_all add: touch_interaction_run_def keyed_update keys_update_where db_wf_def)
  then show ?thesis
    using assms
    by (auto simp: commit_interaction_def upsert_interaction_def touch_interaction_def db_wf_def Let_def
        keyed_upsert keys_upsert refresh_conversation_keyed)
qed

lemma commit_tx_wf:
  assumes "commit_tx c db = Inr db'" and "db_wf db"
  shows "db_wf db'"
proof -
  obtain db1 where msgs: "rfold upsert_message (ic_messages c) (commit_interaction c db) = Inr db1"
    and evs: "rfold (upsert_event (ic_interaction c)) (ic_events c) db1 = Inr db'"
    using assms(1) by (auto simp: commit_tx_def rbind_Inr)
  have "db_wf db1"
    using commit_interaction_wf [OF assms(2)]
    by (rule rfold_invariant [where I = db_wf, OF _ msgs, rotated]) (rule upsert_message_wf)
  then show ?thesis
    by (rule rfold_invariant [where I = db_wf, OF _ evs, rotated]) (rule upsert_event_wf)
qed

lemma write_usage_events_wf: "metering_wf m \<Longrightarrow> metering_wf (fst (write_usage_events std fault es m))"
  by (auto simp: write_usage_events_def split: sum.splits dest: write_events_wf)

lemma commit_wf: "db_wf db \<Longrightarrow> db_wf (snd (commit env c db))"
proof (cases "commit_tx c db")
  case (Inr db1)
  assume "db_wf db"
  then have "db_wf db1" by (rule commit_tx_wf [OF Inr])
  then show ?thesis
    unfolding db_wf_def commit_def Inr
    by (simp add: write_usage_events_wf debug_write_keyed split: option.split)
qed (simp add: commit_def)

text \<open>The compare-and-set updates change no key.\<close>

lemma update_interactions_wf:
  assumes "\<And>r. ir_interaction_id (f r) = ir_interaction_id r" and "db_wf db"
  shows "db_wf (snd (with_interactions (update_where P f (db_interactions db)) db))"
  using assms by (simp add: with_interactions_def db_wf_def keyed_update keys_update_where)

lemma delete_session_wf:
  assumes "db_wf db"
  shows "db_wf (snd (delete_session own sid db))"
proof -
  let ?doomed = "\<lambda>r. owns_interaction own r \<and> ir_session_id r = sid"
  let ?ids = "ir_interaction_id ` {r \<in> set (db_interactions db). ?doomed r}"
  have live: "x \<in> ir_interaction_id ` {r \<in> set (db_interactions db). \<not> ?doomed r}"
    if "x \<in> ir_interaction_id ` set (db_interactions db)" "x \<notin> ?ids" for x
    using that by auto
  show ?thesis
    using assms live by (auto simp: delete_session_def db_wf_def Let_def keyed_filter)
qed

lemma apply_op_wf: "db_wf db \<Longrightarrow> db_wf (apply_op op db)"
proof (cases op)
  case (Commit env c)
  then show "db_wf db \<Longrightarrow> ?thesis" by (simp add: commit_wf)
next
  case (CreateConversation own sid now)
  then show "db_wf db \<Longrightarrow> ?thesis"
    by (auto simp: create_conversation_def insert_conversation_def db_wf_def Let_def keyed_insert_ignore
        split: option.split)
next
  case (DeleteSession own sid)
  then show "db_wf db \<Longrightarrow> ?thesis" by (simp add: delete_session_wf)
qed (simp_all add: claim_run_def fail_stale_run_def fail_stale_runs_def fail_abandoned_runs_def
    claim_interaction_run_def fail_stale_interaction_run_def fail_stale_interaction_runs_def
    fail_abandoned_interaction_runs_def failed_by_sweep_def update_interactions_wf)

text \<open>
  The tables stay well formed.  Whatever commits, claims, sweeps, creations and deletions
  happen from an empty database, in any order and whether or not they fail: every primary key and
  the unique key of a message inside its interaction hold, every message and event belongs to a
  stored interaction, and the metering and debug tables keep their keys.
\<close>

theorem store_always_well_formed: "db_wf (fold apply_op ops empty_db)"
proof -
  have "db_wf empty_db"
    by (simp add: db_wf_def empty_db_def metering_wf_def empty_metering_def keyed_Nil)
  then show ?thesis by (induction ops arbitrary: rule: rev_induct) (simp_all add: apply_op_wf)
qed

section \<open>The life of a run\<close>

text \<open>
  What a reader can see of an interaction's lifecycle: the row without the two bookkeeping columns.
  \<open>lifecycle_advances\<close> is how it may change without a lifecycle commit: not at all, by
  disappearing, or by leaving \<open>pending\<close> or \<open>running\<close> for something other than
  \<open>pending\<close>.
\<close>

definition lifecycle_view :: "interaction_record \<Rightarrow> interaction_record" where
  "lifecycle_view r = r\<lparr>ir_last_event_sequence := 0, ir_updated_at := 0\<rparr>"

definition lifecycle_of :: "interaction_id \<Rightarrow> session_db \<Rightarrow> interaction_record option" where
  "lifecycle_of iid db = map_option lifecycle_view (find_row ir_interaction_id iid (db_interactions db))"

definition lifecycle_advances :: "interaction_record option \<Rightarrow> interaction_record option \<Rightarrow> bool" where
  "lifecycle_advances a b \<longleftrightarrow> b = None \<or> b = a \<or>
     (\<exists>r r'. a = Some r \<and> b = Some r' \<and> ir_status r \<notin> TERMINAL_INTERACTION_STATUSES \<and>
        ir_status r' \<noteq> IPending)"

lemma advances_not_pending:
  "lifecycle_advances (Some r) (Some r') \<Longrightarrow> ir_status r \<noteq> IPending \<Longrightarrow> ir_status r' \<noteq> IPending"
  unfolding lifecycle_advances_def by (metis option.distinct(1) option.inject)

lemma advances_terminal:
  "lifecycle_advances (Some r) b \<Longrightarrow> ir_status r \<in> TERMINAL_INTERACTION_STATUSES \<Longrightarrow> b = Some r \<or> b = None"
  "lifecycle_advances None b \<Longrightarrow> b = None"
  unfolding lifecycle_advances_def by (metis option.distinct(1) option.inject)+

text \<open>The interface a run ledger offers: an invariant that every operation keeps, and a view of one
  run that only rewriting operations can change arbitrarily.\<close>

locale run_ledger =
  fixes ok :: "'st \<Rightarrow> bool" and view :: "'st \<Rightarrow> interaction_record option"
    and step :: "'op \<Rightarrow> 'st \<Rightarrow> 'st" and rewriting :: "'op \<Rightarrow> bool"
  assumes ok_step: "ok st \<Longrightarrow> ok (step op st)"
    and step_advances: "ok st \<Longrightarrow> \<not> rewriting op \<Longrightarrow> lifecycle_advances (view st) (view (step op st))"
begin

lemma never_pending_again:
  assumes "ok st" and "\<forall>op \<in> set ops. \<not> rewriting op"
    and "\<forall>r. view st = Some r \<longrightarrow> ir_status r \<noteq> IPending"
  shows "\<forall>r. view (fold step ops st) = Some r \<longrightarrow> ir_status r \<noteq> IPending"
  using assms
proof (induction ops arbitrary: st)
  case (Cons op ops)
  have adv: "lifecycle_advances (view st) (view (step op st))"
    using Cons.prems(1,2) by (intro step_advances) auto
  have new: "\<forall>r. view (step op st) = Some r \<longrightarrow> ir_status r \<noteq> IPending"
  proof (cases "view st")
    case None
    then show ?thesis using adv advances_terminal(2) [of "view (step op st)"] by simp
  next
    case (Some s)
    then have "ir_status s \<noteq> IPending" using Cons.prems(3) by simp
    then show ?thesis using adv Some by (auto dest: advances_not_pending)
  qed
  have "\<forall>op \<in> set ops. \<not> rewriting op" using Cons.prems(2) by simp
  from Cons.IH [OF ok_step [OF Cons.prems(1)] this new] show ?case by (simp only: fold_simps)
qed simp

lemma terminal_stable:
  assumes "ok st" and "\<forall>op \<in> set ops. \<not> rewriting op"
    and "view st = Some r \<or> view st = None" and "ir_status r \<in> TERMINAL_INTERACTION_STATUSES"
  shows "view (fold step ops st) = Some r \<or> view (fold step ops st) = None"
  using assms
proof (induction ops arbitrary: st)
  case (Cons op ops)
  have "lifecycle_advances (view st) (view (step op st))"
    using Cons.prems(1,2) by (intro step_advances) auto
  then have "view (step op st) = Some r \<or> view (step op st) = None"
    using Cons.prems(3,4) advances_terminal by metis
  moreover have "\<forall>op \<in> set ops. \<not> rewriting op" using Cons.prems(2) by simp
  ultimately show ?case
    using Cons.IH [OF ok_step [OF Cons.prems(1)] _ _ Cons.prems(4)] by (simp only: fold_simps)
qed simp

end

text \<open>The only operation that rewriting a run is a lifecycle commit of its own record.\<close>

fun rewrites_run :: "interaction_id \<Rightarrow> store_op \<Rightarrow> bool" where
  "rewrites_run iid (Commit env c) = (ic_lifecycle c \<and> ir_interaction_id (ic_interaction c) = iid)"
| "rewrites_run iid op = False"

lemma view_status [simp]: "ir_status (lifecycle_view r) = ir_status r"
  by (simp add: lifecycle_view_def)

lemma sweep_fields:
  "ir_interaction_id (failed_by_sweep now category r) = ir_interaction_id r"
  "ir_status (failed_by_sweep now category r) = IFailed"
  by (simp_all add: failed_by_sweep_def)

lemma find_update_advances:
  assumes "\<And>r. ir_interaction_id (f r) = ir_interaction_id r"
    and "\<And>r. P r \<Longrightarrow> ir_status r \<notin> TERMINAL_INTERACTION_STATUSES \<and> ir_status (f r) \<noteq> IPending"
  shows "lifecycle_advances (lifecycle_of iid db)
    (lifecycle_of iid (snd (with_interactions (update_where P f (db_interactions db)) db)))"
proof (cases "find_row ir_interaction_id iid (db_interactions db)")
  case None
  then show ?thesis
    by (simp add: lifecycle_of_def with_interactions_def find_row_update assms(1) lifecycle_advances_def)
next
  case (Some r)
  then have new: "lifecycle_of iid (snd (with_interactions (update_where P f (db_interactions db)) db)) =
      Some (lifecycle_view (if P r then f r else r))" and old: "lifecycle_of iid db = Some (lifecycle_view r)"
    by (simp_all add: lifecycle_of_def with_interactions_def find_row_update assms(1))
  show ?thesis
    unfolding new old using assms(2) [of r] by (simp add: lifecycle_advances_def)
qed

lemma touch_advances: "lifecycle_of iid (touch_interaction r db) = lifecycle_of iid db"
proof -
  have "lifecycle_view (s\<lparr>ir_last_event_sequence := a, ir_updated_at := b\<rparr>) = lifecycle_view s" for s a b
    by (simp add: lifecycle_view_def)
  then show ?thesis
    by (simp add: lifecycle_of_def touch_interaction_def touch_interaction_run_def find_row_update
        option.map_comp comp_def if_distrib [of lifecycle_view] cong: if_cong)
qed

lemma upserts_keep_interactions:
  "upsert_message m db = Inr db' \<Longrightarrow> db_interactions db' = db_interactions db"
  "upsert_event r e db = Inr db' \<Longrightarrow> db_interactions db' = db_interactions db"
  by (auto simp: upsert_message_def upsert_event_def split: if_splits)

lemma commit_tx_interactions:
  assumes "commit_tx c db = Inr db'"
  shows "db_interactions db' = db_interactions (commit_interaction c db)"
proof -
  obtain db1 where msgs: "rfold upsert_message (ic_messages c) (commit_interaction c db) = Inr db1"
    and evs: "rfold (upsert_event (ic_interaction c)) (ic_events c) db1 = Inr db'"
    using assms by (auto simp: commit_tx_def rbind_Inr)
  have "db_interactions db1 = db_interactions (commit_interaction c db)"
    by (rule rfold_invariant [where I = "\<lambda>d. db_interactions d = db_interactions (commit_interaction c db)",
          OF _ msgs refl]) (simp add: upserts_keep_interactions)
  then show ?thesis
    using rfold_invariant [where I = "\<lambda>d. db_interactions d = db_interactions db1", OF _ evs refl]
    by (simp add: upserts_keep_interactions)
qed

lemma commit_advances:
  assumes "\<not> (ic_lifecycle c \<and> ir_interaction_id (ic_interaction c) = iid)"
  shows "lifecycle_of iid (snd (commit env c db)) = lifecycle_of iid db"
proof (cases "commit_tx c db")
  case (Inr db1)
  have "lifecycle_of iid (snd (commit env c db)) = lifecycle_of iid (commit_interaction c db)"
    using commit_tx_interactions [OF Inr] by (simp add: commit_def Inr lifecycle_of_def)
  also have "\<dots> = lifecycle_of iid db"
  proof (cases "ic_lifecycle c")
    case True
    then show ?thesis
      using assms by (auto simp: commit_interaction_def upsert_interaction_def lifecycle_of_def
          find_row_upsert Let_def)
  next
    case False
    then show ?thesis by (simp add: commit_interaction_def Let_def touch_advances)
  qed
  finally show ?thesis .
qed (simp add: commit_def)

lemma delete_advances:
  "db_wf db \<Longrightarrow> lifecycle_advances (lifecycle_of iid db) (lifecycle_of iid (snd (delete_session own sid db)))"
  by (auto simp: delete_session_def lifecycle_of_def Let_def find_row_filter db_wf_def
      lifecycle_advances_def split: option.split)

lemma apply_op_advances:
  assumes "db_wf db" and "\<not> rewrites_run iid op"
  shows "lifecycle_advances (lifecycle_of iid db) (lifecycle_of iid (apply_op op db))"
proof (cases op)
  case (Commit env c)
  then show ?thesis using assms(2) commit_advances [of c iid env db] by (simp add: lifecycle_advances_def)
next
  case (CreateConversation own sid now)
  then show ?thesis
    by (auto simp: create_conversation_def lifecycle_of_def lifecycle_advances_def Let_def
        split: option.split prod.split)
next
  case (DeleteSession own sid)
  then show ?thesis using delete_advances [OF assms(1)] by simp
next
  case (Claim own i now)
  show ?thesis
    unfolding Claim apply_op.simps claim_run_def claim_interaction_run_def snd_apfst
    by (rule find_update_advances) (simp_all add: sweep_fields TERMINAL_INTERACTION_STATUSES_def)
next
  case (FailStale own i sb now c)
  show ?thesis
    unfolding FailStale apply_op.simps fail_stale_run_def fail_stale_interaction_run_def snd_apfst
    by (rule find_update_advances) (simp_all add: sweep_fields TERMINAL_INTERACTION_STATUSES_def)
next
  case (FailStaleRuns sb now c)
  show ?thesis
    unfolding FailStaleRuns apply_op.simps fail_stale_runs_def fail_stale_interaction_runs_def snd_apfst
    by (rule find_update_advances) (simp_all add: sweep_fields TERMINAL_INTERACTION_STATUSES_def)
next
  case (FailAbandoned ab now c)
  show ?thesis
    unfolding FailAbandoned apply_op.simps fail_abandoned_runs_def fail_abandoned_interaction_runs_def snd_apfst
    by (rule find_update_advances) (simp_all add: sweep_fields TERMINAL_INTERACTION_STATUSES_def)
qed

interpretation store_ledger: run_ledger db_wf "lifecycle_of iid" apply_op "rewrites_run iid" for iid
  by unfold_locales (simp_all add: apply_op_wf apply_op_advances)

section \<open>Properties of the run ledger\<close>

lemma update_returning:
  assumes "keyed key rows" and "snd (update_where P f rows) = r # rs"
  shows "\<exists>x \<in> set rows. P x \<and> r = f x"
proof -
  have "r \<in> set (snd (update_where P f rows))" using assms(2) by simp
  then show ?thesis unfolding returning_update by blast
qed

lemma claim_run_Some:
  assumes "claim_run own iid now db = (Some r, db')" and "db_wf db"
  shows "\<exists>x. find_row ir_interaction_id iid (db_interactions db) = Some x \<and> owns_interaction own x \<and>
    ir_status x = IPending \<and> r = x\<lparr>ir_status := IRunning, ir_updated_at := now\<rparr> \<and>
    find_row ir_interaction_id iid (db_interactions db') = Some r"
proof -
  let ?P = "\<lambda>r. owns_interaction own r \<and> ir_interaction_id r = iid \<and> ir_status r = IPending"
  let ?f = "\<lambda>r. r\<lparr>ir_status := IRunning, ir_updated_at := now\<rparr>"
  have keyed: "keyed ir_interaction_id (db_interactions db)" using assms(2) by (simp add: db_wf_def)
  obtain rs where rs: "snd (update_where ?P ?f (db_interactions db)) = r # rs"
    and db': "db' = db\<lparr>db_interactions := fst (update_where ?P ?f (db_interactions db))\<rparr>"
    using assms(1) by (auto simp: claim_run_def claim_interaction_run_def with_interactions_def
        first_row_def split: list.splits)
  obtain x where x: "x \<in> set (db_interactions db)" "?P x" "r = ?f x"
    using update_returning [OF keyed rs] by blast
  then have old: "find_row ir_interaction_id iid (db_interactions db) = Some x"
    using find_row_keyed [OF keyed] by blast
  moreover have "find_row ir_interaction_id iid (db_interactions db') = Some (?f x)"
    unfolding db' using x(2) by (simp add: find_row_update old)
  ultimately show ?thesis using x(2,3) by blast
qed


text \<open>
  \<^bold>\<open>C12\<close>.  A terminal row is never resurrected.  Once an interaction is completed, failed or cancelled,
  its lifecycle columns keep their values - status, state, error category, completion time - under
  every interleaving of claims, sweeps, progress commits and operations on other interactions;
  only a deletion of its session removes it.
\<close>

theorem terminal_never_resurrected:
  assumes "db_wf db" and "lifecycle_of iid db = Some r"
    and "ir_status r \<in> TERMINAL_INTERACTION_STATUSES" and "\<forall>op \<in> set ops. \<not> rewrites_run iid op"
  shows "lifecycle_of iid (fold apply_op ops db) = Some r \<or> lifecycle_of iid (fold apply_op ops db) = None"
  by (rule store_ledger.terminal_stable [OF assms(1,4) disjI1 [OF assms(2)] assms(3)])

section \<open>Ownership\<close>

text \<open>All that belongs to one owner.\<close>

definition owner_view :: "interaction_owner \<Rightarrow> session_db \<Rightarrow>
  interaction_record list \<times> message_record list \<times> conversation_record list \<times> event_row list" where
  "owner_view own db = (filter (owns_interaction own) (db_interactions db),
     filter (owns_message own) (db_messages db), filter (owns_conversation own) (db_conversations db),
     filter (owns_event own) (db_events db))"

lemma filter_through: "filter P xs = filter P ys \<Longrightarrow> (\<And>x. Q x \<Longrightarrow> P x) \<Longrightarrow> filter Q xs = filter Q ys"
proof -
  assume eq: "filter P xs = filter P ys" and QP: "\<And>x. Q x \<Longrightarrow> P x"
  have "filter Q zs = filter Q (filter P zs)" for zs
    using QP by (auto intro: filter_cong)
  then show ?thesis by (metis eq)
qed

text \<open>
  \<^bold>\<open>C14\<close>.  Reads see only the owner's rows.  Two databases that agree on the rows of one owner give
  that owner the same answer to every query of the store - interaction, events, pages of messages,
  interactions and conversations, latest message, conversation, count - however the rows of all other
  owners differ.
\<close>

theorem reads_are_owner_scoped:
  assumes "owner_view own db = owner_view own db'"
  shows "get_interaction own iid db = get_interaction own iid db' \<and>
    list_events own iid after_sequence db = list_events own iid after_sequence db' \<and>
    list_messages std own sid limit kinds db cursor = list_messages std own sid limit kinds db' cursor \<and>
    list_interactions std own sid limit db cursor = list_interactions std own sid limit db' cursor \<and>
    list_conversations std own limit db cursor = list_conversations std own limit db' cursor \<and>
    latest_message own sid kinds db = latest_message own sid kinds db' \<and>
    get_conversation own sid db = get_conversation own sid db' \<and>
    count_conversations own db = count_conversations own db'"
proof -
  have f: "filter (\<lambda>r. owns_interaction own r \<and> Q1 r) (db_interactions db) =
      filter (\<lambda>r. owns_interaction own r \<and> Q1 r) (db_interactions db')"
    "filter (\<lambda>r. owns_message own r \<and> Q2 r) (db_messages db) =
      filter (\<lambda>r. owns_message own r \<and> Q2 r) (db_messages db')"
    "filter (\<lambda>r. owns_conversation own r \<and> Q3 r) (db_conversations db) =
      filter (\<lambda>r. owns_conversation own r \<and> Q3 r) (db_conversations db')"
    "filter (\<lambda>r. owns_event own r \<and> Q4 r) (db_events db) =
      filter (\<lambda>r. owns_event own r \<and> Q4 r) (db_events db')"
    "filter (owns_conversation own) (db_conversations db) = filter (owns_conversation own) (db_conversations db')"
    for Q1 Q2 Q3 Q4
    using assms by (auto simp: owner_view_def intro: filter_through)
  have sel: "select_interaction own iid db = select_interaction own iid db'"
    "select_events own iid after_sequence db = select_events own iid after_sequence db'"
    "select_messages own sid mc kinds db = select_messages own sid mc kinds db'"
    "select_interactions own sid cur db = select_interactions own sid cur db'"
    "select_conversations own cur db = select_conversations own cur db'"
    "select_latest_message own sid kinds db = select_latest_message own sid kinds db'"
    "select_conversation own sid db = select_conversation own sid db'"
    "count_conversations own db = count_conversations own db'"
    "select_conversation_messages own sid db = select_conversation_messages own sid db'"
    "select_conversation_first_questions own sid db = select_conversation_first_questions own sid db'"
    "select_conversation_interactions own sid db = select_conversation_interactions own sid db'"
    for mc cur sid
    unfolding select_interaction_def select_events_def select_messages_def select_interactions_def
        select_conversations_def select_latest_message_def select_conversation_def count_conversations_def
        select_conversation_messages_def select_conversation_first_questions_def
        select_conversation_interactions_def f by (rule refl)+
  then have "hydrate_conversations own cs db = hydrate_conversations own cs db'" for cs
    by (simp add: hydrate_conversations_def)
  then show ?thesis
    using sel by (simp add: get_interaction_def list_events_def list_messages_def list_interactions_def
        list_conversations_def latest_message_def get_conversation_def split: option.split)
qed

text \<open>Writes on behalf of one owner leave the rows of another owner alone.  For a deletion this
  needs that what hangs on the deleted interactions belongs to their owner, as every commit of the
  session layer writes it.\<close>

definition dependants_owned :: "interaction_owner \<Rightarrow> session_db \<Rightarrow> bool" where
  "dependants_owned own db \<longleftrightarrow> (\<forall>r \<in> set (db_interactions db). owns_interaction own r \<longrightarrow>
     (\<forall>m \<in> set (db_messages db). mr_interaction_id m = ir_interaction_id r \<longrightarrow> owns_message own m) \<and>
     (\<forall>e \<in> set (db_events db). evr_interaction_id e = ir_interaction_id r \<longrightarrow> owns_event own e))"

lemma filter_update_other:
  assumes "\<And>r. P r \<Longrightarrow> \<not> Q r \<and> \<not> Q (f r)"
  shows "filter Q (fst (update_where P f rows)) = filter Q rows"
  using assms by (induction rows) (auto simp: update_where_def)

lemma other_owner:
  assumes "own \<noteq> own'"
  shows "owns_interaction own' r \<Longrightarrow> \<not> owns_interaction own r"
    and "owns_message own' m \<Longrightarrow> \<not> owns_message own m"
    and "owns_event own' e \<Longrightarrow> \<not> owns_event own e"
  using assms by (auto simp: owns_defs)

lemma writes_are_owner_scoped:
  assumes "own \<noteq> own'"
  shows "owner_view own (apply_op (Claim own' iid now) db) = owner_view own db"
    and "owner_view own (apply_op (FailStale own' iid stale_before now category) db) = owner_view own db"
    and "owner_view own (apply_op (CreateConversation own' sid now) db) = owner_view own db"
    and "dependants_owned own' db \<Longrightarrow> owner_view own (apply_op (DeleteSession own' sid) db) = owner_view own db"
proof -
  show "owner_view own (apply_op (Claim own' iid now) db) = owner_view own db"
    and "owner_view own (apply_op (FailStale own' iid stale_before now category) db) = owner_view own db"
    using assms
    by (auto simp: owner_view_def claim_run_def claim_interaction_run_def fail_stale_run_def
        fail_stale_interaction_run_def with_interactions_def failed_by_sweep_def owns_interaction_def
        intro!: filter_update_other)
  show "owner_view own (apply_op (CreateConversation own' sid now) db) = owner_view own db"
    using assms by (auto simp: owner_view_def create_conversation_def insert_conversation_def insert_ignore_def
        owns_conversation_def Let_def split: option.split)
  assume dep: "dependants_owned own' db"
  let ?P = "\<lambda>r. owns_interaction own' r \<and> ir_session_id r = sid"
  let ?ids = "ir_interaction_id ` {r \<in> set (db_interactions db). ?P r}"
  have "filter (owns_message own) (filter (\<lambda>m. mr_interaction_id m \<notin> ?ids) (db_messages db)) =
      filter (owns_message own) (db_messages db)"
    using dep other_owner(2) [OF assms] unfolding filter_filter dependants_owned_def
    by (intro filter_cong) auto
  moreover have "filter (owns_event own) (filter (\<lambda>e. evr_interaction_id e \<notin> ?ids) (db_events db)) =
      filter (owns_event own) (db_events db)"
    using dep other_owner(3) [OF assms] unfolding filter_filter dependants_owned_def
    by (intro filter_cong) auto
  moreover have "filter (owns_interaction own) (filter (\<lambda>r. \<not> ?P r) (db_interactions db)) =
      filter (owns_interaction own) (db_interactions db)"
    using other_owner(1) [OF assms] unfolding filter_filter by (intro filter_cong) auto
  ultimately show "owner_view own (apply_op (DeleteSession own' sid) db) = owner_view own db"
    by (simp add: owner_view_def delete_session_def Let_def)
qed

section \<open>Paging is exact\<close>

text \<open>What the cursors need of the library: ISO parsing inverts rendering, unpacking inverts packing,
  and a packed value is never the empty string.\<close>

definition codec_laws :: "stdlib \<Rightarrow> bool" where
  "codec_laws std \<longleftrightarrow> (\<forall>t. std_fromisoformat std (std_isoformat std t) = Some t) \<and>
     (\<forall>p. std_unpack std (std_pack std p) = Some (PDict p)) \<and> (\<forall>p. std_pack std p \<noteq> [])"

lemma cursor_roundtrip:
  assumes "codec_laws std"
  shows "decoded_with (decode_cursor std) (Some (encode_cursor std t i)) = Inr (Some (t, i))"
    and "decoded_with (decode_message_cursor std) (Some (encode_message_cursor std t i s)) = Inr (Some (t, i, s))"
  using assms
  by (simp_all add: codec_laws_def decoded_with_def decode_cursor_def encode_cursor_def
      decode_message_cursor_def encode_message_cursor_def pget_def)

lemma select_after:
  "select_messages own sid (Some k) kinds db =
     filter (\<lambda>m. k < message_order_key m) (select_messages own sid None kinds db)"
  "select_interactions own sid (Some k2) db =
     filter (\<lambda>r. k2 < interaction_order_key r) (select_interactions own sid None db)"
  "select_conversations own (Some k2) db =
     filter (\<lambda>c. conversation_order_key c < k2) (select_conversations own None db)"
  by (simp_all add: select_messages_def select_interactions_def select_conversations_def filter_sort
      rev_filter [symmetric] conj_ac filter_filter cong: conj_cong)

lemma order_keyed:
  assumes "db_wf db"
  shows "keyed message_order_key (filter P1 (db_messages db))"
    and "keyed interaction_order_key (filter P2 (db_interactions db))"
    and "keyed conversation_order_key (filter (\<lambda>c. owns_conversation own c \<and> P3 c) (db_conversations db))"
proof -
  have "keyed message_seq_key (filter P1 (db_messages db))"
    and "keyed ir_interaction_id (filter P2 (db_interactions db))"
    and c: "keyed conversation_key (filter (\<lambda>c. owns_conversation own c \<and> P3 c) (db_conversations db))"
    using assms by (simp_all add: db_wf_def keyed_filter)
  then show "keyed message_order_key (filter P1 (db_messages db))"
    and "keyed interaction_order_key (filter P2 (db_interactions db))"
    by (auto simp: keyed_def distinct_map inj_on_def message_seq_key_def message_order_key_def
        interaction_order_key_def)
  from c show "keyed conversation_order_key (filter (\<lambda>c. owns_conversation own c \<and> P3 c) (db_conversations db))"
    by (auto simp: keyed_def distinct_map inj_on_def conversation_key_def conversation_order_key_def
        owns_conversation_def)
qed

lemma list_messages_page:
  assumes "codec_laws std"
  shows "list_messages std own sid limit kinds db None =
      Inr (keyset_page limit (\<lambda>m. encode_message_cursor std (mr_created_at m) (mr_interaction_id m) (mr_sequence m))
        (select_messages own sid None kinds db))"
    and "list_messages std own sid limit kinds db
        (Some (encode_message_cursor std (mr_created_at r) (mr_interaction_id r) (mr_sequence r))) =
      Inr (keyset_page limit (\<lambda>m. encode_message_cursor std (mr_created_at m) (mr_interaction_id m) (mr_sequence m))
        (filter (\<lambda>m. message_order_key r < message_order_key m) (select_messages own sid None kinds db)))"
  by (simp add: list_messages_def decoded_with_def)
    (simp add: list_messages_def cursor_roundtrip(2) [OF assms] select_after message_order_key_def [of r])

lemma list_interactions_page:
  assumes "codec_laws std"
  shows "list_interactions std own sid limit db None =
      Inr (keyset_page limit (\<lambda>r. encode_cursor std (ir_created_at r) (ir_interaction_id r))
        (select_interactions own sid None db))"
    and "list_interactions std own sid limit db (Some (encode_cursor std (ir_created_at r) (ir_interaction_id r))) =
      Inr (keyset_page limit (\<lambda>r. encode_cursor std (ir_created_at r) (ir_interaction_id r))
        (filter (\<lambda>s. interaction_order_key r < interaction_order_key s) (select_interactions own sid None db)))"
  by (simp add: list_interactions_def decoded_with_def)
    (simp add: list_interactions_def cursor_roundtrip(1) [OF assms] select_after interaction_order_key_def [of r])

lemma walk_messages:
  assumes "db_wf db" and "codec_laws std" and "0 < limit"
  shows "walk_pages (Suc (length (select_messages own sid None kinds db)))
      (list_messages std own sid limit kinds db) None = Some (Inr (select_messages own sid None kinds db))"
    and "sorted_wrt (\<lambda>m m'. message_order_key m < message_order_key m') (select_messages own sid None kinds db)"
proof -
  show ms: "sorted_wrt (\<lambda>m m'. message_order_key m < message_order_key m') (select_messages own sid None kinds db)"
    unfolding select_messages_def by (intro strictly_ordered(1) order_keyed [OF assms(1)])
  show "walk_pages (Suc (length (select_messages own sid None kinds db)))
      (list_messages std own sid limit kinds db) None = Some (Inr (select_messages own sid None kinds db))"
    by (rule ascending.walk_complete [OF ms assms(3) list_messages_page [OF assms(2)]])
qed

lemma walk_interactions:
  assumes "db_wf db" and "codec_laws std" and "0 < limit"
  shows "walk_pages (Suc (length (select_interactions own sid None db)))
      (list_interactions std own sid limit db) None = Some (Inr (select_interactions own sid None db))"
proof -
  have "sorted_wrt (\<lambda>r r'. interaction_order_key r < interaction_order_key r') (select_interactions own sid None db)"
    unfolding select_interactions_def by (intro strictly_ordered(1) order_keyed [OF assms(1)])
  then show ?thesis
    by (rule ascending.walk_complete [OF _ assms(3) list_interactions_page [OF assms(2)]])
qed


section \<open>Witnesses\<close>

definition demo_owner :: interaction_owner where
  "demo_owner = \<lparr>ow_tenant_id = u ''fac'', ow_user_id = u ''u1''\<rparr>"

definition demo_row :: "interaction_status \<Rightarrow> interaction_record" where
  "demo_row st = \<lparr>ir_interaction_id = u ''i1'', ir_session_id = u ''s1'', ir_tenant_id = u ''fac'',
     ir_user_id = u ''u1'', ir_status = st, ir_state = PARSING, ir_input_text = u ''q'',
     ir_capability_id = None, ir_clarification_rounds = 0, ir_last_event_sequence = 0,
     ir_error_category = None, ir_created_at = 1, ir_updated_at = 1, ir_completed_at = None\<rparr>"

definition demo_question :: message_record where
  "demo_question = \<lparr>mr_message_id = u ''m1'', mr_interaction_id = u ''i1'', mr_session_id = u ''s1'',
     mr_tenant_id = u ''fac'', mr_user_id = u ''u1'', mr_role = USER, mr_kind = PLAIN_TEXT,
     mr_sequence = 1, mr_text = u ''q'', mr_payload = [], mr_created_at = 1\<rparr>"

definition demo_db :: "interaction_status \<Rightarrow> session_db" where
  "demo_db st = empty_db\<lparr>db_interactions := [demo_row st], db_messages := [demo_question]\<rparr>"

lemma demo_db_wf: "db_wf (demo_db st)"
  by (simp add: db_wf_def demo_db_def empty_db_def demo_row_def demo_question_def metering_wf_def
      empty_metering_def keyed_def)

instance pyval :: countable
  by countable_datatype

text \<open>A codec with the required laws: one code point that numbers the packed value.\<close>

definition demo_codec :: stdlib where
  "demo_codec = demo_std\<lparr>std_pack := (\<lambda>p. [to_nat p]),
     std_unpack := (\<lambda>s. if length s = 1 then Some (PDict (from_nat (hd s))) else None)\<rparr>"

lemma demo_codec_laws: "codec_laws demo_codec"
  by (simp add: codec_laws_def demo_codec_def demo_std_def)


lemma demo_claim:
  "claim_run demo_owner (u ''i1'') 5 (demo_db IPending) =
     (Some (demo_row IRunning\<lparr>ir_updated_at := 5\<rparr>),
      demo_db IPending\<lparr>db_interactions := [demo_row IRunning\<lparr>ir_updated_at := 5\<rparr>]\<rparr>)"
  by (simp add: claim_run_def claim_interaction_run_def with_interactions_def update_where_def first_row_def
      demo_db_def empty_db_def demo_row_def demo_owner_def owns_interaction_def)


theorem terminal_never_resurrected_witness:
  "lifecycle_of (u ''i1'') (fold apply_op [Claim demo_owner (u ''i1'') 7] (demo_db ICancelled)) =
     Some (lifecycle_view (demo_row ICancelled)) \<or>
   lifecycle_of (u ''i1'') (fold apply_op [Claim demo_owner (u ''i1'') 7] (demo_db ICancelled)) = None"
  by (rule terminal_never_resurrected [OF demo_db_wf])
    (simp_all add: lifecycle_of_def find_row_def demo_db_def demo_row_def lifecycle_view_def
      TERMINAL_INTERACTION_STATUSES_def)

theorem reads_are_owner_scoped_witness:
  "get_interaction \<lparr>ow_tenant_id = u ''other'', ow_user_id = u ''u1''\<rparr> (u ''i1'') (demo_db IPending) =
   get_interaction \<lparr>ow_tenant_id = u ''other'', ow_user_id = u ''u1''\<rparr> (u ''i1'') empty_db"
proof -
  have "owner_view \<lparr>ow_tenant_id = u ''other'', ow_user_id = u ''u1''\<rparr> (demo_db IPending) =
      owner_view \<lparr>ow_tenant_id = u ''other'', ow_user_id = u ''u1''\<rparr> empty_db"
    by (simp add: owner_view_def demo_db_def empty_db_def owns_defs demo_row_def demo_question_def)
  then show ?thesis using reads_are_owner_scoped by blast
qed

end
