(* ===== verification/Lifecycle.thy ===== *)
theory Lifecycle
  imports SessionStore
begin

text \<open>
  The recovery of interrupted runs (\<^verbatim>\<open>application/session/lifecycle.py\<close>), with the commit
  primitives of \<^verbatim>\<open>base.py\<close> they use, and the owner-scoped reads of \<^verbatim>\<open>history.py\<close>.

  A sweep first fails every orphaned row in one compare-and-set and then commits the terminal event
  of each returned record in its own transaction; an exception of one commit ends the loop.  The
  random identifiers and clock readings of each commit are arguments (\<open>fresh_ids\<close>).  The
  notification of followers, the logging and the endless loop around the sweeps are left out.
\<close>

section \<open>Definitions and primitives\<close>

record session_limits =
  lim_max_input_chars :: nat
  lim_stale_running :: int
  lim_abandoned_pending :: int

definition default_limits :: session_limits where
  "default_limits = \<lparr>lim_max_input_chars = 2000, lim_stale_running = 600 * us_second,
     lim_abandoned_pending = 600 * us_second\<rparr>"

definition CATEGORY_EXECUTOR_LOST :: pystr where "CATEGORY_EXECUTOR_LOST = u ''executor_lost''"
definition CATEGORY_ABANDONED :: pystr where "CATEGORY_ABANDONED = u ''abandoned''"
definition ABANDONED_NOTICE :: pystr where
  "ABANDONED_NOTICE = [35813, 25552, 38382, 26410, 33021, 24320, 22987, 25191, 34892, 65292, 35831, 37325, 26032, 21457, 36865, 12290]"
definition EXECUTOR_LOST_NOTICE :: pystr where
  "EXECUTOR_LOST_NOTICE = [26597, 35810, 26410, 33021, 23436, 25104, 12290]"

datatype session_error = StoreError db_error | InvalidValue value_error | InteractionNotFoundError
  | CursorFault cursor_error

record fresh_ids =
  fr_message_id :: pystr
  fr_event_id :: pystr
  fr_trace_id :: pystr
  fr_message_at :: instant

definition llm_duration_ms :: "usage_event \<Rightarrow> int" where
  "llm_duration_ms e = (if ue_event_type e \<noteq> LLM_CALL_EVENT_TYPE then 0
     else (case pget (u ''duration_ms'') (ue_payload e) of PInt n \<Rightarrow> max 0 n | _ \<Rightarrow> 0))"

definition make_message ::
  "fresh_ids \<Rightarrow> interaction_record \<Rightarrow> message_role \<Rightarrow> message_kind \<Rightarrow> int \<Rightarrow> pystr \<Rightarrow> payload \<Rightarrow>
   message_record" where
  "make_message ids r mrole kind sequence text p =
     \<lparr>mr_message_id = fr_message_id ids, mr_interaction_id = ir_interaction_id r,
      mr_session_id = ir_session_id r, mr_tenant_id = ir_tenant_id r, mr_user_id = ir_user_id r,
      mr_role = mrole, mr_kind = kind, mr_sequence = sequence, mr_text = text, mr_payload = p,
      mr_created_at = fr_message_at ids\<rparr>"

definition usage_context_of :: "fresh_ids \<Rightarrow> interaction_record \<Rightarrow> usage_context" where
  "usage_context_of ids r = \<lparr>uc_tenant_id = ir_tenant_id r, uc_user_id = ir_user_id r,
     uc_session_id = ir_session_id r, uc_interaction_id = ir_interaction_id r,
     uc_trace_id = fr_trace_id ids\<rparr>"

text \<open>\<open>_completion_event\<close>; a capability result is given by its duration and row count.\<close>

definition completion_event ::
  "stdlib \<Rightarrow> fresh_ids \<Rightarrow> interaction_record \<Rightarrow> (int \<times> nat) option \<Rightarrow> pystr option \<Rightarrow>
   usage_event list \<Rightarrow> value_error + usage_event" where
  "completion_event std ids r result error_category usage_events =
     (let duration_ms = max 0 (std_elapsed_ms std (ir_updated_at r - ir_created_at r));
          llm = sum_list (map llm_duration_ms usage_events);
          mes = (case result of None \<Rightarrow> 0 | Some (d, n) \<Rightarrow> d)
      in interaction_completed_event std (fr_event_id ids) (usage_context_of ids r) (ir_updated_at r)
           (completion_status (ir_status r)) duration_ms mes llm (max 0 (duration_ms - llm - mes))
           (case result of None \<Rightarrow> 0 | Some (d, n) \<Rightarrow> int n) error_category)"

section \<open>lifecycle.py: recovery\<close>

definition failed_event :: "interaction_record \<Rightarrow> pystr \<Rightarrow> pystr \<Rightarrow> value_error + session_event" where
  "failed_event r category text = rbind (terminal_event_name IFailed) (\<lambda>n.
     Inr \<lparr>ev_sequence = ir_last_event_sequence r, ev_name = n,
       ev_data = [(u ''interaction_id'', PStr (ir_interaction_id r)),
         (u ''error_category'', PStr category), (u ''message'', PStr text)]\<rparr>)"

definition reaped_commit ::
  "stdlib \<Rightarrow> fresh_ids \<Rightarrow> interaction_record \<Rightarrow> pystr \<Rightarrow> pystr \<Rightarrow> int \<Rightarrow>
   value_error + session_event \<times> interaction_commit" where
  "reaped_commit std ids r category text message_sequence =
     rbind (failed_event r category text) (\<lambda>event.
     rbind (completion_event std ids r None (Some category) []) (\<lambda>usage.
     Inr (event, \<lparr>ic_interaction = r,
       ic_messages = [make_message ids r SYSTEM ERROR message_sequence text []],
       ic_events = [event], ic_usage_events = [usage], ic_lifecycle = True\<rparr>)))"

definition persist_reaped_terminal ::
  "store_env \<Rightarrow> fresh_ids \<Rightarrow> interaction_record \<Rightarrow> pystr \<Rightarrow> pystr \<Rightarrow> int \<Rightarrow> session_db \<Rightarrow>
   (session_error + session_event) \<times> session_db" where
  "persist_reaped_terminal env ids r category text message_sequence db =
     (case reaped_commit (env_std env) ids r category text message_sequence of
        Inl e \<Rightarrow> (Inl (InvalidValue e), db)
      | Inr (event, c) \<Rightarrow> (case commit env c db of
            (Inl e, db') \<Rightarrow> (Inl (StoreError e), db')
          | (Inr x, db') \<Rightarrow> (Inr event, db')))"

definition fail_stale_run_svc ::
  "store_env \<Rightarrow> fresh_ids \<Rightarrow> session_limits \<Rightarrow> instant \<Rightarrow> interaction_owner \<Rightarrow> interaction_id \<Rightarrow> session_db \<Rightarrow>
   (session_error + session_event option) \<times> session_db" where
  "fail_stale_run_svc env ids limits now own iid db =
     (let (record, db1) = fail_stale_run own iid (now - lim_stale_running limits) now CATEGORY_EXECUTOR_LOST db
      in case record of
          None \<Rightarrow> (Inr None, db1)
        | Some r \<Rightarrow> apfst (map_sum id Some) (persist_reaped_terminal env ids r CATEGORY_EXECUTOR_LOST
            EXECUTOR_LOST_NOTICE (ir_last_event_sequence r) db1))"

text \<open>The loop of a sweep over the returned records, each with its own identifiers.\<close>

fun persist_all ::
  "store_env \<Rightarrow> pystr \<Rightarrow> pystr \<Rightarrow> (interaction_record \<Rightarrow> int) \<Rightarrow> (fresh_ids \<times> interaction_record) list \<Rightarrow>
   session_db \<Rightarrow> (session_error + unit) \<times> session_db" where
  "persist_all env category text seq [] db = (Inr (), db)"
| "persist_all env category text seq ((ids, r) # rest) db =
     (case persist_reaped_terminal env ids r category text (seq r) db of
        (Inl e, db') \<Rightarrow> (Inl e, db')
      | (Inr event, db') \<Rightarrow> persist_all env category text seq rest db')"

definition sweep_stale_runs ::
  "store_env \<Rightarrow> (nat \<Rightarrow> fresh_ids) \<Rightarrow> session_limits \<Rightarrow> instant \<Rightarrow> session_db \<Rightarrow>
   (session_error + nat) \<times> session_db" where
  "sweep_stale_runs env ids limits now db =
     (let (records, db1) = fail_stale_runs (now - lim_stale_running limits) now CATEGORY_EXECUTOR_LOST db
      in apfst (map_sum id (\<lambda>_. length records))
        (persist_all env CATEGORY_EXECUTOR_LOST EXECUTOR_LOST_NOTICE ir_last_event_sequence
          (zip (map ids [0..<length records]) records) db1))"

definition sweep_abandoned_runs ::
  "store_env \<Rightarrow> (nat \<Rightarrow> fresh_ids) \<Rightarrow> session_limits \<Rightarrow> instant \<Rightarrow> session_db \<Rightarrow>
   (session_error + nat) \<times> session_db" where
  "sweep_abandoned_runs env ids limits now db =
     (let (records, db1) = fail_abandoned_runs (now - lim_abandoned_pending limits) now CATEGORY_ABANDONED db
      in apfst (map_sum id (\<lambda>_. length records))
        (persist_all env CATEGORY_ABANDONED ABANDONED_NOTICE (\<lambda>r. ir_last_event_sequence r + 1)
          (zip (map ids [0..<length records]) records) db1))"

section \<open>history.py\<close>

definition load_interaction ::
  "interaction_owner \<Rightarrow> interaction_id \<Rightarrow> session_db \<Rightarrow> session_error + interaction_record" where
  "load_interaction own iid db = (case get_interaction own iid db of
     None \<Rightarrow> Inl InteractionNotFoundError | Some r \<Rightarrow> Inr r)"

definition replay_tail ::
  "interaction_owner \<Rightarrow> interaction_id \<Rightarrow> int \<Rightarrow> session_db \<Rightarrow> session_event list" where
  "replay_tail own iid after_sequence db = list_events own iid after_sequence db"

record conversation_turn =
  ct_user_text :: pystr
  ct_assistant_text :: pystr
  ct_status :: interaction_status
  ct_capability_id :: "pystr option"
  ct_result_row_count :: "int option"

definition CHITCHAT_CAPABILITY_ID :: pystr where "CHITCHAT_CAPABILITY_ID = u ''chitchat''"

definition RECIPE_BY_FR :: "(pystr, pystr) dict" where
  "RECIPE_BY_FR =
    [(u ''FR-001'', u ''fr001_personal_output''), (u ''FR-002'', u ''fr002_personal_wage_summary''),
     (u ''FR-003'', u ''fr003_personal_wage_detail''), (u ''FR-004'', u ''fr004_group_income_rank''),
     (u ''FR-005'', u ''fr005_order_progress''), (u ''FR-006'', u ''fr006_order_output''),
     (u ''FR-007'', u ''fr007_workshop_output_comparison''), (u ''FR-008'', u ''fr008_payroll_ranking''),
     (u ''FR-009'', u ''fr009_factory_order_overview''), (u ''FR-010'', u ''fr010_workshop_output_overview''),
     (u ''FR-011'', u ''fr011_factory_payroll_stats''), (u ''FR-012'', u ''fr012_employee_payroll''),
     (u ''FR-013'', u ''fr013_factory_output_dashboard'')]"

definition DRILLDOWN_RECIPE_BY_FR :: "(pystr, pystr list) dict" where
  "DRILLDOWN_RECIPE_BY_FR =
    [(u ''FR-005'', [u ''fr005_order_package_detail'', u ''fr005_order_worktype_detail''])]"

definition FR_BY_RECIPE :: "(pystr, pystr) dict" where
  "FR_BY_RECIPE = fold (\<lambda>(recipe, fr). AList.update recipe fr)
     (map (\<lambda>(fr, recipe). (recipe, fr)) RECIPE_BY_FR @
      concat (map (\<lambda>(fr, drilldowns). map (\<lambda>recipe. (recipe, fr)) drilldowns) DRILLDOWN_RECIPE_BY_FR)) []"

definition fr_id_for :: "pystr \<Rightarrow> pystr" where
  "fr_id_for recipe_id = (case map_of FR_BY_RECIPE recipe_id of Some fr \<Rightarrow> fr | None \<Rightarrow> recipe_id)"

definition recipe_id_for :: "pystr \<Rightarrow> pystr" where
  "recipe_id_for fr_id = (case map_of RECIPE_BY_FR fr_id of Some recipe \<Rightarrow> recipe | None \<Rightarrow> fr_id)"

definition history_turn :: "interaction_record \<Rightarrow> conversation_turn" where
  "history_turn r = \<lparr>ct_user_text = py_strip (ir_input_text r),
     ct_assistant_text = (case ir_capability_id r of
         Some cap \<Rightarrow> if cap = CHITCHAT_CAPABILITY_ID
           then [19978, 19968, 36718, 26159, 38386, 32842, 22238, 22797, 12290]
           else [24050, 36820, 22238, 32] @ fr_id_for cap @ [32, 26597, 35810, 32467, 26524, 12290]
       | None \<Rightarrow> [19978, 19968, 36718, 38656, 35201, 34917, 20805, 20449, 24687, 25110, 26410, 33021, 23436, 25104, 12290]),
     ct_status = ir_status r, ct_capability_id = ir_capability_id r, ct_result_row_count = None\<rparr>"

text \<open>\<open>_session_history\<close> with pages of fifty; the fuel bounds the page requests.\<close>

definition session_history ::
  "nat \<Rightarrow> stdlib \<Rightarrow> interaction_owner \<Rightarrow> pystr \<Rightarrow> interaction_id \<Rightarrow> session_db \<Rightarrow>
   (cursor_error + conversation_turn list) option" where
  "session_history fuel std own sid exclude db =
     map_option (map_sum id (\<lambda>records. map history_turn (filter (\<lambda>r. ir_interaction_id r \<noteq> exclude \<and>
         ir_status r \<in> TERMINAL_INTERACTION_STATUSES) records)))
       (walk_pages fuel (list_interactions std own sid 50 db) None)"

section \<open>History\<close>

text \<open>\<open>_session_history\<close> ends and collects exactly the owner's other terminal turns of the session,
  in order.\<close>

lemma session_history_exact:
  assumes "db_wf db" and "codec_laws std"
  shows "session_history (Suc (length (select_interactions own sid None db))) std own sid exclude db =
    Some (Inr (map history_turn (filter (\<lambda>r. ir_interaction_id r \<noteq> exclude \<and>
      ir_status r \<in> TERMINAL_INTERACTION_STATUSES) (select_interactions own sid None db))))"
  using walk_interactions [OF assms, of 50] by (simp add: session_history_def)

section \<open>Committing a reaped run\<close>

lemma reaped_commit_ok:
  obtains event usage where "ev_sequence event = ir_last_event_sequence r" "ev_name event = INTERACTION_FAILED"
    "reaped_commit std ids r category text seq = Inr (event, \<lparr>ic_interaction = r,
       ic_messages = [make_message ids r SYSTEM ERROR seq text []],
       ic_events = [event], ic_usage_events = [usage], ic_lifecycle = True\<rparr>)"
proof -
  have "terminal_event_name IFailed = Inr INTERACTION_FAILED"
    by (simp add: terminal_event_name_def TERMINAL_EVENT_BY_STATUS_def)
  moreover have "\<exists>e. completion_event std ids r None (Some category) [] = Inr e"
    by (simp add: completion_event_def interaction_completed_event_def wrap_def payload_eval Let_def)
  ultimately obtain event usage where
    "failed_event r category text = Inr event" "completion_event std ids r None (Some category) [] = Inr usage"
    "ev_sequence event = ir_last_event_sequence r" "ev_name event = INTERACTION_FAILED"
    by (force simp: failed_event_def)
  then show ?thesis using that by (simp add: reaped_commit_def)
qed

lemma upsert_same: "keyed key rows \<Longrightarrow> r \<in> set rows \<Longrightarrow> upsert key r rows = rows"
  unfolding upsert_def keyed_def distinct_map by (auto intro!: map_idI dest: inj_onD)

lemma message_key [simp]:
  "message_seq_key (make_message ids r mrole kind seq text p) = (ir_interaction_id r, seq)"
  "mr_message_id (make_message ids r mrole kind seq text p) = fr_message_id ids"
  "mr_interaction_id (make_message ids r mrole kind seq text p) = ir_interaction_id r"
  by (simp_all add: make_message_def message_seq_key_def)

text \<open>The commit of a record that already is in the table: either the message collides with a message
  of the same sequence, and nothing changes, or the error message and the terminal event are added.\<close>

lemma persist_conflict:
  assumes wf: "db_wf db" and r: "r \<in> set (db_interactions db)"
    and m: "m \<in> set (db_messages db)" "message_seq_key m = (ir_interaction_id r, seq)"
      "mr_message_id m \<noteq> fr_message_id ids"
  shows "persist_reaped_terminal env ids r category text seq db =
    (Inl (StoreError (UniqueViolation (u ''agent_message_sequence_key''))), db)"
proof -
  obtain event usage where c: "reaped_commit (env_std env) ids r category text seq = Inr (event,
      \<lparr>ic_interaction = r, ic_messages = [make_message ids r SYSTEM ERROR seq text []],
       ic_events = [event], ic_usage_events = [usage], ic_lifecycle = True\<rparr>)"
    using reaped_commit_ok by metis
  have "\<exists>x \<in> set (db_messages db). mr_message_id x \<noteq> fr_message_id ids \<and>
      message_seq_key x = (ir_interaction_id r, seq)"
    using m by blast
  moreover have "ir_interaction_id r \<in> ir_interaction_id ` set (db_interactions db)" using r by simp
  ultimately show ?thesis
    using wf r unfolding persist_reaped_terminal_def c
    by (simp add: commit_def commit_tx_def commit_interaction_def upsert_interaction_def upsert_message_def
        upsert_same db_wf_def Let_def)
qed

lemma persist_ok:
  assumes wf: "db_wf db" and r: "r \<in> set (db_interactions db)"
    and fresh: "fr_message_id ids \<notin> mr_message_id ` set (db_messages db)"
    and free: "(ir_interaction_id r, seq) \<notin> message_seq_key ` set (db_messages db)"
  obtains event db' row where
    "persist_reaped_terminal env ids r category text seq db = (Inr event, db')"
    "db_interactions db' = db_interactions db" "db_wf db'"
    "db_messages db' = db_messages db @ [make_message ids r SYSTEM ERROR seq text []]"
    "db_events db' = upsert event_key row (db_events db)"
    "event_key row = (ir_interaction_id r, ir_last_event_sequence r)" "evr_name row = INTERACTION_FAILED"
proof -
  obtain event usage where c: "reaped_commit (env_std env) ids r category text seq = Inr (event,
      \<lparr>ic_interaction = r, ic_messages = [make_message ids r SYSTEM ERROR seq text []],
       ic_events = [event], ic_usage_events = [usage], ic_lifecycle = True\<rparr>)"
    and ev: "ev_sequence event = ir_last_event_sequence r" "ev_name event = INTERACTION_FAILED"
    using reaped_commit_ok by metis
  let ?c = "\<lparr>ic_interaction = r, ic_messages = [make_message ids r SYSTEM ERROR seq text []],
       ic_events = [event], ic_usage_events = [usage], ic_lifecycle = True\<rparr>"
  let ?row = "\<lparr>evr_interaction_id = ir_interaction_id r, evr_sequence = ev_sequence event,
         evr_tenant_id = ir_tenant_id r, evr_user_id = ir_user_id r, evr_name = ev_name event,
         evr_data = ev_data event, evr_created_at = ir_updated_at r\<rparr>"
  let ?db = "db\<lparr>db_conversations := refresh_conversation r (db_conversations db),
      db_messages := db_messages db @ [make_message ids r SYSTEM ERROR seq text []],
      db_events := upsert event_key ?row (db_events db)\<rparr>"
  have "\<not> (\<exists>x \<in> set (db_messages db). mr_message_id x \<noteq> fr_message_id ids \<and>
      message_seq_key x = (ir_interaction_id r, seq))"
    using free by force
  moreover have "ir_interaction_id r \<in> ir_interaction_id ` set (db_interactions db)" using r by simp
  moreover have "upsert mr_message_id (make_message ids r SYSTEM ERROR seq text []) (db_messages db) =
      db_messages db @ [make_message ids r SYSTEM ERROR seq text []]"
    using fresh by (simp add: upsert_def)
  moreover have "upsert ir_interaction_id r (db_interactions db) = db_interactions db"
    using wf r by (intro upsert_same) (simp_all add: db_wf_def)
  ultimately have tx: "commit_tx ?c db = Inr ?db"
    by (simp add: commit_tx_def commit_interaction_def upsert_interaction_def upsert_message_def
        upsert_event_def Let_def)
  let ?final = "snd (commit env ?c db)"
  have "persist_reaped_terminal env ids r category text seq db = (Inr event, ?final)"
    by (simp add: persist_reaped_terminal_def c commit_def tx)
  moreover have "db_interactions ?final = db_interactions db" "db_messages ?final = db_messages ?db"
    "db_events ?final = db_events ?db"
    by (simp_all add: commit_def tx)
  moreover have "db_wf ?final" by (rule commit_wf [OF wf])
  moreover have "event_key ?row = (ir_interaction_id r, ir_last_event_sequence r)"
    "evr_name ?row = INTERACTION_FAILED"
    using ev by (simp_all add: event_key_def)
  ultimately show ?thesis using that by simp
qed

section \<open>The loop of a sweep\<close>

lemma persist_all_ok:
  assumes "db_wf db" and "distinct (map (fr_message_id \<circ> fst) items)"
    and "distinct (map (ir_interaction_id \<circ> snd) items)"
    and "\<forall>(ids, r) \<in> set items. r \<in> set (db_interactions db) \<and>
      fr_message_id ids \<notin> mr_message_id ` set (db_messages db) \<and>
      (ir_interaction_id r, seq r) \<notin> message_seq_key ` set (db_messages db)"
  shows "\<exists>db'. persist_all env category text seq items db = (Inr (), db') \<and> db_wf db' \<and>
    db_interactions db' = db_interactions db \<and>
    (\<forall>(ids, r) \<in> set items. \<exists>row. find_row event_key (ir_interaction_id r, ir_last_event_sequence r)
       (db_events db') = Some row \<and> evr_name row = INTERACTION_FAILED) \<and>
    (\<forall>k. fst k \<notin> (ir_interaction_id \<circ> snd) ` set items \<longrightarrow>
       find_row event_key k (db_events db') = find_row event_key k (db_events db))"
  using assms
proof (induction items arbitrary: db)
  case (Cons item items)
  obtain ids r where item: "item = (ids, r)" by force
  have head: "r \<in> set (db_interactions db)" "fr_message_id ids \<notin> mr_message_id ` set (db_messages db)"
    "(ir_interaction_id r, seq r) \<notin> message_seq_key ` set (db_messages db)"
    using Cons.prems(4) by (simp_all add: item)
  obtain event db1 row where p: "persist_reaped_terminal env ids r category text (seq r) db = (Inr event, db1)"
    and db1: "db_interactions db1 = db_interactions db" "db_wf db1"
      "db_messages db1 = db_messages db @ [make_message ids r SYSTEM ERROR (seq r) text []]"
      "db_events db1 = upsert event_key row (db_events db)"
    and row: "event_key row = (ir_interaction_id r, ir_last_event_sequence r)" "evr_name row = INTERACTION_FAILED"
    using persist_ok [OF Cons.prems(1) head] by metis
  have "\<forall>(ids', r') \<in> set items. r' \<in> set (db_interactions db1) \<and>
      fr_message_id ids' \<notin> mr_message_id ` set (db_messages db1) \<and>
      (ir_interaction_id r', seq r') \<notin> message_seq_key ` set (db_messages db1)"
  proof (clarify, intro conjI)
    fix ids' r' assume x: "(ids', r') \<in> set items"
    then have old: "r' \<in> set (db_interactions db)" "fr_message_id ids' \<notin> mr_message_id ` set (db_messages db)"
      "(ir_interaction_id r', seq r') \<notin> message_seq_key ` set (db_messages db)"
      using Cons.prems(4) by auto
    have "fr_message_id ids' \<noteq> fr_message_id ids" "ir_interaction_id r' \<noteq> ir_interaction_id r"
      using Cons.prems(2,3) imageI [OF x, of "fr_message_id \<circ> fst"]
        imageI [OF x, of "ir_interaction_id \<circ> snd"] by (metis comp_apply distinct.simps(2) fst_conv item
          list.map(2) list.set_map snd_conv)+
    then show "r' \<in> set (db_interactions db1)" "fr_message_id ids' \<notin> mr_message_id ` set (db_messages db1)"
      "(ir_interaction_id r', seq r') \<notin> message_seq_key ` set (db_messages db1)"
      using old by (simp_all add: db1(1,3))
  qed
  then obtain db' where IH: "persist_all env category text seq items db1 = (Inr (), db')" "db_wf db'"
    "db_interactions db' = db_interactions db1"
    "\<forall>(ids, r) \<in> set items. \<exists>row. find_row event_key (ir_interaction_id r, ir_last_event_sequence r)
       (db_events db') = Some row \<and> evr_name row = INTERACTION_FAILED"
    "\<forall>k. fst k \<notin> (ir_interaction_id \<circ> snd) ` set items \<longrightarrow>
       find_row event_key k (db_events db') = find_row event_key k (db_events db1)"
    using Cons.IH [OF db1(2)] Cons.prems(2,3) by auto
  have other: "ir_interaction_id r \<notin> (ir_interaction_id \<circ> snd) ` set items"
    using Cons.prems(3) by (simp add: item)
  then have "find_row event_key (ir_interaction_id r, ir_last_event_sequence r) (db_events db') = Some row"
    using IH(5) by (simp add: db1(4) find_row_upsert row(1))
  moreover have "find_row event_key k (db_events db') = find_row event_key k (db_events db)"
    if "fst k \<notin> (ir_interaction_id \<circ> snd) ` set (item # items)" for k
    using that IH(5) by (cases k) (auto simp: item db1(4) find_row_upsert row(1))
  ultimately show ?case
    using IH(1-4) db1(1) row(2) p by (auto simp: item)
qed simp

text \<open>What the compare-and-set of the stale sweep returns and leaves behind.\<close>

definition stale :: "instant \<Rightarrow> interaction_record \<Rightarrow> bool" where
  "stale before r \<longleftrightarrow> ir_status r = IRunning \<and> ir_updated_at r < before"

lemma fail_stale_runs_eq:
  "fail_stale_runs before now category db =
     (map (failed_by_sweep now category) (filter (stale before) (db_interactions db)),
      db\<lparr>db_interactions := map (\<lambda>r. if stale before r then failed_by_sweep now category r else r)
        (db_interactions db)\<rparr>)"
  by (simp add: fail_stale_runs_def fail_stale_interaction_runs_def with_interactions_def update_where_def
      stale_def [abs_def])

lemma swept_not_stale: "\<not> stale before (failed_by_sweep now category r)"
  by (simp add: stale_def failed_by_sweep_def)

lemma fail_stale_runs_again:
  assumes "fail_stale_runs before now category db = (rs, db1)"
    and "db_interactions db2 = db_interactions db1"
  shows "fail_stale_runs before now' category' db2 = ([], db2)"
proof -
  have "\<forall>r \<in> set (db_interactions db1). \<not> stale before r"
    using assms(1) by (auto simp: fail_stale_runs_eq swept_not_stale)
  then show ?thesis using assms(2) by (simp add: fail_stale_runs_eq filter_False cong: map_cong)
qed

text \<open>
  \<^bold>\<open>C33\<close>.  A stale sweep ends every orphaned run exactly once.  If the identifiers are fresh and no
  message of a stale run sits at the sequence the sweep reserves, then the sweep succeeds and reports
  the number of stale runs; each of them is failed with category \<open>executor_lost\<close> and completion
  time, and has its durable terminal event under the reserved sequence; every other interaction is
  untouched; and repeating the sweep reaps nothing.
\<close>

theorem stale_sweep_terminates_runs:
  assumes wf: "db_wf db" and ids: "inj (fr_message_id \<circ> ids)"
    and fresh: "\<forall>n. fr_message_id (ids n) \<notin> mr_message_id ` set (db_messages db)"
    and free: "\<forall>r \<in> set (db_interactions db). stale (now - lim_stale_running limits) r \<longrightarrow>
      (ir_interaction_id r, ir_last_event_sequence r + 1) \<notin> message_seq_key ` set (db_messages db)"
  shows "\<exists>db'. sweep_stale_runs env ids limits now db =
      (Inr (length (filter (stale (now - lim_stale_running limits)) (db_interactions db))), db') \<and>
    db_interactions db' = map (\<lambda>r. if stale (now - lim_stale_running limits) r
      then failed_by_sweep now CATEGORY_EXECUTOR_LOST r else r) (db_interactions db) \<and>
    (\<forall>r \<in> set (db_interactions db). stale (now - lim_stale_running limits) r \<longrightarrow>
      (\<exists>row. find_row event_key (ir_interaction_id r, ir_last_event_sequence r + 1) (db_events db') = Some row \<and>
        evr_name row = INTERACTION_FAILED)) \<and>
    sweep_stale_runs env ids limits now db' = (Inr 0, db')"
proof -
  let ?before = "now - lim_stale_running limits"
  let ?rs = "map (failed_by_sweep now CATEGORY_EXECUTOR_LOST) (filter (stale ?before) (db_interactions db))"
  let ?items = "zip (map ids [0..<length ?rs]) ?rs"
  obtain db1 where fs: "fail_stale_runs ?before now CATEGORY_EXECUTOR_LOST db = (?rs, db1)"
    and db1: "db1 = db\<lparr>db_interactions := map (\<lambda>r. if stale ?before r
      then failed_by_sweep now CATEGORY_EXECUTOR_LOST r else r) (db_interactions db)\<rparr>"
    by (simp add: fail_stale_runs_eq)
  have wf1: "db_wf db1"
    using apply_op_wf [OF wf, of "FailStaleRuns ?before now CATEGORY_EXECUTOR_LOST"] fs by simp
  have key: "ir_interaction_id \<circ> failed_by_sweep now CATEGORY_EXECUTOR_LOST = ir_interaction_id"
    by (auto simp: failed_by_sweep_def)
  have "map (ir_interaction_id \<circ> snd) ?items = map ir_interaction_id ?rs"
    by (simp flip: map_map)
  then have dist: "distinct (map (ir_interaction_id \<circ> snd) ?items)"
    using wf by (simp add: key db_wf_def keyed_def distinct_map_filter)
  have "map (fr_message_id \<circ> fst) ?items = map (fr_message_id \<circ> ids) [0..<length ?rs]"
    by (simp flip: map_map)
  then have dist': "distinct (map (fr_message_id \<circ> fst) ?items)"
    using ids by (simp add: distinct_map inj_on_subset [OF ids])
  have "\<forall>(i, r) \<in> set ?items. r \<in> set (db_interactions db1) \<and>
      fr_message_id i \<notin> mr_message_id ` set (db_messages db1) \<and>
      (ir_interaction_id r, ir_last_event_sequence r) \<notin> message_seq_key ` set (db_messages db1)"
  proof (clarify, intro conjI)
    fix i r assume z: "(i, r) \<in> set ?items"
    obtain n where i: "i = ids n" using set_zip_leftD [OF z] by auto
    obtain x where x: "x \<in> set (db_interactions db)" "stale ?before x"
      and r: "r = failed_by_sweep now CATEGORY_EXECUTOR_LOST x"
      using set_zip_rightD [OF z] by auto
    show "r \<in> set (db_interactions db1)" using x by (auto simp: db1 r)
    show "fr_message_id i \<notin> mr_message_id ` set (db_messages db1)" using fresh by (simp add: db1 i)
    show "(ir_interaction_id r, ir_last_event_sequence r) \<notin> message_seq_key ` set (db_messages db1)"
      using free x by (simp add: db1 r failed_by_sweep_def)
  qed
  from persist_all_ok [OF wf1 dist' dist this, of env CATEGORY_EXECUTOR_LOST EXECUTOR_LOST_NOTICE]
  obtain db' where p: "persist_all env CATEGORY_EXECUTOR_LOST EXECUTOR_LOST_NOTICE ir_last_event_sequence
      ?items db1 = (Inr (), db')" "db_interactions db' = db_interactions db1"
    and evs: "\<forall>(i, r) \<in> set ?items. \<exists>row. find_row event_key (ir_interaction_id r, ir_last_event_sequence r)
       (db_events db') = Some row \<and> evr_name row = INTERACTION_FAILED"
    by blast
  have "\<exists>row. find_row event_key (ir_interaction_id r, ir_last_event_sequence r + 1) (db_events db') = Some row \<and>
      evr_name row = INTERACTION_FAILED" if "r \<in> set (db_interactions db)" "stale ?before r" for r
  proof -
    have "failed_by_sweep now CATEGORY_EXECUTOR_LOST r \<in> snd ` set ?items"
      using that by (simp flip: list.set_map)
    then show ?thesis using evs by (fastforce simp: failed_by_sweep_def)
  qed
  moreover have "sweep_stale_runs env ids limits now db' = (Inr 0, db')"
    using fail_stale_runs_again [OF fs p(2)] by (simp add: sweep_stale_runs_def)
  ultimately show ?thesis
    using p by (simp add: sweep_stale_runs_def fs db1)
qed

text \<open>
  A run that dies before its first event defeats the stale sweep.  The question is stored as
  message 1 and a claimed run has event sequence 0, so the sweep reserves sequence 1 for the terminal
  event and uses it for the error message too.  If the first reaped run has a message at the reserved
  sequence, the sweep raises a unique violation: all stale runs of that pass are failed, none gets its
  terminal event, and no later sweep picks any of them up again.
\<close>

theorem stale_sweep_loses_terminal:
  assumes wf: "db_wf db" and rs: "fail_stale_runs (now - lim_stale_running limits) now CATEGORY_EXECUTOR_LOST db = (r # rs, db1)"
    and m: "m \<in> set (db_messages db)" "message_seq_key m = (ir_interaction_id r, ir_last_event_sequence r)"
      "mr_message_id m \<noteq> fr_message_id (ids 0)"
  shows "sweep_stale_runs env ids limits now db =
      (Inl (StoreError (UniqueViolation (u ''agent_message_sequence_key''))), db1) \<and>
    db_events db1 = db_events db \<and> (\<forall>x \<in> set (r # rs). ir_status x = IFailed \<and> x \<in> set (db_interactions db1)) \<and>
    sweep_stale_runs env ids limits now db1 = (Inr 0, db1)"
proof -
  have db1: "db1 = snd (fail_stale_runs (now - lim_stale_running limits) now CATEGORY_EXECUTOR_LOST db)"
    and all: "r # rs = fst (fail_stale_runs (now - lim_stale_running limits) now CATEGORY_EXECUTOR_LOST db)"
    using rs by simp_all
  have same: "db_messages db1 = db_messages db" "db_events db1 = db_events db"
    by (simp_all add: db1 fail_stale_runs_eq)
  have mem: "\<forall>x \<in> set (r # rs). ir_status x = IFailed \<and> x \<in> set (db_interactions db1)"
    unfolding all db1 by (auto simp: fail_stale_runs_eq failed_by_sweep_def)
  have wf1: "db_wf db1"
    using apply_op_wf [OF wf, of "FailStaleRuns (now - lim_stale_running limits) now CATEGORY_EXECUTOR_LOST"] rs by simp
  have "zip (map ids [0..<length (r # rs)]) (r # rs) = (ids 0, r) # zip (map ids [1..<length (r # rs)]) rs"
    by (simp add: upt_conv_Cons del: upt_Suc)
  then have "persist_all env CATEGORY_EXECUTOR_LOST EXECUTOR_LOST_NOTICE ir_last_event_sequence
      (zip (map ids [0..<length (r # rs)]) (r # rs)) db1 =
      (Inl (StoreError (UniqueViolation (u ''agent_message_sequence_key''))), db1)"
    using persist_conflict [OF wf1 _ _ m(2,3)] mem m(1) same(1) by simp
  then have "sweep_stale_runs env ids limits now db =
      (Inl (StoreError (UniqueViolation (u ''agent_message_sequence_key''))), db1)"
    unfolding sweep_stale_runs_def rs by (simp del: upt_Suc)
  moreover have "sweep_stale_runs env ids limits now db1 = (Inr 0, db1)"
    using fail_stale_runs_again [OF rs refl] by (simp add: sweep_stale_runs_def)
  ultimately show ?thesis using same(2) mem by blast
qed

section \<open>Witnesses\<close>

definition demo_env :: store_env where
  "demo_env = \<lparr>env_std = demo_std, env_metering_fault = False, env_debug_fault = False,
     env_debug_retention = None, env_captures = []\<rparr>"

definition demo_ids :: "nat \<Rightarrow> fresh_ids" where
  "demo_ids n = \<lparr>fr_message_id = [n], fr_event_id = [n], fr_trace_id = [n], fr_message_at = 0\<rparr>"

text \<open>The run after its claim: still without events, its question at sequence 1.\<close>

definition demo_claimed :: session_db where
  "demo_claimed = demo_db IPending\<lparr>db_interactions := [demo_row IRunning\<lparr>ir_updated_at := 5\<rparr>]\<rparr>"

text \<open>The same run after its first event.\<close>

definition demo_started :: session_db where
  "demo_started = demo_db IPending\<lparr>db_interactions :=
     [demo_row IRunning\<lparr>ir_updated_at := 5, ir_last_event_sequence := 1\<rparr>]\<rparr>"

lemma demo_claimed_wf: "db_wf demo_claimed" and demo_started_wf: "db_wf demo_started"
  using demo_db_wf [of IPending]
  by (simp_all add: demo_claimed_def demo_started_def db_wf_def demo_db_def empty_db_def demo_row_def keyed_def)

theorem stale_sweep_terminates_runs_witness:
  "\<exists>db'. sweep_stale_runs demo_env demo_ids default_limits (700 * us_second) demo_started = (Inr 1, db') \<and>
     sweep_stale_runs demo_env demo_ids default_limits (700 * us_second) db' = (Inr 0, db')"
proof -
  let ?now = "700 * us_second"
  have st: "stale (?now - lim_stale_running default_limits)
      (demo_row IRunning\<lparr>ir_updated_at := 5, ir_last_event_sequence := 1\<rparr>)"
    by (simp add: stale_def demo_row_def default_limits_def us_defs)
  have ids: "inj (fr_message_id \<circ> demo_ids)" by (simp add: inj_def demo_ids_def)
  have fresh: "\<forall>n. fr_message_id (demo_ids n) \<notin> mr_message_id ` set (db_messages demo_started)"
    by (simp add: demo_ids_def demo_started_def demo_db_def demo_question_def u_def)
  have free: "\<forall>r \<in> set (db_interactions demo_started). stale (?now - lim_stale_running default_limits) r \<longrightarrow>
      (ir_interaction_id r, ir_last_event_sequence r + 1) \<notin> message_seq_key ` set (db_messages demo_started)"
    by (simp add: demo_started_def demo_db_def demo_row_def demo_question_def message_seq_key_def)
  have "length (filter (stale (?now - lim_stale_running default_limits)) (db_interactions demo_started)) = 1"
    using st by (simp add: demo_started_def)
  then show ?thesis
    using stale_sweep_terminates_runs [OF demo_started_wf ids fresh free, of demo_env] by metis
qed

theorem stale_sweep_loses_terminal_witness:
  "\<exists>db1. sweep_stale_runs demo_env demo_ids default_limits (700 * us_second) demo_claimed =
       (Inl (StoreError (UniqueViolation (u ''agent_message_sequence_key''))), db1) \<and> db_events db1 = [] \<and>
     sweep_stale_runs demo_env demo_ids default_limits (700 * us_second) db1 = (Inr 0, db1)"
proof -
  let ?now = "700 * us_second"
  let ?r = "failed_by_sweep ?now CATEGORY_EXECUTOR_LOST (demo_row IRunning\<lparr>ir_updated_at := 5\<rparr>)"
  have "stale (?now - lim_stale_running default_limits) (demo_row IRunning\<lparr>ir_updated_at := 5\<rparr>)"
    by (simp add: stale_def demo_row_def default_limits_def us_defs)
  then have rs: "fail_stale_runs (?now - lim_stale_running default_limits) ?now CATEGORY_EXECUTOR_LOST demo_claimed =
      ([?r], demo_claimed\<lparr>db_interactions := [?r]\<rparr>)"
    by (simp add: fail_stale_runs_eq demo_claimed_def)
  have m: "demo_question \<in> set (db_messages demo_claimed)"
    "message_seq_key demo_question = (ir_interaction_id ?r, ir_last_event_sequence ?r)"
    "mr_message_id demo_question \<noteq> fr_message_id (demo_ids 0)"
    by (simp_all add: demo_claimed_def demo_db_def demo_question_def message_seq_key_def demo_row_def
        failed_by_sweep_def demo_ids_def u_def)
  show ?thesis
    using stale_sweep_loses_terminal [where ids = demo_ids, OF demo_claimed_wf rs m]
    by (auto simp: demo_claimed_def demo_db_def empty_db_def)
qed

end
