(* ===== verification/Context.thy ===== *)
theory Context
  imports Lifecycle
begin

text \<open>
  Bounded conversation context and follow-up patches (\<^verbatim>\<open>application/context.py\<close>).  Lengths are
  in code points, as \<open>len(str)\<close> counts them; an optional collection that is empty counts as not
  supplied.
\<close>

section \<open>History compaction\<close>

definition DEFAULT_MAX_TURNS :: int where "DEFAULT_MAX_TURNS = 8"
definition DEFAULT_MAX_CHARS :: int where "DEFAULT_MAX_CHARS = 8192"
definition UNFINISHED_SUMMARY :: pystr where
  "UNFINISHED_SUMMARY = [19978, 19968, 36718, 35831, 27714, 26410, 23436, 25104, 12290]"

record model_message =
  mm_role :: pystr
  mm_content :: pystr

definition summarize_assistant_reply :: "conversation_turn \<Rightarrow> pystr" where
  "summarize_assistant_reply t =
     (if ct_status t = IFailed \<or> ct_status t = ICancelled then UNFINISHED_SUMMARY
      else (case ct_result_row_count t of
          Some n \<Rightarrow> [36820, 22238, 20102, 32] @
            (case ct_capability_id t of Some c \<Rightarrow> c | None \<Rightarrow> [26597, 35810]) @
            [32, 30340, 32467, 26524, 34920, 65288] @ decimal_int n @ [32, 34892, 65289, 12290]
        | None \<Rightarrow> ct_assistant_text t))"

text \<open>The slice \<open>xs[-n:]\<close>; note \<open>xs[-0:]\<close> is the whole list.\<close>

definition slice_last :: "int \<Rightarrow> 'a list \<Rightarrow> 'a list" where
  "slice_last n xs = (if 0 < n then drop (length xs - nat n) xs else drop (nat (- n)) xs)"

definition pair_chars :: "(model_message \<times> model_message) list \<Rightarrow> int" where
  "pair_chars pairs = (\<Sum>(user, assistant) \<leftarrow> pairs. int (length (mm_content user)) + int (length (mm_content assistant)))"

definition truncate_pair :: "model_message \<times> model_message \<Rightarrow> int \<Rightarrow> model_message list" where
  "truncate_pair p max_chars = (case p of (user, assistant) \<Rightarrow>
     let user_budget = max 1 (max_chars div 2);
         truncated_user = \<lparr>mm_role = u ''user'', mm_content = take (nat user_budget) (mm_content user)\<rparr>;
         assistant_budget = max 0 (max_chars - int (length (mm_content truncated_user)))
     in [truncated_user,
         \<lparr>mm_role = u ''assistant'', mm_content = take (nat assistant_budget) (mm_content assistant)\<rparr>])"

definition turn_pairs :: "conversation_turn list \<Rightarrow> (model_message \<times> model_message) list" where
  "turn_pairs turns = map (\<lambda>t. (\<lparr>mm_role = u ''user'', mm_content = py_strip (ct_user_text t)\<rparr>,
       \<lparr>mm_role = u ''assistant'', mm_content = summarize_assistant_reply t\<rparr>))
     (filter (\<lambda>t. py_strip (ct_user_text t) \<noteq> []) turns)"

text \<open>The loop that drops the oldest pair while the budget is exceeded.\<close>

fun drop_oldest :: "int \<Rightarrow> (model_message \<times> model_message) list \<Rightarrow> model_message list" where
  "drop_oldest max_chars [] = []"
| "drop_oldest max_chars (p # pairs) =
     (if pair_chars (p # pairs) > max_chars
      then (if pairs = [] then truncate_pair p max_chars else drop_oldest max_chars pairs)
      else concat (map (\<lambda>(a, b). [a, b]) (p # pairs)))"

definition compact_history :: "conversation_turn list \<Rightarrow> int \<Rightarrow> int \<Rightarrow> model_message list" where
  "compact_history turns max_turns max_chars =
     (if turns = [] then [] else drop_oldest max_chars (turn_pairs (slice_last max_turns turns)))"

section \<open>Follow-up patches\<close>

record intent_patch =
  ip_capability_id :: "pystr option"
  ip_time_range_start :: "instant option"
  ip_time_range_end :: "instant option"
  ip_time_expression :: "pystr option"
  ip_order_codes :: "pystr list"
  ip_plan_codes :: "pystr list"
  ip_style_codes :: "pystr list"
  ip_dept_names :: "pystr list"
  ip_employee_names :: "pystr list"

definition patch_is_empty :: "intent_patch \<Rightarrow> bool" where
  "patch_is_empty p \<longleftrightarrow> ip_capability_id p = None \<and> ip_time_range_start p = None \<and>
     ip_time_range_end p = None \<and> ip_time_expression p \<in> {None, Some []} \<and> ip_order_codes p = [] \<and>
     ip_plan_codes p = [] \<and> ip_style_codes p = [] \<and> ip_dept_names p = [] \<and> ip_employee_names p = []"

text \<open>\<open>a or b\<close> for an optional string.\<close>

definition str_or :: "pystr option \<Rightarrow> pystr option \<Rightarrow> pystr option" where
  "str_or a b = (if a = None \<or> a = Some [] then b else a)"

definition merge_slots :: "intent_slots \<Rightarrow> intent_patch \<Rightarrow> intent_slots" where
  "merge_slots base p =
     (let m1 = (if ip_time_range_start p \<noteq> None \<and> ip_time_range_end p \<noteq> None
            then base\<lparr>sl_time_range_start := ip_time_range_start p, sl_time_range_end := ip_time_range_end p,
              sl_time_expression := str_or (ip_time_expression p) (sl_time_expression base)\<rparr>
            else if ip_time_expression p \<noteq> None \<and> ip_time_expression p \<noteq> Some []
            then base\<lparr>sl_time_expression := ip_time_expression p\<rparr> else base);
          m2 = (if ip_order_codes p \<noteq> [] then m1\<lparr>sl_order_codes := ip_order_codes p\<rparr> else m1);
          m3 = (if ip_plan_codes p \<noteq> [] then m2\<lparr>sl_plan_codes := ip_plan_codes p\<rparr> else m2);
          m4 = (if ip_style_codes p \<noteq> [] then m3\<lparr>sl_style_codes := ip_style_codes p\<rparr> else m3);
          m5 = (if ip_dept_names p \<noteq> [] then m4\<lparr>sl_dept_names := ip_dept_names p\<rparr> else m4)
      in (if ip_employee_names p \<noteq> [] then m5\<lparr>sl_employee_names := ip_employee_names p\<rparr> else m5))"

definition merge_intent :: "capability_intent \<Rightarrow> intent_patch \<Rightarrow> value_error + capability_intent" where
  "merge_intent base p = CapabilityIntent
     (case ip_capability_id p of None \<Rightarrow> ci_capability_id base | Some c \<Rightarrow> Some c)
     (Some (ci_confidence base)) (merge_slots (ci_slots base) p) [] []"

section \<open>Properties\<close>

lemma truncate_pair_bound:
  "1 \<le> max_chars \<Longrightarrow> (\<Sum>m \<leftarrow> truncate_pair p max_chars. int (length (mm_content m))) \<le> max_chars"
proof -
  assume m: "1 \<le> max_chars"
  obtain user assistant where p: "p = (user, assistant)" by force
  let ?a = "int (length (take (nat (max 1 (max_chars div 2))) (mm_content user)))"
  let ?b = "int (length (take (nat (max 0 (max_chars - ?a))) (mm_content assistant)))"
  have cut: "int (length (take (nat n) s)) \<le> n" if "0 \<le> n" for n and s :: pystr
    using that by (simp add: min_def le_nat_iff)
  have "?a \<le> max 1 (max_chars div 2)" by (rule cut) simp
  then have a: "?a \<le> max_chars" using m by linarith
  have "?b \<le> max 0 (max_chars - ?a)" by (rule cut) simp
  then have "?a + ?b \<le> max_chars" using a by linarith
  then show ?thesis
    unfolding p truncate_pair_def Let_def prod.case by (simp only: list.map sum_list.Cons sum_list.Nil model_message.select_convs add_0_right)
qed

lemma flat_pair_chars:
  "(\<Sum>m \<leftarrow> concat (map (\<lambda>(a, b). [a, b]) pairs). int (length (mm_content m))) = pair_chars pairs"
  by (induction pairs) (auto simp: pair_chars_def)

lemma drop_oldest_bound:
  "1 \<le> max_chars \<Longrightarrow> (\<Sum>m \<leftarrow> drop_oldest max_chars pairs. int (length (mm_content m))) \<le> max_chars"
proof (induction pairs)
  case (Cons p pairs)
  then show ?case
    using truncate_pair_bound [of max_chars p] flat_pair_chars [of "p # pairs"]
    by (auto simp del: concat.simps list.map sum_list.Cons)
qed simp

lemma drop_oldest_suffix:
  "(\<exists>pre kept. pairs = pre @ kept \<and> drop_oldest max_chars pairs = concat (map (\<lambda>(a, b). [a, b]) kept)) \<or>
   (\<exists>pre p. pairs = pre @ [p] \<and> drop_oldest max_chars pairs = truncate_pair p max_chars)"
proof (induction pairs)
  case (Cons p pairs)
  show ?case
  proof (cases "pair_chars (p # pairs) > max_chars \<and> pairs \<noteq> []")
    case True
    then have "drop_oldest max_chars (p # pairs) = drop_oldest max_chars pairs" by simp
    then show ?thesis using Cons.IH by (metis append_Cons)
  next
    case False
    then show ?thesis by (cases "pairs = []") (auto intro: exI [of _ "[]"])
  qed
qed simp

text \<open>
  The model history is bounded and recent.  For every positive character budget the compacted
  history is within it, whatever the turns; and it is either the exchanges of an unbroken suffix of
  the last \<open>max_turns\<close> turns, whole and in order, or the newest exchange alone, cut to fit.
\<close>

theorem compact_history_bounded:
  assumes "1 \<le> max_chars"
  shows "(\<Sum>m \<leftarrow> compact_history turns max_turns max_chars. int (length (mm_content m))) \<le> max_chars \<and>
    ((\<exists>pre kept. turn_pairs (slice_last max_turns turns) = pre @ kept \<and>
        compact_history turns max_turns max_chars = concat (map (\<lambda>(a, b). [a, b]) kept)) \<or>
     (\<exists>pre p. turn_pairs (slice_last max_turns turns) = pre @ [p] \<and>
        compact_history turns max_turns max_chars = truncate_pair p max_chars))"
proof (cases "turns = []")
  case True
  then show ?thesis using assms by (auto simp: compact_history_def turn_pairs_def slice_last_def)
next
  case False
  then show ?thesis
    using drop_oldest_bound [OF assms] drop_oldest_suffix [of "turn_pairs (slice_last max_turns turns)" max_chars]
    by (simp add: compact_history_def)
qed

theorem compact_history_bounded_witness:
  "(\<Sum>m \<leftarrow> compact_history [\<lparr>ct_user_text = u ''abcdef'', ct_assistant_text = u ''ghijkl'',
       ct_status = ICompleted, ct_capability_id = None, ct_result_row_count = None\<rparr>] 8 5.
     int (length (mm_content m))) \<le> 5"
  using compact_history_bounded [of 5] by simp

text \<open>A patch overwrites exactly the fields it supplies and clears the diagnostics.\<close>

lemma merge_slots_fields:
  "sl_order_codes (merge_slots base p) = (if ip_order_codes p = [] then sl_order_codes base else ip_order_codes p)"
  "sl_plan_codes (merge_slots base p) = (if ip_plan_codes p = [] then sl_plan_codes base else ip_plan_codes p)"
  "sl_style_codes (merge_slots base p) = (if ip_style_codes p = [] then sl_style_codes base else ip_style_codes p)"
  "sl_dept_names (merge_slots base p) = (if ip_dept_names p = [] then sl_dept_names base else ip_dept_names p)"
  "sl_employee_names (merge_slots base p) =
     (if ip_employee_names p = [] then sl_employee_names base else ip_employee_names p)"
  "sl_bed_codes (merge_slots base p) = sl_bed_codes base"
  "sl_material_ids (merge_slots base p) = sl_material_ids base"
  "sl_time_range_start (merge_slots base p) = (if ip_time_range_start p \<noteq> None \<and> ip_time_range_end p \<noteq> None
     then ip_time_range_start p else sl_time_range_start base)"
  by (simp_all add: merge_slots_def Let_def)

lemma merge_intent_fields:
  assumes "merge_intent base p = Inr i"
  shows "ci_missing i = []" and "ci_ambiguous i = []" and "ci_confidence i = ci_confidence base"
    and "ci_capability_id i = (case ip_capability_id p of None \<Rightarrow> ci_capability_id base | Some c \<Rightarrow> Some c)"
    and "ci_slots i = merge_slots (ci_slots base) p"
    and "patch_is_empty p \<Longrightarrow> ci_slots i = ci_slots base"
  using assms
  by (auto simp: merge_intent_def CapabilityIntent_def split: if_splits)
    (auto simp: merge_slots_def patch_is_empty_def Let_def)

end
