(* ===== verification/Strings.thy ===== *)
theory Strings
  imports Prelude "HOL-Library.Sublist"
begin

text \<open>
  Strings of Python: \<open>s.startswith(p)\<close>, \<open>needle in text\<close>, \<open>s.split(c)\<close> and
  \<open>sep.join(parts)\<close>.
\<close>

definition starts_with :: "pystr \<Rightarrow> pystr \<Rightarrow> bool" where
  "starts_with p s \<longleftrightarrow> prefix p s"

fun py_in :: "pystr \<Rightarrow> pystr \<Rightarrow> bool" where
  "py_in needle [] \<longleftrightarrow> needle = []"
| "py_in needle (c # s) \<longleftrightarrow> prefix needle (c # s) \<or> py_in needle s"

lemma py_in_sublist: "py_in needle s \<longleftrightarrow> (\<exists>a b. s = a @ needle @ b)"
proof (induction s)
  case (Cons c s)
  have "(\<exists>a b. c # s = a @ needle @ b) \<longleftrightarrow> prefix needle (c # s) \<or> (\<exists>a b. s = a @ needle @ b)"
    by (auto simp: prefix_def Cons_eq_append_conv)
  then show ?case using Cons by simp
qed simp

text \<open>\<open>s.split(c)\<close> for a single character.\<close>

fun py_split :: "nat \<Rightarrow> pystr \<Rightarrow> pystr list" where
  "py_split c [] = [[]]"
| "py_split c (x # s) = (if x = c then [] # py_split c s
     else case py_split c s of [] \<Rightarrow> [[x]] | p # ps \<Rightarrow> (x # p) # ps)"

text \<open>\<open>sep.join(parts)\<close>.\<close>

fun join :: "pystr \<Rightarrow> pystr list \<Rightarrow> pystr" where
  "join sep [] = []"
| "join sep [x] = x"
| "join sep (x # y # xs) = x @ sep @ join sep (y # xs)"

lemma py_split_Nil [simp]: "py_split c s \<noteq> []"
  by (cases s) (auto split: list.split)

lemma py_split_none: "c \<notin> set s \<Longrightarrow> py_split c s = [s]"
  by (induction s) auto

lemma py_split_two: "c \<notin> set a \<Longrightarrow> c \<notin> set b \<Longrightarrow> py_split c (a @ c # b) = [a, b]"
  by (induction a) (auto simp: py_split_none)

lemma py_split_one_eq: "py_split c s = [a] \<Longrightarrow> s = a"
  by (induction s arbitrary: a) (auto split: if_splits list.splits)

lemma py_split_two_eq: "py_split c s = [a, b] \<Longrightarrow> s = a @ c # b"
proof (induction s arbitrary: a)
  case (Cons x s)
  show ?case
  proof (cases "x = c")
    case True
    then show ?thesis using Cons.prems py_split_one_eq [of c s b] by auto
  next
    case False
    then obtain p ps where "py_split c s = p # ps" "a = x # p" "ps = [b]"
      using Cons.prems by (auto split: list.splits)
    then show ?thesis using Cons.IH [of p] by simp
  qed
qed simp

end
