(* ===== verification/Consistency.thy ===== *)
theory Consistency
  imports Authorization Usage Strings
begin

text \<open>
  The role-consistency safety net (\<^verbatim>\<open>application/consistency.py\<close>): the reviewed row semantics
  per capability, the exact and the heuristic finding, the disposition, and the validator.  Digests
  are the first sixteen characters of the SHA-256 rendering given by \<open>stdlib\<close>; result cells
  are dynamically typed values.  A row shorter than the judged column raises, as in the code.
\<close>

section \<open>Reviewed data\<close>

datatype validation_mode = MODE_STRICT | MODE_PRODUCTION

datatype row_semantic = PERSONAL | PERSONAL_SUMMARY | GROUP_RANK | MANAGEMENT_OVERVIEW | TEAM_LIST
  | OWNER_OVERVIEW

record semantic_rule =
  sr_semantic :: row_semantic
  sr_judge_uid_self :: bool
  sr_judge_dept :: bool
  sr_single_subject :: bool
  sr_output_uid_column :: "pystr option"
  sr_output_dept_column :: "pystr option"

definition plain_rule :: "row_semantic \<Rightarrow> semantic_rule" where
  "plain_rule s = \<lparr>sr_semantic = s, sr_judge_uid_self = False, sr_judge_dept = False,
     sr_single_subject = False, sr_output_uid_column = None, sr_output_dept_column = None\<rparr>"

definition ROW_SEMANTICS :: "(capability, semantic_rule) dict" where
  "ROW_SEMANTICS =
    [(OWN_OUTPUT, (plain_rule PERSONAL)\<lparr>sr_judge_uid_self := True\<rparr>),
     (OWN_PAYROLL_SUMMARY,
       (plain_rule PERSONAL_SUMMARY)\<lparr>sr_judge_uid_self := True, sr_single_subject := True\<rparr>),
     (OWN_PAYROLL_DETAIL, (plain_rule PERSONAL)\<lparr>sr_judge_uid_self := True\<rparr>),
     (GROUP_INCOME_RANK, (plain_rule GROUP_RANK)\<lparr>sr_judge_dept := True, sr_single_subject := True\<rparr>),
     (ORDER_PROGRESS, (plain_rule MANAGEMENT_OVERVIEW)\<lparr>sr_judge_dept := True\<rparr>),
     (ORDER_OUTPUT, (plain_rule MANAGEMENT_OVERVIEW)\<lparr>sr_judge_dept := True\<rparr>),
     (WORKSHOP_COMPARISON, (plain_rule MANAGEMENT_OVERVIEW)\<lparr>sr_judge_dept := True\<rparr>),
     (TEAM_PAYROLL_LIST, (plain_rule TEAM_LIST)\<lparr>sr_judge_dept := True,
        sr_output_uid_column := Some (u ''uid''), sr_output_dept_column := Some (u ''dept'')\<rparr>),
     (FACTORY_ORDER_OVERVIEW, plain_rule OWNER_OVERVIEW),
     (WORKSHOP_OUTPUT_OVERVIEW, plain_rule MANAGEMENT_OVERVIEW),
     (FACTORY_PAYROLL_STATS, plain_rule OWNER_OVERVIEW),
     (ANY_EMPLOYEE_PAYROLL, (plain_rule OWNER_OVERVIEW)\<lparr>sr_single_subject := True\<rparr>),
     (FACTORY_OUTPUT_DASHBOARD, plain_rule OWNER_OVERVIEW)]"

definition HEURISTIC_RULES :: "(pystr \<times> pystr) list" where
  "HEURISTIC_RULES = [(u ''single_subject_multiple_rows'',
     [21333, 20027, 20307, 35821, 20041, 65288, 20010, 20154, 24037, 36164, 27719, 
      24635, 47, 32452, 20869, 25490, 21517, 47, 20219, 19968, 21592, 24037, 24037, 
      36164, 65289, 36755, 20986, 22810, 20110, 32, 49, 32, 34892, 65306, 30495, 
      23454, 32, 77, 69, 83, 32, 19978, 21487, 33021, 22240, 19968, 20154, 22810, 32, 
      117, 105, 100, 47, 21516, 21517, 31561, 19994, 21153, 21407, 22240, 20986, 
      29616, 65292, 23646, 21487, 30097, 24418, 24577, 32780, 38750, 30830, 35777, 
      36234, 26435, 65292, 25353, 21551, 21457, 24335, 35760, 24405, 19981, 25318, 
      25130, 12290])]"

definition ROLE_DATA_RANGE :: "(role, pystr) dict" where
  "ROLE_DATA_RANGE =
    [(EMPLOYEE, [26412, 20154, 30340, 20135, 37327, 19982, 24037, 36164, 25968, 25454]),
     (GROUP_LEADER, [26412, 20154, 25968, 25454, 21450, 25152, 32465, 23450, 23567, 32452, 30340, 
      29983, 20135, 19982, 24037, 36164, 25968, 25454]),
     (MANAGER, [26412, 20154, 25968, 25454, 21450, 25152, 32465, 23450, 36710, 38388, 47, 
      37096, 38376, 30340, 29983, 20135, 19982, 24037, 36164, 25968, 25454]),
     (OWNER, [26412, 20154, 25968, 25454, 21450, 20840, 21378, 30340, 35746, 21333, 12289, 
      20135, 37327, 19982, 24037, 36164, 25968, 25454])]"

datatype validation_level = OK_LEVEL | EXACT_HIT | HEURISTIC_HIT
datatype validation_action = PROCEED | BLOCK

record validation_finding =
  vf_level :: validation_level
  vf_code :: pystr
  vf_reason :: pystr
  vf_expected :: pystr
  vf_actual :: pystr
  vf_sample_count :: nat
  vf_sample_digests :: "pystr list"

record consistency_verdict =
  cv_finding :: "validation_finding option"
  cv_action :: validation_action

definition verdict_ok :: "consistency_verdict \<Rightarrow> bool" where
  "verdict_ok v \<longleftrightarrow> cv_finding v = None"

text \<open>The part of \<open>CapabilityRunResult\<close> the validator looks at.\<close>

record capability_run_result =
  rr_column_names :: "pystr list"
  rr_rows :: "pyval list list"
  rr_observed_uid_values :: "pystr list"
  rr_observed_dept_values :: "pystr list"

section \<open>The validator\<close>

definition digest :: "stdlib \<Rightarrow> pystr \<Rightarrow> pystr" where
  "digest std v = take 16 (std_sha256_hex std v)"

definition range_text :: "expected_range \<Rightarrow> pystr" where
  "range_text e = (case map_of ROLE_DATA_RANGE (er_role e) of Some t \<Rightarrow> t
     | None \<Rightarrow> [24403, 21069, 35282, 33394, 21487, 26597, 33539, 22260])"

definition should_block :: "validation_level \<Rightarrow> validation_mode \<Rightarrow> bool" where
  "should_block level mode = False"

fun index_of :: "pystr \<Rightarrow> pystr list \<Rightarrow> nat option" where
  "index_of name [] = None"
| "index_of name (x # xs) = (if x = name then Some 0 else map_option Suc (index_of name xs))"

definition column_index :: "capability_run_result \<Rightarrow> pystr \<Rightarrow> nat option" where
  "column_index r name = index_of name (rr_column_names r)"

definition out_of_range_depts ::
  "stdlib \<Rightarrow> expected_range \<Rightarrow> nat \<Rightarrow> pyval list list \<Rightarrow> index_error + pystr list" where
  "out_of_range_depts std e i rows =
     rbind (rmap (\<lambda>row. if i < length row then Inr (row ! i) else Inl IndexError) rows) (\<lambda>cells.
       Inr (filter (\<lambda>s. \<not> allows_dept e (Some s)) (map (py_str std) (filter (\<lambda>v. v \<noteq> PNone) cells))))"

text \<open>The three dimensions of \<open>_exact_finding\<close> in the order of the code: the offending values and
  the name of their dimension.\<close>

definition uid_offenders :: "semantic_rule \<Rightarrow> capability_run_result \<Rightarrow> expected_range \<Rightarrow> pystr list" where
  "uid_offenders rule r e = (if sr_judge_uid_self rule
     then filter (\<lambda>x. \<not> allows_employee e (Some x)) (rr_observed_uid_values r) else [])"

definition dept_offenders :: "semantic_rule \<Rightarrow> capability_run_result \<Rightarrow> expected_range \<Rightarrow> pystr list" where
  "dept_offenders rule r e = (if sr_judge_dept rule \<and> \<not> er_whole_tenant e
     then filter (\<lambda>x. \<not> allows_dept e (Some x)) (rr_observed_dept_values r) else [])"

definition column_offenders ::
  "stdlib \<Rightarrow> semantic_rule \<Rightarrow> capability_run_result \<Rightarrow> expected_range \<Rightarrow> index_error + pystr list" where
  "column_offenders std rule r e = (case sr_output_dept_column rule of
     Some col \<Rightarrow> if col \<noteq> [] \<and> \<not> er_whole_tenant e then (case column_index r col of
         None \<Rightarrow> Inr []
       | Some i \<Rightarrow> rbind (out_of_range_depts std e i (rr_rows r)) (\<lambda>vs. Inr (from_keys vs))) else Inr []
   | None \<Rightarrow> Inr [])"

definition UID_DIMENSION :: pystr where "UID_DIMENSION = [21592, 24037, 24037, 21495]"
definition DEPT_DIMENSION :: pystr where "DEPT_DIMENSION = [37096, 38376]"

definition offenders ::
  "stdlib \<Rightarrow> semantic_rule \<Rightarrow> capability_run_result \<Rightarrow> expected_range \<Rightarrow> index_error + pystr list \<times> pystr" where
  "offenders std rule r e =
     (if uid_offenders rule r e \<noteq> [] then Inr (uid_offenders rule r e, UID_DIMENSION)
      else if dept_offenders rule r e \<noteq> [] then Inr (dept_offenders rule r e, DEPT_DIMENSION)
      else rbind (column_offenders std rule r e) (\<lambda>vs. Inr (vs, if vs = [] then [] else DEPT_DIMENSION)))"

definition exact_finding ::
  "stdlib \<Rightarrow> semantic_rule \<Rightarrow> capability_run_result \<Rightarrow> expected_range \<Rightarrow>
   index_error + validation_finding option" where
  "exact_finding std rule r e = rbind (offenders std rule r e) (\<lambda>(vs, dimension).
     Inr (if vs = [] \<or> dimension = [] then None
       else let digests = map (digest std) (take 5 vs) in
         Some \<lparr>vf_level = EXACT_HIT, vf_code = u ''scope_mismatch_exact'',
           vf_reason = [26412, 27425, 26597, 35810, 36820, 22238, 30340, 25968, 25454, 20013, 21253, 
      21547, 19981, 22312, 24744, 21487, 26597, 33539, 22260, 20869, 30340, 35760, 
      24405, 65292, 24050, 20572, 27490, 23637, 31034, 30456, 20851, 25968, 25454, 
      12290] @
             [24744, 21487, 26597, 35810, 30340, 33539, 22260, 65306] @ range_text e @ [12290],
           vf_expected = [21487, 26597, 33539, 22260, 65306] @ range_text e,
           vf_actual = [36820, 22238, 19994, 21153, 25968, 25454, 21547, 32] @ decimal (length vs) @
             [32, 20010, 33539, 22260, 22806] @ dimension @ [20540, 65288, 24050, 25688, 35201, 65306] @
             join (u '','') digests @ [65289],
           vf_sample_count = length vs, vf_sample_digests = digests\<rparr>))"

definition heuristic_finding ::
  "semantic_rule \<Rightarrow> capability_run_result \<Rightarrow> expected_range \<Rightarrow> validation_finding option" where
  "heuristic_finding rule r e =
     (if \<not> sr_single_subject rule then None
      else if length (rr_rows r) \<le> 1 then None
      else if er_role e = OWNER \<and> sr_semantic rule = OWNER_OVERVIEW then None
      else Some \<lparr>vf_level = HEURISTIC_HIT, vf_code = fst (HEURISTIC_RULES ! 0),
        vf_reason = snd (HEURISTIC_RULES ! 0),
        vf_expected = [21333, 20027, 20307, 35821, 20041, 65292, 26399, 26395, 21333, 34892, 32467, 
      26524, 65288, 21487, 26597, 33539, 22260, 65306] @ range_text e @ [65289],
        vf_actual = [23454, 38469, 36820, 22238, 32] @ decimal (length (rr_rows r)) @ [32, 34892, 32467, 26524],
        vf_sample_count = length (rr_rows r), vf_sample_digests = []\<rparr>)"

definition validate ::
  "stdlib \<Rightarrow> capability_run_result \<Rightarrow> capability \<Rightarrow> expected_range \<Rightarrow> validation_mode \<Rightarrow>
   index_error + consistency_verdict" where
  "validate std r cap e mode = (case map_of ROW_SEMANTICS cap of
     None \<Rightarrow> Inr \<lparr>cv_finding = None, cv_action = PROCEED\<rparr>
   | Some rule \<Rightarrow> rbind (exact_finding std rule r e) (\<lambda>exact. case exact of
       Some f \<Rightarrow> Inr \<lparr>cv_finding = Some f,
         cv_action = (if should_block EXACT_HIT mode then BLOCK else PROCEED)\<rparr>
     | None \<Rightarrow> (case heuristic_finding rule r e of
         Some f \<Rightarrow> Inr \<lparr>cv_finding = Some f,
           cv_action = (if should_block HEURISTIC_HIT mode then BLOCK else PROCEED)\<rparr>
       | None \<Rightarrow> Inr \<lparr>cv_finding = None, cv_action = PROCEED\<rparr>)))"

section \<open>Properties\<close>

text \<open>A value outside the expected range in a dimension the rule judges.\<close>

definition out_of_scope ::
  "stdlib \<Rightarrow> semantic_rule \<Rightarrow> capability_run_result \<Rightarrow> expected_range \<Rightarrow> bool" where
  "out_of_scope std rule r e \<longleftrightarrow> \<not> er_whole_tenant e \<and>
     ((sr_judge_uid_self rule \<and> (\<exists>x \<in> set (rr_observed_uid_values r). er_employee_id e \<noteq> Some x)) \<or>
      (sr_judge_dept rule \<and> (\<exists>x \<in> set (rr_observed_dept_values r). x \<notin> er_dept_ids e)) \<or>
      (\<exists>col i. sr_output_dept_column rule = Some col \<and> col \<noteq> [] \<and> column_index r col = Some i \<and>
        (\<exists>row \<in> set (rr_rows r). row ! i \<noteq> PNone \<and> py_str std (row ! i) \<notin> er_dept_ids e)))"

lemma index_of_bound: "index_of name xs = Some i \<Longrightarrow> i < length xs"
  by (induction xs arbitrary: i) (auto split: if_splits)

definition well_shaped :: "capability_run_result \<Rightarrow> bool" where
  "well_shaped r \<longleftrightarrow> (\<forall>row \<in> set (rr_rows r). length row = length (rr_column_names r))"

lemma rmap_all: "\<forall>x \<in> set xs. f x = Inr (g x) \<Longrightarrow> rmap f xs = Inr (map g xs)"
  by (induction xs) auto

lemma out_of_range_depts_ok:
  assumes "well_shaped r" and "column_index r col = Some i"
  shows "out_of_range_depts std e i (rr_rows r) = Inr (filter (\<lambda>s. \<not> allows_dept e (Some s))
    (map (py_str std) (filter (\<lambda>v. v \<noteq> PNone) (map (\<lambda>row. row ! i) (rr_rows r)))))"
proof -
  have "\<forall>row \<in> set (rr_rows r). i < length row"
    using assms index_of_bound by (auto simp: well_shaped_def column_index_def)
  then show ?thesis
    by (simp add: out_of_range_depts_def rmap_all [where g = "\<lambda>row. row ! i"])
qed

lemma column_offenders_ok:
  assumes "well_shaped r"
  shows "\<exists>vs. column_offenders std rule r e = Inr vs \<and> (vs = [] \<longleftrightarrow> \<not> (\<not> er_whole_tenant e \<and>
      (\<exists>col i. sr_output_dept_column rule = Some col \<and> col \<noteq> [] \<and> column_index r col = Some i \<and>
        (\<exists>row \<in> set (rr_rows r). row ! i \<noteq> PNone \<and> py_str std (row ! i) \<notin> er_dept_ids e))))"
proof (cases "sr_output_dept_column rule")
  case (Some col)
  show ?thesis
  proof (cases "col \<noteq> [] \<and> \<not> er_whole_tenant e")
    case True
    show ?thesis
    proof (cases "column_index r col")
      case (Some i)
      then show ?thesis
        using True \<open>sr_output_dept_column rule = Some col\<close> out_of_range_depts_ok [OF assms Some]
        by (auto simp: column_offenders_def allows_dept_def filter_empty_conv)
    qed (use True Some in \<open>simp add: column_offenders_def\<close>)
  qed (use Some in \<open>auto simp: column_offenders_def\<close>)
qed (simp add: column_offenders_def)

lemma offenders_ok:
  assumes "well_shaped r"
  shows "\<exists>vs dim. offenders std rule r e = Inr (vs, dim) \<and> (vs = [] \<longleftrightarrow> \<not> out_of_scope std rule r e) \<and>
    (vs \<noteq> [] \<longrightarrow> dim \<noteq> [])"
proof -
  have u: "uid_offenders rule r e = [] \<longleftrightarrow> \<not> (\<not> er_whole_tenant e \<and> sr_judge_uid_self rule \<and>
      (\<exists>x \<in> set (rr_observed_uid_values r). er_employee_id e \<noteq> Some x))"
    by (auto simp: uid_offenders_def allows_employee_def filter_empty_conv)
  have d: "dept_offenders rule r e = [] \<longleftrightarrow> \<not> (\<not> er_whole_tenant e \<and> sr_judge_dept rule \<and>
      (\<exists>x \<in> set (rr_observed_dept_values r). x \<notin> er_dept_ids e))"
    by (auto simp: dept_offenders_def allows_dept_def filter_empty_conv)
  obtain vs where vs: "column_offenders std rule r e = Inr vs" and c: "vs = [] \<longleftrightarrow> \<not> (\<not> er_whole_tenant e \<and>
      (\<exists>col i. sr_output_dept_column rule = Some col \<and> col \<noteq> [] \<and> column_index r col = Some i \<and>
        (\<exists>row \<in> set (rr_rows r). row ! i \<noteq> PNone \<and> py_str std (row ! i) \<notin> er_dept_ids e)))"
    using column_offenders_ok [OF assms] by blast
  have dims: "UID_DIMENSION \<noteq> []" "DEPT_DIMENSION \<noteq> []"
    by (simp_all add: UID_DIMENSION_def DEPT_DIMENSION_def)
  show ?thesis
    using u d c dims vs by (auto simp: offenders_def out_of_scope_def)
qed

text \<open>
  What the safety net reports, exactly.  For a well-shaped result of any capability the
  validator answers and never blocks; it reports an exact finding if and only if the reviewed rule
  judges a dimension in which a returned value lies outside the caller's range, and in that case
  carries at most five digests; otherwise it reports a heuristic finding if and only if a
  single-subject result has several rows, except for the owner's overviews; a caller with the whole
  tenant never gets an exact finding.
\<close>

theorem consistency_verdict_exact:
  assumes "well_shaped r" and "map_of ROW_SEMANTICS cap = Some rule"
  shows "\<exists>v. validate std r cap e mode = Inr v \<and> cv_action v = PROCEED \<and>
    (map_option vf_level (cv_finding v) = Some EXACT_HIT \<longleftrightarrow> out_of_scope std rule r e) \<and>
    (map_option vf_level (cv_finding v) = Some HEURISTIC_HIT \<longleftrightarrow> \<not> out_of_scope std rule r e \<and>
      sr_single_subject rule \<and> 1 < length (rr_rows r) \<and> \<not> (er_role e = OWNER \<and> sr_semantic rule = OWNER_OVERVIEW)) \<and>
    (\<forall>f. cv_finding v = Some f \<longrightarrow> length (vf_sample_digests f) \<le> 5) \<and>
    (er_whole_tenant e \<longrightarrow> map_option vf_level (cv_finding v) \<noteq> Some EXACT_HIT)"
proof -
  obtain vs dim where o: "offenders std rule r e = Inr (vs, dim)"
    and vs: "vs = [] \<longleftrightarrow> \<not> out_of_scope std rule r e" and dim: "vs \<noteq> [] \<longrightarrow> dim \<noteq> []"
    using offenders_ok [OF assms(1)] by blast
  have whole: "er_whole_tenant e \<Longrightarrow> \<not> out_of_scope std rule r e"
    by (simp add: out_of_scope_def)
  show ?thesis
  proof (cases "out_of_scope std rule r e")
    case True
    then obtain f where "exact_finding std rule r e = Inr (Some f)" "vf_level f = EXACT_HIT"
      "length (vf_sample_digests f) \<le> 5"
      using vs dim by (simp add: exact_finding_def o Let_def)
    then show ?thesis using True assms(2) whole by (auto simp: validate_def should_block_def)
  next
    case False
    then have "exact_finding std rule r e = Inr None"
      using vs by (simp add: exact_finding_def o)
    then show ?thesis
      using False assms(2) by (auto simp: validate_def should_block_def heuristic_finding_def)
  qed
qed

definition demo_range :: expected_range where
  "demo_range = \<lparr>er_role = EMPLOYEE, er_employee_id = Some (u ''e1''), er_dept_ids = {u ''d1''},
     er_whole_tenant = False\<rparr>"

definition demo_result :: capability_run_result where
  "demo_result = \<lparr>rr_column_names = [u ''amount''], rr_rows = [[PInt 3], [PInt 4]],
     rr_observed_uid_values = [u ''e1'', u ''e2''], rr_observed_dept_values = []\<rparr>"

theorem consistency_verdict_exact_witness:
  "\<exists>v. validate demo_std demo_result OWN_OUTPUT demo_range MODE_STRICT = Inr v \<and> cv_action v = PROCEED \<and>
     map_option vf_level (cv_finding v) = Some EXACT_HIT"
proof -
  let ?rule = "(plain_rule PERSONAL)\<lparr>sr_judge_uid_self := True\<rparr>"
  have ws: "well_shaped demo_result" by (simp add: well_shaped_def demo_result_def)
  have rule: "map_of ROW_SEMANTICS OWN_OUTPUT = Some ?rule" by (simp add: ROW_SEMANTICS_def)
  have "out_of_scope demo_std ?rule demo_result demo_range"
    by (simp add: out_of_scope_def demo_range_def demo_result_def plain_rule_def)
  then show ?thesis
    using consistency_verdict_exact [OF ws rule, of demo_std demo_range MODE_STRICT] by blast
qed

end
