(* ===== verification/Counting.thy ===== *)
theory Counting
  imports Paging
begin

text \<open>
  What the statistics surface uses of Python's collections: \<open>Counter\<close> with
  \<open>most_common\<close>, and offset pagination, where the cursor is the number of rows already
  scanned.

  A \<open>Counter\<close> is the dictionary of its counts in the order of first occurrence.
\<close>

section \<open>Counter\<close>

definition count_in :: "('a, nat) dict \<Rightarrow> 'a \<Rightarrow> nat" where
  "count_in d x = (case map_of d x of Some n \<Rightarrow> n | None \<Rightarrow> 0)"

definition counter_add :: "'a \<Rightarrow> ('a, nat) dict \<Rightarrow> ('a, nat) dict" where
  "counter_add x d = AList.update x (count_in d x + 1) d"

definition counter :: "'a list \<Rightarrow> ('a, nat) dict" where
  "counter xs = fold counter_add xs []"

definition most_common :: "('a, nat) dict \<Rightarrow> ('a, nat) dict" where
  "most_common d = sort_key (\<lambda>(x, n). - int n) d"

lemma count_in_add: "count_in (counter_add x d) y = count_in d y + of_bool (x = y)"
  by (simp add: counter_add_def count_in_def dict_simps)

lemma count_in_fold: "count_in (fold counter_add xs d) y = count_in d y + count_list xs y"
  by (induction xs arbitrary: d) (simp_all add: count_in_add)

lemma count_in_counter [simp]: "count_in (counter xs) x = count_list xs x"
  by (simp add: counter_def count_in_fold) (simp add: count_in_def)

lemma map_fst_update:
  "map fst (AList.update k v d) = (if k \<in> fst ` set d then map fst d else map fst d @ [k])"
  by (induction d) auto

lemma keys_counter_add: "map fst (counter_add x d) = (if x \<in> fst ` set d then map fst d else map fst d @ [x])"
  by (simp add: counter_add_def map_fst_update)

lemma dedup_acc_cong: "set seen1 = set seen2 \<Longrightarrow> dedup_acc seen1 zs = dedup_acc seen2 zs"
proof (induction zs arbitrary: seen1 seen2)
  case (Cons z zs)
  then have "dedup_acc (z # seen1) zs = dedup_acc (z # seen2) zs"
    by (intro Cons.IH) simp
  then show ?case using Cons.prems Cons.IH [OF Cons.prems] by simp
qed simp

lemma keys_counter_fold:
  "map fst (fold counter_add xs d) = map fst d @ dedup_acc (map fst d) xs"
proof (induction xs arbitrary: d)
  case (Cons x xs)
  show ?case
    using Cons.IH [of "counter_add x d"] dedup_acc_cong [of "x # map fst d" "map fst d @ [x]" xs]
    by (auto simp: keys_counter_add)
qed simp

lemma keys_counter [simp]: "map fst (counter xs) = from_keys xs"
  by (simp add: counter_def keys_counter_fold from_keys_def)

lemma counter_eq: "counter xs = map (\<lambda>x. (x, count_list xs x)) (from_keys xs)"
proof (rule nth_equalityI)
  have len: "length (counter xs) = length (from_keys xs)"
    using keys_counter [of xs] by (metis length_map)
  then show "length (counter xs) = length (map (\<lambda>x. (x, count_list xs x)) (from_keys xs))" by simp
  fix i assume i: "i < length (counter xs)"
  obtain x n where xn: "counter xs ! i = (x, n)" by fastforce
  have x: "from_keys xs ! i = x"
    using i xn by (metis fst_conv keys_counter nth_map)
  have "distinct (map fst (counter xs))" by simp
  then have "map_of (counter xs) x = Some n"
    using i xn by (metis map_of_is_SomeI nth_mem)
  then have "count_list xs x = n"
    using count_in_counter [of xs x] by (simp add: count_in_def)
  then show "counter xs ! i = map (\<lambda>x. (x, count_list xs x)) (from_keys xs) ! i"
    using i len x xn by simp
qed

lemma sum_counter: "sum_list (map snd (counter xs)) = length xs"
proof -
  have "sum_list (map snd (counter xs)) = (\<Sum>x \<in> set xs. count_list xs x)"
    by (simp add: counter_eq comp_def sum_list_distinct_conv_sum_set)
  then show ?thesis by (simp add: sum_count_set)
qed

lemma set_most_common [simp]: "set (most_common d) = set d"
  by (simp add: most_common_def)

lemma length_most_common [simp]: "length (most_common d) = length d"
  by (simp add: most_common_def)

lemma most_common_sorted: "sorted_wrt (\<lambda>p q. snd q \<le> snd p) (most_common d)"
proof -
  have "sorted (map (\<lambda>(x, n). - int n) (most_common d))"
    unfolding most_common_def by simp
  then have "sorted_wrt (\<lambda>p q. - int (snd p) \<le> - int (snd q)) (most_common d)"
    by (simp add: sorted_wrt_map case_prod_unfold)
  then show ?thesis by (rule sorted_wrt_mono_rel [rotated]) simp
qed

section \<open>Offset pagination\<close>

text \<open>The page \<open>rows[offset : offset + limit]\<close>, and the cursor of the next one when rows are
  left.\<close>

definition offset_page :: "nat \<Rightarrow> nat \<Rightarrow> 'r list \<Rightarrow> 'r list \<times> nat option" where
  "offset_page limit offset rows =
     (let page = take limit (drop offset rows) in
      (page, if offset + length page < length rows then Some (offset + length page) else None))"

text \<open>A client that follows the cursors sees every row once and in order, also when the rows of
  each page are filtered before they are shown.\<close>

lemma walk_offset_from:
  assumes limit: "0 < limit"
    and fetch: "\<And>k. k \<le> length rows \<Longrightarrow> fetch (Some k) =
      Inr (map_prod (filter P) id (offset_page limit k rows))"
  shows "k \<le> length rows \<Longrightarrow> length rows - k < n \<Longrightarrow>
    walk_pages n fetch (Some k) = Some (Inr (filter P (drop k rows)))"
proof (induction n arbitrary: k)
  case (Suc n)
  let ?page = "take limit (drop k rows)"
  show ?case
  proof (cases "k + length ?page < length rows")
    case False
    then have "length (drop k rows) \<le> limit" by auto
    then show ?thesis using False Suc.prems by (simp add: fetch offset_page_def Let_def)
  next
    case True
    then have len: "length ?page = limit" by auto
    then have "walk_pages n fetch (Some (k + limit)) = Some (Inr (filter P (drop (k + limit) rows)))"
      using True Suc.prems limit by (intro Suc.IH) auto
    moreover have "filter P ?page @ filter P (drop (k + limit) rows) = filter P (drop k rows)"
      by (metis add.commute append_take_drop_id drop_drop filter_append)
    ultimately show ?thesis
      using True len Suc.prems by (simp add: fetch offset_page_def Let_def)
  qed
qed simp

lemma walk_offset_complete:
  assumes "0 < limit"
    and "\<And>k. k \<le> length rows \<Longrightarrow> fetch (Some k) = Inr (map_prod (filter P) id (offset_page limit k rows))"
  shows "walk_pages (Suc (length rows)) fetch (Some 0) = Some (Inr (filter P rows))"
  using walk_offset_from [OF assms, of 0 "Suc (length rows)"] by simp

lemma walk_offset_all:
  assumes "0 < limit" and "\<And>k. fetch (Some k) = Inr (offset_page limit k rows)"
  shows "walk_pages (Suc (length rows)) fetch (Some 0) = Some (Inr rows)"
  using walk_offset_complete [OF assms(1), of rows fetch "\<lambda>_. True"] assms(2)
  by (simp add: map_prod_def case_prod_unfold)

end
