(* ===== verification/StatStore.thy ===== *)
theory StatStore
  imports Counting Strings Usage Rollup "HOL-Library.Sublist"
begin

text \<open>
  The persistence boundary of the statistics surface: \<^verbatim>\<open>statistics/store.py\<close>,
  \<^verbatim>\<open>statistics/platform.py\<close> and \<^verbatim>\<open>statistics/masking.py\<close>.

  The protocol \<open>UsageStore\<close> is the record \<open>usage_ops\<close> of its operations on a store of
  type \<open>'s\<close>; the services take such a record, as the Python services take an object.  It has
  the two implementations of the code: \<open>memory_ops\<close> on dictionaries and lists, and
  \<open>postgres_ops\<close> on tables with their unique constraints.  A write that violates a constraint
  the code does not catch is the left value \<open>UniqueViolation\<close>; other failures of the database (a lost
  connection, a timeout) leave the tables as they are and end the request, and are not modelled.  The two tables another
  migration creates may be missing (\<open>None\<close>).

  \<open>db_of\<close> turns the contents of the dictionaries into tables, and the lemmas
  \<open>postgres_simulates_memory\<close> compare the implementations through it.  The locale
  \<open>tenant_store\<close> is what the services rely on; it is interpreted on both.
\<close>

section \<open>platform.py and masking.py\<close>

datatype platform_role = VIEWER | ANALYST | ADMIN

definition platform_role_parse :: "pystr option \<Rightarrow> platform_role option" where
  "platform_role_parse raw = (case raw of None \<Rightarrow> None | Some s \<Rightarrow>
     if s = u ''viewer'' then Some VIEWER else if s = u ''analyst'' then Some ANALYST
     else if s = u ''admin'' then Some ADMIN else None)"

fun platform_role_value :: "platform_role \<Rightarrow> pystr" where
  "platform_role_value VIEWER = u ''viewer''"
| "platform_role_value ANALYST = u ''analyst''"
| "platform_role_value ADMIN = u ''admin''"

datatype platform_scope_error = PlatformScopeError pystr

record platform_scope =
  ps_principal_id :: pystr
  ps_role :: platform_role
  ps_tenant_ids :: "pystr set"

definition allows_export :: "platform_scope \<Rightarrow> bool" where
  "allows_export s \<longleftrightarrow> ps_role s = ANALYST \<or> ps_role s = ADMIN"

definition allows_manage_tenants :: "platform_scope \<Rightarrow> bool" where
  "allows_manage_tenants s \<longleftrightarrow> ps_role s = ADMIN"

definition covers_tenant :: "platform_scope \<Rightarrow> pystr \<Rightarrow> bool" where
  "covers_tenant s t \<longleftrightarrow> ps_tenant_ids s = {} \<or> t \<in> ps_tenant_ids s"

definition effective_tenants :: "platform_scope \<Rightarrow> pystr set option \<Rightarrow> pystr set" where
  "effective_tenants s requested =
     (if ps_tenant_ids s = {} then (case requested of None \<Rightarrow> {} | Some r \<Rightarrow> r)
      else case requested of None \<Rightarrow> ps_tenant_ids s | Some r \<Rightarrow> ps_tenant_ids s \<inter> r)"

definition require_covers :: "platform_scope \<Rightarrow> pystr set option \<Rightarrow> platform_scope_error + pystr set" where
  "require_covers s requested = (let covered = effective_tenants s requested in
     if requested \<noteq> None \<and> Some covered \<noteq> requested
     then Inl (PlatformScopeError (u ''requested tenant set exceeds the platform scope''))
     else Inr covered)"

definition mask_app_key :: "pystr option \<Rightarrow> pystr option" where
  "mask_app_key k = (case k of None \<Rightarrow> None | Some s \<Rightarrow> Some
     (if s = [] then [] else if length s \<le> 6 then u ''***'' else take 6 s @ u ''***''))"

section \<open>store.py: records\<close>

record audit_entry =
  ae_audit_id :: pystr
  ae_principal_id :: pystr
  ae_action :: pystr
  ae_target :: "pystr option"
  ae_detail :: payload
  ae_created_at :: instant

record export_record =
  xr_export_id :: pystr
  xr_principal_id :: pystr
  xr_format :: pystr
  xr_tenant_filter :: payload
  xr_metric_version :: pystr
  xr_status :: pystr
  xr_artifact_key :: "pystr option"
  xr_created_at :: instant
  xr_expires_at :: instant

record tenant_record =
  tr_app_key :: pystr
  tr_tenant_ref :: pystr
  tr_tenant_name :: pystr
  tr_status :: pystr
  tr_created_at :: instant
  tr_updated_at :: instant

record principal_record =
  pp_principal_id :: pystr
  pp_username :: pystr
  pp_password_hash :: pystr
  pp_role :: pystr
  pp_tenant_scope :: "pystr list"
  pp_status :: pystr
  pp_created_at :: instant
  pp_updated_at :: instant

record mes_operation_category =
  oc_operation_id :: pystr
  oc_category :: pystr
  oc_version :: "pystr option"

datatype store_error = UniqueViolation

type_synonym percentiles = "(pystr, (pystr, real option) dict) dict"

record 's usage_ops =
  list_interaction_facts :: "pystr set \<Rightarrow> instant \<Rightarrow> instant \<Rightarrow> 's \<Rightarrow> interaction_fact list"
  list_llm_call_facts :: "pystr set \<Rightarrow> instant \<Rightarrow> instant \<Rightarrow> 's \<Rightarrow> llm_call_fact list"
  list_rollup_rows :: "pystr set \<Rightarrow> instant \<Rightarrow> instant \<Rightarrow> granularity \<Rightarrow> 's \<Rightarrow> rollup_row list"
  list_tenants :: "instant \<Rightarrow> instant \<Rightarrow> 's \<Rightarrow> pystr list"
  query_duration_percentiles :: "pystr set \<Rightarrow> instant \<Rightarrow> instant \<Rightarrow> 's \<Rightarrow> index_error + percentiles"
  query_user_activity ::
    "pystr set \<Rightarrow> instant \<Rightarrow> instant \<Rightarrow> nat \<Rightarrow> nat \<Rightarrow> 's \<Rightarrow> (pystr \<times> nat) list \<times> nat"
  query_freshness :: "pystr set \<Rightarrow> instant \<Rightarrow> instant \<Rightarrow> 's \<Rightarrow> instant option"
  query_distinct_counts :: "pystr set \<Rightarrow> instant \<Rightarrow> instant \<Rightarrow> 's \<Rightarrow> (pystr, nat) dict"
  record_audit :: "audit_entry \<Rightarrow> 's \<Rightarrow> store_error + 's"
  purge_audit_before :: "instant \<Rightarrow> 's \<Rightarrow> nat \<times> 's"
  create_export :: "export_record \<Rightarrow> 's \<Rightarrow> store_error + 's"
  get_export :: "pystr \<Rightarrow> 's \<Rightarrow> export_record option"
  mark_export_ready :: "pystr \<Rightarrow> pystr \<Rightarrow> 's \<Rightarrow> 's"
  list_exports :: "pystr \<Rightarrow> nat \<Rightarrow> 's \<Rightarrow> export_record list"
  list_tenant_registry :: "nat \<Rightarrow> nat \<Rightarrow> 's \<Rightarrow> tenant_record list \<times> nat"
  list_all_tenant_registry :: "'s \<Rightarrow> tenant_record list"
  get_tenant_registry :: "pystr \<Rightarrow> 's \<Rightarrow> tenant_record option"
  get_tenant_registry_by_ref :: "pystr \<Rightarrow> 's \<Rightarrow> tenant_record option"
  register_seen_tenant :: "pystr \<Rightarrow> pystr \<Rightarrow> pystr \<Rightarrow> instant \<Rightarrow> 's \<Rightarrow> store_error + bool \<times> 's"
  create_tenant_registry :: "tenant_record \<Rightarrow> 's \<Rightarrow> store_error + bool \<times> 's"
  update_tenant_registry ::
    "pystr \<Rightarrow> pystr option \<Rightarrow> pystr option \<Rightarrow> instant \<Rightarrow> 's \<Rightarrow> tenant_record option \<times> 's"
  search_tenant_registry_names :: "pystr \<Rightarrow> 's \<Rightarrow> pystr list"
  create_principal :: "principal_record \<Rightarrow> 's \<Rightarrow> store_error + bool \<times> 's"
  get_principal :: "pystr \<Rightarrow> 's \<Rightarrow> principal_record option"
  get_principal_by_username :: "pystr \<Rightarrow> 's \<Rightarrow> principal_record option"
  list_mes_call_facts :: "pystr set \<Rightarrow> instant \<Rightarrow> instant \<Rightarrow> 's \<Rightarrow> mes_call_fact list"
  list_mes_operation_categories :: "'s \<Rightarrow> mes_operation_category list"

section \<open>store.py: percentiles\<close>

text \<open>The interpolated percentile of a sorted list; floats are read as real numbers.\<close>

definition percentile :: "real list \<Rightarrow> real \<Rightarrow> index_error + real option" where
  "percentile vs p =
     (if vs = [] then Inr None
      else if length vs = 1 then Inr (Some (vs ! 0))
      else let rank = p / 100 * real (length vs - 1); lower = nat \<lfloor>rank\<rfloor>; upper = lower + 1;
               fraction = rank - real lower in
        if upper < length vs then Inr (Some (vs ! lower * (1 - fraction) + vs ! upper * fraction))
        else Inl IndexError)"

text \<open>\<^verbatim>\<open>percentile_cont(p)\<close>: the values around the rank, interpolated.\<close>

definition percentile_cont :: "real list \<Rightarrow> real \<Rightarrow> real option" where
  "percentile_cont vs p =
     (if vs = [] then None
      else let rank = p * real (length vs - 1); lower = nat \<lfloor>rank\<rfloor>; upper = nat \<lceil>rank\<rceil> in
        if lower = upper then Some (vs ! lower)
        else Some (vs ! lower * (real upper - rank) + vs ! upper * (rank - real lower)))"

definition DURATION_COLUMN :: "(pystr, interaction_fact \<Rightarrow> int option) dict" where
  "DURATION_COLUMN = [(u ''e2e_duration_ms'', fi_duration_ms), (u ''mes_duration_ms'', fi_mes_duration_ms),
     (u ''llm_duration_ms'', fi_llm_duration_ms), (u ''local_duration_ms'', fi_local_duration_ms)]"

definition duration_values :: "(interaction_fact \<Rightarrow> int option) \<Rightarrow> interaction_fact list \<Rightarrow> real list" where
  "duration_values col facts = concat (map (\<lambda>f. case col f of Some v \<Rightarrow> [real_of_int v] | None \<Rightarrow> []) facts)"

section \<open>store.py: InMemoryUsageStore\<close>

record memory_store =
  ms_interaction_facts :: "interaction_fact list"
  ms_llm_call_facts :: "llm_call_fact list"
  ms_mes_call_facts :: "mes_call_fact list"
  ms_mes_operation_categories :: "mes_operation_category list"
  ms_rollup_rows :: "rollup_row list"
  ms_audits :: "audit_entry list"
  ms_exports :: "(pystr, export_record) dict"
  ms_tenant_registry :: "(pystr, tenant_record) dict"
  ms_principals :: "(pystr, principal_record) dict"

definition mem_list_interaction_facts ::
  "pystr set \<Rightarrow> instant \<Rightarrow> instant \<Rightarrow> memory_store \<Rightarrow> interaction_fact list" where
  "mem_list_interaction_facts tenants start end' s =
     filter (\<lambda>f. fi_tenant_id f \<in> tenants \<and> in_window start end' (fi_occurred_at f)) (ms_interaction_facts s)"

definition mem_list_llm_call_facts ::
  "pystr set \<Rightarrow> instant \<Rightarrow> instant \<Rightarrow> memory_store \<Rightarrow> llm_call_fact list" where
  "mem_list_llm_call_facts tenants start end' s =
     filter (\<lambda>f. fl_tenant_id f \<in> tenants \<and> in_window start end' (fl_occurred_at f)) (ms_llm_call_facts s)"

definition mem_list_rollup_rows ::
  "pystr set \<Rightarrow> instant \<Rightarrow> instant \<Rightarrow> granularity \<Rightarrow> memory_store \<Rightarrow> rollup_row list" where
  "mem_list_rollup_rows tenants start end' g s =
     filter (\<lambda>r. rw_tenant_id r \<in> tenants \<and> in_window start end' (rw_bucket_start r) \<and> rw_granularity r = g)
       (ms_rollup_rows s)"

definition mem_list_tenants :: "instant \<Rightarrow> instant \<Rightarrow> memory_store \<Rightarrow> pystr list" where
  "mem_list_tenants start end' s = sorted_list_of_set (set
     (map fi_tenant_id (filter (\<lambda>f. in_window start end' (fi_occurred_at f)) (ms_interaction_facts s)) @
      map fl_tenant_id (filter (\<lambda>f. in_window start end' (fl_occurred_at f)) (ms_llm_call_facts s)) @
      map fm_tenant_id (filter (\<lambda>f. in_window start end' (fm_occurred_at f)) (ms_mes_call_facts s))))"

definition mem_query_duration_percentiles ::
  "pystr set \<Rightarrow> instant \<Rightarrow> instant \<Rightarrow> memory_store \<Rightarrow> index_error + percentiles" where
  "mem_query_duration_percentiles tenants start end' s =
     rmap (\<lambda>(metric, col). let vals = sort (duration_values col (mem_list_interaction_facts tenants start end' s)) in
       rbind (rmap (\<lambda>p. rbind (percentile vals (real p)) (\<lambda>v. Inr (decimal p, v))) [50, 95, 99])
         (\<lambda>d. Inr (metric, d))) DURATION_COLUMN"

definition mem_query_user_activity ::
  "pystr set \<Rightarrow> instant \<Rightarrow> instant \<Rightarrow> nat \<Rightarrow> nat \<Rightarrow> memory_store \<Rightarrow> (pystr \<times> nat) list \<times> nat" where
  "mem_query_user_activity tenants start end' limit offset s =
     (let counts = counter (map fi_user_subject_id (filter (\<lambda>f. fi_event_type f = u ''interaction_started'')
            (mem_list_interaction_facts tenants start end' s)));
          ordered = sort_key (\<lambda>(subject, n). (- int n, subject)) counts
      in (take limit (drop offset ordered), length ordered))"

text \<open>The loop of \<open>query_freshness\<close> over the \<open>received_at\<close> of the rows of the tenants.\<close>

definition latest_step :: "instant \<Rightarrow> instant \<Rightarrow> instant \<Rightarrow> instant option \<Rightarrow> instant option" where
  "latest_step start end' received latest =
     (if in_window start end' received \<and> (case latest of None \<Rightarrow> True | Some l \<Rightarrow> l < received)
      then Some received else latest)"

definition mem_query_freshness ::
  "pystr set \<Rightarrow> instant \<Rightarrow> instant \<Rightarrow> memory_store \<Rightarrow> instant option" where
  "mem_query_freshness tenants start end' s = fold (latest_step start end')
     (map fi_received_at (filter (\<lambda>f. fi_tenant_id f \<in> tenants) (ms_interaction_facts s)) @
      map fl_received_at (filter (\<lambda>f. fl_tenant_id f \<in> tenants) (ms_llm_call_facts s))) None"

definition mem_query_distinct_counts ::
  "pystr set \<Rightarrow> instant \<Rightarrow> instant \<Rightarrow> memory_store \<Rightarrow> (pystr, nat) dict" where
  "mem_query_distinct_counts tenants start end' s =
     [(u ''users'', card (set (map fi_user_subject_id (mem_list_interaction_facts tenants start end' s)))),
      (u ''llm_logical_calls'', card (set (map fl_logical_call_id (mem_list_llm_call_facts tenants start end' s))))]"

definition mem_record_audit :: "audit_entry \<Rightarrow> memory_store \<Rightarrow> store_error + memory_store" where
  "mem_record_audit e s = Inr (s\<lparr>ms_audits := ms_audits s @ [e]\<rparr>)"

definition mem_purge_audit_before :: "instant \<Rightarrow> memory_store \<Rightarrow> nat \<times> memory_store" where
  "mem_purge_audit_before cutoff s =
     (let kept = filter (\<lambda>e. ae_created_at e \<ge> cutoff) (ms_audits s)
      in (length (ms_audits s) - length kept, s\<lparr>ms_audits := kept\<rparr>))"

definition mem_create_export :: "export_record \<Rightarrow> memory_store \<Rightarrow> store_error + memory_store" where
  "mem_create_export x s = Inr (s\<lparr>ms_exports := AList.update (xr_export_id x) x (ms_exports s)\<rparr>)"

definition mem_get_export :: "pystr \<Rightarrow> memory_store \<Rightarrow> export_record option" where
  "mem_get_export i s = map_of (ms_exports s) i"

definition mem_mark_export_ready :: "pystr \<Rightarrow> pystr \<Rightarrow> memory_store \<Rightarrow> memory_store" where
  "mem_mark_export_ready i artifact s = (case map_of (ms_exports s) i of
     None \<Rightarrow> s
   | Some x \<Rightarrow> s\<lparr>ms_exports := AList.update i
       (x\<lparr>xr_status := u ''ready'', xr_artifact_key := Some artifact\<rparr>) (ms_exports s)\<rparr>)"

definition mem_list_exports :: "pystr \<Rightarrow> nat \<Rightarrow> memory_store \<Rightarrow> export_record list" where
  "mem_list_exports owner limit s =
     take limit (filter (\<lambda>x. xr_principal_id x = owner) (map snd (ms_exports s)))"

definition mem_list_mes_call_facts ::
  "pystr set \<Rightarrow> instant \<Rightarrow> instant \<Rightarrow> memory_store \<Rightarrow> mes_call_fact list" where
  "mem_list_mes_call_facts tenants start end' s =
     filter (\<lambda>f. fm_tenant_id f \<in> tenants \<and> in_window start end' (fm_occurred_at f)) (ms_mes_call_facts s)"

definition mem_list_mes_operation_categories :: "memory_store \<Rightarrow> mes_operation_category list" where
  "mem_list_mes_operation_categories s = ms_mes_operation_categories s"

definition mem_list_tenant_registry :: "nat \<Rightarrow> nat \<Rightarrow> memory_store \<Rightarrow> tenant_record list \<times> nat" where
  "mem_list_tenant_registry limit offset s =
     (let ordered = sort_key tr_created_at (map snd (ms_tenant_registry s))
      in (take limit (drop offset ordered), length ordered))"

definition mem_list_all_tenant_registry :: "memory_store \<Rightarrow> tenant_record list" where
  "mem_list_all_tenant_registry s = map snd (ms_tenant_registry s)"

definition mem_get_tenant_registry :: "pystr \<Rightarrow> memory_store \<Rightarrow> tenant_record option" where
  "mem_get_tenant_registry k s = map_of (ms_tenant_registry s) k"

definition mem_get_tenant_registry_by_ref :: "pystr \<Rightarrow> memory_store \<Rightarrow> tenant_record option" where
  "mem_get_tenant_registry_by_ref ref s = find (\<lambda>r. tr_tenant_ref r = ref) (map snd (ms_tenant_registry s))"

definition mem_register_seen_tenant ::
  "pystr \<Rightarrow> pystr \<Rightarrow> pystr \<Rightarrow> instant \<Rightarrow> memory_store \<Rightarrow> store_error + bool \<times> memory_store" where
  "mem_register_seen_tenant k ref name at' s =
     (if k \<in> fst ` set (ms_tenant_registry s) then Inr (False, s)
      else Inr (True, s\<lparr>ms_tenant_registry := AList.update k
        \<lparr>tr_app_key = k, tr_tenant_ref = ref, tr_tenant_name = name, tr_status = u ''active'',
         tr_created_at = at', tr_updated_at = at'\<rparr> (ms_tenant_registry s)\<rparr>))"

definition mem_create_tenant_registry ::
  "tenant_record \<Rightarrow> memory_store \<Rightarrow> store_error + bool \<times> memory_store" where
  "mem_create_tenant_registry r s =
     (if tr_app_key r \<in> fst ` set (ms_tenant_registry s) then Inr (False, s)
      else Inr (True, s\<lparr>ms_tenant_registry := AList.update (tr_app_key r) r (ms_tenant_registry s)\<rparr>))"

definition updated_tenant ::
  "pystr option \<Rightarrow> pystr option \<Rightarrow> instant \<Rightarrow> tenant_record \<Rightarrow> tenant_record" where
  "updated_tenant name status at' r = r\<lparr>
     tr_tenant_name := (case name of Some n \<Rightarrow> n | None \<Rightarrow> tr_tenant_name r),
     tr_status := (case status of Some x \<Rightarrow> x | None \<Rightarrow> tr_status r), tr_updated_at := at'\<rparr>"

definition mem_update_tenant_registry ::
  "pystr \<Rightarrow> pystr option \<Rightarrow> pystr option \<Rightarrow> instant \<Rightarrow> memory_store \<Rightarrow> tenant_record option \<times> memory_store" where
  "mem_update_tenant_registry k name status at' s = (case map_of (ms_tenant_registry s) k of
     None \<Rightarrow> (None, s)
   | Some r \<Rightarrow> (let r' = updated_tenant name status at' r in
       (Some r', s\<lparr>ms_tenant_registry := AList.update k r' (ms_tenant_registry s)\<rparr>)))"

text \<open>\<open>needle in text\<close> after \<open>lower()\<close>; lower-casing is a parameter.\<close>

definition mem_search_tenant_registry_names ::
  "(pystr \<Rightarrow> pystr) \<Rightarrow> pystr \<Rightarrow> memory_store \<Rightarrow> pystr list" where
  "mem_search_tenant_registry_names lower fragment s =
     sort (map tr_app_key (filter (\<lambda>r. py_in (lower fragment) (lower (tr_tenant_name r)))
       (map snd (ms_tenant_registry s))))"

definition mem_create_principal ::
  "principal_record \<Rightarrow> memory_store \<Rightarrow> store_error + bool \<times> memory_store" where
  "mem_create_principal p s =
     (if \<exists>q \<in> snd ` set (ms_principals s). pp_username q = pp_username p then Inr (False, s)
      else Inr (True, s\<lparr>ms_principals := AList.update (pp_principal_id p) p (ms_principals s)\<rparr>))"

definition mem_get_principal :: "pystr \<Rightarrow> memory_store \<Rightarrow> principal_record option" where
  "mem_get_principal i s = map_of (ms_principals s) i"

definition mem_get_principal_by_username :: "pystr \<Rightarrow> memory_store \<Rightarrow> principal_record option" where
  "mem_get_principal_by_username name s = find (\<lambda>p. pp_username p = name) (map snd (ms_principals s))"

definition memory_ops :: "(pystr \<Rightarrow> pystr) \<Rightarrow> memory_store usage_ops" where
  "memory_ops lower = \<lparr>list_interaction_facts = mem_list_interaction_facts,
     list_llm_call_facts = mem_list_llm_call_facts, list_rollup_rows = mem_list_rollup_rows,
     list_tenants = mem_list_tenants, query_duration_percentiles = mem_query_duration_percentiles,
     query_user_activity = mem_query_user_activity, query_freshness = mem_query_freshness,
     query_distinct_counts = mem_query_distinct_counts, record_audit = mem_record_audit,
     purge_audit_before = mem_purge_audit_before, create_export = mem_create_export,
     get_export = mem_get_export, mark_export_ready = mem_mark_export_ready, list_exports = mem_list_exports,
     list_tenant_registry = mem_list_tenant_registry, list_all_tenant_registry = mem_list_all_tenant_registry,
     get_tenant_registry = mem_get_tenant_registry,
     get_tenant_registry_by_ref = mem_get_tenant_registry_by_ref,
     register_seen_tenant = mem_register_seen_tenant, create_tenant_registry = mem_create_tenant_registry,
     update_tenant_registry = mem_update_tenant_registry,
     search_tenant_registry_names = mem_search_tenant_registry_names lower,
     create_principal = mem_create_principal, get_principal = mem_get_principal,
     get_principal_by_username = mem_get_principal_by_username,
     list_mes_call_facts = mem_list_mes_call_facts,
     list_mes_operation_categories = mem_list_mes_operation_categories\<rparr>"

section \<open>store.py: PostgresUsageStore\<close>

record usage_db =
  ud_interaction_fact :: "interaction_fact list"
  ud_llm_call_fact :: "llm_call_fact list"
  ud_mes_call_fact :: "mes_call_fact list option"
  ud_mes_operation_category :: "mes_operation_category list option"
  ud_usage_hourly :: "rollup_row list"
  ud_usage_daily :: "rollup_row list"
  ud_admin_audit :: "audit_entry list"
  ud_usage_export :: "export_record list"
  ud_tenant_registry :: "tenant_record list"
  ud_platform_principal :: "principal_record list"

text \<open>A plain \<^verbatim>\<open>INSERT\<close> under the primary key and one more unique constraint.\<close>

definition insert_unique :: "('r \<Rightarrow> 'k) \<Rightarrow> ('r \<Rightarrow> 'j) \<Rightarrow> 'r \<Rightarrow> 'r list \<Rightarrow> store_error + 'r list" where
  "insert_unique key key' r rows =
     (if key r \<in> key ` set rows \<or> key' r \<in> key' ` set rows then Inl UniqueViolation else Inr (rows @ [r]))"

definition pg_list_interaction_facts ::
  "pystr set \<Rightarrow> instant \<Rightarrow> instant \<Rightarrow> usage_db \<Rightarrow> interaction_fact list" where
  "pg_list_interaction_facts tenants start end' d = (if tenants = {} then [] else
     filter (\<lambda>f. fi_tenant_id f \<in> tenants \<and> in_window start end' (fi_occurred_at f)) (ud_interaction_fact d))"

definition pg_list_llm_call_facts ::
  "pystr set \<Rightarrow> instant \<Rightarrow> instant \<Rightarrow> usage_db \<Rightarrow> llm_call_fact list" where
  "pg_list_llm_call_facts tenants start end' d = (if tenants = {} then [] else
     filter (\<lambda>f. fl_tenant_id f \<in> tenants \<and> in_window start end' (fl_occurred_at f)) (ud_llm_call_fact d))"

text \<open>The daily table is filtered by date: \<open>start.date()\<close> and \<open>end.date()\<close> are the UTC
  dates of the bounds, a date being its midnight.\<close>

definition pg_list_rollup_rows ::
  "pystr set \<Rightarrow> instant \<Rightarrow> instant \<Rightarrow> granularity \<Rightarrow> usage_db \<Rightarrow> rollup_row list" where
  "pg_list_rollup_rows tenants start end' g d = (if tenants = {} then [] else
     case g of
       HOUR \<Rightarrow> filter (\<lambda>r. rw_tenant_id r \<in> tenants \<and> in_window start end' (rw_bucket_start r)) (ud_usage_hourly d)
     | DAY \<Rightarrow> filter (\<lambda>r. rw_tenant_id r \<in> tenants \<and>
         in_window (midnight start) (midnight end') (rw_bucket_start r)) (ud_usage_daily d))"

definition pg_list_tenants :: "instant \<Rightarrow> instant \<Rightarrow> usage_db \<Rightarrow> pystr list" where
  "pg_list_tenants start end' d = (case ud_mes_call_fact d of
     None \<Rightarrow> []
   | Some calls \<Rightarrow> sort (remdups
      (map fi_tenant_id (filter (\<lambda>f. in_window start end' (fi_occurred_at f)) (ud_interaction_fact d)) @
       map fl_tenant_id (filter (\<lambda>f. in_window start end' (fl_occurred_at f)) (ud_llm_call_fact d)) @
       map fm_tenant_id (filter (\<lambda>f. in_window start end' (fm_occurred_at f)) calls))))"

definition pg_query_duration_percentiles ::
  "pystr set \<Rightarrow> instant \<Rightarrow> instant \<Rightarrow> usage_db \<Rightarrow> index_error + percentiles" where
  "pg_query_duration_percentiles tenants start end' d = Inr (if tenants = {} then [] else
     map (\<lambda>(metric, col). let vals = sort (duration_values col (pg_list_interaction_facts tenants start end' d)) in
       (metric, [(u ''50'', percentile_cont vals (1 / 2)), (u ''95'', percentile_cont vals (19 / 20)),
         (u ''99'', percentile_cont vals (99 / 100))])) DURATION_COLUMN)"

definition pg_query_user_activity ::
  "pystr set \<Rightarrow> instant \<Rightarrow> instant \<Rightarrow> nat \<Rightarrow> nat \<Rightarrow> usage_db \<Rightarrow> (pystr \<times> nat) list \<times> nat" where
  "pg_query_user_activity tenants start end' limit offset d = (if tenants = {} then ([], 0) else
     let subjects = map fi_user_subject_id (filter (\<lambda>f. fi_event_type f = u ''interaction_started'')
           (pg_list_interaction_facts tenants start end' d));
         grouped = map (\<lambda>x. (x, length (filter ((=) x) subjects))) (from_keys subjects)
     in (take limit (drop offset (sort_key (\<lambda>(x, n). (- int n, x)) grouped)), card (set subjects)))"

definition sql_max :: "instant list \<Rightarrow> instant option" where
  "sql_max xs = (if xs = [] then None else Some (Max (set xs)))"

definition pg_query_freshness ::
  "pystr set \<Rightarrow> instant \<Rightarrow> instant \<Rightarrow> usage_db \<Rightarrow> instant option" where
  "pg_query_freshness tenants start end' d = (if tenants = {} then None else sql_max
     (map fi_received_at (filter (\<lambda>f. fi_tenant_id f \<in> tenants \<and> in_window start end' (fi_received_at f))
        (ud_interaction_fact d)) @
      map fl_received_at (filter (\<lambda>f. fl_tenant_id f \<in> tenants \<and> in_window start end' (fl_received_at f))
        (ud_llm_call_fact d))))"

definition pg_query_distinct_counts ::
  "pystr set \<Rightarrow> instant \<Rightarrow> instant \<Rightarrow> usage_db \<Rightarrow> (pystr, nat) dict" where
  "pg_query_distinct_counts tenants start end' d = (if tenants = {}
     then [(u ''users'', 0), (u ''llm_logical_calls'', 0)]
     else [(u ''users'', card (set (map fi_user_subject_id (pg_list_interaction_facts tenants start end' d)))),
      (u ''llm_logical_calls'', card (set (map fl_logical_call_id (pg_list_llm_call_facts tenants start end' d))))])"

definition pg_record_audit :: "audit_entry \<Rightarrow> usage_db \<Rightarrow> store_error + usage_db" where
  "pg_record_audit e d = rbind (insert_unique ae_audit_id ae_audit_id e (ud_admin_audit d))
     (\<lambda>rows. Inr (d\<lparr>ud_admin_audit := rows\<rparr>))"

definition pg_purge_audit_before :: "instant \<Rightarrow> usage_db \<Rightarrow> nat \<times> usage_db" where
  "pg_purge_audit_before cutoff d =
     (length (filter (\<lambda>e. ae_created_at e < cutoff) (ud_admin_audit d)),
      d\<lparr>ud_admin_audit := filter (\<lambda>e. \<not> ae_created_at e < cutoff) (ud_admin_audit d)\<rparr>)"

definition pg_create_export :: "export_record \<Rightarrow> usage_db \<Rightarrow> store_error + usage_db" where
  "pg_create_export x d = rbind (insert_unique xr_export_id xr_export_id x (ud_usage_export d))
     (\<lambda>rows. Inr (d\<lparr>ud_usage_export := rows\<rparr>))"

definition pg_get_export :: "pystr \<Rightarrow> usage_db \<Rightarrow> export_record option" where
  "pg_get_export i d = find_row xr_export_id i (ud_usage_export d)"

definition pg_mark_export_ready :: "pystr \<Rightarrow> pystr \<Rightarrow> usage_db \<Rightarrow> usage_db" where
  "pg_mark_export_ready i artifact d = d\<lparr>ud_usage_export := fst (update_where (\<lambda>x. xr_export_id x = i)
     (\<lambda>x. x\<lparr>xr_status := u ''ready'', xr_artifact_key := Some artifact\<rparr>) (ud_usage_export d))\<rparr>"

definition pg_list_exports :: "pystr \<Rightarrow> nat \<Rightarrow> usage_db \<Rightarrow> export_record list" where
  "pg_list_exports owner limit d = take limit (sort_key (\<lambda>x. - xr_created_at x)
     (filter (\<lambda>x. xr_principal_id x = owner) (ud_usage_export d)))"

definition pg_list_mes_call_facts ::
  "pystr set \<Rightarrow> instant \<Rightarrow> instant \<Rightarrow> usage_db \<Rightarrow> mes_call_fact list" where
  "pg_list_mes_call_facts tenants start end' d = (if tenants = {} then [] else case ud_mes_call_fact d of
     None \<Rightarrow> []
   | Some calls \<Rightarrow> filter (\<lambda>f. fm_tenant_id f \<in> tenants \<and> in_window start end' (fm_occurred_at f)) calls)"

definition pg_list_mes_operation_categories :: "usage_db \<Rightarrow> mes_operation_category list" where
  "pg_list_mes_operation_categories d = (case ud_mes_operation_category d of
     None \<Rightarrow> [] | Some rows \<Rightarrow> sort_key oc_operation_id rows)"

definition pg_list_tenant_registry :: "nat \<Rightarrow> nat \<Rightarrow> usage_db \<Rightarrow> tenant_record list \<times> nat" where
  "pg_list_tenant_registry limit offset d =
     (take limit (drop offset (sort_key tr_created_at (ud_tenant_registry d))), length (ud_tenant_registry d))"

definition pg_list_all_tenant_registry :: "usage_db \<Rightarrow> tenant_record list" where
  "pg_list_all_tenant_registry d = sort_key tr_app_key (ud_tenant_registry d)"

definition pg_get_tenant_registry :: "pystr \<Rightarrow> usage_db \<Rightarrow> tenant_record option" where
  "pg_get_tenant_registry k d = find_row tr_app_key k (ud_tenant_registry d)"

definition pg_get_tenant_registry_by_ref :: "pystr \<Rightarrow> usage_db \<Rightarrow> tenant_record option" where
  "pg_get_tenant_registry_by_ref ref d = find_row tr_tenant_ref ref (ud_tenant_registry d)"

text \<open>\<^verbatim>\<open>ON CONFLICT (app_key) DO NOTHING\<close>: a clash of the handle still raises.\<close>

definition pg_register_seen_tenant ::
  "pystr \<Rightarrow> pystr \<Rightarrow> pystr \<Rightarrow> instant \<Rightarrow> usage_db \<Rightarrow> store_error + bool \<times> usage_db" where
  "pg_register_seen_tenant k ref name at' d =
     (if k \<in> tr_app_key ` set (ud_tenant_registry d) then Inr (False, d)
      else rbind (insert_unique tr_app_key tr_tenant_ref
          \<lparr>tr_app_key = k, tr_tenant_ref = ref, tr_tenant_name = name, tr_status = u ''active'',
           tr_created_at = at', tr_updated_at = at'\<rparr> (ud_tenant_registry d))
        (\<lambda>rows. Inr (True, d\<lparr>ud_tenant_registry := rows\<rparr>)))"

definition pg_create_tenant_registry :: "tenant_record \<Rightarrow> usage_db \<Rightarrow> store_error + bool \<times> usage_db" where
  "pg_create_tenant_registry r d = (case insert_unique tr_app_key tr_tenant_ref r (ud_tenant_registry d) of
     Inl UniqueViolation \<Rightarrow> Inr (False, d)
   | Inr rows \<Rightarrow> Inr (True, d\<lparr>ud_tenant_registry := rows\<rparr>))"

definition pg_update_tenant_registry ::
  "pystr \<Rightarrow> pystr option \<Rightarrow> pystr option \<Rightarrow> instant \<Rightarrow> usage_db \<Rightarrow> tenant_record option \<times> usage_db" where
  "pg_update_tenant_registry k name status at' d =
     (case update_where (\<lambda>r. tr_app_key r = k) (updated_tenant name status at') (ud_tenant_registry d) of
       (rows, returned) \<Rightarrow> ((case returned of [] \<Rightarrow> None | r # _ \<Rightarrow> Some r), d\<lparr>ud_tenant_registry := rows\<rparr>))"

text \<open>\<^verbatim>\<open>LIKE\<close> with its wildcards (code points 37 and 95) and the escape character (92).\<close>

fun sql_like :: "pystr \<Rightarrow> pystr \<Rightarrow> bool" where
  "sql_like [] s \<longleftrightarrow> s = []"
| "sql_like (p # ps) [] \<longleftrightarrow> p = 37 \<and> sql_like ps []"
| "sql_like (p # ps) (c # s) \<longleftrightarrow>
     (if p = 37 then sql_like ps (c # s) \<or> sql_like (p # ps) s
      else if p = 95 then sql_like ps s
      else if p = 92 then (case ps of [] \<Rightarrow> False | q # qs \<Rightarrow> c = q \<and> sql_like qs s)
      else c = p \<and> sql_like ps s)"

definition pg_search_tenant_registry_names ::
  "(pystr \<Rightarrow> pystr) \<Rightarrow> pystr \<Rightarrow> usage_db \<Rightarrow> pystr list" where
  "pg_search_tenant_registry_names lower fragment d =
     sort (map tr_app_key (filter (\<lambda>r. sql_like (lower ([37] @ fragment @ [37])) (lower (tr_tenant_name r)))
       (ud_tenant_registry d)))"

definition pg_create_principal :: "principal_record \<Rightarrow> usage_db \<Rightarrow> store_error + bool \<times> usage_db" where
  "pg_create_principal p d = (case insert_unique pp_principal_id pp_username p (ud_platform_principal d) of
     Inl UniqueViolation \<Rightarrow> Inr (False, d)
   | Inr rows \<Rightarrow> Inr (True, d\<lparr>ud_platform_principal := rows\<rparr>))"

definition pg_get_principal :: "pystr \<Rightarrow> usage_db \<Rightarrow> principal_record option" where
  "pg_get_principal i d = find_row pp_principal_id i (ud_platform_principal d)"

definition pg_get_principal_by_username :: "pystr \<Rightarrow> usage_db \<Rightarrow> principal_record option" where
  "pg_get_principal_by_username name d = find_row pp_username name (ud_platform_principal d)"

definition postgres_ops :: "(pystr \<Rightarrow> pystr) \<Rightarrow> usage_db usage_ops" where
  "postgres_ops lower = \<lparr>list_interaction_facts = pg_list_interaction_facts,
     list_llm_call_facts = pg_list_llm_call_facts, list_rollup_rows = pg_list_rollup_rows,
     list_tenants = pg_list_tenants, query_duration_percentiles = pg_query_duration_percentiles,
     query_user_activity = pg_query_user_activity, query_freshness = pg_query_freshness,
     query_distinct_counts = pg_query_distinct_counts, record_audit = pg_record_audit,
     purge_audit_before = pg_purge_audit_before, create_export = pg_create_export,
     get_export = pg_get_export, mark_export_ready = pg_mark_export_ready, list_exports = pg_list_exports,
     list_tenant_registry = pg_list_tenant_registry, list_all_tenant_registry = pg_list_all_tenant_registry,
     get_tenant_registry = pg_get_tenant_registry,
     get_tenant_registry_by_ref = pg_get_tenant_registry_by_ref,
     register_seen_tenant = pg_register_seen_tenant, create_tenant_registry = pg_create_tenant_registry,
     update_tenant_registry = pg_update_tenant_registry,
     search_tenant_registry_names = pg_search_tenant_registry_names lower,
     create_principal = pg_create_principal, get_principal = pg_get_principal,
     get_principal_by_username = pg_get_principal_by_username,
     list_mes_call_facts = pg_list_mes_call_facts,
     list_mes_operation_categories = pg_list_mes_operation_categories\<rparr>"

section \<open>Percentiles\<close>

text \<open>Below 100 the interpolation of the code never leaves the list and is that of the database.\<close>

lemma percentile_eq_cont:
  assumes "0 \<le> p" and "p < 100"
  shows "percentile vs p = Inr (percentile_cont vs (p / 100))"
proof (cases "length vs \<le> 1")
  case True
  then show ?thesis
    by (cases vs) (auto simp: percentile_def percentile_cont_def)
next
  case False
  define n where "n = real (length vs - 1)"
  define rank where "rank = p / 100 * n"
  have n: "1 \<le> n" using False by (simp add: n_def)
  have rank: "0 \<le> rank" "rank < n"
  proof -
    show "0 \<le> rank" using assms n by (simp add: rank_def)
    have "rank < 1 * n" unfolding rank_def using assms n by (intro mult_strict_right_mono) auto
    then show "rank < n" by simp
  qed
  have lower: "real (nat \<lfloor>rank\<rfloor>) = of_int \<lfloor>rank\<rfloor>" using rank by simp
  have "\<lfloor>rank\<rfloor> < int (length vs - 1)" using rank by (simp add: floor_less_iff n_def)
  then have upper: "nat \<lfloor>rank\<rfloor> + 1 < length vs" using False rank by linarith
  have fold_rank: "p * real (length vs - 1) / 100 = rank" "p / 100 * real (length vs - 1) = rank"
    by (simp_all add: rank_def n_def)
  have vs: "vs \<noteq> []" "length vs \<noteq> 1" using False by auto
  have left: "percentile vs p = Inr (Some (vs ! nat \<lfloor>rank\<rfloor> * (1 - (rank - real (nat \<lfloor>rank\<rfloor>))) +
      vs ! (nat \<lfloor>rank\<rfloor> + 1) * (rank - real (nat \<lfloor>rank\<rfloor>))))"
    unfolding percentile_def Let_def fold_rank using vs upper by simp
  show ?thesis
  proof (cases "rank = of_int \<lfloor>rank\<rfloor>")
    case True
    then have "\<lceil>rank\<rceil> = \<lfloor>rank\<rfloor>" by (metis ceiling_of_int)
    then show ?thesis
      using True vs left lower unfolding percentile_cont_def Let_def fold_rank by simp
  next
    case False
    then have c: "\<lceil>rank\<rceil> = \<lfloor>rank\<rfloor> + 1" by (metis ceiling_altdef)
    moreover have "nat (\<lfloor>rank\<rfloor> + 1) = nat \<lfloor>rank\<rfloor> + 1" using rank by (simp add: nat_add_distrib)
    ultimately show ?thesis
      using vs left lower unfolding percentile_cont_def Let_def fold_rank by (simp add: algebra_simps)
  qed
qed

section \<open>The two stores hold the same data\<close>

definition db_of :: "memory_store \<Rightarrow> usage_db" where
  "db_of s = \<lparr>ud_interaction_fact = ms_interaction_facts s, ud_llm_call_fact = ms_llm_call_facts s,
     ud_mes_call_fact = Some (ms_mes_call_facts s),
     ud_mes_operation_category = Some (ms_mes_operation_categories s),
     ud_usage_hourly = filter (\<lambda>r. rw_granularity r = HOUR) (ms_rollup_rows s),
     ud_usage_daily = filter (\<lambda>r. rw_granularity r = DAY) (ms_rollup_rows s),
     ud_admin_audit = ms_audits s, ud_usage_export = map snd (ms_exports s),
     ud_tenant_registry = map snd (ms_tenant_registry s), ud_platform_principal = map snd (ms_principals s)\<rparr>"

lemma db_of_simps [simp]:
  "ud_interaction_fact (db_of s) = ms_interaction_facts s" "ud_llm_call_fact (db_of s) = ms_llm_call_facts s"
  "ud_mes_call_fact (db_of s) = Some (ms_mes_call_facts s)"
  "ud_usage_hourly (db_of s) = filter (\<lambda>r. rw_granularity r = HOUR) (ms_rollup_rows s)"
  "ud_usage_daily (db_of s) = filter (\<lambda>r. rw_granularity r = DAY) (ms_rollup_rows s)"
  "ud_tenant_registry (db_of s) = map snd (ms_tenant_registry s)"
  by (simp_all add: db_of_def)

lemma pg_facts_eq:
  "pg_list_interaction_facts T a b (db_of s) = mem_list_interaction_facts T a b s"
  "pg_list_llm_call_facts T a b (db_of s) = mem_list_llm_call_facts T a b s"
  "pg_list_mes_call_facts T a b (db_of s) = mem_list_mes_call_facts T a b s"
  by (simp_all add: pg_list_interaction_facts_def mem_list_interaction_facts_def
      pg_list_llm_call_facts_def mem_list_llm_call_facts_def
      pg_list_mes_call_facts_def mem_list_mes_call_facts_def)

lemma latest_fold:
  "fold (latest_step a b) xs l = (case l of
     None \<Rightarrow> sql_max (filter (in_window a b) xs) | Some m \<Rightarrow> sql_max (m # filter (in_window a b) xs))"
proof (induction xs arbitrary: l)
  case Nil
  then show ?case by (simp add: sql_max_def split: option.split)
next
  case (Cons x xs)
  have "sql_max (m # x # ys) = sql_max (max m x # ys)" for m ys
    by (cases "ys = []") (simp_all add: sql_max_def max.assoc)
  then show ?case
    using Cons by (auto simp: latest_step_def max_def not_less split: option.split)
qed

lemma pg_freshness_eq: "pg_query_freshness T a b (db_of s) = mem_query_freshness T a b s"
  by (simp add: pg_query_freshness_def mem_query_freshness_def latest_fold filter_map comp_def sql_max_def
      conj_commute del: fold_append)

lemma pg_user_activity_eq: "pg_query_user_activity T a b l k (db_of s) = mem_query_user_activity T a b l k s"
proof (cases "T = {}")
  case True
  then show ?thesis
    by (simp add: pg_query_user_activity_def mem_query_user_activity_def mem_list_interaction_facts_def
        counter_def)
next
  case False
  have count: "length (filter ((=) x) ys) = count_list ys x" for ys and x :: pystr
    by (simp add: count_list_eq_length_filter eq_commute)
  have card: "card (set ys) = length (counter ys)" for ys :: "pystr list"
    by (metis distinct_card distinct_from_keys keys_counter length_map set_from_keys)
  show ?thesis
    using False by (simp add: pg_query_user_activity_def mem_query_user_activity_def pg_facts_eq Let_def
        count card flip: counter_eq)
qed

lemma pg_percentiles_eq:
  assumes "T \<noteq> {}"
  shows "pg_query_duration_percentiles T a b (db_of s) = mem_query_duration_percentiles T a b s"
  using assms by (simp add: pg_query_duration_percentiles_def mem_query_duration_percentiles_def
      DURATION_COLUMN_def pg_facts_eq Let_def percentile_eq_cont decimal.simps u_def)

lemma pg_tenants_eq: "pg_list_tenants a b (db_of s) = mem_list_tenants a b s"
  by (simp only: pg_list_tenants_def mem_list_tenants_def db_of_simps option.case
      sorted_list_of_set_sort_remdups)

lemma pg_rollup_eq:
  "pg_list_rollup_rows T a b HOUR (db_of s) = mem_list_rollup_rows T a b HOUR s"
  "midnight a = a \<Longrightarrow> midnight b = b \<Longrightarrow>
     pg_list_rollup_rows T a b DAY (db_of s) = mem_list_rollup_rows T a b DAY s"
  by (auto simp: pg_list_rollup_rows_def mem_list_rollup_rows_def conj_ac intro!: filter_cong)

text \<open>The name search agrees on fragments without wildcards, when lower-casing works character by
  character.\<close>

lemma sql_like_all: "sql_like [37] s"
  by (induction s) simp_all

lemma sql_like_prefix:
  "\<forall>c \<in> set frag. c \<noteq> 37 \<and> c \<noteq> 95 \<and> c \<noteq> 92 \<Longrightarrow> sql_like (frag @ [37]) s \<longleftrightarrow> prefix frag s"
proof (induction frag arbitrary: s)
  case Nil
  then show ?case by (simp add: sql_like_all)
next
  case (Cons p frag)
  then show ?case by (cases s) auto
qed

lemma sql_like_contains:
  assumes "\<forall>c \<in> set frag. c \<noteq> 37 \<and> c \<noteq> 95 \<and> c \<noteq> 92"
  shows "sql_like (37 # frag @ [37]) s \<longleftrightarrow> py_in frag s"
  by (induction s) (simp_all add: sql_like_prefix [OF assms])

lemma pg_search_eq:
  assumes "\<And>s. lower s = map low s" and "low 37 = 37"
    and "\<forall>c \<in> set (lower fragment). c \<noteq> 37 \<and> c \<noteq> 95 \<and> c \<noteq> 92"
  shows "pg_search_tenant_registry_names lower fragment (db_of s) =
    mem_search_tenant_registry_names lower fragment s"
proof -
  have "sql_like (lower ([37] @ fragment @ [37])) name \<longleftrightarrow> py_in (lower fragment) name" for name
    using sql_like_contains [OF assms(3)] assms(1,2) by simp
  then show ?thesis
    by (simp add: pg_search_tenant_registry_names_def mem_search_tenant_registry_names_def)
qed

text \<open>
  The production store and the store the tests run on answer alike.  On the same data
  the PostgreSQL statements and the in-memory loops return the same facts, the same tenants, the same
  user ranking and page, the same freshness and the same distinct counts, for every tenant set and
  window, the empty tenant set included; the hourly rollup rows agree always and the daily ones for
  windows between midnights; and for a non-empty tenant set the hand-written interpolation gives
  exactly the database's percentiles and never runs out of range.
\<close>

theorem stores_agree_on_reads:
  "pg_list_interaction_facts T a b (db_of s) = mem_list_interaction_facts T a b s \<and>
   pg_list_llm_call_facts T a b (db_of s) = mem_list_llm_call_facts T a b s \<and>
   pg_list_mes_call_facts T a b (db_of s) = mem_list_mes_call_facts T a b s \<and>
   pg_list_tenants a b (db_of s) = mem_list_tenants a b s \<and>
   pg_query_user_activity T a b limit offset (db_of s) = mem_query_user_activity T a b limit offset s \<and>
   pg_query_freshness T a b (db_of s) = mem_query_freshness T a b s \<and>
   pg_query_distinct_counts T a b (db_of s) = mem_query_distinct_counts T a b s \<and>
   pg_list_rollup_rows T a b HOUR (db_of s) = mem_list_rollup_rows T a b HOUR s \<and>
   (midnight a = a \<and> midnight b = b \<longrightarrow>
      pg_list_rollup_rows T a b DAY (db_of s) = mem_list_rollup_rows T a b DAY s) \<and>
   (T \<noteq> {} \<longrightarrow> (\<exists>ps. mem_query_duration_percentiles T a b s = Inr ps \<and>
      pg_query_duration_percentiles T a b (db_of s) = Inr ps))"
proof -
  have "pg_query_distinct_counts T a b (db_of s) = mem_query_distinct_counts T a b s"
    by (simp add: pg_query_distinct_counts_def mem_query_distinct_counts_def pg_facts_eq)
      (simp add: mem_list_interaction_facts_def mem_list_llm_call_facts_def)
  moreover have "\<exists>ps. pg_query_duration_percentiles T a b (db_of s) = Inr ps"
    by (simp add: pg_query_duration_percentiles_def)
  ultimately show ?thesis
    using pg_percentiles_eq [of T a b s]
    by (simp add: pg_facts_eq pg_tenants_eq pg_user_activity_eq pg_freshness_eq pg_rollup_eq) metis
qed

section \<open>What the services rely on\<close>

text \<open>The rows of the registry and of the audit in the order they were written, and the part of
  the state the store keeps consistent.\<close>

locale tenant_store =
  fixes ops :: "'s usage_ops"
    and registry :: "'s \<Rightarrow> tenant_record list"
    and audits :: "'s \<Rightarrow> audit_entry list"
    and consistent :: "'s \<Rightarrow> bool"
  assumes keys: "consistent s \<Longrightarrow> keyed tr_app_key (registry s)"
    and refs: "consistent s \<Longrightarrow> keyed tr_tenant_ref (registry s)"
    and get_key: "consistent s \<Longrightarrow> get_tenant_registry ops k s = find_row tr_app_key k (registry s)"
    and get_ref: "consistent s \<Longrightarrow> get_tenant_registry_by_ref ops ref s = find_row tr_tenant_ref ref (registry s)"
    and list_page: "consistent s \<Longrightarrow> list_tenant_registry ops limit offset s =
      (take limit (drop offset (sort_key tr_created_at (registry s))), length (registry s))"
    and list_all: "consistent s \<Longrightarrow> set (list_all_tenant_registry ops s) = set (registry s)"
    and create_taken: "consistent s \<Longrightarrow> tr_app_key r \<in> tr_app_key ` set (registry s) \<Longrightarrow>
      create_tenant_registry ops r s = Inr (False, s)"
    and create_new: "consistent s \<Longrightarrow> tr_app_key r \<notin> tr_app_key ` set (registry s) \<Longrightarrow>
      tr_tenant_ref r \<notin> tr_tenant_ref ` set (registry s) \<Longrightarrow>
      \<exists>s'. create_tenant_registry ops r s = Inr (True, s') \<and> consistent s' \<and>
        registry s' = registry s @ [r] \<and> audits s' = audits s"
    and register_taken: "consistent s \<Longrightarrow> k \<in> tr_app_key ` set (registry s) \<Longrightarrow>
      register_seen_tenant ops k ref name at' s = Inr (False, s)"
    and register_new: "consistent s \<Longrightarrow> k \<notin> tr_app_key ` set (registry s) \<Longrightarrow>
      ref \<notin> tr_tenant_ref ` set (registry s) \<Longrightarrow>
      \<exists>s'. register_seen_tenant ops k ref name at' s = Inr (True, s') \<and> consistent s' \<and>
        registry s' = registry s @ [\<lparr>tr_app_key = k, tr_tenant_ref = ref, tr_tenant_name = name,
          tr_status = u ''active'', tr_created_at = at', tr_updated_at = at'\<rparr>] \<and> audits s' = audits s"
    and update_row: "consistent s \<Longrightarrow> \<exists>s'. update_tenant_registry ops k name' status' at' s =
        (map_option (updated_tenant name' status' at') (find_row tr_app_key k (registry s)), s') \<and>
      consistent s' \<and> audits s' = audits s \<and> registry s' =
        map (\<lambda>r. if tr_app_key r = k then updated_tenant name' status' at' r else r) (registry s)"
    and audit_new: "consistent s \<Longrightarrow> ae_audit_id e \<notin> ae_audit_id ` set (audits s) \<Longrightarrow>
      \<exists>s'. record_audit ops e s = Inr s' \<and> consistent s' \<and> registry s' = registry s \<and>
        audits s' = audits s @ [e]"
    and purge: "consistent s \<Longrightarrow> \<exists>s'. purge_audit_before ops cutoff s =
        (length (filter (\<lambda>e. ae_created_at e < cutoff) (audits s)), s') \<and> consistent s' \<and>
      registry s' = registry s \<and> audits s' = filter (\<lambda>e. cutoff \<le> ae_created_at e) (audits s)"

lemma updated_tenant_keys [simp]:
  "tr_app_key (updated_tenant name status at' r) = tr_app_key r"
  "tr_tenant_ref (updated_tenant name status at' r) = tr_tenant_ref r"
  "tr_created_at (updated_tenant name status at' r) = tr_created_at r"
  "tr_updated_at (updated_tenant name status at' r) = at'"
  by (simp_all add: updated_tenant_def)

definition memory_consistent :: "memory_store \<Rightarrow> bool" where
  "memory_consistent s \<longleftrightarrow> keyed tr_tenant_ref (map snd (ms_tenant_registry s)) \<and>
     map fst (ms_tenant_registry s) = map (tr_app_key \<circ> snd) (ms_tenant_registry s) \<and>
     distinct (map fst (ms_tenant_registry s))"

definition db_consistent :: "usage_db \<Rightarrow> bool" where
  "db_consistent d \<longleftrightarrow> keyed tr_app_key (ud_tenant_registry d) \<and> keyed tr_tenant_ref (ud_tenant_registry d) \<and>
     keyed ae_audit_id (ud_admin_audit d)"

lemma update_new_key: "k \<notin> fst ` set d \<Longrightarrow> AList.update k v d = d @ [(k, v)]"
  by (induction d) auto

lemma update_old_key:
  "distinct (map fst d) \<Longrightarrow> k \<in> fst ` set d \<Longrightarrow>
    AList.update k v d = map (\<lambda>(k', v'). if k' = k then (k, v) else (k', v')) d"
proof (induction d)
  case (Cons e d)
  show ?case
  proof (cases "fst e = k")
    case True
    have "(case e' of (k', v') \<Rightarrow> if k' = k then (k, v) else (k', v')) = e'" if "e' \<in> set d" for e'
    proof -
      have "k \<notin> fst ` set d" using True Cons.prems(1) by simp
      then have "fst e' \<noteq> k" using imageI [OF that, of fst] by metis
      then show ?thesis by (cases e') simp
    qed
    then have "map (\<lambda>(k', v'). if k' = k then (k, v) else (k', v')) d = d" by (simp add: map_idI)
    then show ?thesis using True by (cases e) simp
  next
    case False
    then show ?thesis using Cons by (cases e) auto
  qed
qed simp

lemma map_of_find_row:
  "map fst d = map (key \<circ> snd) d \<Longrightarrow> map_of d k = find_row key k (map snd d)"
  by (induction d) (auto simp: find_row_def)

lemma keyed_append [table_simps]: "keyed key (rows @ [r]) \<longleftrightarrow> keyed key rows \<and> key r \<notin> key ` set rows"
  by (auto simp: keyed_def)

lemma keyed_map_same: "(\<And>r. r \<in> set rows \<Longrightarrow> key (f r) = key r) \<Longrightarrow> keyed key (map f rows) \<longleftrightarrow> keyed key rows"
  by (simp add: keyed_def comp_def cong: map_cong)

text \<open>The dictionary behind the in-memory registry, as rows.\<close>

lemma memory_rows:
  assumes "memory_consistent s"
  shows "fst ` set (ms_tenant_registry s) = tr_app_key ` set (map snd (ms_tenant_registry s))"
    and "map_of (ms_tenant_registry s) k = find_row tr_app_key k (map snd (ms_tenant_registry s))"
    and "keyed tr_app_key (map snd (ms_tenant_registry s))"
proof -
  have eq: "map fst (ms_tenant_registry s) = map (tr_app_key \<circ> snd) (ms_tenant_registry s)"
    using assms by (simp add: memory_consistent_def)
  have "set (map fst (ms_tenant_registry s)) = set (map (tr_app_key \<circ> snd) (ms_tenant_registry s))"
    by (simp only: eq)
  then show "fst ` set (ms_tenant_registry s) = tr_app_key ` set (map snd (ms_tenant_registry s))"
    by (simp add: image_image)
  show "map_of (ms_tenant_registry s) k = find_row tr_app_key k (map snd (ms_tenant_registry s))"
    by (rule map_of_find_row [OF eq])
  show "keyed tr_app_key (map snd (ms_tenant_registry s))"
    using assms eq by (metis keyed_def map_map memory_consistent_def)
qed

lemma memory_append:
  assumes "memory_consistent s" and "tr_app_key r \<notin> tr_app_key ` set (map snd (ms_tenant_registry s))"
    and "tr_tenant_ref r \<notin> tr_tenant_ref ` set (map snd (ms_tenant_registry s))"
  shows "AList.update (tr_app_key r) r (ms_tenant_registry s) = ms_tenant_registry s @ [(tr_app_key r, r)]"
    and "memory_consistent (s\<lparr>ms_tenant_registry := ms_tenant_registry s @ [(tr_app_key r, r)]\<rparr>)"
proof -
  have new: "tr_app_key r \<notin> fst ` set (ms_tenant_registry s)"
    using assms(2) memory_rows(1) [OF assms(1)] by simp
  show "AList.update (tr_app_key r) r (ms_tenant_registry s) = ms_tenant_registry s @ [(tr_app_key r, r)]"
    by (rule update_new_key [OF new])
  show "memory_consistent (s\<lparr>ms_tenant_registry := ms_tenant_registry s @ [(tr_app_key r, r)]\<rparr>)"
    using assms(1,3) new by (simp add: memory_consistent_def table_simps)
qed

lemma memory_consistentI:
  "keyed tr_tenant_ref (map snd d) \<Longrightarrow> map fst d = map (tr_app_key \<circ> snd) d \<Longrightarrow> distinct (map fst d) \<Longrightarrow>
    memory_consistent (s\<lparr>ms_tenant_registry := d\<rparr>)"
  by (simp add: memory_consistent_def)

lemma memory_update:
  assumes "memory_consistent s"
  shows "\<exists>s'. mem_update_tenant_registry k name status at' s =
      (map_option (updated_tenant name status at') (find_row tr_app_key k (map snd (ms_tenant_registry s))), s') \<and>
    memory_consistent s' \<and> ms_audits s' = ms_audits s \<and> map snd (ms_tenant_registry s') =
      map (\<lambda>r. if tr_app_key r = k then updated_tenant name status at' r else r) (map snd (ms_tenant_registry s))"
proof (cases "find_row tr_app_key k (map snd (ms_tenant_registry s))")
  case None
  then have "k \<notin> tr_app_key ` set (map snd (ms_tenant_registry s))" by (simp add: find_row_None)
  then have "map (\<lambda>r. if tr_app_key r = k then updated_tenant name status at' r else r)
      (map snd (ms_tenant_registry s)) = map snd (ms_tenant_registry s)"
    by (intro map_idI) auto
  then show ?thesis
    using None assms memory_rows(2) [OF assms, of k] by (simp add: mem_update_tenant_registry_def)
next
  case (Some r)
  let ?d = "ms_tenant_registry s" and ?r = "updated_tenant name status at' r"
  let ?g = "\<lambda>(k', v'). if k' = k then (k, ?r) else (k', v')"
  have row: "r \<in> set (map snd ?d)" "tr_app_key r = k" using find_row_Some [OF Some] by auto
  have d: "distinct (map fst ?d)" "map fst ?d = map (tr_app_key \<circ> snd) ?d" "keyed tr_tenant_ref (map snd ?d)"
    using assms by (simp_all add: memory_consistent_def)
  have upd: "AList.update k ?r ?d = map ?g ?d"
    using row memory_rows(1) [OF assms] by (intro update_old_key [OF d(1)]) auto
  have entry: "snd (?g e) = (if tr_app_key (snd e) = k then updated_tenant name status at' (snd e) else snd e)"
    "fst (?g e) = fst e" if "e \<in> set ?d" for e
  proof -
    have key: "fst e = tr_app_key (snd e)"
      using d(2) that by (metis (no_types, lifting) comp_apply map_eq_conv)
    have "snd e = r" if k: "tr_app_key (snd e) = k"
    proof -
      have "inj_on tr_app_key (set (map snd ?d))"
        using memory_rows(3) [OF assms] unfolding keyed_def distinct_map by (rule conjunct2)
      then show ?thesis using k row \<open>e \<in> set ?d\<close> by (auto dest!: inj_onD [where x = "snd e" and y = r])
    qed
    then show "snd (?g e) = (if tr_app_key (snd e) = k then updated_tenant name status at' (snd e) else snd e)"
      "fst (?g e) = fst e"
      using key by (auto simp: case_prod_beta)
  qed
  have rows: "map snd (map ?g ?d) =
      map (\<lambda>r. if tr_app_key r = k then updated_tenant name status at' r else r) (map snd ?d)"
    using entry(1) by (simp add: comp_def)
  have keys: "map fst (map ?g ?d) = map fst ?d"
    using entry(2) by simp
  have "map (tr_app_key \<circ> snd) (map ?g ?d) = map tr_app_key (map snd (map ?g ?d))" by simp
  also have "\<dots> = map (tr_app_key \<circ> snd) ?d" unfolding rows by simp
  finally have "map fst (map ?g ?d) = map (tr_app_key \<circ> snd) (map ?g ?d)" using keys d(2) by simp
  moreover have "keyed tr_tenant_ref (map snd (map ?g ?d))"
    unfolding rows using d(3) by (subst keyed_map_same) auto
  moreover have "distinct (map fst (map ?g ?d))"
    unfolding keys by (rule d(1))
  ultimately have "memory_consistent (s\<lparr>ms_tenant_registry := map ?g ?d\<rparr>)"
    by (intro memory_consistentI)
  then show ?thesis
    using Some rows memory_rows(2) [OF assms, of k] by (simp add: mem_update_tenant_registry_def upd Let_def)
qed

interpretation memory: tenant_store "memory_ops lower" "\<lambda>s. map snd (ms_tenant_registry s)" ms_audits
  memory_consistent
proof
  fix s :: memory_store assume ok: "memory_consistent s"
  note rows = memory_rows [OF ok]
  show "keyed tr_app_key (map snd (ms_tenant_registry s))" by (rule rows(3))
  show "keyed tr_tenant_ref (map snd (ms_tenant_registry s))" using ok by (simp add: memory_consistent_def)
  show "get_tenant_registry (memory_ops lower) k s = find_row tr_app_key k (map snd (ms_tenant_registry s))" for k
    by (simp add: memory_ops_def mem_get_tenant_registry_def rows(2))
  show "get_tenant_registry_by_ref (memory_ops lower) ref s =
      find_row tr_tenant_ref ref (map snd (ms_tenant_registry s))" for ref
    by (simp add: memory_ops_def mem_get_tenant_registry_by_ref_def find_row_def)
  show "list_tenant_registry (memory_ops lower) limit offset s =
      (take limit (drop offset (sort_key tr_created_at (map snd (ms_tenant_registry s)))),
       length (map snd (ms_tenant_registry s)))" for limit offset
    by (simp add: memory_ops_def mem_list_tenant_registry_def Let_def)
  show "set (list_all_tenant_registry (memory_ops lower) s) = set (map snd (ms_tenant_registry s))"
    by (simp add: memory_ops_def mem_list_all_tenant_registry_def)
  show "create_tenant_registry (memory_ops lower) r s = Inr (False, s)"
    if "tr_app_key r \<in> tr_app_key ` set (map snd (ms_tenant_registry s))" for r
    using that rows(1) by (simp add: memory_ops_def mem_create_tenant_registry_def)
  show "\<exists>s'. create_tenant_registry (memory_ops lower) r s = Inr (True, s') \<and> memory_consistent s' \<and>
      map snd (ms_tenant_registry s') = map snd (ms_tenant_registry s) @ [r] \<and> ms_audits s' = ms_audits s"
    if "tr_app_key r \<notin> tr_app_key ` set (map snd (ms_tenant_registry s))"
      and "tr_tenant_ref r \<notin> tr_tenant_ref ` set (map snd (ms_tenant_registry s))" for r
    using that rows(1) memory_append [OF ok that] by (simp add: memory_ops_def mem_create_tenant_registry_def)
  show "register_seen_tenant (memory_ops lower) k ref name at' s = Inr (False, s)"
    if "k \<in> tr_app_key ` set (map snd (ms_tenant_registry s))" for k ref name at'
    using that rows(1) by (simp add: memory_ops_def mem_register_seen_tenant_def)
  show "\<exists>s'. register_seen_tenant (memory_ops lower) k ref name at' s = Inr (True, s') \<and> memory_consistent s' \<and>
      map snd (ms_tenant_registry s') = map snd (ms_tenant_registry s) @ [\<lparr>tr_app_key = k, tr_tenant_ref = ref,
        tr_tenant_name = name, tr_status = u ''active'', tr_created_at = at', tr_updated_at = at'\<rparr>] \<and>
      ms_audits s' = ms_audits s"
    if "k \<notin> tr_app_key ` set (map snd (ms_tenant_registry s))"
      and "ref \<notin> tr_tenant_ref ` set (map snd (ms_tenant_registry s))" for k ref name at'
    using that rows(1) memory_append [OF ok, of "\<lparr>tr_app_key = k, tr_tenant_ref = ref, tr_tenant_name = name,
        tr_status = u ''active'', tr_created_at = at', tr_updated_at = at'\<rparr>"]
    by (simp add: memory_ops_def mem_register_seen_tenant_def)
  show "\<exists>s'. update_tenant_registry (memory_ops lower) k name' status' at' s =
      (map_option (updated_tenant name' status' at') (find_row tr_app_key k (map snd (ms_tenant_registry s))), s') \<and>
    memory_consistent s' \<and> ms_audits s' = ms_audits s \<and> map snd (ms_tenant_registry s') =
      map (\<lambda>r. if tr_app_key r = k then updated_tenant name' status' at' r else r) (map snd (ms_tenant_registry s))"
    for k name' status' at'
    using memory_update [OF ok] by (simp add: memory_ops_def)
  show "\<exists>s'. record_audit (memory_ops lower) e s = Inr s' \<and> memory_consistent s' \<and>
      map snd (ms_tenant_registry s') = map snd (ms_tenant_registry s) \<and> ms_audits s' = ms_audits s @ [e]" for e
    using ok by (simp add: memory_ops_def mem_record_audit_def memory_consistent_def)
  show "\<exists>s'. purge_audit_before (memory_ops lower) cutoff s =
      (length (filter (\<lambda>e. ae_created_at e < cutoff) (ms_audits s)), s') \<and> memory_consistent s' \<and>
      map snd (ms_tenant_registry s') = map snd (ms_tenant_registry s) \<and>
      ms_audits s' = filter (\<lambda>e. cutoff \<le> ae_created_at e) (ms_audits s)" for cutoff
  proof -
    have "length (filter (\<lambda>e. cutoff \<le> ae_created_at e) es) + length (filter (\<lambda>e. ae_created_at e < cutoff) es)
        = length es" for es
      using sum_length_filter_compl [of "\<lambda>e. cutoff \<le> ae_created_at e" es] by (simp add: not_le)
    then have "length es - length (filter (\<lambda>e. cutoff \<le> ae_created_at e) es) =
        length (filter (\<lambda>e. ae_created_at e < cutoff) es)" for es
      by (metis add_diff_cancel_left')
    then show ?thesis
      using ok by (simp add: memory_ops_def mem_purge_audit_before_def memory_consistent_def Let_def)
  qed
qed

interpretation postgres: tenant_store "postgres_ops lower" ud_tenant_registry ud_admin_audit db_consistent
proof
  fix d :: usage_db assume ok: "db_consistent d"
  note pg = postgres_ops_def db_consistent_def
  show "keyed tr_app_key (ud_tenant_registry d)" "keyed tr_tenant_ref (ud_tenant_registry d)"
    using ok by (simp_all add: pg)
  show "get_tenant_registry (postgres_ops lower) k d = find_row tr_app_key k (ud_tenant_registry d)" for k
    by (simp add: pg pg_get_tenant_registry_def)
  show "get_tenant_registry_by_ref (postgres_ops lower) ref d = find_row tr_tenant_ref ref (ud_tenant_registry d)" for ref
    by (simp add: pg pg_get_tenant_registry_by_ref_def)
  show "list_tenant_registry (postgres_ops lower) limit offset d =
      (take limit (drop offset (sort_key tr_created_at (ud_tenant_registry d))), length (ud_tenant_registry d))"
    for limit offset
    by (simp add: pg pg_list_tenant_registry_def)
  show "set (list_all_tenant_registry (postgres_ops lower) d) = set (ud_tenant_registry d)"
    by (simp add: pg pg_list_all_tenant_registry_def)
  show "create_tenant_registry (postgres_ops lower) r d = Inr (False, d)"
    if "tr_app_key r \<in> tr_app_key ` set (ud_tenant_registry d)" for r
    using that by (simp add: pg pg_create_tenant_registry_def insert_unique_def)
  show "\<exists>d'. create_tenant_registry (postgres_ops lower) r d = Inr (True, d') \<and> db_consistent d' \<and>
      ud_tenant_registry d' = ud_tenant_registry d @ [r] \<and> ud_admin_audit d' = ud_admin_audit d"
    if "tr_app_key r \<notin> tr_app_key ` set (ud_tenant_registry d)"
      and "tr_tenant_ref r \<notin> tr_tenant_ref ` set (ud_tenant_registry d)" for r
    using that ok by (simp add: pg pg_create_tenant_registry_def insert_unique_def table_simps)
  show "register_seen_tenant (postgres_ops lower) k ref name at' d = Inr (False, d)"
    if "k \<in> tr_app_key ` set (ud_tenant_registry d)" for k ref name at'
    using that by (simp add: pg pg_register_seen_tenant_def)
  show "\<exists>d'. register_seen_tenant (postgres_ops lower) k ref name at' d = Inr (True, d') \<and> db_consistent d' \<and>
      ud_tenant_registry d' = ud_tenant_registry d @ [\<lparr>tr_app_key = k, tr_tenant_ref = ref,
        tr_tenant_name = name, tr_status = u ''active'', tr_created_at = at', tr_updated_at = at'\<rparr>] \<and>
      ud_admin_audit d' = ud_admin_audit d"
    if "k \<notin> tr_app_key ` set (ud_tenant_registry d)"
      and "ref \<notin> tr_tenant_ref ` set (ud_tenant_registry d)" for k ref name at'
    using that ok by (simp add: pg pg_register_seen_tenant_def insert_unique_def table_simps)
  show "\<exists>d'. update_tenant_registry (postgres_ops lower) k name' status' at' d =
      (map_option (updated_tenant name' status' at') (find_row tr_app_key k (ud_tenant_registry d)), d') \<and>
    db_consistent d' \<and> ud_admin_audit d' = ud_admin_audit d \<and> ud_tenant_registry d' =
      map (\<lambda>r. if tr_app_key r = k then updated_tenant name' status' at' r else r) (ud_tenant_registry d)"
    for k name' status' at'
  proof -
    have "(case map f (filter (\<lambda>r. tr_app_key r = k) rows) of [] \<Rightarrow> None | r # _ \<Rightarrow> Some r) =
        map_option f (find_row tr_app_key k rows)" for f :: "tenant_record \<Rightarrow> tenant_record" and rows
      by (induction rows) (simp_all add: find_row_def)
    then show ?thesis
      using ok by (simp add: pg pg_update_tenant_registry_def update_where_def keyed_map_same)
  qed
  show "\<exists>d'. record_audit (postgres_ops lower) e d = Inr d' \<and> db_consistent d' \<and>
      ud_tenant_registry d' = ud_tenant_registry d \<and> ud_admin_audit d' = ud_admin_audit d @ [e]"
    if "ae_audit_id e \<notin> ae_audit_id ` set (ud_admin_audit d)" for e
    using that ok by (simp add: pg pg_record_audit_def insert_unique_def table_simps)
  show "\<exists>d'. purge_audit_before (postgres_ops lower) cutoff d =
      (length (filter (\<lambda>e. ae_created_at e < cutoff) (ud_admin_audit d)), d') \<and> db_consistent d' \<and>
      ud_tenant_registry d' = ud_tenant_registry d \<and>
      ud_admin_audit d' = filter (\<lambda>e. cutoff \<le> ae_created_at e) (ud_admin_audit d)" for cutoff
    using ok by (simp add: pg pg_purge_audit_before_def not_less keyed_filter)
qed

section \<open>Witness\<close>

definition demo_memory :: memory_store where
  "demo_memory = \<lparr>ms_interaction_facts = [], ms_llm_call_facts = [], ms_mes_call_facts = [],
     ms_mes_operation_categories = [], ms_rollup_rows = [\<lparr>rw_tenant_id = u ''t'', rw_bucket_start = 0,
       rw_metric = u ''questions'', rw_value = 3, rw_rollup_version = ROLLUP_VERSION, rw_rolled_up_at = 9,
       rw_granularity = DAY\<rparr>],
     ms_audits = [], ms_exports = [], ms_tenant_registry = [], ms_principals = []\<rparr>"

theorem stores_agree_on_reads_witness:
  "length (pg_list_rollup_rows {u ''t''} 0 us_day DAY (db_of demo_memory)) = 1 \<and>
   (\<exists>ps. mem_query_duration_percentiles {u ''t''} 0 us_day demo_memory = Inr ps)"
proof -
  have "midnight us_day = us_day" "midnight 0 = 0" by (simp_all add: midnight_def us_defs)
  then show ?thesis
    using stores_agree_on_reads [of "{u ''t''}" 0 us_day demo_memory 1 0]
    by (auto simp: mem_list_rollup_rows_def demo_memory_def in_window_def)
qed

end
