(* ===== verification/Tenants.thy ===== *)
theory Tenants
  imports StatStore
begin

text \<open>
  Tenant master data of the statistics surface: \<^verbatim>\<open>statistics/tenants.py\<close>, the first-seen
  writer of \<^verbatim>\<open>statistics/tenant_registration.py\<close> and the audit retention of
  \<^verbatim>\<open>statistics/retention.py\<close>.

  Every operation of the service takes the store's operations and returns its outcome together with
  the store afterwards, because a raise does not undo the statements before it: each statement of the
  store commits on its own connection.  The readings of the clock, the random tokens and the fresh
  audit identifiers are arguments.

  The lemmas are proved once for every \<open>tenant_store\<close>; a command carries \<open>fresh\<close>
  identifiers when its random handle and its audit identifier are new.
\<close>

section \<open>tenants.py\<close>

definition ACTIVE :: pystr where "ACTIVE = u ''active''"
definition DISABLED :: pystr where "DISABLED = u ''disabled''"
definition PLACEHOLDER_NAME_PREFIX :: pystr where
  "PLACEHOLDER_NAME_PREFIX = [26410, 21629, 21517, 24037, 21378, 45]"

datatype service_error = ScopeError platform_scope_error | TenantRegistryError pystr | StoreError store_error

record tenant_page =
  tp_items :: "tenant_record list"
  tp_total :: nat
  tp_next_cursor :: "nat option"

text \<open>The argument is the random token.\<close>

definition generate_app_key :: "pystr \<Rightarrow> pystr" where "generate_app_key token = u ''fac-'' @ token"
definition generate_tenant_ref :: "pystr \<Rightarrow> pystr" where "generate_tenant_ref token = u ''t_'' @ token"
definition placeholder_name :: "pystr \<Rightarrow> pystr" where
  "placeholder_name ref = PLACEHOLDER_NAME_PREFIX @ take 6 ref"

definition validate_status :: "stdlib \<Rightarrow> pystr \<Rightarrow> service_error + pystr" where
  "validate_status std status = (if status \<in> {ACTIVE, DISABLED} then Inr status
     else Inl (TenantRegistryError
       (u ''status must be 'active' or 'disabled', got '' @ std_repr std (PStr status))))"

definition require_admin :: "platform_scope \<Rightarrow> service_error + unit" where
  "require_admin scope = guard_r (allows_manage_tenants scope)
     (ScopeError (PlatformScopeError (u ''tenant management requires the admin role'')))"

definition tenant_list ::
  "'s usage_ops \<Rightarrow> platform_scope \<Rightarrow> nat \<Rightarrow> int \<Rightarrow> 's \<Rightarrow> service_error + tenant_page" where
  "tenant_list ops scope limit offset s =
     (if offset < 0 then Inl (TenantRegistryError (u ''offset must not be negative''))
      else case list_tenant_registry ops limit (nat offset) s of (records, total') \<Rightarrow>
        let scanned = nat offset + length records in
        Inr \<lparr>tp_items = filter (\<lambda>r. covers_tenant scope (tr_app_key r)) records, tp_total = total',
          tp_next_cursor = (if scanned < total' then Some scanned else None)\<rparr>)"

definition tenant_get :: "'s usage_ops \<Rightarrow> platform_scope \<Rightarrow> pystr \<Rightarrow> 's \<Rightarrow> tenant_record option" where
  "tenant_get ops scope ref s = (case get_tenant_registry_by_ref ops ref s of
     None \<Rightarrow> None
   | Some r \<Rightarrow> if covers_tenant scope (tr_app_key r) then Some r else None)"

text \<open>\<open>_audit\<close> after a successful write, whose result the caller returns.\<close>

definition tenant_audit ::
  "'s usage_ops \<Rightarrow> platform_scope \<Rightarrow> pystr \<Rightarrow> pystr option \<Rightarrow> payload \<Rightarrow> pystr \<Rightarrow> instant \<Rightarrow>
   tenant_record \<Rightarrow> 's \<Rightarrow> (service_error + tenant_record) \<times> 's" where
  "tenant_audit ops scope action target detail audit_id at' r s =
     (case record_audit ops \<lparr>ae_audit_id = audit_id, ae_principal_id = ps_principal_id scope,
        ae_action = action, ae_target = target, ae_detail = detail, ae_created_at = at'\<rparr> s of
       Inl e \<Rightarrow> (Inl (StoreError e), s)
     | Inr s' \<Rightarrow> (Inr r, s'))"

definition tenant_create ::
  "'s usage_ops \<Rightarrow> stdlib \<Rightarrow> platform_scope \<Rightarrow> pystr \<Rightarrow> pystr \<Rightarrow> pystr option \<Rightarrow> pystr \<Rightarrow> pystr \<Rightarrow>
   instant \<Rightarrow> pystr \<Rightarrow> instant \<Rightarrow> 's \<Rightarrow> (service_error + tenant_record) \<times> 's" where
  "tenant_create ops std scope tenant_name status app_key key_token ref_token now audit_id audit_at s =
     (case rthen (require_admin scope)
          (rthen (guard_r (py_strip tenant_name \<noteq> []) (TenantRegistryError (u ''tenant_name must not be empty'')))
            (validate_status std status)) of
       Inl e \<Rightarrow> (Inl e, s)
     | Inr status_value \<Rightarrow>
         let name = py_strip tenant_name;
             given = py_strip (case app_key of Some k \<Rightarrow> k | None \<Rightarrow> []);
             key = (if given \<noteq> [] then given else generate_app_key key_token);
             tenant_ref = generate_tenant_ref ref_token;
             r = \<lparr>tr_app_key = key, tr_tenant_ref = tenant_ref, tr_tenant_name = name,
               tr_status = status_value, tr_created_at = now, tr_updated_at = now\<rparr> in
         (case create_tenant_registry ops r s of
           Inl e \<Rightarrow> (Inl (StoreError e), s)
         | Inr (created, s') \<Rightarrow>
             if \<not> created then (Inl (TenantRegistryError (u ''app_key already exists'')), s')
             else tenant_audit ops scope (u ''tenant.create'') (Some tenant_ref)
               [(u ''tenant_name'', PStr name), (u ''status'', PStr status_value)] audit_id audit_at r s'))"

definition tenant_update ::
  "'s usage_ops \<Rightarrow> stdlib \<Rightarrow> platform_scope \<Rightarrow> pystr \<Rightarrow> pystr option \<Rightarrow> pystr option \<Rightarrow>
   instant \<Rightarrow> pystr \<Rightarrow> instant \<Rightarrow> 's \<Rightarrow> (service_error + tenant_record) \<times> 's" where
  "tenant_update ops std scope tenant_ref tenant_name status now audit_id audit_at s =
     (case require_admin scope of
       Inl e \<Rightarrow> (Inl e, s)
     | Inr _ \<Rightarrow> (case get_tenant_registry_by_ref ops tenant_ref s of
         None \<Rightarrow> (Inl (TenantRegistryError (u ''tenant not found'')), s)
       | Some before \<Rightarrow>
           let name = map_option py_strip tenant_name in
           if name = Some [] then (Inl (TenantRegistryError (u ''tenant_name must not be empty'')), s)
           else (case (case status of None \<Rightarrow> Inr None | Some x \<Rightarrow> map_sum id Some (validate_status std x)) of
             Inl e \<Rightarrow> (Inl e, s)
           | Inr status_value \<Rightarrow>
               (case update_tenant_registry ops (tr_app_key before) name status_value now s of
                 (None, s') \<Rightarrow> (Inl (TenantRegistryError (u ''tenant not found'')), s')
               | (Some after, s') \<Rightarrow> tenant_audit ops scope (u ''tenant.update'') (Some tenant_ref)
                   [(u ''before'', PDict [(u ''tenant_name'', PStr (tr_tenant_name before)),
                       (u ''status'', PStr (tr_status before))]),
                    (u ''after'', PDict [(u ''tenant_name'', PStr (tr_tenant_name after)),
                       (u ''status'', PStr (tr_status after))])] audit_id audit_at after s'))))"

definition tenant_set_status ::
  "'s usage_ops \<Rightarrow> platform_scope \<Rightarrow> pystr \<Rightarrow> pystr \<Rightarrow> pystr \<Rightarrow> instant \<Rightarrow> pystr \<Rightarrow> instant \<Rightarrow> 's \<Rightarrow>
   (service_error + tenant_record) \<times> 's" where
  "tenant_set_status ops scope tenant_ref status action now audit_id audit_at s =
     (case require_admin scope of
       Inl e \<Rightarrow> (Inl e, s)
     | Inr _ \<Rightarrow> (case get_tenant_registry_by_ref ops tenant_ref s of
         None \<Rightarrow> (Inl (TenantRegistryError (u ''tenant not found'')), s)
       | Some before \<Rightarrow>
           (case update_tenant_registry ops (tr_app_key before) None (Some status) now s of
             (None, s') \<Rightarrow> (Inl (TenantRegistryError (u ''tenant not found'')), s')
           | (Some after, s') \<Rightarrow> tenant_audit ops scope action (Some tenant_ref)
               [(u ''before'', PDict [(u ''status'', PStr (tr_status before))]),
                (u ''after'', PDict [(u ''status'', PStr (tr_status after))])] audit_id audit_at after s')))"

definition tenant_disable ::
  "'s usage_ops \<Rightarrow> platform_scope \<Rightarrow> pystr \<Rightarrow> instant \<Rightarrow> pystr \<Rightarrow> instant \<Rightarrow> 's \<Rightarrow>
   (service_error + tenant_record) \<times> 's" where
  "tenant_disable ops scope tenant_ref = tenant_set_status ops scope tenant_ref DISABLED (u ''tenant.disable'')"

definition tenant_enable ::
  "'s usage_ops \<Rightarrow> platform_scope \<Rightarrow> pystr \<Rightarrow> instant \<Rightarrow> pystr \<Rightarrow> instant \<Rightarrow> 's \<Rightarrow>
   (service_error + tenant_record) \<times> 's" where
  "tenant_enable ops scope tenant_ref = tenant_set_status ops scope tenant_ref ACTIVE (u ''tenant.enable'')"

definition tenant_is_disabled :: "'s usage_ops \<Rightarrow> pystr \<Rightarrow> 's \<Rightarrow> bool" where
  "tenant_is_disabled ops app_key s = (case get_tenant_registry ops app_key s of
     None \<Rightarrow> False | Some r \<Rightarrow> tr_status r = DISABLED)"

section \<open>tenant_registration.py and retention.py\<close>

definition register_seen ::
  "'s usage_ops \<Rightarrow> pystr \<Rightarrow> pystr \<Rightarrow> instant \<Rightarrow> 's \<Rightarrow> (service_error + pystr option) \<times> 's" where
  "register_seen ops app_key ref_token at' s =
     (let tenant_ref = generate_tenant_ref ref_token in
      case register_seen_tenant ops app_key tenant_ref (placeholder_name tenant_ref) at' s of
        Inl e \<Rightarrow> (Inl (StoreError e), s)
      | Inr (created, s') \<Rightarrow> (Inr (if created then Some tenant_ref else None), s'))"

definition AUDIT_RETENTION_DAYS :: int where "AUDIT_RETENTION_DAYS = 180"

record retention_run =
  rr_purged_audit :: nat
  rr_cutoff :: instant

definition retention_run_once :: "'s usage_ops \<Rightarrow> int \<Rightarrow> instant \<Rightarrow> 's \<Rightarrow> retention_run \<times> 's" where
  "retention_run_once ops days now s = (let cutoff = now - days * us_day in
     case purge_audit_before ops cutoff s of (purged, s') \<Rightarrow>
       (\<lparr>rr_purged_audit = purged, rr_cutoff = cutoff\<rparr>, s'))"

section \<open>Histories\<close>

text \<open>The commands that reach the registry, with their random and clock inputs.\<close>

datatype tenant_command =
    Create platform_scope pystr pystr "pystr option" pystr pystr instant pystr instant
  | Update platform_scope pystr "pystr option" "pystr option" instant pystr instant
  | Disable platform_scope pystr instant pystr instant
  | Enable platform_scope pystr instant pystr instant
  | FirstSeen pystr pystr instant
  | Retain int instant

fun run_command ::
  "'s usage_ops \<Rightarrow> stdlib \<Rightarrow> tenant_command \<Rightarrow> 's \<Rightarrow> (service_error + tenant_record option) \<times> 's" where
  "run_command ops std (Create scope name status key kt rt now aid aat) s =
     map_prod (map_sum id Some) id (tenant_create ops std scope name status key kt rt now aid aat s)"
| "run_command ops std (Update scope ref name status now aid aat) s =
     map_prod (map_sum id Some) id (tenant_update ops std scope ref name status now aid aat s)"
| "run_command ops std (Disable scope ref now aid aat) s =
     map_prod (map_sum id Some) id (tenant_disable ops scope ref now aid aat s)"
| "run_command ops std (Enable scope ref now aid aat) s =
     map_prod (map_sum id Some) id (tenant_enable ops scope ref now aid aat s)"
| "run_command ops std (FirstSeen key rt now) s =
     map_prod (map_sum id (\<lambda>_. None)) id (register_seen ops key rt now s)"
| "run_command ops std (Retain days now) s = (Inr None, snd (retention_run_once ops days now s))"

fun operator_of :: "tenant_command \<Rightarrow> platform_scope option" where
  "operator_of (Create scope name status key kt rt now aid aat) = Some scope"
| "operator_of (Update scope ref name status now aid aat) = Some scope"
| "operator_of (Disable scope ref now aid aat) = Some scope"
| "operator_of (Enable scope ref now aid aat) = Some scope"
| "operator_of c = None"

fun fresh_command :: "tenant_record list \<Rightarrow> audit_entry list \<Rightarrow> tenant_command \<Rightarrow> bool" where
  "fresh_command rows es (Create scope name status key kt rt now aid aat) \<longleftrightarrow>
     generate_tenant_ref rt \<notin> tr_tenant_ref ` set rows \<and> aid \<notin> ae_audit_id ` set es"
| "fresh_command rows es (Update scope ref name status now aid aat) \<longleftrightarrow> aid \<notin> ae_audit_id ` set es"
| "fresh_command rows es (Disable scope ref now aid aat) \<longleftrightarrow> aid \<notin> ae_audit_id ` set es"
| "fresh_command rows es (Enable scope ref now aid aat) \<longleftrightarrow> aid \<notin> ae_audit_id ` set es"
| "fresh_command rows es (FirstSeen key rt now) \<longleftrightarrow> generate_tenant_ref rt \<notin> tr_tenant_ref ` set rows"
| "fresh_command rows es (Retain days now) \<longleftrightarrow> True"

inductive tenant_history ::
  "'s usage_ops \<Rightarrow> stdlib \<Rightarrow> ('s \<Rightarrow> tenant_record list) \<Rightarrow> ('s \<Rightarrow> audit_entry list) \<Rightarrow> 's \<Rightarrow>
   tenant_command list \<Rightarrow> 's \<Rightarrow> bool"
  for ops std registry audits s where
  start: "tenant_history ops std registry audits s [] s"
| step: "tenant_history ops std registry audits s cs s' \<Longrightarrow> fresh_command (registry s') (audits s') c \<Longrightarrow>
    tenant_history ops std registry audits s (cs @ [c]) (snd (run_command ops std c s'))"

section \<open>What every command does\<close>

definition valid_statuses :: "tenant_record list \<Rightarrow> bool" where
  "valid_statuses rows \<longleftrightarrow> (\<forall>r \<in> set rows. tr_status r \<in> {ACTIVE, DISABLED})"

text \<open>A write by an operator: only an administrator, one row concerned, one audit entry that names the
  operator and the handle of that row.\<close>

definition audited_write ::
  "platform_scope \<Rightarrow> tenant_record \<Rightarrow> tenant_record list \<Rightarrow> audit_entry list \<Rightarrow> tenant_record list \<Rightarrow>
   audit_entry list \<Rightarrow> bool" where
  "audited_write scope r rows es rows' es' \<longleftrightarrow> ps_role scope = ADMIN \<and> r \<in> set rows' \<and>
     (\<exists>e. es' = es @ [e] \<and> ae_principal_id e = ps_principal_id scope \<and> ae_target e = Some (tr_tenant_ref r)) \<and>
     (\<forall>x. tr_app_key x \<noteq> tr_app_key r \<longrightarrow> (x \<in> set rows \<longleftrightarrow> x \<in> set rows'))"

text \<open>Every tenant stays, with its key, its handle and its creation time.\<close>

definition tenants_kept :: "tenant_record list \<Rightarrow> tenant_record list \<Rightarrow> bool" where
  "tenants_kept rows rows' \<longleftrightarrow> (\<forall>r \<in> set rows. \<exists>r' \<in> set rows'. tr_app_key r' = tr_app_key r \<and>
     tr_tenant_ref r' = tr_tenant_ref r \<and> tr_created_at r' = tr_created_at r)"

lemma tenants_kept_refl [simp]: "tenants_kept rows rows"
  by (auto simp: tenants_kept_def)

lemma tenants_kept_append: "tenants_kept rows (rows @ more')"
  by (auto simp: tenants_kept_def)

lemma tenants_kept_trans: "tenants_kept a b \<Longrightarrow> tenants_kept b c \<Longrightarrow> tenants_kept a c"
  unfolding tenants_kept_def by metis

definition touched :: "pystr \<Rightarrow> pystr option \<Rightarrow> pystr option \<Rightarrow> instant \<Rightarrow> tenant_record list \<Rightarrow> tenant_record list" where
  "touched k name status at' rows =
     map (\<lambda>r. if tr_app_key r = k then updated_tenant name status at' r else r) rows"

lemma tenants_kept_touched: "tenants_kept rows (touched k name status at' rows)"
  unfolding tenants_kept_def
proof
  fix r assume r: "r \<in> set rows"
  let ?r = "if tr_app_key r = k then updated_tenant name status at' r else r"
  have "?r \<in> set (touched k name status at' rows)"
    unfolding touched_def set_map by (rule imageI [OF r])
  then show "\<exists>r' \<in> set (touched k name status at' rows). tr_app_key r' = tr_app_key r \<and>
      tr_tenant_ref r' = tr_tenant_ref r \<and> tr_created_at r' = tr_created_at r"
    by (rule bexI [rotated]) simp
qed

lemma touched_others: "tr_app_key x \<noteq> k \<Longrightarrow> x \<in> set rows \<longleftrightarrow> x \<in> set (touched k name status at' rows)"
  by (auto simp: touched_def image_iff)

lemma valid_touched:
  "valid_statuses rows \<Longrightarrow> (\<And>x. status = Some x \<Longrightarrow> x \<in> {ACTIVE, DISABLED}) \<Longrightarrow>
    valid_statuses (touched k name status at' rows)"
  by (fastforce simp: valid_statuses_def touched_def updated_tenant_def split: option.splits if_splits)

context tenant_store
begin

text \<open>The outcome of an operator's command: an error leaves the store as it was, a success is an
  audited write.\<close>

definition outcome :: "platform_scope \<Rightarrow> 's \<Rightarrow> (service_error + tenant_record) \<times> 's \<Rightarrow> bool" where
  "outcome scope s res \<longleftrightarrow> (case fst res of
     Inl e \<Rightarrow> snd res = s
   | Inr r \<Rightarrow> consistent (snd res) \<and> tenants_kept (registry s) (registry (snd res)) \<and>
       (valid_statuses (registry s) \<longrightarrow> valid_statuses (registry (snd res))) \<and>
       audited_write scope r (registry s) (audits s) (registry (snd res)) (audits (snd res)))"

lemma audit_outcome:
  assumes "consistent s1" and "audits s1 = audits s" and "aid \<notin> ae_audit_id ` set (audits s)"
    and "ps_role scope = ADMIN" and "r \<in> set (registry s1)" and "tr_tenant_ref r = ref"
    and "tenants_kept (registry s) (registry s1)"
    and "valid_statuses (registry s) \<longrightarrow> valid_statuses (registry s1)"
    and "\<And>x. tr_app_key x \<noteq> tr_app_key r \<Longrightarrow> x \<in> set (registry s) \<longleftrightarrow> x \<in> set (registry s1)"
  shows "outcome scope s (tenant_audit ops scope action (Some ref) detail aid at' r s1)"
proof -
  let ?e = "\<lparr>ae_audit_id = aid, ae_principal_id = ps_principal_id scope, ae_action = action,
    ae_target = Some ref, ae_detail = detail, ae_created_at = at'\<rparr>"
  obtain s2 where s2: "record_audit ops ?e s1 = Inr s2" "consistent s2" "registry s2 = registry s1"
    "audits s2 = audits s1 @ [?e]"
    using audit_new [OF assms(1), of ?e] assms(2,3) by auto
  then have "audited_write scope r (registry s) (audits s) (registry s2) (audits s2)"
    using assms by (simp add: audited_write_def)
  then show ?thesis
    using s2 assms(7,8) by (simp add: outcome_def tenant_audit_def)
qed

lemma create_outcome:
  assumes ok: "consistent s" and ref: "generate_tenant_ref rt \<notin> tr_tenant_ref ` set (registry s)"
    and aid: "aid \<notin> ae_audit_id ` set (audits s)"
  shows "outcome scope s (tenant_create ops std scope name status key kt rt now aid aat s)"
proof (cases "rthen (require_admin scope)
    (rthen (guard_r (py_strip name \<noteq> []) (TenantRegistryError (u ''tenant_name must not be empty'')))
      (validate_status std status))")
  case (Inl e)
  then show ?thesis by (simp add: tenant_create_def outcome_def)
next
  case (Inr st)
  then have st: "st \<in> {ACTIVE, DISABLED}" and admin: "ps_role scope = ADMIN"
    by (auto simp: result_simps validate_status_def require_admin_def allows_manage_tenants_def split: if_splits)
  let ?given = "py_strip (case key of Some k \<Rightarrow> k | None \<Rightarrow> [])"
  let ?r = "\<lparr>tr_app_key = (if ?given \<noteq> [] then ?given else generate_app_key kt), tr_tenant_ref = generate_tenant_ref rt,
    tr_tenant_name = py_strip name, tr_status = st, tr_created_at = now, tr_updated_at = now\<rparr>"
  show ?thesis
  proof (cases "tr_app_key ?r \<in> tr_app_key ` set (registry s)")
    case True
    then show ?thesis
      using Inr create_taken [OF ok True] by (simp add: tenant_create_def outcome_def Let_def)
  next
    case False
    then obtain s1 where s1: "create_tenant_registry ops ?r s = Inr (True, s1)" "consistent s1"
      "registry s1 = registry s @ [?r]" "audits s1 = audits s"
      using create_new [OF ok False] ref by auto
    have "outcome scope s (tenant_audit ops scope (u ''tenant.create'') (Some (generate_tenant_ref rt))
        [(u ''tenant_name'', PStr (py_strip name)), (u ''status'', PStr st)] aid aat ?r s1)"
      by (rule audit_outcome) (use s1 aid admin st in \<open>auto simp: tenants_kept_append valid_statuses_def\<close>)
    then show ?thesis using Inr s1(1) by (simp add: tenant_create_def Let_def)
  qed
qed

lemma touch_outcome:
  assumes ok: "consistent s" and aid: "aid \<notin> ae_audit_id ` set (audits s)" and admin: "ps_role scope = ADMIN"
    and row: "find_row tr_tenant_ref ref (registry s) = Some before"
    and status: "\<And>x. status = Some x \<Longrightarrow> x \<in> {ACTIVE, DISABLED}"
  shows "\<exists>after s1. update_tenant_registry ops (tr_app_key before) name status now s = (Some after, s1) \<and>
    (\<forall>detail. outcome scope s (tenant_audit ops scope action (Some ref) detail aid aat after s1))"
proof -
  let ?k = "tr_app_key before" and ?after = "updated_tenant name status now before"
  have before: "before \<in> set (registry s)" "tr_tenant_ref before = ref"
    using find_row_Some [OF row] by auto
  then have "find_row tr_app_key ?k (registry s) = Some before"
    by (simp add: find_row_keyed [OF keys [OF ok]])
  then obtain s1 where s1: "update_tenant_registry ops ?k name status now s = (Some ?after, s1)"
    "consistent s1" "audits s1 = audits s" "registry s1 = touched ?k name status now (registry s)"
    using update_row [OF ok, of ?k name status now] by (auto simp: touched_def)
  have "outcome scope s (tenant_audit ops scope action (Some ref) detail aid aat ?after s1)" for detail
  proof (rule audit_outcome [OF s1(2,3) aid admin])
    show "?after \<in> set (registry s1)" using before s1(4) by (force simp: touched_def)
    show "tenants_kept (registry s) (registry s1)" by (simp add: s1(4) tenants_kept_touched)
    show "valid_statuses (registry s) \<longrightarrow> valid_statuses (registry s1)"
      using valid_touched [OF _ status] by (simp add: s1(4))
    show "x \<in> set (registry s) \<longleftrightarrow> x \<in> set (registry s1)" if "tr_app_key x \<noteq> tr_app_key ?after" for x
      using touched_others that by (simp add: s1(4))
  qed (use before in simp)
  with s1(1) show ?thesis by blast
qed

lemma update_outcome:
  assumes ok: "consistent s" and aid: "aid \<notin> ae_audit_id ` set (audits s)"
  shows "outcome scope s (tenant_update ops std scope ref name status now aid aat s)"
proof (cases "ps_role scope = ADMIN")
  case False
  then show ?thesis
    by (simp add: tenant_update_def require_admin_def allows_manage_tenants_def outcome_def)
next
  case admin: True
  then have req: "require_admin scope = Inr ()" by (simp add: require_admin_def allows_manage_tenants_def)
  show ?thesis
  proof (cases "find_row tr_tenant_ref ref (registry s)")
    case None
    then show ?thesis by (simp add: tenant_update_def req get_ref [OF ok] outcome_def)
  next
    case (Some before)
    let ?status = "case status of None \<Rightarrow> Inr None | Some x \<Rightarrow> map_sum id Some (validate_status std x)"
    let ?name = "map_option py_strip name"
    show ?thesis
    proof (cases "?name = Some [] \<or> (\<exists>e. ?status = Inl e)")
      case True
      then show ?thesis
        using Some by (auto simp: tenant_update_def req get_ref [OF ok] outcome_def Let_def)
    next
      case False
      then obtain st where st: "?status = Inr st" and nm: "?name \<noteq> Some []" by (cases ?status) auto
      have valid: "x \<in> {ACTIVE, DISABLED}" if "st = Some x" for x
        using st that by (auto simp: validate_status_def split: option.splits if_splits)
      obtain after s1 where "update_tenant_registry ops (tr_app_key before) ?name st now s = (Some after, s1)"
        "\<And>detail. outcome scope s (tenant_audit ops scope (u ''tenant.update'') (Some ref) detail aid aat after s1)"
        using touch_outcome [OF ok aid admin Some valid, where name = ?name and now = now and aat = aat] by blast
      then show ?thesis
        using Some st nm by (auto simp: tenant_update_def req get_ref [OF ok] Let_def)
    qed
  qed
qed

lemma set_status_outcome:
  assumes ok: "consistent s" and aid: "aid \<notin> ae_audit_id ` set (audits s)"
    and status: "status \<in> {ACTIVE, DISABLED}"
  shows "outcome scope s (tenant_set_status ops scope ref status action now aid aat s)"
proof (cases "ps_role scope = ADMIN \<and> find_row tr_tenant_ref ref (registry s) \<noteq> None")
  case False
  then show ?thesis
    by (auto simp: tenant_set_status_def require_admin_def allows_manage_tenants_def outcome_def get_ref [OF ok]
        guard_r_def)
next
  case True
  then obtain before where row: "find_row tr_tenant_ref ref (registry s) = Some before" by auto
  obtain after s1 where "update_tenant_registry ops (tr_app_key before) None (Some status) now s = (Some after, s1)"
    "\<And>detail. outcome scope s (tenant_audit ops scope action (Some ref) detail aid aat after s1)"
    using touch_outcome [OF ok aid _ row, where scope = scope and status = "Some status" and name = None
      and now = now and action = action and aat = aat] True status by blast
  then show ?thesis
    using True row
    by (simp add: tenant_set_status_def require_admin_def allows_manage_tenants_def get_ref [OF ok])
qed

theorem operator_commands_audited:
  assumes "consistent s" and "fresh_command (registry s) (audits s) c" and "operator_of c = Some scope"
  shows "case run_command ops std c s of (Inl e, s') \<Rightarrow> s' = s
    | (Inr r, s') \<Rightarrow> \<exists>x. r = Some x \<and> consistent s' \<and>
        audited_write scope x (registry s) (audits s) (registry s') (audits s')"
proof -
  have lift: "case map_prod (map_sum id Some) id res of (Inl e, s') \<Rightarrow> s' = s
    | (Inr r, s') \<Rightarrow> \<exists>x. r = Some x \<and> consistent s' \<and>
        audited_write scope x (registry s) (audits s) (registry s') (audits s')"
    if "outcome scope s res" for res :: "(service_error + tenant_record) \<times> 's"
    using that by (cases res; cases "fst res") (simp_all add: outcome_def)
  show ?thesis
    using assms
    by (cases c) (simp_all add: lift create_outcome update_outcome set_status_outcome tenant_disable_def
        tenant_enable_def)
qed

lemma command_step:
  assumes ok: "consistent s" and fresh: "fresh_command (registry s) (audits s) c"
    and valid: "valid_statuses (registry s)"
  shows "consistent (snd (run_command ops std c s)) \<and> valid_statuses (registry (snd (run_command ops std c s))) \<and>
    tenants_kept (registry s) (registry (snd (run_command ops std c s)))"
proof -
  have lift: "consistent (snd res) \<and> valid_statuses (registry (snd res)) \<and>
      tenants_kept (registry s) (registry (snd res))"
    if "outcome scope s res" for res scope
    using that ok valid by (cases "fst res") (simp_all add: outcome_def)
  show ?thesis
  proof (cases c)
    case (FirstSeen key rt now)
    show ?thesis
    proof (cases "key \<in> tr_app_key ` set (registry s)")
      case True
      then show ?thesis using ok valid FirstSeen by (simp add: register_seen_def register_taken Let_def)
    next
      case False
      obtain s1 where "register_seen_tenant ops key (generate_tenant_ref rt)
          (placeholder_name (generate_tenant_ref rt)) now s = Inr (True, s1)" "consistent s1"
        "registry s1 = registry s @ [\<lparr>tr_app_key = key, tr_tenant_ref = generate_tenant_ref rt,
          tr_tenant_name = placeholder_name (generate_tenant_ref rt), tr_status = u ''active'',
          tr_created_at = now, tr_updated_at = now\<rparr>]"
        using register_new [OF ok False] fresh FirstSeen by (metis fresh_command.simps(5))
      then show ?thesis
        using valid FirstSeen
        by (simp add: register_seen_def Let_def tenants_kept_append valid_statuses_def ACTIVE_def)
    qed
  next
    case (Retain days now)
    obtain s1 where "purge_audit_before ops (now - days * us_day) s =
        (length (filter (\<lambda>e. ae_created_at e < now - days * us_day) (audits s)), s1)" "consistent s1"
      "registry s1 = registry s"
      using purge [OF ok, of "now - days * us_day"] by blast
    then show ?thesis using valid Retain by (simp add: retention_run_once_def Let_def)
  qed (use fresh ok in \<open>simp_all add: lift [OF create_outcome] lift [OF update_outcome]
      lift [OF set_status_outcome] tenant_disable_def tenant_enable_def\<close>)
qed

theorem history_keeps_tenants:
  assumes "tenant_history ops std registry audits s cs s'" and "consistent s" and "valid_statuses (registry s)"
  shows "consistent s' \<and> valid_statuses (registry s') \<and> tenants_kept (registry s) (registry s')"
  using assms
proof induction
  case (step cs s' c)
  then show ?case using command_step [of s' c std] tenants_kept_trans by blast
qed simp

text \<open>Following the cursors of \<open>list\<close> shows every tenant of the scope once.\<close>

theorem listing_complete:
  assumes ok: "consistent s" and limit: "0 < limit"
  shows "walk_pages (Suc (length (registry s)))
      (\<lambda>c. map_sum id (\<lambda>p. (tp_items p, tp_next_cursor p))
        (tenant_list ops scope limit (case c of None \<Rightarrow> 0 | Some k \<Rightarrow> int k) s)) (Some 0) =
    Some (Inr (filter (\<lambda>r. covers_tenant scope (tr_app_key r)) (sort_key tr_created_at (registry s))))"
proof -
  let ?rows = "sort_key tr_created_at (registry s)"
  have page: "map_sum id (\<lambda>p. (tp_items p, tp_next_cursor p)) (tenant_list ops scope limit (int k) s) =
      Inr (map_prod (filter (\<lambda>r. covers_tenant scope (tr_app_key r))) id (offset_page limit k ?rows))" for k
    by (simp add: tenant_list_def list_page [OF ok] offset_page_def Let_def)
  have len: "length (registry s) = length ?rows" by simp
  show ?thesis
    unfolding len by (rule walk_offset_complete [OF limit]) (simp only: option.case page)
qed

end

section \<open>Properties\<close>

text \<open>
  \<^bold>\<open>C21\<close>.  Tenant management on the production store.  Whatever an operator sends (create, update,
  disable, enable), with fresh random identifiers: either the command is refused and the database is
  exactly as before, or the operator is an administrator, only the row of the returned tenant may
  differ, and exactly one audit entry was appended, naming the operator and the tenant's handle.
\<close>

theorem tenant_writes_audited:
  assumes "db_consistent d" and "fresh_command (ud_tenant_registry d) (ud_admin_audit d) c"
    and "operator_of c = Some scope"
  shows "case run_command (postgres_ops lower) std c d of
      (Inl e, d') \<Rightarrow> d' = d
    | (Inr r, d') \<Rightarrow> \<exists>x. r = Some x \<and> ps_role scope = ADMIN \<and> x \<in> set (ud_tenant_registry d') \<and>
        (\<exists>e. ud_admin_audit d' = ud_admin_audit d @ [e] \<and> ae_principal_id e = ps_principal_id scope \<and>
          ae_target e = Some (tr_tenant_ref x)) \<and>
        (\<forall>y. tr_app_key y \<noteq> tr_app_key x \<longrightarrow>
          (y \<in> set (ud_tenant_registry d) \<longleftrightarrow> y \<in> set (ud_tenant_registry d')))"
  using postgres.operator_commands_audited [OF assms, of lower std] unfolding audited_write_def
  by (simp split: prod.splits sum.splits) blast


text \<open>The in-memory store behaves the same way.\<close>

lemma memory_tenants_never_deleted:
  assumes "tenant_history (memory_ops lower) std (\<lambda>s. map snd (ms_tenant_registry s)) ms_audits s cs s'"
    and "memory_consistent s" and "valid_statuses (map snd (ms_tenant_registry s))"
  shows "memory_consistent s' \<and> valid_statuses (map snd (ms_tenant_registry s')) \<and>
    tenants_kept (map snd (ms_tenant_registry s)) (map snd (ms_tenant_registry s'))"
  by (rule memory.history_keeps_tenants [OF assms])

text \<open>Disabling is visible to the admission guard at once, and a registered key never
  overwrites the tenant it belongs to.\<close>

lemma disable_blocks:
  assumes ok: "db_consistent d" and r: "tenant_disable (postgres_ops lower) scope ref now aid aat d = (Inr r, d')"
    and fresh: "aid \<notin> ae_audit_id ` set (ud_admin_audit d)"
  shows "tenant_is_disabled (postgres_ops lower) (tr_app_key r) d'"
proof -
  have "postgres.outcome scope d (Inr r, d')"
    using postgres.set_status_outcome [OF ok fresh, of DISABLED scope lower ref "u ''tenant.disable''" now aat] r
    by (simp add: tenant_disable_def)
  then have d': "db_consistent d'" "r \<in> set (ud_tenant_registry d')"
    by (simp_all add: postgres.outcome_def audited_write_def)
  have "tr_status r = DISABLED"
    using r by (auto simp: tenant_disable_def tenant_set_status_def tenant_audit_def postgres_ops_def
        pg_update_tenant_registry_def update_where_def updated_tenant_def
        split: sum.splits option.splits list.splits)
  moreover have "find_row tr_app_key (tr_app_key r) (ud_tenant_registry d') = Some r"
    using d' by (simp add: find_row_keyed [OF postgres.keys])
  ultimately show ?thesis
    by (simp add: tenant_is_disabled_def postgres.get_key [OF d'(1)])
qed

section \<open>Witnesses\<close>

definition demo_tenant :: tenant_record where
  "demo_tenant = \<lparr>tr_app_key = u ''fac-1'', tr_tenant_ref = u ''t_1'', tr_tenant_name = u ''One'',
     tr_status = ACTIVE, tr_created_at = 1, tr_updated_at = 1\<rparr>"

definition demo_stat_db :: usage_db where
  "demo_stat_db = \<lparr>ud_interaction_fact = [], ud_llm_call_fact = [], ud_mes_call_fact = Some [],
     ud_mes_operation_category = Some [], ud_usage_hourly = [], ud_usage_daily = [], ud_admin_audit = [],
     ud_usage_export = [], ud_tenant_registry = [demo_tenant], ud_platform_principal = []\<rparr>"

definition demo_admin :: platform_scope where
  "demo_admin = \<lparr>ps_principal_id = u ''root'', ps_role = ADMIN, ps_tenant_ids = {}\<rparr>"

definition demo_disable :: tenant_command where
  "demo_disable = Disable demo_admin (u ''t_1'') 5 (u ''a1'') 5"

lemma demo_stat_ok:
  "db_consistent demo_stat_db" "valid_statuses (ud_tenant_registry demo_stat_db)"
  "fresh_command (ud_tenant_registry demo_stat_db) (ud_admin_audit demo_stat_db) demo_disable"
  "operator_of demo_disable = Some demo_admin"
  by (simp_all add: db_consistent_def demo_stat_db_def keyed_def valid_statuses_def demo_tenant_def
      demo_disable_def)

lemma demo_disable_run:
  "\<exists>r d'. run_command (postgres_ops id) demo_std demo_disable demo_stat_db = (Inr (Some r), d') \<and>
     tr_app_key r = u ''fac-1'' \<and> tr_status r = DISABLED"
  by (simp add: demo_disable_def tenant_disable_def tenant_set_status_def require_admin_def
      allows_manage_tenants_def demo_admin_def postgres_ops_def pg_get_tenant_registry_by_ref_def find_row_def
      demo_stat_db_def demo_tenant_def pg_update_tenant_registry_def update_where_def tenant_audit_def
      pg_record_audit_def insert_unique_def updated_tenant_def)

theorem tenant_writes_audited_witness:
  "\<exists>x d'. run_command (postgres_ops id) demo_std demo_disable demo_stat_db = (Inr (Some x), d') \<and>
     tr_status x = DISABLED \<and> ps_role demo_admin = ADMIN \<and>
     (\<exists>e. ud_admin_audit d' = ud_admin_audit demo_stat_db @ [e] \<and> ae_principal_id e = u ''root'' \<and>
        ae_target e = Some (tr_tenant_ref x))"
proof -
  obtain r d' where run: "run_command (postgres_ops id) demo_std demo_disable demo_stat_db = (Inr (Some r), d')"
    "tr_status r = DISABLED"
    using demo_disable_run by blast
  then show ?thesis
    using tenant_writes_audited [OF demo_stat_ok(1,3,4), of id demo_std] by (auto simp: demo_admin_def)
qed


end
