(* ===== verification/PlatformAuth.thy ===== *)
theory PlatformAuth
  imports Tenants SessionStore Strings
begin

text \<open>
  Operator accounts and bearer tokens of the statistics surface:
  \<^verbatim>\<open>statistics/platform_auth.py\<close>, with the request edge of
  \<^verbatim>\<open>statistics/api/security.py\<close>.

  The cryptographic and codec routines are the fields of the parameter \<open>authlib\<close>: the bcrypt
  hash and check (the check may raise, which is \<open>None\<close>), HMAC-SHA256 in hexadecimal, and JSON
  inside unpadded URL-safe Base64 with its decoder.  \<open>auth_laws\<close> collects what is documented
  of them.  \<open>hmac.compare_digest\<close> refuses strings with non-ASCII characters with a
  \<open>TypeError\<close>.  A number in a token body is an integer, as in every token the service issues; the
  floating-point numbers that \<^verbatim>\<open>json.loads\<close> also accepts are not modelled, among them
  \<^verbatim>\<open>NaN\<close>, an \<^verbatim>\<open>exp\<close> that never expires, which only the holder of the signing
  secret could sign.
\<close>

section \<open>Library\<close>

record authlib =
  al_hashpw :: "pystr \<Rightarrow> pystr \<Rightarrow> pystr"
  al_checkpw :: "pystr \<Rightarrow> pystr \<Rightarrow> bool option"
  al_hmac_hex :: "pystr \<Rightarrow> pystr \<Rightarrow> pystr"
  al_encode_body :: "payload \<Rightarrow> pystr"
  al_decode_body :: "pystr \<Rightarrow> pyval option"

datatype type_error = TypeError

definition is_ascii :: "pystr \<Rightarrow> bool" where "is_ascii s \<longleftrightarrow> (\<forall>c \<in> set s. c < 128)"

definition compare_digest :: "pystr \<Rightarrow> pystr \<Rightarrow> type_error + bool" where
  "compare_digest a b = (if is_ascii a \<and> is_ascii b then Inr (a = b) else Inl TypeError)"

section \<open>platform_auth.py\<close>

datatype account_error = AuthError pystr | AuthScopeError platform_scope_error | AuthStoreError store_error

definition hash_password :: "authlib \<Rightarrow> pystr \<Rightarrow> pystr \<Rightarrow> pystr" where
  "hash_password lib salt password = al_hashpw lib salt password"

definition verify_password :: "authlib \<Rightarrow> pystr \<Rightarrow> pystr \<Rightarrow> bool" where
  "verify_password lib password password_hash =
     (case al_checkpw lib password password_hash of Some b \<Rightarrow> b | None \<Rightarrow> False)"

definition sign_token :: "authlib \<Rightarrow> pystr \<Rightarrow> pystr \<Rightarrow> pystr" where
  "sign_token lib secret body = al_hmac_hex lib secret body"

definition TOKEN_SEPARATOR :: nat where "TOKEN_SEPARATOR = 46"

record principal_view =
  pv_principal_id :: pystr
  pv_username :: pystr
  pv_role :: pystr
  pv_tenant_scope :: "pystr list"
  pv_status :: pystr
  pv_created_at :: instant
  pv_updated_at :: instant

definition to_view :: "principal_record \<Rightarrow> principal_view" where
  "to_view r = \<lparr>pv_principal_id = pp_principal_id r, pv_username = pp_username r, pv_role = pp_role r,
     pv_tenant_scope = pp_tenant_scope r, pv_status = pp_status r, pv_created_at = pp_created_at r,
     pv_updated_at = pp_updated_at r\<rparr>"

text \<open>The constructor arguments of the service.\<close>

record auth_service =
  as_signing_secret :: pystr
  as_api_token :: "pystr option"
  as_token_ttl_seconds :: int

definition auth_register ::
  "'s usage_ops \<Rightarrow> authlib \<Rightarrow> stdlib \<Rightarrow> platform_scope \<Rightarrow> pystr \<Rightarrow> pystr \<Rightarrow> pystr \<Rightarrow> pystr list \<Rightarrow>
   pystr \<Rightarrow> instant \<Rightarrow> pystr \<Rightarrow> pystr \<Rightarrow> instant \<Rightarrow> 's \<Rightarrow> (account_error + principal_view) \<times> 's" where
  "auth_register ops lib std scope username password role' tenant_scope salt now principal_id audit_id audit_at s =
     (if \<not> allows_manage_tenants scope
      then (Inl (AuthScopeError (PlatformScopeError (u ''account registration requires the admin role''))), s)
      else case platform_role_parse (Some role') of
        None \<Rightarrow> (Inl (AuthError (u ''unsupported role '' @ std_repr std (PStr role'))), s)
      | Some role_value' \<Rightarrow>
        let normalized = py_strip username in
        if normalized = [] then (Inl (AuthError (u ''username must not be empty'')), s)
        else if length password < 8 then (Inl (AuthError (u ''password must be at least 8 characters'')), s)
        else let r = \<lparr>pp_principal_id = principal_id, pp_username = normalized,
               pp_password_hash = hash_password lib salt password, pp_role = platform_role_value role_value',
               pp_tenant_scope = sorted_list_of_set (set tenant_scope), pp_status = u ''active'',
               pp_created_at = now, pp_updated_at = now\<rparr> in
          (case create_principal ops r s of
            Inl e \<Rightarrow> (Inl (AuthStoreError e), s)
          | Inr (created, s') \<Rightarrow>
              if \<not> created then (Inl (AuthError (u ''username already exists'')), s')
              else (case record_audit ops \<lparr>ae_audit_id = audit_id, ae_principal_id = ps_principal_id scope,
                  ae_action = u ''principal.register'', ae_target = Some principal_id,
                  ae_detail = [(u ''username'', PStr normalized), (u ''role'', PStr (platform_role_value role_value')),
                    (u ''tenant_scope'', PList (map PStr (pp_tenant_scope r)))], ae_created_at = audit_at\<rparr> s' of
                Inl e \<Rightarrow> (Inl (AuthStoreError e), s')
              | Inr s'' \<Rightarrow> (Inr (to_view r), s''))))"

definition token_payload :: "principal_record \<Rightarrow> int \<Rightarrow> payload" where
  "token_payload p expires = [(u ''sub'', PStr (pp_principal_id p)), (u ''role'', PStr (pp_role p)),
     (u ''tenants'', PList (map PStr (pp_tenant_scope p))), (u ''exp'', PInt expires)]"

definition issue_token :: "authlib \<Rightarrow> auth_service \<Rightarrow> instant \<Rightarrow> principal_record \<Rightarrow> pystr" where
  "issue_token lib svc now p =
     (let expires = (now + as_token_ttl_seconds svc * us_second) div us_second;
          body = al_encode_body lib (token_payload p expires)
      in body @ [TOKEN_SEPARATOR] @ sign_token lib (as_signing_secret svc) body)"

definition audit_login_failure ::
  "'s usage_ops \<Rightarrow> pystr \<Rightarrow> pystr \<Rightarrow> instant \<Rightarrow> 's \<Rightarrow> (account_error + pystr) \<times> 's" where
  "audit_login_failure ops username audit_id at' s =
     (case record_audit ops \<lparr>ae_audit_id = audit_id, ae_principal_id = username,
        ae_action = u ''principal.login_failed'', ae_target = None,
        ae_detail = [(u ''username'', PStr username)], ae_created_at = at'\<rparr> s of
       Inl e \<Rightarrow> (Inl (AuthStoreError e), s)
     | Inr s' \<Rightarrow> (Inl (AuthError (u ''invalid username or password'')), s'))"

definition auth_login ::
  "'s usage_ops \<Rightarrow> authlib \<Rightarrow> auth_service \<Rightarrow> pystr \<Rightarrow> pystr \<Rightarrow> pystr \<Rightarrow> instant \<Rightarrow> 's \<Rightarrow>
   (account_error + pystr) \<times> 's" where
  "auth_login ops lib svc username password audit_id now s =
     (case get_principal_by_username ops (py_strip username) s of
       None \<Rightarrow> audit_login_failure ops username audit_id now s
     | Some p \<Rightarrow>
         if pp_status p \<noteq> u ''active'' then audit_login_failure ops username audit_id now s
         else if \<not> verify_password lib password (pp_password_hash p)
           then audit_login_failure ops username audit_id now s
         else (Inr (issue_token lib svc now p), s))"

definition expiry_of :: "payload \<Rightarrow> int option" where
  "expiry_of p = nullable_int (pget (u ''exp'') p)"

definition decode_token ::
  "authlib \<Rightarrow> auth_service \<Rightarrow> instant \<Rightarrow> pystr \<Rightarrow> type_error + payload option" where
  "decode_token lib svc now token = (case py_split TOKEN_SEPARATOR token of
     [body, signature] \<Rightarrow>
       rbind (compare_digest (sign_token lib (as_signing_secret svc) body) signature) (\<lambda>same.
         if \<not> same then Inr None
         else (case al_decode_body lib body of
           Some (PDict p) \<Rightarrow> (case expiry_of p of
               None \<Rightarrow> Inr None
             | Some expires \<Rightarrow> if expires * us_second \<le> now then Inr None else Inr (Some p))
         | _ \<Rightarrow> Inr None))
   | _ \<Rightarrow> Inr None)"

definition strings_of :: "pyval list \<Rightarrow> pystr list" where
  "strings_of items = concat (map (\<lambda>v. case v of PStr s \<Rightarrow> [s] | _ \<Rightarrow> []) items)"

definition scope_of_payload :: "stdlib \<Rightarrow> payload \<Rightarrow> platform_scope option" where
  "scope_of_payload std p =
     (case platform_role_parse (Some (case map_of p (u ''role'') of Some v \<Rightarrow> py_str std v | None \<Rightarrow> [])) of
       None \<Rightarrow> None
     | Some r \<Rightarrow> Some \<lparr>
         ps_principal_id = (case map_of p (u ''sub'') of Some v \<Rightarrow> py_str std v | None \<Rightarrow> u ''unknown''),
         ps_role = r,
         ps_tenant_ids = (case pget (u ''tenants'') p of PList items \<Rightarrow> set (strings_of items) | _ \<Rightarrow> {})\<rparr>)"

definition api_token_scope :: platform_scope where
  "api_token_scope = \<lparr>ps_principal_id = u ''api-token'', ps_role = ADMIN, ps_tenant_ids = {}\<rparr>"

definition resolve_token ::
  "authlib \<Rightarrow> stdlib \<Rightarrow> auth_service \<Rightarrow> instant \<Rightarrow> pystr \<Rightarrow> type_error + platform_scope option" where
  "resolve_token lib std svc now token =
     (if token = [] then Inr None
      else rbind (case as_api_token svc of None \<Rightarrow> Inr False | Some t \<Rightarrow> compare_digest token t) (\<lambda>api.
        if api then Inr (Some api_token_scope)
        else rbind (decode_token lib svc now token) (\<lambda>payload.
          Inr (case payload of None \<Rightarrow> None | Some p \<Rightarrow> scope_of_payload std p))))"

section \<open>api/security.py\<close>

datatype request_error = RequestScopeError platform_scope_error | RequestTypeError

text \<open>The argument is the \<open>Authorization\<close> header, empty when it is missing; lower-casing is
  a parameter.\<close>

definition resolve_request_scope ::
  "(pystr \<Rightarrow> pystr) \<Rightarrow> authlib \<Rightarrow> stdlib \<Rightarrow> auth_service \<Rightarrow> instant \<Rightarrow> pystr \<Rightarrow> request_error + platform_scope" where
  "resolve_request_scope lower lib std svc now authorization =
     (if \<not> prefix (u ''bearer '') (lower authorization)
      then Inl (RequestScopeError (PlatformScopeError (u ''bearer token is required'')))
      else case resolve_token lib std svc now (py_strip (drop 7 authorization)) of
        Inl TypeError \<Rightarrow> Inl RequestTypeError
      | Inr None \<Rightarrow> Inl (RequestScopeError (PlatformScopeError (u ''bearer token is invalid or expired'')))
      | Inr (Some scope) \<Rightarrow> Inr scope)"

section \<open>Tokens\<close>

definition auth_laws :: "authlib \<Rightarrow> bool" where
  "auth_laws lib \<longleftrightarrow>
     (\<forall>p e. al_decode_body lib (al_encode_body lib (token_payload p e)) = Some (PDict (token_payload p e))) \<and>
     (\<forall>p c. c \<in> set (al_encode_body lib p) \<longrightarrow> c < 128 \<and> c \<noteq> TOKEN_SEPARATOR) \<and>
     (\<forall>k b c. c \<in> set (al_hmac_hex lib k b) \<longrightarrow> c < 128 \<and> c \<noteq> TOKEN_SEPARATOR) \<and>
     (\<forall>salt pw. al_checkpw lib pw (al_hashpw lib salt pw) = Some True)"

lemma strings_of_map [simp]: "strings_of (map PStr xs) = xs"
  by (induction xs) (simp_all add: strings_of_def)

lemma scope_of_token:
  assumes "platform_role_parse (Some (pp_role p)) = Some r"
  shows "scope_of_payload std (token_payload p e) =
    Some \<lparr>ps_principal_id = pp_principal_id p, ps_role = r, ps_tenant_ids = set (pp_tenant_scope p)\<rparr>"
  using assms by (simp add: scope_of_payload_def token_payload_def pget_def)

lemma resolve_issued:
  assumes laws: "auth_laws lib" and api: "as_api_token svc = None \<or> (\<exists>t. as_api_token svc = Some t \<and> is_ascii t \<and>
      t \<noteq> issue_token lib svc now p)"
    and role': "platform_role_parse (Some (pp_role p)) = Some r"
  shows "resolve_token lib std svc now' (issue_token lib svc now p) =
    Inr (if now' < (now + as_token_ttl_seconds svc * us_second) div us_second * us_second
      then Some \<lparr>ps_principal_id = pp_principal_id p, ps_role = r, ps_tenant_ids = set (pp_tenant_scope p)\<rparr>
      else None)"
proof -
  let ?e = "(now + as_token_ttl_seconds svc * us_second) div us_second"
  let ?body = "al_encode_body lib (token_payload p ?e)"
  let ?sig = "al_hmac_hex lib (as_signing_secret svc) ?body"
  have token: "issue_token lib svc now p = ?body @ TOKEN_SEPARATOR # ?sig"
    by (simp add: issue_token_def Let_def sign_token_def)
  have body: "al_decode_body lib ?body = Some (PDict (token_payload p ?e))"
    and nosep: "TOKEN_SEPARATOR \<notin> set ?body" "TOKEN_SEPARATOR \<notin> set ?sig"
    using laws unfolding auth_laws_def by blast+
  have ascii: "is_ascii ?sig" "is_ascii ?body"
    using laws unfolding auth_laws_def is_ascii_def by blast+
  then have ascii_token: "is_ascii (issue_token lib svc now p)"
    unfolding token is_ascii_def by (auto simp: TOKEN_SEPARATOR_def)
  have expiry: "expiry_of (token_payload p ?e) = Some ?e"
    by (simp add: expiry_of_def token_payload_def pget_def)
  have "decode_token lib svc now' (issue_token lib svc now p) =
      Inr (if now' < ?e * us_second then Some (token_payload p ?e) else None)"
    using ascii by (simp add: decode_token_def token py_split_two [OF nosep] sign_token_def compare_digest_def
        body expiry not_less)
  moreover have "(case as_api_token svc of None \<Rightarrow> Inr False
      | Some t \<Rightarrow> compare_digest (issue_token lib svc now p) t) = Inr False"
    using api ascii_token by (auto simp: compare_digest_def)
  moreover have "issue_token lib svc now p \<noteq> []" by (simp add: token)
  ultimately show ?thesis
    by (simp add: resolve_token_def scope_of_token [OF role'])
qed

text \<open>
  \<^bold>\<open>C20\<close>.  No scope without a signature.  If a bearer token resolves to a scope, then either it is
  the configured API token (and the scope is the platform-wide administrator), or it consists of a body
  and the HMAC of that body under the service's secret, the body decodes to claims whose expiry is still
  in the future, and the scope is the one those claims state.  Under any library.
\<close>

theorem token_scope_sound:
  assumes "resolve_token lib std svc now token = Inr (Some scope)"
  shows "(as_api_token svc = Some token \<and> scope = api_token_scope) \<or>
    (\<exists>body p e. token = body @ [TOKEN_SEPARATOR] @ sign_token lib (as_signing_secret svc) body \<and>
      al_decode_body lib body = Some (PDict p) \<and> expiry_of p = Some e \<and> now < e * us_second \<and>
      scope_of_payload std p = Some scope)"
proof -
  obtain api where api: "(case as_api_token svc of None \<Rightarrow> Inr False | Some t \<Rightarrow> compare_digest token t) = Inr api"
    and rest: "(if api then Inr (Some api_token_scope)
        else rbind (decode_token lib svc now token) (\<lambda>payload.
          Inr (case payload of None \<Rightarrow> None | Some p \<Rightarrow> scope_of_payload std p))) = Inr (Some scope)"
    using assms by (auto simp: resolve_token_def result_simps split: if_splits)
  show ?thesis
  proof (cases api)
    case True
    then show ?thesis
      using api rest by (auto simp: compare_digest_def split: option.splits if_splits)
  next
    case False
    then obtain p where p: "decode_token lib svc now token = Inr (Some p)" "scope_of_payload std p = Some scope"
      using rest by (auto simp: result_simps split: option.splits)
    then obtain body sig where split: "py_split TOKEN_SEPARATOR token = [body, sig]"
      by (auto simp: decode_token_def split: list.splits)
    then have token: "token = body @ TOKEN_SEPARATOR # sig" by (rule py_split_two_eq)
    have "sig = sign_token lib (as_signing_secret svc) body \<and> al_decode_body lib body = Some (PDict p) \<and>
        (\<exists>e. expiry_of p = Some e \<and> now < e * us_second)"
      using p(1) by (auto simp: decode_token_def split compare_digest_def result_simps not_le
          split: if_splits option.splits pyval.splits)
    then show ?thesis using token p(2) by auto
  qed
qed

text \<open>
  A bearer token with a character outside ASCII makes the request fail with an
  unhandled \<open>TypeError\<close> when an API token is configured, instead of being refused as invalid.
\<close>

theorem non_ascii_token_raises:
  assumes "prefix (u ''bearer '') (lower authorization)" and "as_api_token svc = Some t"
    and "\<not> is_ascii (py_strip (drop 7 authorization))"
  shows "resolve_request_scope lower lib std svc now authorization = Inl RequestTypeError"
proof -
  have "py_strip (drop 7 authorization) \<noteq> []" using assms(3) by (auto simp: is_ascii_def)
  then have "resolve_token lib std svc now (py_strip (drop 7 authorization)) = Inl TypeError"
    using assms(2,3) by (simp add: resolve_token_def compare_digest_def)
  then show ?thesis using assms(1) by (simp add: resolve_request_scope_def)
qed

section \<open>Accounts\<close>

text \<open>What the account service relies on.\<close>

locale principal_store =
  fixes ops :: "'s usage_ops"
    and principals :: "'s \<Rightarrow> principal_record list"
    and principals_ok :: "'s \<Rightarrow> bool"
  assumes by_name: "principals_ok s \<Longrightarrow> get_principal_by_username ops name s = find_row pp_username name (principals s)"
    and create_taken: "principals_ok s \<Longrightarrow> pp_username p \<in> pp_username ` set (principals s) \<Longrightarrow>
      create_principal ops p s = Inr (False, s)"
    and create_new: "principals_ok s \<Longrightarrow> pp_username p \<notin> pp_username ` set (principals s) \<Longrightarrow>
      pp_principal_id p \<notin> pp_principal_id ` set (principals s) \<Longrightarrow>
      \<exists>s'. create_principal ops p s = Inr (True, s') \<and> principals_ok s' \<and> principals s' = principals s @ [p]"
    and audit_keeps: "principals_ok s \<Longrightarrow> record_audit ops e s = Inr s' \<Longrightarrow>
      principals_ok s' \<and> principals s' = principals s"
begin

lemma register_creates:
  assumes ok: "principals_ok s" and fresh: "principal_id \<notin> pp_principal_id ` set (principals s)"
    and reg: "auth_register ops lib std scope username password role' tenants salt now principal_id aid aat s =
      (Inr view, s')"
  obtains r rv where "principals_ok s'" "principals s' = principals s @ [r]" "ps_role scope = ADMIN"
    "platform_role_parse (Some role') = Some rv" "pp_username r = py_strip username"
    "pp_username r \<notin> pp_username ` set (principals s)"
    "pp_principal_id r = principal_id" "pp_password_hash r = hash_password lib salt password"
    "pp_role r = platform_role_value rv" "pp_tenant_scope r = sorted_list_of_set (set tenants)"
    "pp_status r = u ''active''" "view = to_view r"
proof -
  obtain rv where rv: "platform_role_parse (Some role') = Some rv"
    using reg by (auto simp: auth_register_def split: if_splits option.splits)
  let ?r = "\<lparr>pp_principal_id = principal_id, pp_username = py_strip username,
    pp_password_hash = hash_password lib salt password, pp_role = platform_role_value rv,
    pp_tenant_scope = sorted_list_of_set (set tenants), pp_status = u ''active'',
    pp_created_at = now, pp_updated_at = now\<rparr>"
  have admin: "ps_role scope = ADMIN"
    using reg by (auto simp: auth_register_def allows_manage_tenants_def split: if_splits)
  have new: "pp_username ?r \<notin> pp_username ` set (principals s)"
  proof
    assume "pp_username ?r \<in> pp_username ` set (principals s)"
    from create_taken [OF ok this] show False
      using reg rv by (auto simp: auth_register_def Let_def split: if_splits)
  qed
  obtain s1 where s1: "create_principal ops ?r s = Inr (True, s1)" "principals_ok s1"
    "principals s1 = principals s @ [?r]"
    using create_new [OF ok new] fresh by auto
  have "\<exists>e. record_audit ops e s1 = Inr s' \<and> view = to_view ?r"
    using reg rv s1(1) by (auto simp: auth_register_def Let_def split: if_splits sum.splits)
  then have "principals_ok s'" "principals s' = principals s @ [?r]" "view = to_view ?r"
    using audit_keeps [OF s1(2)] s1(3) by auto
  then show ?thesis using that [of ?r rv] admin rv new by simp
qed

theorem registered_operator:
  assumes ok: "principals_ok s" and fresh: "principal_id \<notin> pp_principal_id ` set (principals s)"
    and reg: "auth_register ops lib std scope username password role' tenants salt now principal_id aid aat s =
      (Inr view, s')"
    and laws: "auth_laws lib"
    and api: "\<And>t p. as_api_token svc = Some t \<Longrightarrow> is_ascii t \<and> t \<noteq> issue_token lib svc now1 p"
    and name: "py_strip username' = py_strip username"
  shows "\<exists>token rv. auth_login ops lib svc username' password aid1 now1 s' = (Inr token, s') \<and>
    ps_role scope = ADMIN \<and> platform_role_parse (Some role') = Some rv \<and>
    resolve_token lib std svc now2 token =
      Inr (if now2 < (now1 + as_token_ttl_seconds svc * us_second) div us_second * us_second
        then Some \<lparr>ps_principal_id = principal_id, ps_role = rv, ps_tenant_ids = set tenants\<rparr> else None)"
proof -
  obtain r rv where r: "principals_ok s'" "principals s' = principals s @ [r]" "ps_role scope = ADMIN"
    "platform_role_parse (Some role') = Some rv" "pp_username r = py_strip username"
    "pp_username r \<notin> pp_username ` set (principals s)"
    "pp_principal_id r = principal_id" "pp_password_hash r = hash_password lib salt password"
    "pp_role r = platform_role_value rv" "pp_tenant_scope r = sorted_list_of_set (set tenants)"
    "pp_status r = u ''active''"
    using register_creates [OF ok fresh reg] by metis
  have "find_row pp_username (py_strip username) (principals s') = Some r"
    using r(5,6) by (simp add: r(2) find_row_append find_row_None [THEN iffD2])
  then have row: "get_principal_by_username ops (py_strip username') s' = Some r"
    by (simp add: by_name [OF r(1)] name)
  have "verify_password lib password (pp_password_hash r)"
    using laws by (simp add: r(8) verify_password_def hash_password_def auth_laws_def)
  then have login: "auth_login ops lib svc username' password aid1 now1 s' = (Inr (issue_token lib svc now1 r), s')"
    using row r(11) by (simp add: auth_login_def)
  have parsed: "platform_role_parse (Some (pp_role r)) = Some rv"
    by (cases rv) (simp_all add: r(9) platform_role_parse_def)
  have api': "as_api_token svc = None \<or> (\<exists>t. as_api_token svc = Some t \<and> is_ascii t \<and> t \<noteq> issue_token lib svc now1 r)"
    using api by (cases "as_api_token svc") auto
  show ?thesis
    using login r(3,4) resolve_issued [OF laws api' parsed, of std now2] r(7,10) by auto
qed

end

definition memory_principals_ok :: "memory_store \<Rightarrow> bool" where
  "memory_principals_ok s \<longleftrightarrow> map fst (ms_principals s) = map (pp_principal_id \<circ> snd) (ms_principals s)"

interpretation memory_accounts: principal_store "memory_ops lower" "\<lambda>s. map snd (ms_principals s)"
  memory_principals_ok
proof
  fix s :: memory_store assume ok: "memory_principals_ok s"
  have "set (map fst (ms_principals s)) = set (map (pp_principal_id \<circ> snd) (ms_principals s))"
    using ok unfolding memory_principals_ok_def by (rule arg_cong)
  then have ids: "fst ` set (ms_principals s) = pp_principal_id ` set (map snd (ms_principals s))"
    by (simp add: image_image)
  show "get_principal_by_username (memory_ops lower) name s = find_row pp_username name (map snd (ms_principals s))" for name
    by (simp add: memory_ops_def mem_get_principal_by_username_def find_row_def)
  show "create_principal (memory_ops lower) p s = Inr (False, s)"
    if "pp_username p \<in> pp_username ` set (map snd (ms_principals s))" for p
    using that by (fastforce simp: memory_ops_def mem_create_principal_def)
  show "\<exists>s'. create_principal (memory_ops lower) p s = Inr (True, s') \<and> memory_principals_ok s' \<and>
      map snd (ms_principals s') = map snd (ms_principals s) @ [p]"
    if "pp_username p \<notin> pp_username ` set (map snd (ms_principals s))"
      and "pp_principal_id p \<notin> pp_principal_id ` set (map snd (ms_principals s))" for p
  proof -
    have "\<not> (\<exists>q \<in> snd ` set (ms_principals s). pp_username q = pp_username p)"
      using that(1) by (metis image_eqI list.set_map)
    moreover have "AList.update (pp_principal_id p) p (ms_principals s) =
        ms_principals s @ [(pp_principal_id p, p)]"
      using that(2) ids by (intro update_new_key) simp
    ultimately show ?thesis
      using ok by (simp add: memory_ops_def mem_create_principal_def memory_principals_ok_def)
  qed
  show "memory_principals_ok s' \<and> map snd (ms_principals s') = map snd (ms_principals s)"
    if "record_audit (memory_ops lower) e s = Inr s'" for e s'
    using that ok by (auto simp: memory_ops_def mem_record_audit_def memory_principals_ok_def)
qed

interpretation postgres_accounts: principal_store "postgres_ops lower" ud_platform_principal "\<lambda>d. True"
proof
  fix d :: usage_db
  show "get_principal_by_username (postgres_ops lower) name d = find_row pp_username name (ud_platform_principal d)" for name
    by (simp add: postgres_ops_def pg_get_principal_by_username_def)
  show "create_principal (postgres_ops lower) p d = Inr (False, d)"
    if "pp_username p \<in> pp_username ` set (ud_platform_principal d)" for p
    using that by (simp add: postgres_ops_def pg_create_principal_def insert_unique_def)
  show "\<exists>d'. create_principal (postgres_ops lower) p d = Inr (True, d') \<and> True \<and>
      ud_platform_principal d' = ud_platform_principal d @ [p]"
    if "pp_username p \<notin> pp_username ` set (ud_platform_principal d)"
      and "pp_principal_id p \<notin> pp_principal_id ` set (ud_platform_principal d)" for p
    using that by (simp add: postgres_ops_def pg_create_principal_def insert_unique_def)
  show "True \<and> ud_platform_principal d' = ud_platform_principal d"
    if "record_audit (postgres_ops lower) e d = Inr d'" for e d'
    using that by (auto simp: postgres_ops_def pg_record_audit_def result_simps)
qed

text \<open>
  From an account to its scope, on the production store.  If a registration succeeds, the
  caller was an administrator and the role is one of the three; logging in with the account's password
  (surrounding blanks of the name ignored) then yields a token, and this token resolves to exactly the
  principal, the role and the tenants that were registered until its expiry, and to nothing from then on.
\<close>

theorem registered_operator_scope:
  assumes "principal_id \<notin> pp_principal_id ` set (ud_platform_principal d)"
    and "auth_register (postgres_ops lower) lib std scope username password role' tenants salt now principal_id
      aid aat d = (Inr view, d')"
    and "auth_laws lib"
    and "\<And>t p. as_api_token svc = Some t \<Longrightarrow> is_ascii t \<and> t \<noteq> issue_token lib svc now1 p"
    and "py_strip username' = py_strip username"
  shows "\<exists>token rv. auth_login (postgres_ops lower) lib svc username' password aid1 now1 d' = (Inr token, d') \<and>
    ps_role scope = ADMIN \<and> platform_role_parse (Some role') = Some rv \<and>
    resolve_token lib std svc now2 token =
      Inr (if now2 < (now1 + as_token_ttl_seconds svc * us_second) div us_second * us_second
        then Some \<lparr>ps_principal_id = principal_id, ps_role = rv, ps_tenant_ids = set tenants\<rparr> else None)"
  by (rule postgres_accounts.registered_operator [OF TrueI assms])

section \<open>Witnesses\<close>

text \<open>A toy library that satisfies the laws: bodies are written in unary.\<close>

definition demo_auth :: authlib where
  "demo_auth = \<lparr>al_hashpw = (\<lambda>salt pw. pw), al_checkpw = (\<lambda>pw h. Some (pw = h)), al_hmac_hex = (\<lambda>k b. u ''f0''),
     al_encode_body = (\<lambda>p. replicate (to_nat p) 97), al_decode_body = (\<lambda>s. Some (PDict (from_nat (length s))))\<rparr>"

definition demo_service :: auth_service where
  "demo_service = \<lparr>as_signing_secret = u ''k'', as_api_token = None, as_token_ttl_seconds = 28800\<rparr>"

lemma demo_auth_laws: "auth_laws demo_auth"
  by (simp add: auth_laws_def demo_auth_def u_def TOKEN_SEPARATOR_def)

lemma demo_register:
  "\<exists>view d'. auth_register (postgres_ops id) demo_auth demo_std demo_admin (u ''ann'') (u ''password'') (u ''viewer'')
     [u ''fac-1''] [] 5 (u ''p1'') (u ''a1'') 5 demo_stat_db = (Inr view, d')"
  by (simp add: auth_register_def demo_admin_def allows_manage_tenants_def platform_role_parse_def str_eval
      postgres_ops_def pg_create_principal_def insert_unique_def demo_stat_db_def pg_record_audit_def Let_def)

theorem registered_operator_scope_witness:
  "\<exists>view d' token. auth_register (postgres_ops id) demo_auth demo_std demo_admin (u ''ann'') (u ''password'')
     (u ''viewer'') [u ''fac-1''] [] 5 (u ''p1'') (u ''a1'') 5 demo_stat_db = (Inr view, d') \<and>
     auth_login (postgres_ops id) demo_auth demo_service (u ''ann'') (u ''password'') (u ''a2'') 7 d' = (Inr token, d') \<and>
     resolve_token demo_auth demo_std demo_service 8 token =
       Inr (Some \<lparr>ps_principal_id = u ''p1'', ps_role = VIEWER, ps_tenant_ids = {u ''fac-1''}\<rparr>)"
proof -
  obtain view d' where reg: "auth_register (postgres_ops id) demo_auth demo_std demo_admin (u ''ann'')
      (u ''password'') (u ''viewer'') [u ''fac-1''] [] 5 (u ''p1'') (u ''a1'') 5 demo_stat_db = (Inr view, d')"
    using demo_register by blast
  have fresh: "u ''p1'' \<notin> pp_principal_id ` set (ud_platform_principal demo_stat_db)"
    by (simp add: demo_stat_db_def)
  have "\<exists>token rv. auth_login (postgres_ops id) demo_auth demo_service (u ''ann'') (u ''password'') (u ''a2'') 7 d' =
      (Inr token, d') \<and> ps_role demo_admin = ADMIN \<and> platform_role_parse (Some (u ''viewer'')) = Some rv \<and>
      resolve_token demo_auth demo_std demo_service 8 token =
        Inr (if 8 < (7 + as_token_ttl_seconds demo_service * us_second) div us_second * us_second
          then Some \<lparr>ps_principal_id = u ''p1'', ps_role = rv, ps_tenant_ids = set [u ''fac-1'']\<rparr> else None)"
    by (rule registered_operator_scope [OF fresh reg demo_auth_laws]) (simp_all add: demo_service_def)
  then show ?thesis
    using reg by (auto simp: demo_service_def us_defs platform_role_parse_def)
qed

theorem token_scope_sound_witness:
  "\<exists>token scope. resolve_token demo_auth demo_std demo_service 8 token = Inr (Some scope) \<and>
     (\<exists>body p e. token = body @ [TOKEN_SEPARATOR] @ sign_token demo_auth (u ''k'') body \<and>
       al_decode_body demo_auth body = Some (PDict p) \<and> expiry_of p = Some e \<and> 8 < e * us_second \<and>
       scope_of_payload demo_std p = Some scope)"
proof -
  let ?p = "\<lparr>pp_principal_id = u ''p1'', pp_username = u ''ann'', pp_password_hash = [], pp_role = u ''viewer'',
    pp_tenant_scope = [], pp_status = u ''active'', pp_created_at = 1, pp_updated_at = 1\<rparr>"
  have "resolve_token demo_auth demo_std demo_service 8 (issue_token demo_auth demo_service 7 ?p) =
      Inr (Some \<lparr>ps_principal_id = u ''p1'', ps_role = VIEWER, ps_tenant_ids = {}\<rparr>)"
    by (subst resolve_issued [OF demo_auth_laws, where r = VIEWER])
      (simp_all add: demo_service_def platform_role_parse_def us_defs)
  moreover have "as_api_token demo_service \<noteq> Some token" "as_signing_secret demo_service = u ''k''" for token
    by (simp_all add: demo_service_def)
  ultimately show ?thesis using token_scope_sound by metis
qed

theorem non_ascii_token_raises_witness:
  "resolve_request_scope id demo_auth demo_std (demo_service\<lparr>as_api_token := Some (u ''key'')\<rparr>) 8
     (u ''bearer '' @ [233]) = Inl RequestTypeError"
  by (rule non_ascii_token_raises [where t = "u ''key''"]) (simp_all add: str_eval is_ascii_def)

end
