(* ===== verification/Ops.thy ===== *)
theory Ops
  imports StatStore
begin

text \<open>
  The platform reports: \<^verbatim>\<open>statistics/ops.py\<close> and \<^verbatim>\<open>statistics/mes_categories.py\<close>.

  Every report takes the store's operations, the service's settings, the caller's scope and the
  window.  A \<open>defaultdict(float)\<close> that is only added to and read is the dictionary of its sums
  (\<open>sum_dict\<close>); a nested one is keyed by the pair of its keys.  A \<open>datetime\<close> read from the
  database carries the zone of the connection: \<open>os_utc_offset\<close> is that zone's offset in
  microseconds, which only \<open>store.hour_bucket\<close> looks at.

  The locale \<open>usage_reader\<close> is what the reports rely on: a reader asked for a set of tenants
  looks at no other rows.  It is interpreted on both stores.
\<close>

section \<open>mes_categories.py\<close>

definition CATEGORY_OUTPUT :: pystr where "CATEGORY_OUTPUT = u ''output''"
definition CATEGORY_PAYROLL :: pystr where "CATEGORY_PAYROLL = u ''payroll''"
definition CATEGORY_ORDER :: pystr where "CATEGORY_ORDER = u ''order''"
definition CATEGORY_OTHER :: pystr where "CATEGORY_OTHER = u ''other''"

definition CATEGORY_ORDERING :: "pystr list" where
  "CATEGORY_ORDERING = [CATEGORY_OUTPUT, CATEGORY_PAYROLL, CATEGORY_ORDER, CATEGORY_OTHER]"

definition DEFAULT_OPERATION_CATEGORIES :: "(pystr, pystr) dict" where
  "DEFAULT_OPERATION_CATEGORIES =
     [(u ''BarcodeClQuery'', CATEGORY_OUTPUT), (u ''HuohaoWtCLQuery'', CATEGORY_OUTPUT),
      (u ''PinFengGridPageList'', CATEGORY_OUTPUT), (u ''WorktypeProgressQuery'', CATEGORY_OUTPUT),
      (u ''YskQuery'', CATEGORY_OUTPUT), (u ''WskQuery'', CATEGORY_OUTPUT),
      (u ''GongziClQuery'', CATEGORY_PAYROLL), (u ''GongziMxQuery'', CATEGORY_PAYROLL),
      (u ''GongziJeOrderQuery'', CATEGORY_PAYROLL),
      (u ''PlanGridPageList'', CATEGORY_ORDER), (u ''SclzdGridPageList'', CATEGORY_ORDER),
      (u ''SclzdWorktypeQuery'', CATEGORY_ORDER), (u ''SclzdBarcodeQuery'', CATEGORY_ORDER),
      (u ''ScjdQuery'', CATEGORY_ORDER), (u ''ScjdDetailQuery'', CATEGORY_ORDER),
      (u ''ScjdGxQuery'', CATEGORY_ORDER), (u ''ScjdFzHzQuery'', CATEGORY_ORDER),
      (u ''SystemToken'', CATEGORY_OTHER), (u ''TestPermissions'', CATEGORY_OTHER),
      (u ''UserInfoQuery'', CATEGORY_OTHER), (u ''MoveMenuQuery'', CATEGORY_OTHER),
      (u ''HuohaoQuery'', CATEGORY_OTHER), (u ''HuohaoFormQuery'', CATEGORY_OTHER),
      (u ''ScTypeQuery'', CATEGORY_OTHER), (u ''RfidWorktypeQuery'', CATEGORY_OTHER),
      (u ''HuohaoWorktypeQuery'', CATEGORY_OTHER), (u ''EmployeeQuery'', CATEGORY_OTHER),
      (u ''DeptQuery'', CATEGORY_OTHER), (u ''DgGridPageList'', CATEGORY_OTHER),
      (u ''DgZuGridPageList'', CATEGORY_OTHER), (u ''DgClQuery'', CATEGORY_OTHER)]"

definition default_category :: "(pystr, pystr) dict \<Rightarrow> pystr \<Rightarrow> pystr" where
  "default_category defaults oid = (case map_of defaults oid of Some c \<Rightarrow> c | None \<Rightarrow> CATEGORY_OTHER)"

definition category_for ::
  "'s usage_ops \<Rightarrow> (pystr, pystr) dict \<Rightarrow> pystr \<Rightarrow> 's \<Rightarrow> pystr" where
  "category_for ops defaults oid s =
     (case find (\<lambda>row. oc_operation_id row = oid) (list_mes_operation_categories ops s) of
       Some row \<Rightarrow> oc_category row | None \<Rightarrow> default_category defaults oid)"

definition by_operation :: "mes_operation_category list \<Rightarrow> (pystr, pystr) dict" where
  "by_operation rows = fold (\<lambda>row d. AList.update (oc_operation_id row) (oc_category row) d) rows []"

definition categories_for ::
  "'s usage_ops \<Rightarrow> (pystr, pystr) dict \<Rightarrow> pystr set \<Rightarrow> 's \<Rightarrow> pystr \<rightharpoonup> pystr" where
  "categories_for ops defaults oids s = (\<lambda>oid. if oid \<in> oids
     then Some (case map_of (by_operation (list_mes_operation_categories ops s)) oid of
       Some c \<Rightarrow> c | None \<Rightarrow> default_category defaults oid)
     else None)"

section \<open>ops.py: settings and views\<close>

definition DURATION_METRICS :: "pystr list" where
  "DURATION_METRICS = [u ''e2e_duration_ms'', u ''mes_duration_ms'', u ''llm_duration_ms'', u ''local_duration_ms'']"

definition STATUS_METRICS :: "pystr list" where
  "STATUS_METRICS = [u ''status.completed'', u ''status.failed'', u ''status.cancelled'', u ''status.rejected'']"

definition TOKEN_METRICS :: "pystr list" where
  "TOKEN_METRICS = [u ''prompt_tokens'', u ''completion_tokens'', u ''cached_tokens'', u ''reasoning_tokens'']"

definition MES_METRICS :: "pystr list" where
  "MES_METRICS = [u ''mes_output'', u ''mes_payroll'', u ''mes_order'', u ''mes_other'']"

definition ADDITIVE_METRICS :: "pystr list" where
  "ADDITIVE_METRICS = [u ''users'', u ''questions'', u ''valid_questions''] @ STATUS_METRICS @
     [u ''llm_logical_calls'', u ''llm_physical_attempts''] @ TOKEN_METRICS @ MES_METRICS"

definition INTERACTION_DIMENSIONS :: "(pystr, interaction_fact \<Rightarrow> pystr option) dict" where
  "INTERACTION_DIMENSIONS = [(u ''capability'', fi_capability_id), (u ''status'', fi_status),
     (u ''entrypoint'', fi_entrypoint), (u ''role_category'', fi_role_category),
     (u ''error_category'', fi_error_category)]"

definition LLM_DIMENSIONS :: "(pystr, llm_call_fact \<Rightarrow> pystr option) dict" where
  "LLM_DIMENSIONS = [(u ''model_alias'', \<lambda>f. Some (fl_model_alias f)), (u ''actual_model'', \<lambda>f. Some (fl_actual_model f)),
     (u ''stage'', \<lambda>f. Some (fl_stage f)), (u ''fallback_reason'', fl_fallback_reason),
     (u ''error_category'', fl_error_category)]"

definition PERCENTILE_METHOD :: pystr where "PERCENTILE_METHOD = u ''percentile-cont-v1''"

datatype ops_error = OpsQueryError pystr | OpsScopeError platform_scope_error | OpsIndexError

record ops_limits =
  ol_max_span_days :: int
  ol_max_dimension_rows :: nat
  ol_user_page_size :: nat
  ol_user_page_max :: nat
  ol_timeseries_max_buckets :: nat
  ol_rollup_lag_tolerance :: int

definition DEFAULT_OPS_LIMITS :: ops_limits where
  "DEFAULT_OPS_LIMITS = \<lparr>ol_max_span_days = 366, ol_max_dimension_rows = 1000, ol_user_page_size = 50,
     ol_user_page_max = 200, ol_timeseries_max_buckets = 10000, ol_rollup_lag_tolerance = 600 * us_second\<rparr>"

record ops_service =
  os_timezone_name :: pystr
  os_limits :: ops_limits
  os_defaults :: "(pystr, pystr) dict"
  os_utc_offset :: int

record duration_stats =
  ds_count :: int
  ds_mean_ms :: "real option"
  ds_p50_ms :: "real option"
  ds_p95_ms :: "real option"
  ds_p99_ms :: "real option"

text \<open>The fields every view shares, then the views.\<close>

record ops_view =
  vw_tenant_ids :: "pystr list"
  vw_start :: instant
  vw_end :: instant
  vw_metric_version :: pystr
  vw_timezone :: pystr

record summary_view = ops_view +
  sv_users :: nat
  sv_questions :: int
  sv_valid_questions :: int
  sv_status :: "(pystr, int) dict"
  sv_llm_logical_calls :: nat
  sv_llm_physical_attempts :: int
  sv_tokens :: "(pystr, int) dict"
  sv_durations :: "(pystr, duration_stats) dict"
  sv_freshness :: "instant option"
  sv_incomplete :: bool

record timeseries_point =
  pt_bucket :: instant
  pt_metrics :: "(pystr, real) dict"

record timeseries_view = ops_view +
  tv_granularity :: granularity
  tv_points :: "timeseries_point list"
  tv_incomplete :: bool

record dimensions_view = ops_view +
  dv_dimension :: pystr
  dv_values :: "(pystr, real) dict"
  dv_truncated :: bool

record user_activity =
  ua_user_subject_id :: pystr
  ua_question_count :: nat

record users_page = ops_view +
  up_items :: "user_activity list"
  up_total :: nat
  up_next_cursor :: "nat option"

record mes_categories_view = ops_view +
  mv_categories :: "(pystr, nat) dict"
  mv_total :: nat
  mv_incomplete :: bool

record mes_failures_view = ops_view +
  fv_categories :: "(pystr, nat) dict"
  fv_by_error :: "(pystr, nat) dict"
  fv_total :: nat

record values_view = ops_view +
  xv_values :: "(pystr, real) dict"
  xv_truncated :: bool

record model_totals =
  mo_calls :: int
  mo_prompt_tokens :: int
  mo_completion_tokens :: int
  mo_cached_tokens :: int
  mo_reasoning_tokens :: int

record models_view = ops_view +
  lv_values :: "(pystr, model_totals) dict"

record by_tenant_item =
  bi_app_key :: pystr
  bi_tenant_name :: "pystr option"
  bi_status :: "pystr option"
  bi_token_total :: int
  bi_question_count :: int
  bi_mes_output :: nat
  bi_mes_payroll :: nat
  bi_mes_order :: nat
  bi_mes_other :: nat
  bi_last_usage_at :: "instant option"

record by_tenant_page = ops_view +
  bp_items :: "by_tenant_item list"
  bp_total :: nat
  bp_next_cursor :: "nat option"

record tenant_option =
  to_tenant_ref :: pystr
  to_tenant_name :: pystr

section \<open>ops.py: helpers\<close>

definition get0 :: "('k, 'v::zero) dict \<Rightarrow> 'k \<Rightarrow> 'v" where
  "get0 d k = (case map_of d k of Some v \<Rightarrow> v | None \<Rightarrow> 0)"

definition sum_dict :: "('k \<times> 'v::comm_monoid_add) list \<Rightarrow> ('k, 'v) dict" where
  "sum_dict incs = fold (\<lambda>(k, v) d. AList.update k (get0 d k + v) d) incs []"

definition py_int :: "real \<Rightarrow> int" where
  "py_int x = (if 0 \<le> x then \<lfloor>x\<rfloor> else \<lceil>x\<rceil>)"

definition metric_version :: pystr where
  "metric_version = u ''rollup='' @ ROLLUP_VERSION @ u '';p='' @ PERCENTILE_METHOD"

definition view_of :: "ops_service \<Rightarrow> pystr set \<Rightarrow> instant \<Rightarrow> instant \<Rightarrow> ops_view" where
  "view_of svc tenants start end' = \<lparr>vw_tenant_ids = sorted_list_of_set tenants, vw_start = start, vw_end = end',
     vw_metric_version = metric_version, vw_timezone = os_timezone_name svc\<rparr>"

definition check_range :: "ops_service \<Rightarrow> instant \<Rightarrow> instant \<Rightarrow> ops_error + unit" where
  "check_range svc start end' =
     (if start \<ge> end' then Inl (OpsQueryError (u ''time range must have start before end''))
      else if end' - start > ol_max_span_days (os_limits svc) * us_day
        then Inl (OpsQueryError (u ''time range exceeds the '' @ decimal_int (ol_max_span_days (os_limits svc)) @
          u ''-day span budget''))
      else Inr ())"

definition clamp_page :: "ops_service \<Rightarrow> int option \<Rightarrow> ops_error + nat" where
  "clamp_page svc limit = (case limit of
     None \<Rightarrow> Inr (ol_user_page_size (os_limits svc))
   | Some n \<Rightarrow> if n < 1 then Inl (OpsQueryError (u ''page size must be at least 1''))
       else Inr (min (nat n) (ol_user_page_max (os_limits svc))))"

definition mean_ms :: "(pystr, real) dict \<Rightarrow> pystr \<Rightarrow> real option" where
  "mean_ms totals metric = (let count = get0 totals (metric @ u ''.count'') in
     if count \<le> 0 then None else Some (get0 totals metric / count))"

definition rollup_behind :: "rollup_row list \<Rightarrow> instant option \<Rightarrow> int \<Rightarrow> bool" where
  "rollup_behind rows freshness tolerance = (case freshness of
     None \<Rightarrow> False
   | Some f \<Rightarrow> if rows = [] then True else Max (set (map rw_rolled_up_at rows)) < f - tolerance)"

definition empty_categories :: "(pystr, nat) dict" where
  "empty_categories = map (\<lambda>c. (c, 0)) CATEGORY_ORDERING"

text \<open>\<open>store.hour_bucket\<close> relabels the wall clock of the connection's zone as UTC; the day
  bucket converts to UTC first.\<close>

definition store_hour_bucket :: "int \<Rightarrow> instant \<Rightarrow> instant" where
  "store_hour_bucket utc_offset t = (t + utc_offset) div us_hour * us_hour"

definition bucket_start :: "int \<Rightarrow> instant \<Rightarrow> granularity \<Rightarrow> instant" where
  "bucket_start utc_offset t g = (case g of HOUR \<Rightarrow> store_hour_bucket utc_offset t | DAY \<Rightarrow> midnight t)"

definition resolve_ref :: "platform_scope \<Rightarrow> (pystr, pystr) dict \<Rightarrow> pystr \<Rightarrow> ops_error + pystr" where
  "resolve_ref scope by_ref tenant_ref = (case map_of by_ref tenant_ref of
     None \<Rightarrow> Inl (OpsQueryError (u ''unknown tenant_ref: '' @ tenant_ref))
   | Some app_key \<Rightarrow> if covers_tenant scope app_key then Inr app_key
       else Inl (OpsScopeError (PlatformScopeError (u ''requested tenant set exceeds the platform scope''))))"

definition registry_by_key :: "tenant_record list \<Rightarrow> (pystr, tenant_record) dict" where
  "registry_by_key rs = fold (\<lambda>r d. AList.update (tr_app_key r) r d) rs []"

definition registry_by_ref :: "tenant_record list \<Rightarrow> (pystr, pystr) dict" where
  "registry_by_ref rs = fold (\<lambda>r d. AList.update (tr_tenant_ref r) (tr_app_key r) d) rs []"

definition tenant_ids ::
  "'s usage_ops \<Rightarrow> platform_scope \<Rightarrow> instant \<Rightarrow> instant \<Rightarrow> pystr option \<Rightarrow> 's \<Rightarrow> ops_error + pystr set" where
  "tenant_ids ops scope start end' tenant_ref s =
     (let base = (if ps_tenant_ids scope \<noteq> {} then ps_tenant_ids scope else set (list_tenants ops start end' s)) in
      case tenant_ref of
        None \<Rightarrow> Inr base
      | Some ref \<Rightarrow> rbind (resolve_ref scope (registry_by_ref (list_all_tenant_registry ops s)) ref)
          (\<lambda>k. Inr ({k} \<inter> base)))"

text \<open>The common head of the reports: the range check, the tenant set, the empty answer.\<close>

definition with_tenants ::
  "'s usage_ops \<Rightarrow> ops_service \<Rightarrow> platform_scope \<Rightarrow> instant \<Rightarrow> instant \<Rightarrow> pystr option \<Rightarrow> 's \<Rightarrow> 'v \<Rightarrow>
   (pystr set \<Rightarrow> ops_error + 'v) \<Rightarrow> ops_error + 'v" where
  "with_tenants ops svc scope start end' tenant_ref s nothing body =
     rthen (check_range svc start end') (rbind (tenant_ids ops scope start end' tenant_ref s)
       (\<lambda>tenants. if tenants = {} then Inr nothing else body tenants))"

section \<open>ops.py: reports\<close>

definition ops_list_tenants ::
  "'s usage_ops \<Rightarrow> ops_service \<Rightarrow> platform_scope \<Rightarrow> instant \<Rightarrow> instant \<Rightarrow> 's \<Rightarrow> ops_error + tenant_option list" where
  "ops_list_tenants ops svc scope start end' s = rthen (check_range svc start end')
     (let visible = filter (covers_tenant scope) (list_tenants ops start end' s);
          by_key = registry_by_key (list_all_tenant_registry ops s) in
      Inr (concat (map (\<lambda>t. case map_of by_key t of None \<Rightarrow> []
        | Some r \<Rightarrow> [\<lparr>to_tenant_ref = tr_tenant_ref r, to_tenant_name = tr_tenant_name r\<rparr>]) visible)))"

definition duration_stats_of :: "(pystr, real) dict \<Rightarrow> percentiles \<Rightarrow> pystr \<Rightarrow> duration_stats" where
  "duration_stats_of totals ps metric =
     (let p = (case map_of ps metric of Some d \<Rightarrow> d | None \<Rightarrow> []);
          q = (\<lambda>k. case map_of p k of Some v \<Rightarrow> v | None \<Rightarrow> None) in
      \<lparr>ds_count = py_int (get0 totals (metric @ u ''.count'')), ds_mean_ms = mean_ms totals metric,
       ds_p50_ms = q (u ''50''), ds_p95_ms = q (u ''95''), ds_p99_ms = q (u ''99'')\<rparr>)"

definition empty_summary :: "ops_service \<Rightarrow> instant \<Rightarrow> instant \<Rightarrow> summary_view" where
  "empty_summary svc start end' = ops_view.extend (view_of svc {} start end')
     (summary_view.fields 0 0 0 (map (\<lambda>l. (l, 0)) STATUS_METRICS) 0 0 (map (\<lambda>l. (l, 0)) TOKEN_METRICS)
       (map (\<lambda>m. (m, \<lparr>ds_count = 0, ds_mean_ms = None, ds_p50_ms = None, ds_p95_ms = None, ds_p99_ms = None\<rparr>))
         DURATION_METRICS) None False)"

definition summary ::
  "'s usage_ops \<Rightarrow> ops_service \<Rightarrow> platform_scope \<Rightarrow> instant \<Rightarrow> instant \<Rightarrow> pystr option \<Rightarrow> 's \<Rightarrow> ops_error + summary_view" where
  "summary ops svc scope start end' tenant_ref s =
     with_tenants ops svc scope start end' tenant_ref s (empty_summary svc start end') (\<lambda>tenants.
       let rollup = list_rollup_rows ops tenants start end' HOUR s;
           totals = sum_dict (map (\<lambda>r. (rw_metric r, rw_value r)) rollup);
           distinct' = query_distinct_counts ops tenants start end' s;
           freshness = query_freshness ops tenants start end' s;
           tot = (\<lambda>m. py_int (get0 totals m)) in
       case query_duration_percentiles ops tenants start end' s of
         Inl IndexError \<Rightarrow> Inl OpsIndexError
       | Inr ps \<Rightarrow> Inr (ops_view.extend (view_of svc tenants start end')
           (summary_view.fields (get0 distinct' (u ''users'')) (tot (u ''questions'')) (tot (u ''valid_questions''))
             (map (\<lambda>l. (l, tot l)) STATUS_METRICS) (get0 distinct' (u ''llm_logical_calls''))
             (tot (u ''llm_physical_attempts'')) (map (\<lambda>l. (l, tot l)) TOKEN_METRICS)
             (map (\<lambda>m. (m, duration_stats_of totals ps m)) DURATION_METRICS) freshness
             (rollup_behind rollup freshness (ol_rollup_lag_tolerance (os_limits svc))))))"

definition completed_calls :: "mes_call_fact list \<Rightarrow> mes_call_fact list" where
  "completed_calls facts = filter (\<lambda>f. fm_status f = u ''completed'') facts"

definition resolved_category :: "(pystr \<rightharpoonup> pystr) \<Rightarrow> mes_call_fact \<Rightarrow> pystr" where
  "resolved_category resolved f = (case resolved (fm_operation_id f) of Some c \<Rightarrow> c | None \<Rightarrow> CATEGORY_OTHER)"

text \<open>\<open>_mes_category_buckets\<close>, keyed by bucket and metric.\<close>

definition mes_category_buckets ::
  "'s usage_ops \<Rightarrow> ops_service \<Rightarrow> pystr set \<Rightarrow> instant \<Rightarrow> instant \<Rightarrow> granularity \<Rightarrow> 's \<Rightarrow>
   (instant \<times> pystr, real) dict" where
  "mes_category_buckets ops svc tenants start end' g s =
     (let completed = completed_calls (list_mes_call_facts ops tenants start end' s);
          resolved = categories_for ops (os_defaults svc) (set (map fm_operation_id completed)) s in
      sum_dict (map (\<lambda>f. ((bucket_start (os_utc_offset svc) (fm_occurred_at f) g,
        u ''mes_'' @ resolved_category resolved f), 1)) completed))"

definition timeseries ::
  "'s usage_ops \<Rightarrow> ops_service \<Rightarrow> platform_scope \<Rightarrow> instant \<Rightarrow> instant \<Rightarrow> granularity \<Rightarrow> pystr list \<Rightarrow>
   pystr option \<Rightarrow> 's \<Rightarrow> ops_error + timeseries_view" where
  "timeseries ops svc scope start end' g metrics tenant_ref s =
     (let requested = filter (\<lambda>m. m \<in> set ADDITIVE_METRICS) metrics in
      with_tenants ops svc scope start end' tenant_ref s
        (ops_view.extend (view_of svc {} start end') (timeseries_view.fields g [] False)) (\<lambda>tenants.
       let rows = list_rollup_rows ops tenants start end' g s;
           freshness = query_freshness ops tenants start end' s;
           mes_requested = filter (\<lambda>m. m \<in> set MES_METRICS) requested;
           mes_buckets = (if mes_requested = [] then [] else mes_category_buckets ops svc tenants start end' g s);
           mes_incs = concat (map (\<lambda>b. map (\<lambda>m. ((b, m), get0 mes_buckets (b, m))) mes_requested)
             (from_keys (map (fst \<circ> fst) mes_buckets)));
           by_bucket = sum_dict (map (\<lambda>r. ((rw_bucket_start r, rw_metric r), rw_value r)) rows @ mes_incs);
           limit = ol_timeseries_max_buckets (os_limits svc);
           points = take limit (map (\<lambda>b. \<lparr>pt_bucket = b, pt_metrics = map (\<lambda>m. (m, get0 by_bucket (b, m))) (from_keys requested)\<rparr>)
             (sorted_list_of_set (set (map (fst \<circ> fst) by_bucket)))) in
       Inr (ops_view.extend (view_of svc tenants start end') (timeseries_view.fields g points
         (length points \<ge> limit \<or> rollup_behind rows freshness (ol_rollup_lag_tolerance (os_limits svc)))))))"

text \<open>The truthy attribute values of the facts, counted; at most the configured number of them is
  reported, the most frequent first.\<close>

definition truthy_values :: "('f \<Rightarrow> pystr option) \<Rightarrow> 'f list \<Rightarrow> pystr list" where
  "truthy_values attr facts = concat (map (\<lambda>f. case attr f of Some v \<Rightarrow> if v = [] then [] else [v] | None \<Rightarrow> []) facts)"

definition top_values :: "nat \<Rightarrow> pystr list \<Rightarrow> (pystr, real) dict" where
  "top_values limit vs = map (\<lambda>(k, n). (k, real n)) (take limit (most_common (counter vs)))"

definition over_limit :: "nat \<Rightarrow> pystr list \<Rightarrow> bool" where
  "over_limit limit vs \<longleftrightarrow> sum_list (map snd (counter vs)) > limit"

definition dimensions ::
  "'s usage_ops \<Rightarrow> ops_service \<Rightarrow> stdlib \<Rightarrow> platform_scope \<Rightarrow> instant \<Rightarrow> instant \<Rightarrow> pystr \<Rightarrow> pystr option \<Rightarrow>
   's \<Rightarrow> ops_error + dimensions_view" where
  "dimensions ops svc std scope start end' dimension tenant_ref s =
     rthen (check_range svc start end') (
       if map_of INTERACTION_DIMENSIONS dimension = None \<and> map_of LLM_DIMENSIONS dimension = None
       then Inl (OpsQueryError (u ''unsupported dimension '' @ std_repr std (PStr dimension)))
       else with_tenants ops svc scope start end' tenant_ref s
         (ops_view.extend (view_of svc {} start end') (dimensions_view.fields dimension [] False)) (\<lambda>tenants.
         let vs = (case map_of INTERACTION_DIMENSIONS dimension of
               Some attr \<Rightarrow> truthy_values attr (list_interaction_facts ops tenants start end' s)
             | None \<Rightarrow> (case map_of LLM_DIMENSIONS dimension of
                 Some attr \<Rightarrow> truthy_values attr (list_llm_call_facts ops tenants start end' s) | None \<Rightarrow> []));
             limit = ol_max_dimension_rows (os_limits svc) in
         Inr (ops_view.extend (view_of svc tenants start end')
           (dimensions_view.fields dimension (top_values limit vs) (over_limit limit vs)))))"

definition users ::
  "'s usage_ops \<Rightarrow> ops_service \<Rightarrow> platform_scope \<Rightarrow> instant \<Rightarrow> instant \<Rightarrow> int option \<Rightarrow> int \<Rightarrow> pystr option \<Rightarrow>
   's \<Rightarrow> ops_error + users_page" where
  "users ops svc scope start end' limit offset tenant_ref s =
     rthen (check_range svc start end') (rbind (tenant_ids ops scope start end' tenant_ref s) (\<lambda>tenants.
       rbind (clamp_page svc limit) (\<lambda>page_size.
       if offset < 0 then Inl (OpsQueryError (u ''offset must not be negative''))
       else if tenants = {} then Inr (ops_view.extend (view_of svc {} start end') (users_page.fields [] 0 None))
       else case query_user_activity ops tenants start end' page_size (nat offset) s of (pairs, total') \<Rightarrow>
         let items = map (\<lambda>(x, n). \<lparr>ua_user_subject_id = x, ua_question_count = n\<rparr>) pairs;
             seen = nat offset + length items in
         Inr (ops_view.extend (view_of svc tenants start end')
           (users_page.fields items total' (if seen < total' then Some seen else None))))))"

text \<open>The four categories with the calls counted under them.\<close>

definition category_counts :: "(pystr, nat) dict \<Rightarrow> (pystr, nat) dict" where
  "category_counts counts = map (\<lambda>c. (c, count_in counts c)) CATEGORY_ORDERING"

definition mes_categories ::
  "'s usage_ops \<Rightarrow> ops_service \<Rightarrow> platform_scope \<Rightarrow> instant \<Rightarrow> instant \<Rightarrow> pystr option \<Rightarrow> 's \<Rightarrow>
   ops_error + mes_categories_view" where
  "mes_categories ops svc scope start end' tenant_ref s =
     with_tenants ops svc scope start end' tenant_ref s
       (ops_view.extend (view_of svc {} start end') (mes_categories_view.fields empty_categories 0 False)) (\<lambda>tenants.
       let completed = completed_calls (list_mes_call_facts ops tenants start end' s);
           resolved = categories_for ops (os_defaults svc) (set (map fm_operation_id completed)) s;
           categories = category_counts (counter (map (resolved_category resolved) completed)) in
       Inr (ops_view.extend (view_of svc tenants start end')
         (mes_categories_view.fields categories (sum_list (map snd categories)) False)))"

definition mes_failures ::
  "'s usage_ops \<Rightarrow> ops_service \<Rightarrow> platform_scope \<Rightarrow> instant \<Rightarrow> instant \<Rightarrow> pystr option \<Rightarrow> 's \<Rightarrow>
   ops_error + mes_failures_view" where
  "mes_failures ops svc scope start end' tenant_ref s =
     with_tenants ops svc scope start end' tenant_ref s
       (ops_view.extend (view_of svc {} start end') (mes_failures_view.fields empty_categories [] 0)) (\<lambda>tenants.
       let failed = filter (\<lambda>f. fm_status f = u ''failed'') (list_mes_call_facts ops tenants start end' s);
           resolved = categories_for ops (os_defaults svc) (set (map fm_operation_id failed)) s;
           categories = category_counts (counter (map (resolved_category resolved) failed)) in
       Inr (ops_view.extend (view_of svc tenants start end')
         (mes_failures_view.fields categories (most_common (counter (truthy_values fm_error_category failed)))
           (sum_list (map snd categories)))))"

definition mes_operations ::
  "'s usage_ops \<Rightarrow> ops_service \<Rightarrow> platform_scope \<Rightarrow> instant \<Rightarrow> instant \<Rightarrow> pystr option \<Rightarrow> 's \<Rightarrow>
   ops_error + values_view" where
  "mes_operations ops svc scope start end' tenant_ref s =
     with_tenants ops svc scope start end' tenant_ref s
       (ops_view.extend (view_of svc {} start end') (values_view.fields [] False)) (\<lambda>tenants.
       let vs = map fm_operation_id (completed_calls (list_mes_call_facts ops tenants start end' s));
           limit = ol_max_dimension_rows (os_limits svc) in
       Inr (ops_view.extend (view_of svc tenants start end')
         (values_view.fields (top_values limit vs) (over_limit limit vs))))"

definition add_model :: "llm_call_fact \<Rightarrow> (pystr, model_totals) dict \<Rightarrow> (pystr, model_totals) dict" where
  "add_model f d = (let t = (case map_of d (fl_actual_model f) of Some t \<Rightarrow> t
       | None \<Rightarrow> \<lparr>mo_calls = 0, mo_prompt_tokens = 0, mo_completion_tokens = 0, mo_cached_tokens = 0,
           mo_reasoning_tokens = 0\<rparr>) in
     AList.update (fl_actual_model f) \<lparr>mo_calls = mo_calls t + 1,
       mo_prompt_tokens = mo_prompt_tokens t + fl_prompt_tokens f,
       mo_completion_tokens = mo_completion_tokens t + fl_completion_tokens f,
       mo_cached_tokens = mo_cached_tokens t + fl_cached_tokens f,
       mo_reasoning_tokens = mo_reasoning_tokens t + fl_reasoning_tokens f\<rparr> d)"

definition models ::
  "'s usage_ops \<Rightarrow> ops_service \<Rightarrow> platform_scope \<Rightarrow> instant \<Rightarrow> instant \<Rightarrow> pystr option \<Rightarrow> 's \<Rightarrow>
   ops_error + models_view" where
  "models ops svc scope start end' tenant_ref s =
     with_tenants ops svc scope start end' tenant_ref s
       (ops_view.extend (view_of svc {} start end') (models_view.fields [])) (\<lambda>tenants.
       Inr (ops_view.extend (view_of svc tenants start end') (models_view.fields
         (sort_key fst (fold add_model (list_llm_call_facts ops tenants start end' s) [])))))"

definition capabilities ::
  "'s usage_ops \<Rightarrow> ops_service \<Rightarrow> stdlib \<Rightarrow> platform_scope \<Rightarrow> instant \<Rightarrow> instant \<Rightarrow> pystr option \<Rightarrow>
   's \<Rightarrow> ops_error + dimensions_view" where
  "capabilities ops svc std scope start end' tenant_ref s =
     dimensions ops svc std scope start end' (u ''capability'') tenant_ref s"

definition errors ::
  "'s usage_ops \<Rightarrow> ops_service \<Rightarrow> platform_scope \<Rightarrow> instant \<Rightarrow> instant \<Rightarrow> pystr option \<Rightarrow> 's \<Rightarrow>
   ops_error + values_view" where
  "errors ops svc scope start end' tenant_ref s =
     with_tenants ops svc scope start end' tenant_ref s
       (ops_view.extend (view_of svc {} start end') (values_view.fields [] False)) (\<lambda>tenants.
       let vs = truthy_values fi_error_category (list_interaction_facts ops tenants start end' s) @
             truthy_values fl_error_category (list_llm_call_facts ops tenants start end' s);
           limit = ol_max_dimension_rows (os_limits svc) in
       Inr (ops_view.extend (view_of svc tenants start end')
         (values_view.fields (top_values limit vs) (over_limit limit vs))))"

definition candidate_tenant_keys ::
  "'s usage_ops \<Rightarrow> platform_scope \<Rightarrow> instant \<Rightarrow> instant \<Rightarrow> (pystr, tenant_record) dict \<Rightarrow> 's \<Rightarrow> pystr set" where
  "candidate_tenant_keys ops scope start end' by_key s =
     (if ps_tenant_ids scope \<noteq> {} then ps_tenant_ids scope
      else set (map fst by_key) \<union> set (list_tenants ops start end' s))"

text \<open>\<open>_successful_mes_by_tenant\<close>: the successful calls of one tenant by category.\<close>

definition successful_mes ::
  "'s usage_ops \<Rightarrow> ops_service \<Rightarrow> mes_call_fact list \<Rightarrow> pystr \<Rightarrow> 's \<Rightarrow> (pystr, nat) dict" where
  "successful_mes ops svc facts tenant s =
     (let completed = completed_calls facts;
          resolved = categories_for ops (os_defaults svc) (set (map fm_operation_id completed)) s in
      category_counts (counter (map (resolved_category resolved)
        (filter (\<lambda>f. fm_tenant_id f = tenant) completed))))"

definition by_tenant_row ::
  "'s usage_ops \<Rightarrow> ops_service \<Rightarrow> instant \<Rightarrow> instant \<Rightarrow> (pystr, tenant_record) dict \<Rightarrow> rollup_row list \<Rightarrow>
   mes_call_fact list \<Rightarrow> 's \<Rightarrow> pystr \<Rightarrow> by_tenant_item" where
  "by_tenant_row ops svc start end' by_key rollup facts s tenant =
     (let totals = sum_dict (map (\<lambda>r. ((rw_tenant_id r, rw_metric r), rw_value r)) rollup);
          mes = successful_mes ops svc facts tenant s in
      \<lparr>bi_app_key = tenant, bi_tenant_name = map_option tr_tenant_name (map_of by_key tenant),
       bi_status = map_option tr_status (map_of by_key tenant),
       bi_token_total = py_int (\<Sum>m \<leftarrow> TOKEN_METRICS. get0 totals (tenant, m)),
       bi_question_count = py_int (get0 totals (tenant, u ''questions'')),
       bi_mes_output = get0 mes CATEGORY_OUTPUT, bi_mes_payroll = get0 mes CATEGORY_PAYROLL,
       bi_mes_order = get0 mes CATEGORY_ORDER, bi_mes_other = get0 mes CATEGORY_OTHER,
       bi_last_usage_at = query_freshness ops {tenant} start end' s\<rparr>)"

text \<open>The tenants a \<open>tenant_ref\<close> or a name filter asks for; the empty text is no filter.\<close>

definition requested_tenants ::
  "'s usage_ops \<Rightarrow> platform_scope \<Rightarrow> (pystr, pystr) dict \<Rightarrow> pystr option \<Rightarrow> pystr option \<Rightarrow> 's \<Rightarrow>
   ops_error + pystr set" where
  "requested_tenants ops scope by_ref name tenant_ref s =
     rbind (case tenant_ref of
         Some ref \<Rightarrow> if ref = [] then Inr {} else map_sum id (\<lambda>k. {k}) (resolve_ref scope by_ref ref)
       | None \<Rightarrow> Inr {}) (\<lambda>from_ref.
     Inr (from_ref \<union> (case name of
         Some n \<Rightarrow> if n = [] then {} else set (search_tenant_registry_names ops n s)
       | None \<Rightarrow> {})))"

definition by_tenant ::
  "'s usage_ops \<Rightarrow> ops_service \<Rightarrow> platform_scope \<Rightarrow> instant \<Rightarrow> instant \<Rightarrow> int option \<Rightarrow> int \<Rightarrow> pystr option \<Rightarrow>
   pystr option \<Rightarrow> 's \<Rightarrow> ops_error + by_tenant_page" where
  "by_tenant ops svc scope start end' limit offset name tenant_ref s =
     rthen (check_range svc start end') (
       if offset < 0 then Inl (OpsQueryError (u ''offset must not be negative'')) else
       rbind (clamp_page svc limit) (\<lambda>page_size.
       let records = list_all_tenant_registry ops s; by_key = registry_by_key records in
       rbind (requested_tenants ops scope (registry_by_ref records) name tenant_ref s) (\<lambda>requested.
       let scoped_keys = candidate_tenant_keys ops scope start end' by_key s in
       if requested \<noteq> {} \<and> \<not> requested \<subseteq> scoped_keys
       then Inl (OpsScopeError (PlatformScopeError (u ''requested tenant set exceeds the platform scope'')))
       else let candidates = (if requested \<noteq> {} then requested \<inter> scoped_keys else scoped_keys) in
       if candidates = {} then Inr (ops_view.extend (view_of svc {} start end') (by_tenant_page.fields [] 0 None))
       else let rollup = list_rollup_rows ops candidates start end' HOUR s;
                facts = list_mes_call_facts ops candidates start end' s;
                rows = map (by_tenant_row ops svc start end' by_key rollup facts s) (sorted_list_of_set candidates);
                page = take page_size (drop (nat offset) rows);
                seen = nat offset + length page in
         Inr (ops_view.extend (view_of svc candidates start end')
           (by_tenant_page.fields page (length rows) (if seen < length rows then Some seen else None))))))"

section \<open>Reports stay inside the scope\<close>

text \<open>A store with only the metering rows of a set of tenants.\<close>

definition restrict_db :: "pystr set \<Rightarrow> usage_db \<Rightarrow> usage_db" where
  "restrict_db T d = d\<lparr>ud_interaction_fact := filter (\<lambda>f. fi_tenant_id f \<in> T) (ud_interaction_fact d),
     ud_llm_call_fact := filter (\<lambda>f. fl_tenant_id f \<in> T) (ud_llm_call_fact d),
     ud_mes_call_fact := map_option (filter (\<lambda>f. fm_tenant_id f \<in> T)) (ud_mes_call_fact d),
     ud_usage_hourly := filter (\<lambda>r. rw_tenant_id r \<in> T) (ud_usage_hourly d),
     ud_usage_daily := filter (\<lambda>r. rw_tenant_id r \<in> T) (ud_usage_daily d)\<rparr>"

definition restrict_memory :: "pystr set \<Rightarrow> memory_store \<Rightarrow> memory_store" where
  "restrict_memory T s = s\<lparr>ms_interaction_facts := filter (\<lambda>f. fi_tenant_id f \<in> T) (ms_interaction_facts s),
     ms_llm_call_facts := filter (\<lambda>f. fl_tenant_id f \<in> T) (ms_llm_call_facts s),
     ms_mes_call_facts := filter (\<lambda>f. fm_tenant_id f \<in> T) (ms_mes_call_facts s),
     ms_rollup_rows := filter (\<lambda>r. rw_tenant_id r \<in> T) (ms_rollup_rows s)\<rparr>"

locale usage_reader =
  fixes ops :: "'s usage_ops" and restrict :: "pystr set \<Rightarrow> 's \<Rightarrow> 's"
  assumes interactions: "T' \<subseteq> T \<Longrightarrow> list_interaction_facts ops T' a b (restrict T s) = list_interaction_facts ops T' a b s"
    and llm_calls: "T' \<subseteq> T \<Longrightarrow> list_llm_call_facts ops T' a b (restrict T s) = list_llm_call_facts ops T' a b s"
    and mes_calls: "T' \<subseteq> T \<Longrightarrow> list_mes_call_facts ops T' a b (restrict T s) = list_mes_call_facts ops T' a b s"
    and rollups: "T' \<subseteq> T \<Longrightarrow> list_rollup_rows ops T' a b g (restrict T s) = list_rollup_rows ops T' a b g s"
    and percentiles: "T' \<subseteq> T \<Longrightarrow>
      query_duration_percentiles ops T' a b (restrict T s) = query_duration_percentiles ops T' a b s"
    and activity: "T' \<subseteq> T \<Longrightarrow> query_user_activity ops T' a b n k (restrict T s) = query_user_activity ops T' a b n k s"
    and freshness: "T' \<subseteq> T \<Longrightarrow> query_freshness ops T' a b (restrict T s) = query_freshness ops T' a b s"
    and distinct_counts: "T' \<subseteq> T \<Longrightarrow> query_distinct_counts ops T' a b (restrict T s) = query_distinct_counts ops T' a b s"
    and registry: "list_all_tenant_registry ops (restrict T s) = list_all_tenant_registry ops s"
    and search: "search_tenant_registry_names ops frag (restrict T s) = search_tenant_registry_names ops frag s"
    and categories: "list_mes_operation_categories ops (restrict T s) = list_mes_operation_categories ops s"
begin

lemma tenant_ids_restrict:
  "ps_tenant_ids scope \<noteq> {} \<Longrightarrow> tenant_ids ops scope a b ref (restrict T s) = tenant_ids ops scope a b ref s"
  unfolding tenant_ids_def registry by simp

lemma tenant_ids_within:
  "ps_tenant_ids scope \<noteq> {} \<Longrightarrow> tenant_ids ops scope a b ref s = Inr T \<Longrightarrow> T \<subseteq> ps_tenant_ids scope"
  by (auto simp: tenant_ids_def result_simps Let_def split: option.splits)

lemma categories_for_restrict: "categories_for ops defaults oids (restrict T s) = categories_for ops defaults oids s"
  unfolding categories_for_def categories ..

lemma with_tenants_restrict:
  assumes "ps_tenant_ids scope \<noteq> {}"
    and "\<And>T'. T' \<subseteq> ps_tenant_ids scope \<Longrightarrow> body' T' = body T'"
  shows "with_tenants ops svc scope a b ref (restrict T s) nothing body' =
    with_tenants ops svc scope a b ref s nothing body"
proof (cases "tenant_ids ops scope a b ref s")
  case (Inr T')
  then show ?thesis
    using assms tenant_ids_within [OF assms(1) Inr]
    by (simp add: with_tenants_def tenant_ids_restrict [OF assms(1)])
qed (simp add: with_tenants_def tenant_ids_restrict [OF assms(1)])

lemmas restrict_simps = interactions llm_calls mes_calls rollups percentiles activity freshness distinct_counts
  registry search categories categories_for_restrict

lemma summary_restrict:
  "ps_tenant_ids scope \<noteq> {} \<Longrightarrow>
    summary ops svc scope a b ref (restrict (ps_tenant_ids scope) s) = summary ops svc scope a b ref s"
  unfolding summary_def by (rule with_tenants_restrict) (simp_all add: restrict_simps)

lemma timeseries_restrict:
  "ps_tenant_ids scope \<noteq> {} \<Longrightarrow>
    timeseries ops svc scope a b g ms ref (restrict (ps_tenant_ids scope) s) = timeseries ops svc scope a b g ms ref s"
  unfolding timeseries_def Let_def mes_category_buckets_def
  by (rule with_tenants_restrict) (simp_all add: restrict_simps)

lemma dimensions_restrict:
  assumes "ps_tenant_ids scope \<noteq> {}"
  shows "dimensions ops svc std scope a b dimension ref (restrict (ps_tenant_ids scope) s) =
    dimensions ops svc std scope a b dimension ref s"
  unfolding dimensions_def
  by (intro arg_cong [of _ _ "rthen _"] if_cong refl with_tenants_restrict assms)
    (simp add: restrict_simps Let_def cong: option.case_cong)

lemma users_restrict:
  assumes "ps_tenant_ids scope \<noteq> {}"
  shows "users ops svc scope a b limit offset ref (restrict (ps_tenant_ids scope) s) =
    users ops svc scope a b limit offset ref s"
proof (cases "tenant_ids ops scope a b ref s")
  case (Inr T)
  then show ?thesis
    unfolding users_def tenant_ids_restrict [OF assms] Inr rbind.simps
      activity [OF tenant_ids_within [OF assms Inr]] by simp
qed (simp add: users_def tenant_ids_restrict [OF assms])

lemma mes_reports_restrict:
  assumes "ps_tenant_ids scope \<noteq> {}"
  shows "mes_categories ops svc scope a b ref (restrict (ps_tenant_ids scope) s) = mes_categories ops svc scope a b ref s"
    and "mes_failures ops svc scope a b ref (restrict (ps_tenant_ids scope) s) = mes_failures ops svc scope a b ref s"
    and "mes_operations ops svc scope a b ref (restrict (ps_tenant_ids scope) s) = mes_operations ops svc scope a b ref s"
  unfolding mes_categories_def mes_failures_def mes_operations_def
  by (rule with_tenants_restrict; simp add: assms restrict_simps)+

lemma llm_reports_restrict:
  assumes "ps_tenant_ids scope \<noteq> {}"
  shows "models ops svc scope a b ref (restrict (ps_tenant_ids scope) s) = models ops svc scope a b ref s"
    and "errors ops svc scope a b ref (restrict (ps_tenant_ids scope) s) = errors ops svc scope a b ref s"
  unfolding models_def errors_def
  by (rule with_tenants_restrict; simp add: assms restrict_simps)+

lemma by_tenant_row_restrict:
  "tenant \<in> T \<Longrightarrow> by_tenant_row ops svc a b by_key rollup facts (restrict T s) tenant =
    by_tenant_row ops svc a b by_key rollup facts s tenant"
  by (simp add: by_tenant_row_def successful_mes_def restrict_simps)

lemma by_tenant_restrict:
  assumes scope: "ps_tenant_ids scope \<noteq> {}"
  shows "by_tenant ops svc scope a b limit offset name ref (restrict (ps_tenant_ids scope) s) =
    by_tenant ops svc scope a b limit offset name ref s"
proof -
  let ?T = "ps_tenant_ids scope"
  have keys: "candidate_tenant_keys ops scope a b by_key x = ?T" for by_key x
    using scope by (simp add: candidate_tenant_keys_def)
  have req: "requested_tenants ops scope by_ref name ref (restrict ?T s) =
      requested_tenants ops scope by_ref name ref s" for by_ref
    unfolding requested_tenants_def search ..
  have rows: "map (by_tenant_row ops svc a b by_key rollup facts (restrict ?T s)) (sorted_list_of_set C) =
      map (by_tenant_row ops svc a b by_key rollup facts s) (sorted_list_of_set C)" if "C \<subseteq> ?T"
    for C by_key rollup facts
  proof (rule map_cong [OF refl])
    fix t assume "t \<in> set (sorted_list_of_set C)"
    then have "t \<in> C" by (metis empty_iff list.set(1) set_sorted_list_of_set sorted_list_of_set.fold_insort_key.infinite)
    then show "by_tenant_row ops svc a b by_key rollup facts (restrict ?T s) t =
        by_tenant_row ops svc a b by_key rollup facts s t"
      using that by (intro by_tenant_row_restrict) blast
  qed
  show ?thesis
    unfolding by_tenant_def Let_def keys req registry
    by (cases "requested_tenants ops scope (registry_by_ref (list_all_tenant_registry ops s)) name ref s")
      (simp_all add: rows restrict_simps cong: if_cong)
qed

end

lemma filter_within:
  assumes "T' \<subseteq> T"
  shows "filter (\<lambda>f. key f \<in> T' \<and> R f) (filter (\<lambda>f. key f \<in> T) xs) = filter (\<lambda>f. key f \<in> T' \<and> R f) xs"
    and "filter (\<lambda>f. key f \<in> T') (filter (\<lambda>f. key f \<in> T) xs) = filter (\<lambda>f. key f \<in> T') xs"
  using assms by (induction xs) auto

lemma restrict_memory_simps [simp]:
  "ms_tenant_registry (restrict_memory T s) = ms_tenant_registry s"
  "ms_mes_operation_categories (restrict_memory T s) = ms_mes_operation_categories s"
  by (simp_all add: restrict_memory_def)

lemma restrict_db_simps [simp]:
  "ud_tenant_registry (restrict_db T d) = ud_tenant_registry d"
  "ud_mes_operation_category (restrict_db T d) = ud_mes_operation_category d"
  by (simp_all add: restrict_db_def)

lemma mem_restrict:
  assumes "T' \<subseteq> T"
  shows "mem_list_interaction_facts T' a b (restrict_memory T s) = mem_list_interaction_facts T' a b s"
    and "mem_list_llm_call_facts T' a b (restrict_memory T s) = mem_list_llm_call_facts T' a b s"
    and "mem_list_mes_call_facts T' a b (restrict_memory T s) = mem_list_mes_call_facts T' a b s"
    and "mem_list_rollup_rows T' a b g (restrict_memory T s) = mem_list_rollup_rows T' a b g s"
    and "mem_query_freshness T' a b (restrict_memory T s) = mem_query_freshness T' a b s"
  by (simp_all add: mem_list_interaction_facts_def mem_list_llm_call_facts_def mem_list_mes_call_facts_def
      mem_list_rollup_rows_def mem_query_freshness_def restrict_memory_def filter_within [OF assms]
      del: filter_filter)

lemma pg_restrict:
  assumes "T' \<subseteq> T"
  shows "pg_list_interaction_facts T' a b (restrict_db T d) = pg_list_interaction_facts T' a b d"
    and "pg_list_llm_call_facts T' a b (restrict_db T d) = pg_list_llm_call_facts T' a b d"
    and "pg_list_mes_call_facts T' a b (restrict_db T d) = pg_list_mes_call_facts T' a b d"
    and "pg_list_rollup_rows T' a b g (restrict_db T d) = pg_list_rollup_rows T' a b g d"
    and "pg_query_freshness T' a b (restrict_db T d) = pg_query_freshness T' a b d"
  by (simp_all add: pg_list_interaction_facts_def pg_list_llm_call_facts_def pg_list_mes_call_facts_def
      pg_list_rollup_rows_def pg_query_freshness_def restrict_db_def filter_within [OF assms]
      split: option.split granularity.split del: filter_filter)

interpretation memory_reports: usage_reader "memory_ops lower" restrict_memory
  by unfold_locales (simp_all add: memory_ops_def mem_restrict mem_query_duration_percentiles_def
      mem_query_user_activity_def mem_query_distinct_counts_def mem_list_all_tenant_registry_def
      mem_search_tenant_registry_names_def mem_list_mes_operation_categories_def)

interpretation postgres_reports: usage_reader "postgres_ops lower" restrict_db
  by unfold_locales (simp_all add: postgres_ops_def pg_restrict pg_query_duration_percentiles_def
      pg_query_user_activity_def pg_query_distinct_counts_def pg_list_all_tenant_registry_def
      pg_search_tenant_registry_names_def pg_list_mes_operation_categories_def)

section \<open>The registry rows of other tenants\<close>

text \<open>
  A request is within the scope when its factory handle resolves to a factory of the scope and its name
  search finds factories of the scope only; other requests are refused (\<open>foreign_handle_shows\<close>).
\<close>

definition asks_within :: "'s usage_ops \<Rightarrow> platform_scope \<Rightarrow> pystr option \<Rightarrow> pystr option \<Rightarrow> 's \<Rightarrow> bool" where
  "asks_within ops scope name tenant_ref s \<longleftrightarrow>
     (\<forall>ref. tenant_ref = Some ref \<longrightarrow>
        (\<exists>k. resolve_ref scope (registry_by_ref (list_all_tenant_registry ops s)) ref = Inr k)) \<and>
     (\<forall>n. name = Some n \<longrightarrow> n = [] \<or> set (search_tenant_registry_names ops n s) \<subseteq> ps_tenant_ids scope)"

lemma registry_by_ref_filter:
  assumes "map_of (registry_by_ref rs) ref = Some k" and "k \<in> T"
  shows "map_of (registry_by_ref (filter (\<lambda>r. tr_app_key r \<in> T) rs)) ref = Some k"
  using assms(1)
proof (induction rs rule: rev_induct)
  case (snoc r rs)
  then show ?case
    using assms(2) by (cases "tr_tenant_ref r = ref") (auto simp: registry_by_ref_def update_conv')
qed (simp add: registry_by_ref_def)

lemma registry_by_key_filter:
  "t \<in> T \<Longrightarrow> map_of (registry_by_key (filter (\<lambda>r. tr_app_key r \<in> T) rs)) t = map_of (registry_by_key rs) t"
  by (induction rs rule: rev_induct) (auto simp: registry_by_key_def update_conv')

text \<open>A store reader whose registry can be cut down to a set of tenants.\<close>

locale registry_reader =
  fixes ops :: "'s usage_ops" and hide :: "pystr set \<Rightarrow> 's \<Rightarrow> 's"
  assumes hide_reads: "list_interaction_facts ops T' a b (hide T s) = list_interaction_facts ops T' a b s"
      "list_llm_call_facts ops T' a b (hide T s) = list_llm_call_facts ops T' a b s"
      "list_mes_call_facts ops T' a b (hide T s) = list_mes_call_facts ops T' a b s"
      "list_rollup_rows ops T' a b g (hide T s) = list_rollup_rows ops T' a b g s"
      "query_duration_percentiles ops T' a b (hide T s) = query_duration_percentiles ops T' a b s"
      "query_user_activity ops T' a b n k (hide T s) = query_user_activity ops T' a b n k s"
      "query_freshness ops T' a b (hide T s) = query_freshness ops T' a b s"
      "query_distinct_counts ops T' a b (hide T s) = query_distinct_counts ops T' a b s"
      "list_mes_operation_categories ops (hide T s) = list_mes_operation_categories ops s"
    and hide_registry: "list_all_tenant_registry ops (hide T s) =
      filter (\<lambda>r. tr_app_key r \<in> T) (list_all_tenant_registry ops s)"
    and hide_search: "search_tenant_registry_names ops frag (hide T s) =
      filter (\<lambda>k. k \<in> T) (search_tenant_registry_names ops frag s)"
begin

lemma resolve_hidden:
  assumes "ps_tenant_ids scope \<noteq> {}"
    and "resolve_ref scope (registry_by_ref (list_all_tenant_registry ops s)) ref = Inr k"
  shows "resolve_ref scope (registry_by_ref (list_all_tenant_registry ops (hide (ps_tenant_ids scope) s))) ref = Inr k"
proof -
  have "map_of (registry_by_ref (list_all_tenant_registry ops s)) ref = Some k" "k \<in> ps_tenant_ids scope"
    using assms by (auto simp: resolve_ref_def covers_tenant_def split: option.splits if_splits)
  then show ?thesis
    by (simp add: resolve_ref_def hide_registry registry_by_ref_filter covers_tenant_def)
qed

lemma tenant_ids_hidden:
  assumes "ps_tenant_ids scope \<noteq> {}" and "asks_within ops scope name ref s"
  shows "tenant_ids ops scope a b ref (hide (ps_tenant_ids scope) s) = tenant_ids ops scope a b ref s"
proof (cases ref)
  case (Some r)
  then obtain k where k: "resolve_ref scope (registry_by_ref (list_all_tenant_registry ops s)) r = Inr k"
    using assms(2) by (auto simp: asks_within_def)
  show ?thesis
    using resolve_hidden [OF assms(1) k] k assms(1) by (simp add: tenant_ids_def Some)
qed (use assms(1) in \<open>simp add: tenant_ids_def\<close>)

lemma categories_for_hidden: "categories_for ops defaults oids (hide T s) = categories_for ops defaults oids s"
  unfolding categories_for_def hide_reads ..

lemma reports_hidden:
  assumes "ps_tenant_ids scope \<noteq> {}" and "asks_within ops scope name ref s"
  shows "summary ops svc scope a b ref (hide (ps_tenant_ids scope) s) = summary ops svc scope a b ref s"
    and "timeseries ops svc scope a b g ms ref (hide (ps_tenant_ids scope) s) = timeseries ops svc scope a b g ms ref s"
    and "dimensions ops svc std scope a b dimension ref (hide (ps_tenant_ids scope) s) =
      dimensions ops svc std scope a b dimension ref s"
    and "users ops svc scope a b limit offset ref (hide (ps_tenant_ids scope) s) = users ops svc scope a b limit offset ref s"
    and "mes_categories ops svc scope a b ref (hide (ps_tenant_ids scope) s) = mes_categories ops svc scope a b ref s"
    and "mes_failures ops svc scope a b ref (hide (ps_tenant_ids scope) s) = mes_failures ops svc scope a b ref s"
    and "mes_operations ops svc scope a b ref (hide (ps_tenant_ids scope) s) = mes_operations ops svc scope a b ref s"
    and "models ops svc scope a b ref (hide (ps_tenant_ids scope) s) = models ops svc scope a b ref s"
    and "errors ops svc scope a b ref (hide (ps_tenant_ids scope) s) = errors ops svc scope a b ref s"
  unfolding summary_def timeseries_def mes_category_buckets_def dimensions_def users_def mes_categories_def
      mes_failures_def mes_operations_def models_def errors_def with_tenants_def tenant_ids_hidden [OF assms]
      hide_reads categories_for_hidden
  by (rule refl)+

lemma requested_hidden:
  assumes "ps_tenant_ids scope \<noteq> {}" and "asks_within ops scope name ref s"
  shows "requested_tenants ops scope (registry_by_ref (list_all_tenant_registry ops (hide (ps_tenant_ids scope) s)))
      name ref (hide (ps_tenant_ids scope) s) =
    requested_tenants ops scope (registry_by_ref (list_all_tenant_registry ops s)) name ref s"
proof -
  have found: "set (filter (\<lambda>k. k \<in> ps_tenant_ids scope) (search_tenant_registry_names ops n s)) =
      set (search_tenant_registry_names ops n s)" if "name = Some n" "n \<noteq> []" for n
    using assms(2) that by (auto simp: asks_within_def)
  show ?thesis
  proof (cases ref)
    case None
    then show ?thesis using found by (auto simp: requested_tenants_def hide_search split: option.split)
  next
    case (Some r)
    then obtain k where k: "resolve_ref scope (registry_by_ref (list_all_tenant_registry ops s)) r = Inr k"
      using assms(2) by (auto simp: asks_within_def)
    show ?thesis
      using found resolve_hidden [OF assms(1) k] k Some
      by (auto simp: requested_tenants_def hide_search split: option.split)
  qed
qed

lemma by_tenant_hidden:
  assumes "ps_tenant_ids scope \<noteq> {}" and "asks_within ops scope name ref s"
  shows "by_tenant ops svc scope a b limit offset name ref (hide (ps_tenant_ids scope) s) =
    by_tenant ops svc scope a b limit offset name ref s"
proof -
  let ?T = "ps_tenant_ids scope"
  let ?by_key = "registry_by_key (list_all_tenant_registry ops s)"
    and ?hidden = "registry_by_key (list_all_tenant_registry ops (hide ?T s))"
  have keys: "candidate_tenant_keys ops scope a b by_key x = ?T" for by_key x
    using assms(1) by (simp add: candidate_tenant_keys_def)
  have rows: "map (by_tenant_row ops svc a b ?hidden rollup facts (hide ?T s)) (sorted_list_of_set C) =
      map (by_tenant_row ops svc a b ?by_key rollup facts s) (sorted_list_of_set C)" if "C \<subseteq> ?T" for C rollup facts
  proof (rule map_cong [OF refl])
    fix t assume "t \<in> set (sorted_list_of_set C)"
    then have "t \<in> ?T"
      using that by (metis empty_iff list.set(1) set_sorted_list_of_set sorted_list_of_set.fold_insort_key.infinite subsetD)
    then show "by_tenant_row ops svc a b ?hidden rollup facts (hide ?T s) t = by_tenant_row ops svc a b ?by_key rollup facts s t"
      by (simp add: by_tenant_row_def successful_mes_def hide_reads categories_for_hidden hide_registry registry_by_key_filter)
  qed
  show ?thesis
    unfolding by_tenant_def Let_def keys requested_hidden [OF assms]
    by (cases "requested_tenants ops scope (registry_by_ref (list_all_tenant_registry ops s)) name ref s")
      (simp_all add: rows hide_reads cong: if_cong)
qed

end

definition hide_factories :: "pystr set \<Rightarrow> usage_db \<Rightarrow> usage_db" where
  "hide_factories T d = d\<lparr>ud_tenant_registry := filter (\<lambda>r. tr_app_key r \<in> T) (ud_tenant_registry d)\<rparr>"

interpretation postgres_registry: registry_reader "postgres_ops lower" hide_factories
  by unfold_locales (simp_all add: postgres_ops_def hide_factories_def pg_list_interaction_facts_def
      pg_list_llm_call_facts_def pg_list_mes_call_facts_def pg_list_rollup_rows_def pg_query_freshness_def
      pg_query_duration_percentiles_def pg_query_user_activity_def pg_query_distinct_counts_def
      pg_list_mes_operation_categories_def pg_list_all_tenant_registry_def pg_search_tenant_registry_names_def
      filter_sort filter_map o_def conj_commute split: option.split granularity.split)

text \<open>
  A refusal tells factories apart: a handle of a factory outside the scope is refused as exceeding the
  scope, a handle of no factory as unknown.
\<close>

lemma foreign_handle_shows:
  assumes "ps_tenant_ids scope \<noteq> {}" and "check_range svc a b = Inr ()"
    and "map_of (registry_by_ref (pg_list_all_tenant_registry d)) ref = found"
    and "\<forall>k. found = Some k \<longrightarrow> k \<notin> ps_tenant_ids scope"
  shows "summary (postgres_ops lower) svc scope a b (Some ref) d = Inl (case found of
      None \<Rightarrow> OpsQueryError (u ''unknown tenant_ref: '' @ ref)
    | Some _ \<Rightarrow> OpsScopeError (PlatformScopeError (u ''requested tenant set exceeds the platform scope'')))"
  using assms by (auto simp: summary_def with_tenants_def tenant_ids_def resolve_ref_def covers_tenant_def
      postgres_ops_def split: option.split)

section \<open>Sums and counts\<close>

lemma get0_update: "get0 (AList.update k v d) k' = (if k' = k then v else get0 d k')"
  by (simp add: get0_def dict_simps)

lemma get0_sum_fold:
  "get0 (fold (\<lambda>(k, v) d. AList.update k (get0 d k + v) d) incs d) k =
    get0 d k + (\<Sum>(k', v) \<leftarrow> incs. if k' = k then v else 0)"
  by (induction incs arbitrary: d) (auto simp: get0_update add.assoc)

lemma get0_sum_dict: "get0 (sum_dict incs) k = (\<Sum>(k', v) \<leftarrow> incs. if k' = k then v else 0)"
  unfolding sum_dict_def get0_sum_fold by (simp add: get0_def)

lemma keys_sum_dict: "fst ` set (sum_dict incs) = fst ` set incs"
proof -
  have "fst ` set (fold (\<lambda>(k, v) d. AList.update k (get0 d k + v) d) incs d) = fst ` set d \<union> fst ` set incs" for d
  proof (induction incs arbitrary: d)
    case (Cons e incs)
    obtain k v where e: "e = (k, v)" by fastforce
    have "fst ` set (AList.update k x d) = insert k (fst ` set d)" for x
      using keys_update [of k x d] by simp
    then show ?case by (simp add: e Cons.IH)
  qed simp
  then show ?thesis by (simp add: sum_dict_def)
qed

lemma map_of_map_dict: "map_of (map (\<lambda>x. (x, f x)) xs) y = (if y \<in> set xs then Some (f y) else None)"
  by (induction xs) auto

text \<open>The category the reports count an operation under.\<close>

definition billing_category :: "'s usage_ops \<Rightarrow> ops_service \<Rightarrow> 's \<Rightarrow> pystr \<Rightarrow> pystr" where
  "billing_category ops svc s oid = (case map_of (by_operation (list_mes_operation_categories ops s)) oid of
     Some c \<Rightarrow> c | None \<Rightarrow> default_category (os_defaults svc) oid)"

definition four_categories :: "'s usage_ops \<Rightarrow> ops_service \<Rightarrow> 's \<Rightarrow> bool" where
  "four_categories ops svc s \<longleftrightarrow>
     (\<forall>row \<in> set (list_mes_operation_categories ops s). oc_category row \<in> set CATEGORY_ORDERING) \<and>
     (\<forall>c \<in> snd ` set (os_defaults svc). c \<in> set CATEGORY_ORDERING)"

lemma by_operation_range:
  "map_of (by_operation rows) oid = Some c \<Longrightarrow> \<exists>row \<in> set rows. oc_category row = c"
proof -
  have "map_of (fold (\<lambda>row d. AList.update (oc_operation_id row) (oc_category row) d) rows d) oid = Some c \<Longrightarrow>
      map_of d oid = Some c \<or> (\<exists>row \<in> set rows. oc_category row = c)" for d
  proof (induction rows arbitrary: d)
    case (Cons row rows)
    from Cons.IH [of "AList.update (oc_operation_id row) (oc_category row) d"] Cons.prems
    show ?case by (auto simp: dict_simps split: if_splits)
  qed simp
  from this [of "[]"] show "map_of (by_operation rows) oid = Some c \<Longrightarrow> \<exists>row \<in> set rows. oc_category row = c"
    by (simp add: by_operation_def)
qed

lemma billing_category_four:
  assumes "four_categories ops svc s"
  shows "billing_category ops svc s oid \<in> set CATEGORY_ORDERING"
proof (cases "map_of (by_operation (list_mes_operation_categories ops s)) oid")
  case (Some c)
  then show ?thesis
    using assms by_operation_range [OF Some] by (auto simp: billing_category_def four_categories_def)
next
  case None
  have "CATEGORY_OTHER \<in> set CATEGORY_ORDERING" by (simp add: CATEGORY_ORDERING_def)
  then show ?thesis
    using None assms by (force simp: billing_category_def default_category_def four_categories_def
        dest: map_of_SomeD split: option.split)
qed

lemma resolved_billing:
  "f \<in> set facts \<Longrightarrow> resolved_category (categories_for ops (os_defaults svc) (set (map fm_operation_id facts)) s) f =
    billing_category ops svc s (fm_operation_id f)"
  by (simp add: resolved_category_def categories_for_def billing_category_def)

lemma resolved_billing_map:
  "map (resolved_category (categories_for ops (os_defaults svc) (set (map fm_operation_id facts)) s)) facts =
    map (\<lambda>f. billing_category ops svc s (fm_operation_id f)) facts"
  by (rule map_cong [OF refl]) (rule resolved_billing)

lemma count_list_map: "count_list (map g xs) c = length (filter (\<lambda>x. g x = c) xs)"
  by (induction xs) auto

lemma distinct_categories: "distinct CATEGORY_ORDERING"
  by (simp add: CATEGORY_ORDERING_def CATEGORY_OUTPUT_def CATEGORY_PAYROLL_def CATEGORY_ORDER_def CATEGORY_OTHER_def)

lemma category_counts_total:
  assumes "set cs \<subseteq> set CATEGORY_ORDERING"
  shows "sum_list (map snd (category_counts (counter cs))) = length cs"
proof -
  have "sum_list (map snd (category_counts (counter cs))) = (\<Sum>c \<in> set CATEGORY_ORDERING. count_list cs c)"
    by (simp add: category_counts_def comp_def sum_list_distinct_conv_sum_set [OF distinct_categories])
  also have "\<dots> = (\<Sum>c \<in> set cs. count_list cs c)"
    using assms by (intro sum.mono_neutral_right) (auto simp: count_list_0_iff)
  finally show ?thesis by (simp add: sum_count_set)
qed

lemma with_tenants_Inr:
  assumes "with_tenants ops svc scope a b ref s nothing body = Inr v"
  obtains T where "tenant_ids ops scope a b ref s = Inr T" "check_range svc a b = Inr ()"
    "T = {} \<Longrightarrow> v = nothing" "T \<noteq> {} \<Longrightarrow> body T = Inr v"
  using assms by (auto simp: with_tenants_def result_simps split: if_splits)

section \<open>Properties\<close>

text \<open>Every report of the service on one question.\<close>

definition all_reports where
  "all_reports ops svc std scope a b g ms dimension limit offset name ref s =
     ((summary ops svc scope a b ref s, timeseries ops svc scope a b g ms ref s,
       dimensions ops svc std scope a b dimension ref s, users ops svc scope a b limit offset ref s,
       mes_categories ops svc scope a b ref s),
      (mes_failures ops svc scope a b ref s, mes_operations ops svc scope a b ref s,
       models ops svc scope a b ref s, errors ops svc scope a b ref s,
       by_tenant ops svc scope a b limit offset name ref s))"

text \<open>
  \<^bold>\<open>C19\<close>.  Reports never look beyond the scope.  For an operator with a tenant scope, every
  report of the production store, for every window, filter, page and granularity, answers (or refuses)
  exactly as it would if the metering tables held no rows of any other tenant; and when the request is
  within the scope - its handle, if any, resolves to a factory of the scope and its name search finds
  factories of the scope only - exactly as it would if the tenant registry held no other factory either.
\<close>

theorem reports_confined_to_scope:
  assumes "ps_tenant_ids scope \<noteq> {}"
  shows "all_reports (postgres_ops lower) svc std scope a b g ms dimension limit offset name ref
      (restrict_db (ps_tenant_ids scope) d) =
    all_reports (postgres_ops lower) svc std scope a b g ms dimension limit offset name ref d \<and>
    (asks_within (postgres_ops lower) scope name ref d \<longrightarrow>
      all_reports (postgres_ops lower) svc std scope a b g ms dimension limit offset name ref
        (restrict_db (ps_tenant_ids scope) (hide_factories (ps_tenant_ids scope) d)) =
      all_reports (postgres_ops lower) svc std scope a b g ms dimension limit offset name ref d)"
proof -
  have metering: "all_reports (postgres_ops lower) svc std scope a b g ms dimension limit offset name ref
      (restrict_db (ps_tenant_ids scope) d') =
    all_reports (postgres_ops lower) svc std scope a b g ms dimension limit offset name ref d'" for d'
    using assms by (simp add: all_reports_def postgres_reports.summary_restrict postgres_reports.timeseries_restrict
      postgres_reports.dimensions_restrict postgres_reports.users_restrict postgres_reports.mes_reports_restrict
      postgres_reports.llm_reports_restrict postgres_reports.by_tenant_restrict)
  then show ?thesis
    using postgres_registry.reports_hidden [OF assms] postgres_registry.by_tenant_hidden [OF assms]
    by (simp add: all_reports_def)
qed

text \<open>
  The billing report adds up.  When the category table and the default mapping use the
  four billing categories only, the report of successful MES calls shows under every category exactly
  the completed calls of the reported tenants in the window whose operation the table (or else the
  default mapping, or else \<open>other\<close>) puts there, and its total is the number of completed calls.
\<close>

theorem mes_categories_exact:
  assumes "mes_categories (postgres_ops lower) svc scope a b ref d = Inr v"
    and "four_categories (postgres_ops lower) svc d"
  shows "\<exists>T. tenant_ids (postgres_ops lower) scope a b ref d = Inr T \<and>
    mv_total v = length (completed_calls (pg_list_mes_call_facts T a b d)) \<and>
    (\<forall>c \<in> set CATEGORY_ORDERING. map_of (mv_categories v) c = Some (length (filter
      (\<lambda>f. billing_category (postgres_ops lower) svc d (fm_operation_id f) = c)
      (completed_calls (pg_list_mes_call_facts T a b d)))))"
proof -
  let ?ops = "postgres_ops lower"
  obtain T where T: "tenant_ids ?ops scope a b ref d = Inr T"
    and vacuous: "T = {} \<Longrightarrow> v = ops_view.extend (view_of svc {} a b) (mes_categories_view.fields empty_categories 0 False)"
    and body: "T \<noteq> {} \<Longrightarrow> (let completed = completed_calls (list_mes_call_facts ?ops T a b d);
           resolved = categories_for ?ops (os_defaults svc) (set (map fm_operation_id completed)) d;
           categories = category_counts (counter (map (resolved_category resolved) completed)) in
       Inr (ops_view.extend (view_of svc T a b)
         (mes_categories_view.fields categories (sum_list (map snd categories)) False))) = (Inr v :: ops_error + _)"
    using assms(1) unfolding mes_categories_def by (rule with_tenants_Inr) (use that in blast)
  let ?calls = "completed_calls (pg_list_mes_call_facts T a b d)"
  let ?cat = "\<lambda>f. billing_category ?ops svc d (fm_operation_id f)"
  show ?thesis
  proof (cases "T = {}")
    case True
    have "mv_total v = 0" "mv_categories v = empty_categories"
      unfolding vacuous [OF True] by (simp_all add: ops_view.defs mes_categories_view.defs)
    then show ?thesis
      using T True by (simp add: completed_calls_def pg_list_mes_call_facts_def empty_categories_def map_of_map_dict)
  next
    case False
    have facts: "list_mes_call_facts ?ops T a b d = pg_list_mes_call_facts T a b d" by (simp add: postgres_ops_def)
    have v: "mv_categories v = category_counts (counter (map ?cat ?calls))"
      "mv_total v = sum_list (map snd (category_counts (counter (map ?cat ?calls))))"
      using body [OF False] unfolding Let_def facts resolved_billing_map
      by (auto simp: ops_view.defs mes_categories_view.defs)
    have "set (map ?cat ?calls) \<subseteq> set CATEGORY_ORDERING"
      using billing_category_four [OF assms(2)] by auto
    then show ?thesis
      using T by (simp add: v category_counts_total)
        (simp add: category_counts_def map_of_map_dict count_list_map)
  qed
qed

text \<open>
  A name filter that matches no factory is ignored: the usage table then lists exactly
  what it lists without a filter, so the operator sees every factory of the scope.
\<close>

theorem unmatched_name_lists_everyone:
  assumes "pg_search_tenant_registry_names lower name d = []"
  shows "by_tenant (postgres_ops lower) svc scope a b limit offset (Some name) None d =
    by_tenant (postgres_ops lower) svc scope a b limit offset None None d"
proof -
  have "requested_tenants (postgres_ops lower) scope by_ref (Some name) None d =
      requested_tenants (postgres_ops lower) scope by_ref None None d" for by_ref
    using assms by (simp add: requested_tenants_def postgres_ops_def)
  then show ?thesis by (simp add: by_tenant_def)
qed

text \<open>The ranking of the users behind the pages.\<close>

definition user_ranking :: "pystr set \<Rightarrow> instant \<Rightarrow> instant \<Rightarrow> usage_db \<Rightarrow> (pystr \<times> nat) list" where
  "user_ranking T a b d = sort_key (\<lambda>(x, n). (- int n, x)) (counter (map fi_user_subject_id
     (filter (\<lambda>f. fi_event_type f = u ''interaction_started'') (pg_list_interaction_facts T a b d))))"

lemma pg_activity_ranking:
  "T \<noteq> {} \<Longrightarrow> pg_query_user_activity T a b n k d =
    (take n (drop k (user_ranking T a b d)), length (user_ranking T a b d))"
proof -
  have count: "length (filter ((=) x) ys) = count_list ys x" for ys and x :: pystr
    by (simp add: count_list_eq_length_filter eq_commute)
  have "card (set ys) = length (counter ys)" for ys :: "pystr list"
    by (metis distinct_card distinct_from_keys keys_counter length_map set_from_keys)
  then show "T \<noteq> {} \<Longrightarrow> ?thesis"
    by (simp add: pg_query_user_activity_def user_ranking_def Let_def count flip: counter_eq)
qed

text \<open>
  Paging through the reports loses nothing.  For a valid request, following the next
  cursors of the user report yields every user of the reported tenants once, with the number of
  questions asked in the window, the most active first; and following those of the usage table without
  filters yields one row for every factory of the scope (platform-wide: every registered factory and
  every one with data), in order of its key.
\<close>

theorem report_pages_exact:
  assumes range: "check_range svc a b = Inr ()" and page: "clamp_page svc limit = Inr n" "0 < n"
    and T: "tenant_ids (postgres_ops lower) scope a b ref d = Inr T" "T \<noteq> {}"
    and C: "C = candidate_tenant_keys (postgres_ops lower) scope a b
      (registry_by_key (pg_list_all_tenant_registry d)) d" "C \<noteq> {}"
  shows "walk_pages (Suc (length (user_ranking T a b d)))
      (\<lambda>c. map_sum id (\<lambda>p. (up_items p, up_next_cursor p))
        (users (postgres_ops lower) svc scope a b limit (case c of None \<Rightarrow> 0 | Some k \<Rightarrow> int k) ref d)) (Some 0) =
      Some (Inr (map (\<lambda>(x, m). \<lparr>ua_user_subject_id = x, ua_question_count = m\<rparr>) (user_ranking T a b d))) \<and>
    (\<forall>(x, m) \<in> set (user_ranking T a b d). m = length (filter (\<lambda>f. fi_event_type f = u ''interaction_started'' \<and>
        fi_user_subject_id f = x) (pg_list_interaction_facts T a b d))) \<and>
    (\<exists>rows. walk_pages (Suc (length rows))
      (\<lambda>c. map_sum id (\<lambda>p. (bp_items p, bp_next_cursor p))
        (by_tenant (postgres_ops lower) svc scope a b limit (case c of None \<Rightarrow> 0 | Some k \<Rightarrow> int k) None None d))
        (Some 0) = Some (Inr rows) \<and> map bi_app_key rows = sorted_list_of_set C)"
proof (intro conjI)
  let ?ops = "postgres_ops lower"
  let ?items = "map (\<lambda>(x, m). \<lparr>ua_user_subject_id = x, ua_question_count = m\<rparr>) (user_ranking T a b d)"
  have ops: "query_user_activity ?ops = pg_query_user_activity"
    "list_all_tenant_registry ?ops = pg_list_all_tenant_registry" by (simp_all add: postgres_ops_def)
  have users: "map_sum id (\<lambda>p. (up_items p, up_next_cursor p)) (users ?ops svc scope a b limit (int k) ref d) =
      Inr (offset_page n k ?items)" for k
    by (simp add: users_def range T page ops pg_activity_ranking offset_page_def Let_def ops_view.defs
        users_page.defs take_map drop_map)
  have "walk_pages (Suc (length ?items))
      (\<lambda>c. map_sum id (\<lambda>p. (up_items p, up_next_cursor p))
        (users ?ops svc scope a b limit (case c of None \<Rightarrow> 0 | Some k \<Rightarrow> int k) ref d)) (Some 0) = Some (Inr ?items)"
    by (rule walk_offset_all [OF page(2)]) (simp only: option.case users)
  then show "walk_pages (Suc (length (user_ranking T a b d)))
      (\<lambda>c. map_sum id (\<lambda>p. (up_items p, up_next_cursor p))
        (users ?ops svc scope a b limit (case c of None \<Rightarrow> 0 | Some k \<Rightarrow> int k) ref d)) (Some 0) = Some (Inr ?items)"
    by (simp only: length_map)
  show "\<forall>(x, m) \<in> set (user_ranking T a b d). m = length (filter (\<lambda>f. fi_event_type f = u ''interaction_started'' \<and>
      fi_user_subject_id f = x) (pg_list_interaction_facts T a b d))"
    by (auto simp: user_ranking_def counter_eq count_list_map conj_commute)
  let ?rows = "map (by_tenant_row ?ops svc a b (registry_by_key (pg_list_all_tenant_registry d))
    (list_rollup_rows ?ops C a b HOUR d) (list_mes_call_facts ?ops C a b d) d) (sorted_list_of_set C)"
  have row: "map_sum id (\<lambda>p. (bp_items p, bp_next_cursor p))
      (by_tenant ?ops svc scope a b limit (int k) None None d) = Inr (offset_page n k ?rows)" for k
    using C(2) by (simp add: by_tenant_def range page ops requested_tenants_def offset_page_def Let_def
        ops_view.defs by_tenant_page.defs flip: C(1))
  have "walk_pages (Suc (length ?rows))
      (\<lambda>c. map_sum id (\<lambda>p. (bp_items p, bp_next_cursor p))
        (by_tenant ?ops svc scope a b limit (case c of None \<Rightarrow> 0 | Some k \<Rightarrow> int k) None None d)) (Some 0) =
      Some (Inr ?rows)"
    by (rule walk_offset_all [OF page(2)]) (simp only: option.case row)
  moreover have "map bi_app_key ?rows = sorted_list_of_set C"
    by (simp add: by_tenant_row_def Let_def comp_def)
  ultimately show "\<exists>rows. walk_pages (Suc (length rows))
      (\<lambda>c. map_sum id (\<lambda>p. (bp_items p, bp_next_cursor p))
        (by_tenant ?ops svc scope a b limit (case c of None \<Rightarrow> 0 | Some k \<Rightarrow> int k) None None d)) (Some 0) =
      Some (Inr rows) \<and> map bi_app_key rows = sorted_list_of_set C" by blast
qed

section \<open>Timeseries\<close>

lemma sum_pick: "(\<Sum>m' \<leftarrow> ms. if m' = m then (x::real) else 0) = real (count_list ms m) * x"
  by (induction ms) (auto simp: algebra_simps)

lemma sum_grid:
  assumes "distinct bs"
  shows "(\<Sum>(k, v) \<leftarrow> concat (map (\<lambda>b'. map (\<lambda>m'. ((b', m'), f (b', m'))) ms) bs). if k = (b, m) then v else 0) =
    (if b \<in> set bs then real (count_list ms m) * f (b, m) else (0::real))"
  using assms
proof (induction bs)
  case (Cons b' bs)
  have "(\<Sum>m' \<leftarrow> ms. if (b', m') = (b, m) then f (b', m') else 0) =
      (if b' = b then real (count_list ms m) * f (b, m) else 0)"
  proof (cases "b' = b")
    case True
    have "map (\<lambda>m'. if (b', m') = (b, m) then f (b', m') else 0) ms = map (\<lambda>m'. if m' = m then f (b, m) else 0) ms"
      using True by (intro map_cong) auto
    then show ?thesis using True by (simp only: sum_pick if_True simp_thms)
  qed simp
  then show ?case using Cons by (auto simp: comp_def)
qed simp

lemma bucket_keys: "set (map (fst \<circ> fst) (sum_dict incs)) = fst ` fst ` set incs"
  unfolding set_map image_comp [symmetric] keys_sum_dict ..

lemma point_buckets: "pt_bucket ` set (map (\<lambda>b. \<lparr>pt_bucket = b, pt_metrics = h b\<rparr>) bs) = set bs"
  by (simp add: image_image)

lemma grid_member:
  "b \<in> set bs \<Longrightarrow> m \<in> set ms \<Longrightarrow> ((b, m), f (b, m)) \<in> set (concat (map (\<lambda>b. map (\<lambda>m. ((b, m), f (b, m))) ms) bs))"
  by auto

lemma sum_filter_one: "(\<Sum>x \<leftarrow> xs. if P x then 1 else (0::real)) = real (length (filter P xs))"
  by (induction xs) auto

text \<open>The completed calls of one bucket and metric.\<close>

definition bucket_calls ::
  "'s usage_ops \<Rightarrow> ops_service \<Rightarrow> pystr set \<Rightarrow> instant \<Rightarrow> instant \<Rightarrow> granularity \<Rightarrow> 's \<Rightarrow> instant \<Rightarrow> pystr \<Rightarrow>
   mes_call_fact list" where
  "bucket_calls ops svc T a b g s bucket m = filter (\<lambda>f.
     bucket_start (os_utc_offset svc) (fm_occurred_at f) g = bucket \<and>
     u ''mes_'' @ billing_category ops svc s (fm_operation_id f) = m) (completed_calls (list_mes_call_facts ops T a b s))"

lemma mes_buckets_at:
  "get0 (mes_category_buckets ops svc T a b g s) (bucket, m) = real (length (bucket_calls ops svc T a b g s bucket m))"
proof -
  let ?calls = "completed_calls (list_mes_call_facts ops T a b s)"
  let ?key = "\<lambda>f. (bucket_start (os_utc_offset svc) (fm_occurred_at f) g,
    u ''mes_'' @ billing_category ops svc s (fm_operation_id f))"
  have "map (\<lambda>f. ((bucket_start (os_utc_offset svc) (fm_occurred_at f) g, u ''mes_'' @ resolved_category
      (categories_for ops (os_defaults svc) (set (map fm_operation_id ?calls)) s) f), 1::real)) ?calls =
    map (\<lambda>f. (?key f, 1)) ?calls"
    by (rule map_cong [OF refl]) (simp only: resolved_billing)
  then have "mes_category_buckets ops svc T a b g s = sum_dict (map (\<lambda>f. (?key f, 1)) ?calls)"
    by (simp only: mes_category_buckets_def Let_def)
  then show ?thesis
    by (simp add: get0_sum_dict comp_def sum_filter_one bucket_calls_def)
qed

lemma mes_bucket_keys:
  "fst ` fst ` set (mes_category_buckets ops svc T a b g s) =
    (\<lambda>f. bucket_start (os_utc_offset svc) (fm_occurred_at f) g) ` set (completed_calls (list_mes_call_facts ops T a b s))"
  by (simp add: mes_category_buckets_def Let_def keys_sum_dict image_image)

lemma get0_absent: "k \<notin> fst ` set d \<Longrightarrow> get0 d k = 0"
  by (simp add: get0_def map_of_eq_None_iff [THEN iffD2])

lemma sum_no_key: "(\<forall>(k', v) \<in> set incs. k' \<noteq> k) \<Longrightarrow> (\<Sum>(k', v) \<leftarrow> incs. if k' = k then v else (0::real)) = 0"
  by (induction incs) auto

text \<open>
  The chart of MES calls.  When the rollup rows carry none of the four MES metrics (those
  the rollup writes never do), every point of the chart shows for such a metric the number of completed
  calls of its category whose bucket it is, multiplied by how often the request names the metric; and
  unless the chart says it is incomplete, every completed call of the window falls into one of its
  points.  An hour bucket starts at the full hour exactly when the connection's zone is UTC.
\<close>

theorem timeseries_counts_calls:
  assumes v: "timeseries (postgres_ops lower) svc scope a b g metrics ref d = Inr v"
    and T: "tenant_ids (postgres_ops lower) scope a b ref d = Inr T" "T \<noteq> {}"
    and m: "m \<in> set metrics" "m \<in> set MES_METRICS"
    and rollup: "\<forall>r \<in> set (pg_list_rollup_rows T a b g d). rw_metric r \<notin> set MES_METRICS"
  shows "(\<forall>p \<in> set (tv_points v). map_of (pt_metrics p) m =
      Some (real (count_list metrics m) * real (length (bucket_calls (postgres_ops lower) svc T a b g d (pt_bucket p) m)))) \<and>
    (\<not> tv_incomplete v \<longrightarrow> (\<forall>f \<in> set (completed_calls (pg_list_mes_call_facts T a b d)).
      bucket_start (os_utc_offset svc) (fm_occurred_at f) g \<in> pt_bucket ` set (tv_points v)))"
proof -
  let ?ops = "postgres_ops lower"
  let ?requested = "filter (\<lambda>m. m \<in> set ADDITIVE_METRICS) metrics"
  let ?mes = "filter (\<lambda>m. m \<in> set MES_METRICS) ?requested"
  let ?rows = "pg_list_rollup_rows T a b g d"
  let ?buckets = "mes_category_buckets ?ops svc T a b g d"
  let ?bs = "from_keys (map (fst \<circ> fst) ?buckets)"
  let ?incs = "map (\<lambda>r. ((rw_bucket_start r, rw_metric r), rw_value r)) ?rows @
    concat (map (\<lambda>b. map (\<lambda>m. ((b, m), get0 ?buckets (b, m))) ?mes) ?bs)"
  let ?limit = "ol_timeseries_max_buckets (os_limits svc)"
  let ?all = "map (\<lambda>b. \<lparr>pt_bucket = b, pt_metrics = map (\<lambda>m. (m, get0 (sum_dict ?incs) (b, m))) (from_keys ?requested)\<rparr>)
    (sorted_list_of_set (set (map (fst \<circ> fst) (sum_dict ?incs))))"
  have additive: "m \<in> set ADDITIVE_METRICS" using m(2) by (simp add: ADDITIVE_METRICS_def)
  have nonempty: "?mes \<noteq> []" using m additive by (auto simp: filter_empty_conv)
  have ops: "list_rollup_rows ?ops = pg_list_rollup_rows" "list_mes_call_facts ?ops = pg_list_mes_call_facts"
    by (simp_all add: postgres_ops_def)
  have view: "tv_points v = take ?limit ?all"
    "tv_incomplete v = (length (take ?limit ?all) \<ge> ?limit \<or> rollup_behind ?rows (query_freshness ?ops T a b d)
      (ol_rollup_lag_tolerance (os_limits svc)))"
    using v T nonempty unfolding timeseries_def with_tenants_def Let_def ops
    by (auto simp: result_simps ops_view.defs timeseries_view.defs)
  have at: "get0 (sum_dict ?incs) (k, m) =
      real (count_list metrics m) * real (length (bucket_calls ?ops svc T a b g d k m))" for k
  proof -
    have "count_list ?mes m = count_list metrics m"
      using m additive by (simp add: count_list_eq_length_filter conj_ac) (rule arg_cong [of _ _ length], auto intro: filter_cong)
    moreover have "(\<Sum>(k', x) \<leftarrow> map (\<lambda>r. ((rw_bucket_start r, rw_metric r), rw_value r)) ?rows.
        if k' = (k, m) then x else 0) = 0"
      using rollup m(2) by (intro sum_no_key) auto
    moreover have "get0 ?buckets (k, m) = 0" if "k \<notin> set ?bs"
      using that by (intro get0_absent) force
    ultimately show ?thesis
      by (simp only: get0_sum_dict map_append sum_list_append sum_grid [OF distinct_from_keys] mes_buckets_at [symmetric])
        simp
  qed
  have "map_of (pt_metrics p) m =
      Some (real (count_list metrics m) * real (length (bucket_calls ?ops svc T a b g d (pt_bucket p) m)))"
    if "p \<in> set (tv_points v)" for p
  proof -
    have "p \<in> set ?all" using that unfolding view(1) by (rule in_set_takeD)
    then obtain k where p: "p = \<lparr>pt_bucket = k, pt_metrics = map (\<lambda>m. (m, get0 (sum_dict ?incs) (k, m))) (from_keys ?requested)\<rparr>"
      unfolding set_map by blast
    have "m \<in> set (from_keys ?requested)" using m additive by simp
    then show ?thesis unfolding p by (simp only: timeseries_point.select_convs map_of_map_dict at if_True)
  qed
  moreover have "bucket_start (os_utc_offset svc) (fm_occurred_at f) g \<in> pt_bucket ` set (tv_points v)"
    if complete: "\<not> tv_incomplete v" and f: "f \<in> set (completed_calls (pg_list_mes_call_facts T a b d))" for f
  proof -
    let ?k = "bucket_start (os_utc_offset svc) (fm_occurred_at f) g"
    have short: "take n xs = xs" if "\<not> length (take n xs) \<ge> n" for n and xs :: "timeseries_point list"
      using that by simp
    have "take ?limit ?all = ?all" using complete unfolding view(2) by (intro short) blast
    moreover have "?k \<in> set ?bs"
      using f mes_bucket_keys [of ?ops svc T a b g d] by (simp add: ops image_comp)
    then have "((?k, m), get0 ?buckets (?k, m)) \<in> set ?incs"
      using grid_member [of ?k ?bs m ?mes "get0 ?buckets"] m additive by simp
    then have "fst (fst ((?k, m), get0 ?buckets (?k, m))) \<in> fst ` fst ` set ?incs"
      by (intro imageI)
    then have k: "?k \<in> set (map (fst \<circ> fst) (sum_dict ?incs))"
      by (simp only: bucket_keys fst_conv)
    ultimately show ?thesis by (simp only: view(1) point_buckets set_sorted_list_of_set [OF finite_set])
  qed
  ultimately show ?thesis by blast
qed

text \<open>The rollup writes none of the four MES metrics of the reports, and an hour bucket is the full
  hour when the connection's zone is UTC, eight hours later in \<open>Asia/Shanghai\<close>.\<close>

lemma rollup_metrics_disjoint: "set base_keys \<inter> set MES_METRICS = {}"
  by (simp add: base_keys_def MES_METRICS_def INTERACTION_METRICS_def LLM_METRICS_def
      INTERACTION_STATUS_LABELS_def MES_CATEGORIES_def u_def)

lemma store_hour_bucket_utc: "store_hour_bucket 0 t = hour_bucket t"
  by (simp add: store_hour_bucket_def hour_bucket_def)

lemma store_hour_bucket_shanghai: "store_hour_bucket (8 * us_hour) t = hour_bucket t + 8 * us_hour"
  unfolding store_hour_bucket_def hour_bucket_def
  by (subst div_mult_self1) (simp_all add: algebra_simps us_defs)

section \<open>Truncation\<close>

lemma top_values_all:
  assumes "card (set vs) \<le> limit"
  shows "map_of (top_values limit vs) x = (if x \<in> set vs then Some (real (count_list vs x)) else None)"
proof -
  have len: "length (counter vs) = card (set vs)"
    by (metis distinct_card distinct_from_keys keys_counter length_map set_from_keys)
  let ?mc = "most_common (counter vs)"
  have all: "top_values limit vs = map (\<lambda>(k, n). (k, real n)) ?mc"
    using assms by (simp add: top_values_def len)
  have "distinct (map fst (counter vs))" by simp
  then have "distinct (map fst ?mc)"
    unfolding distinct_map most_common_def by simp
  then have eq: "map_of ?mc = map_of (counter vs)"
    by (intro map_of_inject_set [THEN iffD2]) simp_all
  have "map_of (map (\<lambda>(k, n). (k, real n)) ?mc) x = map_option real (map_of ?mc x)"
    by (simp add: map_of_map)
  also have "\<dots> = (if x \<in> set vs then Some (real (count_list vs x)) else None)"
    by (simp add: eq) (simp add: counter_eq map_of_map_dict)
  finally show ?thesis by (simp only: all)
qed

text \<open>
  The breakdown by operation.  Whenever the reported tenants use no more operations than
  the row limit, the report shows every operation with its exact number of completed calls; the
  truncation flag, however, is raised as soon as there are more calls than the limit, whether or not a
  row was dropped, so it is never missing but can be raised on a complete answer.
\<close>

theorem operations_truncation:
  assumes "mes_operations (postgres_ops lower) svc scope a b ref d = Inr v"
  shows "\<exists>T. tenant_ids (postgres_ops lower) scope a b ref d = Inr T \<and>
    (xv_truncated v \<longleftrightarrow> ol_max_dimension_rows (os_limits svc) <
       length (completed_calls (pg_list_mes_call_facts T a b d))) \<and>
    (card (fm_operation_id ` set (completed_calls (pg_list_mes_call_facts T a b d))) \<le> ol_max_dimension_rows (os_limits svc) \<longrightarrow>
      (\<forall>oid. map_of (xv_values v) oid =
        (let n = length (filter (\<lambda>f. fm_operation_id f = oid) (completed_calls (pg_list_mes_call_facts T a b d)))
         in if n = 0 then None else Some (real n))))"
proof -
  let ?ops = "postgres_ops lower" and ?limit = "ol_max_dimension_rows (os_limits svc)"
  obtain T where T: "tenant_ids ?ops scope a b ref d = Inr T"
    and vacuous: "T = {} \<Longrightarrow> v = ops_view.extend (view_of svc {} a b) (values_view.fields [] False)"
    and body: "T \<noteq> {} \<Longrightarrow> (let vs = map fm_operation_id (completed_calls (list_mes_call_facts ?ops T a b d)); limit = ?limit in
       Inr (ops_view.extend (view_of svc T a b) (values_view.fields (top_values limit vs) (over_limit limit vs)))) =
       (Inr v :: ops_error + _)"
    using assms(1) unfolding mes_operations_def by (rule with_tenants_Inr) (use that in blast)
  let ?calls = "completed_calls (pg_list_mes_call_facts T a b d)"
  let ?vs = "map fm_operation_id ?calls"
  have v: "xv_values v = (if T = {} then [] else top_values ?limit ?vs)"
    "xv_truncated v \<longleftrightarrow> T \<noteq> {} \<and> over_limit ?limit ?vs"
  proof (atomize (full), cases "T = {}")
    case True
    then show "xv_values v = (if T = {} then [] else top_values ?limit ?vs) \<and>
        (xv_truncated v \<longleftrightarrow> T \<noteq> {} \<and> over_limit ?limit ?vs)"
      unfolding vacuous [OF True] by (simp add: ops_view.defs values_view.defs)
  next
    case False
    have facts: "list_mes_call_facts ?ops T a b d = pg_list_mes_call_facts T a b d" by (simp add: postgres_ops_def)
    show "xv_values v = (if T = {} then [] else top_values ?limit ?vs) \<and>
        (xv_truncated v \<longleftrightarrow> T \<noteq> {} \<and> over_limit ?limit ?vs)"
      using body [OF False] False unfolding Let_def facts by (auto simp: ops_view.defs values_view.defs)
  qed
  have none: "?calls = []" if "T = {}" using that by (simp add: pg_list_mes_call_facts_def completed_calls_def)
  have count: "count_list ?vs oid = length (filter (\<lambda>f. fm_operation_id f = oid) ?calls)" for oid
    by (rule count_list_map)
  have "map_of (xv_values v) oid = (let n = length (filter (\<lambda>f. fm_operation_id f = oid) ?calls)
      in if n = 0 then None else Some (real n))"
    if le: "card (fm_operation_id ` set ?calls) \<le> ?limit" for oid
  proof (cases "T = {}")
    case False
    have "count_list ?vs oid = 0 \<longleftrightarrow> oid \<notin> set ?vs" by (rule count_list_0_iff)
    then show ?thesis
      using le False top_values_all [of ?vs ?limit oid] by (simp add: v Let_def count)
  qed (use none in \<open>simp add: v\<close>)
  moreover have "xv_truncated v \<longleftrightarrow> ?limit < length ?calls"
    using none by (auto simp: v over_limit_def sum_counter)
  ultimately show ?thesis using T by blast
qed

section \<open>Witnesses\<close>

definition demo_call :: "pystr \<Rightarrow> pystr \<Rightarrow> mes_call_fact" where
  "demo_call tenant oid = \<lparr>fm_event_id = oid, fm_tenant_id = tenant, fm_session_id = [], fm_interaction_id = [],
     fm_occurred_at = 5, fm_operation_id = oid, fm_page_count = 1, fm_row_count_bucket = u ''0'',
     fm_duration_ms = 1, fm_status = u ''completed'', fm_error_category = None, fm_started_at = None,
     fm_ended_at = None, fm_parent_span_id = None, fm_received_at = 5\<rparr>"

definition demo_question :: interaction_fact where
  "demo_question = \<lparr>fi_event_id = u ''e'', fi_tenant_id = u ''t'', fi_session_id = [], fi_interaction_id = [],
     fi_event_type = u ''interaction_started'', fi_user_subject_id = u ''ann'', fi_occurred_at = 5,
     fi_capability_id = None, fi_entrypoint = None, fi_role_category = None, fi_status = None,
     fi_duration_ms = None, fi_mes_duration_ms = None, fi_llm_duration_ms = None, fi_local_duration_ms = None,
     fi_result_rows_bucket = None, fi_error_category = None, fi_received_at = 5\<rparr>"

definition demo_usage_db :: usage_db where
  "demo_usage_db = \<lparr>ud_interaction_fact = [demo_question], ud_llm_call_fact = [],
     ud_mes_call_fact = Some [demo_call (u ''t'') (u ''ScjdQuery''), demo_call (u ''x'') (u ''DeptQuery'')],
     ud_mes_operation_category = Some [], ud_usage_hourly = [], ud_usage_daily = [], ud_admin_audit = [],
     ud_usage_export = [], ud_tenant_registry = [], ud_platform_principal = []\<rparr>"

definition demo_ops :: ops_service where
  "demo_ops = \<lparr>os_timezone_name = u ''UTC'', os_limits = DEFAULT_OPS_LIMITS,
     os_defaults = DEFAULT_OPERATION_CATEGORIES, os_utc_offset = 0\<rparr>"

definition demo_viewer :: platform_scope where
  "demo_viewer = \<lparr>ps_principal_id = u ''v'', ps_role = VIEWER, ps_tenant_ids = {u ''t''}\<rparr>"

lemma demo_ops_facts:
  "check_range demo_ops 0 10 = Inr ()"
  "tenant_ids (postgres_ops id) demo_viewer 0 10 None demo_usage_db = Inr {u ''t''}"
  "pg_list_mes_call_facts {u ''t''} 0 10 demo_usage_db = [demo_call (u ''t'') (u ''ScjdQuery'')]"
  "pg_list_interaction_facts {u ''t''} 0 10 demo_usage_db = [demo_question]"
  "clamp_page demo_ops None = Inr 50"
  by (simp_all add: check_range_def demo_ops_def DEFAULT_OPS_LIMITS_def us_defs tenant_ids_def demo_viewer_def
      pg_list_mes_call_facts_def pg_list_interaction_facts_def demo_usage_db_def demo_call_def demo_question_def
      in_window_def clamp_page_def)

lemma demo_four: "four_categories (postgres_ops id) demo_ops demo_usage_db"
  by (simp add: four_categories_def postgres_ops_def pg_list_mes_operation_categories_def demo_usage_db_def
      demo_ops_def DEFAULT_OPERATION_CATEGORIES_def CATEGORY_ORDERING_def)

definition foreign_factory :: tenant_record where
  "foreign_factory = \<lparr>tr_app_key = u ''x'', tr_tenant_ref = u ''rx'', tr_tenant_name = u ''other'',
     tr_status = u ''active'', tr_created_at = 0, tr_updated_at = 0\<rparr>"

definition demo_registry_db :: usage_db where
  "demo_registry_db = demo_usage_db\<lparr>ud_tenant_registry := [foreign_factory]\<rparr>"

theorem reports_confined_to_scope_witness:
  "by_tenant (postgres_ops id) demo_ops demo_viewer 0 10 None 0 None None
      (restrict_db {u ''t''} (hide_factories {u ''t''} demo_registry_db)) =
     by_tenant (postgres_ops id) demo_ops demo_viewer 0 10 None 0 None None demo_registry_db \<and>
   ud_mes_call_fact (restrict_db {u ''t''} demo_registry_db) \<noteq> ud_mes_call_fact demo_registry_db \<and>
   ud_tenant_registry (hide_factories {u ''t''} demo_registry_db) \<noteq> ud_tenant_registry demo_registry_db"
proof -
  have scope: "ps_tenant_ids demo_viewer = {u ''t''}" by (simp add: demo_viewer_def)
  have "ps_tenant_ids demo_viewer \<noteq> {}" by (simp add: scope)
  moreover have "asks_within (postgres_ops id) demo_viewer None None demo_registry_db" by (simp add: asks_within_def)
  ultimately have "all_reports (postgres_ops id) demo_ops demo_std demo_viewer 0 10 HOUR [] (u ''status'') None 0 None None
      (restrict_db {u ''t''} (hide_factories {u ''t''} demo_registry_db)) =
    all_reports (postgres_ops id) demo_ops demo_std demo_viewer 0 10 HOUR [] (u ''status'') None 0 None None demo_registry_db"
    using reports_confined_to_scope [of demo_viewer id demo_ops demo_std 0 10 HOUR "[]" "u ''status''" None 0 None None
      demo_registry_db] by (simp add: scope)
  then show ?thesis
    by (simp add: all_reports_def) (simp add: restrict_db_def hide_factories_def demo_registry_db_def demo_usage_db_def
      demo_call_def foreign_factory_def)
qed

theorem mes_categories_exact_witness:
  "\<exists>v. mes_categories (postgres_ops id) demo_ops demo_viewer 0 10 None demo_usage_db = Inr v \<and> mv_total v = 1 \<and>
     map_of (mv_categories v) CATEGORY_ORDER = Some 1"
proof -
  obtain v where v: "mes_categories (postgres_ops id) demo_ops demo_viewer 0 10 None demo_usage_db = Inr v"
    by (simp add: mes_categories_def with_tenants_def demo_ops_facts Let_def)
  have "CATEGORY_ORDER \<in> set CATEGORY_ORDERING" by (simp add: CATEGORY_ORDERING_def)
  moreover have "billing_category (postgres_ops id) demo_ops demo_usage_db (u ''ScjdQuery'') = CATEGORY_ORDER"
    by (simp add: billing_category_def postgres_ops_def pg_list_mes_operation_categories_def demo_usage_db_def
        by_operation_def default_category_def demo_ops_def DEFAULT_OPERATION_CATEGORIES_def)
  ultimately show ?thesis
    using v mes_categories_exact [OF v demo_four]
    by (auto simp: demo_ops_facts completed_calls_def demo_call_def)
qed

theorem operations_truncation_witness:
  "\<exists>v. mes_operations (postgres_ops id) demo_ops demo_viewer 0 10 None demo_usage_db = Inr v \<and> \<not> xv_truncated v \<and>
     map_of (xv_values v) (u ''ScjdQuery'') = Some 1"
proof -
  obtain v where v: "mes_operations (postgres_ops id) demo_ops demo_viewer 0 10 None demo_usage_db = Inr v"
    by (simp add: mes_operations_def with_tenants_def demo_ops_facts Let_def)
  have limit: "ol_max_dimension_rows (os_limits demo_ops) = 1000" by (simp add: demo_ops_def DEFAULT_OPS_LIMITS_def)
  have calls: "completed_calls (pg_list_mes_call_facts {u ''t''} 0 10 demo_usage_db) =
      [demo_call (u ''t'') (u ''ScjdQuery'')]" "fm_operation_id (demo_call (u ''t'') (u ''ScjdQuery'')) = u ''ScjdQuery''"
    by (simp_all add: demo_ops_facts completed_calls_def demo_call_def)
  show ?thesis
    using v operations_truncation [OF v] by (auto simp: demo_ops_facts(2) calls limit)
qed

theorem unmatched_name_lists_everyone_witness:
  "by_tenant (postgres_ops id) demo_ops demo_viewer 0 10 None 0 (Some (u ''nobody'')) None demo_usage_db =
     by_tenant (postgres_ops id) demo_ops demo_viewer 0 10 None 0 None None demo_usage_db"
  by (rule unmatched_name_lists_everyone)
    (simp add: pg_search_tenant_registry_names_def demo_usage_db_def)

theorem timeseries_counts_calls_witness:
  "\<exists>v. timeseries (postgres_ops id) demo_ops demo_viewer 0 10 HOUR [u ''mes_order''] None demo_usage_db = Inr v \<and>
     (\<forall>p \<in> set (tv_points v). map_of (pt_metrics p) (u ''mes_order'') = Some (real (length
       (bucket_calls (postgres_ops id) demo_ops {u ''t''} 0 10 HOUR demo_usage_db (pt_bucket p) (u ''mes_order'')))))"
proof -
  obtain v where v: "timeseries (postgres_ops id) demo_ops demo_viewer 0 10 HOUR [u ''mes_order''] None demo_usage_db = Inr v"
    by (simp add: timeseries_def with_tenants_def demo_ops_facts Let_def)
  have "\<forall>r \<in> set (pg_list_rollup_rows {u ''t''} 0 10 HOUR demo_usage_db). rw_metric r \<notin> set MES_METRICS"
    by (simp add: pg_list_rollup_rows_def demo_usage_db_def)
  from timeseries_counts_calls [OF v demo_ops_facts(2) _ _ _ this, of "u ''mes_order''"] v show ?thesis
    by (auto simp: MES_METRICS_def)
qed

theorem report_pages_exact_witness:
  "\<exists>rows. walk_pages (Suc (length rows))
      (\<lambda>c. map_sum id (\<lambda>p. (bp_items p, bp_next_cursor p)) (by_tenant (postgres_ops id) demo_ops demo_viewer 0 10
        None (case c of None \<Rightarrow> 0 | Some k \<Rightarrow> int k) None None demo_usage_db)) (Some 0) = Some (Inr rows) \<and>
     map bi_app_key rows = [u ''t'']"
proof -
  have C: "{u ''t''} = candidate_tenant_keys (postgres_ops id) demo_viewer 0 10
      (registry_by_key (pg_list_all_tenant_registry demo_usage_db)) demo_usage_db"
    by (simp add: candidate_tenant_keys_def demo_viewer_def)
  show ?thesis
    using report_pages_exact [OF demo_ops_facts(1,5) _ demo_ops_facts(2) _ C] by simp
qed

end
