(* ===== verification/Routing.thy ===== *)
theory Routing
  imports Context Strings "HOL-Library.Multiset"
begin

text \<open>
  Model routing: the reviewed deployment registry (\<^verbatim>\<open>llm/registry.py\<close>), the endpoint health
  monitor (\<^verbatim>\<open>llm/health.py\<close>) and the gateway over LiteLLM's router
  (\<^verbatim>\<open>llm/router_gateway.py\<close>).

  The YAML parser and pydantic's validation are an argument of the loader (\<open>registry_file\<close>),
  the HTTP probe is its verdict, the router is a function from the call's options to a response or
  an exception, and lower-casing is a parameter.  Floats are real numbers.  Debug captures are left
  out; the log lines of the monitor are kept.
\<close>

section \<open>registry.py\<close>

record deployment_entry =
  de_model :: pystr
  de_api_base :: pystr
  de_api_key_env :: pystr
  de_provider :: "pystr option"
  de_api_base_env :: "pystr option"
  de_model_env :: "pystr option"
  de_priority :: int

record alias_entry =
  ma_alias :: pystr
  ma_deployments :: "deployment_entry list"
  ma_fallbacks :: "pystr list"

record registry_document =
  rd_version :: int
  rd_aliases :: "alias_entry list"

record resolved_deployment =
  dp_alias :: pystr
  dp_model :: pystr
  dp_api_base :: pystr
  dp_api_key :: pystr
  dp_priority :: int
  dp_provider :: "pystr option"

record model_registry =
  mg_version :: int
  mg_deployments :: "resolved_deployment list"
  mg_fallbacks :: "(pystr, pystr list) dict"
  mg_skipped_aliases :: "pystr list"

text \<open>\<^verbatim>\<open>47\<close> is the slash.\<close>

definition litellm_model :: "resolved_deployment \<Rightarrow> pystr" where
  "litellm_model d = (case dp_provider d of
     None \<Rightarrow> dp_model d
   | Some p \<Rightarrow> if p = [] then dp_model d
       else let pre = p @ [47] in if starts_with pre (dp_model d) then dp_model d else pre @ dp_model d)"

definition registry_aliases :: "model_registry \<Rightarrow> pystr set" where
  "registry_aliases reg = dp_alias ` set (mg_deployments reg)"

definition is_usable :: "model_registry \<Rightarrow> bool" where
  "is_usable reg \<longleftrightarrow> mg_deployments reg \<noteq> []"

fun targets_from :: "pystr list \<Rightarrow> resolved_deployment list \<Rightarrow> resolved_deployment list" where
  "targets_from seen [] = []"
| "targets_from seen (d # ds) = (if dp_api_base d \<in> set seen then targets_from seen ds
     else d # targets_from (dp_api_base d # seen) ds)"

definition probe_targets :: "model_registry \<Rightarrow> resolved_deployment list" where
  "probe_targets reg = targets_from [] (mg_deployments reg)"

definition group_of :: "(pystr, resolved_deployment list) dict \<Rightarrow> pystr \<Rightarrow> resolved_deployment list" where
  "group_of g a = (case map_of g a of Some ds \<Rightarrow> ds | None \<Rightarrow> [])"

definition grouped :: "resolved_deployment list \<Rightarrow> (pystr, resolved_deployment list) dict" where
  "grouped ds = fold (\<lambda>d g. AList.update (dp_alias d) (group_of g (dp_alias d) @ [d]) g) ds []"

definition rank :: "pystr set \<Rightarrow> resolved_deployment list \<Rightarrow> resolved_deployment list" where
  "rank demoted members = sort_key (\<lambda>d. (dp_api_base d \<in> demoted, dp_priority d)) members"

fun renumber :: "int \<Rightarrow> resolved_deployment list \<Rightarrow> resolved_deployment list" where
  "renumber n [] = []"
| "renumber n (d # ds) = d\<lparr>dp_priority := n\<rparr> # renumber (n + 1) ds"

definition with_demoted_endpoints :: "pystr set \<Rightarrow> model_registry \<Rightarrow> model_registry" where
  "with_demoted_endpoints demoted reg =
     (if demoted = {} then reg
      else let ranked = map (rank demoted \<circ> snd) (grouped (mg_deployments reg));
               reordered = concat (map (renumber 1) ranked);
               changed = map dp_priority (concat ranked) \<noteq> map dp_priority reordered in
        if changed then reg\<lparr>mg_deployments := reordered\<rparr> else reg)"

datatype registry_file = RegistryMissing | RegistryNotYaml | RegistryValidated "nat + registry_document"

type_synonym environ = "(pystr, pystr) dict"

definition env_get :: "environ \<Rightarrow> pystr \<Rightarrow> pystr" where
  "env_get env name = py_strip (case map_of env name of Some v \<Rightarrow> v | None \<Rightarrow> [])"

definition override :: "pystr option \<Rightarrow> pystr \<Rightarrow> environ \<Rightarrow> pystr" where
  "override env_name dflt env = (case env_name of
     None \<Rightarrow> dflt
   | Some n \<Rightarrow> if env_get env n \<noteq> [] then env_get env n else dflt)"

fun resolve_entries :: "pystr \<Rightarrow> environ \<Rightarrow> deployment_entry list \<Rightarrow> resolved_deployment list" where
  "resolve_entries a env [] = []"
| "resolve_entries a env (d # ds) =
     (let api_key = env_get env (de_api_key_env d) in
      if api_key = [] then resolve_entries a env ds
      else \<lparr>dp_alias = a, dp_model = override (de_model_env d) (de_model d) env,
        dp_api_base = override (de_api_base_env d) (de_api_base d) env, dp_api_key = api_key,
        dp_priority = de_priority d, dp_provider = de_provider d\<rparr> # resolve_entries a env ds)"

definition resolve_alias :: "alias_entry \<Rightarrow> environ \<Rightarrow> resolved_deployment list" where
  "resolve_alias e env = resolve_entries (ma_alias e) env (sort_key de_priority (ma_deployments e))"

fun reject_duplicate_aliases :: "pystr list \<Rightarrow> alias_entry list \<Rightarrow> mes_error + unit" where
  "reject_duplicate_aliases seen [] = Inr ()"
| "reject_duplicate_aliases seen (e # es) =
     (if ma_alias e \<in> set seen
      then Inl (InvalidRequestError (u ''model registry declares alias twice: '' @ ma_alias e))
      else reject_duplicate_aliases (ma_alias e # seen) es)"

definition reject_unknown_fallbacks :: "registry_document \<Rightarrow> mes_error + unit" where
  "reject_unknown_fallbacks doc =
     (let known = ma_alias ` set (rd_aliases doc) in
      for_each (\<lambda>e. for_each (\<lambda>f.
        if f \<notin> known then Inl (InvalidRequestError (u ''alias '' @ ma_alias e @
          u '' falls back to unknown alias '' @ f))
        else if f = ma_alias e then Inl (InvalidRequestError (u ''alias '' @ ma_alias e @
          u '' falls back to itself''))
        else Inr ()) (ma_fallbacks e)) (rd_aliases doc))"

definition load_model_registry :: "pystr \<Rightarrow> registry_file \<Rightarrow> environ \<Rightarrow> mes_error + model_registry" where
  "load_model_registry path file env = (case file of
     RegistryMissing \<Rightarrow> Inl (InvalidRequestError (u ''model registry not found at '' @ path))
   | RegistryNotYaml \<Rightarrow> Inl (InvalidRequestError (u ''model registry is not valid YAML''))
   | RegistryValidated (Inl errors) \<Rightarrow>
       Inl (InvalidRequestError (u ''model registry failed validation: '' @ decimal errors))
   | RegistryValidated (Inr doc) \<Rightarrow>
       rthen (reject_duplicate_aliases [] (rd_aliases doc)) (rthen (reject_unknown_fallbacks doc)
         (Inr \<lparr>mg_version = rd_version doc,
            mg_deployments = concat (map (\<lambda>e. resolve_alias e env) (rd_aliases doc)),
            mg_fallbacks = fold (\<lambda>e. AList.update (ma_alias e) (ma_fallbacks e)) (rd_aliases doc) [],
            mg_skipped_aliases =
              map ma_alias (filter (\<lambda>e. resolve_alias e env = []) (rd_aliases doc))\<rparr>)))"

section \<open>health.py\<close>

datatype probe_verdict = Healthy | Unhealthy | ProbeRaised

datatype health_line = Restored pystr nat | ProbeErrorLine pystr nat | DemotedLine pystr nat

record health_monitor =
  hm_baseline :: model_registry
  hm_failures_to_demote :: int
  hm_consecutive_failures :: "pystr \<Rightarrow> nat option"
  hm_demoted :: "pystr set"
  hm_probe_errors :: "pystr set"
  hm_log :: "health_line list"

definition new_monitor :: "model_registry \<Rightarrow> int \<Rightarrow> health_monitor" where
  "new_monitor reg k = \<lparr>hm_baseline = reg, hm_failures_to_demote = k,
     hm_consecutive_failures = (\<lambda>_. None), hm_demoted = {}, hm_probe_errors = {}, hm_log = []\<rparr>"

definition failures_of :: "health_monitor \<Rightarrow> pystr \<Rightarrow> nat" where
  "failures_of m e = (case hm_consecutive_failures m e of Some n \<Rightarrow> n | None \<Rightarrow> 0)"

definition record_success :: "pystr \<Rightarrow> health_monitor \<Rightarrow> health_monitor" where
  "record_success e m =
     (let m1 = m\<lparr>hm_consecutive_failures := (hm_consecutive_failures m)(e := None),
            hm_probe_errors := hm_probe_errors m - {e}\<rparr> in
      if e \<in> hm_demoted m
      then m1\<lparr>hm_demoted := hm_demoted m - {e}, hm_log := hm_log m @ [Restored e (failures_of m e)]\<rparr>
      else m1)"

definition record_failure :: "pystr \<Rightarrow> bool \<Rightarrow> health_monitor \<Rightarrow> health_monitor" where
  "record_failure e probe_error m =
     (let failures = failures_of m e + 1;
          m1 = m\<lparr>hm_consecutive_failures := (hm_consecutive_failures m)(e \<mapsto> failures)\<rparr>;
          m2 = (if probe_error \<and> e \<notin> hm_probe_errors m
                then m1\<lparr>hm_probe_errors := insert e (hm_probe_errors m),
                  hm_log := hm_log m @ [ProbeErrorLine e failures]\<rparr>
                else m1) in
      if e \<in> hm_demoted m then m2
      else if int failures \<ge> hm_failures_to_demote m
      then m2\<lparr>hm_demoted := insert e (hm_demoted m), hm_log := hm_log m2 @ [DemotedLine e failures]\<rparr>
      else m2)"

definition record_verdict :: "pystr \<Rightarrow> probe_verdict \<Rightarrow> health_monitor \<Rightarrow> health_monitor" where
  "record_verdict e v m = (case v of Healthy \<Rightarrow> record_success e m
     | Unhealthy \<Rightarrow> record_failure e False m | ProbeRaised \<Rightarrow> record_failure e True m)"

definition monitor_registry :: "health_monitor \<Rightarrow> model_registry" where
  "monitor_registry m = with_demoted_endpoints (hm_demoted m) (hm_baseline m)"

text \<open>One pass: the probes run concurrently and complete in the order \<open>finished\<close>, a permutation
  of \<open>probe_targets\<close>; each records its verdict without a suspension in between.\<close>

definition refresh ::
  "resolved_deployment list \<Rightarrow> (resolved_deployment \<Rightarrow> probe_verdict) \<Rightarrow> health_monitor \<Rightarrow>
   model_registry \<times> health_monitor" where
  "refresh finished verdict m =
     (let m' = fold (\<lambda>d. record_verdict (dp_api_base d) (verdict d)) finished m in
      (monitor_registry m', m'))"

section \<open>The routing table\<close>

lemma length_renumber [simp]: "length (renumber n ds) = length ds"
  by (induction ds arbitrary: n) simp_all

lemma nth_renumber: "i < length ds \<Longrightarrow> renumber n ds ! i = (ds ! i)\<lparr>dp_priority := n + int i\<rparr>"
  by (induction ds arbitrary: n i) (auto simp: nth_Cons split: nat.splits)

text \<open>A deployment without its rank.\<close>

definition unranked :: "resolved_deployment \<Rightarrow> resolved_deployment" where
  "unranked d = d\<lparr>dp_priority := 0\<rparr>"

lemma unranked_simps [simp]:
  "dp_alias (unranked d) = dp_alias d" "dp_api_base (unranked d) = dp_api_base d"
  "unranked (d\<lparr>dp_priority := n\<rparr>) = unranked d"
  by (simp_all add: unranked_def)

lemma unranked_renumber [simp]: "map unranked (renumber n ds) = map unranked ds"
  by (induction ds arbitrary: n) simp_all

lemma renumber_attributes [simp]:
  "map dp_alias (renumber n ds) = map dp_alias ds" "map dp_api_base (renumber n ds) = map dp_api_base ds"
  "map dp_priority (renumber n ds) = map (\<lambda>i. n + int i) [0..<length ds]"
  by (induction ds arbitrary: n) (simp_all add: upt_conv_Cons flip: map_Suc_upt del: upt_Suc)

lemma renumber_fixed: "map dp_priority ds = map dp_priority (renumber n ds) \<Longrightarrow> renumber n ds = ds"
  by (induction ds arbitrary: n) auto

definition members_of :: "pystr \<Rightarrow> resolved_deployment list \<Rightarrow> resolved_deployment list" where
  "members_of a ds = filter (\<lambda>d. dp_alias d = a) ds"

lemma group_of_update: "group_of (AList.update k v g) a = (if a = k then v else group_of g a)"
  by (simp add: group_of_def dict_simps)

lemma grouped_step:
  "group_of (fold (\<lambda>d g. AList.update (dp_alias d) (group_of g (dp_alias d) @ [d]) g) ds g) a =
     group_of g a @ members_of a ds \<and>
   (distinct (map fst g) \<longrightarrow>
     distinct (map fst (fold (\<lambda>d g. AList.update (dp_alias d) (group_of g (dp_alias d) @ [d]) g) ds g)))"
  by (induction ds arbitrary: g) (auto simp: members_of_def group_of_update)

lemma group_of_grouped [simp]: "group_of (grouped ds) a = members_of a ds"
  and distinct_grouped [simp]: "distinct (map fst (grouped ds))"
  using grouped_step [of ds "[]" a] grouped_step [of ds "[]"] by (simp_all add: grouped_def group_of_def)

lemma grouped_entry: "(a, ms) \<in> set (grouped ds) \<Longrightarrow> ms = members_of a ds"
  using group_of_grouped [of ds a] map_of_is_SomeI [OF distinct_grouped] by (fastforce simp: group_of_def)

text \<open>Regrouping per alias and collecting again keeps every alias apart.\<close>

lemma members_of_concat:
  assumes "distinct (map fst g)" and "\<And>a ms d. (a, ms) \<in> set g \<Longrightarrow> d \<in> set (f ms) \<Longrightarrow> dp_alias d = a"
    and "f [] = []"
  shows "members_of a (concat (map (f \<circ> snd) g)) = f (group_of g a)"
  using assms
proof (induction g)
  case Nil
  then show ?case by (simp add: members_of_def group_of_def)
next
  case (Cons x g)
  obtain b ms where x: "x = (b, ms)" by fastforce
  have IH: "members_of a (concat (map (f \<circ> snd) g)) = f (group_of g a)"
    using Cons.prems by (intro Cons.IH) auto
  have b: "\<forall>d \<in> set (f ms). dp_alias d = b"
    using Cons.prems(2) [of b ms] x by simp
  have "members_of a (concat (map (f \<circ> snd) (x # g))) =
      members_of a (f ms) @ members_of a (concat (map (f \<circ> snd) g))"
    by (simp add: members_of_def x)
  moreover have "members_of a (f ms) = (if a = b then f ms else [])"
    using b by (auto simp: members_of_def filter_id_conv filter_empty_conv)
  moreover have "a = b \<Longrightarrow> map_of g a = None"
    using Cons.prems(1) x by (simp add: map_of_eq_None_iff)
  ultimately show ?case
    using IH Cons.prems(3) by (cases "a = b") (auto simp: group_of_def x comp_def)
qed

lemma set_rank [simp]: "set (rank demoted ms) = set ms"
  and mset_rank [simp]: "mset (rank demoted ms) = mset ms"
  by (simp_all add: rank_def)

lemma length_rank [simp]: "length (rank demoted ms) = length ms"
  by (simp add: rank_def)

lemma alias_renumbered: "d \<in> set (renumber n (rank demoted (members_of a ds))) \<Longrightarrow> dp_alias d = a"
proof -
  assume "d \<in> set (renumber n (rank demoted (members_of a ds)))"
  then have "dp_alias d \<in> set (map dp_alias (renumber n (rank demoted (members_of a ds))))"
    by (metis image_eqI set_map)
  then show ?thesis by (auto simp: members_of_def)
qed

text \<open>What the table holds for one alias, in both outcomes of the \<open>changed\<close> test.\<close>

lemma members_after_demotion:
  assumes "demoted \<noteq> {}"
  shows "mset (members_of a (mg_deployments (with_demoted_endpoints demoted reg))) =
    mset (renumber 1 (rank demoted (members_of a (mg_deployments reg))))"
proof -
  let ?ds = "mg_deployments reg" and ?g = "grouped (mg_deployments reg)"
  let ?f = "\<lambda>ms. renumber 1 (rank demoted ms)"
  let ?re = "concat (map (?f \<circ> snd) ?g)"
  have re: "members_of a ?re = ?f (members_of a ?ds)"
    using members_of_concat [of ?g ?f a] grouped_entry alias_renumbered by (fastforce simp: rank_def)
  show ?thesis
  proof (cases "map dp_priority (concat (map (rank demoted \<circ> snd) ?g)) = map dp_priority ?re")
    case False
    then have "mg_deployments (with_demoted_endpoints demoted reg) = ?re"
      using assms by (simp add: with_demoted_endpoints_def Let_def comp_assoc comp_def)
    then show ?thesis using re by simp
  next
    case True
    then have same: "with_demoted_endpoints demoted reg = reg"
      using assms by (simp add: with_demoted_endpoints_def Let_def comp_assoc comp_def)
    have "map (map dp_priority) (map (rank demoted \<circ> snd) ?g) = map (map dp_priority) (map (?f \<circ> snd) ?g)"
      using True by (intro concat_injective) (auto simp: map_concat comp_def zip_map1 zip_map2 in_set_zip)
    then have fixed: "?f (snd x) = rank demoted (snd x)" if "x \<in> set ?g" for x
      using that by (intro renumber_fixed) auto
    have "?f (members_of a ?ds) = rank demoted (members_of a ?ds)"
    proof (cases "map_of ?g a")
      case None
      then show ?thesis using group_of_grouped [of ?ds a] by (simp add: group_of_def rank_def flip: group_of_grouped)
    next
      case (Some ms)
      then show ?thesis using fixed [of "(a, ms)"] map_of_SomeD [OF Some] grouped_entry by fastforce
    qed
    then show ?thesis using same by simp
  qed
qed

lemma mset_by_alias:
  assumes "\<And>a. mset (members_of a xs) = mset (members_of a ys)"
  shows "mset xs = mset ys"
proof (rule multiset_eqI)
  fix d
  have "count (mset zs) d = count (mset (members_of (dp_alias d) zs)) d" for zs
    by (simp add: members_of_def mset_filter)
  then show "count (mset xs) d = count (mset ys) d" using assms by metis
qed

lemma members_of_unranked: "members_of a (map unranked ds) = map unranked (members_of a ds)"
  by (simp add: members_of_def filter_map comp_def)

lemma rank_sorted:
  assumes "i < length ms" and "j < length ms" and "rank demoted ms ! i = d" and "rank demoted ms ! j = d'"
    and "dp_api_base d \<notin> demoted" and "dp_api_base d' \<in> demoted"
  shows "i < j"
proof (rule ccontr)
  assume "\<not> i < j"
  then have "j \<le> i" by simp
  have "sorted (map (\<lambda>d. (dp_api_base d \<in> demoted, dp_priority d)) (rank demoted ms))"
    by (simp add: rank_def)
  from sorted_nth_mono [OF this \<open>j \<le> i\<close>] show False
    using assms by simp
qed

text \<open>The deployment whose wire format an alias uses: \<open>min(candidates, key=priority)\<close>.\<close>

definition primary :: "pystr \<Rightarrow> model_registry \<Rightarrow> resolved_deployment option" where
  "primary a reg = (case members_of a (mg_deployments reg) of
     [] \<Rightarrow> None | ds \<Rightarrow> Some (arg_min_list dp_priority ds))"

lemma primary_min:
  "primary a reg = Some d \<Longrightarrow> d \<in> set (mg_deployments reg) \<and> dp_alias d = a \<and>
    (\<forall>d' \<in> set (mg_deployments reg). dp_alias d' = a \<longrightarrow> dp_priority d \<le> dp_priority d')"
proof -
  assume p: "primary a reg = Some d"
  let ?ds = "members_of a (mg_deployments reg)"
  have ne: "?ds \<noteq> []" and d: "d = arg_min_list dp_priority ?ds"
    using p by (auto simp: primary_def split: list.splits)
  have "d \<in> set ?ds"
    using arg_min_list_in [OF ne] d by simp
  moreover have "\<forall>d' \<in> set ?ds. dp_priority d \<le> dp_priority d'"
    using f_arg_min_list_f [OF ne, of dp_priority] d by simp
  ultimately show ?thesis by (auto simp: members_of_def)
qed

lemma primary_exists: "d \<in> set (mg_deployments reg) \<Longrightarrow> \<exists>p. primary (dp_alias d) reg = Some p"
  by (auto simp: primary_def members_of_def filter_empty_conv split: list.splits)

lemma healthy_before_demoted:
  assumes "demoted \<noteq> {}" and reg': "reg' = with_demoted_endpoints demoted reg"
    and d: "d \<in> set (mg_deployments reg')" "dp_api_base d \<notin> demoted"
    and d': "d' \<in> set (mg_deployments reg')" "dp_api_base d' \<in> demoted" and same: "dp_alias d = dp_alias d'"
  shows "dp_priority d < dp_priority d'"
proof -
  define a where "a = dp_alias d"
  let ?ms = "rank demoted (members_of a (mg_deployments reg))"
  have "set (members_of a (mg_deployments reg')) = set (renumber 1 ?ms)"
    using members_after_demotion [OF assms(1), of a reg] reg' by (metis mset_eq_setD)
  then have "d \<in> set (renumber 1 ?ms)" and "d' \<in> set (renumber 1 ?ms)"
    using d(1) d'(1) same by (auto simp: members_of_def a_def)
  then obtain i j where i: "i < length ?ms" "d = (?ms ! i)\<lparr>dp_priority := 1 + int i\<rparr>"
    and j: "j < length ?ms" "d' = (?ms ! j)\<lparr>dp_priority := 1 + int j\<rparr>"
    by (metis in_set_conv_nth length_renumber nth_renumber)
  have "i < j"
    using rank_sorted [of i "members_of a (mg_deployments reg)" j demoted "?ms ! i" "?ms ! j"] i j d(2) d'(2)
    by simp
  then show ?thesis using i(2) j(2) by simp
qed

lemma demotion_keeps_deployments:
  "mset (map unranked (mg_deployments (with_demoted_endpoints demoted reg))) =
   mset (map unranked (mg_deployments reg))"
proof (cases "demoted = {}")
  case False
  show ?thesis
  proof (rule mset_by_alias)
    fix a
    have "mset (map unranked (members_of a (mg_deployments (with_demoted_endpoints demoted reg)))) =
        mset (map unranked (renumber 1 (rank demoted (members_of a (mg_deployments reg)))))"
      using members_after_demotion [OF False, of a reg] by (metis mset_map)
    also have "\<dots> = mset (map unranked (members_of a (mg_deployments reg)))"
      unfolding unranked_renumber by (simp only: mset_map mset_rank)
    finally show "mset (members_of a (map unranked (mg_deployments (with_demoted_endpoints demoted reg)))) =
        mset (members_of a (map unranked (mg_deployments reg)))"
      by (simp only: members_of_unranked)
  qed
qed (simp add: with_demoted_endpoints_def)

lemma demotion_keeps_rest [simp]:
  "mg_fallbacks (with_demoted_endpoints demoted reg) = mg_fallbacks reg"
  "mg_version (with_demoted_endpoints demoted reg) = mg_version reg"
  "mg_skipped_aliases (with_demoted_endpoints demoted reg) = mg_skipped_aliases reg"
  by (simp_all add: with_demoted_endpoints_def Let_def)

lemma demotion_keeps_aliases [simp]:
  "registry_aliases (with_demoted_endpoints demoted reg) = registry_aliases reg"
proof -
  have al: "registry_aliases r = dp_alias ` set (map unranked (mg_deployments r))" for r
    by (auto simp: registry_aliases_def image_image)
  show ?thesis unfolding al by (metis demotion_keeps_deployments mset_eq_setD)
qed

text \<open>
  Demotion only reorders.  The deployments are the same up to their rank, no alias is
  lost, the ranks of an alias are \<open>1, ..., n\<close>, a healthy deployment always comes before a
  demoted one of its alias, and the deployment that decides an alias's wire format is healthy
  whenever the alias has a healthy one.
\<close>

theorem demotion_prefers_healthy:
  assumes "demoted \<noteq> {}" and "reg' = with_demoted_endpoints demoted reg"
  shows "mset (map unranked (mg_deployments reg')) = mset (map unranked (mg_deployments reg)) \<and>
    registry_aliases reg' = registry_aliases reg \<and> mg_fallbacks reg' = mg_fallbacks reg \<and>
    (\<forall>a. mset (map dp_priority (members_of a (mg_deployments reg'))) =
       mset (map int [1..<Suc (length (members_of a (mg_deployments reg)))])) \<and>
    (\<forall>d \<in> set (mg_deployments reg'). \<forall>d' \<in> set (mg_deployments reg'). dp_alias d = dp_alias d' \<and>
       dp_api_base d \<notin> demoted \<and> dp_api_base d' \<in> demoted \<longrightarrow> dp_priority d < dp_priority d') \<and>
    (\<forall>d \<in> set (mg_deployments reg'). dp_api_base d \<notin> demoted \<longrightarrow>
       (\<exists>p. primary (dp_alias d) reg' = Some p \<and> dp_api_base p \<notin> demoted))"
proof (intro conjI allI ballI impI)
  fix a
  have "mset (map dp_priority (members_of a (mg_deployments reg'))) =
      mset (map dp_priority (renumber 1 (rank demoted (members_of a (mg_deployments reg)))))"
    using members_after_demotion [OF assms(1), of a reg] assms(2) by (metis mset_map)
  then show "mset (map dp_priority (members_of a (mg_deployments reg'))) =
      mset (map int [1..<Suc (length (members_of a (mg_deployments reg)))])"
    by (simp add: map_Suc_upt [symmetric] comp_def del: upt_Suc)
next
  fix d assume d: "d \<in> set (mg_deployments reg')" "dp_api_base d \<notin> demoted"
  obtain p where p: "primary (dp_alias d) reg' = Some p" using primary_exists [OF d(1)] by blast
  have "dp_api_base p \<notin> demoted"
  proof
    assume "dp_api_base p \<in> demoted"
    then have "dp_priority d < dp_priority p"
      using healthy_before_demoted [OF assms d] primary_min [OF p] by simp
    moreover have "dp_priority p \<le> dp_priority d" using primary_min [OF p] d(1) by simp
    ultimately show False by simp
  qed
  then show "\<exists>p. primary (dp_alias d) reg' = Some p \<and> dp_api_base p \<notin> demoted" using p by blast
qed (use assms healthy_before_demoted [OF assms] demotion_keeps_deployments in auto)

definition sample_deployment :: "string \<Rightarrow> string \<Rightarrow> int \<Rightarrow> resolved_deployment" where
  "sample_deployment a base p = \<lparr>dp_alias = u a, dp_model = u ''m'', dp_api_base = u base,
     dp_api_key = u ''k'', dp_priority = p, dp_provider = None\<rparr>"

definition sample_registry :: model_registry where
  "sample_registry = \<lparr>mg_version = 1, mg_deployments = [sample_deployment ''fast'' ''x'' 1,
     sample_deployment ''fast'' ''y'' 2], mg_fallbacks = [], mg_skipped_aliases = []\<rparr>"

lemma sample_demoted: "with_demoted_endpoints {u ''x''} sample_registry =
   sample_registry\<lparr>mg_deployments := [sample_deployment ''fast'' ''y'' 1, sample_deployment ''fast'' ''x'' 2]\<rparr>"
  by (simp add: with_demoted_endpoints_def sample_registry_def sample_deployment_def grouped_def
      group_of_def rank_def)

lemma demotion_prefers_healthy_witness:
  "\<exists>p. primary (u ''fast'') (with_demoted_endpoints {u ''x''} sample_registry) = Some p \<and>
    dp_api_base p \<notin> {u ''x''}"
proof -
  have d: "sample_deployment ''fast'' ''y'' 1 \<in>
      set (mg_deployments (with_demoted_endpoints {u ''x''} sample_registry))"
    by (simp add: sample_demoted)
  show ?thesis
    using demotion_prefers_healthy [of "{u ''x''}" "with_demoted_endpoints {u ''x''} sample_registry"
        sample_registry] d by (force simp: sample_deployment_def)
qed

section \<open>The monitor\<close>

text \<open>
  What the monitor knows of one endpoint, and how one verdict changes it.  Verdicts on other
  endpoints do not touch it, so the order in which concurrent probes finish does not matter.
\<close>

type_synonym endpoint_view = "nat option \<times> bool \<times> bool"

definition endpoint_view :: "pystr \<Rightarrow> health_monitor \<Rightarrow> endpoint_view" where
  "endpoint_view e m = (hm_consecutive_failures m e, e \<in> hm_demoted m, e \<in> hm_probe_errors m)"

definition next_view :: "int \<Rightarrow> probe_verdict \<Rightarrow> endpoint_view \<Rightarrow> endpoint_view" where
  "next_view k v w = (case w of (fails, demoted, broken) \<Rightarrow>
     if v = Healthy then (None, False, False)
     else let n = (case fails of Some n \<Rightarrow> n | None \<Rightarrow> 0) + 1 in
       (Some n, demoted \<or> k \<le> int n, broken \<or> v = ProbeRaised))"

lemma record_verdict_fixed [simp]:
  "hm_baseline (record_verdict e v m) = hm_baseline m"
  "hm_failures_to_demote (record_verdict e v m) = hm_failures_to_demote m"
  by (simp_all add: record_verdict_def record_success_def record_failure_def Let_def split: probe_verdict.splits)

lemma endpoint_view_record:
  "endpoint_view e (record_verdict e' v m) =
     (if e = e' then next_view (hm_failures_to_demote m) v (endpoint_view e m) else endpoint_view e m)"
  by (cases v) (auto simp: record_verdict_def record_success_def record_failure_def Let_def
      endpoint_view_def next_view_def failures_of_def split: option.splits)

lemma fold_record_fixed [simp]:
  "hm_baseline (fold (\<lambda>d. record_verdict (dp_api_base d) (v d)) ds m) = hm_baseline m"
  "hm_failures_to_demote (fold (\<lambda>d. record_verdict (dp_api_base d) (v d)) ds m) = hm_failures_to_demote m"
  by (induction ds arbitrary: m) simp_all

lemma endpoint_view_fold:
  assumes "distinct (map dp_api_base ds)"
  shows "endpoint_view e (fold (\<lambda>d. record_verdict (dp_api_base d) (v d)) ds m) =
    (case find (\<lambda>d. dp_api_base d = e) ds of None \<Rightarrow> endpoint_view e m
     | Some d \<Rightarrow> next_view (hm_failures_to_demote m) (v d) (endpoint_view e m))"
  using assms
proof (induction ds arbitrary: m)
  case (Cons d ds)
  have "find (\<lambda>d'. dp_api_base d' = e) ds = None" if "dp_api_base d = e"
    using Cons.prems that unfolding find_None_iff by (auto simp: image_iff)
  then show ?case
    using Cons by (simp add: endpoint_view_record split: option.splits)
qed simp

lemma targets_from_distinct:
  "distinct (map dp_api_base (targets_from seen ds)) \<and>
   dp_api_base ` set (targets_from seen ds) = dp_api_base ` set ds - set seen"
  by (induction seen ds rule: targets_from.induct) auto

lemma probe_targets_distinct [simp]: "distinct (map dp_api_base (probe_targets reg))"
  and endpoints_probed: "dp_api_base ` set (probe_targets reg) = dp_api_base ` set (mg_deployments reg)"
  using targets_from_distinct [of "[]"] by (auto simp: probe_targets_def)

text \<open>A history of the monitor: for every pass the completion order and the verdicts.\<close>

type_synonym pass = "resolved_deployment list \<times> (resolved_deployment \<Rightarrow> probe_verdict)"

definition run_passes :: "pass list \<Rightarrow> health_monitor \<Rightarrow> health_monitor" where
  "run_passes passes m = fold (\<lambda>(finished, verdict). snd \<circ> refresh finished verdict) passes m"

definition failing_passes :: "resolved_deployment \<Rightarrow> pass list \<Rightarrow> pass list" where
  "failing_passes d passes = takeWhile (\<lambda>p. snd p d \<noteq> Healthy) (rev passes)"

lemma run_passes_fixed [simp]:
  "hm_baseline (run_passes ps m) = hm_baseline m"
  "hm_failures_to_demote (run_passes ps m) = hm_failures_to_demote m"
  unfolding run_passes_def by (induction ps arbitrary: m) (auto simp: refresh_def Let_def)

lemma run_passes_snoc: "run_passes (ps @ [p]) m = snd (refresh (fst p) (snd p) (run_passes ps m))"
  by (simp add: run_passes_def split: prod.splits)

lemma find_target:
  assumes "mset finished = mset (probe_targets reg)"
  shows "find (\<lambda>x. dp_api_base x = e) finished =
    (if e \<in> dp_api_base ` set (mg_deployments reg)
     then Some (the (find (\<lambda>x. dp_api_base x = e) (probe_targets reg))) else None)"
    and "d \<in> set (probe_targets reg) \<Longrightarrow> find (\<lambda>x. dp_api_base x = dp_api_base d) finished = Some d"
proof -
  have s: "set finished = set (probe_targets reg)"
    using assms by (rule mset_eq_setD)
  have "mset (map dp_api_base finished) = mset (map dp_api_base (probe_targets reg))"
    using assms by (metis mset_map)
  then have dist: "distinct (map dp_api_base finished)"
    by (metis mset_eq_imp_distinct_iff probe_targets_distinct)
  have f: "find (\<lambda>x. dp_api_base x = dp_api_base d) xs = Some d"
    if "d \<in> set xs" "distinct (map dp_api_base xs)" for xs :: "resolved_deployment list" and d
    using that by (induction xs) (auto simp: image_iff)
  show "d \<in> set (probe_targets reg) \<Longrightarrow> find (\<lambda>x. dp_api_base x = dp_api_base d) finished = Some d"
    using f [OF _ dist] s by simp
  show "find (\<lambda>x. dp_api_base x = e) finished = (if e \<in> dp_api_base ` set (mg_deployments reg)
     then Some (the (find (\<lambda>x. dp_api_base x = e) (probe_targets reg))) else None)"
  proof (cases "e \<in> dp_api_base ` set (mg_deployments reg)")
    case True
    then obtain t where "t \<in> set (probe_targets reg)" "e = dp_api_base t"
      using endpoints_probed [of reg] by auto
    then show ?thesis using f [OF _ dist] f [OF _ probe_targets_distinct [of reg]] s True by simp
  next
    case False
    then show ?thesis using endpoints_probed [of reg] s by (auto simp: find_None_iff)
  qed
qed

lemma view_after_passes:
  assumes "\<forall>p \<in> set ps. mset (fst p) = mset (probe_targets reg)" and "d \<in> set (probe_targets reg)"
  shows "endpoint_view (dp_api_base d) (run_passes ps (new_monitor reg k)) =
    (let fs = failing_passes d ps in
     (if fs = [] then None else Some (length fs), fs \<noteq> [] \<and> k \<le> int (length fs),
      \<exists>p \<in> set fs. snd p d = ProbeRaised))"
  using assms(1)
proof (induction ps rule: rev_induct)
  case Nil
  then show ?case by (simp add: run_passes_def failing_passes_def new_monitor_def endpoint_view_def)
next
  case (snoc p ps)
  let ?m = "run_passes ps (new_monitor reg k)"
  have "mset (fst p) = mset (probe_targets reg)" using snoc.prems by simp
  moreover from this have "distinct (map dp_api_base (fst p))"
    by (metis mset_eq_imp_distinct_iff mset_map probe_targets_distinct)
  ultimately have "endpoint_view (dp_api_base d) (run_passes (ps @ [p]) (new_monitor reg k)) =
      next_view k (snd p d) (endpoint_view (dp_api_base d) ?m)"
    using find_target(2) [OF _ assms(2)]
    by (simp add: run_passes_snoc refresh_def Let_def endpoint_view_fold) (simp add: new_monitor_def)
  also have "endpoint_view (dp_api_base d) ?m = (let fs = failing_passes d ps in
     (if fs = [] then None else Some (length fs), fs \<noteq> [] \<and> k \<le> int (length fs),
      \<exists>p \<in> set fs. snd p d = ProbeRaised))"
    using snoc by simp
  also have "failing_passes d (ps @ [p]) = (if snd p d = Healthy then [] else p # failing_passes d ps)"
    by (simp add: failing_passes_def)
  then have "next_view k (snd p d) (let fs = failing_passes d ps in
     (if fs = [] then None else Some (length fs), fs \<noteq> [] \<and> k \<le> int (length fs),
      \<exists>p \<in> set fs. snd p d = ProbeRaised)) = (let fs = failing_passes d (ps @ [p]) in
     (if fs = [] then None else Some (length fs), fs \<noteq> [] \<and> k \<le> int (length fs),
      \<exists>p \<in> set fs. snd p d = ProbeRaised))"
    by (cases "snd p d = Healthy") (simp_all add: next_view_def Let_def, auto)
  finally show ?case .
qed

lemma unprobed_never_demoted:
  assumes "\<forall>p \<in> set ps. mset (fst p) = mset (probe_targets reg)"
    and "e \<notin> dp_api_base ` set (mg_deployments reg)"
  shows "endpoint_view e (run_passes ps (new_monitor reg k)) = (None, False, False)"
  using assms(1)
proof (induction ps rule: rev_induct)
  case Nil
  then show ?case by (simp add: run_passes_def new_monitor_def endpoint_view_def)
next
  case (snoc p ps)
  have "mset (fst p) = mset (probe_targets reg)" using snoc.prems by simp
  moreover from this have "distinct (map dp_api_base (fst p))"
    by (metis mset_eq_imp_distinct_iff mset_map probe_targets_distinct)
  ultimately show ?case
    using snoc find_target(1) [of "fst p" reg e] assms(2)
    by (simp add: run_passes_snoc refresh_def Let_def endpoint_view_fold)
qed

text \<open>
  \<^bold>\<open>C30\<close>.  The routing table always reflects the recent probes and nothing else.  After any
  sequence of passes, whatever the order in which the concurrent probes finished, an endpoint is
  demoted exactly when its last passes failed without a success, at least as many as the threshold
  (and at least one); one success restores it; an endpoint that is not in the reviewed registry is
  never demoted; and the published table is the reviewed one with exactly these endpoints last.
\<close>

theorem monitor_reflects_recent_probes:
  assumes "\<forall>p \<in> set ps. mset (fst p) = mset (probe_targets reg)"
    and "mset finished = mset (probe_targets reg)"
    and "refresh finished verdict (run_passes ps (new_monitor reg k)) = (published, m)"
  shows "hm_demoted m = {dp_api_base d | d. d \<in> set (probe_targets reg) \<and>
      failing_passes d (ps @ [(finished, verdict)]) \<noteq> [] \<and>
      k \<le> int (length (failing_passes d (ps @ [(finished, verdict)])))} \<and>
    published = with_demoted_endpoints (hm_demoted m) reg"
proof
  let ?ps = "ps @ [(finished, verdict)]"
  have m: "m = run_passes ?ps (new_monitor reg k)"
    using assms(3) by (simp add: run_passes_snoc)
  have all: "\<forall>p \<in> set ?ps. mset (fst p) = mset (probe_targets reg)"
    using assms(1,2) by simp
  have "published = monitor_registry m"
    using assms(3) by (auto simp: refresh_def Let_def)
  then show "published = with_demoted_endpoints (hm_demoted m) reg"
    by (simp add: monitor_registry_def m) (simp add: new_monitor_def)
  have demoted: "dp_api_base d \<in> hm_demoted m \<longleftrightarrow>
      failing_passes d ?ps \<noteq> [] \<and> k \<le> int (length (failing_passes d ?ps))"
    if "d \<in> set (probe_targets reg)" for d
    using view_after_passes [OF all that, of k] by (simp add: endpoint_view_def m Let_def)
  have "e \<in> dp_api_base ` set (probe_targets reg)" if "e \<in> hm_demoted m" for e
    using unprobed_never_demoted [OF all, of e k] that endpoints_probed [of reg]
    by (auto simp: endpoint_view_def m)
  then show "hm_demoted m = {dp_api_base d | d. d \<in> set (probe_targets reg) \<and>
      failing_passes d ?ps \<noteq> [] \<and> k \<le> int (length (failing_passes d ?ps))}"
    using demoted by blast
qed

definition sample_verdict :: "resolved_deployment \<Rightarrow> probe_verdict" where
  "sample_verdict d = (if dp_api_base d = u ''x'' then ProbeRaised else Healthy)"

lemma sample_targets: "probe_targets sample_registry =
    [sample_deployment ''fast'' ''x'' 1, sample_deployment ''fast'' ''y'' 2]"
  by (simp add: probe_targets_def sample_registry_def sample_deployment_def)

lemma sample_failing:
  "failing_passes (sample_deployment ''fast'' ''x'' 1) [(a, sample_verdict), (b, sample_verdict)] =
     [(b, sample_verdict), (a, sample_verdict)]"
  "failing_passes (sample_deployment ''fast'' ''y'' 2) [(a, sample_verdict), (b, sample_verdict)] = []"
  "dp_api_base (sample_deployment ''fast'' ''x'' 1) = u ''x''"
  by (simp_all add: failing_passes_def sample_verdict_def sample_deployment_def)

lemma monitor_reflects_recent_probes_witness:
  "hm_demoted (run_passes (replicate 2 (rev (probe_targets sample_registry), sample_verdict))
     (new_monitor sample_registry 2)) = {u ''x''}"
proof -
  let ?pass = "(rev (probe_targets sample_registry), sample_verdict)"
  obtain pub m where r: "refresh (fst ?pass) (snd ?pass) (run_passes [?pass] (new_monitor sample_registry 2)) =
      (pub, m)" by fastforce
  have "hm_demoted m = {dp_api_base d | d. d \<in> set (probe_targets sample_registry) \<and>
      failing_passes d ([?pass] @ [(fst ?pass, snd ?pass)]) \<noteq> [] \<and>
      2 \<le> int (length (failing_passes d ([?pass] @ [(fst ?pass, snd ?pass)])))}"
    using monitor_reflects_recent_probes [OF _ _ r] by simp
  also have "\<dots> = {u ''x''}"
    by (auto simp: sample_targets sample_failing intro!: exI [of _ "sample_deployment ''fast'' ''x'' 1"])
  finally show ?thesis
    using r run_passes_snoc [of "[?pass]" ?pass] by (simp add: numeral_2_eq_2)
qed

end
