(* ===== verification/Gateway.thy ===== *)
theory Gateway
  imports Routing
begin

text \<open>
  The gateway over LiteLLM's router (\<^verbatim>\<open>llm/router_gateway.py\<close>, \<^verbatim>\<open>ports/model.py\<close>).
  The router is an argument: a function from the call to its outcome.  A LiteLLM exception is its
  class name and its text; a response is what \<^verbatim>\<open>getattr\<close> and \<^verbatim>\<open>model_dump\<close> see of it.
  Debug captures are left out, floats are real numbers and lower-casing is a parameter.
\<close>

section \<open>ports/model.py\<close>

record model_request =
  mq_model_alias :: pystr
  mq_messages :: "model_message list"
  mq_stage :: model_stage
  mq_logical_call_id :: pystr
  mq_json_output :: bool
  mq_temperature :: "real option"
  mq_top_p :: "real option"
  mq_max_output_tokens :: "int option"
  mq_timeout_seconds :: "real option"

record model_usage =
  mu_prompt_tokens :: int
  mu_completion_tokens :: int
  mu_cached_tokens :: int
  mu_reasoning_tokens :: int

record model_response =
  mp_content :: pystr
  mp_actual_model :: pystr
  mp_usage :: model_usage
  mp_duration_ms :: int
  mp_attempt :: int
  mp_fallback_reason :: "pystr option"

datatype model_error_category = ME_TIMEOUT | ME_RATE_LIMITED | ME_UNAVAILABLE | ME_UNAUTHENTICATED
  | ME_PROTOCOL | ME_NOT_CONFIGURED

record model_gateway_error =
  mx_category :: model_error_category
  mx_message :: pystr
  mx_duration_ms :: int
  mx_attempt :: int

definition gateway_error :: "model_error_category \<Rightarrow> pystr \<Rightarrow> int \<Rightarrow> model_gateway_error" where
  "gateway_error c m ms = \<lparr>mx_category = c, mx_message = m, mx_duration_ms = ms, mx_attempt = 1\<rparr>"

datatype model_delta_kind = REASONING | CONTENT

record model_delta =
  md_text :: pystr
  md_kind :: model_delta_kind

section \<open>Tables\<close>

definition DEEPSEEK_EFFORT_MAP :: "(pystr, pystr) dict" where
  "DEEPSEEK_EFFORT_MAP = [(u ''low'', u ''low''), (u ''medium'', u ''high''), (u ''high'', u ''high''),
     (u ''xhigh'', u ''high''), (u ''max'', u ''max'')]"

definition QWEN_EFFORT_MAP :: "(pystr, pystr) dict" where
  "QWEN_EFFORT_MAP = [(u ''low'', u ''low''), (u ''medium'', u ''medium''), (u ''high'', u ''high''),
     (u ''max'', u ''high'')]"

definition ERROR_CATEGORIES :: "(pystr, model_error_category) dict" where
  "ERROR_CATEGORIES = [(u ''Timeout'', ME_TIMEOUT), (u ''APITimeoutError'', ME_TIMEOUT),
     (u ''RateLimitError'', ME_RATE_LIMITED), (u ''AuthenticationError'', ME_UNAUTHENTICATED),
     (u ''PermissionDeniedError'', ME_UNAUTHENTICATED), (u ''ServiceUnavailableError'', ME_UNAVAILABLE),
     (u ''InternalServerError'', ME_UNAVAILABLE), (u ''APIConnectionError'', ME_UNAVAILABLE),
     (u ''APIError'', ME_UNAVAILABLE), (u ''BadRequestError'', ME_PROTOCOL),
     (u ''UnprocessableEntityError'', ME_PROTOCOL), (u ''ContextWindowExceededError'', ME_PROTOCOL),
     (u ''NotFoundError'', ME_PROTOCOL)]"

section \<open>The routing table handed to LiteLLM\<close>

record router_entry =
  re_model_name :: pystr
  re_model :: pystr
  re_api_base :: pystr
  re_api_key :: pystr
  re_order :: int

definition model_list :: "model_registry \<Rightarrow> router_entry list" where
  "model_list reg = map (\<lambda>d. \<lparr>re_model_name = dp_alias d, re_model = litellm_model d,
     re_api_base = dp_api_base d, re_api_key = dp_api_key d, re_order = dp_priority d\<rparr>) (mg_deployments reg)"

definition router_fallbacks :: "model_registry \<Rightarrow> (pystr \<times> pystr list) list" where
  "router_fallbacks reg =
     (let usable = registry_aliases reg in
      concat (map (\<lambda>(a, targets). if a \<notin> usable then []
        else let reachable = filter (\<lambda>t. t \<in> usable) targets in
          if reachable \<noteq> [] then [(a, reachable)] else []) (mg_fallbacks reg)))"

section \<open>The gateway\<close>

record gateway_config =
  gc_default_timeout_seconds :: real
  gc_default_temperature :: real
  gc_default_top_p :: real
  gc_default_max_output_tokens :: int
  gc_thinking_enabled :: bool
  gc_thinking_effort :: pystr

text \<open>The lower-cased effort of \<^verbatim>\<open>__init__\<close>; the empty string counts as missing.\<close>

definition init_effort :: "(pystr \<Rightarrow> pystr) \<Rightarrow> pystr \<Rightarrow> pystr" where
  "init_effort lower effort = lower (if effort = [] then u ''high'' else effort)"

text \<open>The gateway holds a registry and the router built from it (the table it was built from).\<close>

record gateway_state =
  gw_registry :: model_registry
  gw_router_table :: "router_entry list \<times> (pystr \<times> pystr list) list"

definition build_router :: "model_registry \<Rightarrow> router_entry list \<times> (pystr \<times> pystr list) list" where
  "build_router reg = (model_list reg, router_fallbacks reg)"

definition new_gateway :: "model_registry \<Rightarrow> gateway_state" where
  "new_gateway reg = \<lparr>gw_registry = reg, gw_router_table = build_router reg\<rparr>"

definition use_registry :: "model_registry \<Rightarrow> gateway_state \<Rightarrow> gateway_state" where
  "use_registry reg g = (if mg_deployments reg = mg_deployments (gw_registry g)
     then g\<lparr>gw_registry := reg\<rparr>
     else g\<lparr>gw_registry := reg, gw_router_table := build_router reg\<rparr>)"

definition validate_request :: "model_registry \<Rightarrow> model_request \<Rightarrow> model_gateway_error + unit" where
  "validate_request reg q =
     (if mq_messages q = [] then Inl (gateway_error ME_PROTOCOL (u ''messages cannot be empty'') 0)
      else if mq_model_alias q \<notin> registry_aliases reg
      then Inl (gateway_error ME_NOT_CONFIGURED
        (u ''alias '' @ mq_model_alias q @ u '' has no configured deployment'') 0)
      else Inr ())"

definition is_deepseek_deployment :: "(pystr \<Rightarrow> pystr) \<Rightarrow> resolved_deployment \<Rightarrow> bool" where
  "is_deepseek_deployment lower d =
     py_in (u ''deepseek'') (lower ((case dp_provider d of Some p \<Rightarrow> p | None \<Rightarrow> []) @ u '' '' @
       dp_model d @ u '' '' @ dp_api_base d))"

definition is_deepseek_alias :: "(pystr \<Rightarrow> pystr) \<Rightarrow> model_registry \<Rightarrow> pystr \<Rightarrow> bool" where
  "is_deepseek_alias lower reg a = (case primary a reg of None \<Rightarrow> False
     | Some d \<Rightarrow> is_deepseek_deployment lower d)"

definition effort_of :: "(pystr, pystr) dict \<Rightarrow> pystr \<Rightarrow> pystr" where
  "effort_of table effort = (case map_of table effort of Some e \<Rightarrow> e | None \<Rightarrow> u ''high'')"

definition thinking_body :: "(pystr \<Rightarrow> pystr) \<Rightarrow> gateway_config \<Rightarrow> model_registry \<Rightarrow> pystr \<Rightarrow> payload" where
  "thinking_body lower c reg a =
     (if is_deepseek_alias lower reg a
      then if \<not> gc_thinking_enabled c then [(u ''thinking'', PDict [(u ''type'', PStr (u ''disabled''))])]
        else [(u ''thinking'', PDict [(u ''type'', PStr (u ''enabled''))]),
          (u ''reasoning_effort'', PStr (effort_of DEEPSEEK_EFFORT_MAP (gc_thinking_effort c)))]
      else if \<not> gc_thinking_enabled c
      then [(u ''chat_template_kwargs'', PDict [(u ''enable_thinking'', PBool False)])]
      else [(u ''chat_template_kwargs'', PDict [(u ''enable_thinking'', PBool True),
        (u ''thinking_effort'', PStr (effort_of QWEN_EFFORT_MAP (gc_thinking_effort c)))])])"

record call_options =
  co_temperature :: real
  co_top_p :: real
  co_max_tokens :: int
  co_timeout :: real
  co_json_object :: bool
  co_extra_body :: "payload option"

definition call_options_of ::
  "(pystr \<Rightarrow> pystr) \<Rightarrow> gateway_config \<Rightarrow> model_registry \<Rightarrow> model_request \<Rightarrow> bool \<Rightarrow> call_options" where
  "call_options_of lower c reg q streaming = \<lparr>
     co_temperature = (case mq_temperature q of None \<Rightarrow> gc_default_temperature c | Some t \<Rightarrow> t),
     co_top_p = (case mq_top_p q of None \<Rightarrow> gc_default_top_p c | Some p \<Rightarrow> p),
     co_max_tokens = (case mq_max_output_tokens q of
       Some n \<Rightarrow> if n = 0 then gc_default_max_output_tokens c else n | None \<Rightarrow> gc_default_max_output_tokens c),
     co_timeout = (case mq_timeout_seconds q of
       Some t \<Rightarrow> if t = 0 then gc_default_timeout_seconds c else t | None \<Rightarrow> gc_default_timeout_seconds c),
     co_json_object = mq_json_output q,
     co_extra_body = (if streaming then None else Some (thinking_body lower c reg (mq_model_alias q)))\<rparr>"

section \<open>Reading a response\<close>

record raw_response =
  rr_hidden_params :: "pyval option"
  rr_model_dump :: "pyval option"
  rr_itself :: "payload option"

datatype call_failure = GatewayRaised model_gateway_error | OtherRaised pystr pystr

definition non_negative_int :: "pyval option \<Rightarrow> int" where
  "non_negative_int v = (case v of Some (PInt n) \<Rightarrow> if 0 \<le> n then n else 0 | _ \<Rightarrow> 0)"

definition as_dict :: "pyval option \<Rightarrow> payload option" where
  "as_dict v = (case v of Some (PDict d) \<Rightarrow> Some d | _ \<Rightarrow> None)"

definition as_mapping :: "raw_response \<Rightarrow> model_gateway_error + payload" where
  "as_mapping raw =
     (let body = (case as_dict (rr_model_dump raw) of Some d \<Rightarrow> Some d | None \<Rightarrow> rr_itself raw) in
      case body of
        None \<Rightarrow> Inl (gateway_error ME_PROTOCOL (u ''router returned an unreadable response'') 0)
      | Some d \<Rightarrow> (case as_dict (rr_hidden_params raw) of
          Some hidden \<Rightarrow> Inr (if map_of d (u ''_hidden_params'') = None
            then AList.update (u ''_hidden_params'') (PDict hidden) d else d)
        | None \<Rightarrow> Inr d))"

definition router_headers :: "payload \<Rightarrow> payload" where
  "router_headers body = (case as_dict (map_of body (u ''_hidden_params'')) of
     None \<Rightarrow> []
   | Some hidden \<Rightarrow> (case as_dict (map_of hidden (u ''additional_headers'')) of None \<Rightarrow> [] | Some h \<Rightarrow> h))"

text \<open>\<^verbatim>\<open>_elapsed_ms\<close>: the clock reading at the exit that is taken, never negative.\<close>

definition elapsed_ms :: "int \<Rightarrow> int" where
  "elapsed_ms reading = max 0 reading"

definition content_of :: "payload \<Rightarrow> int \<Rightarrow> model_gateway_error + pystr" where
  "content_of body ms =
     (let err = (\<lambda>m. Inl (gateway_error ME_PROTOCOL m ms)) in
      case map_of body (u ''choices'') of
        Some (PList (first # _)) \<Rightarrow> (case first of
          PDict c \<Rightarrow> (case map_of c (u ''message'') of
            Some (PDict message) \<Rightarrow> (case map_of message (u ''content'') of
              Some (PStr s) \<Rightarrow> if py_strip s \<noteq> [] then Inr s else err (u ''router message content is empty'')
            | _ \<Rightarrow> err (u ''router message content is empty''))
          | _ \<Rightarrow> err (u ''router choice has no message''))
        | _ \<Rightarrow> err (u ''router choice is not an object''))
      | _ \<Rightarrow> err (u ''router response has no choices''))"

definition nonempty_str :: "pyval option \<Rightarrow> pystr option" where
  "nonempty_str v = (case v of Some (PStr s) \<Rightarrow> if s \<noteq> [] then Some s else None | _ \<Rightarrow> None)"

definition actual_model_of :: "payload \<Rightarrow> pystr \<Rightarrow> pystr" where
  "actual_model_of body a = (case nonempty_str (map_of body (u ''model'')) of Some m \<Rightarrow> m | None \<Rightarrow> a)"

definition attempt_of :: "payload \<Rightarrow> int" where
  "attempt_of body = (case map_of (router_headers body) (u ''x-litellm-attempted-retries'') of
     Some (PInt n) \<Rightarrow> if 0 \<le> n then n + 1 else 1 | _ \<Rightarrow> 1)"

definition fallback_reason_of :: "payload \<Rightarrow> pystr \<Rightarrow> pystr option" where
  "fallback_reason_of body a =
     (let headers = router_headers body in
      if (case map_of headers (u ''x-litellm-attempted-fallbacks'') of Some (PInt n) \<Rightarrow> 0 < n | _ \<Rightarrow> False)
      then Some (u ''fallback'')
      else (case nonempty_str (map_of headers (u ''x-litellm-model-group'')) of
        Some g \<Rightarrow> if g \<noteq> a then Some (u ''fallback'') else None | None \<Rightarrow> None))"

definition usage_of :: "payload \<Rightarrow> model_usage" where
  "usage_of body = (case as_dict (map_of body (u ''usage'')) of
     None \<Rightarrow> \<lparr>mu_prompt_tokens = 0, mu_completion_tokens = 0, mu_cached_tokens = 0, mu_reasoning_tokens = 0\<rparr>
   | Some usage \<Rightarrow>
     let detail = (\<lambda>part key. non_negative_int (case as_dict (map_of usage part) of
           Some d \<Rightarrow> map_of d key | None \<Rightarrow> None)) in
     \<lparr>mu_prompt_tokens = non_negative_int (map_of usage (u ''prompt_tokens'')),
      mu_completion_tokens = non_negative_int (map_of usage (u ''completion_tokens'')),
      mu_cached_tokens = detail (u ''prompt_tokens_details'') (u ''cached_tokens''),
      mu_reasoning_tokens = detail (u ''completion_tokens_details'') (u ''reasoning_tokens'')\<rparr>)"

definition translate_failure :: "call_failure \<Rightarrow> int \<Rightarrow> model_gateway_error" where
  "translate_failure e ms = (case e of
     GatewayRaised g \<Rightarrow> g
   | OtherRaised name message \<Rightarrow>
       let category = (case map_of ERROR_CATEGORIES name of Some c \<Rightarrow> c
             | None \<Rightarrow> (case find (\<lambda>(known, _). py_in known name) ERROR_CATEGORIES of
                 Some (_, c) \<Rightarrow> c | None \<Rightarrow> ME_UNAVAILABLE)) in
       gateway_error category (u ''router call failed ('' @ name @ u '')'') ms)"

section \<open>complete and stream\<close>

type_synonym 'a router = "pystr \<Rightarrow> model_message list \<Rightarrow> call_options \<Rightarrow> call_failure + 'a"

definition complete ::
  "(pystr \<Rightarrow> pystr) \<Rightarrow> gateway_config \<Rightarrow> model_registry \<Rightarrow> raw_response router \<Rightarrow> int \<Rightarrow> model_request \<Rightarrow>
   model_gateway_error + model_response" where
  "complete lower c reg router reading q =
     rthen (validate_request reg q)
       (case router (mq_model_alias q) (mq_messages q) (call_options_of lower c reg q False) of
          Inl e \<Rightarrow> Inl (translate_failure e (elapsed_ms reading))
        | Inr raw \<Rightarrow> rbind (as_mapping raw) (\<lambda>body.
            rbind (content_of body (elapsed_ms reading)) (\<lambda>content.
              Inr \<lparr>mp_content = content, mp_actual_model = actual_model_of body (mq_model_alias q),
                mp_usage = usage_of body, mp_duration_ms = elapsed_ms reading,
                mp_attempt = attempt_of body,
                mp_fallback_reason = fallback_reason_of body (mq_model_alias q)\<rparr>)))"

definition delta_of :: "raw_response \<Rightarrow> model_gateway_error + model_delta option" where
  "delta_of chunk = rbind (as_mapping chunk) (\<lambda>body. Inr
     (case map_of body (u ''choices'') of
        Some (PList (PDict first # _)) \<Rightarrow> (case as_dict (map_of first (u ''delta'')) of
          None \<Rightarrow> None
        | Some fs \<Rightarrow> (case nonempty_str (map_of fs (u ''reasoning_content'')) of
            Some r \<Rightarrow> Some \<lparr>md_text = r, md_kind = REASONING\<rparr>
          | None \<Rightarrow> (case nonempty_str (map_of fs (u ''content'')) of
              Some t \<Rightarrow> Some \<lparr>md_text = t, md_kind = CONTENT\<rparr> | None \<Rightarrow> None)))
      | _ \<Rightarrow> None))"

text \<open>The generator: the deltas it yields, and the exception that ends it, if any.  The upstream
  iteration is the list of its chunks, ended by \<open>Inl\<close> when it raises.\<close>

fun stream_chunks :: "(call_failure + raw_response) list \<Rightarrow> int \<Rightarrow> model_delta list \<times> (model_gateway_error + unit)" where
  "stream_chunks [] ms = ([], Inr ())"
| "stream_chunks (Inl e # rest) ms = ([], Inl (translate_failure e ms))"
| "stream_chunks (Inr chunk # rest) ms = (case delta_of chunk of
     Inl e \<Rightarrow> ([], Inl e)
   | Inr None \<Rightarrow> stream_chunks rest ms
   | Inr (Some d) \<Rightarrow> (case stream_chunks rest ms of (ds, outcome) \<Rightarrow> (d # ds, outcome)))"

definition stream ::
  "(pystr \<Rightarrow> pystr) \<Rightarrow> gateway_config \<Rightarrow> model_registry \<Rightarrow> (call_failure + raw_response) list router \<Rightarrow> int \<Rightarrow>
   model_request \<Rightarrow> model_gateway_error + model_delta list \<times> (model_gateway_error + unit)" where
  "stream lower c reg router reading q = rthen (validate_request reg q)
     (Inr (case router (mq_model_alias q) (mq_messages q) (call_options_of lower c reg q True) of
        Inl e \<Rightarrow> ([], Inl (translate_failure e (elapsed_ms reading)))
      | Inr chunks \<Rightarrow> stream_chunks chunks (elapsed_ms reading)))"

section \<open>Loading\<close>

lemma reject_duplicate_aliases_Inr:
  "reject_duplicate_aliases seen es = Inr () \<longleftrightarrow>
     distinct (map ma_alias es) \<and> set (map ma_alias es) \<inter> set seen = {}"
  by (induction seen es rule: reject_duplicate_aliases.induct) auto

lemma reject_unknown_fallbacks_Inr:
  "reject_unknown_fallbacks doc = Inr () \<longleftrightarrow> (\<forall>e \<in> set (rd_aliases doc). \<forall>f \<in> set (ma_fallbacks e).
     f \<in> ma_alias ` set (rd_aliases doc) \<and> f \<noteq> ma_alias e)"
  by (auto simp: reject_unknown_fallbacks_def Let_def for_each_Inr split: if_splits)

lemma resolve_entries_alias: "d \<in> set (resolve_entries a env ds) \<Longrightarrow> dp_alias d = a \<and> dp_api_key d \<noteq> []"
  by (induction a env ds rule: resolve_entries.induct) (auto simp: Let_def split: if_splits)

lemma resolve_entries_key:
  "d \<in> set (resolve_entries a env ds) \<Longrightarrow> \<exists>x \<in> set ds. dp_api_key d = env_get env (de_api_key_env x) \<and>
     dp_priority d = de_priority x \<and> dp_provider d = de_provider x"
  by (induction a env ds rule: resolve_entries.induct) (auto simp: Let_def split: if_splits)

lemma fold_update_entries:
  "distinct (map f xs) \<Longrightarrow> f ` set xs \<inter> fst ` set d = {} \<Longrightarrow>
   fold (\<lambda>x. AList.update (f x) (g x)) xs d = d @ map (\<lambda>x. (f x, g x)) xs"
proof (induction xs arbitrary: d)
  case (Cons x xs)
  have "AList.update (f x) (g x) d = d @ [(f x, g x)]"
    using Cons.prems(2) by (induction d) auto
  then show ?case using Cons by auto
qed simp

lemma load_model_registry_Inr:
  "load_model_registry path file env = Inr reg \<longleftrightarrow> (\<exists>doc. file = RegistryValidated (Inr doc) \<and>
     reject_duplicate_aliases [] (rd_aliases doc) = Inr () \<and> reject_unknown_fallbacks doc = Inr () \<and>
     reg = \<lparr>mg_version = rd_version doc,
        mg_deployments = concat (map (\<lambda>e. resolve_alias e env) (rd_aliases doc)),
        mg_fallbacks = fold (\<lambda>e. AList.update (ma_alias e) (ma_fallbacks e)) (rd_aliases doc) [],
        mg_skipped_aliases = map ma_alias (filter (\<lambda>e. resolve_alias e env = []) (rd_aliases doc))\<rparr>)"
  by (auto simp: load_model_registry_def result_simps split: registry_file.splits sum.splits)

text \<open>
  A registry that loads is closed and complete.  Every deployment in it carries a
  non-blank key read from the variable that the reviewed document names for it; every reviewed
  alias is either served or listed as skipped, never both; and the fallback table that LiteLLM gets
  names only served aliases, never the alias itself, and never an empty list.
\<close>

theorem registry_load_sound:
  assumes "load_model_registry path (RegistryValidated (Inr doc)) env = Inr reg"
  shows "distinct (map ma_alias (rd_aliases doc)) \<and>
    (\<forall>d \<in> set (mg_deployments reg). dp_api_key d \<noteq> [] \<and>
       (\<exists>e \<in> set (rd_aliases doc). ma_alias e = dp_alias d \<and>
         (\<exists>x \<in> set (ma_deployments e). dp_api_key d = env_get env (de_api_key_env x)))) \<and>
    ma_alias ` set (rd_aliases doc) = registry_aliases reg \<union> set (mg_skipped_aliases reg) \<and>
    registry_aliases reg \<inter> set (mg_skipped_aliases reg) = {} \<and>
    (\<forall>(a, targets) \<in> set (router_fallbacks reg). a \<in> registry_aliases reg \<and> targets \<noteq> [] \<and>
       set targets \<subseteq> registry_aliases reg - {a})"
proof -
  let ?es = "rd_aliases doc"
  have dist: "distinct (map ma_alias ?es)"
    and fb: "\<forall>e \<in> set ?es. \<forall>f \<in> set (ma_fallbacks e). f \<in> ma_alias ` set ?es \<and> f \<noteq> ma_alias e"
    and deps: "mg_deployments reg = concat (map (\<lambda>e. resolve_alias e env) ?es)"
    and skip: "mg_skipped_aliases reg = map ma_alias (filter (\<lambda>e. resolve_alias e env = []) ?es)"
    and fall: "mg_fallbacks reg = map (\<lambda>e. (ma_alias e, ma_fallbacks e)) ?es"
    using assms by (auto simp: load_model_registry_Inr reject_duplicate_aliases_Inr
        reject_unknown_fallbacks_Inr fold_update_entries)
  have served: "registry_aliases reg = ma_alias ` {e \<in> set ?es. resolve_alias e env \<noteq> []}"
  proof -
    have "dp_alias ` set (resolve_alias e env) = (if resolve_alias e env = [] then {} else {ma_alias e})" for e
      unfolding resolve_alias_def using resolve_entries_alias [of _ "ma_alias e" env]
      by (auto simp: image_iff) (metis last_in_set)
    then show ?thesis by (auto simp: registry_aliases_def deps image_UN split: if_splits)
  qed
  have apart: "registry_aliases reg \<inter> set (mg_skipped_aliases reg) = {}"
    unfolding served skip using dist by (auto simp: distinct_map inj_on_def)
  have keys: "dp_api_key d \<noteq> [] \<and> (\<exists>e \<in> set ?es. ma_alias e = dp_alias d \<and>
      (\<exists>x \<in> set (ma_deployments e). dp_api_key d = env_get env (de_api_key_env x)))"
    if d: "d \<in> set (mg_deployments reg)" for d
  proof -
    obtain e where e: "e \<in> set ?es" "d \<in> set (resolve_alias e env)" using d by (auto simp: deps)
    show ?thesis
      using e resolve_entries_alias resolve_entries_key unfolding resolve_alias_def
      by (metis set_sort)
  qed
  have table: "\<forall>(a, targets) \<in> set (router_fallbacks reg). a \<in> registry_aliases reg \<and> targets \<noteq> [] \<and>
      set targets \<subseteq> registry_aliases reg - {a}"
    using fb by (auto simp: router_fallbacks_def fall Let_def split: if_splits)
  show ?thesis using dist keys served skip apart table by auto
qed

definition sample_document :: registry_document where
  "sample_document = \<lparr>rd_version = 1, rd_aliases = [
     \<lparr>ma_alias = u ''fast'', ma_deployments = [\<lparr>de_model = u ''m'', de_api_base = u ''x'',
        de_api_key_env = u ''K'', de_provider = None, de_api_base_env = None, de_model_env = None,
        de_priority = 1\<rparr>], ma_fallbacks = [u ''deep'']\<rparr>,
     \<lparr>ma_alias = u ''deep'', ma_deployments = [\<lparr>de_model = u ''n'', de_api_base = u ''y'',
        de_api_key_env = u ''L'', de_provider = None, de_api_base_env = None, de_model_env = None,
        de_priority = 1\<rparr>], ma_fallbacks = []\<rparr>]\<rparr>"

lemma registry_load_sound_witness:
  "\<exists>reg. load_model_registry [] (RegistryValidated (Inr sample_document)) [(u ''K'', u '' s '')] = Inr reg \<and>
     registry_aliases reg \<inter> set (mg_skipped_aliases reg) = {}"
proof -
  obtain reg where r: "load_model_registry [] (RegistryValidated (Inr sample_document)) [(u ''K'', u '' s '')] =
      Inr reg"
    by (simp add: load_model_registry_Inr reject_duplicate_aliases_Inr reject_unknown_fallbacks_Inr
        sample_document_def)
  then show ?thesis using registry_load_sound [OF r] by blast
qed

section \<open>The gateway and the monitor together\<close>

text \<open>The monitor's \<open>apply\<close> is \<open>use_registry\<close>: the gateway after a history of passes.\<close>

fun gateway_after :: "pass list \<Rightarrow> health_monitor \<Rightarrow> gateway_state \<Rightarrow> gateway_state" where
  "gateway_after [] m g = g"
| "gateway_after ((finished, verdict) # ps) m g =
     (case refresh finished verdict m of (published, m') \<Rightarrow> gateway_after ps m' (use_registry published g))"

lemma fallbacks_after_demotion [simp]:
  "router_fallbacks (with_demoted_endpoints demoted reg) = router_fallbacks reg"
  by (simp add: router_fallbacks_def)

lemma use_registry_in_sync:
  assumes "gw_router_table g = build_router (gw_registry g)"
    and "router_fallbacks reg = router_fallbacks (gw_registry g)"
  shows "gw_router_table (use_registry reg g) = build_router reg \<and> gw_registry (use_registry reg g) = reg"
  using assms by (simp add: use_registry_def build_router_def model_list_def)

lemma gateway_after_in_sync:
  assumes "gw_router_table g = build_router (gw_registry g)"
    and "gw_registry g = monitor_registry m"
  shows "gw_router_table (gateway_after ps m g) = build_router (monitor_registry (run_passes ps m)) \<and>
    gw_registry (gateway_after ps m g) = monitor_registry (run_passes ps m)"
  using assms
proof (induction ps arbitrary: m g)
  case Nil
  then show ?case by (simp add: run_passes_def)
next
  case (Cons p ps)
  obtain finished verdict where p: "p = (finished, verdict)" by fastforce
  obtain pub m' where r: "refresh finished verdict m = (pub, m')" by fastforce
  have pub: "pub = monitor_registry m'" and base: "hm_baseline m' = hm_baseline m"
    using r by (auto simp: refresh_def Let_def)
  have "router_fallbacks pub = router_fallbacks (gw_registry g)"
    using Cons.prems(2) pub base by (simp add: monitor_registry_def)
  then have "gw_router_table (use_registry pub g) = build_router (gw_registry (use_registry pub g)) \<and>
      gw_registry (use_registry pub g) = monitor_registry m'"
    using use_registry_in_sync [OF Cons.prems(1), of pub] pub by simp
  then show ?case
    using Cons.IH [of "use_registry pub g" m'] p r by (simp add: run_passes_def)
qed

text \<open>
  \<^bold>\<open>C29\<close>.  The router in use is always the one of the current verdicts, although the gateway
  rebuilds it only when the deployments change: after any history of probe passes it is the router
  of the reviewed registry with the demoted endpoints last; every fallback it knows leads from one
  served alias to others; and an alias with a deployment on a healthy endpoint uses the request
  format of a healthy deployment.
\<close>

theorem router_follows_health:
  fixes ps reg k
  defines "m \<equiv> run_passes ps (new_monitor reg k)"
    and "g \<equiv> gateway_after ps (new_monitor reg k) (new_gateway reg)"
  shows "gw_registry g = with_demoted_endpoints (hm_demoted m) reg \<and>
    gw_router_table g = build_router (with_demoted_endpoints (hm_demoted m) reg) \<and>
    (\<forall>(a, targets) \<in> set (snd (gw_router_table g)).
       {a} \<union> set targets \<subseteq> re_model_name ` set (fst (gw_router_table g))) \<and>
    (\<forall>d \<in> set (mg_deployments (gw_registry g)). dp_api_base d \<notin> hm_demoted m \<longrightarrow>
       (\<exists>p. primary (dp_alias d) (gw_registry g) = Some p \<and> dp_api_base p \<notin> hm_demoted m \<and>
         is_deepseek_alias lower (gw_registry g) (dp_alias d) = is_deepseek_deployment lower p))"
proof -
  have "gw_router_table (new_gateway reg) = build_router (gw_registry (new_gateway reg))"
    and "gw_registry (new_gateway reg) = monitor_registry (new_monitor reg k)"
    by (simp_all add: new_gateway_def new_monitor_def monitor_registry_def with_demoted_endpoints_def)
  from gateway_after_in_sync [OF this, of ps]
  have sync: "gw_router_table g = build_router (monitor_registry m)" "gw_registry g = monitor_registry m"
    by (simp_all add: g_def m_def)
  have mr: "monitor_registry m = with_demoted_endpoints (hm_demoted m) reg"
    by (simp add: monitor_registry_def m_def) (simp add: new_monitor_def)
  have names: "re_model_name ` set (fst (gw_router_table g)) = registry_aliases (monitor_registry m)"
    by (simp add: sync(1) build_router_def model_list_def registry_aliases_def image_image)
  have fb: "{a} \<union> set ts \<subseteq> registry_aliases r" if "(a, ts) \<in> set (router_fallbacks r)" for a ts r
    using that by (auto simp: router_fallbacks_def Let_def split: if_splits)
  have healthy: "\<exists>p. primary (dp_alias d) (gw_registry g) = Some p \<and> dp_api_base p \<notin> hm_demoted m"
    if d: "d \<in> set (mg_deployments (gw_registry g))" "dp_api_base d \<notin> hm_demoted m" for d
  proof -
    obtain p where p: "primary (dp_alias d) (gw_registry g) = Some p" using primary_exists [OF d(1)] by blast
    have "dp_api_base p \<notin> hm_demoted m"
    proof
      assume dem: "dp_api_base p \<in> hm_demoted m"
      then have "dp_priority d < dp_priority p"
        using healthy_before_demoted [of "hm_demoted m" "gw_registry g" reg d p] d primary_min [OF p] sync(2) mr
        by auto
      then show False using primary_min [OF p] d(1) by fastforce
    qed
    then show ?thesis using p by blast
  qed
  show ?thesis
    using sync mr names fb [of _ _ "monitor_registry m"] healthy
    by (fastforce simp: build_router_def is_deepseek_alias_def)
qed

lemma sample_demotes: "hm_demoted (run_passes [(probe_targets sample_registry, sample_verdict)]
    (new_monitor sample_registry 1)) = {u ''x''}"
  by (simp add: sample_targets run_passes_def refresh_def Let_def sample_verdict_def sample_deployment_def
      record_verdict_def record_failure_def record_success_def new_monitor_def failures_of_def)

lemma router_follows_health_witness:
  "\<exists>p. primary (u ''fast'') (gw_registry (gateway_after [(probe_targets sample_registry, sample_verdict)]
      (new_monitor sample_registry 1) (new_gateway sample_registry))) = Some p \<and> dp_api_base p \<noteq> u ''x''"
proof -
  note router = router_follows_health [where ps = "[(probe_targets sample_registry, sample_verdict)]"
      and reg = sample_registry and k = 1, unfolded sample_demotes sample_demoted]
  have "sample_deployment ''fast'' ''y'' 1 \<in> set (mg_deployments (sample_registry\<lparr>mg_deployments :=
      [sample_deployment ''fast'' ''y'' 1, sample_deployment ''fast'' ''x'' 2]\<rparr>))"
    by simp
  then show ?thesis
    using router by (force simp: sample_deployment_def)
qed

section \<open>Results\<close>

lemma non_negative_int_ge [simp]: "0 \<le> non_negative_int v"
  by (auto simp: non_negative_int_def split: option.splits pyval.splits)

lemma usage_of_ge: "0 \<le> mu_prompt_tokens (usage_of b) \<and> 0 \<le> mu_completion_tokens (usage_of b) \<and>
    0 \<le> mu_cached_tokens (usage_of b) \<and> 0 \<le> mu_reasoning_tokens (usage_of b)"
  by (simp add: usage_of_def Let_def split: option.splits)

lemma attempt_of_ge: "1 \<le> attempt_of b"
  by (auto simp: attempt_of_def split: option.splits pyval.splits)

lemma content_of_Inr: "content_of b ms = Inr s \<Longrightarrow> py_strip s \<noteq> []"
  by (auto simp: content_of_def Let_def split: option.splits pyval.splits list.splits if_splits)

lemma content_of_Inl: "content_of b ms = Inl e \<Longrightarrow> mx_category e = ME_PROTOCOL"
  by (auto simp: content_of_def Let_def gateway_error_def
      split: option.splits pyval.splits list.splits if_splits)

lemma validate_request_Inr:
  "validate_request reg q = Inr () \<longleftrightarrow> mq_messages q \<noteq> [] \<and> mq_model_alias q \<in> registry_aliases reg"
  by (simp add: validate_request_def)

text \<open>What a reader of an error can learn of a LiteLLM exception: its class name.\<close>

definition without_text :: "call_failure \<Rightarrow> call_failure" where
  "without_text e = (case e of GatewayRaised g \<Rightarrow> GatewayRaised g | OtherRaised name _ \<Rightarrow> OtherRaised name [])"

lemma translate_without_text [simp]: "translate_failure (without_text e) ms = translate_failure e ms"
  by (simp add: translate_failure_def without_text_def split: call_failure.splits)

lemma stream_without_text:
  "stream_chunks (map (map_sum without_text id) chunks) ms = stream_chunks chunks ms"
  by (induction chunks ms rule: stream_chunks.induct) (simp_all split: sum.splits option.splits)

text \<open>
  Exception texts, which may embed prompts, never cross the gateway: erasing the text
  of every exception that LiteLLM raises changes no result, for a completion or for a stream.  And a
  result that is returned is usable: it answers a request with messages for a served alias, its text
  is not blank, its attempt is counted from one and no token count or duration is negative.
\<close>

theorem gateway_results_safe:
  shows "complete lower c reg (\<lambda>a ms opts. map_sum without_text id (router a ms opts)) reading q =
      complete lower c reg router reading q \<and>
    stream lower c reg (\<lambda>a ms opts. map_sum without_text (map (map_sum without_text id)) (chunked a ms opts))
      reading q = stream lower c reg chunked reading q \<and>
    (case complete lower c reg router reading q of
       Inl _ \<Rightarrow> True
     | Inr r \<Rightarrow> mq_messages q \<noteq> [] \<and> mq_model_alias q \<in> registry_aliases reg \<and>
         py_strip (mp_content r) \<noteq> [] \<and> 1 \<le> mp_attempt r \<and> 0 \<le> mp_duration_ms r \<and>
         0 \<le> mu_prompt_tokens (mp_usage r) \<and> 0 \<le> mu_completion_tokens (mp_usage r) \<and>
         0 \<le> mu_cached_tokens (mp_usage r) \<and> 0 \<le> mu_reasoning_tokens (mp_usage r))"
proof (intro conjI)
  show "complete lower c reg (\<lambda>a ms opts. map_sum without_text id (router a ms opts)) reading q =
      complete lower c reg router reading q"
    by (auto simp: complete_def split: sum.splits)
  show "stream lower c reg (\<lambda>a ms opts. map_sum without_text (map (map_sum without_text id)) (chunked a ms opts))
      reading q = stream lower c reg chunked reading q"
    by (auto simp: stream_def stream_without_text split: sum.splits)
  have "mq_messages q \<noteq> [] \<and> mq_model_alias q \<in> registry_aliases reg \<and>
      py_strip (mp_content r) \<noteq> [] \<and> 1 \<le> mp_attempt r \<and> 0 \<le> mp_duration_ms r \<and>
      0 \<le> mu_prompt_tokens (mp_usage r) \<and> 0 \<le> mu_completion_tokens (mp_usage r) \<and>
      0 \<le> mu_cached_tokens (mp_usage r) \<and> 0 \<le> mu_reasoning_tokens (mp_usage r)"
    if "complete lower c reg router reading q = Inr r" for r
    using that usage_of_ge attempt_of_ge content_of_Inr
    by (auto simp: complete_def result_simps validate_request_Inr elapsed_ms_def split: sum.splits)
  then show "case complete lower c reg router reading q of
       Inl _ \<Rightarrow> True
     | Inr r \<Rightarrow> mq_messages q \<noteq> [] \<and> mq_model_alias q \<in> registry_aliases reg \<and>
         py_strip (mp_content r) \<noteq> [] \<and> 1 \<le> mp_attempt r \<and> 0 \<le> mp_duration_ms r \<and>
         0 \<le> mu_prompt_tokens (mp_usage r) \<and> 0 \<le> mu_completion_tokens (mp_usage r) \<and>
         0 \<le> mu_cached_tokens (mp_usage r) \<and> 0 \<le> mu_reasoning_tokens (mp_usage r)"
    by (simp split: sum.splits)
qed

text \<open>The stream yields what the chunks before the first failure say, in their order.\<close>

lemma stream_yields_prefix:
  assumes "\<forall>chunk \<in> set good. delta_of chunk = Inr (f chunk)"
  shows "fst (stream_chunks (map Inr good @ Inl e # rest) ms) = List.map_filter f good \<and>
    snd (stream_chunks (map Inr good @ Inl e # rest) ms) = Inl (translate_failure e ms)"
  using assms
  by (induction good) (auto simp: map_filter_simps split: prod.splits option.splits)

text \<open>An exception whose class is not in the table is matched by the first known name it
  contains, and otherwise counts as unavailable.\<close>

lemma translate_unknown_class:
  assumes "\<forall>known \<in> fst ` set ERROR_CATEGORIES. \<not> py_in known name" and "name \<notin> fst ` set ERROR_CATEGORIES"
  shows "mx_category (translate_failure (OtherRaised name text) ms) = ME_UNAVAILABLE"
proof -
  have "map_of ERROR_CATEGORIES name = None" using assms(2) by (simp add: map_of_eq_None_iff)
  moreover have "find (\<lambda>(known, _). py_in known name) ERROR_CATEGORIES = None"
    using assms(1) by (force simp: find_None_iff)
  ultimately show ?thesis by (simp add: translate_failure_def gateway_error_def)
qed

end
