(* ===== verification/Json.thy ===== *)
theory Json
  imports Usage "HOL-Library.Countable"
begin

text \<open>
  JSON values, as the caches store and compare them.  \<open>json.dumps\<close> (with the UTF-8 encoding that
  follows it everywhere), \<open>json.loads\<close> and the rendering of floats and containers are parameters
  (\<open>json_codec\<close>); what the code relies on is \<open>codec_roundtrip\<close>.  Python's \<open>==\<close> on
  decoded values ignores the order of dictionaries and identifies \<open>True\<close>, \<open>1\<close> and
  \<open>1.0\<close>; \<open>json_eq\<close> compares canonical forms.  A float is the rational number it
  stands for.
\<close>

datatype json = JNull | JBool bool | JInt int | JFloat rat | JStr pystr | JList "json list"
  | JDict "(pystr \<times> json) list"

type_synonym jdict = "(pystr, json) dict"
type_synonym bytes = "nat list"

record json_codec =
  jc_dumps :: "json \<Rightarrow> bytes"
  jc_loads :: "bytes \<Rightarrow> json option"
  jc_repr :: "json \<Rightarrow> pystr"

text \<open>Every dictionary has distinct keys.\<close>

primrec json_wf :: "json \<Rightarrow> bool" where
  "json_wf JNull \<longleftrightarrow> True"
| "json_wf (JBool b) \<longleftrightarrow> True"
| "json_wf (JInt n) \<longleftrightarrow> True"
| "json_wf (JFloat r) \<longleftrightarrow> True"
| "json_wf (JStr s) \<longleftrightarrow> True"
| "json_wf (JList xs) \<longleftrightarrow> list_all id (map json_wf xs)"
| "json_wf (JDict d) \<longleftrightarrow> distinct (map fst d) \<and> list_all snd (map (map_prod id json_wf) d)"

definition codec_roundtrip :: "json_codec \<Rightarrow> bool" where
  "codec_roundtrip jc \<longleftrightarrow> (\<forall>v. json_wf v \<longrightarrow> jc_loads jc (jc_dumps jc v) = Some v)"

definition json_truthy :: "json \<Rightarrow> bool" where
  "json_truthy v \<longleftrightarrow> v \<notin> {JNull, JBool False, JInt 0, JFloat 0, JStr [], JList [], JDict []}"

text \<open>\<open>str(v)\<close>, and \<open>str(v or '')\<close> of an optional value.\<close>

definition json_str :: "json_codec \<Rightarrow> json \<Rightarrow> pystr" where
  "json_str jc v = (case v of JStr s \<Rightarrow> s | JNull \<Rightarrow> u ''None'' | JBool True \<Rightarrow> u ''True''
     | JBool False \<Rightarrow> u ''False'' | JInt n \<Rightarrow> decimal_int n | _ \<Rightarrow> jc_repr jc v)"

definition str_or_empty :: "json_codec \<Rightarrow> json option \<Rightarrow> pystr" where
  "str_or_empty jc v = (case v of None \<Rightarrow> [] | Some x \<Rightarrow> if json_truthy x then json_str jc x else [])"

primrec canon :: "json \<Rightarrow> json" where
  "canon JNull = JNull"
| "canon (JBool b) = JInt (of_bool b)"
| "canon (JInt n) = JInt n"
| "canon (JFloat r) = (if r = of_int \<lfloor>r\<rfloor> then JInt \<lfloor>r\<rfloor> else JFloat r)"
| "canon (JStr s) = JStr s"
| "canon (JList xs) = JList (map canon xs)"
| "canon (JDict d) = JDict (sort_key fst (map (map_prod id canon) d))"

definition json_eq :: "json \<Rightarrow> json \<Rightarrow> bool" where
  "json_eq a b \<longleftrightarrow> canon a = canon b"

definition json_opt_eq :: "json option \<Rightarrow> json \<Rightarrow> bool" where
  "json_opt_eq a b \<longleftrightarrow> json_eq (case a of Some x \<Rightarrow> x | None \<Rightarrow> JNull) b"

text \<open>\<open>json.dumps(..., sort_keys=True)\<close>.\<close>

primrec sort_keys :: "json \<Rightarrow> json" where
  "sort_keys JNull = JNull"
| "sort_keys (JBool b) = JBool b"
| "sort_keys (JInt n) = JInt n"
| "sort_keys (JFloat r) = JFloat r"
| "sort_keys (JStr s) = JStr s"
| "sort_keys (JList xs) = JList (map sort_keys xs)"
| "sort_keys (JDict d) = JDict (sort_key fst (map (map_prod id sort_keys) d))"

lemma json_eq_refl [simp]: "json_eq a a"
  by (simp add: json_eq_def)

lemma json_eq_simps [simp]:
  "json_eq (JStr a) (JStr b) \<longleftrightarrow> a = b" "json_eq (JInt m) (JInt n) \<longleftrightarrow> m = n"
  "\<not> json_eq JNull (JStr a)" "\<not> json_eq JNull (JInt n)"
  by (simp_all add: json_eq_def)

lemma json_str_JStr [simp]: "json_str jc (JStr s) = s"
  by (simp add: json_str_def)

lemma str_or_empty_simps [simp]:
  "str_or_empty jc None = []" "str_or_empty jc (Some (JStr s)) = s" "str_or_empty jc (Some JNull) = []"
  by (simp_all add: str_or_empty_def json_truthy_def)

lemma json_wf_strings [simp]: "list_all id (map json_wf (map JStr xs))"
  by (induction xs) auto

section \<open>A codec\<close>

text \<open>The law of the codec can be kept: an instance that numbers the values.\<close>

instance json :: countable
  by countable_datatype

definition index_codec :: json_codec where
  "index_codec = \<lparr>jc_dumps = (\<lambda>v. [to_nat v]), jc_loads = (\<lambda>b. case b of [n] \<Rightarrow> Some (from_nat n) | _ \<Rightarrow> None),
     jc_repr = (\<lambda>_. [])\<rparr>"

lemma index_codec_roundtrip: "codec_roundtrip index_codec"
  by (simp add: codec_roundtrip_def index_codec_def)

end
