(* ===== verification/AuthCache.thy ===== *)
theory AuthCache
  imports Json Counting Strings Filters
begin

text \<open>
  The authorization-aware cache (\<^verbatim>\<open>application/cache.py\<close>) over its store port
  (\<^verbatim>\<open>ports/cache.py\<close>) and the Redis store (\<^verbatim>\<open>infrastructure/cache.py\<close>).

  Every store operation may fail; \<open>cache_store\<close> is the port, \<open>cache_provider\<close> what the
  cache relies on, and Redis (a map of keys with an expiry time, reachable or not) implements it.
  A scan for \<open>prefix*\<close> is read as a prefix test: the keys have no glob characters.
\<close>

section \<open>The store port\<close>

datatype store_fault = StoreUnavailable

record 's lease_ops =
  lo_acquire :: "pystr \<Rightarrow> pystr \<Rightarrow> int \<Rightarrow> 's \<Rightarrow> (store_fault + bool) \<times> 's"
  lo_release :: "pystr \<Rightarrow> pystr \<Rightarrow> 's \<Rightarrow> (store_fault + unit) \<times> 's"

record 's cache_store =
  cs_get :: "pystr \<Rightarrow> 's \<Rightarrow> (store_fault + bytes option) \<times> 's"
  cs_put :: "pystr \<Rightarrow> bytes \<Rightarrow> int \<Rightarrow> 's \<Rightarrow> (store_fault + unit) \<times> 's"
  cs_delete :: "pystr \<Rightarrow> 's \<Rightarrow> (store_fault + unit) \<times> 's"
  cs_delete_prefix :: "pystr \<Rightarrow> 's \<Rightarrow> (store_fault + unit) \<times> 's"
  cs_lease :: "'s lease_ops option"

section \<open>Redis\<close>

record redis =
  rd_data :: "pystr \<Rightarrow> (bytes \<times> instant) option"
  rd_now :: instant
  rd_up :: bool

definition redis_live :: "redis \<Rightarrow> pystr \<Rightarrow> bytes option" where
  "redis_live s k = (case rd_data s k of Some (v, expires) \<Rightarrow> if rd_now s < expires then Some v else None
     | None \<Rightarrow> None)"

definition redis_call :: "(redis \<Rightarrow> 'a \<times> redis) \<Rightarrow> redis \<Rightarrow> (store_fault + 'a) \<times> redis" where
  "redis_call f s = (if rd_up s then map_prod Inr id (f s) else (Inl StoreUnavailable, s))"

definition redis_get :: "pystr \<Rightarrow> redis \<Rightarrow> (store_fault + bytes option) \<times> redis" where
  "redis_get k = redis_call (\<lambda>s. (redis_live s k, s))"

text \<open>\<^verbatim>\<open>SET ... EX ttl\<close>; Redis refuses an expiry that is not positive.\<close>

definition redis_put :: "pystr \<Rightarrow> bytes \<Rightarrow> int \<Rightarrow> redis \<Rightarrow> (store_fault + unit) \<times> redis" where
  "redis_put k v ttl s = (if ttl \<le> 0 then (Inl StoreUnavailable, s)
     else redis_call (\<lambda>s. ((), s\<lparr>rd_data := (rd_data s)(k \<mapsto> (v, rd_now s + ttl * us_second))\<rparr>)) s)"

definition redis_delete :: "pystr \<Rightarrow> redis \<Rightarrow> (store_fault + unit) \<times> redis" where
  "redis_delete k = redis_call (\<lambda>s. ((), s\<lparr>rd_data := (rd_data s)(k := None)\<rparr>))"

definition redis_delete_prefix :: "pystr \<Rightarrow> redis \<Rightarrow> (store_fault + unit) \<times> redis" where
  "redis_delete_prefix p = redis_call (\<lambda>s. ((), s\<lparr>rd_data :=
     (\<lambda>k. if starts_with p k then None else rd_data s k)\<rparr>))"

definition redis_acquire :: "pystr \<Rightarrow> pystr \<Rightarrow> int \<Rightarrow> redis \<Rightarrow> (store_fault + bool) \<times> redis" where
  "redis_acquire k token ttl s = (if ttl \<le> 0 then (Inl StoreUnavailable, s)
     else redis_call (\<lambda>s. if redis_live s k = None
       then (True, s\<lparr>rd_data := (rd_data s)(k \<mapsto> (token, rd_now s + ttl * us_second))\<rparr>)
       else (False, s)) s)"

definition redis_release :: "pystr \<Rightarrow> pystr \<Rightarrow> redis \<Rightarrow> (store_fault + unit) \<times> redis" where
  "redis_release k token = redis_call (\<lambda>s. ((), if redis_live s k = Some token
     then s\<lparr>rd_data := (rd_data s)(k := None)\<rparr> else s))"

definition redis_store :: "redis cache_store" where
  "redis_store = \<lparr>cs_get = redis_get, cs_put = redis_put, cs_delete = redis_delete,
     cs_delete_prefix = redis_delete_prefix,
     cs_lease = Some \<lparr>lo_acquire = redis_acquire, lo_release = redis_release\<rparr>\<rparr>"

section \<open>cache.py\<close>

definition CACHE_DOMAINS :: "pystr list" where
  "CACHE_DOMAINS = [u ''identity_org'', u ''order_progress'', u ''output'', u ''payroll'', u ''v2_result'']"

definition DEFAULT_TTL_BY_DOMAIN :: "(pystr, int) dict" where
  "DEFAULT_TTL_BY_DOMAIN = [(u ''identity_org'', 86400), (u ''order_progress'', 120), (u ''output'', 60),
     (u ''payroll'', 60), (u ''v2_result'', 86400)]"

definition SHARED_SCOPE_FINGERPRINT :: pystr where "SHARED_SCOPE_FINGERPRINT = u ''shared''"
definition KEY_PREFIX :: pystr where "KEY_PREFIX = u ''fa''"

datatype cache_error = UnknownCacheDomain pystr

record cache_lookup =
  lk_value :: "bytes option"
  lk_reason :: pystr

record cache_stats =
  st_hits :: "(pystr, nat) dict"
  st_misses :: "(pystr, nat) dict"
  st_reasons :: "(pystr, nat) dict"

definition record_hit :: "pystr \<Rightarrow> cache_stats \<Rightarrow> cache_stats" where
  "record_hit domain s = s\<lparr>st_hits := counter_add domain (st_hits s)\<rparr>"

definition record_miss :: "pystr \<Rightarrow> pystr \<Rightarrow> cache_stats \<Rightarrow> cache_stats" where
  "record_miss domain reason s = s\<lparr>st_misses := counter_add domain (st_misses s),
     st_reasons := counter_add reason (st_reasons s)\<rparr>"

text \<open>The constructor's fixed arguments, and what an \<open>AuthAwareCache\<close> changes.\<close>

record auth_cache =
  ac_contract_version :: pystr
  ac_metric_version :: pystr
  ac_data_version :: pystr
  ac_ttl_seconds :: "(pystr, int) dict"

type_synonym 's cache_state = "cache_stats \<times> 's"

text \<open>A colon (58) separates the parts of a key; 31 is the unit separator.\<close>

definition tenant_digest :: "stdlib \<Rightarrow> tenant_id \<Rightarrow> pystr" where
  "tenant_digest std t = std_sha256_hex std t"

definition canonical_digest :: "stdlib \<Rightarrow> json_codec \<Rightarrow> jdict \<Rightarrow> pystr" where
  "canonical_digest std jc params = std_sha256_hex std (jc_dumps jc (sort_keys (JDict params)))"

definition py_bool_str :: "bool \<Rightarrow> pystr" where
  "py_bool_str b = (if b then u ''True'' else u ''False'')"

definition scope_fingerprint :: "stdlib \<Rightarrow> data_scope \<Rightarrow> pystr" where
  "scope_fingerprint std s = std_sha256_hex std (ds_scope_version s @ [31] @ ds_tenant_id s @ [31] @
     py_bool_str (ds_mes_filtered s) @ [31] @ decimal (card (ds_employee_ids s)) @ [31] @
     decimal (card (ds_dept_ids s)))"

definition key_head :: "auth_cache \<Rightarrow> pystr" where
  "key_head c = KEY_PREFIX @ [58] @ ac_contract_version c @ [58] @ ac_metric_version c @ [58] @
     ac_data_version c @ [58]"

definition build_key :: "stdlib \<Rightarrow> json_codec \<Rightarrow> auth_cache \<Rightarrow> pystr \<Rightarrow> tenant_id \<Rightarrow> pystr \<Rightarrow> jdict \<Rightarrow>
   cache_error + pystr" where
  "build_key std jc c domain tenant fp params =
     (if domain \<notin> set CACHE_DOMAINS then Inl (UnknownCacheDomain domain)
      else Inr (key_head c @ tenant_digest std tenant @ [58] @ fp @ [58] @ domain @ [58] @
        canonical_digest std jc params))"

definition ttl_seconds :: "auth_cache \<Rightarrow> pystr \<Rightarrow> cache_error + int" where
  "ttl_seconds c domain = (if domain \<notin> set CACHE_DOMAINS then Inl (UnknownCacheDomain domain)
     else Inr (case map_of (ac_ttl_seconds c) domain of Some n \<Rightarrow> n
       | None \<Rightarrow> (case map_of DEFAULT_TTL_BY_DOMAIN domain of Some n \<Rightarrow> n | None \<Rightarrow> 0)))"

definition cache_ping :: "'s cache_store \<Rightarrow> 's \<Rightarrow> bool \<times> 's" where
  "cache_ping store s = (case cs_get store (KEY_PREFIX @ u '':__probe__'') s of
     (Inl _, s') \<Rightarrow> (False, s') | (Inr _, s') \<Rightarrow> (True, s'))"

definition cache_get :: "stdlib \<Rightarrow> json_codec \<Rightarrow> auth_cache \<Rightarrow> 's cache_store \<Rightarrow> pystr \<Rightarrow> tenant_id \<Rightarrow>
   pystr \<Rightarrow> jdict \<Rightarrow> 's cache_state \<Rightarrow> (cache_error + cache_lookup) \<times> 's cache_state" where
  "cache_get std jc c store domain tenant fp params cs = (case build_key std jc c domain tenant fp params of
     Inl e \<Rightarrow> (Inl e, cs)
   | Inr key \<Rightarrow> (case cs of (stats, s) \<Rightarrow> (case cs_get store key s of
       (Inl _, s') \<Rightarrow> (Inr \<lparr>lk_value = None, lk_reason = u ''store_unavailable''\<rparr>,
         (record_miss domain (u ''store_unavailable'') stats, s'))
     | (Inr None, s') \<Rightarrow> (Inr \<lparr>lk_value = None, lk_reason = u ''miss''\<rparr>,
         (record_miss domain (u ''miss'') stats, s'))
     | (Inr (Some v), s') \<Rightarrow> (Inr \<lparr>lk_value = Some v, lk_reason = u ''hit''\<rparr>,
         (record_hit domain stats, s')))))"

text \<open>\<open>ttl_seconds or self.ttl_seconds(domain)\<close>: zero falls back to the default as well.\<close>

definition cache_put :: "stdlib \<Rightarrow> json_codec \<Rightarrow> auth_cache \<Rightarrow> 's cache_store \<Rightarrow> pystr \<Rightarrow> tenant_id \<Rightarrow>
   pystr \<Rightarrow> jdict \<Rightarrow> bytes \<Rightarrow> int option \<Rightarrow> 's cache_state \<Rightarrow> (cache_error + bool) \<times> 's cache_state" where
  "cache_put std jc c store domain tenant fp params v ttl cs =
     (case build_key std jc c domain tenant fp params of
        Inl e \<Rightarrow> (Inl e, cs)
      | Inr key \<Rightarrow> (case (case ttl of Some n \<Rightarrow> if n \<noteq> 0 then Inr n else ttl_seconds c domain
            | None \<Rightarrow> ttl_seconds c domain) of
          Inl e \<Rightarrow> (Inl e, cs)
        | Inr actual_ttl \<Rightarrow> (case cs of (stats, s) \<Rightarrow> (case cs_put store key v actual_ttl s of
            (Inl _, s') \<Rightarrow> (Inr False, (record_miss domain (u ''store_unavailable'') stats, s'))
          | (Inr _, s') \<Rightarrow> (Inr True, (stats, s'))))))"

text \<open>\<open>invalidate_key\<close>, \<open>invalidate_scope\<close> and \<open>purge_all\<close> all end in this step.\<close>

definition delete_matching :: "'s cache_store \<Rightarrow> pystr \<Rightarrow> 's cache_state \<Rightarrow> 's cache_state" where
  "delete_matching store prefix' cs = (case cs of (stats, s) \<Rightarrow> (case cs_delete_prefix store prefix' s of
     (Inl _, s') \<Rightarrow> (record_miss (u ''identity_org'') (u ''store_unavailable'') stats, s')
   | (Inr _, s') \<Rightarrow> (stats, s')))"

definition invalidate_key :: "'s cache_store \<Rightarrow> pystr \<Rightarrow> 's cache_state \<Rightarrow> 's cache_state" where
  "invalidate_key store key = delete_matching store key"

definition scope_prefix :: "stdlib \<Rightarrow> auth_cache \<Rightarrow> tenant_id \<Rightarrow> pystr \<Rightarrow> pystr" where
  "scope_prefix std c tenant fp = key_head c @ tenant_digest std tenant @ [58] @ fp @ [58]"

definition invalidate_scope :: "stdlib \<Rightarrow> auth_cache \<Rightarrow> 's cache_store \<Rightarrow> tenant_id \<Rightarrow> pystr \<Rightarrow>
   's cache_state \<Rightarrow> 's cache_state" where
  "invalidate_scope std c store tenant fp = delete_matching store (scope_prefix std c tenant fp)"

definition invalidate_base_data :: "stdlib \<Rightarrow> auth_cache \<Rightarrow> 's cache_store \<Rightarrow> tenant_id \<Rightarrow>
   's cache_state \<Rightarrow> 's cache_state" where
  "invalidate_base_data std c store tenant = invalidate_scope std c store tenant SHARED_SCOPE_FINGERPRINT"

definition purge_all :: "'s cache_store \<Rightarrow> 's cache_state \<Rightarrow> 's cache_state" where
  "purge_all store = delete_matching store (KEY_PREFIX @ [58])"

text \<open>\<open>lease\<close>: the two halves of the context manager; the body runs with the acquired flag.\<close>

definition lease_enter :: "stdlib \<Rightarrow> json_codec \<Rightarrow> auth_cache \<Rightarrow> 's cache_store \<Rightarrow> tenant_id \<Rightarrow> jdict \<Rightarrow>
   pystr \<Rightarrow> int \<Rightarrow> 's cache_state \<Rightarrow> bool \<times> 's cache_state" where
  "lease_enter std jc c store tenant params token ttl cs = (case cs_lease store of
     None \<Rightarrow> (True, cs)
   | Some ops \<Rightarrow> (case build_key std jc c (u ''v2_result'') tenant (u ''producer-lease'') params of
       Inl _ \<Rightarrow> (False, cs)
     | Inr key \<Rightarrow> (case cs of (stats, s) \<Rightarrow> (case lo_acquire ops key token ttl s of
         (Inl _, s') \<Rightarrow> (False, (record_miss (u ''v2_result'') (u ''store_unavailable'') stats, s'))
       | (Inr acquired, s') \<Rightarrow> (acquired, (stats, s'))))))"

definition lease_exit :: "stdlib \<Rightarrow> json_codec \<Rightarrow> auth_cache \<Rightarrow> 's cache_store \<Rightarrow> tenant_id \<Rightarrow> jdict \<Rightarrow>
   pystr \<Rightarrow> bool \<Rightarrow> 's cache_state \<Rightarrow> 's cache_state" where
  "lease_exit std jc c store tenant params token acquired cs = (case cs_lease store of
     None \<Rightarrow> cs
   | Some ops \<Rightarrow> if \<not> acquired then cs
     else (case build_key std jc c (u ''v2_result'') tenant (u ''producer-lease'') params of
       Inl _ \<Rightarrow> cs
     | Inr key \<Rightarrow> (case cs of (stats, s) \<Rightarrow> (case lo_release ops key token s of
         (Inl _, s') \<Rightarrow> (record_miss (u ''v2_result'') (u ''store_unavailable'') stats, s')
       | (Inr _, s') \<Rightarrow> (stats, s')))))"

section \<open>CachedDirectorySource\<close>

text \<open>A record rebuilt from a line: its fields are whatever the line holds.\<close>

datatype dir_entry = DeptEntry json json json | EmployeeEntry json json json json

definition dept_entry :: "dept_record \<Rightarrow> dir_entry" where
  "dept_entry r = DeptEntry (JStr (dr_dept_id r)) (JStr (dr_name r)) (JStr (dr_name_pk r))"

definition employee_entry :: "employee_record \<Rightarrow> dir_entry" where
  "employee_entry r = EmployeeEntry (JStr (emp_employee_id r)) (JStr (emp_name r)) (JStr (emp_name_pk r))
     (case emp_dept r of Some d \<Rightarrow> JStr d | None \<Rightarrow> JNull)"

fun entry_json :: "dir_entry \<Rightarrow> json" where
  "entry_json (DeptEntry i n pk) = JDict [(u ''dept_id'', i), (u ''name'', n), (u ''name_pk'', pk)]"
| "entry_json (EmployeeEntry i n pk d) =
     JDict [(u ''employee_id'', i), (u ''name'', n), (u ''name_pk'', pk), (u ''dept'', d)]"

definition encode_records :: "json_codec \<Rightarrow> dir_entry list \<Rightarrow> bytes" where
  "encode_records jc rs = jc_dumps jc (JList (map entry_json rs))"

definition decode_entry :: "json \<Rightarrow> dir_entry option" where
  "decode_entry e = (case e of
     JDict d \<Rightarrow> (case map_of d (u ''dept_id'') of
         Some i \<Rightarrow> (case (map_of d (u ''name''), map_of d (u ''name_pk'')) of
             (Some n, Some pk) \<Rightarrow> Some (DeptEntry i n pk) | _ \<Rightarrow> None)
       | None \<Rightarrow> (case map_of d (u ''employee_id'') of
           Some i \<Rightarrow> (case (map_of d (u ''name''), map_of d (u ''name_pk'')) of
               (Some n, Some pk) \<Rightarrow> Some (EmployeeEntry i n pk
                 (case map_of d (u ''dept'') of Some x \<Rightarrow> x | None \<Rightarrow> JNull))
             | _ \<Rightarrow> None)
         | None \<Rightarrow> None))
   | _ \<Rightarrow> None)"

fun decode_entries :: "json list \<Rightarrow> dir_entry list option" where
  "decode_entries [] = Some []"
| "decode_entries (e # es) = (case decode_entry e of None \<Rightarrow> None
     | Some r \<Rightarrow> map_option ((#) r) (decode_entries es))"

definition decode_records :: "json_codec \<Rightarrow> bytes \<Rightarrow> dir_entry list option" where
  "decode_records jc raw = (case jc_loads jc raw of Some (JList es) \<Rightarrow> decode_entries es | _ \<Rightarrow> None)"

text \<open>\<open>fetch\<close> is the wrapped source with the world it acts on; the flag says that the cache answered.\<close>

definition cached_roster_with_status ::
  "stdlib \<Rightarrow> json_codec \<Rightarrow> auth_cache \<Rightarrow> 's cache_store \<Rightarrow> tenant_id \<Rightarrow> pystr \<Rightarrow>
   ('w \<Rightarrow> ('e + dir_entry list) \<times> 'w) \<Rightarrow> 's cache_state \<Rightarrow> 'w \<Rightarrow>
   ('e + dir_entry list \<times> bool) \<times> 's cache_state \<times> 'w" where
  "cached_roster_with_status std jc c store tenant op fetch cs w =
     (let params = [(u ''op'', JStr op)] in
      case cache_get std jc c store (u ''identity_org'') tenant SHARED_SCOPE_FINGERPRINT params cs of
        (found, cs1) \<Rightarrow>
          (case (case found of Inr l \<Rightarrow> (case lk_value l of Some v \<Rightarrow> decode_records jc v | None \<Rightarrow> None)
               | Inl _ \<Rightarrow> None) of
             Some records \<Rightarrow> (Inr (records, True), cs1, w)
           | None \<Rightarrow> (case fetch w of
               (Inl e, w') \<Rightarrow> (Inl e, cs1, w')
             | (Inr records, w') \<Rightarrow>
                 (case cache_put std jc c store (u ''identity_org'') tenant SHARED_SCOPE_FINGERPRINT params
                    (encode_records jc records) None cs1 of
                    (_, cs2) \<Rightarrow> (Inr (records, False), cs2, w')))))"

definition cached_roster ::
  "stdlib \<Rightarrow> json_codec \<Rightarrow> auth_cache \<Rightarrow> 's cache_store \<Rightarrow> tenant_id \<Rightarrow> pystr \<Rightarrow>
   ('w \<Rightarrow> ('e + dir_entry list) \<times> 'w) \<Rightarrow> 's cache_state \<Rightarrow> 'w \<Rightarrow>
   ('e + dir_entry list) \<times> 's cache_state \<times> 'w" where
  "cached_roster std jc c store tenant op fetch cs w =
     (case cached_roster_with_status std jc c store tenant op fetch cs w of
        (r, rest) \<Rightarrow> (map_sum id fst r, rest))"

definition cached_list_depts where
  "cached_list_depts std jc c store fetch scope = cached_roster std jc c store (ds_tenant_id scope) (u ''depts'')
     (fetch scope)"

definition cached_list_employees where
  "cached_list_employees std jc c store fetch scope =
     cached_roster std jc c store (ds_tenant_id scope) (u ''employees'') (fetch scope)"

definition fetch_employee_roster where
  "fetch_employee_roster std jc c store fetch_tenant tenant =
     cached_roster_with_status std jc c store tenant (u ''employees'') (fetch_tenant tenant)"

section \<open>Keys\<close>

text \<open>What is documented of \<^verbatim>\<open>sha256().hexdigest()\<close>: 64 characters, none of them a colon.\<close>

definition hex_digests :: "stdlib \<Rightarrow> bool" where
  "hex_digests std \<longleftrightarrow> (\<forall>x. length (std_sha256_hex std x) = 64 \<and> 58 \<notin> set (std_sha256_hex std x))"

lemma split_at_colon:
  assumes "a @ 58 # b = a' @ 58 # b'" and "58 \<notin> set b" and "58 \<notin> set b'"
  shows "a = a' \<and> b = (b' :: nat list)"
  using assms by (auto simp: append_eq_append_conv2 append_eq_Cons_conv Cons_eq_append_conv)

lemma domains_without_colon: "d \<in> set CACHE_DOMAINS \<Longrightarrow> 58 \<notin> set d"
  by (auto simp: CACHE_DOMAINS_def u_def)

lemma build_key_inject:
  assumes "hex_digests std" and "build_key std jc c d t f p = Inr k" and "build_key std jc c d' t' f' p' = Inr k"
  shows "d = d' \<and> f = f' \<and> tenant_digest std t = tenant_digest std t' \<and>
    canonical_digest std jc p = canonical_digest std jc p'"
proof -
  have dom: "58 \<notin> set d" "58 \<notin> set d'"
    using assms(2,3) domains_without_colon by (auto simp: build_key_def split: if_splits)
  have digests: "58 \<notin> set (canonical_digest std jc q)" "length (tenant_digest std x) = 64" for q x
    using assms(1) by (simp_all add: hex_digests_def canonical_digest_def tenant_digest_def)
  have eq: "((tenant_digest std t @ [58] @ f) @ 58 # d) @ 58 # canonical_digest std jc p =
      ((tenant_digest std t' @ [58] @ f') @ 58 # d') @ 58 # canonical_digest std jc p'"
    using assms(2,3) by (auto simp: build_key_def split: if_splits)
  from split_at_colon [OF eq digests(1) digests(1)]
  have 1: "(tenant_digest std t @ [58] @ f) @ 58 # d = (tenant_digest std t' @ [58] @ f') @ 58 # d'"
    and digest: "canonical_digest std jc p = canonical_digest std jc p'" by blast+
  from split_at_colon [OF 1 dom] have "tenant_digest std t @ [58] @ f = tenant_digest std t' @ [58] @ f'"
    and "d = d'" by blast+
  then show ?thesis using digest digests(2) by simp
qed

section \<open>What the cache relies on\<close>

text \<open>
  \<open>content\<close> bounds what a store may ever answer for a key: it grows only by a put of that
  key, under any failure, and a successful deletion of a prefix empties it there.
  \<open>elapse\<close> is what happens between two calls (time, outages).
\<close>

locale cache_provider =
  fixes store :: "'s cache_store" and content :: "'s \<Rightarrow> pystr \<Rightarrow> bytes option"
    and elapse :: "'e \<Rightarrow> 's \<Rightarrow> 's"
  assumes get_hit: "cs_get store k s = (Inr (Some v), s') \<Longrightarrow> content s k = Some v"
    and get_keeps: "cs_get store k s = (r, s') \<Longrightarrow> content s' k' = Some x \<Longrightarrow> content s k' = Some x"
    and put_adds: "cs_put store k v ttl s = (r', s') \<Longrightarrow> content s' k' = Some x \<Longrightarrow>
      (k' = k \<and> x = v) \<or> content s k' = Some x"
    and delete_keeps: "cs_delete_prefix store p s = (r', s') \<Longrightarrow> content s' k' = Some x \<Longrightarrow> content s k' = Some x"
    and delete_clears: "cs_delete_prefix store p s = (Inr (), s') \<Longrightarrow> starts_with p k' \<Longrightarrow> content s' k' = None"
    and acquire_adds: "cs_lease store = Some ops \<Longrightarrow> lo_acquire ops k v ttl s = (ra, s') \<Longrightarrow>
      content s' k' = Some x \<Longrightarrow> (k' = k \<and> x = v) \<or> content s k' = Some x"
    and release_keeps: "cs_lease store = Some ops \<Longrightarrow> lo_release ops k v s = (r', s') \<Longrightarrow>
      content s' k' = Some x \<Longrightarrow> content s k' = Some x"
    and elapse_keeps: "content (elapse e s) k' = Some x \<Longrightarrow> content s k' = Some x"

datatype 'e cache_op =
    CPut pystr tenant_id pystr jdict bytes "int option"
  | CGet pystr tenant_id pystr jdict
  | CInvalidateKey pystr
  | CInvalidateScope tenant_id pystr
  | CPurge
  | CLeaseEnter tenant_id jdict pystr int
  | CLeaseExit tenant_id jdict pystr bool
  | CElapse 'e

fun apply_cache_op :: "stdlib \<Rightarrow> json_codec \<Rightarrow> auth_cache \<Rightarrow> 's cache_store \<Rightarrow> ('e \<Rightarrow> 's \<Rightarrow> 's) \<Rightarrow> 'e cache_op \<Rightarrow>
   's cache_state \<Rightarrow> 's cache_state" where
  "apply_cache_op std jc c store elapse (CPut d t f p v ttl) cs = snd (cache_put std jc c store d t f p v ttl cs)"
| "apply_cache_op std jc c store elapse (CGet d t f p) cs = snd (cache_get std jc c store d t f p cs)"
| "apply_cache_op std jc c store elapse (CInvalidateKey k) cs = invalidate_key store k cs"
| "apply_cache_op std jc c store elapse (CInvalidateScope t f) cs = invalidate_scope std c store t f cs"
| "apply_cache_op std jc c store elapse CPurge cs = purge_all store cs"
| "apply_cache_op std jc c store elapse (CLeaseEnter t p token ttl) cs =
     snd (lease_enter std jc c store t p token ttl cs)"
| "apply_cache_op std jc c store elapse (CLeaseExit t p token a) cs = lease_exit std jc c store t p token a cs"
| "apply_cache_op std jc c store elapse (CElapse e) cs = (fst cs, elapse e (snd cs))"

text \<open>The operations that may put \<open>v\<close> under key \<open>k\<close>.\<close>

fun writes_line :: "stdlib \<Rightarrow> json_codec \<Rightarrow> auth_cache \<Rightarrow> 'e cache_op \<Rightarrow> pystr \<Rightarrow> bytes \<Rightarrow> bool" where
  "writes_line std jc c (CPut d t f p v ttl) k x \<longleftrightarrow> build_key std jc c d t f p = Inr k \<and> x = v"
| "writes_line std jc c (CLeaseEnter t p token ttl) k x \<longleftrightarrow>
     build_key std jc c (u ''v2_result'') t (u ''producer-lease'') p = Inr k \<and> x = token"
| "writes_line std jc c _ k x \<longleftrightarrow> False"

context cache_provider
begin

lemma delete_matching_keeps:
  "content (snd (delete_matching store p cs)) k = Some x \<Longrightarrow> content (snd cs) k = Some x"
  by (auto simp: delete_matching_def split: prod.splits sum.splits dest: delete_keeps)

lemma step_origin:
  assumes "content (snd (apply_cache_op std jc c store elapse op cs)) k = Some x"
  shows "content (snd cs) k = Some x \<or> writes_line std jc c op k x"
proof (cases op)
  case (CPut d t f p v ttl)
  then show ?thesis
    using assms by (auto simp: cache_put_def split: sum.splits prod.splits option.splits if_splits dest: put_adds)
next
  case (CGet d t f p)
  then show ?thesis
    using assms by (auto simp: cache_get_def split: sum.splits prod.splits option.splits if_splits dest: get_keeps)
next
  case (CLeaseEnter t p token ttl)
  then show ?thesis
    using assms by (auto simp: lease_enter_def split: sum.splits prod.splits option.splits if_splits dest: acquire_adds)
next
  case (CLeaseExit t p token a)
  then show ?thesis
    using assms by (auto simp: lease_exit_def split: sum.splits prod.splits option.splits if_splits dest: release_keeps)
qed (use assms in \<open>auto simp: invalidate_key_def invalidate_scope_def purge_all_def
    dest: delete_matching_keeps elapse_keeps\<close>)

text \<open>Every line has an origin in the history.\<close>

lemma line_origin:
  assumes "\<forall>k. content (snd cs) k = None"
    and "content (snd (fold (apply_cache_op std jc c store elapse) ops cs)) k = Some x"
  shows "\<exists>op \<in> set ops. writes_line std jc c op k x"
  using assms(2)
proof (induction ops rule: rev_induct)
  case Nil
  then show ?case using assms(1) by simp
next
  case (snoc op ops)
  then show ?case using step_origin by fastforce
qed

lemma hit_origin:
  assumes "cache_get std jc c store d t f p cs = (Inr l, cs')" and "lk_value l = Some v"
  shows "\<exists>k. build_key std jc c d t f p = Inr k \<and> content (snd cs) k = Some v"
  using assms by (auto simp: cache_get_def split: sum.splits prod.splits option.splits dest: get_hit)

lemma key_in_scope:
  "build_key std jc c d t f p = Inr k \<Longrightarrow> starts_with (scope_prefix std c t f) k"
  by (auto simp: build_key_def scope_prefix_def starts_with_def prefix_def split: if_splits)

lemma cleared_scope_misses:
  assumes "cs_delete_prefix store (scope_prefix std c t f) (snd cs) = (Inr (), s')"
    and "cache_get std jc c store d t f p (invalidate_scope std c store t f cs) = (Inr l, cs')"
  shows "lk_value l = None"
proof (rule ccontr)
  assume "lk_value l \<noteq> None"
  then obtain v where "lk_value l = Some v" by blast
  from hit_origin [OF assms(2) this] obtain k where k: "build_key std jc c d t f p = Inr k"
    "content (snd (invalidate_scope std c store t f cs)) k = Some v" by blast
  have "snd (invalidate_scope std c store t f cs) = s'"
    using assms(1) by (cases cs) (simp add: invalidate_scope_def delete_matching_def)
  then show False using k(2) delete_clears [OF assms(1) key_in_scope [OF k(1)]] by simp
qed

end

text \<open>Redis keeps this contract: time only removes lines, and an outage changes nothing.\<close>

definition redis_elapse :: "nat \<times> bool \<Rightarrow> redis \<Rightarrow> redis" where
  "redis_elapse e s = s\<lparr>rd_now := rd_now s + int (fst e), rd_up := snd e\<rparr>"

lemma redis_live_put [simp]:
  "redis_live (s\<lparr>rd_data := (rd_data s)(k \<mapsto> (v, e))\<rparr>) k' =
     (if k' = k then if rd_now s < e then Some v else None else redis_live s k')"
  by (auto simp: redis_live_def split: option.splits)

lemma redis_live_remove [simp]:
  "redis_live (s\<lparr>rd_data := (rd_data s)(k := None)\<rparr>) k' = (if k' = k then None else redis_live s k')"
  "redis_live (s\<lparr>rd_data := (\<lambda>k. if P k then None else rd_data s k)\<rparr>) k' =
     (if P k' then None else redis_live s k')"
  by (auto simp: redis_live_def split: option.splits)

interpretation redis_provider: cache_provider redis_store redis_live redis_elapse
proof
  fix e s k' x
  assume "redis_live (redis_elapse e s) k' = Some x"
  then show "redis_live s k' = Some x"
    by (auto simp: redis_live_def redis_elapse_def split: option.splits if_splits)
qed (auto simp: redis_store_def redis_get_def redis_put_def redis_delete_prefix_def redis_acquire_def
    redis_release_def redis_call_def split: if_splits)

definition empty_redis :: redis where
  "empty_redis = \<lparr>rd_data = (\<lambda>_. None), rd_now = 0, rd_up = True\<rparr>"

definition no_stats :: cache_stats where
  "no_stats = \<lparr>st_hits = [], st_misses = [], st_reasons = []\<rparr>"

text \<open>
  \<^bold>\<open>C18\<close>.  A cache line is answered only to its own tenant, scope and question.  Whatever was
  put, invalidated, leased, expired or lost in an outage before, a lookup that hits returns bytes
  that were put under the same domain and scope fingerprint, for a tenant and parameters with the
  same digests; and after an invalidation of a scope that reached the store, every lookup in that
  scope misses.
\<close>

theorem cache_lines_isolated:
  assumes "hex_digests std" and "f \<noteq> u ''producer-lease''"
    and "cs = fold (apply_cache_op std jc c redis_store redis_elapse) ops (no_stats, empty_redis)"
  shows "(\<forall>l cs' v. cache_get std jc c redis_store d t f p cs = (Inr l, cs') \<and> lk_value l = Some v \<longrightarrow>
      (\<exists>t' p' ttl. CPut d t' f p' v ttl \<in> set ops \<and> tenant_digest std t' = tenant_digest std t \<and>
        canonical_digest std jc p' = canonical_digest std jc p)) \<and>
    (\<forall>l cs'. rd_up (snd cs) \<and>
      cache_get std jc c redis_store d t f p (invalidate_scope std c redis_store t f cs) = (Inr l, cs') \<longrightarrow>
      lk_value l = None)"
proof (intro conjI allI impI; elim conjE)
  fix l cs' v
  assume get: "cache_get std jc c redis_store d t f p cs = (Inr l, cs')" "lk_value l = Some v"
  obtain k where k: "build_key std jc c d t f p = Inr k" "redis_live (snd cs) k = Some v"
    using redis_provider.hit_origin [OF get] by blast
  have "\<forall>k. redis_live (snd (no_stats, empty_redis)) k = None"
    by (simp add: empty_redis_def redis_live_def)
  then obtain op where op: "op \<in> set ops" "writes_line std jc c op k v"
    using redis_provider.line_origin k(2) unfolding assms(3) by blast
  show "\<exists>t' p' ttl. CPut d t' f p' v ttl \<in> set ops \<and> tenant_digest std t' = tenant_digest std t \<and>
      canonical_digest std jc p' = canonical_digest std jc p"
  proof (cases op)
    case (CPut d' t' f' p' v' ttl)
    then show ?thesis using op build_key_inject [OF assms(1) k(1)] by auto metis
  next
    case (CLeaseEnter t' p' token ttl)
    then show ?thesis using op build_key_inject [OF assms(1) k(1)] assms(2) by auto
  qed (use op in auto)
next
  fix l cs'
  assume up: "rd_up (snd cs)"
    and get: "cache_get std jc c redis_store d t f p (invalidate_scope std c redis_store t f cs) = (Inr l, cs')"
  obtain s' where "cs_delete_prefix redis_store (scope_prefix std c t f) (snd cs) = (Inr (), s')"
    using up by (simp add: redis_store_def redis_delete_prefix_def redis_call_def)
  from redis_provider.cleared_scope_misses [OF this get] show "lk_value l = None" .
qed

text \<open>
  An invalidation during an outage is swallowed: the store keeps its lines, and as soon as it answers
  again a lookup in the invalidated scope hits the stale line.
\<close>

lemma outage_invalidation_lost:
  assumes "\<not> rd_up (snd cs)" and "build_key std jc c d t f p = Inr k" and "redis_live (snd cs) k = Some v"
    and "cs' = invalidate_scope std c redis_store t f cs"
  shows "\<exists>l cs''. cache_get std jc c redis_store d t f p (fst cs', redis_elapse (0, True) (snd cs')) = (Inr l, cs'') \<and>
    lk_value l = Some v"
proof -
  have "snd cs' = snd cs"
    using assms(1,4) by (cases cs) (simp add: invalidate_scope_def delete_matching_def redis_store_def
      redis_delete_prefix_def redis_call_def)
  moreover have "redis_live (redis_elapse (0, True) (snd cs)) k = Some v"
    using assms(3) by (simp add: redis_live_def redis_elapse_def split: option.splits prod.splits if_splits)
  moreover have "rd_up (redis_elapse (0, True) (snd cs))" by (simp add: redis_elapse_def)
  ultimately show ?thesis
    using assms(2) by (simp add: cache_get_def redis_store_def redis_get_def redis_call_def)
qed

definition sample_std :: stdlib where
  "sample_std = \<lparr>std_isoformat = (\<lambda>_. []), std_fromisoformat = (\<lambda>_. None),
     std_sha256_hex = (\<lambda>_. replicate 64 97), std_int = (\<lambda>_. None), std_repr = (\<lambda>_. []),
     std_pack = (\<lambda>_. []), std_unpack = (\<lambda>_. None), std_elapsed_ms = (\<lambda>n. n)\<rparr>"

definition sample_codec :: json_codec where
  "sample_codec = \<lparr>jc_dumps = (\<lambda>_. []), jc_loads = (\<lambda>_. None), jc_repr = (\<lambda>_. [])\<rparr>"

definition sample_cache :: auth_cache where
  "sample_cache = \<lparr>ac_contract_version = u ''1'', ac_metric_version = u ''1'', ac_data_version = u ''1'',
     ac_ttl_seconds = DEFAULT_TTL_BY_DOMAIN\<rparr>"

lemma sample_domain [simp]: "u ''v2_result'' \<in> set CACHE_DOMAINS" "u ''identity_org'' \<in> set CACHE_DOMAINS"
  by (simp_all add: CACHE_DOMAINS_def)

definition sample_ops :: "(nat \<times> bool) cache_op list" where
  "sample_ops = [CPut (u ''v2_result'') (u ''t'') (u ''f'') [] [7] (Some 60)]"

lemma cache_lines_isolated_witness:
  "\<exists>l cs'. cache_get sample_std sample_codec sample_cache redis_store (u ''v2_result'') (u ''t'') (u ''f'') []
      (fold (apply_cache_op sample_std sample_codec sample_cache redis_store redis_elapse)
        sample_ops (no_stats, empty_redis)) = (Inr l, cs') \<and>
    lk_value l = Some [7] \<and> (\<exists>t' p' ttl. CPut (u ''v2_result'') t' (u ''f'') p' [7] ttl \<in> set sample_ops)"
proof -
  let ?cs = "fold (apply_cache_op sample_std sample_codec sample_cache redis_store redis_elapse)
    sample_ops (no_stats, empty_redis)"
  have "hex_digests sample_std"
    by (simp add: hex_digests_def sample_std_def)
  moreover obtain l cs' where get: "cache_get sample_std sample_codec sample_cache redis_store
      (u ''v2_result'') (u ''t'') (u ''f'') [] ?cs = (Inr l, cs')" "lk_value l = Some [7]"
    by (simp add: sample_ops_def cache_put_def cache_get_def build_key_def redis_store_def redis_put_def
        redis_get_def redis_call_def empty_redis_def redis_live_def us_second_def)
  ultimately have "\<exists>t' p' ttl. CPut (u ''v2_result'') t' (u ''f'') p' [7] ttl \<in> set sample_ops"
    using cache_lines_isolated [of sample_std "u ''f''" ?cs sample_codec sample_cache sample_ops "u ''v2_result''"
        "u ''t''" "[]"] by simp blast
  then show ?thesis using get by blast
qed

section \<open>The shared roster lines\<close>

definition plain_entry :: "dir_entry \<Rightarrow> bool" where
  "plain_entry r \<longleftrightarrow> (\<exists>d. r = dept_entry d) \<or> (\<exists>e. r = employee_entry e)"

lemma decode_entry_json [simp]: "decode_entry (entry_json r) = Some r"
  by (cases r) (simp_all add: decode_entry_def)

lemma decode_entries_json [simp]: "decode_entries (map entry_json rs) = Some rs"
  by (induction rs) simp_all

lemma plain_entry_wf: "plain_entry r \<Longrightarrow> json_wf (entry_json r)"
  by (auto simp: plain_entry_def dept_entry_def employee_entry_def split: option.splits)

lemma decode_encode_records:
  assumes "codec_roundtrip jc" and "\<forall>r \<in> set rs. plain_entry r"
  shows "decode_records jc (encode_records jc rs) = Some rs"
proof -
  have "list_all id (map json_wf (map entry_json rs))"
    using assms(2) plain_entry_wf by (induction rs) auto
  then have "json_wf (JList (map entry_json rs))" by simp
  then show ?thesis
    using assms(1) by (simp only: decode_records_def encode_records_def codec_roundtrip_def) simp
qed

text \<open>
  \<^bold>\<open>C38\<close>.  A roster that was fetched is served from its shared line: while the store is
  reachable and the line has not expired, the next caller of the tenant gets exactly the records
  that were fetched, whatever his own scope, and the source is not asked again.
\<close>

theorem roster_cached_roundtrip:
  assumes "codec_roundtrip jc" and "\<forall>r \<in> set rs. plain_entry r" and "rd_up (snd cs)"
    and "ttl_seconds c (u ''identity_org'') = Inr ttl" and "int dt < ttl * us_second"
    and "cached_roster_with_status std jc c redis_store tenant op fetch cs w = (Inr (rs, False), cs', w')"
  shows "\<exists>cs''. cached_roster_with_status std jc c redis_store tenant op fetch'
    (fst cs', redis_elapse (dt, True) (snd cs')) w2 = (Inr (rs, True), cs'', w2)"
proof -
  obtain stats s where cs: "cs = (stats, s)" by fastforce
  let ?params = "[(u ''op'', JStr op)]"
  obtain key where key: "build_key std jc c (u ''identity_org'') tenant SHARED_SCOPE_FINGERPRINT ?params = Inr key"
    by (simp add: build_key_def)
  have "0 < ttl"
    using assms(5) us_pos(1) by (smt (verit) mult_nonpos_nonneg of_nat_0_le_iff)
  then have "snd cs' = s\<lparr>rd_data := (rd_data s)(key \<mapsto> (encode_records jc rs, rd_now s + ttl * us_second))\<rparr>"
    using assms(3,4,6) key unfolding cs
    by (auto simp: cached_roster_with_status_def cache_get_def cache_put_def Let_def redis_store_def
        redis_get_def redis_put_def redis_call_def split: option.splits prod.splits sum.splits if_splits)
  then have "redis_live (redis_elapse (dt, True) (snd cs')) key = Some (encode_records jc rs)"
    using assms(5) by (simp add: redis_elapse_def redis_live_def)
  then show ?thesis
    using key decode_encode_records [OF assms(1,2)]
    by (simp add: cached_roster_with_status_def cache_get_def Let_def redis_store_def redis_get_def
        redis_call_def redis_elapse_def)
qed

definition sample_roster :: "dir_entry list" where
  "sample_roster = [employee_entry \<lparr>emp_employee_id = u ''e'', emp_name = u ''n'', emp_name_pk = u ''p'',
     emp_dept = None\<rparr>]"

lemma roster_cached_roundtrip_witness:
  "\<exists>cs' cs''. cached_roster_with_status sample_std index_codec sample_cache redis_store (u ''t'') (u ''employees'')
       (\<lambda>w. (Inr sample_roster, Suc w)) (no_stats, empty_redis) 0 =
       ((Inr (sample_roster, False) :: unit + dir_entry list \<times> bool), cs', Suc 0) \<and>
     cached_roster_with_status sample_std index_codec sample_cache redis_store (u ''t'') (u ''employees'')
       (\<lambda>w. (Inl (), Suc w)) (fst cs', redis_elapse (5, True) (snd cs')) 0 =
       (Inr (sample_roster, True), cs'', 0)"
proof -
  obtain cs' where first: "cached_roster_with_status sample_std index_codec sample_cache redis_store (u ''t'')
      (u ''employees'') (\<lambda>w. (Inr sample_roster, Suc w)) (no_stats, empty_redis) 0 =
      ((Inr (sample_roster, False) :: unit + dir_entry list \<times> bool), cs', Suc 0)"
    by (simp add: cached_roster_with_status_def cache_get_def cache_put_def build_key_def Let_def redis_store_def
        redis_get_def redis_put_def redis_call_def empty_redis_def redis_live_def ttl_seconds_def
        sample_cache_def DEFAULT_TTL_BY_DOMAIN_def)
  have "\<forall>r \<in> set sample_roster. plain_entry r"
    by (auto simp: sample_roster_def plain_entry_def)
  moreover have "rd_up (snd (no_stats, empty_redis))" by (simp add: empty_redis_def)
  moreover have "ttl_seconds sample_cache (u ''identity_org'') = Inr 86400"
    by (simp add: ttl_seconds_def sample_cache_def DEFAULT_TTL_BY_DOMAIN_def)
  ultimately have "\<exists>cs''. cached_roster_with_status sample_std index_codec sample_cache redis_store (u ''t'')
      (u ''employees'') (\<lambda>w. (Inl (), Suc w)) (fst cs', redis_elapse (5, True) (snd cs')) 0 =
      (Inr (sample_roster, True), cs'', 0)"
    by (intro roster_cached_roundtrip [OF index_codec_roundtrip _ _ _ _ first, of 86400 5])
      (simp_all add: us_second_def)
  then show ?thesis using first by blast
qed

end
