(* ===== verification/Detail.thy ===== *)
theory Detail
  imports Json Strings "HOL-Library.Product_Lexorder" "HOL-Library.Multiset" Complex_Main
begin

text \<open>
  Detail rows of the two V2 families and the views derived from them: the derivation of the
  progress grains (\<^verbatim>\<open>data_api/progress_detail.py\<close>) and the row functions of
  \<^verbatim>\<open>data_api/result_cache.py\<close> (scope, time and business filters, footers, payroll groups,
  shadow comparison).

  A row is a dictionary of JSON values.  Python's \<open>Decimal\<close> is a parameter (\<open>decimals\<close>);
  its operations answer \<open>None\<close> where Python signals \<open>InvalidOperation\<close> (the overflow of
  exponents beyond a million is not modelled).  ISO dates and timestamps are parsed and printed by
  the parameter \<open>calendar\<close>; a date is the number of its day.  Trace output is left out.
\<close>

record 'd decimals =
  dc_parse :: "pystr \<Rightarrow> 'd option"
  dc_str :: "'d \<Rightarrow> pystr"
  dc_zero :: 'd
  dc_add :: "'d \<Rightarrow> 'd \<Rightarrow> 'd option"
  dc_div :: "'d \<Rightarrow> 'd \<Rightarrow> 'd option"
  dc_times_100 :: "'d \<Rightarrow> 'd option"
  dc_quantize_cents :: "'d \<Rightarrow> 'd option"
  dc_eq :: "'d \<Rightarrow> 'd \<Rightarrow> bool"
  dc_is_zero :: "'d \<Rightarrow> bool"
  dc_is_finite :: "'d \<Rightarrow> bool"
  dc_is_negative :: "'d \<Rightarrow> bool"
  dc_is_integral :: "'d \<Rightarrow> bool"
  dc_float :: "'d \<Rightarrow> real"

record calendar =
  cal_parse :: "pystr \<Rightarrow> int option"
  cal_iso :: "int \<Rightarrow> pystr"
  cal_datetime_date :: "pystr \<Rightarrow> int option"

type_synonym row = jdict
type_synonym footer = "(pystr, pystr) dict"

datatype view_error = ProgressDerivationError pystr | InvalidView pystr | InvalidOperation

definition opt_result :: "'e \<Rightarrow> 'a option \<Rightarrow> 'e + 'a" where
  "opt_result e v = (case v of Some x \<Rightarrow> Inr x | None \<Rightarrow> Inl e)"

lemma opt_result_Inr [result_simps]: "opt_result e v = Inr x \<longleftrightarrow> v = Some x"
  and opt_result_Inl [result_simps]: "opt_result e v = Inl e' \<longleftrightarrow> v = None \<and> e' = e"
  by (auto simp: opt_result_def split: option.splits)

section \<open>progress_detail.py\<close>

definition PROGRESS_ADDITIVE_COLUMNS :: "pystr list" where
  "PROGRESS_ADDITIVE_COLUMNS = map u [''bs'', ''fhsl'', ''sssl'', ''zpsl'', ''wgs'', ''wts'']"

definition PROGRESS_REVIEWED_GRAINS :: "pystr set set" where
  "PROGRESS_REVIEWED_GRAINS = {
     set (map u [''dh'', ''jhdh'', ''chuanghao'', ''huohao'', ''bbreed'', ''dept'', ''deptname'']),
     set (map u [''dh'', ''baohao'', ''userid'', ''color'', ''chima'']),
     set (map u [''userid'', ''uid'', ''uname'', ''dept'', ''deptname'', ''worktype'', ''wtname'', ''wsort''])}"

definition DIMENSION_NAMES :: "(pystr, pystr) dict" where
  "DIMENSION_NAMES = [(u ''huohao'', u ''bbreed''), (u ''worktype'', u ''wtname''), (u ''uid'', u ''uname''),
     (u ''dept'', u ''deptname'')]"

text \<open>84 is \<^verbatim>\<open>T\<close>, 32 the space.\<close>

definition normalize_progress_date :: "calendar \<Rightarrow> json option \<Rightarrow> view_error + pystr" where
  "normalize_progress_date cal v =
     (let bad = Inl (ProgressDerivationError (u ''invalid_progress_date'')) in
      case v of
        Some (JStr s) \<Rightarrow>
          if length s = 10 then (case cal_parse cal s of
              Some d \<Rightarrow> if cal_iso cal d = s then Inr (cal_iso cal d) else bad | None \<Rightarrow> bad)
          else if length s > 10 \<and> s ! 10 \<in> {84, 32} then (case cal_datetime_date cal s of
              Some d \<Rightarrow> Inr (cal_iso cal d) | None \<Rightarrow> bad)
          else bad
      | _ \<Rightarrow> bad)"

definition scalar :: "json_codec \<Rightarrow> json \<Rightarrow> view_error + pystr" where
  "scalar jc v = (case v of JNull \<Rightarrow> Inr [] | JBool b \<Rightarrow> Inr (if b then u ''1'' else u ''0'')
     | JStr s \<Rightarrow> Inr s | JInt n \<Rightarrow> Inr (json_str jc v) | JFloat r \<Rightarrow> Inr (json_str jc v)
     | _ \<Rightarrow> Inl (ProgressDerivationError (u ''invalid_scalar'')))"

definition derive_row :: "json_codec \<Rightarrow> calendar \<Rightarrow> row \<Rightarrow> view_error + row" where
  "derive_row jc cal r =
     rbind (rmap (\<lambda>(k, v). rbind (scalar jc v) (\<lambda>s. Inr (k, JStr s))) r) (\<lambda>normalized.
     rbind (normalize_progress_date cal (map_of r (u ''rq''))) (\<lambda>day.
       Inr (AList.delete (u ''dh_date'') (AList.update (u ''rq'') (JStr day) normalized))))"

definition derive_progress_rows :: "json_codec \<Rightarrow> calendar \<Rightarrow> row list \<Rightarrow> view_error + row list" where
  "derive_progress_rows jc cal rows = rmap (derive_row jc cal) rows"

definition row_text :: "row \<Rightarrow> pystr \<Rightarrow> pystr" where
  "row_text r column = (case map_of r column of Some (JStr s) \<Rightarrow> s | _ \<Rightarrow> [])"

definition contribution :: "'d decimals \<Rightarrow> row \<Rightarrow> pystr \<Rightarrow> view_error + 'd" where
  "contribution dc r column =
     (if row_text r column = [] then Inl (ProgressDerivationError (u ''missing_contribution''))
      else case dc_parse dc (row_text r column) of
        None \<Rightarrow> Inl (ProgressDerivationError (u ''invalid_contribution''))
      | Some amount \<Rightarrow> if \<not> dc_is_finite dc amount \<or> dc_is_negative dc amount
          then Inl (ProgressDerivationError (u ''invalid_contribution'')) else Inr amount)"

type_synonym 'd progress_group = "row \<times> (pystr, 'd) dict"

definition total_of :: "'d decimals \<Rightarrow> (pystr, 'd) dict \<Rightarrow> pystr \<Rightarrow> 'd" where
  "total_of dc totals column = (case map_of totals column of Some x \<Rightarrow> x | None \<Rightarrow> dc_zero dc)"

definition add_contributions ::
  "'d decimals \<Rightarrow> row \<Rightarrow> (pystr, 'd) dict \<Rightarrow> view_error + (pystr, 'd) dict" where
  "add_contributions dc r totals = rfold (\<lambda>column t. rbind (contribution dc r column) (\<lambda>x.
     rbind (opt_result InvalidOperation (dc_add dc (total_of dc t column) x)) (\<lambda>y.
       Inr (AList.update column y t)))) PROGRESS_ADDITIVE_COLUMNS totals"

definition name_fields :: "pystr list \<Rightarrow> pystr list" where
  "name_fields columns =
     map snd (filter (\<lambda>(code, name). code \<in> set columns \<and> name \<in> set columns) DIMENSION_NAMES)"

definition key_fields :: "pystr list \<Rightarrow> pystr list" where
  "key_fields columns = sort (filter (\<lambda>f. f \<notin> set (name_fields columns)) columns)"

text \<open>The group a row joins: a new one, or the existing one when names and dates agree.\<close>

definition joined_group ::
  "'d decimals \<Rightarrow> pystr list \<Rightarrow> row \<Rightarrow> 'd progress_group option \<Rightarrow> view_error + 'd progress_group" where
  "joined_group dc columns r current = (case current of
     None \<Rightarrow>
       (let dimensions = map (\<lambda>c. (c, JStr (row_text r c))) columns in
        Inr (if u ''dh'' \<in> set columns
            then AList.update (u ''rq'') (JStr (row_text r (u ''rq''))) dimensions else dimensions,
          map (\<lambda>c. (c, dc_zero dc)) PROGRESS_ADDITIVE_COLUMNS))
   | Some (dimensions, totals) \<Rightarrow>
       if \<exists>n \<in> set (name_fields columns). row_text r n \<noteq> row_text dimensions n
       then Inl (ProgressDerivationError (u ''inconsistent_dimension_name''))
       else if u ''dh'' \<in> set columns \<and> row_text r (u ''rq'') \<noteq> row_text dimensions (u ''rq'')
       then Inl (ProgressDerivationError (u ''inconsistent_progress_date''))
       else Inr (dimensions, totals))"

definition row_key :: "pystr list \<Rightarrow> row \<Rightarrow> pystr list" where
  "row_key columns r = map (row_text r) (key_fields columns)"

definition group_row ::
  "'d decimals \<Rightarrow> pystr list \<Rightarrow> row \<Rightarrow> (pystr list, 'd progress_group) dict \<Rightarrow>
   view_error + (pystr list, 'd progress_group) dict" where
  "group_row dc columns r groups =
     (if \<exists>c \<in> set columns. map_of r c = None
      then Inl (ProgressDerivationError (u ''missing_dimension''))
      else rbind (joined_group dc columns r (map_of groups (row_key columns r))) (\<lambda>(dimensions, totals).
        rbind (add_contributions dc r totals) (\<lambda>totals'.
          Inr (AList.update (row_key columns r) (dimensions, totals') groups))))"

definition completion_ratio :: "'d decimals \<Rightarrow> 'd \<Rightarrow> 'd \<Rightarrow> view_error + pystr" where
  "completion_ratio dc received issued =
     rbind (if dc_is_zero dc issued then Inr (dc_zero dc)
       else rbind (opt_result InvalidOperation (dc_div dc received issued)) (\<lambda>q.
         opt_result InvalidOperation (dc_times_100 dc q))) (\<lambda>ratio.
     rbind (opt_result InvalidOperation (dc_quantize_cents dc ratio)) (\<lambda>q. Inr (dc_str dc q)))"

definition group_output :: "'d decimals \<Rightarrow> 'd progress_group \<Rightarrow> view_error + row" where
  "group_output dc g = (case g of (dimensions, totals) \<Rightarrow>
     rbind (completion_ratio dc (total_of dc totals (u ''sssl'')) (total_of dc totals (u ''fhsl''))) (\<lambda>wcl.
       Inr (AList.update (u ''wcl'') (JStr wcl)
         (fold (\<lambda>c. AList.update c (JStr (dc_str dc (total_of dc totals c)))) PROGRESS_ADDITIVE_COLUMNS
           dimensions))))"

definition aggregate_progress_rows ::
  "json_codec \<Rightarrow> calendar \<Rightarrow> 'd decimals \<Rightarrow> row list \<Rightarrow> pystr list \<Rightarrow> view_error + row list" where
  "aggregate_progress_rows jc cal dc rows groupby =
     (let columns = from_keys groupby in
      if columns = [] then derive_progress_rows jc cal rows
      else if set columns \<notin> PROGRESS_REVIEWED_GRAINS
      then Inl (ProgressDerivationError (u ''unsupported_grain''))
      else rbind (derive_progress_rows jc cal rows) (\<lambda>derived.
        rbind (rfold (group_row dc columns) derived []) (\<lambda>groups.
          rmap (group_output dc \<circ> snd) (sort_key fst groups))))"

section \<open>result_cache.py: rows\<close>

definition PAYROLL_OPERATION :: pystr where "PAYROLL_OPERATION = u ''GongziClQuery''"
definition PROGRESS_OPERATION :: pystr where "PROGRESS_OPERATION = u ''ScjdQuery''"
definition FORBIDDEN_ROW_FIELDS :: "pystr set" where
  "FORBIDDEN_ROW_FIELDS = {u ''app_key'', u ''accesstoken'', u ''sign'', u ''movepassword''}"
definition FORBIDDEN_REQUEST_PARAMS :: "pystr set" where
  "FORBIDDEN_REQUEST_PARAMS = FORBIDDEN_ROW_FIELDS \<union> {u ''timestamp'', u ''uid'', u ''dept'', u ''tenant_id'',
     u ''employee_ids'', u ''dept_ids''}"

definition TOTAL :: pystr where "TOTAL = u ''_total''"

definition total_key :: "pystr \<Rightarrow> bool" where
  "total_key k \<longleftrightarrow> suffix TOTAL k"

definition total_column :: "pystr \<Rightarrow> pystr" where
  "total_column k = take (length k - 6) k"

definition has_credential_fields :: "(pystr \<Rightarrow> pystr) \<Rightarrow> pystr list \<Rightarrow> bool" where
  "has_credential_fields lower keys \<longleftrightarrow> (\<exists>k \<in> set keys.
     (if total_key (lower k) then total_column (lower k) else lower k) \<in> FORBIDDEN_ROW_FIELDS)"

text \<open>The departments a view is filtered by: owners and employees only by what they asked for.\<close>

definition view_dept_ids :: "narrowed_filters \<Rightarrow> role option \<Rightarrow> dept_id set option" where
  "view_dept_ids filters r = (if r = Some OWNER \<or> r = Some EMPLOYEE then nf_requested_dept_ids filters
     else nf_dept_ids filters)"

definition keep_row :: "json_codec \<Rightarrow> narrowed_filters \<Rightarrow> role option \<Rightarrow> row \<Rightarrow> bool" where
  "keep_row jc filters rl r \<longleftrightarrow>
     (case view_dept_ids filters rl of None \<Rightarrow> True
      | Some ds \<Rightarrow> let dept = str_or_empty jc (map_of r (u ''dept'')) in dept \<noteq> [] \<and> dept \<in> ds) \<and>
     (case nf_employee_ids filters of None \<Rightarrow> True
      | Some es \<Rightarrow> let uid = str_or_empty jc (map_of r (u ''uid'')) in uid \<noteq> [] \<and> uid \<in> es)"

definition scope_filtered_rows ::
  "json_codec \<Rightarrow> row list \<Rightarrow> narrowed_filters \<Rightarrow> role option \<Rightarrow> row list" where
  "scope_filtered_rows jc rows filters r =
     (if nf_employee_ids filters = None \<and> view_dept_ids filters r = None then rows
      else filter (keep_row jc filters r) rows)"

definition time_anchor_column :: "json_codec \<Rightarrow> pystr \<Rightarrow> jdict \<Rightarrow> pystr" where
  "time_anchor_column jc op params =
     (if op = PROGRESS_OPERATION then u ''rq''
      else let flag = (case map_of params (u ''Flag'') of
                 Some v \<Rightarrow> if json_truthy v then json_str jc v else u ''0'' | None \<Rightarrow> u ''0'') in
        if py_strip flag = u ''1'' then u ''check_time'' else u ''inputdate'')"

definition anchor_of :: "json_codec \<Rightarrow> pystr \<Rightarrow> row \<Rightarrow> pystr" where
  "anchor_of jc column r = take 10 (str_or_empty jc (map_of r column))"

definition time_sliced_rows :: "json_codec \<Rightarrow> row list \<Rightarrow> pystr \<Rightarrow> pystr \<times> pystr \<Rightarrow> row list" where
  "time_sliced_rows jc rows column window = filter (\<lambda>r. let anchor = anchor_of jc column r in
     anchor \<noteq> [] \<and> fst window \<le> anchor \<and> anchor \<le> snd window) rows"

definition validate_time_anchors :: "json_codec \<Rightarrow> calendar \<Rightarrow> row list \<Rightarrow> pystr \<Rightarrow> jdict \<Rightarrow> view_error + unit" where
  "validate_time_anchors jc cal rows op params =
     (let column = time_anchor_column jc op params;
          bad = Inl (InvalidView (u ''detail time anchor is invalid'')) in
      for_each (\<lambda>r. case cal_parse cal (anchor_of jc column r) of
          None \<Rightarrow> bad
        | Some d \<Rightarrow> if cal_iso cal d \<noteq> anchor_of jc column r then bad else Inr ()) rows)"

text \<open>\<open>groupbyFields or ()\<close>, with the membership test \<open>"baohao" in groupby\<close> (a substring test on
  a string).\<close>

definition groupby_value :: "jdict \<Rightarrow> json" where
  "groupby_value params = (case map_of params (u ''groupbyFields'') of
     Some v \<Rightarrow> if json_truthy v then v else JList [] | None \<Rightarrow> JList [])"

definition groupby_mentions :: "pystr \<Rightarrow> jdict \<Rightarrow> bool" where
  "groupby_mentions field params = (case groupby_value params of
     JList xs \<Rightarrow> JStr field \<in> set xs | JStr s \<Rightarrow> py_in field s | JDict d \<Rightarrow> map_of d field \<noteq> None | _ \<Rightarrow> False)"

definition matches_business :: "json_codec \<Rightarrow> pystr \<Rightarrow> narrowed_filters \<Rightarrow> jdict \<Rightarrow> row \<Rightarrow> bool" where
  "matches_business jc op filters params r =
     (let txt = (\<lambda>column. str_or_empty jc (map_of r column));
          order_column = (if op = PROGRESS_OPERATION \<and> groupby_mentions (u ''baohao'') params
            then u ''dh'' else u ''jhdh'');
          style_fields = (if op = PAYROLL_OPERATION then [u ''huohao'', u ''bbreed''] else [u ''bbreed'']);
          passes = (\<lambda>permitted column. case permitted of None \<Rightarrow> True | Some vs \<Rightarrow> txt column \<in> vs) in
      (case nf_style_codes filters of None \<Rightarrow> True
       | Some codes \<Rightarrow> \<exists>c \<in> set style_fields. txt c \<in> codes) \<and>
      passes (nf_order_codes filters) order_column \<and> passes (nf_plan_codes filters) (u ''jhdh'') \<and>
      passes (nf_material_ids filters) (u ''userid'') \<and> passes (nf_bed_codes filters) (u ''chuanghao''))"

definition business_filtered_rows ::
  "json_codec \<Rightarrow> row list \<Rightarrow> pystr \<Rightarrow> narrowed_filters \<Rightarrow> jdict \<Rightarrow> view_error + row list" where
  "business_filtered_rows jc rows op filters params =
     (if nf_bed_codes filters \<noteq> None \<and> (\<exists>r \<in> set rows. map_of r (u ''chuanghao'') = None)
      then Inl (InvalidView (u ''detail does not contain the requested bed dimension''))
      else Inr (filter (matches_business jc op filters params) rows))"

definition local_view_rows ::
  "json_codec \<Rightarrow> row list \<Rightarrow> pystr \<Rightarrow> narrowed_filters \<Rightarrow> jdict \<Rightarrow> pystr \<times> pystr \<Rightarrow> role option \<Rightarrow>
   view_error + row list" where
  "local_view_rows jc rows op filters params window r =
     business_filtered_rows jc
       (time_sliced_rows jc (scope_filtered_rows jc rows filters r) (time_anchor_column jc op params) window)
       op filters params"

section \<open>result_cache.py: footers\<close>

definition NON_ADDITIVE_FOOTER_COLUMNS :: "pystr set" where
  "NON_ADDITIVE_FOOTER_COLUMNS = {u ''wcl''}"

definition row_keys :: "row \<Rightarrow> pystr set" where
  "row_keys r = fst ` set r"

text \<open>The columns seen until every wanted one has been.\<close>

fun present_until :: "pystr set \<Rightarrow> pystr set \<Rightarrow> row list \<Rightarrow> pystr set" where
  "present_until wanted present [] = present"
| "present_until wanted present (r # rs) =
     (let present' = present \<union> row_keys r in
      if wanted \<subseteq> present' then present' else present_until wanted present' rs)"

text \<open>The sum of a column; absent, null and empty values count nothing.  \<open>None\<close> when a value
  does not parse.\<close>

fun column_sum :: "json_codec \<Rightarrow> 'd decimals \<Rightarrow> pystr \<Rightarrow> row list \<Rightarrow> 'd \<Rightarrow> 'd option" where
  "column_sum jc dc column [] acc = Some acc"
| "column_sum jc dc column (r # rs) acc = (case map_of r column of
     None \<Rightarrow> column_sum jc dc column rs acc
   | Some v \<Rightarrow> if v = JNull \<or> v = JStr [] then column_sum jc dc column rs acc
       else (case dc_parse dc (json_str jc v) of None \<Rightarrow> None
         | Some x \<Rightarrow> (case dc_add dc acc x of None \<Rightarrow> None | Some y \<Rightarrow> column_sum jc dc column rs y)))"

text \<open>The sum of \<open>Decimal(str(row.get(column) or "0"))\<close>.\<close>

fun sum_or_zero :: "json_codec \<Rightarrow> 'd decimals \<Rightarrow> pystr \<Rightarrow> row list \<Rightarrow> 'd \<Rightarrow> 'd option" where
  "sum_or_zero jc dc column [] acc = Some acc"
| "sum_or_zero jc dc column (r # rs) acc =
     (let txt = (case map_of r column of Some v \<Rightarrow> if json_truthy v then json_str jc v else u ''0''
            | None \<Rightarrow> u ''0'') in
      case dc_parse dc txt of None \<Rightarrow> None
      | Some x \<Rightarrow> (case dc_add dc acc x of None \<Rightarrow> None | Some y \<Rightarrow> sum_or_zero jc dc column rs y))"

definition option_bind :: "'a option \<Rightarrow> ('a \<Rightarrow> 'b option) \<Rightarrow> 'b option" where
  "option_bind m f = (case m of None \<Rightarrow> None | Some x \<Rightarrow> f x)"

definition footer_ratio :: "json_codec \<Rightarrow> 'd decimals \<Rightarrow> row list \<Rightarrow> pystr option" where
  "footer_ratio jc dc rows =
     option_bind (sum_or_zero jc dc (u ''sssl'') rows (dc_zero dc)) (\<lambda>numerator.
     option_bind (sum_or_zero jc dc (u ''fhsl'') rows (dc_zero dc)) (\<lambda>denominator.
     option_bind (if dc_is_zero dc denominator then Some (dc_zero dc)
        else option_bind (dc_div dc numerator denominator) (dc_times_100 dc)) (\<lambda>ratio.
     map_option (dc_str dc) (dc_quantize_cents dc ratio))))"

text \<open>What \<open>recomputed_footer\<close> stores for one key.\<close>

definition recomputed_total :: "json_codec \<Rightarrow> 'd decimals \<Rightarrow> row list \<Rightarrow> pystr \<Rightarrow> pystr option" where
  "recomputed_total jc dc rows key =
     (let present = \<Union> (row_keys ` set rows); column = total_column key in
      if \<not> total_key key then None
      else if rows \<noteq> [] \<and> column \<notin> present \<and> column \<notin> NON_ADDITIVE_FOOTER_COLUMNS then None
      else if column \<in> NON_ADDITIVE_FOOTER_COLUMNS
      then (if {u ''sssl'', u ''fhsl''} \<subseteq> present then footer_ratio jc dc rows else None)
      else map_option (dc_str dc) (column_sum jc dc column rows (dc_zero dc)))"

definition recomputed_footer ::
  "json_codec \<Rightarrow> 'd decimals \<Rightarrow> row list \<Rightarrow> footer option \<Rightarrow> footer option" where
  "recomputed_footer jc dc rows footer = (case footer of
     None \<Rightarrow> None
   | Some f \<Rightarrow>
       let out = fold (\<lambda>key out. case recomputed_total jc dc rows key of
             Some v \<Rightarrow> AList.update key v out | None \<Rightarrow> out) (map fst f) [] in
       if out = [] then None else Some out)"

definition footer_key_reconciles ::
  "json_codec \<Rightarrow> 'd decimals \<Rightarrow> real \<Rightarrow> row list \<Rightarrow> pystr set \<Rightarrow> pystr \<times> pystr \<Rightarrow> bool" where
  "footer_key_reconciles jc dc tolerance rows present entry = (case entry of (key, expected) \<Rightarrow>
     let column = total_column key in
     if \<not> total_key key then True
     else if rows = [] then (case dc_parse dc expected of Some x \<Rightarrow> dc_is_zero dc x | None \<Rightarrow> False)
     else if column \<in> NON_ADDITIVE_FOOTER_COLUMNS then
       (if \<not> {u ''sssl'', u ''fhsl''} \<subseteq> present then True
        else case recomputed_footer jc dc rows (Some [(key, expected)]) of
          None \<Rightarrow> False
        | Some ratio \<Rightarrow> (case (option_bind (map_of ratio key) (dc_parse dc),
              option_bind (dc_parse dc expected) (dc_quantize_cents dc)) of
            (Some a, Some b) \<Rightarrow> dc_eq dc a b | _ \<Rightarrow> False))
     else if column \<notin> present then True
     else (case (column_sum jc dc column rows (dc_zero dc), dc_parse dc expected) of
         (Some total', Some x) \<Rightarrow>
           dc_is_finite dc x \<and> dc_is_finite dc total' \<and>
           (if column \<noteq> u ''je'' \<and> dc_is_integral dc x then dc_eq dc total' x
            else \<bar>dc_float dc total' - dc_float dc x\<bar> \<le> tolerance * max \<bar>dc_float dc x\<bar> 1)
       | _ \<Rightarrow> False))"

definition footer_reconciles ::
  "json_codec \<Rightarrow> 'd decimals \<Rightarrow> real \<Rightarrow> row list \<Rightarrow> footer option \<Rightarrow> bool" where
  "footer_reconciles jc dc tolerance rows footer = (case footer of
     None \<Rightarrow> True
   | Some f \<Rightarrow>
       let wanted = total_column ` {k \<in> fst ` set f. total_key k};
           present = present_until wanted {} rows in
       list_all (footer_key_reconciles jc dc tolerance rows present) f)"

section \<open>result_cache.py: payroll groups and shadow comparison\<close>

definition PAYROLL_MEASURES :: "pystr list" where
  "PAYROLL_MEASURES = map u [''je'', ''sl'', ''sssl'', ''zpsl'', ''bs'', ''wgs'', ''wts'', ''fhsl'']"

datatype 'd cell = CText pystr | CDecimal 'd

definition cell_str :: "'d decimals \<Rightarrow> 'd cell \<Rightarrow> pystr" where
  "cell_str dc v = (case v of CText s \<Rightarrow> s | CDecimal d \<Rightarrow> dc_str dc d)"

text \<open>\<open>Decimal(str(out.get(measure) or "0"))\<close>: a dimension may bear a measure's name.\<close>

definition running_total :: "'d decimals \<Rightarrow> (pystr, 'd cell) dict \<Rightarrow> pystr \<Rightarrow> 'd option" where
  "running_total dc out m = (case map_of out m of
     Some (CDecimal d) \<Rightarrow> dc_parse dc (if dc_is_zero dc d then u ''0'' else dc_str dc d)
   | Some (CText s) \<Rightarrow> dc_parse dc (if s = [] then u ''0'' else s)
   | None \<Rightarrow> dc_parse dc (u ''0''))"

definition add_measure ::
  "json_codec \<Rightarrow> 'd decimals \<Rightarrow> row \<Rightarrow> pystr \<Rightarrow> (pystr, 'd cell) dict \<Rightarrow> view_error + (pystr, 'd cell) dict" where
  "add_measure jc dc r m out = (case map_of r m of
     None \<Rightarrow> Inr out
   | Some v \<Rightarrow>
       rbind (opt_result InvalidOperation (running_total dc out m)) (\<lambda>a.
       rbind (opt_result InvalidOperation
         (dc_parse dc (if json_truthy v then json_str jc v else u ''0''))) (\<lambda>b.
       rbind (opt_result InvalidOperation (dc_add dc a b)) (\<lambda>c.
         Inr (AList.update m (CDecimal c) out)))))"

definition payroll_group_row ::
  "json_codec \<Rightarrow> 'd decimals \<Rightarrow> pystr list \<Rightarrow> row \<Rightarrow> (pystr list, (pystr, 'd cell) dict) dict \<Rightarrow>
   view_error + (pystr list, (pystr, 'd cell) dict) dict" where
  "payroll_group_row jc dc columns r groups =
     (if \<exists>c \<in> set columns. map_of r c = None
      then Inl (InvalidView (u ''payroll detail does not contain the requested dimensions''))
      else let key = map (\<lambda>c. str_or_empty jc (map_of r c)) columns;
               out = (case map_of groups key of Some g \<Rightarrow> g | None \<Rightarrow> zip columns (map CText key)) in
        rbind (rfold (add_measure jc dc r) PAYROLL_MEASURES out) (\<lambda>out'.
          Inr (AList.update key out' groups)))"

definition aggregate_payroll_rows ::
  "json_codec \<Rightarrow> 'd decimals \<Rightarrow> row list \<Rightarrow> pystr list \<Rightarrow> view_error + row list" where
  "aggregate_payroll_rows jc dc rows fields' =
     rbind (rfold (payroll_group_row jc dc (from_keys fields')) rows []) (\<lambda>groups.
       Inr (map (\<lambda>(key, out). map (\<lambda>(k, v). (k, JStr (cell_str dc v))) out) (sort_key fst groups)))"

definition normalize_rows :: "json_codec \<Rightarrow> row list \<Rightarrow> pystr list" where
  "normalize_rows jc rows = map (\<lambda>r. jc_dumps jc (sort_keys (JDict r))) rows"

record shadow_verdict =
  sv_consistent :: bool
  sv_tie_order_only :: bool

definition same_footer :: "footer option \<Rightarrow> footer option \<Rightarrow> bool" where
  "same_footer a b \<longleftrightarrow> sort_key fst (case a of Some f \<Rightarrow> f | None \<Rightarrow> []) = sort_key fst (case b of Some f \<Rightarrow> f | None \<Rightarrow> [])"

definition shadow_compare ::
  "json_codec \<Rightarrow> row list \<Rightarrow> footer option \<Rightarrow> row list \<Rightarrow> footer option \<Rightarrow> shadow_verdict" where
  "shadow_compare jc cached_rows cached_footer realtime_rows realtime_footer =
     (let footer_ok = same_footer cached_footer realtime_footer;
          positional = (normalize_rows jc cached_rows = normalize_rows jc realtime_rows);
          as_multiset = (sort (normalize_rows jc cached_rows) = sort (normalize_rows jc realtime_rows)) in
      if positional \<and> footer_ok then \<lparr>sv_consistent = True, sv_tie_order_only = False\<rparr>
      else if as_multiset \<and> footer_ok then \<lparr>sv_consistent = False, sv_tie_order_only = True\<rparr>
      else \<lparr>sv_consistent = False, sv_tie_order_only = False\<rparr>)"

section \<open>result_cache.py: the projection\<close>

definition group_fields :: "jdict \<Rightarrow> view_error + pystr list" where
  "group_fields params = (case groupby_value params of
     JList xs \<Rightarrow> rmap (\<lambda>v. case v of JStr s \<Rightarrow> Inr s
       | _ \<Rightarrow> Inl (InvalidView (u ''groupbyFields must contain field names''))) xs
   | _ \<Rightarrow> Inl (InvalidView (u ''groupbyFields must be a field sequence'')))"

definition project_rows ::
  "json_codec \<Rightarrow> calendar \<Rightarrow> 'd decimals \<Rightarrow> row list \<Rightarrow> narrowed_filters \<Rightarrow> pystr \<Rightarrow> role option \<Rightarrow> jdict \<Rightarrow>
   pystr \<times> pystr \<Rightarrow> view_error + row list" where
  "project_rows jc cal dc source_rows filters op r params window =
     rbind (if op = PROGRESS_OPERATION then derive_progress_rows jc cal source_rows else Inr source_rows) (\<lambda>detail.
     rthen (validate_time_anchors jc cal detail op params)
    (rbind (local_view_rows jc detail op filters params window r) (\<lambda>rows.
     rbind (group_fields params) (\<lambda>groupby.
       if op = PROGRESS_OPERATION then aggregate_progress_rows jc cal dc rows groupby
       else if groupby \<noteq> [] then aggregate_payroll_rows jc dc rows groupby
       else Inr rows))))"

section \<open>Views are confined\<close>

text \<open>A detail row that the caller's view may contain: in scope, in the window, and matching the
  business filters.\<close>

definition visible :: "json_codec \<Rightarrow> narrowed_filters \<Rightarrow> pystr \<Rightarrow> role option \<Rightarrow> jdict \<Rightarrow> pystr \<times> pystr \<Rightarrow> row \<Rightarrow> bool" where
  "visible jc f op rl params window r \<longleftrightarrow>
     (nf_employee_ids f = None \<and> view_dept_ids f rl = None \<or> keep_row jc f rl r) \<and>
     (let anchor = anchor_of jc (time_anchor_column jc op params) r in
        anchor \<noteq> [] \<and> fst window \<le> anchor \<and> anchor \<le> snd window) \<and>
     matches_business jc op f params r"

lemma scope_filtered_rows_filter:
  "scope_filtered_rows jc rows f rl =
     filter (\<lambda>r. nf_employee_ids f = None \<and> view_dept_ids f rl = None \<or> keep_row jc f rl r) rows"
  by (auto simp: scope_filtered_rows_def)

lemma local_view_rows_Inr:
  assumes "local_view_rows jc rows op f params window rl = Inr out"
  shows "out = filter (visible jc f op rl params window) rows"
  using assms
  by (auto simp: local_view_rows_def business_filtered_rows_def time_sliced_rows_def scope_filtered_rows_filter
      visible_def Let_def split: if_splits intro: filter_cong)

lemma local_view_rows_visible:
  assumes "local_view_rows jc rows op f params window rl = Inr out"
  shows "local_view_rows jc (filter (visible jc f op rl params window) rows) op f params window rl = Inr out"
proof -
  let ?V = "visible jc f op rl params window"
  let ?sliced = "time_sliced_rows jc (scope_filtered_rows jc rows f rl) (time_anchor_column jc op params) window"
  have sub: "time_sliced_rows jc (scope_filtered_rows jc (filter ?V rows) f rl) (time_anchor_column jc op params) window
      = filter ?V rows"
    by (auto simp: time_sliced_rows_def scope_filtered_rows_filter visible_def Let_def filter_empty_conv
        intro!: filter_cong)
  have "filter ?V rows = out" using local_view_rows_Inr [OF assms] by simp
  moreover have "set (filter ?V rows) \<subseteq> set ?sliced"
    by (auto simp: time_sliced_rows_def scope_filtered_rows_filter visible_def Let_def)
  moreover have "filter (matches_business jc op f params) (filter ?V rows) = filter ?V rows"
    by (auto simp: visible_def intro!: filter_cong)
  ultimately show ?thesis
    using assms unfolding local_view_rows_def sub business_filtered_rows_def
    by (auto split: if_splits)
qed

lemma rmap_filter:
  assumes "rmap f xs = Inr ys"
  shows "rmap f (filter (\<lambda>x. case f x of Inr y \<Rightarrow> P y | Inl _ \<Rightarrow> False) xs) = Inr (filter P ys)"
  using assms by (induction xs arbitrary: ys) (auto simp: result_simps)

lemma validate_time_anchors_subset:
  "validate_time_anchors jc cal rows op params = Inr () \<Longrightarrow> set rows' \<subseteq> set rows \<Longrightarrow>
   validate_time_anchors jc cal rows' op params = Inr ()"
  by (auto simp: validate_time_anchors_def Let_def for_each_Inr)

text \<open>The same on source rows: a progress row is judged after its derivation.\<close>

definition source_visible ::
  "json_codec \<Rightarrow> calendar \<Rightarrow> narrowed_filters \<Rightarrow> pystr \<Rightarrow> role option \<Rightarrow> jdict \<Rightarrow> pystr \<times> pystr \<Rightarrow> row \<Rightarrow> bool" where
  "source_visible jc cal f op rl params window r =
     (if op = PROGRESS_OPERATION
      then (case derive_row jc cal r of Inr d \<Rightarrow> visible jc f op rl params window d | Inl _ \<Rightarrow> False)
      else visible jc f op rl params window r)"

lemma project_rows_visible:
  assumes "project_rows jc cal dc rows f op rl params window = Inr out"
  shows "project_rows jc cal dc (filter (source_visible jc cal f op rl params window) rows) f op rl params window =
    Inr out"
proof -
  let ?V = "visible jc f op rl params window"
  obtain detail view where
    detail: "(if op = PROGRESS_OPERATION then derive_progress_rows jc cal rows else Inr rows) = Inr detail"
    and ok: "validate_time_anchors jc cal detail op params = Inr ()"
    and view: "local_view_rows jc detail op f params window rl = Inr view"
    and rest: "rbind (group_fields params) (\<lambda>groupby.
       if op = PROGRESS_OPERATION then aggregate_progress_rows jc cal dc view groupby
       else if groupby \<noteq> [] then aggregate_payroll_rows jc dc view groupby else Inr view) = Inr out"
    using assms unfolding project_rows_def by (auto simp only: result_simps)
  have "(if op = PROGRESS_OPERATION
      then derive_progress_rows jc cal (filter (source_visible jc cal f op rl params window) rows)
      else Inr (filter (source_visible jc cal f op rl params window) rows)) = Inr (filter ?V detail)"
  proof (cases "op = PROGRESS_OPERATION")
    case True
    have "rmap (derive_row jc cal)
        (filter (\<lambda>r. case derive_row jc cal r of Inr d \<Rightarrow> ?V d | Inl _ \<Rightarrow> False) rows) = Inr (filter ?V detail)"
      using detail True by (intro rmap_filter) (simp add: derive_progress_rows_def)
    moreover have "source_visible jc cal f op rl params window =
        (\<lambda>r. case derive_row jc cal r of Inr d \<Rightarrow> ?V d | Inl _ \<Rightarrow> False)"
      unfolding source_visible_def by (intro ext if_P True)
    ultimately show ?thesis unfolding if_P [OF True] derive_progress_rows_def by (simp only:)
  next
    case False
    then show ?thesis using detail by (simp add: source_visible_def cong: filter_cong)
  qed
  moreover have "validate_time_anchors jc cal (filter ?V detail) op params = Inr ()"
    using ok by (rule validate_time_anchors_subset) auto
  ultimately show ?thesis
    unfolding project_rows_def using local_view_rows_visible [OF view] rest by simp
qed

section \<open>Progress groups\<close>

lemma rfold_append: "rfold f (xs @ ys) s = rbind (rfold f xs s) (rfold f ys)"
proof (induction xs arbitrary: s)
  case (Cons x xs)
  then show ?case by (cases "f x s") simp_all
qed simp

definition summed :: "'d decimals \<Rightarrow> pystr \<Rightarrow> row list \<Rightarrow> view_error + 'd" where
  "summed dc column rows = rfold (\<lambda>r acc. rbind (contribution dc r column) (\<lambda>x.
     opt_result InvalidOperation (dc_add dc acc x))) rows (dc_zero dc)"

lemma summed_snoc:
  "summed dc c rows = Inr a \<Longrightarrow> contribution dc r c = Inr x \<Longrightarrow> dc_add dc a x = Some b \<Longrightarrow>
   summed dc c (rows @ [r]) = Inr b"
  by (simp add: summed_def rfold_append opt_result_def)

lemma total_of_update: "total_of dc (AList.update c y t) c' = (if c' = c then y else total_of dc t c')"
  by (simp add: total_of_def dict_simps)

lemma add_columns:
  assumes "rfold (\<lambda>column t. rbind (contribution dc r column) (\<lambda>x.
     rbind (opt_result InvalidOperation (dc_add dc (total_of dc t column) x)) (\<lambda>y.
       Inr (AList.update column y t)))) cs t = Inr t'" and "distinct cs"
  shows "(\<forall>c \<in> set cs. \<exists>x. contribution dc r c = Inr x \<and> dc_add dc (total_of dc t c) x = Some (total_of dc t' c)) \<and>
    (\<forall>c. c \<notin> set cs \<longrightarrow> total_of dc t' c = total_of dc t c)"
  using assms
proof (induction cs arbitrary: t)
  case (Cons c cs)
  obtain x y where xy: "contribution dc r c = Inr x" "dc_add dc (total_of dc t c) x = Some y"
    and rest: "rfold (\<lambda>column t. rbind (contribution dc r column) (\<lambda>x.
       rbind (opt_result InvalidOperation (dc_add dc (total_of dc t column) x)) (\<lambda>y.
         Inr (AList.update column y t)))) cs (AList.update c y t) = Inr t'"
    using Cons.prems(1) by (auto simp: result_simps)
  have IH: "(\<forall>c' \<in> set cs. \<exists>x. contribution dc r c' = Inr x \<and>
      dc_add dc (total_of dc (AList.update c y t) c') x = Some (total_of dc t' c')) \<and>
    (\<forall>c'. c' \<notin> set cs \<longrightarrow> total_of dc t' c' = total_of dc (AList.update c y t) c')"
    using Cons.IH [OF rest] Cons.prems(2) by simp
  moreover have "c \<notin> set cs" using Cons.prems(2) by simp
  ultimately show ?case using xy by (auto simp: total_of_update) (metis (full_types))+
qed simp

lemma distinct_additive [simp]: "distinct PROGRESS_ADDITIVE_COLUMNS"
  by (simp add: PROGRESS_ADDITIVE_COLUMNS_def)

lemmas add_contributions_columns =
  add_columns [where cs = PROGRESS_ADDITIVE_COLUMNS, folded add_contributions_def, OF _ distinct_additive]

definition rows_of_key :: "pystr list \<Rightarrow> row list \<Rightarrow> pystr list \<Rightarrow> row list" where
  "rows_of_key columns rows key = filter (\<lambda>r. row_key columns r = key) rows"

text \<open>What the groups know of the rows they were built from.\<close>

definition group_exact :: "'d decimals \<Rightarrow> pystr list \<Rightarrow> row list \<Rightarrow> pystr list \<Rightarrow> 'd progress_group \<Rightarrow> bool" where
  "group_exact dc columns rows key g \<longleftrightarrow> rows_of_key columns rows key \<noteq> [] \<and>
     (\<forall>c \<in> set PROGRESS_ADDITIVE_COLUMNS.
        summed dc c (rows_of_key columns rows key) = Inr (total_of dc (snd g) c)) \<and>
     (\<forall>r \<in> set (rows_of_key columns rows key). \<forall>c \<in> set columns. row_text r c = row_text (fst g) c)"

definition groups_exact :: "'d decimals \<Rightarrow> pystr list \<Rightarrow> row list \<Rightarrow> (pystr list, 'd progress_group) dict \<Rightarrow> bool" where
  "groups_exact dc columns rows groups \<longleftrightarrow> distinct (map fst groups) \<and>
     (\<forall>key g. map_of groups key = Some g \<longrightarrow> group_exact dc columns rows key g) \<and>
     (\<forall>r \<in> set rows. map_of groups (row_key columns r) \<noteq> None)"

lemma key_or_name: "c \<in> set columns \<Longrightarrow> c \<in> set (key_fields columns) \<or> c \<in> set (name_fields columns)"
  by (simp add: key_fields_def)

lemma same_key_same_field:
  "row_key columns r = row_key columns r' \<Longrightarrow> c \<in> set (key_fields columns) \<Longrightarrow> row_text r c = row_text r' c"
  by (simp add: row_key_def)

lemma row_text_table:
  assumes "distinct cs" and "c \<in> set cs"
  shows "row_text (map (\<lambda>c. (c, JStr (row_text r c))) cs) c = row_text r c"
  using assms by (simp add: row_text_def map_of_map_restrict restrict_map_def)

lemma group_row_step:
  assumes ok: "group_row dc columns r groups = Inr groups'" and inv: "groups_exact dc columns rows groups"
    and cols: "distinct columns" "u ''rq'' \<notin> set columns"
  shows "groups_exact dc columns (rows @ [r]) groups'"
proof -
  let ?key = "row_key columns r"
  obtain dims totals totals' where start: "joined_group dc columns r (map_of groups ?key) = Inr (dims, totals)"
    and add: "add_contributions dc r totals = Inr totals'"
    and groups': "groups' = AList.update ?key (dims, totals') groups"
    using ok by (auto simp: group_row_def result_simps split: if_splits)
  note cols' = add_contributions_columns [OF add]
  have rows_snoc: "rows_of_key columns (rows @ [r]) k = rows_of_key columns rows k @ (if k = ?key then [r] else [])" for k
    by (simp add: rows_of_key_def)
  have exact: "group_exact dc columns (rows @ [r]) ?key (dims, totals')"
  proof (cases "map_of groups ?key")
    case None
    have empty: "rows_of_key columns rows ?key = []"
      using None inv by (auto simp: rows_of_key_def filter_empty_conv groups_exact_def)
    have dims: "row_text dims c = row_text r c" if "c \<in> set columns" for c
    proof -
      have "c \<noteq> u ''rq''" using that cols(2) by blast
      then have "row_text dims c = row_text (map (\<lambda>c. (c, JStr (row_text r c))) columns) c"
        using start None by (auto simp: joined_group_def Let_def row_text_def dict_simps split: if_splits)
      then show ?thesis using row_text_table [OF cols(1) that] by simp
    qed
    have zero: "total_of dc totals c = dc_zero dc" for c
      using start None by (auto simp: joined_group_def Let_def total_of_def map_of_map_restrict restrict_map_def split: if_splits)
    have "summed dc c [] = Inr (dc_zero dc)" for c by (simp add: summed_def)
    then have "summed dc c ([] @ [r]) = Inr (total_of dc totals' c)" if "c \<in> set PROGRESS_ADDITIVE_COLUMNS" for c
      using cols' that zero summed_snoc by metis
    then show ?thesis using dims by (simp add: group_exact_def rows_snoc empty)
  next
    case (Some g)
    have g: "g = (dims, totals)" and names: "\<forall>n \<in> set (name_fields columns). row_text r n = row_text dims n"
      using start Some by (cases g; auto simp: joined_group_def split: if_splits)+
    have old: "group_exact dc columns rows ?key (dims, totals)"
      using inv Some g by (simp add: groups_exact_def)
    then obtain r' where r': "r' \<in> set (rows_of_key columns rows ?key)"
      unfolding group_exact_def by (metis last_in_set)
    have "row_text r c = row_text dims c" if "c \<in> set columns" for c
    proof (cases "c \<in> set (name_fields columns)")
      case False
      then have "row_text r c = row_text r' c"
        using key_or_name [OF that] same_key_same_field [of columns r r' c] r' by (simp add: rows_of_key_def)
      then show ?thesis using old r' that by (simp add: group_exact_def)
    qed (use names in simp)
    moreover have "summed dc c (rows_of_key columns rows ?key @ [r]) = Inr (total_of dc totals' c)"
      if "c \<in> set PROGRESS_ADDITIVE_COLUMNS" for c
      using old cols' that summed_snoc by (metis group_exact_def snd_conv)
    ultimately show ?thesis using old by (auto simp: group_exact_def rows_snoc)
  qed
  show ?thesis
    unfolding groups_exact_def groups'
  proof (intro conjI allI impI ballI)
    show "distinct (map fst (AList.update ?key (dims, totals') groups))"
      using inv by (simp add: groups_exact_def)
  next
    fix k g assume k: "map_of (AList.update ?key (dims, totals') groups) k = Some g"
    show "group_exact dc columns (rows @ [r]) k g"
    proof (cases "k = ?key")
      case False
      then have "map_of groups k = Some g" using k unfolding map_of_update by (metis fun_upd_other)
      then have "group_exact dc columns rows k g" using inv unfolding groups_exact_def by blast
      then show ?thesis using False by (simp add: group_exact_def rows_snoc)
    qed (use k exact in \<open>simp add: dict_simps\<close>)
  next
    fix x assume "x \<in> set (rows @ [r])"
    then show "map_of (AList.update ?key (dims, totals') groups) (row_key columns x) \<noteq> None"
      using inv by (auto simp: dict_simps groups_exact_def)
  qed
qed

lemma groups_exact_fold:
  assumes "rfold (group_row dc columns) rows [] = Inr groups" and "distinct columns" and "u ''rq'' \<notin> set columns"
  shows "groups_exact dc columns rows groups"
  using assms(1)
proof (induction rows arbitrary: groups rule: rev_induct)
  case Nil
  then show ?case by (simp add: groups_exact_def)
next
  case (snoc r rows)
  then show ?case using group_row_step [OF _ _ assms(2,3)] by (auto simp: rfold_append result_simps)
qed

lemma reviewed_columns:
  assumes "set columns \<in> PROGRESS_REVIEWED_GRAINS"
  shows "u ''rq'' \<notin> set columns" and "u ''wcl'' \<notin> set columns"
    and "set columns \<inter> set PROGRESS_ADDITIVE_COLUMNS = {}"
  using assms by (auto simp: PROGRESS_REVIEWED_GRAINS_def PROGRESS_ADDITIVE_COLUMNS_def)

lemma map_of_fold_columns:
  "map_of (fold (\<lambda>c. AList.update c (f c)) cs d) k = (if k \<in> set cs then Some (f k) else map_of d k)"
  by (induction cs arbitrary: d) (auto simp: dict_simps)

lemma group_output_fields:
  assumes "group_output dc (dims, totals) = Inr out"
  shows "c \<in> set PROGRESS_ADDITIVE_COLUMNS \<Longrightarrow> row_text out c = dc_str dc (total_of dc totals c)"
    and "c \<notin> set PROGRESS_ADDITIVE_COLUMNS \<Longrightarrow> c \<noteq> u ''wcl'' \<Longrightarrow> row_text out c = row_text dims c"
    and "completion_ratio dc (total_of dc totals (u ''sssl'')) (total_of dc totals (u ''fhsl'')) =
      Inr (row_text out (u ''wcl''))"
proof -
  have "u ''wcl'' \<notin> set PROGRESS_ADDITIVE_COLUMNS" by (simp add: PROGRESS_ADDITIVE_COLUMNS_def)
  then show "c \<in> set PROGRESS_ADDITIVE_COLUMNS \<Longrightarrow> row_text out c = dc_str dc (total_of dc totals c)"
    and "c \<notin> set PROGRESS_ADDITIVE_COLUMNS \<Longrightarrow> c \<noteq> u ''wcl'' \<Longrightarrow> row_text out c = row_text dims c"
    and "completion_ratio dc (total_of dc totals (u ''sssl'')) (total_of dc totals (u ''fhsl'')) =
      Inr (row_text out (u ''wcl''))"
    using assms by (auto simp: group_output_def result_simps row_text_def dict_simps map_of_fold_columns)
qed

text \<open>What one output row says about the detail rows of its key.\<close>

definition output_exact :: "'d decimals \<Rightarrow> pystr list \<Rightarrow> row list \<Rightarrow> pystr list \<Rightarrow> row \<Rightarrow> bool" where
  "output_exact dc columns rows key out \<longleftrightarrow> (let group = rows_of_key columns rows key in
     group \<noteq> [] \<and> (\<forall>r \<in> set group. \<forall>c \<in> set columns. row_text r c = row_text out c) \<and>
     (\<forall>c \<in> set PROGRESS_ADDITIVE_COLUMNS. \<exists>x. summed dc c group = Inr x \<and> row_text out c = dc_str dc x) \<and>
     (\<exists>received issued. summed dc (u ''sssl'') group = Inr received \<and> summed dc (u ''fhsl'') group = Inr issued \<and>
        completion_ratio dc received issued = Inr (row_text out (u ''wcl''))))"

lemma group_output_exact:
  assumes "group_output dc g = Inr out" and "group_exact dc columns rows key g"
    and "set columns \<in> PROGRESS_REVIEWED_GRAINS"
  shows "output_exact dc columns rows key out"
proof -
  obtain dims totals where g: "g = (dims, totals)" by fastforce
  note fields' = group_output_fields [OF assms(1) [unfolded g]]
  have "row_text out c = row_text dims c" if "c \<in> set columns" for c
    using fields'(2) [of c] reviewed_columns [OF assms(3)] that by blast
  moreover have "u ''sssl'' \<in> set PROGRESS_ADDITIVE_COLUMNS" "u ''fhsl'' \<in> set PROGRESS_ADDITIVE_COLUMNS"
    by (simp_all add: PROGRESS_ADDITIVE_COLUMNS_def)
  ultimately show ?thesis
    using assms(2) fields'(1,3) unfolding output_exact_def group_exact_def g Let_def by auto
qed

text \<open>
  \<^bold>\<open>C25\<close>.  The derived progress grains are exact.  A grouped view of detail rows has one row
  for every combination of key values that occurs, in sorted order; each agrees with all its detail
  rows on every grouped column (names included), carries in each additive column the sum of
  their contributions in order, and as completion ratio the one of these totals.
\<close>

theorem progress_groups_exact:
  assumes "aggregate_progress_rows jc cal dc rows groupby = Inr out" and "groupby \<noteq> []"
  shows "\<exists>derived keys. derive_progress_rows jc cal rows = Inr derived \<and>
    sorted keys \<and> distinct keys \<and> set keys = row_key (from_keys groupby) ` set derived \<and>
    list_all2 (output_exact dc (from_keys groupby) derived) keys out"
proof -
  let ?columns = "from_keys groupby"
  obtain derived groups where grain: "set ?columns \<in> PROGRESS_REVIEWED_GRAINS"
    and derived: "derive_progress_rows jc cal rows = Inr derived"
    and groups: "rfold (group_row dc ?columns) derived [] = Inr groups"
    and out: "rmap (group_output dc \<circ> snd) (sort_key fst groups) = Inr out"
    using assms by (auto simp: aggregate_progress_rows_def Let_def result_simps split: if_splits)
  have exact: "groups_exact dc ?columns derived groups"
    using groups_exact_fold [OF groups] reviewed_columns(1) [OF grain] by simp
  let ?gs = "sort_key fst groups"
  have dist: "distinct (map fst groups)" using exact by (simp add: groups_exact_def)
  have in_gs: "group_exact dc ?columns derived (fst x) (snd x)" if "x \<in> set ?gs" for x
    using exact that dist by (cases x) (auto simp: groups_exact_def)
  have "list_all2 (\<lambda>x o'. group_output dc (snd x) = Inr o') ?gs out"
    using out by (simp add: rmap_Inr comp_def)
  then have "list_all2 (\<lambda>x o'. output_exact dc ?columns derived (fst x) o') ?gs out"
    by (rule list.rel_mono_strong) (use in_gs group_output_exact [OF _ _ grain] in blast)
  then have "list_all2 (output_exact dc ?columns derived) (map fst ?gs) out"
    by (simp add: list_all2_map1)
  moreover have "set (map fst ?gs) = row_key ?columns ` set derived"
  proof
    show "set (map fst ?gs) \<subseteq> row_key ?columns ` set derived"
    proof
      fix k assume "k \<in> set (map fst ?gs)"
      then obtain g where "(k, g) \<in> set ?gs" by auto
      from in_gs [OF this] show "k \<in> row_key ?columns ` set derived"
        by (auto simp: group_exact_def rows_of_key_def filter_empty_conv)
    qed
    show "row_key ?columns ` set derived \<subseteq> set (map fst ?gs)"
      using exact by (force simp: groups_exact_def map_of_eq_None_iff)
  qed
  moreover have "mset (map fst ?gs) = mset (map fst groups)" by simp
  then have "distinct (map fst ?gs)" using dist by (metis mset_eq_imp_distinct_iff)
  moreover have "sorted (map fst ?gs)" by simp
  ultimately show ?thesis using derived by blast
qed

section \<open>Concrete parameters\<close>

text \<open>Whole numbers as decimals, and a calendar of ten days.\<close>

definition whole_numbers :: "int decimals" where
  "whole_numbers = \<lparr>
     dc_parse = (\<lambda>s. if s \<noteq> [] \<and> list_all (\<lambda>c. 48 \<le> c \<and> c \<le> 57) s then Some (int (decimal_value s)) else None),
     dc_str = decimal_int, dc_zero = 0, dc_add = (\<lambda>a b. Some (a + b)), dc_div = (\<lambda>a b. Some (a div b)),
     dc_times_100 = (\<lambda>a. Some (a * 100)), dc_quantize_cents = Some, dc_eq = (=), dc_is_zero = (\<lambda>a. a = 0),
     dc_is_finite = (\<lambda>a. True), dc_is_negative = (\<lambda>a. a < 0), dc_is_integral = (\<lambda>a. True),
     dc_float = of_int\<rparr>"

definition ten_days :: calendar where
  "ten_days = \<lparr>
     cal_parse = (\<lambda>s. case s of [a, b, c, d, e, f, g, h, i, j] \<Rightarrow>
         if [a, b, c, d, e, f, g, h, i] = replicate 9 48 \<and> 48 \<le> j \<and> j \<le> 57 then Some (int j - 48) else None
       | _ \<Rightarrow> None),
     cal_iso = (\<lambda>d. replicate 9 48 @ [48 + nat (d mod 10)]),
     cal_datetime_date = (\<lambda>s. None)\<rparr>"

definition sample_row :: "nat \<Rightarrow> row" where
  "sample_row n = map (\<lambda>c. (u c, JStr (u ''x''))) [''dh'', ''baohao'', ''userid'', ''color'', ''chima''] @
     [(u ''rq'', JStr (cal_iso ten_days 3))] @
     map (\<lambda>c. (c, JStr (decimal n))) PROGRESS_ADDITIVE_COLUMNS"

definition sample_grain :: "pystr list" where
  "sample_grain = map u [''dh'', ''baohao'', ''userid'', ''color'', ''chima'']"

lemma sample_derived: "derive_progress_rows jc ten_days [sample_row m, sample_row n] = Inr [sample_row m, sample_row n]"
  by (simp add: derive_progress_rows_def derive_row_def sample_row_def PROGRESS_ADDITIVE_COLUMNS_def scalar_def
      normalize_progress_date_def ten_days_def numeral_eq_Suc)

lemma progress_groups_exact_witness:
  "\<exists>out derived keys. aggregate_progress_rows index_codec ten_days whole_numbers [sample_row 3, sample_row 4]
      sample_grain = Inr out \<and> derive_progress_rows index_codec ten_days [sample_row 3, sample_row 4] = Inr derived \<and>
    set keys = row_key (from_keys sample_grain) ` set derived \<and>
    list_all2 (output_exact whole_numbers (from_keys sample_grain) derived) keys out"
proof -
  have columns: "from_keys sample_grain = sample_grain"
    by (simp add: sample_grain_def from_keys_def)
  have grain: "set sample_grain \<in> PROGRESS_REVIEWED_GRAINS"
    by (simp add: sample_grain_def PROGRESS_REVIEWED_GRAINS_def)
  have names: "name_fields sample_grain = []"
    by (simp add: name_fields_def sample_grain_def DIMENSION_NAMES_def)
  have digits: "decimal 3 = [51]" "decimal 4 = [52]" by (simp_all add: decimal.simps)
  have "\<exists>groups. rfold (group_row whole_numbers sample_grain) [sample_row 3, sample_row 4] [] = Inr groups"
    by (simp add: group_row_def joined_group_def name_fields_def DIMENSION_NAMES_def key_fields_def sample_row_def add_contributions_def
        PROGRESS_ADDITIVE_COLUMNS_def contribution_def row_text_def digits whole_numbers_def decimal_value_def
        opt_result_def total_of_def Let_def sample_grain_def ten_days_def row_key_def)
  then obtain groups where groups: "rfold (group_row whole_numbers sample_grain) [sample_row 3, sample_row 4] [] =
    Inr groups" by blast
  have "\<exists>x. group_output whole_numbers g = Inr x" for g
    by (simp add: group_output_def completion_ratio_def whole_numbers_def opt_result_def split: prod.splits)
  then have "\<exists>out. rmap (group_output whole_numbers \<circ> snd) gs = Inr out" for gs
    by (induction gs) (simp, fastforce simp: result_simps comp_def)
  then obtain out where out: "rmap (group_output whole_numbers \<circ> snd) (sort_key fst groups) = Inr out" by blast
  have ne: "sample_grain \<noteq> []" by (simp add: sample_grain_def)
  have "aggregate_progress_rows index_codec ten_days whole_numbers [sample_row 3, sample_row 4] sample_grain = Inr out"
    unfolding aggregate_progress_rows_def columns Let_def sample_derived rbind.simps groups
    using out grain ne by simp
  then show ?thesis using progress_groups_exact ne by blast
qed

end
