(* ===== verification/ResultCache.thy ===== *)
theory ResultCache
  imports AuthCache Detail Domain
begin

text \<open>
  The shared result cache of the owner snapshots: key normalisation, the compact columnar value,
  and \<open>V2ResultCache\<close> (\<^verbatim>\<open>data_api/result_cache.py\<close>) over the authorization-aware
  cache.

  The clock reads the world of the store (\<open>clock\<close>), the time zone is its offset function, and
  lower-casing, \<open>Decimal\<close>, the calendar and the codec are the parameters collected in
  \<open>cache_env\<close>.  Logs and traces are left out; the publication deadline is the argument
  \<open>expired\<close>.
\<close>

section \<open>Modes, windows and keys\<close>

definition RESULT_CACHE_DOMAIN :: pystr where "RESULT_CACHE_DOMAIN = u ''v2_result''"
definition RESULT_SET_VERSION :: int where "RESULT_SET_VERSION = 4"
definition DETAIL_GRAIN :: pystr where "DETAIL_GRAIN = u ''default-detail-v4''"
definition OWNER_SCOPE_SIGNATURE :: pystr where "OWNER_SCOPE_SIGNATURE = u ''owner-99''"

datatype result_cache_mode = CACHE_OFF | CACHE_READ | CACHE_READWRITE | CACHE_SHADOW

definition mode_parse :: "(pystr \<Rightarrow> pystr) \<Rightarrow> pystr \<Rightarrow> value_error + result_cache_mode" where
  "mode_parse lower v = (let m = lower (py_strip v) in
     if m = u ''off'' then Inr CACHE_OFF else if m = u ''read'' then Inr CACHE_READ
     else if m = u ''readwrite'' then Inr CACHE_READWRITE else if m = u ''shadow'' then Inr CACHE_SHADOW
     else Inl (ValueError (u ''invalid result cache mode'')))"

definition mode_reads :: "result_cache_mode \<Rightarrow> bool" where
  "mode_reads m \<longleftrightarrow> m \<noteq> CACHE_OFF"

definition mode_writes :: "result_cache_mode \<Rightarrow> bool" where
  "mode_writes m \<longleftrightarrow> m \<in> {CACHE_READWRITE, CACHE_SHADOW}"

definition mode_verifies :: "result_cache_mode \<Rightarrow> bool" where
  "mode_verifies m \<longleftrightarrow> m = CACHE_SHADOW"

record cache_policy =
  cp_backtrack_days :: int
  cp_unsettled_ttl_seconds :: int
  cp_settled_ttl_seconds :: int
  cp_float_tolerance :: real

definition DEFAULT_POLICY :: cache_policy where
  "DEFAULT_POLICY = \<lparr>cp_backtrack_days = 365, cp_unsettled_ttl_seconds = 90, cp_settled_ttl_seconds = 86400,
     cp_float_tolerance = 1 / 1000000\<rparr>"

type_synonym window = "pystr \<times> pystr"

datatype window_kind = UNSETTLED | OUT_OF_RANGE | SETTLED

text \<open>\<open>today\<close> is the day of the ISO date that the code passes around.\<close>

definition window_category :: "calendar \<Rightarrow> window \<Rightarrow> int \<Rightarrow> int \<Rightarrow> window_kind" where
  "window_category cal window today backtrack_days =
     (if snd window \<ge> cal_iso cal today then UNSETTLED
      else if fst window < cal_iso cal (today - backtrack_days) then OUT_OF_RANGE
      else SETTLED)"

definition VIEW_PARAMS :: "pystr list" where
  "VIEW_PARAMS = [u ''groupbyFields'', u ''orderbyFields'', u ''orderByType'']"

definition normalize_value :: "pystr \<Rightarrow> json \<Rightarrow> json" where
  "normalize_value key v = (case v of
     JStr s \<Rightarrow> if key = u ''Type''
       then JStr (join [44] (sort (from_keys (filter (\<lambda>p. p \<noteq> []) (py_split 44 s))))) else v
   | _ \<Rightarrow> v)"

definition normalize_params :: "jdict \<Rightarrow> window \<Rightarrow> jdict" where
  "normalize_params extra window =
     fold (\<lambda>key d. if key \<in> {u ''dates'', u ''datee''} \<union> set VIEW_PARAMS then d
         else AList.update key (normalize_value key (case map_of extra key of Some v \<Rightarrow> v | None \<Rightarrow> JNull)) d)
       (sort (map fst extra)) [(u ''dates'', JStr (fst window)), (u ''datee'', JStr (snd window))]"

definition cacheable_grain :: "pystr \<Rightarrow> bool" where
  "cacheable_grain op \<longleftrightarrow> op \<in> {PAYROLL_OPERATION, PROGRESS_OPERATION}"

definition detail_params :: "jdict \<Rightarrow> jdict" where
  "detail_params extra = filter (\<lambda>(k, v). k \<notin> set VIEW_PARAMS) extra"

definition key_params :: "pystr \<Rightarrow> jdict \<Rightarrow> window \<Rightarrow> jdict" where
  "key_params op extra window = fold (\<lambda>(k, v). AList.update k v) (normalize_params extra window)
     [(u ''api'', JStr op), (u ''grain'', JStr DETAIL_GRAIN)]"

section \<open>The cached value\<close>

text \<open>\<open>str(key) for key in filters.get("groupby", ())\<close>; \<open>None\<close> when it cannot be iterated.\<close>

definition iter_strs :: "json_codec \<Rightarrow> json option \<Rightarrow> pystr list option" where
  "iter_strs jc v = (case v of
     None \<Rightarrow> Some []
   | Some (JList xs) \<Rightarrow> Some (map (json_str jc) xs)
   | Some (JStr s) \<Rightarrow> Some (map (\<lambda>c. [c]) s)
   | Some (JDict d) \<Rightarrow> Some (map fst d)
   | _ \<Rightarrow> None)"

definition column_names :: "row list \<Rightarrow> pystr list" where
  "column_names rows = sort (from_keys (concat (map (map fst) rows)))"

definition strings_json :: "pystr list \<Rightarrow> json" where
  "strings_json xs = JList (map JStr xs)"

definition footer_json :: "footer option \<Rightarrow> json" where
  "footer_json f = JDict (case f of Some d \<Rightarrow> map (map_prod id JStr) d | None \<Rightarrow> [])"

definition window_json :: "window \<Rightarrow> json" where
  "window_json w = JDict [(u ''dates'', JStr (fst w)), (u ''datee'', JStr (snd w))]"

definition encode_result_set ::
  "json_codec \<Rightarrow> pystr \<Rightarrow> row list \<Rightarrow> footer option \<Rightarrow> window \<Rightarrow> jdict \<Rightarrow> pystr list \<Rightarrow> pystr \<Rightarrow> pystr \<Rightarrow>
   bytes option" where
  "encode_result_set jc op rows footer window filters derived generated_at source =
     map_option (\<lambda>groupby.
       let columns = column_names rows in
       jc_dumps jc (JDict [(u ''v'', JInt RESULT_SET_VERSION), (u ''api'', JStr op),
         (u ''window'', window_json window), (u ''filters'', JDict filters),
         (u ''groupby'', strings_json (sort groupby)), (u ''derived'', strings_json derived),
         (u ''columns'', strings_json columns),
         (u ''rows'', JList (map (\<lambda>r. JList (map (\<lambda>c. case map_of r c of Some v \<Rightarrow> v | None \<Rightarrow> JStr []) columns)) rows)),
         (u ''footer'', footer_json footer), (u ''generated_at'', JStr generated_at), (u ''source'', JStr source)]))
       (iter_strs jc (map_of filters (u ''groupby'')))"

definition all_strings :: "json list \<Rightarrow> pystr list option" where
  "all_strings xs = (if list_all (\<lambda>v. case v of JStr _ \<Rightarrow> True | _ \<Rightarrow> False) xs
     then Some (map (\<lambda>v. case v of JStr s \<Rightarrow> s | _ \<Rightarrow> []) xs) else None)"

definition is_scalar :: "json \<Rightarrow> bool" where
  "is_scalar v \<longleftrightarrow> (case v of JList _ \<Rightarrow> False | JDict _ \<Rightarrow> False | _ \<Rightarrow> True)"

definition decode_row :: "json_codec \<Rightarrow> pystr list \<Rightarrow> json \<Rightarrow> pystr + row" where
  "decode_row jc columns raw = (case raw of
     JList row \<Rightarrow>
       if length row \<noteq> length columns then Inl (u ''row_width_mismatch'')
       else if \<not> list_all is_scalar row then Inl (u ''invalid_scalar'')
       else Inr (map (\<lambda>(c, v). (c, JStr (if v = JNull then [] else json_str jc v))) (zip columns row))
   | _ \<Rightarrow> Inl (u ''invalid_row''))"

record snapshot =
  sn_payload :: jdict
  sn_columns :: "pystr list"
  sn_footer :: footer
  sn_rows :: "row list"

text \<open>The checks of \<^verbatim>\<open>_decode_result_set\<close>, in their order: the footer and the rows, the
  columns, the envelope.\<close>

definition decode_rows ::
  "(pystr \<Rightarrow> pystr) \<Rightarrow> json_codec \<Rightarrow> jdict \<Rightarrow> pystr list \<Rightarrow> json list \<Rightarrow> jdict \<Rightarrow> json list \<Rightarrow> pystr + snapshot" where
  "decode_rows lower jc payload names rows footer derived =
     (case all_strings (map snd footer) of
        None \<Rightarrow> Inl (u ''invalid_footer'')
      | Some totals \<Rightarrow>
          if has_credential_fields lower (map fst footer) then Inl (u ''forbidden_fields'')
          else if all_strings derived = None then Inl (u ''invalid_derived_columns'')
          else rbind (rmap (decode_row jc names) rows) (\<lambda>decoded.
            Inr \<lparr>sn_payload = payload, sn_columns = names, sn_footer = zip (map fst footer) totals,
              sn_rows = decoded\<rparr>))"

definition decode_columns ::
  "(pystr \<Rightarrow> pystr) \<Rightarrow> json_codec \<Rightarrow> jdict \<Rightarrow> json list \<Rightarrow> json list \<Rightarrow> pystr + snapshot" where
  "decode_columns lower jc payload columns rows =
     (case all_strings columns of
        None \<Rightarrow> Inl (u ''invalid_columns'')
      | Some names \<Rightarrow>
          if \<not> distinct names \<or> has_credential_fields lower names
          then Inl (u ''invalid_columns_or_forbidden_fields'')
          else (case (map_of payload (u ''footer''), map_of payload (u ''derived'')) of
            (Some (JDict footer), Some (JList derived)) \<Rightarrow> decode_rows lower jc payload names rows footer derived
          | _ \<Rightarrow> Inl (u ''invalid_structure'')))"

definition decode_payload :: "(pystr \<Rightarrow> pystr) \<Rightarrow> json_codec \<Rightarrow> jdict \<Rightarrow> pystr + snapshot" where
  "decode_payload lower jc payload =
     (if \<not> json_opt_eq (map_of payload (u ''v'')) (JInt RESULT_SET_VERSION) then Inl (u ''version_mismatch'')
      else (case (map_of payload (u ''api''), map_of payload (u ''columns''), map_of payload (u ''rows'')) of
        (Some (JStr api), Some (JList columns), Some (JList rows)) \<Rightarrow> decode_columns lower jc payload columns rows
      | _ \<Rightarrow> Inl (u ''invalid_structure'')))"

definition decode_result_set ::
  "(pystr \<Rightarrow> pystr) \<Rightarrow> json_codec \<Rightarrow> bytes \<Rightarrow> pystr + snapshot" where
  "decode_result_set lower jc raw = (case jc_loads jc raw of
     None \<Rightarrow> Inl (u ''invalid_json'')
   | Some (JDict payload) \<Rightarrow> decode_payload lower jc payload
   | _ \<Rightarrow> Inl (u ''invalid_structure''))"

definition snapshot_rejection_reason ::
  "snapshot \<Rightarrow> pystr \<Rightarrow> jdict \<Rightarrow> window \<Rightarrow> pystr option" where
  "snapshot_rejection_reason sn op params window =
     (let p = sn_payload sn in
      if map_of p (u ''api'') \<noteq> Some (JStr op) then Some (u ''operation_mismatch'')
      else if \<not> json_opt_eq (map_of p (u ''filters'')) (JDict params) then Some (u ''parameters_mismatch'')
      else if (case map_of p (u ''groupby'') of Some v \<Rightarrow> json_truthy v | None \<Rightarrow> False)
      then Some (u ''detail_grain_required'')
      else if \<not> json_opt_eq (map_of p (u ''window'')) (window_json window) then Some (u ''window_mismatch'')
      else if op = PROGRESS_OPERATION \<and> sn_rows sn \<noteq> [] \<and> u ''rq'' \<notin> set (sn_columns sn)
      then Some (u ''missing_time_anchor'')
      else None)"

section \<open>V2ResultCache\<close>

record ('s, 'd) cache_env =
  ce_std :: stdlib
  ce_codec :: json_codec
  ce_calendar :: calendar
  ce_decimals :: "'d decimals"
  ce_lower :: "pystr \<Rightarrow> pystr"
  ce_cache :: auth_cache
  ce_store :: "'s cache_store"
  ce_mode :: result_cache_mode
  ce_policy :: cache_policy
  ce_clock :: "'s \<Rightarrow> instant"
  ce_zone :: "instant \<Rightarrow> int"

record cache_hit =
  ch_rows :: "row list"
  ch_footer :: "footer option"
  ch_generated_at :: pystr
  ch_source :: pystr
  ch_window :: window
  ch_source_call_count :: int

definition rc_today :: "('s, 'd) cache_env \<Rightarrow> 's cache_state \<Rightarrow> int" where
  "rc_today env cs = local_day (ce_zone env) (ce_clock env (snd cs))"

definition current_timestamp :: "('s, 'd) cache_env \<Rightarrow> 's cache_state \<Rightarrow> pystr" where
  "current_timestamp env cs = std_isoformat (ce_std env) (ce_clock env (snd cs))"

definition prefetch_window :: "('s, 'd) cache_env \<Rightarrow> int \<Rightarrow> window" where
  "prefetch_window env today =
     (cal_iso (ce_calendar env) (today - cp_backtrack_days (ce_policy env)), cal_iso (ce_calendar env) (today - 1))"

definition candidate_windows :: "('s, 'd) cache_env \<Rightarrow> int \<Rightarrow> window \<Rightarrow> window list" where
  "candidate_windows env today question =
     (let prefetch = prefetch_window env today; previous = prefetch_window env (today - 1);
          settled = fst question \<ge> fst prefetch \<and> snd question \<le> snd prefetch;
          windows = (if settled then prefetch # (if fst previous \<le> fst question \<and> snd question \<le> snd previous
              then [previous] else []) else []) in
      if question \<in> set windows then windows else windows @ [question])"

definition rows_rejected :: "('s, 'd) cache_env \<Rightarrow> pystr \<Rightarrow> row list \<Rightarrow> bool" where
  "rows_rejected env op rows \<longleftrightarrow>
     (op = PROGRESS_OPERATION \<and> (\<exists>r \<in> set rows.
        (case normalize_progress_date (ce_calendar env) (map_of r (u ''rq'')) of
           Inl _ \<Rightarrow> True | Inr day \<Rightarrow> map_of r (u ''rq'') \<noteq> Some (JStr day)))) \<or>
     (\<exists>r \<in> set rows. \<exists>k \<in> row_keys r. ce_lower env k \<in> FORBIDDEN_ROW_FIELDS)"

text \<open>What one candidate line yields: a usable snapshot or nothing.\<close>

definition usable_snapshot ::
  "('s, 'd) cache_env \<Rightarrow> pystr \<Rightarrow> jdict \<Rightarrow> window \<Rightarrow> bytes \<Rightarrow> snapshot option" where
  "usable_snapshot env op params window raw = (case decode_result_set (ce_lower env) (ce_codec env) raw of
     Inl _ \<Rightarrow> None
   | Inr sn \<Rightarrow> if snapshot_rejection_reason sn op params window \<noteq> None \<or> rows_rejected env op (sn_rows sn)
       then None else Some sn)"

definition hit_of :: "json_codec \<Rightarrow> snapshot \<Rightarrow> window \<Rightarrow> cache_hit" where
  "hit_of jc sn window = \<lparr>ch_rows = sn_rows sn, ch_footer = (if sn_footer sn = [] then None else Some (sn_footer sn)),
     ch_generated_at = str_or_empty jc (map_of (sn_payload sn) (u ''generated_at'')),
     ch_source = str_or_empty jc (map_of (sn_payload sn) (u ''source'')), ch_window = window,
     ch_source_call_count = 0\<rparr>"

fun read_candidates ::
  "('s, 'd) cache_env \<Rightarrow> tenant_id \<Rightarrow> pystr \<Rightarrow> jdict \<Rightarrow> window list \<Rightarrow> 's cache_state \<Rightarrow>
   cache_hit option \<times> 's cache_state" where
  "read_candidates env tenant op extra [] cs = (None, cs)"
| "read_candidates env tenant op extra (window # ws) cs =
     (let params = key_params op extra window in
      case cache_get (ce_std env) (ce_codec env) (ce_cache env) (ce_store env) RESULT_CACHE_DOMAIN tenant
          OWNER_SCOPE_SIGNATURE params cs of
        (Inl _, cs') \<Rightarrow> (None, cs')
      | (Inr found, cs') \<Rightarrow> (case lk_value found of
          None \<Rightarrow> read_candidates env tenant op extra ws cs'
        | Some raw \<Rightarrow> (case usable_snapshot env op params window raw of
            None \<Rightarrow> read_candidates env tenant op extra ws cs'
          | Some sn \<Rightarrow> (Some (hit_of (ce_codec env) sn window), cs'))))"

definition rc_read ::
  "('s, 'd) cache_env \<Rightarrow> tenant_id \<Rightarrow> pystr \<Rightarrow> jdict \<Rightarrow> window \<Rightarrow> 's cache_state \<Rightarrow>
   cache_hit option \<times> 's cache_state" where
  "rc_read env tenant op extra question cs =
     read_candidates env tenant op extra (candidate_windows env (rc_today env cs) question) cs"

datatype publication = Published bool | PublicationTimeout

definition publication_ttl :: "('s, 'd) cache_env \<Rightarrow> window \<Rightarrow> 's cache_state \<Rightarrow> int" where
  "publication_ttl env window cs =
     (if window_category (ce_calendar env) window (rc_today env cs) (cp_backtrack_days (ce_policy env)) = UNSETTLED
      then cp_unsettled_ttl_seconds (ce_policy env) else cp_settled_ttl_seconds (ce_policy env))"

definition rc_put ::
  "('s, 'd) cache_env \<Rightarrow> tenant_id \<Rightarrow> pystr \<Rightarrow> row list \<Rightarrow> footer option \<Rightarrow> jdict \<Rightarrow> window \<Rightarrow> pystr \<Rightarrow> bool \<Rightarrow>
   's cache_state \<Rightarrow> publication \<times> 's cache_state" where
  "rc_put env tenant op stored footer extra window source expired cs =
     (let params = key_params op extra window in
      case encode_result_set (ce_codec env) op stored footer window params [] (current_timestamp env cs) source of
        None \<Rightarrow> (Published False, cs)
      | Some payload \<Rightarrow>
          if expired then (PublicationTimeout, cs)
          else (case cache_put (ce_std env) (ce_codec env) (ce_cache env) (ce_store env) RESULT_CACHE_DOMAIN tenant
              OWNER_SCOPE_SIGNATURE params payload (Some (publication_ttl env window cs)) cs of
            (Inl _, cs') \<Rightarrow> (Published False, cs')
          | (Inr written, cs') \<Rightarrow> (Published written, cs')))"

definition truthy_param :: "jdict \<Rightarrow> pystr \<Rightarrow> bool" where
  "truthy_param params k \<longleftrightarrow> (case map_of params k of Some v \<Rightarrow> json_truthy v | None \<Rightarrow> False)"

definition forbidden_content :: "(pystr \<Rightarrow> pystr) \<Rightarrow> row list \<Rightarrow> footer option \<Rightarrow> jdict \<Rightarrow> bool" where
  "forbidden_content lower rows footer extra \<longleftrightarrow>
     (\<exists>r \<in> set rows. has_credential_fields lower (map fst r)) \<or>
     has_credential_fields lower (case footer of Some f \<Rightarrow> map fst f | None \<Rightarrow> []) \<or>
     has_credential_fields lower (map fst extra) \<or> (\<exists>k \<in> fst ` set extra. lower k \<in> FORBIDDEN_REQUEST_PARAMS)"

definition rc_write ::
  "('s, 'd) cache_env \<Rightarrow> tenant_id \<Rightarrow> pystr \<Rightarrow> row list \<Rightarrow> footer option \<Rightarrow> jdict \<Rightarrow> window \<Rightarrow> pystr \<Rightarrow> bool \<Rightarrow>
   's cache_state \<Rightarrow> publication \<times> 's cache_state" where
  "rc_write env tenant op rows footer extra window source expired cs =
     (if truthy_param extra (u ''groupbyFields'') then (Published False, cs)
      else if forbidden_content (ce_lower env) rows footer extra then (Published False, cs)
      else if \<not> footer_reconciles (ce_codec env) (ce_decimals env) (cp_float_tolerance (ce_policy env)) rows footer
      then (Published False, cs)
      else (case (if op = PROGRESS_OPERATION then derive_progress_rows (ce_codec env) (ce_calendar env) rows
            else Inr rows) of
          Inl _ \<Rightarrow> (Published False, cs)
        | Inr stored \<Rightarrow> (case validate_time_anchors (ce_codec env) (ce_calendar env) stored op extra of
            Inl _ \<Rightarrow> (Published False, cs)
          | Inr _ \<Rightarrow> rc_put env tenant op stored footer extra window source expired cs)))"

definition rc_evict ::
  "('s, 'd) cache_env \<Rightarrow> tenant_id \<Rightarrow> pystr \<Rightarrow> jdict \<Rightarrow> window \<Rightarrow> 's cache_state \<Rightarrow> 's cache_state" where
  "rc_evict env tenant op extra window cs =
     (case build_key (ce_std env) (ce_codec env) (ce_cache env) RESULT_CACHE_DOMAIN tenant OWNER_SCOPE_SIGNATURE
         (key_params op extra window) of
        Inl _ \<Rightarrow> cs
      | Inr key \<Rightarrow> invalidate_key (ce_store env) key cs)"

section \<open>What a read can answer\<close>

lemma candidate_covers:
  "w \<in> set (candidate_windows env today q) \<Longrightarrow> fst w \<le> fst q \<and> snd q \<le> snd w"
  by (auto simp: candidate_windows_def Let_def split: if_splits)

lemma question_is_candidate: "q \<in> set (candidate_windows env today q)"
  by (simp add: candidate_windows_def Let_def)

text \<open>A hit was decoded from a live line, under the key of its window.\<close>

lemma read_candidates_hit:
  assumes "ce_store env = redis_store"
  shows "read_candidates env tenant op extra ws cs = (Some hit, cs') \<Longrightarrow>
   \<exists>w \<in> set ws. \<exists>key raw sn. build_key (ce_std env) (ce_codec env) (ce_cache env) RESULT_CACHE_DOMAIN tenant
       OWNER_SCOPE_SIGNATURE (key_params op extra w) = Inr key \<and> redis_live (snd cs) key = Some raw \<and>
     usable_snapshot env op (key_params op extra w) w raw = Some sn \<and> hit = hit_of (ce_codec env) sn w"
proof (induction ws arbitrary: cs)
  case (Cons x ws)
  obtain found cs1 where get: "cache_get (ce_std env) (ce_codec env) (ce_cache env) redis_store RESULT_CACHE_DOMAIN
      tenant OWNER_SCOPE_SIGNATURE (key_params op extra x) cs = (Inr found, cs1)"
    using Cons.prems assms by (auto simp: Let_def split: prod.splits sum.splits)
  have earlier: "redis_live (snd cs) k = Some v" if "redis_live (snd cs1) k = Some v" for k v
    using redis_provider.step_origin [of "ce_std env" "ce_codec env" "ce_cache env" "CGet RESULT_CACHE_DOMAIN tenant
      OWNER_SCOPE_SIGNATURE (key_params op extra x)" cs k v] get that by simp
  show ?case
  proof (cases "\<exists>raw sn. lk_value found = Some raw \<and> usable_snapshot env op (key_params op extra x) x raw = Some sn")
    case True
    then obtain raw sn where hit: "lk_value found = Some raw" "usable_snapshot env op (key_params op extra x) x raw = Some sn"
      by blast
    then have "hit = hit_of (ce_codec env) sn x" using Cons.prems get assms by simp
    then show ?thesis using redis_provider.hit_origin [OF get hit(1)] hit(2) by auto
  next
    case False
    then have "read_candidates env tenant op extra ws cs1 = (Some hit, cs')"
      using Cons.prems get assms by (auto split: option.splits)
    from Cons.IH [OF this] show ?thesis using earlier by (meson list.set_intros(2))
  qed
qed simp

text \<open>What a line of the stored table decodes to.\<close>

definition decodes_to :: "json_codec \<Rightarrow> pystr list \<Rightarrow> json \<Rightarrow> row \<Rightarrow> bool" where
  "decodes_to jc columns line r \<longleftrightarrow> (\<exists>cells. line = JList cells \<and> length cells = length columns \<and>
     list_all is_scalar cells \<and>
     r = zip columns (map (\<lambda>v. JStr (if v = JNull then [] else json_str jc v)) cells))"

lemma decode_row_decodes: "decode_row jc columns line = Inr r \<longleftrightarrow> decodes_to jc columns line r"
  by (auto simp: decode_row_def decodes_to_def zip_map2 split: json.splits if_splits)

lemma decodes_to_row:
  assumes "decodes_to jc columns line r"
  shows "map fst r = columns \<and> (\<forall>v \<in> snd ` set r. \<exists>s. v = JStr s)"
  using assms by (auto simp: decodes_to_def map_fst_zip dest!: set_zip_rightD)

text \<open>A table that decodes, part by part: the envelope, the columns, the footer, the rows.\<close>

definition stored_table :: "(pystr \<Rightarrow> pystr) \<Rightarrow> json_codec \<Rightarrow> jdict \<Rightarrow> pystr list \<Rightarrow> footer \<Rightarrow> row list \<Rightarrow> bool" where
  "stored_table lower jc payload columns footer rows \<longleftrightarrow>
     json_opt_eq (map_of payload (u ''v'')) (JInt RESULT_SET_VERSION) \<and>
     map_of payload (u ''columns'') = Some (JList (map JStr columns)) \<and> distinct columns \<and>
     \<not> has_credential_fields lower columns \<and>
     map_of payload (u ''footer'') = Some (JDict (map (map_prod id JStr) footer)) \<and>
     \<not> has_credential_fields lower (map fst footer) \<and>
     (\<exists>lines. map_of payload (u ''rows'') = Some (JList lines) \<and> list_all2 (decodes_to jc columns) lines rows)"

lemma all_strings_Some: "all_strings xs = Some names \<longleftrightarrow> xs = map JStr names"
proof
  show "all_strings xs = Some names \<Longrightarrow> xs = map JStr names"
  proof (induction xs arbitrary: names)
    case (Cons x xs)
    then show ?case by (cases x) (auto simp: all_strings_def split: if_splits)
  qed (simp add: all_strings_def)
qed (simp add: all_strings_def list_all_iff comp_def)

lemma footer_of_texts: "map snd xs = map JStr ts \<Longrightarrow> xs = map (map_prod id JStr) (zip (map fst xs) ts)"
proof (induction xs arbitrary: ts)
  case (Cons x xs)
  then show ?case by (cases ts; cases x) auto
qed simp

lemma decode_result_set_Inr:
  assumes "decode_result_set lower jc raw = Inr sn"
  shows "jc_loads jc raw = Some (JDict (sn_payload sn))"
    and "stored_table lower jc (sn_payload sn) (sn_columns sn) (sn_footer sn) (sn_rows sn)"
proof -
  obtain payload where loads: "jc_loads jc raw = Some (JDict payload)" and "decode_payload lower jc payload = Inr sn"
    using assms by (auto simp: decode_result_set_def split: option.splits json.splits)
  then obtain columns rows where v: "json_opt_eq (map_of payload (u ''v'')) (JInt RESULT_SET_VERSION)"
    and c: "map_of payload (u ''columns'') = Some (JList columns)" "map_of payload (u ''rows'') = Some (JList rows)"
    and "decode_columns lower jc payload columns rows = Inr sn"
    unfolding decode_payload_def by (auto split: option.splits if_splits json.splits)
  then obtain names footer derived where names: "columns = map JStr names" "distinct names"
      "\<not> has_credential_fields lower names"
    and f: "map_of payload (u ''footer'') = Some (JDict footer)"
    and "decode_rows lower jc payload names rows footer derived = Inr sn"
    unfolding decode_columns_def all_strings_Some [symmetric]
    by (auto split: option.splits if_splits json.splits)
  then obtain totals decoded where totals: "map snd footer = map JStr totals"
    and cred: "\<not> has_credential_fields lower (map fst footer)"
    and decoded: "rmap (decode_row jc names) rows = Inr decoded"
    and sn: "sn = \<lparr>sn_payload = payload, sn_columns = names, sn_footer = zip (map fst footer) totals,
       sn_rows = decoded\<rparr>"
    unfolding all_strings_Some [symmetric]
    by (auto simp: decode_rows_def result_simps split: option.splits if_splits)
  show "jc_loads jc raw = Some (JDict (sn_payload sn))" using loads by (simp add: sn)
  have "list_all2 (decodes_to jc names) rows decoded"
    using decoded by (simp add: rmap_Inr decode_row_decodes)
  moreover have "length footer = length totals" using arg_cong [OF totals, of length] by simp
  ultimately show "stored_table lower jc (sn_payload sn) (sn_columns sn) (sn_footer sn) (sn_rows sn)"
    using v c names f cred footer_of_texts [OF totals] by (simp add: stored_table_def sn map_fst_zip)
qed

lemma usable_snapshot_Some:
  "usable_snapshot env op params window raw = Some sn \<longleftrightarrow>
     decode_result_set (ce_lower env) (ce_codec env) raw = Inr sn \<and>
     snapshot_rejection_reason sn op params window = None \<and> \<not> rows_rejected env op (sn_rows sn)"
  by (auto simp: usable_snapshot_def split: sum.splits)

lemma accepted_row:
  assumes "\<not> rows_rejected env op rows" and "r \<in> set rows"
  shows "(\<forall>k \<in> row_keys r. ce_lower env k \<notin> FORBIDDEN_ROW_FIELDS) \<and>
    (op = PROGRESS_OPERATION \<longrightarrow> (\<exists>day. map_of r (u ''rq'') = Some (JStr day) \<and>
       normalize_progress_date (ce_calendar env) (Some (JStr day)) = Inr day))"
proof
  show "\<forall>k \<in> row_keys r. ce_lower env k \<notin> FORBIDDEN_ROW_FIELDS"
    using assms unfolding rows_rejected_def by blast
  have "op = PROGRESS_OPERATION \<Longrightarrow> \<exists>day. normalize_progress_date (ce_calendar env) (map_of r (u ''rq'')) = Inr day \<and>
      map_of r (u ''rq'') = Some (JStr day)"
    using assms unfolding rows_rejected_def
    by (cases "normalize_progress_date (ce_calendar env) (map_of r (u ''rq''))") auto
  then show "op = PROGRESS_OPERATION \<longrightarrow> (\<exists>day. map_of r (u ''rq'') = Some (JStr day) \<and>
      normalize_progress_date (ce_calendar env) (Some (JStr day)) = Inr day)" by metis
qed

text \<open>
  \<^bold>\<open>C24\<close>.  Nothing unproven is read.  Whatever bytes Redis holds, a hit was decoded from
  a live line under the key of its window, which covers the whole question; the line is JSON whose
  envelope carries the current version, this operation, these parameters, this window and no grouping;
  the rows of the hit are the lines of the stored table, in order, as text cells under its distinct
  columns; footer, source and time are the stored ones; no column, footer key or row key names a
  credential; and, for progress, every row carries a normalised date.
\<close>

theorem accepted_snapshot_valid:
  assumes "rc_read env tenant op extra question cs = (Some hit, cs')" and "ce_store env = redis_store"
  shows "fst (ch_window hit) \<le> fst question \<and> snd question \<le> snd (ch_window hit) \<and>
    (\<exists>key raw payload columns footer.
       build_key (ce_std env) (ce_codec env) (ce_cache env) RESULT_CACHE_DOMAIN tenant OWNER_SCOPE_SIGNATURE
         (key_params op extra (ch_window hit)) = Inr key \<and>
       redis_live (snd cs) key = Some raw \<and> jc_loads (ce_codec env) raw = Some (JDict payload) \<and>
       map_of payload (u ''api'') = Some (JStr op) \<and>
       json_opt_eq (map_of payload (u ''filters'')) (JDict (key_params op extra (ch_window hit))) \<and>
       json_opt_eq (map_of payload (u ''window'')) (window_json (ch_window hit)) \<and>
       (\<forall>g. map_of payload (u ''groupby'') = Some g \<longrightarrow> \<not> json_truthy g) \<and>
       stored_table (ce_lower env) (ce_codec env) payload columns footer (ch_rows hit) \<and>
       (op = PROGRESS_OPERATION \<and> ch_rows hit \<noteq> [] \<longrightarrow> u ''rq'' \<in> set columns) \<and>
       ch_footer hit = (if footer = [] then None else Some footer) \<and>
       ch_generated_at hit = str_or_empty (ce_codec env) (map_of payload (u ''generated_at'')) \<and>
       ch_source hit = str_or_empty (ce_codec env) (map_of payload (u ''source''))) \<and>
    (\<forall>r \<in> set (ch_rows hit). (\<forall>v \<in> snd ` set r. \<exists>s. v = JStr s) \<and>
       (\<forall>k \<in> row_keys r. ce_lower env k \<notin> FORBIDDEN_ROW_FIELDS) \<and>
       (op = PROGRESS_OPERATION \<longrightarrow> (\<exists>day. map_of r (u ''rq'') = Some (JStr day) \<and>
          normalize_progress_date (ce_calendar env) (Some (JStr day)) = Inr day)))"
proof -
  obtain w key raw sn where w: "w \<in> set (candidate_windows env (rc_today env cs) question)"
    and line: "build_key (ce_std env) (ce_codec env) (ce_cache env) RESULT_CACHE_DOMAIN tenant OWNER_SCOPE_SIGNATURE
      (key_params op extra w) = Inr key" "redis_live (snd cs) key = Some raw"
    and usable: "usable_snapshot env op (key_params op extra w) w raw = Some sn"
    and hit: "hit = hit_of (ce_codec env) sn w"
    using read_candidates_hit [OF assms(2)] assms(1) unfolding rc_read_def by blast
  have dec: "decode_result_set (ce_lower env) (ce_codec env) raw = Inr sn"
    and reason: "snapshot_rejection_reason sn op (key_params op extra w) w = None"
    and rows: "\<not> rows_rejected env op (sn_rows sn)"
    using usable by (simp_all add: usable_snapshot_Some)
  note table = decode_result_set_Inr [OF dec]
  have envelope: "map_of (sn_payload sn) (u ''api'') = Some (JStr op)"
      "json_opt_eq (map_of (sn_payload sn) (u ''filters'')) (JDict (key_params op extra w))"
      "json_opt_eq (map_of (sn_payload sn) (u ''window'')) (window_json w)"
      "\<forall>g. map_of (sn_payload sn) (u ''groupby'') = Some g \<longrightarrow> \<not> json_truthy g"
      "op = PROGRESS_OPERATION \<and> sn_rows sn \<noteq> [] \<longrightarrow> u ''rq'' \<in> set (sn_columns sn)"
    using reason by (auto simp: snapshot_rejection_reason_def Let_def split: if_splits)
  have "(\<forall>v \<in> snd ` set r. \<exists>s. v = JStr s)" if "r \<in> set (sn_rows sn)" for r
    using table(2) that decodes_to_row unfolding stored_table_def list_all2_conv_all_nth in_set_conv_nth by metis
  then have cells: "\<forall>r \<in> set (ch_rows hit). (\<forall>v \<in> snd ` set r. \<exists>s. v = JStr s) \<and>
       (\<forall>k \<in> row_keys r. ce_lower env k \<notin> FORBIDDEN_ROW_FIELDS) \<and>
       (op = PROGRESS_OPERATION \<longrightarrow> (\<exists>day. map_of r (u ''rq'') = Some (JStr day) \<and>
          normalize_progress_date (ce_calendar env) (Some (JStr day)) = Inr day))"
    using accepted_row [OF rows] unfolding hit hit_of_def by simp
  show ?thesis
  proof (intro conjI cells)
    show "fst (ch_window hit) \<le> fst question" "snd question \<le> snd (ch_window hit)"
      using candidate_covers [OF w] by (simp_all add: hit hit_of_def)
  qed (intro exI [of _ key] exI [of _ raw] exI [of _ "sn_payload sn"] exI [of _ "sn_columns sn"] exI [of _ "sn_footer sn"],
      use line table envelope in \<open>simp add: hit hit_of_def\<close>)
qed

section \<open>Publishing and reading back\<close>

lemma all_strings_JStr [simp]: "all_strings (map JStr xs) = Some xs"
  by (simp add: all_strings_def list_all_iff comp_def)

text \<open>A stored row as it comes back: the columns of the table, null and absent cells empty.\<close>

definition cell_text :: "json_codec \<Rightarrow> row \<Rightarrow> pystr \<Rightarrow> pystr" where
  "cell_text jc r c = (case map_of r c of None \<Rightarrow> [] | Some v \<Rightarrow> if v = JNull then [] else json_str jc v)"

definition normal_row :: "json_codec \<Rightarrow> pystr list \<Rightarrow> row \<Rightarrow> row" where
  "normal_row jc columns r = map (\<lambda>c. (c, JStr (cell_text jc r c))) columns"

text \<open>Rows that JSON can hold: distinct keys and scalar cells.\<close>

definition plain_row :: "row \<Rightarrow> bool" where
  "plain_row r \<longleftrightarrow> distinct (map fst r) \<and> list_all (\<lambda>(k, v). is_scalar v) r"

lemma scalar_wf: "is_scalar v \<Longrightarrow> json_wf v"
  by (cases v) (simp_all add: is_scalar_def)

lemma plain_row_cell: "plain_row r \<Longrightarrow> map_of r c = Some v \<Longrightarrow> is_scalar v"
  by (auto simp: plain_row_def list_all_iff dest!: map_of_SomeD)

lemma decode_encoded_row:
  assumes "plain_row r"
  shows "decode_row jc columns (JList (map (\<lambda>c. case map_of r c of Some v \<Rightarrow> v | None \<Rightarrow> JStr []) columns)) =
    Inr (normal_row jc columns r)"
proof -
  have scalar: "is_scalar (case map_of r c of Some v \<Rightarrow> v | None \<Rightarrow> JStr [])" for c
    using plain_row_cell [OF assms] by (cases "map_of r c") (simp_all add: is_scalar_def)
  show ?thesis
    by (auto simp: decode_row_def list_all_iff scalar normal_row_def zip_map2 zip_same_conv_map cell_text_def
        split: option.splits)
qed

lemma json_wf_dict: "json_wf (JDict d) \<longleftrightarrow> distinct (map fst d) \<and> (\<forall>v \<in> snd ` set d. json_wf v)"
  by (auto simp: list_all_iff)

lemma json_wf_list: "json_wf (JList xs) \<longleftrightarrow> (\<forall>v \<in> set xs. json_wf v)"
  by (auto simp: list_all_iff)

definition payload_of ::
  "pystr \<Rightarrow> row list \<Rightarrow> footer option \<Rightarrow> window \<Rightarrow> jdict \<Rightarrow> pystr list \<Rightarrow> pystr \<Rightarrow> pystr \<Rightarrow> jdict" where
  "payload_of op rows footer window filters groupby generated_at source =
     [(u ''v'', JInt RESULT_SET_VERSION), (u ''api'', JStr op),
      (u ''window'', window_json window), (u ''filters'', JDict filters),
      (u ''groupby'', strings_json (sort groupby)), (u ''derived'', strings_json []),
      (u ''columns'', strings_json (column_names rows)),
      (u ''rows'', JList (map (\<lambda>r. JList (map (\<lambda>c. case map_of r c of Some v \<Rightarrow> v | None \<Rightarrow> JStr [])
         (column_names rows))) rows)),
      (u ''footer'', footer_json footer), (u ''generated_at'', JStr generated_at), (u ''source'', JStr source)]"

lemma encode_payload:
  "encode_result_set jc op rows footer window filters [] generated_at source =
     map_option (\<lambda>g. jc_dumps jc (JDict (payload_of op rows footer window filters g generated_at source)))
       (iter_strs jc (map_of filters (u ''groupby'')))"
  by (simp add: encode_result_set_def payload_of_def Let_def)

lemma strings_json_wf [simp]: "json_wf (strings_json xs)"
  unfolding strings_json_def json_wf_list by auto

lemma payload_wf:
  assumes "\<forall>r \<in> set rows. plain_row r" and "json_wf (JDict filters)"
    and "distinct (map fst (case footer of Some f \<Rightarrow> f | None \<Rightarrow> []))"
  shows "json_wf (JDict (payload_of op rows footer window filters g generated_at source))"
proof -
  have "json_wf (JList (map (\<lambda>r. JList (map (\<lambda>c. case map_of r c of Some v \<Rightarrow> v | None \<Rightarrow> JStr [])
      (column_names rows))) rows))"
    unfolding json_wf_list
    using assms(1) plain_row_cell scalar_wf by (auto simp: json_wf_list simp del: json_wf.simps(6) split: option.splits)
  moreover have "json_wf (footer_json footer)"
    using assms(3) unfolding footer_json_def json_wf_dict by (auto simp: comp_def map_prod_def case_prod_beta split: option.splits)
  moreover have "json_wf (window_json window)" by (simp add: window_json_def)
  ultimately show ?thesis
    using assms(2) unfolding payload_of_def by (subst json_wf_dict) (simp del: json_wf.simps(6,7))
qed

lemma zip_footer: "zip (map fst (map (map_prod id JStr) f)) (map snd f) = f"
  by (induction f) auto

lemma all_strings_footer: "all_strings (map snd (map (map_prod id JStr) f)) = Some (map snd f)"
proof -
  have "map snd (map (map_prod id JStr) f) = map JStr (map snd f)" by (induction f) auto
  then show ?thesis by (simp only: all_strings_JStr)
qed

lemma decode_payload_of:
  assumes rows: "\<forall>r \<in> set rows. plain_row r" "\<forall>r \<in> set rows. \<not> has_credential_fields lower (map fst r)"
    and footer: "\<not> has_credential_fields lower (map fst (case footer of Some f \<Rightarrow> f | None \<Rightarrow> []))"
  shows "decode_payload lower jc (payload_of op rows footer window filters g generated_at source) =
    Inr \<lparr>sn_payload = payload_of op rows footer window filters g generated_at source,
      sn_columns = column_names rows, sn_footer = (case footer of Some f \<Rightarrow> f | None \<Rightarrow> []),
      sn_rows = map (normal_row jc (column_names rows)) rows\<rparr>"
proof -
  let ?p = "payload_of op rows footer window filters g generated_at source"
  let ?f = "case footer of Some f \<Rightarrow> f | None \<Rightarrow> []"
  have names: "distinct (column_names rows)" "\<not> has_credential_fields lower (column_names rows)"
    using rows(2) by (auto simp: column_names_def has_credential_fields_def)
  have keys: "map fst (map (map_prod id JStr) ?f) = map fst ?f" by (induction ?f) auto
  have cells: "rmap (decode_row jc (column_names rows)) (map (\<lambda>r. JList (map (\<lambda>c. case map_of r c of Some v \<Rightarrow> v
      | None \<Rightarrow> JStr []) (column_names rows))) rows') = Inr (map (normal_row jc (column_names rows)) rows')"
    if "set rows' \<subseteq> set rows" for rows'
    using that rows(1) by (induction rows') (simp_all add: decode_encoded_row)
  have "decode_rows lower jc ?p (column_names rows) (map (\<lambda>r. JList (map (\<lambda>c. case map_of r c of Some v \<Rightarrow> v
      | None \<Rightarrow> JStr []) (column_names rows))) rows) (map (map_prod id JStr) ?f) (map JStr []) =
      Inr \<lparr>sn_payload = ?p, sn_columns = column_names rows, sn_footer = ?f,
        sn_rows = map (normal_row jc (column_names rows)) rows\<rparr>"
    unfolding decode_rows_def all_strings_footer zip_footer keys cells [OF order_refl]
    using footer by (simp add: all_strings_def zip_map_fst_snd)
  moreover have "footer_json footer = JDict (map (map_prod id JStr) ?f)"
    by (simp add: footer_json_def split: option.splits)
  ultimately have "decode_columns lower jc ?p (map JStr (column_names rows)) (map (\<lambda>r. JList (map (\<lambda>c.
      case map_of r c of Some v \<Rightarrow> v | None \<Rightarrow> JStr []) (column_names rows))) rows) =
      Inr \<lparr>sn_payload = ?p, sn_columns = column_names rows, sn_footer = ?f,
        sn_rows = map (normal_row jc (column_names rows)) rows\<rparr>"
    unfolding decode_columns_def using names by (simp add: payload_of_def strings_json_def)
  then show ?thesis
    by (simp add: decode_payload_def payload_of_def strings_json_def json_opt_eq_def)
qed

definition plain_dict :: "jdict \<Rightarrow> bool" where
  "plain_dict d \<longleftrightarrow> distinct (map fst d) \<and> (\<forall>v \<in> snd ` set d. json_wf v)"

text \<open>Request parameters as recipes have them: a dictionary without a \<open>groupby\<close> entry (the code
  would take it for a grouped snapshot).\<close>

definition plain_params :: "jdict \<Rightarrow> bool" where
  "plain_params extra \<longleftrightarrow> plain_dict extra \<and> u ''groupby'' \<notin> fst ` set extra"

lemma plain_dict_update: "plain_dict d \<Longrightarrow> json_wf v \<Longrightarrow> plain_dict (AList.update k v d)"
  using set_update_subset [of k v d] by (fastforce simp: plain_dict_def)

lemma plain_dict_fold:
  "plain_dict d \<Longrightarrow> (\<And>x d. x \<in> set xs \<Longrightarrow> plain_dict d \<Longrightarrow> plain_dict (f x d)) \<Longrightarrow> plain_dict (fold f xs d)"
  by (induction xs arbitrary: d) auto

lemma keys_fold_subset:
  "(\<And>x d. x \<in> set xs \<Longrightarrow> fst ` set (f x d) \<subseteq> K \<union> fst ` set d) \<Longrightarrow> fst ` set (fold f xs d) \<subseteq> K \<union> fst ` set d"
proof (induction xs arbitrary: d)
  case (Cons x xs)
  have "fst ` set (fold f xs (f x d)) \<subseteq> K \<union> fst ` set (f x d)" using Cons by simp
  then show ?case using Cons.prems [of x d] by auto
qed simp

lemma normalize_value_wf: "json_wf v \<Longrightarrow> json_wf (normalize_value k v)"
  by (cases v) (simp_all add: normalize_value_def)

lemma normalize_params_plain:
  assumes "plain_dict extra"
  shows "plain_dict (normalize_params extra w)"
    and "fst ` set (normalize_params extra w) \<subseteq> fst ` set extra \<union> {u ''dates'', u ''datee''}"
proof -
  have wf: "json_wf (case map_of extra k of Some v \<Rightarrow> v | None \<Rightarrow> JNull)" for k
    using assms by (force simp: plain_dict_def split: option.splits dest: map_of_SomeD)
  show "plain_dict (normalize_params extra w)"
    unfolding normalize_params_def
    by (rule plain_dict_fold) (auto simp: plain_dict_def [of "[_, _]"] wf normalize_value_wf intro: plain_dict_update)
  show "fst ` set (normalize_params extra w) \<subseteq> fst ` set extra \<union> {u ''dates'', u ''datee''}"
    unfolding normalize_params_def
    by (rule order_trans [OF keys_fold_subset [where K = "fst ` set extra"]])
      (auto simp: AList.dom_update)
qed

lemma key_params_plain:
  assumes "plain_params extra"
  shows "json_wf (JDict (key_params op extra w))" and "map_of (key_params op extra w) (u ''groupby'') = None"
proof -
  note n = normalize_params_plain [OF assms [unfolded plain_params_def, THEN conjunct1], of w]
  have "plain_dict (key_params op extra w)"
    unfolding key_params_def using n(1)
    by (intro plain_dict_fold) (auto simp: plain_dict_def [of "[_, _]"] plain_dict_def [of "normalize_params _ _"]
        intro!: plain_dict_update)
  then show "json_wf (JDict (key_params op extra w))"
    unfolding json_wf_dict by (simp add: plain_dict_def)
  have "fst ` set (key_params op extra w) \<subseteq>
      fst ` set (normalize_params extra w) \<union> fst ` set [(u ''api'', JStr op), (u ''grain'', JStr DETAIL_GRAIN)]"
    unfolding key_params_def by (rule keys_fold_subset) (simp only: split_paired_all prod.case AList.dom_update, force)
  then have "fst ` set (key_params op extra w) \<subseteq> fst ` set extra \<union> set (map u [''dates'', ''datee'', ''api'', ''grain''])"
    using n(2) by simp blast
  moreover have "u ''groupby'' \<notin> fst ` set extra \<union> set (map u [''dates'', ''datee'', ''api'', ''grain''])"
    using assms by (simp add: plain_params_def)
  ultimately have "u ''groupby'' \<notin> fst ` set (key_params op extra w)" by (rule contra_subsetD)
  then show "map_of (key_params op extra w) (u ''groupby'') = None"
    by (simp add: map_of_eq_None_iff)
qed

text \<open>What is documented of ISO dates (years 1 to 9999): ten characters, and they parse back.\<close>

definition calendar_laws :: "calendar \<Rightarrow> bool" where
  "calendar_laws cal \<longleftrightarrow> (\<forall>s d. cal_parse cal s = Some d \<or> cal_datetime_date cal s = Some d \<longrightarrow>
     length (cal_iso cal d) = 10 \<and> cal_parse cal (cal_iso cal d) = Some d)"

lemma normalize_again:
  assumes "calendar_laws cal" and "normalize_progress_date cal v = Inr day"
  shows "normalize_progress_date cal (Some (JStr day)) = Inr day"
proof -
  obtain s d where "cal_parse cal s = Some d \<or> cal_datetime_date cal s = Some d" and "day = cal_iso cal d"
    using assms(2) by (auto simp: normalize_progress_date_def Let_def split: option.splits json.splits if_splits)
  then show ?thesis using assms(1) unfolding calendar_laws_def normalize_progress_date_def Let_def by auto
qed

lemma derive_row_plain:
  assumes "derive_row jc cal r = Inr d" and "distinct (map fst r)"
  shows "plain_row d" and "fst ` set d \<subseteq> fst ` set r"
    and "\<exists>day. map_of d (u ''rq'') = Some (JStr day) \<and> normalize_progress_date cal (map_of r (u ''rq'')) = Inr day"
proof -
  obtain n day where n: "rmap (\<lambda>(k, v). rbind (scalar jc v) (\<lambda>s. Inr (k, JStr s))) r = Inr n"
    and day: "normalize_progress_date cal (map_of r (u ''rq'')) = Inr day"
    and d: "d = AList.delete (u ''dh_date'') (AList.update (u ''rq'') (JStr day) n)"
    using assms(1) by (auto simp: derive_row_def result_simps)
  have pairs: "list_all2 (\<lambda>x y. fst y = fst x \<and> (\<exists>s. snd y = JStr s)) r n"
    using n unfolding rmap_Inr by (rule list.rel_mono_strong) (auto simp: result_simps)
  then have keys: "map fst n = map fst r"
    by (induction rule: list_all2_induct) auto
  have cells: "\<forall>x \<in> set n. \<exists>s. snd x = JStr s"
    using pairs list_all2_member(1) by fastforce
  have rq: "u ''rq'' \<in> fst ` set r"
    using day by (cases "map_of r (u ''rq'')") (auto simp: normalize_progress_date_def Let_def dest: map_of_SomeD
        intro: rev_image_eqI)
  have "fst ` set n = fst ` set r" using keys by (metis set_map)
  then have "fst ` set (AList.update (u ''rq'') (JStr day) n) = fst ` set r"
    using rq AList.dom_update [of "u ''rq''" "JStr day" n] by (simp only: insert_is_Un [symmetric] insert_absorb)
  then show "fst ` set d \<subseteq> fst ` set r"
    using AList.dom_delete_subset [of "u ''dh_date''" "AList.update (u ''rq'') (JStr day) n"] d by metis
  have "distinct (map fst d)"
    using assms(2) keys unfolding d by (simp add: AList.distinct_update AList.distinct_delete)
  moreover have "\<forall>x \<in> set d. \<exists>s. snd x = JStr s"
  proof
    fix x assume "x \<in> set d"
    then have "x \<in> set (AList.update (u ''rq'') (JStr day) n)" unfolding d AList.delete_eq by simp
    then have "x = (u ''rq'', JStr day) \<or> x \<in> set n"
      using set_update_subset [of "u ''rq''" "JStr day" n] by blast
    then show "\<exists>s. snd x = JStr s" using cells by auto
  qed
  ultimately show "plain_row d"
    unfolding plain_row_def list_all_iff by (fastforce simp: is_scalar_def)
  show "\<exists>day. map_of d (u ''rq'') = Some (JStr day) \<and> normalize_progress_date cal (map_of r (u ''rq'')) = Inr day"
    using day by (simp add: d AList.delete_conv' dict_simps)
qed

lemma not_credential_not_forbidden:
  assumes "\<not> has_credential_fields lower keys" and "k \<in> set keys"
  shows "lower k \<notin> FORBIDDEN_ROW_FIELDS"
proof
  assume f: "lower k \<in> FORBIDDEN_ROW_FIELDS"
  then have "\<not> total_key (lower k)"
    by (auto simp: FORBIDDEN_ROW_FIELDS_def total_key_def TOTAL_def suffix_def u_def Cons_eq_append_conv)
  then show False using assms f by (auto simp: has_credential_fields_def)
qed

lemma normal_row_cell: "map_of (normal_row jc columns r) c =
    (if c \<in> set columns then Some (JStr (cell_text jc r c)) else None)"
  by (induction columns) (auto simp: normal_row_def)

text \<open>A published payload is usable under its own key.\<close>

lemma published_usable:
  fixes op :: pystr and stored :: "row list"
  defines "columns \<equiv> column_names stored"
  assumes rows: "\<forall>r \<in> set stored. plain_row r"
      "\<forall>r \<in> set stored. \<not> has_credential_fields (ce_lower env) (map fst r)"
    and footer: "\<not> has_credential_fields (ce_lower env) (map fst (case footer of Some f \<Rightarrow> f | None \<Rightarrow> []))"
      "distinct (map fst (case footer of Some f \<Rightarrow> f | None \<Rightarrow> []))"
    and codec: "codec_roundtrip (ce_codec env)" and params: "plain_params extra"
    and progress: "op = PROGRESS_OPERATION \<Longrightarrow> \<forall>r \<in> set stored. \<exists>day. map_of r (u ''rq'') = Some (JStr day) \<and>
      normalize_progress_date (ce_calendar env) (Some (JStr day)) = Inr day"
    and payload: "encode_result_set (ce_codec env) op stored footer window (key_params op extra window) []
      generated_at source = Some raw"
  shows "\<exists>sn. usable_snapshot env op (key_params op extra window) window raw = Some sn \<and>
    sn_rows sn = map (normal_row (ce_codec env) columns) stored \<and>
    sn_footer sn = (case footer of Some f \<Rightarrow> f | None \<Rightarrow> []) \<and>
    map_of (sn_payload sn) (u ''source'') = Some (JStr source) \<and>
    map_of (sn_payload sn) (u ''generated_at'') = Some (JStr generated_at)"
proof -
  note kp = key_params_plain [OF params, of op window]
  let ?p = "payload_of op stored footer window (key_params op extra window) [] generated_at source"
  let ?sn = "\<lparr>sn_payload = ?p, sn_columns = columns, sn_footer = (case footer of Some f \<Rightarrow> f | None \<Rightarrow> []),
    sn_rows = map (normal_row (ce_codec env) columns) stored\<rparr>"
  have raw: "raw = jc_dumps (ce_codec env) (JDict ?p)"
    using payload kp(2) by (simp add: encode_payload iter_strs_def)
  have "jc_loads (ce_codec env) raw = Some (JDict ?p)"
    unfolding raw using codec payload_wf [OF rows(1) kp(1) footer(2)] unfolding codec_roundtrip_def by blast
  then have dec: "decode_result_set (ce_lower env) (ce_codec env) raw = Inr ?sn"
    unfolding decode_result_set_def columns_def
    by (simp only: option.case json.case decode_payload_of [OF rows footer(1)])
  have in_columns: "k \<in> set columns" if "r \<in> set stored" "map_of r k = Some v" for r k v
    using that by (force simp: columns_def column_names_def dest: map_of_SomeD)
  have reason: "snapshot_rejection_reason ?sn op (key_params op extra window) window = None"
  proof -
    have "op = PROGRESS_OPERATION \<longrightarrow> stored = [] \<or> u ''rq'' \<in> set columns"
      using progress in_columns by (metis last_in_set)
    moreover have "\<not> json_truthy (strings_json (sort []))"
      by (simp add: json_truthy_def strings_json_def)
    ultimately show ?thesis
      by (simp add: snapshot_rejection_reason_def Let_def payload_of_def json_opt_eq_def)
  qed
  have creds: "\<not> has_credential_fields (ce_lower env) columns"
    using rows(2) by (auto simp: columns_def column_names_def has_credential_fields_def)
  have cell: "op = PROGRESS_OPERATION \<Longrightarrow> r \<in> set stored \<Longrightarrow> \<exists>day.
      map_of (normal_row (ce_codec env) columns r) (u ''rq'') = Some (JStr day) \<and>
      normalize_progress_date (ce_calendar env) (Some (JStr day)) = Inr day" for r
    using progress in_columns [of r "u ''rq''"] by (fastforce simp: normal_row_cell cell_text_def)
  have keys: "row_keys (normal_row jc columns r) = set columns" for jc r
    by (force simp: row_keys_def normal_row_def)
  have "\<not> rows_rejected env op (map (normal_row (ce_codec env) columns) stored)"
    using cell not_credential_not_forbidden [OF creds] unfolding rows_rejected_def
    by (fastforce simp: keys)
  then have "usable_snapshot env op (key_params op extra window) window raw = Some ?sn"
    using dec reason by (simp add: usable_snapshot_Some)
  then show ?thesis by (intro exI [of _ ?sn]) (simp add: payload_of_def)
qed

lemma redis_cache_get:
  assumes "build_key std jc c d t f p = Inr key" and "rd_up s"
  shows "\<exists>l stats'. cache_get std jc c redis_store d t f p (stats, s) = (Inr l, (stats', s)) \<and>
    lk_value l = redis_live s key"
  using assms by (auto simp: cache_get_def redis_store_def redis_get_def redis_call_def split: option.splits)

lemma owner_key: "\<exists>key. build_key std jc c RESULT_CACHE_DOMAIN t f p = Inr key"
  by (simp add: build_key_def RESULT_CACHE_DOMAIN_def)

text \<open>A usable line among the candidates is found, unless an earlier candidate is.\<close>

lemma read_reaches:
  assumes store: "ce_store env = redis_store" "rd_up s" and w: "w \<in> set ws"
    and key: "build_key (ce_std env) (ce_codec env) (ce_cache env) RESULT_CACHE_DOMAIN tenant OWNER_SCOPE_SIGNATURE
      (key_params op extra w) = Inr key"
    and line: "redis_live s key = Some raw"
    and usable: "usable_snapshot env op (key_params op extra w) w raw = Some sn"
  shows "\<exists>hit cs'. read_candidates env tenant op extra ws (stats, s) = (Some hit, cs') \<and>
    (ch_window hit = w \<longrightarrow> hit = hit_of (ce_codec env) sn w)"
  using w
proof (induction ws arbitrary: stats)
  case (Cons x ws)
  obtain kx where kx: "build_key (ce_std env) (ce_codec env) (ce_cache env) RESULT_CACHE_DOMAIN tenant
      OWNER_SCOPE_SIGNATURE (key_params op extra x) = Inr kx"
    using owner_key by blast
  obtain l stats' where get: "cache_get (ce_std env) (ce_codec env) (ce_cache env) (ce_store env)
      RESULT_CACHE_DOMAIN tenant OWNER_SCOPE_SIGNATURE (key_params op extra x) (stats, s) = (Inr l, (stats', s))"
    "lk_value l = redis_live s kx"
    using redis_cache_get [OF kx store(2), of stats] unfolding store(1) by blast
  let ?found = "case redis_live s kx of None \<Rightarrow> None | Some raw \<Rightarrow> usable_snapshot env op (key_params op extra x) x raw"
  have step: "read_candidates env tenant op extra (x # ws) (stats, s) =
      (case ?found of None \<Rightarrow> read_candidates env tenant op extra ws (stats', s)
       | Some sn' \<Rightarrow> (Some (hit_of (ce_codec env) sn' x), (stats', s)))"
    using get by (simp split: option.splits)
  show ?case
  proof (cases "x = w")
    case True
    then have found: "?found = Some sn" using key kx line usable by simp
    show ?thesis unfolding step found using True by simp
  next
    case False
    then have "w \<in> set ws" using Cons.prems by simp
    then show ?thesis
      using Cons.IH [of stats'] False unfolding step by (cases ?found) (auto simp: hit_of_def)
  qed
qed simp

lemma credential_fields_mono:
  "\<not> has_credential_fields lower keys' \<Longrightarrow> set keys \<subseteq> set keys' \<Longrightarrow> \<not> has_credential_fields lower keys"
  unfolding has_credential_fields_def by blast

lemma rc_write_Published:
  assumes "rc_write env tenant op rows footer extra window source False cs = (Published True, cs')"
  shows "\<exists>stored. (if op = PROGRESS_OPERATION then derive_progress_rows (ce_codec env) (ce_calendar env) rows
      else Inr rows) = Inr stored \<and> \<not> forbidden_content (ce_lower env) rows footer extra \<and>
    rc_put env tenant op stored footer extra window source False cs = (Published True, cs')"
  using assms by (auto simp: rc_write_def split: if_splits sum.splits)

lemma rc_put_Published:
  assumes "rc_put env tenant op stored footer extra window source False cs = (Published True, cs')"
    and "ce_store env = redis_store"
  shows "\<exists>raw key. encode_result_set (ce_codec env) op stored footer window (key_params op extra window) []
      (current_timestamp env cs) source = Some raw \<and>
    build_key (ce_std env) (ce_codec env) (ce_cache env) RESULT_CACHE_DOMAIN tenant OWNER_SCOPE_SIGNATURE
      (key_params op extra window) = Inr key \<and>
    (\<exists>ttl. 0 < ttl \<and> (publication_ttl env window cs \<noteq> 0 \<longrightarrow> ttl = publication_ttl env window cs) \<and>
      snd cs' = (snd cs)\<lparr>rd_data := (rd_data (snd cs))(key \<mapsto> (raw, rd_now (snd cs) + ttl * us_second))\<rparr>)"
proof -
  obtain key where key: "build_key (ce_std env) (ce_codec env) (ce_cache env) RESULT_CACHE_DOMAIN tenant
      OWNER_SCOPE_SIGNATURE (key_params op extra window) = Inr key" using owner_key by blast
  obtain raw where raw: "encode_result_set (ce_codec env) op stored footer window (key_params op extra window) []
      (current_timestamp env cs) source = Some raw"
    using assms(1) by (auto simp: rc_put_def Let_def split: option.splits)
  have put: "cache_put (ce_std env) (ce_codec env) (ce_cache env) redis_store RESULT_CACHE_DOMAIN tenant
      OWNER_SCOPE_SIGNATURE (key_params op extra window) raw (Some (publication_ttl env window cs)) cs = (Inr True, cs')"
    using assms raw by (auto simp: rc_put_def Let_def split: prod.splits sum.splits)
  obtain stats s where cs: "cs = (stats, s)" by fastforce
  have "\<exists>ttl. 0 < ttl \<and> (publication_ttl env window cs \<noteq> 0 \<longrightarrow> ttl = publication_ttl env window cs) \<and>
      snd cs' = s\<lparr>rd_data := (rd_data s)(key \<mapsto> (raw, rd_now s + ttl * us_second))\<rparr>"
    using put key unfolding cs
    by (auto simp: cache_put_def redis_store_def redis_put_def redis_call_def not_le
        split: sum.splits if_splits prod.splits)
  then show ?thesis using raw key cs by auto
qed

text \<open>
  \<^bold>\<open>C23\<close>.  What is published is read back.  After a publication that reported success, and
  until its retention has passed, a read for the same window hits; and unless an older snapshot that
  covers the window answers first, it returns exactly the published table: every row in order, every
  cell as text under the same columns (null and missing cells empty), progress rows with normalised
  dates, with the footer and the source that were published.
\<close>

theorem published_snapshot_read_back:
  assumes "codec_roundtrip (ce_codec env)" and "calendar_laws (ce_calendar env)"
    and "ce_store env = redis_store" and "plain_params extra" and "\<forall>r \<in> set rows. plain_row r"
    and "distinct (map fst (case footer of Some f \<Rightarrow> f | None \<Rightarrow> []))"
    and "rc_write env tenant op rows footer extra window source False cs = (Published True, cs')"
    and "int dt < publication_ttl env window cs * us_second"
  shows "\<exists>hit cs''. rc_read env tenant op extra window (fst cs', redis_elapse (dt, True) (snd cs')) = (Some hit, cs'') \<and>
    (ch_window hit = window \<longrightarrow> (\<exists>stored.
       (if op = PROGRESS_OPERATION then derive_progress_rows (ce_codec env) (ce_calendar env) rows
        else Inr rows) = Inr stored \<and>
       ch_rows hit = map (normal_row (ce_codec env) (column_names stored)) stored \<and>
       (case ch_footer hit of Some f \<Rightarrow> f | None \<Rightarrow> []) = (case footer of Some f \<Rightarrow> f | None \<Rightarrow> []) \<and>
       ch_source hit = source))"
proof -
  obtain stored where stored: "(if op = PROGRESS_OPERATION
      then derive_progress_rows (ce_codec env) (ce_calendar env) rows else Inr rows) = Inr stored"
    and clean: "\<not> forbidden_content (ce_lower env) rows footer extra"
    and put: "rc_put env tenant op stored footer extra window source False cs = (Published True, cs')"
    using rc_write_Published [OF assms(7)] by blast
  obtain raw key ttl where raw: "encode_result_set (ce_codec env) op stored footer window (key_params op extra window) []
      (current_timestamp env cs) source = Some raw"
    and key: "build_key (ce_std env) (ce_codec env) (ce_cache env) RESULT_CACHE_DOMAIN tenant OWNER_SCOPE_SIGNATURE
      (key_params op extra window) = Inr key"
    and ttl: "0 < ttl" "publication_ttl env window cs \<noteq> 0 \<longrightarrow> ttl = publication_ttl env window cs"
    and cs': "snd cs' = (snd cs)\<lparr>rd_data := (rd_data (snd cs))(key \<mapsto> (raw, rd_now (snd cs) + ttl * us_second))\<rparr>"
    using rc_put_Published [OF put assms(3)] by blast
  have stored_ok: "\<forall>r \<in> set stored. plain_row r \<and> \<not> has_credential_fields (ce_lower env) (map fst r) \<and>
      (op = PROGRESS_OPERATION \<longrightarrow> (\<exists>day. map_of r (u ''rq'') = Some (JStr day) \<and>
        normalize_progress_date (ce_calendar env) (Some (JStr day)) = Inr day))"
  proof (cases "op = PROGRESS_OPERATION")
    case True
    have all: "list_all2 (\<lambda>r d. derive_row (ce_codec env) (ce_calendar env) r = Inr d) rows stored"
      using stored True by (simp add: derive_progress_rows_def rmap_Inr)
    show ?thesis
    proof
      fix d assume "d \<in> set stored"
      then obtain r where r: "r \<in> set rows" "derive_row (ce_codec env) (ce_calendar env) r = Inr d"
        using list_all2_member(1) [OF all] by blast
      have dist: "distinct (map fst r)" using assms(5) r(1) by (simp add: plain_row_def)
      note d = derive_row_plain [OF r(2) dist]
      have "\<not> has_credential_fields (ce_lower env) (map fst r)"
        using clean r(1) unfolding forbidden_content_def by blast
      then have "\<not> has_credential_fields (ce_lower env) (map fst d)"
        by (rule credential_fields_mono) (use d(2) in simp)
      then show "plain_row d \<and> \<not> has_credential_fields (ce_lower env) (map fst d) \<and>
          (op = PROGRESS_OPERATION \<longrightarrow> (\<exists>day. map_of d (u ''rq'') = Some (JStr day) \<and>
            normalize_progress_date (ce_calendar env) (Some (JStr day)) = Inr day))"
        using d(1,3) normalize_again [OF assms(2)] by blast
    qed
  next
    case False
    then show ?thesis using stored assms(5) clean by (auto simp: forbidden_content_def)
  qed
  have "\<not> has_credential_fields (ce_lower env) (map fst (case footer of Some f \<Rightarrow> f | None \<Rightarrow> []))"
    using clean by (cases footer) (simp_all add: forbidden_content_def has_credential_fields_def)
  then obtain sn where usable: "usable_snapshot env op (key_params op extra window) window raw = Some sn"
    and sn: "sn_rows sn = map (normal_row (ce_codec env) (column_names stored)) stored"
      "sn_footer sn = (case footer of Some f \<Rightarrow> f | None \<Rightarrow> [])"
      "map_of (sn_payload sn) (u ''source'') = Some (JStr source)"
    using published_usable [OF _ _ _ assms(6) assms(1,4) _ raw] stored_ok by blast
  let ?s = "redis_elapse (dt, True) (snd cs')"
  have line: "redis_live ?s key = Some raw"
  proof -
    have "ttl = publication_ttl env window cs" using ttl assms(8) by (cases "publication_ttl env window cs = 0") auto
    then show ?thesis using assms(8) by (simp add: cs' redis_elapse_def redis_live_def)
  qed
  have "rd_up ?s" by (simp add: redis_elapse_def)
  from read_reaches [OF assms(3) this question_is_candidate key line usable]
  obtain hit cs'' where "rc_read env tenant op extra window (fst cs', ?s) = (Some hit, cs'')"
    and "ch_window hit = window \<longrightarrow> hit = hit_of (ce_codec env) sn window"
    unfolding rc_read_def by blast
  moreover have "ch_rows (hit_of (ce_codec env) sn window) = map (normal_row (ce_codec env) (column_names stored)) stored"
    "(case ch_footer (hit_of (ce_codec env) sn window) of Some f \<Rightarrow> f | None \<Rightarrow> []) =
      (case footer of Some f \<Rightarrow> f | None \<Rightarrow> [])"
    "ch_source (hit_of (ce_codec env) sn window) = source"
    using sn by (simp_all add: hit_of_def)
  ultimately show ?thesis using stored by metis
qed

section \<open>A concrete environment\<close>

definition sample_env :: "result_cache_mode \<Rightarrow> (redis, int) cache_env" where
  "sample_env mode = \<lparr>ce_std = sample_std, ce_codec = index_codec, ce_calendar = ten_days, ce_decimals = whole_numbers,
     ce_lower = id, ce_cache = sample_cache, ce_store = redis_store, ce_mode = mode, ce_policy = DEFAULT_POLICY,
     ce_clock = rd_now, ce_zone = (\<lambda>_. 0)\<rparr>"

definition sample_window :: window where
  "sample_window = (cal_iso ten_days 2, cal_iso ten_days 4)"

definition payroll_row :: "string \<Rightarrow> row" where
  "payroll_row dept = [(u ''inputdate'', JStr (cal_iso ten_days 3)), (u ''dept'', JStr (u dept)),
     (u ''uid'', JStr (u ''e1'')), (u ''je'', JStr (u ''5''))]"

lemma nine_zeros: "replicate 9 (48 :: nat) = [48, 48, 48, 48, 48, 48, 48, 48, 48]"
  by (simp add: numeral_eq_Suc)

lemma ten_days_iso: "0 \<le> d \<Longrightarrow> d < 10 \<Longrightarrow> cal_parse ten_days (cal_iso ten_days d) = Some d"
  by (auto simp: ten_days_def nine_zeros)

lemma ten_days_laws: "calendar_laws ten_days"
proof -
  have "length (cal_iso ten_days d) = 10" for d by (simp add: ten_days_def)
  moreover have "cal_parse ten_days s = Some d \<Longrightarrow> 0 \<le> d \<and> d < 10" for s d
    by (auto simp: ten_days_def split: list.splits if_splits)
  moreover have "cal_datetime_date ten_days s = None" for s by (simp add: ten_days_def)
  ultimately show ?thesis using ten_days_iso unfolding calendar_laws_def by (metis option.distinct(1))
qed

lemma payroll_anchor [simp]:
  "validate_time_anchors index_codec ten_days [payroll_row a, payroll_row b] PAYROLL_OPERATION [] = Inr ()"
proof -
  have col: "time_anchor_column index_codec PAYROLL_OPERATION [] = u ''inputdate''"
    by (simp add: time_anchor_column_def PAYROLL_OPERATION_def PROGRESS_OPERATION_def str_eval)
  have "anchor_of index_codec (u ''inputdate'') (payroll_row x) = cal_iso ten_days 3" for x
    by (simp add: anchor_of_def payroll_row_def ten_days_def)
  then show ?thesis
    by (simp add: validate_time_anchors_def Let_def col ten_days_iso)
qed

lemma payroll_clean: "\<not> forbidden_content id [payroll_row a, payroll_row b] None []"
  by (simp add: forbidden_content_def has_credential_fields_def payroll_row_def FORBIDDEN_ROW_FIELDS_def
      total_key_def TOTAL_def suffix_def u_def Cons_eq_append_conv)

lemma sample_published: "\<exists>cs'. rc_write (sample_env CACHE_READWRITE) (u ''t'') PAYROLL_OPERATION
    [payroll_row ''a'', payroll_row ''b''] None [] sample_window (u ''query'') False (st, empty_redis) =
    (Published True, cs')"
proof -
  have op: "PAYROLL_OPERATION \<noteq> PROGRESS_OPERATION"
    by (simp add: PAYROLL_OPERATION_def PROGRESS_OPERATION_def)
  obtain key where key: "build_key sample_std index_codec sample_cache RESULT_CACHE_DOMAIN (u ''t'')
      OWNER_SCOPE_SIGNATURE (key_params PAYROLL_OPERATION [] sample_window) = Inr key" using owner_key by blast
  have "plain_params []" by (simp add: plain_params_def plain_dict_def)
  note kp = key_params_plain(2) [OF this, of PAYROLL_OPERATION sample_window]
  have "publication_ttl (sample_env CACHE_READWRITE) sample_window (st, empty_redis) \<in> {90, 86400}"
    by (simp add: publication_ttl_def sample_env_def DEFAULT_POLICY_def)
  then have ttl: "0 < publication_ttl (sample_env CACHE_READWRITE) sample_window (st, empty_redis)" by auto
  have "\<exists>cs'. rc_put (sample_env CACHE_READWRITE) (u ''t'') PAYROLL_OPERATION [payroll_row ''a'', payroll_row ''b'']
      None [] sample_window (u ''query'') False (st, empty_redis) = (Published True, cs')"
    using ttl key kp unfolding rc_put_def
    by (simp add: sample_env_def encode_payload iter_strs_def cache_put_def redis_store_def redis_put_def
        redis_call_def empty_redis_def)
  then show ?thesis
    using payroll_clean [of "''a''" "''b''"] op
    by (simp add: rc_write_def truthy_param_def footer_reconciles_def) (simp add: sample_env_def)
qed

text \<open>A read of this table, evaluated step by step.\<close>

lemma sample_readable: "\<exists>cs hit cs'. rc_read (sample_env CACHE_READWRITE) (u ''t'') PAYROLL_OPERATION [] sample_window cs =
    (Some hit, cs')"
proof -
  let ?env = "sample_env CACHE_READWRITE" and ?rows = "[payroll_row ''a'', payroll_row ''b'']"
  have params: "plain_params []" by (simp add: plain_params_def plain_dict_def)
  obtain key where key: "build_key (ce_std ?env) (ce_codec ?env) (ce_cache ?env) RESULT_CACHE_DOMAIN (u ''t'')
      OWNER_SCOPE_SIGNATURE (key_params PAYROLL_OPERATION [] sample_window) = Inr key" using owner_key by blast
  obtain raw where raw: "encode_result_set (ce_codec ?env) PAYROLL_OPERATION ?rows None sample_window
      (key_params PAYROLL_OPERATION [] sample_window) [] [] [] = Some raw"
    using key_params_plain(2) [OF params] by (simp add: encode_payload iter_strs_def)
  have op: "PAYROLL_OPERATION \<noteq> PROGRESS_OPERATION"
    by (simp add: PAYROLL_OPERATION_def PROGRESS_OPERATION_def)
  have "\<not> forbidden_content (ce_lower ?env) ?rows None []"
    using payroll_clean by (simp add: sample_env_def)
  then have "\<forall>r \<in> set ?rows. \<not> has_credential_fields (ce_lower ?env) (map fst r)"
    unfolding forbidden_content_def by blast
  then obtain sn where usable: "usable_snapshot ?env PAYROLL_OPERATION (key_params PAYROLL_OPERATION [] sample_window)
      sample_window raw = Some sn"
    using published_usable [OF _ _ _ _ _ params _ raw] op index_codec_roundtrip
    by (auto simp: plain_row_def payroll_row_def is_scalar_def has_credential_fields_def sample_env_def)
  define s where "s = empty_redis\<lparr>rd_data := [key \<mapsto> (raw, 1)]\<rparr>"
  have "redis_live s key = Some raw" by (simp add: s_def redis_live_def empty_redis_def)
  moreover have "ce_store ?env = redis_store" "rd_up s" by (simp_all add: sample_env_def s_def empty_redis_def)
  ultimately show ?thesis
    using read_reaches [OF _ _ question_is_candidate key _ usable] unfolding rc_read_def by blast
qed

lemma published_snapshot_read_back_witness:
  "\<exists>cs' hit cs''. rc_write (sample_env CACHE_READWRITE) (u ''t'') PAYROLL_OPERATION
    [payroll_row ''a'', payroll_row ''b''] None [] sample_window (u ''query'') False (no_stats, empty_redis) =
    (Published True, cs') \<and>
   rc_read (sample_env CACHE_READWRITE) (u ''t'') PAYROLL_OPERATION [] sample_window
     (fst cs', redis_elapse (0, True) (snd cs')) = (Some hit, cs'')"
proof -
  obtain cs' where w: "rc_write (sample_env CACHE_READWRITE) (u ''t'') PAYROLL_OPERATION
      [payroll_row ''a'', payroll_row ''b''] None [] sample_window (u ''query'') False (no_stats, empty_redis) =
      (Published True, cs')" using sample_published by blast
  have "plain_params []" by (simp add: plain_params_def plain_dict_def)
  moreover have "\<forall>r \<in> set [payroll_row ''a'', payroll_row ''b'']. plain_row r"
    by (simp add: plain_row_def payroll_row_def is_scalar_def)
  moreover have "int 0 < publication_ttl (sample_env CACHE_READWRITE) sample_window (no_stats, empty_redis) * us_second"
    by (simp add: publication_ttl_def sample_env_def DEFAULT_POLICY_def)
  ultimately show ?thesis
    using published_snapshot_read_back [OF _ _ _ _ _ _ w, of 0] w index_codec_roundtrip ten_days_laws
    by (simp add: sample_env_def) blast
qed

lemma accepted_snapshot_valid_witness:
  "\<exists>cs hit cs'. rc_read (sample_env CACHE_READWRITE) (u ''t'') PAYROLL_OPERATION [] sample_window cs = (Some hit, cs') \<and>
    fst (ch_window hit) \<le> fst sample_window \<and>
    (\<exists>raw payload columns footer. jc_loads index_codec raw = Some (JDict payload) \<and>
       stored_table id index_codec payload columns footer (ch_rows hit))"
proof -
  obtain cs hit cs' where r: "rc_read (sample_env CACHE_READWRITE) (u ''t'') PAYROLL_OPERATION [] sample_window cs =
      (Some hit, cs')" using sample_readable by blast
  have env: "ce_store (sample_env CACHE_READWRITE) = redis_store" "ce_codec (sample_env CACHE_READWRITE) = index_codec"
    "ce_lower (sample_env CACHE_READWRITE) = id" by (simp_all add: sample_env_def)
  note valid = accepted_snapshot_valid [OF r env(1), unfolded env(2,3)]
  have "fst (ch_window hit) \<le> fst sample_window" using valid by simp
  moreover have "\<exists>raw payload columns footer. jc_loads index_codec raw = Some (JDict payload) \<and>
      stored_table id index_codec payload columns footer (ch_rows hit)" using valid by blast
  ultimately show ?thesis using r by blast
qed

end
