(* ===== verification/CachedFetch.thy ===== *)
theory CachedFetch
  imports ResultCache Executor
begin

text \<open>
  \<open>ResultCacheExecutor\<close> (\<^verbatim>\<open>data_api/result_cache.py\<close>): fetches through the shared
  result cache, with the owner snapshot provider, the projection to the caller's view, the shadow
  baseline, the write gate and the pending shadow verdicts.

  The inner executor and the snapshot provider act on a world \<open>'w\<close>.  Waiting for the producer
  lock lets other tasks change the cache: this is the argument \<open>others\<close>.  Exceptions of the
  provider are its left result; a missing window start cannot occur (the time range is typed).  A
  result carries no identity here, so a remembered hit is named by a handle that is returned with the
  result.  Alerts, logs and traces are left out.
\<close>

record 'x resource_result =
  rs_rows :: "row list"
  rs_total :: int
  rs_pages_fetched :: int
  rs_complete :: bool
  rs_reason :: "pystr option"
  rs_footer :: "footer option"
  rs_cache_source :: "pystr option"
  rs_cache_generated_at :: "pystr option"
  rs_shadow_result :: 'x
  rs_source_call_count :: "int option"

text \<open>A result of the source has no shadow; a result of this executor may carry one.\<close>

type_synonym source_result = "unit resource_result"
type_synonym fetch_result = "source_result option resource_result"

definition with_shadow :: "source_result \<Rightarrow> source_result option \<Rightarrow> fetch_result" where
  "with_shadow r x = \<lparr>rs_rows = rs_rows r, rs_total = rs_total r, rs_pages_fetched = rs_pages_fetched r,
     rs_complete = rs_complete r, rs_reason = rs_reason r, rs_footer = rs_footer r,
     rs_cache_source = rs_cache_source r, rs_cache_generated_at = rs_cache_generated_at r,
     rs_shadow_result = x, rs_source_call_count = rs_source_call_count r\<rparr>"

record cached_request = execution_request +
  cr_result_validator :: "(source_result \<Rightarrow> bool) option"
  cr_allow_owner_snapshot :: bool

record 'w fetch_through =
  ft_validate_step :: "narrowed_filters \<Rightarrow> cached_request \<Rightarrow> active_scope option \<Rightarrow> mes_error + unit"
  ft_execute_full_step :: "narrowed_filters \<Rightarrow> cached_request \<Rightarrow> active_scope option \<Rightarrow> jdict option \<Rightarrow> 'w \<Rightarrow>
    (mes_error + source_result) \<times> 'w"

type_synonym 'w snapshot_provider =
  "tenant_id \<Rightarrow> pystr \<Rightarrow> window \<Rightarrow> jdict \<Rightarrow> 'w \<Rightarrow> (unit + source_result) \<times> 'w"

record served_hit =
  sh_tenant_id :: tenant_id
  sh_operation_id :: pystr
  sh_params :: jdict
  sh_hit :: cache_hit

record ('s, 'w) fetch_state =
  fs_cache :: "'s cache_state"
  fs_world :: 'w
  fs_served_hits :: "(nat, served_hit) dict"
  fs_next_handle :: nat

definition source_call_count :: "'x resource_result \<Rightarrow> int" where
  "source_call_count r = (case rs_source_call_count r of Some n \<Rightarrow> n | None \<Rightarrow> 1)"

definition none_if_empty :: "jdict \<Rightarrow> jdict option" where
  "none_if_empty params = (if params = [] then None else Some params)"

text \<open>The window of a request in the zone of the deployment.\<close>

definition request_window :: "('s, 'd) cache_env \<Rightarrow> cached_request \<Rightarrow> window" where
  "request_window env q = (case local_calendar_dates (ce_zone env) (fst (er_time_range q)) (snd (er_time_range q)) of
     (a, b) \<Rightarrow> (cal_iso (ce_calendar env) a, cal_iso (ce_calendar env) b))"

section \<open>Realtime\<close>

definition field_set :: "json \<Rightarrow> pystr set" where
  "field_set v = (case v of JList xs \<Rightarrow> {s. JStr s \<in> set xs} | JStr s \<Rightarrow> (\<lambda>c. [c]) ` set s
     | JDict d \<Rightarrow> fst ` set d | _ \<Rightarrow> {})"

definition needed_dimensions :: "narrowed_filters \<Rightarrow> cached_request \<Rightarrow> jdict \<Rightarrow> pystr set" where
  "needed_dimensions f q params =
     (if view_dept_ids f (er_request_role q) \<noteq> None then {u ''dept''} else {}) \<union>
     (if nf_employee_ids f \<noteq> None then {u ''uid''} else {}) \<union>
     (if nf_order_codes f \<noteq> None
      then {if u ''baohao'' \<in> field_set (groupby_value params) then u ''dh'' else u ''jhdh''} else {}) \<union>
     (if nf_style_codes f \<noteq> None then {u ''bbreed''} else {}) \<union>
     (if nf_plan_codes f \<noteq> None then {u ''jhdh''} else {}) \<union>
     (if nf_material_ids f \<noteq> None then {u ''userid''} else {}) \<union>
     (if nf_bed_codes f \<noteq> None then {u ''chuanghao''} else {})"

definition native_progress_has_filters :: "narrowed_filters \<Rightarrow> cached_request \<Rightarrow> jdict \<Rightarrow> bool" where
  "native_progress_has_filters f q params \<longleftrightarrow> \<not> json_truthy (groupby_value params) \<or>
     needed_dimensions f q params \<subseteq> field_set (groupby_value params)"

definition source_filters :: "bool \<Rightarrow> narrowed_filters \<Rightarrow> cached_request \<Rightarrow> jdict \<Rightarrow> narrowed_filters" where
  "source_filters native f q params =
     (if er_operation_id q = PROGRESS_OPERATION
      then if \<not> native \<and> groupby_mentions (u ''baohao'') params
        then f\<lparr>nf_material_ids := None, nf_order_codes := None\<rparr>
        else f\<lparr>nf_material_ids := None\<rparr>
      else f)"

text \<open>\<open>next(iter(codes))\<close> of a one-element set.\<close>

definition source_params :: "bool \<Rightarrow> narrowed_filters \<Rightarrow> cached_request \<Rightarrow> jdict \<Rightarrow> jdict" where
  "source_params native f q params =
     (if native then params
      else if er_operation_id q = PROGRESS_OPERATION \<and> groupby_mentions (u ''baohao'') params
      then (case nf_order_codes f of
          Some codes \<Rightarrow> if card codes = 1 then AList.update (u ''dh'') (JStr (the_elem codes)) (detail_params params)
            else detail_params params
        | None \<Rightarrow> detail_params params)
      else detail_params params)"

definition with_rows :: "('s, 'd) cache_env \<Rightarrow> source_result \<Rightarrow> row list \<Rightarrow> source_result" where
  "with_rows env fetched rows = fetched\<lparr>rs_rows := rows, rs_total := int (length rows),
     rs_footer := recomputed_footer (ce_codec env) (ce_decimals env) rows (rs_footer fetched)\<rparr>"

definition upstream_invalid :: "source_result \<Rightarrow> source_result" where
  "upstream_invalid r = r\<lparr>rs_complete := False, rs_reason := Some (u ''upstream_invalid'')\<rparr>"

definition project_fetched ::
  "('s, 'd) cache_env \<Rightarrow> narrowed_filters \<Rightarrow> cached_request \<Rightarrow> jdict \<Rightarrow> source_result \<Rightarrow> source_result" where
  "project_fetched env f q params fetched =
     (case project_rows (ce_codec env) (ce_calendar env) (ce_decimals env) (rs_rows fetched) f (er_operation_id q)
         (er_request_role q) params (request_window env q) of
        Inl _ \<Rightarrow> upstream_invalid (fetched\<lparr>rs_rows := [], rs_total := 0, rs_footer := None\<rparr>)
      | Inr rows \<Rightarrow>
          let projected = with_rows env fetched rows in
          if rs_complete fetched \<and> \<not> footer_reconciles (ce_codec env) (ce_decimals env)
            (cp_float_tolerance (ce_policy env)) (rs_rows fetched) (rs_footer fetched)
          then upstream_invalid projected
          else projected)"

definition fetch_detail ::
  "('s, 'd) cache_env \<Rightarrow> 'w fetch_through \<Rightarrow> narrowed_filters \<Rightarrow> cached_request \<Rightarrow> active_scope option \<Rightarrow> jdict \<Rightarrow>
   'w \<Rightarrow> (mes_error + source_result) \<times> 'w" where
  "fetch_detail env inner f q active params w =
     (case ft_execute_full_step inner (source_filters False f q params) q active
         (none_if_empty (source_params False f q params)) w of
        (outcome, w') \<Rightarrow> (rbind outcome (\<lambda>fetched. Inr (project_fetched env f q params fetched)), w'))"

text \<open>A grouped native answer that omits the date, or the bed, needs the detail instead.\<close>

definition native_unusable :: "narrowed_filters \<Rightarrow> jdict \<Rightarrow> row list \<Rightarrow> bool" where
  "native_unusable f params rows \<longleftrightarrow>
     (groupby_mentions (u ''dh'') params \<and> (\<exists>r \<in> set rows. case map_of r (u ''rq'') of
        Some v \<Rightarrow> \<not> json_truthy v | None \<Rightarrow> True)) \<or>
     (nf_bed_codes f \<noteq> None \<and> (\<exists>r \<in> set rows. map_of r (u ''chuanghao'') = None))"

definition native_view ::
  "('s, 'd) cache_env \<Rightarrow> narrowed_filters \<Rightarrow> cached_request \<Rightarrow> jdict \<Rightarrow> source_result \<Rightarrow> mes_error + source_result" where
  "native_view env f q params fetched =
     (case business_filtered_rows (ce_codec env)
         (scope_filtered_rows (ce_codec env) (rs_rows fetched) f (er_request_role q)) (er_operation_id q) f params of
        Inl _ \<Rightarrow> Inl (InvalidRequestError (u ''detail does not contain the requested bed dimension''))
      | Inr rows \<Rightarrow> if rows = rs_rows fetched then Inr fetched else Inr (with_rows env fetched rows))"

definition fetch_realtime ::
  "('s, 'd) cache_env \<Rightarrow> 'w fetch_through \<Rightarrow> narrowed_filters \<Rightarrow> cached_request \<Rightarrow> active_scope option \<Rightarrow> jdict \<Rightarrow>
   'w \<Rightarrow> (mes_error + source_result) \<times> 'w" where
  "fetch_realtime env inner f q active params w =
     (if \<not> cacheable_grain (er_operation_id q)
      then ft_execute_full_step inner f q active (none_if_empty params) w
      else if \<not> (er_operation_id q = PROGRESS_OPERATION \<and> native_progress_has_filters f q params)
      then fetch_detail env inner f q active params w
      else (case ft_execute_full_step inner (source_filters True f q params) q active
          (none_if_empty (source_params True f q params)) w of
         (Inl e, w') \<Rightarrow> (Inl e, w')
       | (Inr fetched, w') \<Rightarrow>
           if native_unusable f params (rs_rows fetched)
           then (case fetch_detail env inner f q active params w' of
               (outcome, w'') \<Rightarrow> (rbind outcome (\<lambda>detailed. Inr (detailed\<lparr>rs_source_call_count :=
                 Some (source_call_count fetched + source_call_count detailed)\<rparr>)), w''))
           else (native_view env f q params fetched, w')))"

section \<open>Snapshots, views and the write gate\<close>

definition fetch_snapshot ::
  "('s, 'd) cache_env \<Rightarrow> 'w snapshot_provider \<Rightarrow> narrowed_filters \<Rightarrow> cached_request \<Rightarrow> jdict \<Rightarrow> window \<Rightarrow>
   's cache_state \<Rightarrow> 'w \<Rightarrow> cache_hit option \<times> int \<times> 's cache_state \<times> 'w" where
  "fetch_snapshot env provider f q params window cs w =
     (case provider (nf_tenant_id f) (er_operation_id q) window (detail_params params) w of
        (Inl _, w') \<Rightarrow> (None, 0, cs, w')
      | (Inr fetched, w') \<Rightarrow>
          let calls = source_call_count fetched;
              eligible = (\<lambda>cs'. (case (if er_operation_id q = PROGRESS_OPERATION
                  then derive_progress_rows (ce_codec env) (ce_calendar env) (rs_rows fetched)
                  else Inr (rs_rows fetched)) of
                Inl _ \<Rightarrow> (None, calls, cs', w')
              | Inr rows \<Rightarrow> (Some \<lparr>ch_rows = rows, ch_footer = rs_footer fetched,
                  ch_generated_at = current_timestamp env cs', ch_source = u ''query'', ch_window = window,
                  ch_source_call_count = calls\<rparr>, calls, cs', w'))) in
          if \<not> rs_complete fetched then (None, calls, cs, w')
          else if mode_writes (ce_mode env)
          then (case rc_write env (nf_tenant_id f) (er_operation_id q) (rs_rows fetched) (rs_footer fetched)
                 (detail_params params) window (u ''query'') False cs of
              (Published True, cs') \<Rightarrow> eligible cs'
            | (_, cs') \<Rightarrow> (None, calls, cs', w'))
          else if footer_reconciles (ce_codec env) (ce_decimals env) (1 / 1000000) (rs_rows fetched) (rs_footer fetched)
          then eligible cs
          else (None, calls, cs, w'))"

definition serve_from_cache ::
  "('s, 'd) cache_env \<Rightarrow> cache_hit \<Rightarrow> narrowed_filters \<Rightarrow> cached_request \<Rightarrow> jdict \<Rightarrow> window \<Rightarrow>
   view_error + source_result" where
  "serve_from_cache env hit f q params window =
     rbind (project_rows (ce_codec env) (ce_calendar env) (ce_decimals env) (ch_rows hit) f (er_operation_id q)
       (er_request_role q) params window) (\<lambda>rows. Inr \<lparr>rs_rows = rows, rs_total = int (length rows),
         rs_pages_fetched = 0, rs_complete = True, rs_reason = None,
         rs_footer = recomputed_footer (ce_codec env) (ce_decimals env) rows (ch_footer hit),
         rs_cache_source = Some (ch_source hit), rs_cache_generated_at = Some (ch_generated_at hit),
         rs_shadow_result = (), rs_source_call_count = Some (ch_source_call_count hit)\<rparr>)"

definition validated_view ::
  "('s, 'd) cache_env \<Rightarrow> cache_hit \<Rightarrow> narrowed_filters \<Rightarrow> cached_request \<Rightarrow> jdict \<Rightarrow> window \<Rightarrow>
   view_error + source_result" where
  "validated_view env hit f q params window =
     rbind (serve_from_cache env hit f q params window) (\<lambda>served.
       case cr_result_validator q of
         None \<Rightarrow> Inr served
       | Some valid \<Rightarrow> if valid served then Inr served
           else Inl (InvalidView (u ''required analysis columns are unavailable'')))"

definition narrowed_view :: "narrowed_filters \<Rightarrow> bool" where
  "narrowed_view f \<longleftrightarrow> nf_employee_ids f \<noteq> None \<or> nf_requested_dept_ids f \<noteq> None \<or> nf_order_codes f \<noteq> None \<or>
     nf_style_codes f \<noteq> None \<or> nf_plan_codes f \<noteq> None \<or> nf_material_ids f \<noteq> None \<or> nf_bed_codes f \<noteq> None"

definition write_allowed ::
  "result_cache_mode \<Rightarrow> source_result \<Rightarrow> narrowed_filters \<Rightarrow> cached_request \<Rightarrow> jdict \<Rightarrow> bool" where
  "write_allowed mode realtime f q params \<longleftrightarrow> mode_writes mode \<and> rs_complete realtime \<and>
     er_request_role q = Some OWNER \<and>
     \<not> (truthy_param params (u ''groupbyFields'') \<or> truthy_param params (u ''uid'') \<or> truthy_param params (u ''Uid'')) \<and>
     \<not> narrowed_view f"

definition maybe_write ::
  "('s, 'd) cache_env \<Rightarrow> source_result \<Rightarrow> narrowed_filters \<Rightarrow> cached_request \<Rightarrow> jdict \<Rightarrow> window \<Rightarrow>
   's cache_state \<Rightarrow> 's cache_state" where
  "maybe_write env realtime f q params window cs =
     (if write_allowed (ce_mode env) realtime f q params
      then snd (rc_write env (nf_tenant_id f) (er_operation_id q) (rs_rows realtime) (rs_footer realtime) params
        window (u ''query'') False cs)
      else cs)"

section \<open>execute\_full\_step\<close>

definition remember_hit ::
  "narrowed_filters \<Rightarrow> cached_request \<Rightarrow> jdict \<Rightarrow> cache_hit \<Rightarrow> ('s, 'w) fetch_state \<Rightarrow> nat \<times> ('s, 'w) fetch_state" where
  "remember_hit f q params hit fs =
     (fs_next_handle fs, fs\<lparr>fs_served_hits := AList.update (fs_next_handle fs)
        \<lparr>sh_tenant_id = nf_tenant_id f, sh_operation_id = er_operation_id q, sh_params = params, sh_hit = hit\<rparr>
        (fs_served_hits fs), fs_next_handle := Suc (fs_next_handle fs)\<rparr>)"

text \<open>The snapshot under the producer lock: read again, then produce.\<close>

definition locked_snapshot ::
  "('s, 'd) cache_env \<Rightarrow> 'w snapshot_provider \<Rightarrow> ('s cache_state \<Rightarrow> 's cache_state) \<Rightarrow> narrowed_filters \<Rightarrow>
   cached_request \<Rightarrow> jdict \<Rightarrow> window \<Rightarrow> 's cache_state \<Rightarrow> 'w \<Rightarrow> cache_hit option \<times> int \<times> 's cache_state \<times> 'w" where
  "locked_snapshot env provider others f q params window cs w =
     (case rc_read env (nf_tenant_id f) (er_operation_id q) params window (others cs) of
        (Some hit, cs') \<Rightarrow> (Some hit, 0, cs', w)
      | (None, cs') \<Rightarrow> fetch_snapshot env provider f q params window cs' w)"

definition find_snapshot ::
  "('s, 'd) cache_env \<Rightarrow> 'w snapshot_provider option \<Rightarrow> ('s cache_state \<Rightarrow> 's cache_state) \<Rightarrow> narrowed_filters \<Rightarrow>
   cached_request \<Rightarrow> jdict \<Rightarrow> window \<Rightarrow> 's cache_state \<Rightarrow> 'w \<Rightarrow> cache_hit option \<times> int \<times> 's cache_state \<times> 'w" where
  "find_snapshot env provider others f q params window cs w =
     (case rc_read env (nf_tenant_id f) (er_operation_id q) params window cs of
        (Some hit, cs') \<Rightarrow> (Some hit, 0, cs', w)
      | (None, cs') \<Rightarrow> (case provider of
          Some p \<Rightarrow> if cr_allow_owner_snapshot q then locked_snapshot env p others f q params window cs' w
            else (None, 0, cs', w)
        | None \<Rightarrow> (None, 0, cs', w)))"

definition realtime_and_write ::
  "('s, 'd) cache_env \<Rightarrow> 'w fetch_through \<Rightarrow> narrowed_filters \<Rightarrow> cached_request \<Rightarrow> active_scope option \<Rightarrow> jdict \<Rightarrow>
   window \<Rightarrow> int \<Rightarrow> ('s, 'w) fetch_state \<Rightarrow> (mes_error + fetch_result \<times> nat option) \<times> ('s, 'w) fetch_state" where
  "realtime_and_write env inner f q active params window snapshot_calls fs =
     (case fetch_realtime env inner f q active params (fs_world fs) of
        (Inl e, w') \<Rightarrow> (Inl e, fs\<lparr>fs_world := w'\<rparr>)
      | (Inr realtime, w') \<Rightarrow>
          (Inr (with_shadow (if snapshot_calls \<noteq> 0
               then realtime\<lparr>rs_source_call_count := Some (snapshot_calls + source_call_count realtime)\<rparr>
               else realtime) None, None),
           fs\<lparr>fs_cache := maybe_write env realtime f q params window (fs_cache fs), fs_world := w'\<rparr>))"

definition serve_hit ::
  "('s, 'd) cache_env \<Rightarrow> 'w fetch_through \<Rightarrow> narrowed_filters \<Rightarrow> cached_request \<Rightarrow> active_scope option \<Rightarrow> jdict \<Rightarrow>
   cache_hit \<Rightarrow> source_result \<Rightarrow> ('s, 'w) fetch_state \<Rightarrow>
   (mes_error + fetch_result \<times> nat option) \<times> ('s, 'w) fetch_state" where
  "serve_hit env inner f q active params hit served fs =
     (if mode_verifies (ce_mode env)
      then (case fetch_realtime env inner f q active params (fs_world fs) of
          (Inl e, w') \<Rightarrow> (Inl e, fs\<lparr>fs_world := w'\<rparr>)
        | (Inr realtime, w') \<Rightarrow>
            (case remember_hit f q params hit (fs\<lparr>fs_world := w'\<rparr>) of
               (handle, fs') \<Rightarrow> (Inr (with_shadow (served\<lparr>rs_source_call_count :=
                 Some ((case rs_source_call_count served of Some n \<Rightarrow> n | None \<Rightarrow> 0) + source_call_count realtime)\<rparr>)
                 (Some realtime), Some handle), fs')))
      else (Inr (with_shadow served None, None), fs))"

definition cached_execute_full_step ::
  "('s, 'd) cache_env \<Rightarrow> 'w fetch_through \<Rightarrow> 'w snapshot_provider option \<Rightarrow> ('s cache_state \<Rightarrow> 's cache_state) \<Rightarrow>
   narrowed_filters \<Rightarrow> cached_request \<Rightarrow> active_scope option \<Rightarrow> jdict option \<Rightarrow> ('s, 'w) fetch_state \<Rightarrow>
   (mes_error + fetch_result \<times> nat option) \<times> ('s, 'w) fetch_state" where
  "cached_execute_full_step env inner provider others f q active extra_params fs =
     (case ft_validate_step inner f q active of
        Inl e \<Rightarrow> (Inl e, fs)
      | Inr _ \<Rightarrow>
        let params = (case extra_params of Some p \<Rightarrow> p | None \<Rightarrow> []) in
        if \<exists>k \<in> fst ` set params. ce_lower env k \<in> FORBIDDEN_REQUEST_PARAMS
        then (Inl (InvalidRequestError (u ''scope and credential parameters cannot be supplied'')), fs)
        else if \<not> mode_reads (ce_mode env) \<or> \<not> cacheable_grain (er_operation_id q)
        then (case fetch_realtime env inner f q active params (fs_world fs) of
            (outcome, w') \<Rightarrow> (rbind outcome (\<lambda>r. Inr (with_shadow r None, None)), fs\<lparr>fs_world := w'\<rparr>))
        else let window = request_window env q in
          (case find_snapshot env provider others f q params window (fs_cache fs) (fs_world fs) of
             (found, calls, cs', w') \<Rightarrow>
               let fs' = fs\<lparr>fs_cache := cs', fs_world := w'\<rparr> in
               (case found of
                  None \<Rightarrow> realtime_and_write env inner f q active params window calls fs'
                | Some hit \<Rightarrow> (case validated_view env hit f q params window of
                    Inl _ \<Rightarrow> realtime_and_write env inner f q active params window calls
                      (fs'\<lparr>fs_cache := rc_evict env (nf_tenant_id f) (er_operation_id q) params (ch_window hit) cs'\<rparr>)
                  | Inr served \<Rightarrow> serve_hit env inner f q active params hit served fs'))))"

definition release_cached_result :: "nat \<Rightarrow> ('s, 'w) fetch_state \<Rightarrow> ('s, 'w) fetch_state" where
  "release_cached_result handle fs = fs\<lparr>fs_served_hits := AList.delete handle (fs_served_hits fs)\<rparr>"

definition discard_cached_result ::
  "('s, 'd) cache_env \<Rightarrow> nat \<Rightarrow> ('s, 'w) fetch_state \<Rightarrow> ('s, 'w) fetch_state" where
  "discard_cached_result env handle fs = (case map_of (fs_served_hits fs) handle of
     None \<Rightarrow> fs
   | Some e \<Rightarrow> (release_cached_result handle fs)\<lparr>fs_cache :=
       rc_evict env (sh_tenant_id e) (sh_operation_id e) (sh_params e) (ch_window (sh_hit e)) (fs_cache fs)\<rparr>)"

section \<open>The caller's view\<close>

definition detail_row :: "json_codec \<Rightarrow> calendar \<Rightarrow> pystr \<Rightarrow> row \<Rightarrow> view_error + row" where
  "detail_row jc cal op r = (if op = PROGRESS_OPERATION then derive_row jc cal r else Inr r)"

lemma source_visible_detail:
  "source_visible jc cal f op rl params w r \<Longrightarrow> \<exists>d. detail_row jc cal op r = Inr d \<and> visible jc f op rl params w d"
  by (auto simp: source_visible_def detail_row_def split: if_splits sum.splits)

lemma validated_view_visible:
  assumes "validated_view env hit f q params window = Inr served"
  shows "validated_view env (hit\<lparr>ch_rows := filter (source_visible (ce_codec env) (ce_calendar env) f
    (er_operation_id q) (er_request_role q) params window) (ch_rows hit)\<rparr>) f q params window = Inr served"
proof -
  obtain rows where rows: "project_rows (ce_codec env) (ce_calendar env) (ce_decimals env) (ch_rows hit) f
      (er_operation_id q) (er_request_role q) params window = Inr rows"
    using assms by (auto simp: validated_view_def serve_from_cache_def result_simps)
  show ?thesis
    using assms project_rows_visible [OF rows] rows
    by (simp add: validated_view_def serve_from_cache_def)
qed

text \<open>
  \<^bold>\<open>C16\<close>.  The shared owner snapshot never leaks into a caller's view.  When the filters of a
  group leader or manager come from narrowing his scope, the view served from a cached snapshot of
  the whole factory is, rows, totals, groups and footer alike, the one computed from those snapshot
  rows alone whose department lies in his scope, whose employee is among the filtered ones, and
  whose date lies in the question's window.
\<close>

theorem cached_view_confined:
  assumes "narrow scope request = Inr f" and "\<not> ds_mes_filtered scope"
    and "er_request_role q = Some rl" and "rl \<in> {GROUP_LEADER, MANAGER}"
    and "validated_view env hit f q params window = Inr served"
  shows "\<exists>P. validated_view env (hit\<lparr>ch_rows := filter P (ch_rows hit)\<rparr>) f q params window = Inr served \<and>
    (\<forall>r. P r \<longrightarrow> (\<exists>d. detail_row (ce_codec env) (ce_calendar env) (er_operation_id q) r = Inr d \<and>
       str_or_empty (ce_codec env) (map_of d (u ''dept'')) \<in> ds_dept_ids scope \<and>
       (\<forall>ids. nf_employee_ids f = Some ids \<longrightarrow> str_or_empty (ce_codec env) (map_of d (u ''uid'')) \<in> ids) \<and>
       (let day = anchor_of (ce_codec env) (time_anchor_column (ce_codec env) (er_operation_id q) params) d in
          fst window \<le> day \<and> day \<le> snd window)))"
proof -
  let ?P = "source_visible (ce_codec env) (ce_calendar env) f (er_operation_id q) (er_request_role q) params window"
  have depts: "narrow_depts scope request = Inr (nf_dept_ids f, nf_requested_dept_ids f)"
    using assms(1) by (simp add: narrow_Inr)
  obtain ds where ds: "nf_dept_ids f = Some ds" "ds \<subseteq> ds_dept_ids scope"
    using narrow_depts_subset [OF depts assms(2)] by blast
  have view: "view_dept_ids f (er_request_role q) = Some ds"
    using ds assms(3,4) by (auto simp: view_dept_ids_def)
  have "\<exists>d. detail_row (ce_codec env) (ce_calendar env) (er_operation_id q) r = Inr d \<and>
      str_or_empty (ce_codec env) (map_of d (u ''dept'')) \<in> ds_dept_ids scope \<and>
      (\<forall>ids. nf_employee_ids f = Some ids \<longrightarrow> str_or_empty (ce_codec env) (map_of d (u ''uid'')) \<in> ids) \<and>
      (let day = anchor_of (ce_codec env) (time_anchor_column (ce_codec env) (er_operation_id q) params) d in
         fst window \<le> day \<and> day \<le> snd window)" if here: "?P r" for r
  proof -
    obtain d where d: "detail_row (ce_codec env) (ce_calendar env) (er_operation_id q) r = Inr d"
      and v: "visible (ce_codec env) f (er_operation_id q) (er_request_role q) params window d"
      using source_visible_detail [OF here] by blast
    have "keep_row (ce_codec env) f (er_request_role q) d" using v view by (simp add: visible_def)
    then show ?thesis
      using v d view ds(2) by (auto simp: keep_row_def visible_def Let_def)
  qed
  then show ?thesis using validated_view_visible [OF assms(5)] by blast
qed

text \<open>A manager of two departments, and a snapshot with a row of a third.\<close>

definition plain_request :: narrow_request where
  "plain_request = \<lparr>nr_employee_ids = None, nr_dept_ids = None, nr_order_ids = None, nr_style_ids = None,
     nr_plan_ids = None, nr_material_ids = None, nr_tenant_resolved_employee_ids = None,
     nr_restrict_to_scope_employees = False, nr_bed_codes = None\<rparr>"

definition manager_filters :: narrowed_filters where
  "manager_filters = \<lparr>nf_tenant_id = u ''fac'', nf_employee_ids = None, nf_dept_ids = Some {u ''d1'', u ''d2''},
     nf_order_codes = None, nf_style_codes = None, nf_plan_codes = None, nf_material_ids = None,
     nf_requested_dept_ids = None, nf_bed_codes = None\<rparr>"

definition payroll_request :: "role \<Rightarrow> cached_request" where
  "payroll_request rl = \<lparr>er_operation_id = PAYROLL_OPERATION, er_time_range = (0, 0), er_pagination_size = 100,
     er_request_role = Some rl, cr_result_validator = None, cr_allow_owner_snapshot = True\<rparr>"

definition payroll_hit :: cache_hit where
  "payroll_hit = \<lparr>ch_rows = [payroll_row ''d1'', payroll_row ''d3''], ch_footer = None, ch_generated_at = u ''t'',
     ch_source = u ''query'', ch_window = sample_window, ch_source_call_count = 1\<rparr>"

lemma plain_narrow: "narrow demo_scope plain_request = Inr manager_filters"
  by (simp add: narrow_def narrow_employees_def narrow_depts_def plain_request_def manager_filters_def
      demo_scope_def as_set_def)

lemma payroll_manager_view:
  "validated_view (sample_env CACHE_READWRITE) payroll_hit manager_filters (payroll_request MANAGER) [] sample_window =
    Inr \<lparr>rs_rows = [payroll_row ''d1''], rs_total = 1, rs_pages_fetched = 0, rs_complete = True, rs_reason = None,
      rs_footer = None, rs_cache_source = Some (u ''query''), rs_cache_generated_at = Some (u ''t''),
      rs_shadow_result = (), rs_source_call_count = Some 1\<rparr>"
proof -
  have op: "PAYROLL_OPERATION \<noteq> PROGRESS_OPERATION"
    by (simp add: PAYROLL_OPERATION_def PROGRESS_OPERATION_def)
  have col: "time_anchor_column index_codec PAYROLL_OPERATION [] = u ''inputdate''"
    using op by (simp add: time_anchor_column_def str_eval)
  have anchor: "anchor_of index_codec (u ''inputdate'') (payroll_row x) = cal_iso ten_days 3" for x
    by (simp add: anchor_of_def payroll_row_def ten_days_def)
  have dept: "str_or_empty index_codec (map_of (payroll_row x) (u ''dept'')) = u x" for x
    by (cases x) (simp_all add: payroll_row_def str_or_empty_def json_truthy_def str_eval)
  have local: "local_view_rows index_codec [payroll_row ''d1'', payroll_row ''d3''] PAYROLL_OPERATION manager_filters []
      sample_window (Some MANAGER) = Inr [payroll_row ''d1'']"
    using op
    by (simp add: local_view_rows_def col scope_filtered_rows_def view_dept_ids_def manager_filters_def keep_row_def
        dept time_sliced_rows_def anchor business_filtered_rows_def matches_business_def sample_window_def Let_def)
      (simp add: ten_days_def nine_zeros str_eval)
  have groups: "group_fields [] = Inr []"
    by (simp add: group_fields_def groupby_value_def)
  show ?thesis
    using op
    by (simp add: validated_view_def serve_from_cache_def payroll_hit_def payroll_request_def project_rows_def
        sample_env_def local groups recomputed_footer_def)
qed

theorem cached_view_confined_witness:
  "\<exists>P served. validated_view (sample_env CACHE_READWRITE) (payroll_hit\<lparr>ch_rows := filter P (ch_rows payroll_hit)\<rparr>)
     manager_filters (payroll_request MANAGER) [] sample_window = Inr served \<and> rs_rows served = [payroll_row ''d1'']"
proof -
  have "\<not> ds_mes_filtered demo_scope" "er_request_role (payroll_request MANAGER) = Some MANAGER"
    by (simp_all add: demo_scope_def payroll_request_def)
  then show ?thesis
    using cached_view_confined [OF plain_narrow _ _ _ payroll_manager_view, of MANAGER] by fastforce
qed

section \<open>What enters the cache\<close>

text \<open>The lines a cache holds after some steps and did not hold, under the same key, before.\<close>

definition new_lines :: "redis cache_state \<Rightarrow> redis cache_state \<Rightarrow> bytes set" where
  "new_lines cs cs' = {v. \<exists>k. redis_live (snd cs') k = Some v \<and> redis_live (snd cs) k \<noteq> Some v}"

lemma new_lines_refl [simp]: "new_lines cs cs = {}"
  by (simp add: new_lines_def)

lemma new_lines_trans: "new_lines a c \<subseteq> new_lines a b \<union> new_lines b c"
  by (auto simp: new_lines_def)

lemma new_lines_get: "new_lines cs (snd (cache_get std jc c redis_store domain tenant fp params cs)) = {}"
proof (cases "build_key std jc c domain tenant fp params")
  case (Inr key)
  obtain stats s where "cs = (stats, s)" by fastforce
  then show ?thesis
    using Inr by (cases "redis_live s key")
      (simp_all add: cache_get_def redis_store_def redis_get_def redis_call_def new_lines_def)
qed (simp add: cache_get_def)

lemma new_lines_delete: "new_lines cs (delete_matching redis_store p cs) = {}"
proof -
  obtain stats s where "cs = (stats, s)" by fastforce
  then show ?thesis
    by (auto simp: delete_matching_def redis_store_def redis_delete_prefix_def redis_call_def new_lines_def
        redis_live_def split: option.splits if_splits)
qed

lemma new_lines_put:
  "new_lines cs (snd (cache_put std jc c redis_store domain tenant fp params v ttl cs)) \<subseteq> {v}"
proof -
  obtain stats s where cs: "cs = (stats, s)" by fastforce
  have put: "new_lines (stats, s) (stats', snd (redis_put key v n s)) \<subseteq> {v}" for stats' key n
    by (cases "n \<le> 0"; cases "rd_up s")
      (auto simp: redis_put_def redis_call_def new_lines_def split: if_splits)
  have store: "cs_put redis_store = redis_put" by (simp add: redis_store_def)
  let ?put = "cache_put std jc c redis_store domain tenant fp params v ttl cs"
  have "snd ?put = cs \<or> (\<exists>stats' key n. snd ?put = (stats', snd (redis_put key v n s)))"
  proof (cases "build_key std jc c domain tenant fp params")
    case (Inr key)
    define chosen where "chosen = (case ttl of Some n \<Rightarrow> if n \<noteq> 0 then Inr n else ttl_seconds c domain
      | None \<Rightarrow> ttl_seconds c domain)"
    show ?thesis
    proof (cases chosen)
      case (Inr n)
      obtain o' s' where "redis_put key v n s = (o', s')" by fastforce
      moreover from this have "snd (snd ?put) = s'"
        using Inr \<open>build_key _ _ _ _ _ _ _ = Inr key\<close> unfolding chosen_def
        by (cases o') (simp_all add: cache_put_def cs store)
      ultimately show ?thesis by (metis prod.collapse snd_conv)
    qed (use Inr in \<open>simp add: cache_put_def chosen_def\<close>)
  qed (simp add: cache_put_def)
  then show ?thesis using put unfolding cs by (metis empty_subsetI new_lines_refl)
qed

lemma new_lines_evict:
  assumes "ce_store env = redis_store"
  shows "new_lines cs (rc_evict env tenant op extra window cs) = {}"
  using assms by (simp add: rc_evict_def invalidate_key_def new_lines_delete split: sum.split)

lemma new_lines_read:
  assumes "ce_store env = redis_store"
  shows "new_lines cs (snd (rc_read env tenant op extra question cs)) = {}"
proof -
  have "new_lines cs (snd (read_candidates env tenant op extra ws cs)) = {}" for ws
  proof (induction ws arbitrary: cs)
    case (Cons w ws)
    let ?get = "cache_get (ce_std env) (ce_codec env) (ce_cache env) (ce_store env) RESULT_CACHE_DOMAIN tenant
      OWNER_SCOPE_SIGNATURE (key_params op extra w) cs"
    have got: "new_lines cs (snd ?get) = {}" by (simp add: assms new_lines_get)
    then have "new_lines cs (snd (read_candidates env tenant op extra ws (snd ?get))) = {}"
      using Cons.IH [of "snd ?get"] new_lines_trans [of cs _ "snd ?get"] by blast
    then show ?case using got
      by (auto simp: Let_def split: prod.splits sum.splits option.splits)
  qed simp
  then show ?thesis by (simp add: rc_read_def)
qed

text \<open>A line that carries this table, for this question.\<close>

definition carries ::
  "('s, 'd) cache_env \<Rightarrow> cached_request \<Rightarrow> jdict \<Rightarrow> source_result \<Rightarrow> bytes \<Rightarrow> bool" where
  "carries env q extra r line \<longleftrightarrow> (\<exists>stored generated_at.
     (if er_operation_id q = PROGRESS_OPERATION then derive_progress_rows (ce_codec env) (ce_calendar env) (rs_rows r)
      else Inr (rs_rows r)) = Inr stored \<and>
     encode_result_set (ce_codec env) (er_operation_id q) stored (rs_footer r) (request_window env q)
       (key_params (er_operation_id q) extra (request_window env q)) [] generated_at (u ''query'') = Some line)"

lemma new_lines_write:
  assumes "ce_store env = redis_store"
    and "v \<in> new_lines cs (snd (rc_write env tenant (er_operation_id q) (rs_rows r) (rs_footer r) extra
      (request_window env q) (u ''query'') False cs))"
  shows "carries env q extra r v"
proof -
  let ?op = "er_operation_id q" and ?w = "request_window env q"
  let ?detail = "if ?op = PROGRESS_OPERATION then derive_progress_rows (ce_codec env) (ce_calendar env) (rs_rows r)
    else Inr (rs_rows r)"
  obtain stored where stored: "?detail = Inr stored"
    and new: "v \<in> new_lines cs (snd (rc_put env tenant ?op stored (rs_footer r) extra ?w (u ''query'') False cs))"
    using assms(2) unfolding rc_write_def by (cases ?detail) (auto split: if_splits sum.splits)
  obtain raw where raw: "encode_result_set (ce_codec env) ?op stored (rs_footer r) ?w (key_params ?op extra ?w) []
      (current_timestamp env cs) (u ''query'') = Some raw"
    using new by (auto simp: rc_put_def Let_def split: option.splits)
  have "new_lines cs (snd (rc_put env tenant ?op stored (rs_footer r) extra ?w (u ''query'') False cs)) \<subseteq> {raw}"
    using new_lines_put [of cs "ce_std env" "ce_codec env" "ce_cache env" RESULT_CACHE_DOMAIN tenant
        OWNER_SCOPE_SIGNATURE "key_params ?op extra ?w" raw "Some (publication_ttl env ?w cs)"]
    by (simp add: rc_put_def raw assms(1) Let_def split_beta sum.case_distrib [of snd] split: sum.split)
  then show ?thesis using new stored raw unfolding carries_def by blast
qed

text \<open>
  Where such a table may come from: the owner snapshot the provider fetched with the full scope, or
  the answer to an unfiltered question of an owner.
\<close>

definition owner_table ::
  "('s, 'd) cache_env \<Rightarrow> 'w fetch_through \<Rightarrow> 'w snapshot_provider option \<Rightarrow> narrowed_filters \<Rightarrow> cached_request \<Rightarrow>
   active_scope option \<Rightarrow> jdict \<Rightarrow> source_result \<Rightarrow> bool" where
  "owner_table env inner provider f q active params r \<longleftrightarrow>
     (cr_allow_owner_snapshot q \<and> (\<exists>p w w'. provider = Some p \<and>
        p (nf_tenant_id f) (er_operation_id q) (request_window env q) (detail_params params) w = (Inr r, w'))) \<or>
     (er_request_role q = Some OWNER \<and> \<not> narrowed_view f \<and>
        (\<exists>w w'. fetch_realtime env inner f q active params w = (Inr r, w')))"

definition admissible ::
  "('s, 'd) cache_env \<Rightarrow> 'w fetch_through \<Rightarrow> 'w snapshot_provider option \<Rightarrow> narrowed_filters \<Rightarrow> cached_request \<Rightarrow>
   active_scope option \<Rightarrow> jdict \<Rightarrow> bytes set" where
  "admissible env inner provider f q active params = {line. mode_writes (ce_mode env) \<and>
     (\<exists>r extra. rs_complete r \<and> carries env q extra r line \<and> owner_table env inner provider f q active params r)}"

lemma new_lines_maybe_write:
  assumes "ce_store env = redis_store" and "fetch_realtime env inner f q active params w = (Inr r, w')"
  shows "new_lines cs (maybe_write env r f q params (request_window env q) cs) \<subseteq>
    admissible env inner provider f q active params"
  using new_lines_write [OF assms(1)] assms(2)
  unfolding maybe_write_def write_allowed_def admissible_def owner_table_def
  by (fastforce split: if_splits)

lemma new_lines_realtime:
  assumes "ce_store env = redis_store"
    and "realtime_and_write env inner f q active params (request_window env q) calls fs = (out, fs')"
  shows "new_lines (fs_cache fs) (fs_cache fs') \<subseteq> admissible env inner provider f q active params"
proof -
  obtain r w where fetch: "fetch_realtime env inner f q active params (fs_world fs) = (r, w)" by fastforce
  show ?thesis
  proof (cases r)
    case Inl
    then show ?thesis using assms(2) fetch by (auto simp: realtime_and_write_def)
  next
    case (Inr realtime)
    then have "fs_cache fs' = maybe_write env realtime f q params (request_window env q) (fs_cache fs)"
      using assms(2) fetch by (auto simp: realtime_and_write_def)
    then show ?thesis using new_lines_maybe_write [OF assms(1)] fetch Inr by metis
  qed
qed

lemma new_lines_snapshot:
  assumes "ce_store env = redis_store" and "cr_allow_owner_snapshot q" and "provider = Some p"
    and "fetch_snapshot env p f q params (request_window env q) cs w = (hit, calls, cs', w')"
  shows "new_lines cs cs' \<subseteq> admissible env inner provider f q active params"
proof -
  let ?window = "request_window env q"
  obtain r w1 where p: "p (nf_tenant_id f) (er_operation_id q) ?window (detail_params params) w = (r, w1)"
    by fastforce
  show ?thesis
  proof (cases r)
    case Inl
    then show ?thesis using assms(4) p by (simp add: fetch_snapshot_def)
  next
    case (Inr fetched)
    let ?publish = "rc_write env (nf_tenant_id f) (er_operation_id q) (rs_rows fetched) (rs_footer fetched)
      (detail_params params) ?window (u ''query'') False cs"
    have "cs' = cs \<or> rs_complete fetched \<and> mode_writes (ce_mode env) \<and> cs' = snd ?publish"
      using assms(4) unfolding fetch_snapshot_def p Inr
      by (auto simp: Let_def split: if_splits prod.splits sum.splits publication.splits bool.splits)
    moreover have "owner_table env inner provider f q active params fetched"
      using assms(2,3) p Inr unfolding owner_table_def by blast
    ultimately show ?thesis using new_lines_write [OF assms(1)] unfolding admissible_def by fastforce
  qed
qed

lemma new_lines_find:
  assumes "ce_store env = redis_store" and "\<And>cs. new_lines cs (others cs) = {}"
    and "find_snapshot env provider others f q params (request_window env q) cs w = (hit, calls, cs', w')"
  shows "new_lines cs cs' \<subseteq> admissible env inner provider f q active params"
proof -
  let ?read = "rc_read env (nf_tenant_id f) (er_operation_id q) params (request_window env q)"
  obtain h cs1 where 1: "?read cs = (h, cs1)" by (meson prod.exhaust)
  have n1: "new_lines cs cs1 = {}" using new_lines_read [OF assms(1)] 1 by (metis snd_conv)
  consider (same) "cs' = cs1" | (locked) p where "provider = Some p" "cr_allow_owner_snapshot q"
      "locked_snapshot env p others f q params (request_window env q) cs1 w = (hit, calls, cs', w')"
    using assms(3) 1 by (auto simp: find_snapshot_def split: option.splits if_splits)
  then show ?thesis
  proof cases
    case same
    then show ?thesis using n1 by simp
  next
    case (locked p)
    obtain h2 cs2 where 2: "?read (others cs1) = (h2, cs2)" by (meson prod.exhaust)
    have "new_lines (others cs1) cs2 = {}" using new_lines_read [OF assms(1)] 2 by (metis snd_conv)
    then have n2: "new_lines cs cs2 = {}"
      using n1 assms(2) [of cs1] new_lines_trans [of cs cs2 cs1] new_lines_trans [of cs1 cs2 "others cs1"] by blast
    have "new_lines cs2 cs' \<subseteq> admissible env inner provider f q active params"
      using locked(3) 2 new_lines_snapshot [OF assms(1) locked(2,1)]
      by (auto simp: locked_snapshot_def split: option.splits)
    then show ?thesis using n2 new_lines_trans [of cs cs' cs2] by blast
  qed
qed

lemma fs_swap: "fs\<lparr>fs_world := w, fs_cache := c\<rparr> = fs\<lparr>fs_cache := c, fs_world := w\<rparr>"
  by simp

text \<open>
  \<^bold>\<open>C17\<close>.  What a request adds to the shared cache.  Whoever asks and however the request
  ends (served, refused, or failed), a line that appears in Redis was written in a mode that writes,
  from a complete table of the source for this question's window, and that table is the owner's: the
  snapshot the provider fetched, or the answer to an owner without a narrowed view.  A caller's own
  restricted rows never become a shared snapshot.
\<close>

theorem only_owner_tables_cached:
  assumes "ce_store env = redis_store" and "\<And>cs. new_lines cs (others cs) = {}"
    and "cached_execute_full_step env inner provider others f q active extra_params fs = (out, fs')"
  shows "\<forall>line \<in> new_lines (fs_cache fs) (fs_cache fs'). mode_writes (ce_mode env) \<and>
    (\<exists>r extra. rs_complete r \<and> carries env q extra r line \<and> owner_table env inner provider f q active
      (case extra_params of Some p \<Rightarrow> p | None \<Rightarrow> []) r)"
proof -
  define params where "params = (case extra_params of Some p \<Rightarrow> p | None \<Rightarrow> [])"
  let ?ok = "admissible env inner provider f q active params" and ?window = "request_window env q"
  obtain found calls cs1 w1 where find: "find_snapshot env provider others f q params ?window
      (fs_cache fs) (fs_world fs) = (found, calls, cs1, w1)" by (metis prod_cases4)
  have n1: "new_lines (fs_cache fs) cs1 \<subseteq> ?ok" by (rule new_lines_find [OF assms(1,2) find])
  have realtime: "new_lines (fs_cache fs) (fs_cache fs'') \<subseteq> ?ok"
    if "realtime_and_write env inner f q active params ?window calls (fs\<lparr>fs_cache := c, fs_world := w1\<rparr>) = (o', fs'')"
      "new_lines cs1 c = {}" for c o' fs''
  proof -
    have "new_lines c (fs_cache fs'') \<subseteq> ?ok"
      using new_lines_realtime [OF assms(1) that(1), of provider] by simp
    then show ?thesis
      using that(2) n1 new_lines_trans [of "fs_cache fs" c cs1] new_lines_trans [of "fs_cache fs" "fs_cache fs''" c]
      by blast
  qed
  have served: "new_lines (fs_cache fs) (fs_cache fs'') \<subseteq> ?ok"
    if "serve_hit env inner f q active params hit s (fs\<lparr>fs_cache := cs1, fs_world := w1\<rparr>) = (o', fs'')" for hit s o' fs''
    using that n1 by (auto simp: serve_hit_def remember_hit_def split: if_splits prod.splits sum.splits)
  have "new_lines (fs_cache fs) (fs_cache fs') \<subseteq> ?ok"
  proof (cases "ft_validate_step inner f q active")
    case Inl
    then show ?thesis using assms(3) by (simp add: cached_execute_full_step_def)
  next
    case (Inr unit)
    show ?thesis
    proof (cases "(\<exists>k \<in> fst ` set params. ce_lower env k \<in> FORBIDDEN_REQUEST_PARAMS) \<or>
        \<not> mode_reads (ce_mode env) \<or> \<not> cacheable_grain (er_operation_id q)")
      case True
      then show ?thesis
        using assms(3) Inr unfolding cached_execute_full_step_def params_def [symmetric]
        by (auto simp: Let_def split: if_splits prod.splits)
    next
      case False
      note step = assms(3) [unfolded cached_execute_full_step_def params_def [symmetric]]
      show ?thesis
      proof (cases found)
        case None
        then show ?thesis using step Inr False find by (intro realtime [of cs1 out]) simp_all
      next
        case (Some hit)
        show ?thesis
        proof (cases "validated_view env hit f q params ?window")
          case Inl
          then show ?thesis
            using step Inr False find Some
            by (intro realtime [OF _ new_lines_evict [OF assms(1)], of _ _ _ _ out]) (simp add: fs_swap)
        next
          case (Inr served')
          then show ?thesis
            using step \<open>ft_validate_step _ _ _ _ = _\<close> False find Some by (intro served [of hit served' out]) simp
        qed
      qed
    qed
  qed
  then show ?thesis unfolding admissible_def params_def by blast
qed

text \<open>An owner asks for three days of payroll; nothing is cached yet, and the answer is.\<close>

definition owner_filters :: narrowed_filters where
  "owner_filters = manager_filters\<lparr>nf_tenant_id := u ''t''\<rparr>"

definition owner_request :: cached_request where
  "owner_request = (payroll_request OWNER)\<lparr>er_time_range := (2 * us_day, 5 * us_day)\<rparr>"

definition payroll_source :: "unit fetch_through" where
  "payroll_source = \<lparr>ft_validate_step = (\<lambda>_ _ _. Inr ()),
     ft_execute_full_step = (\<lambda>_ _ _ _ w. (Inr \<lparr>rs_rows = [payroll_row ''a'', payroll_row ''b''], rs_total = 2,
       rs_pages_fetched = 1, rs_complete = True, rs_reason = None, rs_footer = None, rs_cache_source = None,
       rs_cache_generated_at = None, rs_shadow_result = (), rs_source_call_count = None\<rparr>, w))\<rparr>"

definition fresh_fetch :: "(redis, unit) fetch_state" where
  "fresh_fetch = \<lparr>fs_cache = (no_stats, empty_redis), fs_world = (), fs_served_hits = [], fs_next_handle = 0\<rparr>"

lemma read_empty:
  assumes "ce_store env = redis_store"
  shows "\<exists>stats'. rc_read env tenant op extra w (stats, empty_redis) = (None, (stats', empty_redis))"
proof -
  have "\<exists>stats'. read_candidates env tenant op extra ws (stats, empty_redis) = (None, (stats', empty_redis))" for ws stats
  proof (induction ws arbitrary: stats)
    case (Cons x ws)
    obtain key where "build_key (ce_std env) (ce_codec env) (ce_cache env) RESULT_CACHE_DOMAIN tenant
      OWNER_SCOPE_SIGNATURE (key_params op extra x) = Inr key" using owner_key by blast
    moreover have "redis_live empty_redis k = None" for k by (simp add: redis_live_def empty_redis_def)
    moreover have "rd_up empty_redis" by (simp add: empty_redis_def)
    ultimately show ?case
      using redis_cache_get [of _ _ _ _ _ _ _ key empty_redis stats] Cons.IH assms by fastforce
  qed simp
  then show ?thesis by (simp add: rc_read_def)
qed

lemma owner_window: "request_window (sample_env CACHE_READWRITE) owner_request = sample_window"
proof -
  have "(5 * us_day - 1) div us_day = 4" by (simp add: us_defs)
  then show ?thesis
    by (simp add: request_window_def owner_request_def sample_window_def local_calendar_dates_def local_day_def
        sample_env_def us_defs)
qed

lemma owner_fetch:
  "\<exists>r. fetch_realtime (sample_env CACHE_READWRITE) payroll_source owner_filters owner_request None [] () =
     (Inr r, ()) \<and> rs_rows r = [payroll_row ''a'', payroll_row ''b''] \<and> rs_footer r = None \<and> rs_complete r"
proof -
  have op: "PAYROLL_OPERATION \<noteq> PROGRESS_OPERATION" "cacheable_grain PAYROLL_OPERATION"
    by (simp_all add: PAYROLL_OPERATION_def PROGRESS_OPERATION_def cacheable_grain_def)
  have col: "time_anchor_column index_codec PAYROLL_OPERATION [] = u ''inputdate''"
    using op by (simp add: time_anchor_column_def str_eval)
  have anchor: "anchor_of index_codec (u ''inputdate'') (payroll_row x) = cal_iso ten_days 3" for x
    by (simp add: anchor_of_def payroll_row_def ten_days_def)
  have local: "local_view_rows index_codec [payroll_row ''a'', payroll_row ''b''] PAYROLL_OPERATION owner_filters []
      sample_window (Some OWNER) = Inr [payroll_row ''a'', payroll_row ''b'']"
    using op
    by (simp add: local_view_rows_def col scope_filtered_rows_def view_dept_ids_def owner_filters_def manager_filters_def
        keep_row_def time_sliced_rows_def anchor business_filtered_rows_def matches_business_def sample_window_def Let_def)
      (simp add: ten_days_def nine_zeros str_eval)
  have groups: "group_fields [] = Inr []" by (simp add: group_fields_def groupby_value_def)
  have request: "er_operation_id owner_request = PAYROLL_OPERATION" "er_request_role owner_request = Some OWNER"
    by (simp_all add: owner_request_def payroll_request_def)
  have "project_rows index_codec ten_days whole_numbers [payroll_row ''a'', payroll_row ''b''] owner_filters
      PAYROLL_OPERATION (Some OWNER) [] sample_window = Inr [payroll_row ''a'', payroll_row ''b'']"
    using op by (simp add: project_rows_def local groups)
  then show ?thesis
    using op request owner_window
    by (simp add: fetch_realtime_def fetch_detail_def payroll_source_def project_fetched_def with_rows_def Let_def
        footer_reconciles_def recomputed_footer_def)
      (simp add: sample_env_def Let_def with_rows_def footer_reconciles_def recomputed_footer_def)
qed

theorem only_owner_tables_cached_witness:
  "\<exists>out fs'. cached_execute_full_step (sample_env CACHE_READWRITE) payroll_source None id owner_filters owner_request
     None None fresh_fetch = (out, fs') \<and> new_lines (fs_cache fresh_fetch) (fs_cache fs') \<noteq> {} \<and>
   (\<forall>line \<in> new_lines (fs_cache fresh_fetch) (fs_cache fs'). \<exists>r extra. carries (sample_env CACHE_READWRITE)
     owner_request extra r line \<and> rs_complete r)"
proof -
  let ?env = "sample_env CACHE_READWRITE"
  obtain out fs' where step: "cached_execute_full_step ?env payroll_source None id owner_filters owner_request
      None None fresh_fetch = (out, fs')" by fastforce
  have op: "cacheable_grain PAYROLL_OPERATION" by (simp add: cacheable_grain_def)
  have store: "ce_store ?env = redis_store" by (simp add: sample_env_def)
  have parts: "er_operation_id owner_request = PAYROLL_OPERATION" "er_request_role owner_request = Some OWNER"
    "nf_tenant_id owner_filters = u ''t''" "\<not> narrowed_view owner_filters" "mode_reads (ce_mode ?env)"
    "mode_writes (ce_mode ?env)"
    by (simp_all add: owner_request_def payroll_request_def owner_filters_def manager_filters_def narrowed_view_def
        sample_env_def mode_reads_def mode_writes_def)
  obtain st where read: "rc_read ?env (u ''t'') PAYROLL_OPERATION [] sample_window (no_stats, empty_redis) =
      (None, (st, empty_redis))" using read_empty [OF store] by blast
  obtain r where r: "fetch_realtime ?env payroll_source owner_filters owner_request None [] () = (Inr r, ())"
    "rs_rows r = [payroll_row ''a'', payroll_row ''b'']" "rs_footer r = None" "rs_complete r" using owner_fetch by blast
  obtain cs' where wrote: "rc_write ?env (u ''t'') PAYROLL_OPERATION [payroll_row ''a'', payroll_row ''b''] None []
      sample_window (u ''query'') False (st, empty_redis) = (Published True, cs')" using sample_published by blast
  have "find_snapshot ?env None id owner_filters owner_request [] sample_window (no_stats, empty_redis) () =
      (None, 0, (st, empty_redis), ())" by (simp add: find_snapshot_def parts read)
  moreover have "ft_validate_step payroll_source owner_filters owner_request None = Inr ()"
    by (simp add: payroll_source_def)
  ultimately have "fs_cache fs' = cs'"
    using step r wrote parts op
    by (auto simp: cached_execute_full_step_def fresh_fetch_def owner_window realtime_and_write_def maybe_write_def
        write_allowed_def truthy_param_def Let_def)
  moreover obtain raw key ttl where "0 < (ttl :: int)"
    "snd cs' = empty_redis\<lparr>rd_data := (rd_data empty_redis)(key \<mapsto> (raw, rd_now empty_redis + ttl * us_second))\<rparr>"
    using rc_put_Published rc_write_Published [OF wrote] store by (metis snd_conv)
  ultimately have "redis_live (snd (fs_cache fs')) key = Some raw" "redis_live (snd (fs_cache fresh_fetch)) key \<noteq> Some raw"
    by (simp_all add: fresh_fetch_def, simp add: redis_live_def empty_redis_def)
  then have "new_lines (fs_cache fresh_fetch) (fs_cache fs') \<noteq> {}" unfolding new_lines_def by blast
  then show ?thesis
    using step only_owner_tables_cached [OF store _ step] by fastforce
qed

text \<open>
  An employee's question about the whole tenant (a capability that is not personal narrows without
  restricting to his own records) leaves every cached row in his view: the row filter of the role
  \<open>00\<close> is the employee filter alone.
\<close>

lemma employee_view_without_filters:
  assumes "narrow scope r = Inr f" and "nr_employee_ids r = None" and "nr_tenant_resolved_employee_ids r = None"
    and "\<not> nr_restrict_to_scope_employees r" and "nr_dept_ids r = None"
  shows "scope_filtered_rows jc rows f (Some EMPLOYEE) = rows"
proof -
  have "nf_employee_ids f = None" "nf_requested_dept_ids f = None"
    using assms by (simp_all add: narrow_Inr narrow_employees_Inr narrow_depts_Inr)
  then show ?thesis by (simp add: scope_filtered_rows_def view_dept_ids_def)
qed

end
