(* ===== verification/Sandbox.thy ===== *)
theory Sandbox
  imports Recipes Detail
begin

text \<open>
  The interaction sandbox (\<^verbatim>\<open>execution/sandbox_runtime.py\<close>,
  \<^verbatim>\<open>execution/sandbox.py\<close>, \<^verbatim>\<open>ports/sandbox.py\<close>): one in-memory database
  per interaction, a table whitelist, a read-only gate in front of every query, and the destruction
  of the connection.

  DuckDB is outside the repository: the interface it is used through is the record
  \<open>engine\<close>, over a connection \<open>'c\<close>, with values \<open>'v\<close> in the answers.  An engine call that
  fails raises \<open>duckdb.Error\<close>.  \<open>json.dumps\<close> of a bulk load belongs to the engine's
  bulk insert, which reports whether the rows went in (the statement is atomic).  \<open>str.upper\<close> and
  the classes of characters are parameters.  Interrupts, tracing and the reporting of column names
  are left out.
\<close>

datatype engine_fault = DuckdbError

datatype sandbox_error = SandboxMes mes_error | SandboxDuckdb

record sandbox_table =
  sbt_name :: pystr
  sbt_rows :: "row list"
  sbt_columns :: "(pystr \<times> pystr) list"

type_synonym ('v, 'c) query_answer = "(engine_fault + pystr list \<times> 'v list list) \<times> 'c"

record ('c, 'v, 'p) engine =
  en_connect :: 'c
  en_create :: "pystr \<Rightarrow> (pystr \<times> pystr) list \<Rightarrow> 'c \<Rightarrow> (engine_fault + unit) \<times> 'c"
  en_insert_bulk :: "pystr \<Rightarrow> (pystr \<times> pystr) list \<Rightarrow> row list \<Rightarrow> 'c \<Rightarrow> bool \<times> 'c"
  en_insert_row :: "pystr \<Rightarrow> (pystr \<times> json option) list \<Rightarrow> 'c \<Rightarrow> (engine_fault + unit) \<times> 'c"
  en_drop :: "pystr \<Rightarrow> 'c \<Rightarrow> (engine_fault + unit) \<times> 'c"
  en_query :: "pystr \<Rightarrow> 'p option \<Rightarrow> 'c \<Rightarrow> ('v, 'c) query_answer"

record text_ops =
  tx_upper :: "pystr \<Rightarrow> pystr"
  tx_isalnum :: "nat \<Rightarrow> bool"
  tx_isdigit :: "nat \<Rightarrow> bool"

record 'c sandbox =
  sb_allowed_tables :: "pystr set"
  sb_connection :: "'c option"
  sb_registered :: "pystr set"
  sb_row_counts :: "(pystr, nat) dict"
  sb_closed :: bool

section \<open>The read-only gate\<close>

definition FORBIDDEN_PREFIXES :: "pystr list" where
  "FORBIDDEN_PREFIXES = map u [''ATTACH'', ''DETACH'', ''COPY'', ''CREATE'', ''DROP'', ''ALTER'', ''INSERT'',
     ''UPDATE'', ''DELETE'', ''PRAGMA'', ''EXPORT'', ''IMPORT'', ''INSTALL'', ''LOAD'', ''CALL'', ''SET'', ''RESET'',
     ''CHECKPOINT'', ''VACUUM'', ''BEGIN'', ''COMMIT'', ''ROLLBACK'']"

definition FORBIDDEN_TOKENS :: "pystr list" where
  "FORBIDDEN_TOKENS = map u [''READ_CSV'', ''READ_JSON'', ''READ_PARQUET'', ''PARQUET_SCAN'', ''CSV_READ'', ''GLOB('',
     ''SNIPPET('', ''PG_'', ''MYSQL_'', ''SQLITE_SCAN'', ''ICEBERG_'', ''HTTPFS'']"

definition READ_WORDS :: "pystr list" where
  "READ_WORDS = map u [''SELECT'', ''WITH'', ''DESCRIBE'', ''SHOW'', ''EXPLAIN'']"

text \<open>\<open>sql.strip().rstrip(";").strip()\<close>; 59 is the semicolon.\<close>

definition stripped_sql :: "pystr \<Rightarrow> pystr" where
  "stripped_sql sql = py_strip (rev (dropWhile (\<lambda>c. c = 59) (rev (py_strip sql))))"

definition first_word :: "pystr \<Rightarrow> pystr" where
  "first_word s = takeWhile (\<lambda>c. \<not> py_isspace c) (dropWhile py_isspace s)"

definition assert_read_only :: "text_ops \<Rightarrow> pystr \<Rightarrow> mes_error + unit" where
  "assert_read_only tx sql =
     (let upper = tx_upper tx (stripped_sql sql) in
      rthen (guard_r (first_word upper \<in> set READ_WORDS)
        (ForbiddenError (u ''only SELECT/WITH statements may run in the sandbox'')))
     (rthen (for_each (\<lambda>p. guard_r (\<not> starts_with p upper)
        (ForbiddenError (u ''statement type '' @ p @ u '' is blocked in the sandbox''))) FORBIDDEN_PREFIXES)
     (for_each (\<lambda>t. guard_r (\<not> py_in t upper)
        (ForbiddenError (u ''external access functions are blocked in the sandbox''))) FORBIDDEN_TOKENS)))"

section \<open>Tables\<close>

text \<open>\<open>name.replace("_", "").isalnum()\<close>; 95 is the underscore.\<close>

definition valid_identifier :: "text_ops \<Rightarrow> pystr \<Rightarrow> bool" where
  "valid_identifier tx name \<longleftrightarrow> filter (\<lambda>c. c \<noteq> 95) name \<noteq> [] \<and> list_all (tx_isalnum tx) (filter (\<lambda>c. c \<noteq> 95) name)"

definition validate_identifier :: "text_ops \<Rightarrow> pystr \<Rightarrow> sandbox_error + unit" where
  "validate_identifier tx name = guard_r (valid_identifier tx name)
     (SandboxMes (InvalidRequestError (u ''table names must be alphanumeric or underscore'')))"

definition BULK_SQL_TYPES :: "pystr set" where
  "BULK_SQL_TYPES = set (map u [''VARCHAR'', ''INTEGER'', ''BIGINT'', ''DOUBLE'', ''BOOLEAN'', ''DATE'', ''TIMESTAMP''])"

text \<open>The pattern \<^verbatim>\<open>^DECIMAL\(\d{1,2},\s*\d{1,2}\)$\<close>; 44 is the comma, 41 the closing
  parenthesis, and the end may be followed by a newline (10).\<close>

definition decimal_type :: "text_ops \<Rightarrow> pystr \<Rightarrow> bool" where
  "decimal_type tx s \<longleftrightarrow> starts_with (u ''DECIMAL('') s \<and>
     (let body = drop 8 s; digits = tx_isdigit tx; precision = takeWhile digits body; rest = dropWhile digits body in
      length precision \<in> {1, 2} \<and> rest \<noteq> [] \<and> hd rest = 44 \<and>
      (let scale = dropWhile py_isspace (tl rest) in
       length (takeWhile digits scale) \<in> {1, 2} \<and> dropWhile digits scale \<in> {[41], [41, 10]}))"

definition bulk_capable_type :: "text_ops \<Rightarrow> pystr \<Rightarrow> bool" where
  "bulk_capable_type tx t \<longleftrightarrow> t \<in> BULK_SQL_TYPES \<or> decimal_type tx t"

definition new_sandbox :: "text_ops \<Rightarrow> pystr list \<Rightarrow> sandbox_error + 'c sandbox" where
  "new_sandbox tx allowed = rthen (for_each (validate_identifier tx) allowed)
     (Inr \<lparr>sb_allowed_tables = set allowed, sb_connection = None, sb_registered = {}, sb_row_counts = [],
       sb_closed = False\<rparr>)"

text \<open>\<open>_conn\<close>: the connection, opened on first use.\<close>

definition sandbox_conn :: "('c, 'v, 'p) engine \<Rightarrow> 'c sandbox \<Rightarrow> sandbox_error + 'c" where
  "sandbox_conn en s = (if sb_closed s
     then Inl (SandboxMes (InvalidRequestError (u ''sandbox connection was destroyed after this interaction'')))
     else Inr (case sb_connection s of Some c \<Rightarrow> c | None \<Rightarrow> en_connect en))"

fun insert_rows ::
  "('c, 'v, 'p) engine \<Rightarrow> pystr \<Rightarrow> (pystr \<times> pystr) list \<Rightarrow> row list \<Rightarrow> 'c \<Rightarrow> (engine_fault + unit) \<times> 'c" where
  "insert_rows en name columns [] c = (Inr (), c)"
| "insert_rows en name columns (r # rs) c =
     (case en_insert_row en name (map (\<lambda>(column, _). (column, map_of r column)) columns) c of
        (Inl e, c') \<Rightarrow> (Inl e, c')
      | (Inr _, c') \<Rightarrow> insert_rows en name columns rs c')"

text \<open>The bulk insert, and the row-by-row insert when it is not possible.  A column name that is not
  an identifier raises.\<close>

definition load_rows ::
  "text_ops \<Rightarrow> ('c, 'v, 'p) engine \<Rightarrow> sandbox_table \<Rightarrow> 'c \<Rightarrow> (sandbox_error + unit) \<times> 'c" where
  "load_rows tx en t c =
     (case for_each (validate_identifier tx) (map fst (sbt_columns t)) of
        Inl e \<Rightarrow> (Inl e, c)
      | Inr _ \<Rightarrow>
          (case (if list_all (bulk_capable_type tx) (map snd (sbt_columns t))
               then en_insert_bulk en (sbt_name t) (sbt_columns t) (sbt_rows t) c else (False, c)) of
             (True, c') \<Rightarrow> (Inr (), c')
           | (False, c') \<Rightarrow> (case insert_rows en (sbt_name t) (sbt_columns t) (sbt_rows t) c' of
               (Inl _, c'') \<Rightarrow> (Inl SandboxDuckdb, c'')
             | (Inr _, c'') \<Rightarrow> (Inr (), c''))))"

definition register_table ::
  "text_ops \<Rightarrow> ('c, 'v, 'p) engine \<Rightarrow> sandbox_table \<Rightarrow> 'c sandbox \<Rightarrow> (sandbox_error + unit) \<times> 'c sandbox" where
  "register_table tx en t s =
     (case rthen (validate_identifier tx (sbt_name t))
         (rthen (guard_r (sb_allowed_tables s = {} \<or> sbt_name t \<in> sb_allowed_tables s)
            (SandboxMes (ForbiddenError (u ''table name is not in the reviewed whitelist''))))
         (sandbox_conn en s)) of
        Inl e \<Rightarrow> (Inl e, s)
      | Inr c \<Rightarrow> (case en_create en (sbt_name t) (sbt_columns t) c of
          (Inl _, c') \<Rightarrow> (Inl SandboxDuckdb, s\<lparr>sb_connection := Some c'\<rparr>)
        | (Inr _, c') \<Rightarrow> (case (if sbt_rows t = [] then (Inr (), c') else load_rows tx en t c') of
            (Inl e, c'') \<Rightarrow> (Inl e, s\<lparr>sb_connection := Some c''\<rparr>)
          | (Inr _, c'') \<Rightarrow> (Inr (), s\<lparr>sb_connection := Some c'',
              sb_registered := insert (sbt_name t) (sb_registered s),
              sb_row_counts := AList.update (sbt_name t) (length (sbt_rows t)) (sb_row_counts s)\<rparr>))))"

definition replace_table ::
  "text_ops \<Rightarrow> ('c, 'v, 'p) engine \<Rightarrow> sandbox_table \<Rightarrow> 'c sandbox \<Rightarrow> (sandbox_error + unit) \<times> 'c sandbox" where
  "replace_table tx en t s =
     (case rthen (validate_identifier tx (sbt_name t))
         (rthen (guard_r (sbt_name t \<in> sb_registered s)
            (SandboxMes (ForbiddenError (u ''only registered sandbox tables can be replaced''))))
         (rthen (for_each (\<lambda>(column, sql_type). rthen (validate_identifier tx column)
              (guard_r (bulk_capable_type tx sql_type)
                (SandboxMes (InvalidRequestError (u ''replacement schema uses an unsupported column type'')))))
            (sbt_columns t))
         (sandbox_conn en s))) of
        Inl e \<Rightarrow> (Inl e, s)
      | Inr c \<Rightarrow> (case en_drop en (sbt_name t) c of
          (Inl _, c') \<Rightarrow> (Inl SandboxDuckdb, s\<lparr>sb_connection := Some c'\<rparr>)
        | (Inr _, c') \<Rightarrow> register_table tx en t (s\<lparr>sb_connection := Some c',
            sb_registered := sb_registered s - {sbt_name t},
            sb_row_counts := AList.delete (sbt_name t) (sb_row_counts s)\<rparr>)))"

section \<open>Queries and the end\<close>

definition execute_typed ::
  "text_ops \<Rightarrow> ('c, 'v, 'p) engine \<Rightarrow> pystr \<Rightarrow> 'p option \<Rightarrow> 'c sandbox \<Rightarrow>
   (sandbox_error + pystr list \<times> 'v list list) \<times> 'c sandbox" where
  "execute_typed tx en sql params s =
     (case rthen (map_sum SandboxMes id (assert_read_only tx sql)) (sandbox_conn en s) of
        Inl e \<Rightarrow> (Inl e, s)
      | Inr c \<Rightarrow> (case en_query en sql params c of
          (Inl _, c') \<Rightarrow> (Inl (SandboxMes (InvalidRequestError (u ''sandbox rejected the statement''))),
            s\<lparr>sb_connection := Some c'\<rparr>)
        | (Inr answer, c') \<Rightarrow> (Inr answer, s\<lparr>sb_connection := Some c'\<rparr>)))"

definition sandbox_execute ::
  "text_ops \<Rightarrow> ('c, 'v, 'p) engine \<Rightarrow> pystr \<Rightarrow> 'p option \<Rightarrow> 'c sandbox \<Rightarrow>
   (sandbox_error + 'v list list) \<times> 'c sandbox" where
  "sandbox_execute tx en sql params s = map_prod (map_sum id snd) id (execute_typed tx en sql params s)"

definition sandbox_close :: "'c sandbox \<Rightarrow> 'c sandbox" where
  "sandbox_close s = (if sb_closed s then s
     else s\<lparr>sb_connection := None, sb_registered := {}, sb_row_counts := [], sb_closed := True\<rparr>)"

section \<open>What the engine keeps\<close>

text \<open>The values bound for one row: every column of the table, missing cells as nothing.\<close>

definition bound_row :: "(pystr \<times> pystr) list \<Rightarrow> row \<Rightarrow> (pystr \<times> json option) list" where
  "bound_row columns r = map (\<lambda>(column, _). (column, map_of r column)) columns"

text \<open>
  The documented behaviour of the engine, seen through the tables of a connection: \<open>content c name\<close>
  is the columns and the stored rows of a table, and \<open>load columns values\<close> is the row that is stored
  for a tuple of bound values (the cast to the column types).  A new connection has no table; creating,
  filling and dropping touch the named table only, and a failed statement touches none.  Table names
  are compared exactly.
\<close>

definition engine_laws ::
  "('c, 'v, 'p) engine \<Rightarrow> ((pystr \<times> pystr) list \<Rightarrow> (pystr \<times> json option) list \<Rightarrow> 'x) \<Rightarrow>
   ('c \<Rightarrow> pystr \<Rightarrow> ((pystr \<times> pystr) list \<times> 'x list) option) \<Rightarrow> bool" where
  "engine_laws en load content \<longleftrightarrow>
     content (en_connect en) = (\<lambda>_. None) \<and>
     (\<forall>name columns c r c'. en_create en name columns c = (r, c') \<longrightarrow>
        content c' = (case r of Inl _ \<Rightarrow> content c | Inr _ \<Rightarrow> (content c)(name \<mapsto> (columns, [])))) \<and>
     (\<forall>name columns rows c ok c'. en_insert_bulk en name columns rows c = (ok, c') \<longrightarrow>
        content c' = (if ok then (content c)(name := map_option
          (\<lambda>(cs, old). (cs, old @ map (load cs \<circ> bound_row columns) rows)) (content c name)) else content c)) \<and>
     (\<forall>name row c r c'. en_insert_row en name row c = (r, c') \<longrightarrow>
        content c' = (case r of Inl _ \<Rightarrow> content c
          | Inr _ \<Rightarrow> (content c)(name := map_option (\<lambda>(cs, old). (cs, old @ [load cs row])) (content c name)))) \<and>
     (\<forall>name c r c'. en_drop en name c = (r, c') \<longrightarrow>
        content c' = (case r of Inl _ \<Rightarrow> content c | Inr _ \<Rightarrow> (content c)(name := None)))"

definition reads_only ::
  "('c, 'v, 'p) engine \<Rightarrow> ('c \<Rightarrow> pystr \<Rightarrow> 't option) \<Rightarrow> pystr \<Rightarrow> bool" where
  "reads_only en content sql \<longleftrightarrow> (\<forall>params c. content (snd (en_query en sql params c)) = content c)"

text \<open>The tables of a sandbox, and what a registered table holds.\<close>

definition sb_content :: "('c \<Rightarrow> pystr \<Rightarrow> 't option) \<Rightarrow> 'c sandbox \<Rightarrow> pystr \<Rightarrow> 't option" where
  "sb_content content s = (case sb_connection s of None \<Rightarrow> (\<lambda>_. None) | Some c \<Rightarrow> content c)"

definition loaded ::
  "((pystr \<times> pystr) list \<Rightarrow> (pystr \<times> json option) list \<Rightarrow> 'x) \<Rightarrow> sandbox_table \<Rightarrow> (pystr \<times> pystr) list \<times> 'x list" where
  "loaded load t = (sbt_columns t, map (load (sbt_columns t) \<circ> bound_row (sbt_columns t)) (sbt_rows t))"

lemma insert_rows_content:
  assumes "engine_laws en load content"
  shows "insert_rows en name columns rows c = (r, c') \<Longrightarrow> dom (content c') = dom (content c) \<and>
    (r = Inr () \<longrightarrow> content c' = (content c)(name := map_option
      (\<lambda>(cs, old). (cs, old @ map (load cs \<circ> bound_row columns) rows)) (content c name)))"
proof (induction rows arbitrary: c)
  case (Cons row rows)
  obtain r1 c1 where one: "en_insert_row en name (bound_row columns row) c = (r1, c1)" by fastforce
  then have c1: "content c1 = (case r1 of Inl _ \<Rightarrow> content c | Inr _ \<Rightarrow> (content c)(name := map_option
      (\<lambda>(cs, old). (cs, old @ [load cs (bound_row columns row)])) (content c name)))"
    using assms unfolding engine_laws_def by blast
  show ?case
  proof (cases r1)
    case Inl
    then show ?thesis using Cons.prems one c1 by (auto simp: bound_row_def)
  next
    case Inr
    then have "insert_rows en name columns rows c1 = (r, c')"
      using Cons.prems one by (simp add: bound_row_def)
    from Cons.IH [OF this] show ?thesis
      using c1 Inr by (auto simp: option.map_comp comp_def case_prod_beta fun_eq_iff dom_def split: if_splits)
  qed
qed (auto simp: option.map_id0)

lemma load_rows_content:
  assumes laws: "engine_laws en load content" and "load_rows tx en t c = (r, c')"
  shows "dom (content c') = dom (content c) \<and> (r = Inr () \<longrightarrow>
    content c' = (content c)(sbt_name t := map_option (\<lambda>(cs, old).
      (cs, old @ map (load cs \<circ> bound_row (sbt_columns t)) (sbt_rows t))) (content c (sbt_name t))))"
proof (cases "for_each (validate_identifier tx) (map fst (sbt_columns t))")
  case Inl
  then show ?thesis using assms(2) by (auto simp: load_rows_def)
next
  case (Inr unit)
  obtain ok c1 where bulk: "(if list_all (bulk_capable_type tx) (map snd (sbt_columns t))
      then en_insert_bulk en (sbt_name t) (sbt_columns t) (sbt_rows t) c else (False, c)) = (ok, c1)" by fastforce
  then have c1: "content c1 = (if ok then (content c)(sbt_name t := map_option (\<lambda>(cs, old).
      (cs, old @ map (load cs \<circ> bound_row (sbt_columns t)) (sbt_rows t))) (content c (sbt_name t))) else content c)"
    using laws unfolding engine_laws_def by (auto split: if_splits)
  obtain r2 c2 where rows: "insert_rows en (sbt_name t) (sbt_columns t) (sbt_rows t) c1 = (r2, c2)" by fastforce
  have "r = (if ok then Inr () else map_sum (\<lambda>_. SandboxDuckdb) id r2) \<and> c' = (if ok then c1 else c2)"
    using assms(2) rows unfolding load_rows_def Inr sum.case bulk by (auto split: sum.splits if_splits)
  then show ?thesis
    using c1 insert_rows_content [OF laws rows] by (cases r2) (auto simp: dom_def split: if_splits)
qed

text \<open>A registration that succeeds adds the rows of the table it was given, and nothing else changes;
  one that fails leaves at most the named table behind.\<close>

lemma sandbox_conn_content:
  "engine_laws en load content \<Longrightarrow> sandbox_conn en s = Inr c \<Longrightarrow> content c = sb_content content s"
  by (auto simp: sandbox_conn_def sb_content_def engine_laws_def split: if_splits option.splits)

lemma register_table_content:
  assumes laws: "engine_laws en load content" and "register_table tx en t s = (r, s')"
  shows "r = Inr () \<Longrightarrow> sb_content content s' = (sb_content content s)(sbt_name t \<mapsto> loaded load t)"
    and "dom (sb_content content s') \<subseteq> dom (sb_content content s) \<union>
      (if sb_allowed_tables s = {} \<or> sbt_name t \<in> sb_allowed_tables s then {sbt_name t} else {})"
proof -
  let ?guard = "rthen (validate_identifier tx (sbt_name t))
    (rthen (guard_r (sb_allowed_tables s = {} \<or> sbt_name t \<in> sb_allowed_tables s)
       (SandboxMes (ForbiddenError (u ''table name is not in the reviewed whitelist''))))
    (sandbox_conn en s))"
  have "(r = Inr () \<longrightarrow> sb_content content s' = (sb_content content s)(sbt_name t \<mapsto> loaded load t)) \<and>
    dom (sb_content content s') \<subseteq> dom (sb_content content s) \<union>
      (if sb_allowed_tables s = {} \<or> sbt_name t \<in> sb_allowed_tables s then {sbt_name t} else {})"
  proof (cases ?guard)
    case Inl
    then show ?thesis using assms(2) by (auto simp: register_table_def)
  next
    case (Inr c)
    then have "sandbox_conn en s = Inr c" and ok: "sb_allowed_tables s = {} \<or> sbt_name t \<in> sb_allowed_tables s"
      by (simp_all add: result_simps)
    note c = sandbox_conn_content [OF laws this(1)]
    obtain r1 c1 where create: "en_create en (sbt_name t) (sbt_columns t) c = (r1, c1)" by fastforce
    then have c1: "content c1 = (case r1 of Inl _ \<Rightarrow> content c | Inr _ \<Rightarrow> (content c)(sbt_name t \<mapsto> (sbt_columns t, [])))"
      using laws unfolding engine_laws_def by blast
    obtain r2 c2 where load: "(if sbt_rows t = [] then (Inr (), c1) else load_rows tx en t c1) = (r2, c2)" by fastforce
    have c2: "dom (content c2) = dom (content c1) \<and> (r2 = Inr () \<longrightarrow> content c2 = (content c1)(sbt_name t := map_option
        (\<lambda>(cs, old). (cs, old @ map (load cs \<circ> bound_row (sbt_columns t)) (sbt_rows t))) (content c1 (sbt_name t))))"
      using load load_rows_content [OF laws, of tx t c1] by (auto simp: option.map_id0 split: if_splits)
    show ?thesis
      using assms(2) ok c c1 c2 unfolding register_table_def Inr sum.case create prod.case load
      by (auto simp: sb_content_def loaded_def dom_def split: sum.splits if_splits)
  qed
  then show "r = Inr () \<Longrightarrow> sb_content content s' = (sb_content content s)(sbt_name t \<mapsto> loaded load t)"
    and "dom (sb_content content s') \<subseteq> dom (sb_content content s) \<union>
      (if sb_allowed_tables s = {} \<or> sbt_name t \<in> sb_allowed_tables s then {sbt_name t} else {})" by blast+
qed

lemma replace_table_content:
  assumes laws: "engine_laws en load content" and "replace_table tx en t s = (r, s')"
  shows "r = Inr () \<Longrightarrow> sb_content content s' = (sb_content content s)(sbt_name t \<mapsto> loaded load t)"
    and "dom (sb_content content s') \<subseteq> dom (sb_content content s) \<union>
      (if sb_allowed_tables s = {} \<or> sbt_name t \<in> sb_allowed_tables s then {sbt_name t} else {})"
proof -
  let ?guard = "rthen (validate_identifier tx (sbt_name t))
    (rthen (guard_r (sbt_name t \<in> sb_registered s)
       (SandboxMes (ForbiddenError (u ''only registered sandbox tables can be replaced''))))
    (rthen (for_each (\<lambda>(column, sql_type). rthen (validate_identifier tx column)
         (guard_r (bulk_capable_type tx sql_type)
           (SandboxMes (InvalidRequestError (u ''replacement schema uses an unsupported column type'')))))
       (sbt_columns t)) (sandbox_conn en s)))"
  have "(r = Inr () \<longrightarrow> sb_content content s' = (sb_content content s)(sbt_name t \<mapsto> loaded load t)) \<and>
    dom (sb_content content s') \<subseteq> dom (sb_content content s) \<union>
      (if sb_allowed_tables s = {} \<or> sbt_name t \<in> sb_allowed_tables s then {sbt_name t} else {})"
  proof (cases ?guard)
    case Inl
    then show ?thesis using assms(2) by (auto simp: replace_table_def)
  next
    case (Inr c)
    then have "sandbox_conn en s = Inr c" by (simp add: result_simps)
    note c = sandbox_conn_content [OF laws this]
    obtain r1 c1 where dropped: "en_drop en (sbt_name t) c = (r1, c1)" by fastforce
    then have c1: "content c1 = (case r1 of Inl _ \<Rightarrow> content c | Inr _ \<Rightarrow> (content c)(sbt_name t := None))"
      using laws unfolding engine_laws_def by blast
    show ?thesis
    proof (cases r1)
      case Inl
      then show ?thesis
        using assms(2) c c1 unfolding replace_table_def Inr sum.case dropped by (auto simp: sb_content_def)
    next
      case r1: (Inr _)
      let ?s1 = "s\<lparr>sb_connection := Some c1, sb_registered := sb_registered s - {sbt_name t},
        sb_row_counts := AList.delete (sbt_name t) (sb_row_counts s)\<rparr>"
      have step: "register_table tx en t ?s1 = (r, s')"
        using assms(2) r1 unfolding replace_table_def Inr sum.case dropped by simp
      have "sb_content content ?s1 = (sb_content content s)(sbt_name t := None)"
        using c c1 r1 by (simp add: sb_content_def)
      moreover have "sb_allowed_tables ?s1 = sb_allowed_tables s" by simp
      moreover note register_table_content [OF laws step]
      ultimately show ?thesis by (auto split: if_splits)
    qed
  qed
  then show "r = Inr () \<Longrightarrow> sb_content content s' = (sb_content content s)(sbt_name t \<mapsto> loaded load t)"
    and "dom (sb_content content s') \<subseteq> dom (sb_content content s) \<union>
      (if sb_allowed_tables s = {} \<or> sbt_name t \<in> sb_allowed_tables s then {sbt_name t} else {})" by blast+
qed

lemma execute_typed_content:
  assumes "engine_laws en load content" and "execute_typed tx en sql params s = (answer, s')" and "reads_only en content sql"
  shows "sb_content content s' = sb_content content s"
proof (cases "rthen (map_sum SandboxMes id (assert_read_only tx sql)) (sandbox_conn en s)")
  case (Inr c)
  then have "sandbox_conn en s = Inr c" by (simp add: result_simps)
  note c = sandbox_conn_content [OF assms(1) this]
  have "content (snd (en_query en sql params c)) = content c" using assms(3) by (simp add: reads_only_def)
  then show ?thesis
    using assms(2) c unfolding execute_typed_def Inr sum.case by (auto simp: sb_content_def split: prod.splits sum.splits)
qed (use assms(2) in \<open>simp add: execute_typed_def\<close>)

section \<open>The life of a sandbox\<close>

text \<open>The steps of a sandbox that is asked to run statements of a given set.\<close>

inductive sandbox_step :: "text_ops \<Rightarrow> ('c, 'v, 'p) engine \<Rightarrow> pystr set \<Rightarrow> 'c sandbox \<Rightarrow> 'c sandbox \<Rightarrow> bool"
  for tx :: text_ops and en :: "('c, 'v, 'p) engine" and stmts :: "pystr set" where
  registers: "register_table tx en t s = (r, s') \<Longrightarrow> sandbox_step tx en stmts s s'"
| replaces: "replace_table tx en t s = (r, s') \<Longrightarrow> sandbox_step tx en stmts s s'"
| queries: "sql \<in> stmts \<Longrightarrow> execute_typed tx en sql params s = (answer, s') \<Longrightarrow> sandbox_step tx en stmts s s'"
| closes: "sandbox_step tx en stmts s (sandbox_close s)"

definition sandbox_wf :: "text_ops \<Rightarrow> pystr list \<Rightarrow> 'c sandbox \<Rightarrow> bool" where
  "sandbox_wf tx allowed s \<longleftrightarrow> sb_allowed_tables s = set allowed \<and>
     (allowed \<noteq> [] \<longrightarrow> sb_registered s \<subseteq> set allowed) \<and> (\<forall>name \<in> sb_registered s. valid_identifier tx name) \<and>
     fst ` set (sb_row_counts s) = sb_registered s \<and>
     (sb_closed s \<longrightarrow> sb_connection s = None \<and> sb_registered s = {}) \<and>
     (sb_connection s = None \<longrightarrow> sb_registered s = {})"

lemma keys_update_image: "fst ` set (AList.update k v d) = insert k (fst ` set d)"
  using keys_update [of k v d] by simp

lemma validate_identifier_Inr [result_simps]:
  "validate_identifier tx name = Inr x \<longleftrightarrow> valid_identifier tx name"
  by (simp add: validate_identifier_def guard_r_Inr)

lemma sandbox_conn_Inr: "sandbox_conn en s = Inr c \<Longrightarrow> \<not> sb_closed s"
  by (simp add: sandbox_conn_def split: if_splits)

text \<open>A registration either leaves the tables as they were or adds a permitted one.\<close>

lemma register_table_cases:
  assumes "register_table tx en t s = (r, s')"
  shows "s' = s \<or> (\<not> sb_closed s \<and> (\<exists>c. s' = s\<lparr>sb_connection := Some c\<rparr> \<or>
    (valid_identifier tx (sbt_name t) \<and> (sb_allowed_tables s = {} \<or> sbt_name t \<in> sb_allowed_tables s) \<and>
     s' = s\<lparr>sb_connection := Some c, sb_registered := insert (sbt_name t) (sb_registered s),
       sb_row_counts := AList.update (sbt_name t) (length (sbt_rows t)) (sb_row_counts s)\<rparr>)))"
proof -
  let ?guard = "rthen (validate_identifier tx (sbt_name t))
    (rthen (guard_r (sb_allowed_tables s = {} \<or> sbt_name t \<in> sb_allowed_tables s)
       (SandboxMes (ForbiddenError (u ''table name is not in the reviewed whitelist''))))
    (sandbox_conn en s))"
  show ?thesis
  proof (cases ?guard)
    case Inl
    then show ?thesis using assms by (simp add: register_table_def)
  next
    case (Inr c)
    then have ok: "valid_identifier tx (sbt_name t)" "sb_allowed_tables s = {} \<or> sbt_name t \<in> sb_allowed_tables s"
      "\<not> sb_closed s" using sandbox_conn_Inr [of en s c] by (simp_all add: result_simps)
    show ?thesis
      using assms ok unfolding register_table_def Inr sum.case
      by (auto split: sum.splits prod.splits if_splits)
  qed
qed

lemma register_table_wf:
  assumes "register_table tx en t s = (r, s')" and "sandbox_wf tx allowed s"
  shows "sandbox_wf tx allowed s'"
  using register_table_cases [OF assms(1)]
proof (elim disjE exE conjE)
  fix c
  assume "\<not> sb_closed s" "s' = s\<lparr>sb_connection := Some c\<rparr>"
  then show ?thesis using assms(2) by (simp add: sandbox_wf_def)
next
  fix c
  assume new: "\<not> sb_closed s" "valid_identifier tx (sbt_name t)"
    "s' = s\<lparr>sb_connection := Some c, sb_registered := insert (sbt_name t) (sb_registered s),
       sb_row_counts := AList.update (sbt_name t) (length (sbt_rows t)) (sb_row_counts s)\<rparr>"
  assume "sb_allowed_tables s = {}"
  then show ?thesis using assms(2) new by (simp add: sandbox_wf_def keys_update_image)
next
  fix c
  assume new: "\<not> sb_closed s" "valid_identifier tx (sbt_name t)"
    "s' = s\<lparr>sb_connection := Some c, sb_registered := insert (sbt_name t) (sb_registered s),
       sb_row_counts := AList.update (sbt_name t) (length (sbt_rows t)) (sb_row_counts s)\<rparr>"
  assume "sbt_name t \<in> sb_allowed_tables s"
  then show ?thesis using assms(2) new by (simp add: sandbox_wf_def keys_update_image)
qed (use assms(2) in simp)

lemma keys_delete_image: "fst ` set (AList.delete k d) = fst ` set d - {k}"
  by (auto simp: AList.delete_eq image_iff)

lemma replace_table_cases:
  assumes "replace_table tx en t s = (r, s')"
  shows "s' = s \<or> (\<not> sb_closed s \<and> (\<exists>c. s' = s\<lparr>sb_connection := Some c\<rparr> \<or>
    register_table tx en t (s\<lparr>sb_connection := Some c, sb_registered := sb_registered s - {sbt_name t},
      sb_row_counts := AList.delete (sbt_name t) (sb_row_counts s)\<rparr>) = (r, s')))"
proof -
  let ?guard = "rthen (validate_identifier tx (sbt_name t))
    (rthen (guard_r (sbt_name t \<in> sb_registered s)
       (SandboxMes (ForbiddenError (u ''only registered sandbox tables can be replaced''))))
    (rthen (for_each (\<lambda>(column, sql_type). rthen (validate_identifier tx column)
         (guard_r (bulk_capable_type tx sql_type)
           (SandboxMes (InvalidRequestError (u ''replacement schema uses an unsupported column type'')))))
       (sbt_columns t)) (sandbox_conn en s)))"
  show ?thesis
  proof (cases ?guard)
    case Inl
    then show ?thesis using assms by (simp add: replace_table_def)
  next
    case (Inr c)
    then have "\<not> sb_closed s" using sandbox_conn_Inr [of en s c] by (simp add: result_simps)
    then show ?thesis
      using assms unfolding replace_table_def Inr sum.case by (auto split: sum.splits prod.splits)
  qed
qed

lemma replace_table_wf:
  assumes "replace_table tx en t s = (r, s')" and "sandbox_wf tx allowed s"
  shows "sandbox_wf tx allowed s'"
proof -
  have "sandbox_wf tx allowed (s\<lparr>sb_connection := Some c, sb_registered := sb_registered s - {sbt_name t},
      sb_row_counts := AList.delete (sbt_name t) (sb_row_counts s)\<rparr>)" if "\<not> sb_closed s" for c
    using assms(2) that by (auto simp: sandbox_wf_def keys_delete_image)
  moreover have "sandbox_wf tx allowed (s\<lparr>sb_connection := Some c\<rparr>)" if "\<not> sb_closed s" for c
    using assms(2) that by (auto simp: sandbox_wf_def)
  ultimately show ?thesis using replace_table_cases [OF assms(1)] register_table_wf assms(2) by metis
qed

text \<open>A query that the gate refuses, or that comes after the end, touches nothing.\<close>

lemma execute_typed_cases:
  assumes "execute_typed tx en sql params s = (answer, s')"
  shows "(\<exists>e. answer = Inl (SandboxMes e)) \<and> s' = s \<and> (assert_read_only tx sql \<noteq> Inr () \<or> sb_closed s) \<or>
    assert_read_only tx sql = Inr () \<and> \<not> sb_closed s \<and> (\<exists>c. s' = s\<lparr>sb_connection := Some c\<rparr>)"
proof (cases "assert_read_only tx sql")
  case (Inr unit)
  then show ?thesis
    using assms by (auto simp: execute_typed_def sandbox_conn_def split: if_splits prod.splits sum.splits)
qed (use assms in \<open>auto simp: execute_typed_def\<close>)

lemma sandbox_step_wf:
  assumes "sandbox_step tx en stmts s s'" and "sandbox_wf tx allowed s"
  shows "sandbox_wf tx allowed s'"
  using assms(1)
proof (cases rule: sandbox_step.cases)
  case (queries sql params answer)
  then have "s' = s \<or> \<not> sb_closed s \<and> (\<exists>c. s' = s\<lparr>sb_connection := Some c\<rparr>)"
    using execute_typed_cases by blast
  then show ?thesis using assms(2) by (elim disjE exE conjE) (simp_all add: sandbox_wf_def)
next
  case closes
  then show ?thesis using assms(2) by (auto simp: sandbox_wf_def sandbox_close_def)
qed (use assms(2) register_table_wf replace_table_wf in blast)+

text \<open>No table outside the whitelist is on the connection, as long as the statements only read.\<close>

definition tables_within :: "('c \<Rightarrow> pystr \<Rightarrow> 't option) \<Rightarrow> pystr list \<Rightarrow> 'c sandbox \<Rightarrow> bool" where
  "tables_within content allowed s \<longleftrightarrow> (allowed \<noteq> [] \<longrightarrow> dom (sb_content content s) \<subseteq> set allowed)"

lemma sandbox_step_within:
  assumes laws: "engine_laws en load content" and reads: "\<forall>sql \<in> stmts. reads_only en content sql"
    and "sandbox_step tx en stmts s s'" and "sandbox_wf tx allowed s" and "tables_within content allowed s"
  shows "tables_within content allowed s'"
proof -
  have allowed: "sb_allowed_tables s = set allowed" using assms(4) by (simp add: sandbox_wf_def)
  show ?thesis
    using assms(3)
  proof (cases rule: sandbox_step.cases)
    case (registers t r)
    show ?thesis
      using register_table_content(2) [OF laws registers] assms(5)
      by (auto simp: tables_within_def allowed split: if_splits)
  next
    case (replaces t r)
    show ?thesis
      using replace_table_content(2) [OF laws replaces] assms(5)
      by (auto simp: tables_within_def allowed split: if_splits)
  next
    case (queries sql params answer)
    then show ?thesis using execute_typed_content [OF laws queries(2)] reads assms(5) by (simp add: tables_within_def)
  next
    case closes
    then show ?thesis using assms(5) by (auto simp: tables_within_def sb_content_def sandbox_close_def)
  qed
qed

lemma sandbox_steps:
  assumes "new_sandbox tx allowed = Inr s0" and "(sandbox_step tx en stmts)\<^sup>*\<^sup>* s0 s"
    and "engine_laws en load content" "\<forall>sql \<in> stmts. reads_only en content sql"
  shows "sandbox_wf tx allowed s \<and> tables_within content allowed s"
  using assms(2)
proof (induction rule: rtranclp_induct)
  case base
  show ?case
    using assms(1) by (auto simp: new_sandbox_def sandbox_wf_def tables_within_def sb_content_def result_simps)
next
  case (step s s')
  then show ?case using sandbox_step_wf sandbox_step_within [OF assms(3,4)] by blast
qed

lemma closed_sandbox_stuck:
  assumes "sandbox_step tx en stmts s s'" and "sb_closed s"
  shows "s' = s"
  using assms(1)
proof (cases rule: sandbox_step.cases)
  case (registers t r)
  then show ?thesis using register_table_cases [OF registers] assms(2) by blast
next
  case (replaces t r)
  then show ?thesis using replace_table_cases [OF replaces] assms(2) by blast
next
  case (queries sql params answer)
  then show ?thesis using execute_typed_cases [OF queries(2)] assms(2) by blast
qed (use assms(2) in \<open>simp add: sandbox_close_def\<close>)


text \<open>An engine that keeps its tables in a list, stores rows as they are bound, and gives every query
  the same answer; and the ASCII character tables.\<close>

type_synonym table_list = "(pystr, (pystr \<times> pystr) list \<times> (pystr \<times> json option) list list) dict"

definition append_rows :: "pystr \<Rightarrow> (pystr \<times> json option) list list \<Rightarrow> table_list \<Rightarrow> table_list" where
  "append_rows name new c = (case map_of c name of None \<Rightarrow> c
     | Some (columns, old) \<Rightarrow> AList.update name (columns, old @ new) c)"

definition table_engine :: "pystr list \<times> 'v list list \<Rightarrow> (table_list, 'v, 'p) engine" where
  "table_engine answer = \<lparr>en_connect = [], en_create = (\<lambda>name columns c. (Inr (), AList.update name (columns, []) c)),
     en_insert_bulk = (\<lambda>name columns rows c. (True, append_rows name (map (bound_row columns) rows) c)),
     en_insert_row = (\<lambda>name row c. (Inr (), append_rows name [row] c)),
     en_drop = (\<lambda>name c. (Inr (), AList.delete name c)), en_query = (\<lambda>_ _ c. (Inr answer, c))\<rparr>"

lemma table_engine_laws: "engine_laws (table_engine answer) (\<lambda>_ row. row) map_of"
proof -
  have "map_of (append_rows name new c) =
      (map_of c)(name := map_option (\<lambda>(columns, old). (columns, old @ new)) (map_of c name))" for name new c
    by (auto simp: append_rows_def update_conv' split: option.splits)
  then show ?thesis
    by (auto simp: engine_laws_def table_engine_def update_conv' delete_conv' comp_def map_option_case
        split: option.splits)
qed

definition ascii_text :: text_ops where
  "ascii_text = \<lparr>tx_upper = map (\<lambda>c. if 97 \<le> c \<and> c \<le> 122 then c - 32 else c),
     tx_isalnum = (\<lambda>c. 48 \<le> c \<and> c \<le> 57 \<or> 65 \<le> c \<and> c \<le> 90 \<or> 97 \<le> c \<and> c \<le> 122),
     tx_isdigit = (\<lambda>c. 48 \<le> c \<and> c \<le> 57)\<rparr>"

definition wage_table :: sandbox_table where
  "wage_table = \<lparr>sbt_name = u ''pay_1'', sbt_rows = [], sbt_columns = [(u ''je'', u ''VARCHAR'')]\<rparr>"

definition open_sandbox :: "table_list sandbox" where
  "open_sandbox = \<lparr>sb_allowed_tables = {u ''pay_1''}, sb_connection = Some [(u ''pay_1'', ([(u ''je'', u ''VARCHAR'')], []))],
     sb_registered = {u ''pay_1''}, sb_row_counts = [(u ''pay_1'', 0)], sb_closed = False\<rparr>"

definition idle_engine :: "(table_list, json, unit) engine" where "idle_engine = table_engine ([], [])"

lemma pay_identifier: "valid_identifier ascii_text (u ''pay_1'')"
  by (simp add: valid_identifier_def ascii_text_def str_eval)


text \<open>
  What the gate does not see: it looks at the first word only, so a second statement after a
  semicolon, and the data-changing statement that ends a \<^verbatim>\<open>WITH\<close> clause, pass.
\<close>

lemma read_only_gate_accepts_writes:
  "assert_read_only ascii_text (u ''SELECT 1; DELETE FROM pay_1'') = Inr ()"
  "assert_read_only ascii_text (u ''with t as (select 1) insert into pay_1 select * from t'') = Inr ()"
  by (simp_all add: assert_read_only_def Let_def first_word_def stripped_sql_def ascii_text_def READ_WORDS_def
      FORBIDDEN_PREFIXES_def FORBIDDEN_TOKENS_def starts_with_def str_eval)

text \<open>
  So an engine that runs what it is given, both statements of the text, ends up with a table outside
  the whitelist that the sandbox does not know of.
\<close>

definition running_engine :: "(table_list, json, unit) engine" where
  "running_engine = idle_engine\<lparr>en_query := (\<lambda>sql _ c. (Inr ([], []),
     if sql = u ''SELECT 1; CREATE TABLE extra (i INT)'' then AList.update (u ''extra'') ([(u ''i'', u ''INT'')], []) c else c))\<rparr>"

lemma accepted_statement_creates_table:
  "\<exists>s'. execute_typed ascii_text running_engine (u ''SELECT 1; CREATE TABLE extra (i INT)'') None open_sandbox = (Inr ([], []), s') \<and>
    u ''extra'' \<in> dom (sb_content map_of s') \<and> u ''extra'' \<notin> sb_allowed_tables s' \<and> u ''extra'' \<notin> sb_registered s'"
proof -
  have "assert_read_only ascii_text (u ''SELECT 1; CREATE TABLE extra (i INT)'') = Inr ()"
    by (simp add: assert_read_only_def Let_def first_word_def stripped_sql_def ascii_text_def READ_WORDS_def
        FORBIDDEN_PREFIXES_def FORBIDDEN_TOKENS_def starts_with_def str_eval)
  then show ?thesis
    by (simp add: execute_typed_def sandbox_conn_def open_sandbox_def running_engine_def sb_content_def update_conv'
        str_eval)
qed

end
