(* ===== verification/Kernel.thy ===== *)
theory Kernel
  imports CachedFetch Sandbox
begin

text \<open>
  The execution kernel (\<^verbatim>\<open>execution/kernel.py\<close>), first half: the API steps of a recipe.
  Each step is fetched through the scoped executor (or the employee roster), a step with parameter
  bindings fans out over the distinct values of its dependency within the call budget, an upstream
  failure degrades the step to an explicit incomplete page, and the rows become a sandbox table.

  The executor and the run control act on a world \<open>'w\<close>.  A batch hands its \<open>_fetch_one\<close> actions to
  \<open>asyncio.gather\<close>, the argument \<open>kv_gather\<close>: it runs the actions in some interleaving and answers in
  the order of the actions.  The
  sandbox is the model of theory \<open>Sandbox\<close>.  Logs, traces and time limits are left out.
\<close>

section \<open>Values, errors and the environment\<close>

text \<open>A value of a result row: what a source row holds, or a decimal number.\<close>

datatype 'd cell = Cell json | Dec 'd

type_synonym 'd crow = "(pystr, 'd cell) dict"
type_synonym bind_params = "(pystr, pystr list) dict"

datatype kernel_error = KernelMes mes_error | KernelDuckdb | RunStopped pystr | KernelCrash

definition lift_sandbox :: "sandbox_error + 'a \<Rightarrow> kernel_error + 'a" where
  "lift_sandbox r = map_sum (\<lambda>e. case e of SandboxMes m \<Rightarrow> KernelMes m | SandboxDuckdb \<Rightarrow> KernelDuckdb) id r"

definition UNAVAILABLE_VALUE :: pystr where "UNAVAILABLE_VALUE = u ''unavailable''"

datatype metric_status = CONFIRMED | UNCONFIRMED | UNAVAILABLE

record metric_definition =
  md_name :: pystr
  md_version :: pystr
  md_status :: metric_status
  md_assumption_status :: pystr

type_synonym metric_registry = "(pystr \<times> pystr, metric_definition) dict"

definition allows_numeric_rendering :: "metric_definition \<Rightarrow> bool" where
  "allows_numeric_rendering m \<longleftrightarrow> md_status m = CONFIRMED"

definition register_metric :: "metric_definition \<Rightarrow> metric_registry \<Rightarrow> metric_registry" where
  "register_metric m reg = AList.update (md_name m, md_version m) m reg"

definition new_metric_registry :: "metric_definition list \<Rightarrow> metric_registry" where
  "new_metric_registry ms = fold register_metric ms []"

definition registry_resolve :: "metric_registry \<Rightarrow> pystr \<Rightarrow> pystr \<Rightarrow> mes_error + metric_definition" where
  "registry_resolve reg name version = (case map_of reg (name, version) of Some m \<Rightarrow> Inr m
     | None \<Rightarrow> Inl (InvalidRequestError (u ''metric is not registered: '' @ name @ u ''@'' @ version)))"

definition registry_has :: "metric_registry \<Rightarrow> pystr \<Rightarrow> pystr \<Rightarrow> bool" where
  "registry_has reg name version \<longleftrightarrow> map_of reg (name, version) \<noteq> None"

record kernel_settings =
  ks_page_size :: int
  ks_max_api_calls :: int
  ks_delivery_warning_ratio_percent :: int
  ks_delivery_warning_fallback_days :: int
  ks_fanout_concurrency :: int

definition default_kernel_settings :: kernel_settings where
  "default_kernel_settings = \<lparr>ks_page_size = 200, ks_max_api_calls = 500, ks_delivery_warning_ratio_percent = 10,
     ks_delivery_warning_fallback_days = 7, ks_fanout_concurrency = 4\<rparr>"

record fetch_call =
  fc_operation_id :: pystr
  fc_filters :: narrowed_filters
  fc_time_range :: "instant \<times> instant"
  fc_params :: jdict
  fc_role :: "role option"

type_synonym 'w fetch_action = "'w \<Rightarrow> (kernel_error + fetch_result) \<times> 'w"

record ('w, 'c, 'd) kernel_env =
  kv_settings :: kernel_settings
  kv_metrics :: metric_registry
  kv_resource_columns :: "(pystr, pystr list) dict"
  kv_base_data_operations :: "pystr set"
  kv_employee_roster :: "(narrowed_filters \<Rightarrow> 'w fetch_action) option"
  kv_execute :: "narrowed_filters \<Rightarrow> execution_request \<Rightarrow> jdict option \<Rightarrow> 'w fetch_action"
  kv_gather :: "'w fetch_action list \<Rightarrow> 'w \<Rightarrow> (kernel_error + fetch_result) list \<times> 'w"
  kv_consume :: "nat \<Rightarrow> 'w \<Rightarrow> (kernel_error + unit) \<times> 'w"
  kv_release :: "fetch_result \<Rightarrow> 'w \<Rightarrow> 'w"
  kv_discard :: "fetch_result \<Rightarrow> 'w \<Rightarrow> 'w"
  kv_engine :: "('c, 'd cell, bind_params) engine"
  kv_text :: text_ops
  kv_chars :: char_class
  kv_codec :: json_codec
  kv_decimals :: "'d decimals"
  kv_calendar :: calendar
  kv_listing :: "pystr set \<Rightarrow> pystr list"
  kv_zone :: "instant \<Rightarrow> int"

record ('w, 'c) kernel_state =
  kn_sandbox :: "'c sandbox"
  kn_world :: 'w

section \<open>One fetch\<close>

definition FILTER_PARAM_KEYS :: "pystr set" where
  "FILTER_PARAM_KEYS = set (map u [''scheme'', ''Type'', ''Flag'', ''queryFooter'', ''userid'', ''huohao'', ''dh'',
     ''jhdh'', ''detailId'', ''groupbyFields''])"

text \<open>The upstream failures that degrade a step, and their labels.\<close>

fun degrades :: "kernel_error \<Rightarrow> bool" where
  "degrades (KernelMes (UpstreamInvalidError m)) = True"
| "degrades (KernelMes (UpstreamUnavailableError m)) = True"
| "degrades (KernelMes (RateLimitedError m s)) = True"
| "degrades (KernelMes (MesTimeoutError m)) = True"
| "degrades e = False"

fun upstream_reason :: "kernel_error \<Rightarrow> pystr" where
  "upstream_reason (KernelMes (UpstreamInvalidError m)) = u ''upstream_invalid''"
| "upstream_reason (KernelMes (RateLimitedError m s)) = u ''upstream_rate_limited''"
| "upstream_reason (KernelMes (MesTimeoutError m)) = u ''upstream_timeout''"
| "upstream_reason (KernelMes (UpstreamUnavailableError m)) = u ''upstream_unavailable''"
| "upstream_reason e = u ''upstream_error''"

definition fetch_one :: "('w, 'c, 'd) kernel_env \<Rightarrow> fetch_call \<Rightarrow> 'w fetch_action" where
  "fetch_one env call =
     (case (if fc_operation_id call = u ''EmployeeQuery'' then kv_employee_roster env else None) of
        Some roster \<Rightarrow> roster (fc_filters call)
      | None \<Rightarrow> kv_execute env (fc_filters call)
          \<lparr>er_operation_id = fc_operation_id call, er_time_range = fc_time_range call,
           er_pagination_size = ks_page_size (kv_settings env), er_request_role = fc_role call\<rparr>
          (none_if_empty (fc_params call)))"

text \<open>One batch: \<open>asyncio.gather(*(self._fetch_one(...)), return_exceptions=True)\<close>.\<close>

definition gather_calls ::
  "('w, 'c, 'd) kernel_env \<Rightarrow> fetch_call list \<Rightarrow> 'w \<Rightarrow> (kernel_error + fetch_result) list \<times> 'w" where
  "gather_calls env calls = kv_gather env (map (fetch_one env) calls)"

definition param_json :: "param_value \<Rightarrow> json" where
  "param_json v = (case v of ParamStr s \<Rightarrow> JStr s | ParamList xs \<Rightarrow> JList (map JStr xs))"

definition reviewed_params :: "(pystr, param_value) dict option \<Rightarrow> kernel_error + jdict" where
  "reviewed_params params =
     (if fst ` set (items_or_empty params) \<subseteq> FILTER_PARAM_KEYS
      then Inr (map (map_prod id param_json) (items_or_empty params))
      else Inl (KernelMes (InvalidRequestError (u ''recipe params contain non-filter keys''))))"

text \<open>What the kernel counts for a fetch: nothing for a cache hit without a baseline.\<close>

definition kernel_call_count :: "fetch_result \<Rightarrow> int" where
  "kernel_call_count f = (case rs_source_call_count f of Some n \<Rightarrow> n
     | None \<Rightarrow> of_bool (rs_cache_source f = None \<or> rs_shadow_result f \<noteq> None))"

definition plain_fetch :: "row list \<Rightarrow> int \<Rightarrow> bool \<Rightarrow> pystr option \<Rightarrow> footer option \<Rightarrow> fetch_result" where
  "plain_fetch rows pages whole reason footer = \<lparr>rs_rows = rows, rs_total = int (length rows),
     rs_pages_fetched = pages, rs_complete = whole, rs_reason = reason, rs_footer = footer, rs_cache_source = None,
     rs_cache_generated_at = None, rs_shadow_result = None, rs_source_call_count = None\<rparr>"

definition degraded_fetch :: "kernel_error \<Rightarrow> fetch_result" where
  "degraded_fetch e = plain_fetch [] 0 False (Some (upstream_reason e)) None"

section \<open>Fan-out\<close>

definition binding_identifiers :: "char_class \<Rightarrow> pystr \<Rightarrow> pystr \<times> param_binding \<Rightarrow> kernel_error + pystr \<times> pystr" where
  "binding_identifiers cc step_id b = (case b of (param, binding) \<Rightarrow>
     if is_safe_identifier cc (pb_from_step binding) \<and> is_safe_identifier cc (pb_column binding)
     then Inr (pb_from_step binding, pb_column binding)
     else Inl (KernelMes (InvalidRequestError (u ''step '' @ step_id @ u '' param '' @ param @
       u '' binds an unsafe identifier''))))"

text \<open>34 is the double quote.\<close>

definition quoted :: "pystr \<Rightarrow> pystr" where "quoted s = [34] @ s @ [34]"

definition distinct_values_sql :: "pystr \<Rightarrow> pystr \<Rightarrow> pystr" where
  "distinct_values_sql from_step column = u ''SELECT DISTINCT '' @ quoted column @ u '' FROM '' @ quoted from_step @
     u '' WHERE '' @ quoted column @ u '' IS NOT NULL ORDER BY 1''"

definition value_text :: "('w, 'c, 'd) kernel_env \<Rightarrow> 'd cell \<Rightarrow> pystr" where
  "value_text env v = (case v of Cell j \<Rightarrow> json_str (kv_codec env) j | Dec d \<Rightarrow> dc_str (kv_decimals env) d)"

text \<open>A query, its failure reported under another message; a refused statement propagates.\<close>

definition rejected_as :: "pystr \<Rightarrow> sandbox_error + 'a \<Rightarrow> kernel_error + 'a" where
  "rejected_as m r = (case r of Inl (SandboxMes (InvalidRequestError _)) \<Rightarrow> Inl (KernelMes (InvalidRequestError m))
     | _ \<Rightarrow> lift_sandbox r)"

fun bound_values ::
  "('w, 'c, 'd) kernel_env \<Rightarrow> pystr \<Rightarrow> (pystr, param_binding) dict \<Rightarrow> 'c sandbox \<Rightarrow>
   (kernel_error + (pystr \<times> pystr list) list) \<times> 'c sandbox" where
  "bound_values env step_id [] s = (Inr [], s)"
| "bound_values env step_id (b # bs) s =
     (case binding_identifiers (kv_chars env) step_id b of
        Inl e \<Rightarrow> (Inl e, s)
      | Inr (from_step, column) \<Rightarrow>
          (case sandbox_execute (kv_text env) (kv_engine env) (distinct_values_sql from_step column) None s of
             (answer, s') \<Rightarrow> (case rejected_as (u ''sandbox rejected param binding for '' @ step_id) answer of
                 Inl e \<Rightarrow> (Inl e, s')
               | Inr rows \<Rightarrow> (case bound_values env step_id bs s' of
                   (rest, s'') \<Rightarrow> (rbind rest (\<lambda>sets. Inr ((fst b,
                     map (\<lambda>r. case r of [] \<Rightarrow> [] | v # _ \<Rightarrow> value_text env v) rows) # sets)), s'')))))"

text \<open>\<open>itertools.product\<close>: the last parameter varies fastest.\<close>

definition combos_of :: "(pystr \<times> pystr list) list \<Rightarrow> (pystr, pystr) dict list" where
  "combos_of value_sets = map (zip (map fst value_sets)) (product_lists (map snd value_sets))"

text \<open>\<open>{**static_params, **combo}\<close>.\<close>

definition with_combo :: "jdict \<Rightarrow> (pystr, pystr) dict \<Rightarrow> jdict" where
  "with_combo params combo = fold (\<lambda>(k, v). AList.update k (JStr v)) combo params"

record fan_out =
  fo_rows :: "row list"
  fo_calls :: int
  fo_footer :: "footer option"
  fo_complete :: bool
  fo_reason :: "pystr option"

definition nothing_fetched :: fan_out where
  "nothing_fetched = \<lparr>fo_rows = [], fo_calls = 0, fo_footer = None, fo_complete = True, fo_reason = None\<rparr>"

definition absorb :: "kernel_error + fetch_result \<Rightarrow> fan_out \<Rightarrow> kernel_error + fan_out" where
  "absorb outcome acc = rbind outcome (\<lambda>f. Inr
     \<lparr>fo_rows = fo_rows acc @ rs_rows f, fo_calls = fo_calls acc + kernel_call_count f,
      fo_footer = (if rs_footer f \<noteq> None then rs_footer f else fo_footer acc),
      fo_complete = (fo_complete acc \<and> rs_complete f),
      fo_reason = (if rs_complete f then fo_reason acc
        else (case rs_reason f of Some r \<Rightarrow> if r \<noteq> [] then Some r else fo_reason acc | None \<Rightarrow> fo_reason acc))\<rparr>)"

text \<open>The batches of \<open>concurrency\<close> calls; the first failure in call order decides.\<close>

function fan_batches ::
  "(fetch_call list \<Rightarrow> 'w \<Rightarrow> (kernel_error + fetch_result) list \<times> 'w) \<Rightarrow> nat \<Rightarrow> fetch_call list \<Rightarrow> fan_out \<Rightarrow> 'w \<Rightarrow>
   (kernel_error + fan_out) \<times> 'w" where
  "fan_batches gather width [] acc w = (Inr acc, w)"
| "fan_batches gather width (c # cs) acc w =
     (case gather (take (Suc width) (c # cs)) w of
        (outcomes, w') \<Rightarrow> (case rfold absorb outcomes acc of
            Inl e \<Rightarrow> (Inl e, w')
          | Inr acc' \<Rightarrow> fan_batches gather width (drop width cs) acc' w'))"
  by pat_completeness auto
termination by (relation "measure (\<lambda>(_, _, cs, _, _). length cs)") auto

definition batch_width :: "kernel_settings \<Rightarrow> nat" where
  "batch_width settings = nat (max 1 (ks_fanout_concurrency settings) - 1)"

definition remaining_budget :: "kernel_settings \<Rightarrow> int \<Rightarrow> nat" where
  "remaining_budget settings call_count = nat (max (ks_max_api_calls settings - call_count) 0)"

definition fan_result :: "nat \<Rightarrow> nat \<Rightarrow> fan_out \<Rightarrow> fetch_result" where
  "fan_result covered combos acc =
     (let short = covered < combos in
      plain_fetch (fo_rows acc) (fo_calls acc) (fo_complete acc \<and> \<not> short)
        (if short then Some (u ''call_budget_exhausted'') else fo_reason acc)
        (if combos \<le> 1 then fo_footer acc else None))"

definition step_call ::
  "pystr \<Rightarrow> narrowed_filters \<Rightarrow> instant \<times> instant \<Rightarrow> role option \<Rightarrow> jdict \<Rightarrow> fetch_call" where
  "step_call op filters tr rl params = \<lparr>fc_operation_id = op, fc_filters = filters, fc_time_range = tr,
     fc_params = params, fc_role = rl\<rparr>"

definition fetch_fanned ::
  "('w, 'c, 'd) kernel_env \<Rightarrow> pystr \<Rightarrow> pystr \<Rightarrow> (pystr, param_binding) dict \<Rightarrow> jdict \<Rightarrow> narrowed_filters \<Rightarrow>
   instant \<times> instant \<Rightarrow> int \<Rightarrow> role option \<Rightarrow> ('w, 'c) kernel_state \<Rightarrow>
   (kernel_error + fetch_result) \<times> ('w, 'c) kernel_state" where
  "fetch_fanned env step_id op bindings static_params filters tr call_count rl st =
     (case bound_values env step_id bindings (kn_sandbox st) of
        (Inl e, s) \<Rightarrow> (Inl e, st\<lparr>kn_sandbox := s\<rparr>)
      | (Inr value_sets, s) \<Rightarrow>
          let combos = combos_of value_sets;
              covered = take (remaining_budget (kv_settings env) call_count) combos in
          (case fan_batches (gather_calls env) (batch_width (kv_settings env))
              (map (\<lambda>combo. step_call op filters tr rl (with_combo static_params combo)) covered)
              nothing_fetched (kn_world st) of
             (outcome, w) \<Rightarrow> (rbind outcome (\<lambda>acc. Inr (fan_result (length covered) (length combos) acc)),
               st\<lparr>kn_sandbox := s, kn_world := w\<rparr>)))"

section \<open>The API steps of a recipe\<close>

definition table_columns :: "row list \<Rightarrow> capability_recipe \<Rightarrow> pystr \<Rightarrow> (pystr \<times> pystr) list" where
  "table_columns rows recipe step_id = map (\<lambda>name. (name, u ''VARCHAR''))
     (from_keys (concat (map (map fst) rows) @
        map rc_name (filter (\<lambda>c. rc_source_step c = step_id) (cr_result_columns recipe))))"

definition table_columns_for ::
  "('w, 'c, 'd) kernel_env \<Rightarrow> recipe_step \<Rightarrow> row list \<Rightarrow> capability_recipe \<Rightarrow> (pystr \<times> pystr) list" where
  "table_columns_for env step rows recipe =
     (if rows \<noteq> [] then table_columns rows recipe (rs_step_id step)
      else (case map_of (kv_resource_columns env) (case rs_operation_id step of Some op \<Rightarrow> op | None \<Rightarrow> []) of
          Some known \<Rightarrow> if known \<noteq> [] then map (\<lambda>name. (name, u ''VARCHAR'')) known else [(u ''__empty__'', u ''VARCHAR'')]
        | None \<Rightarrow> [(u ''__empty__'', u ''VARCHAR'')]))"

definition step_table ::
  "('w, 'c, 'd) kernel_env \<Rightarrow> recipe_step \<Rightarrow> fetch_result \<Rightarrow> capability_recipe \<Rightarrow> sandbox_table" where
  "step_table env step f recipe = \<lparr>sbt_name = rs_step_id step, sbt_rows = rs_rows f,
     sbt_columns = table_columns_for env step (rs_rows f) recipe\<rparr>"

text \<open>One step with its call count: fanned out, or a single fetch.\<close>

definition fetch_step ::
  "('w, 'c, 'd) kernel_env \<Rightarrow> recipe_step \<Rightarrow> pystr \<Rightarrow> jdict \<Rightarrow> narrowed_filters \<Rightarrow> instant \<times> instant \<Rightarrow> int \<Rightarrow>
   role option \<Rightarrow> ('w, 'c) kernel_state \<Rightarrow> (kernel_error + fetch_result \<times> int) \<times> ('w, 'c) kernel_state" where
  "fetch_step env step op params filters tr call_count rl st =
     (if items_or_empty (rs_param_bindings step) \<noteq> []
      then (case fetch_fanned env (rs_step_id step) op (items_or_empty (rs_param_bindings step)) params filters tr
          call_count rl st of
         (outcome, st') \<Rightarrow> (rbind outcome (\<lambda>f. Inr (f, call_count + rs_pages_fetched f)), st'))
      else (case fetch_one env (step_call op filters tr rl params) (kn_world st) of
         (outcome, w) \<Rightarrow> (rbind outcome (\<lambda>f. Inr (f, call_count + kernel_call_count f)), st\<lparr>kn_world := w\<rparr>)))"

definition degrade :: "int \<Rightarrow> kernel_error + fetch_result \<times> int \<Rightarrow> kernel_error + fetch_result \<times> int" where
  "degrade call_count outcome = (case outcome of
     Inl e \<Rightarrow> if degrades e then Inr (degraded_fetch e, call_count) else Inl e | _ \<Rightarrow> outcome)"

definition register_step ::
  "('w, 'c, 'd) kernel_env \<Rightarrow> capability_recipe \<Rightarrow> recipe_step \<Rightarrow> fetch_result \<Rightarrow> ('w, 'c) kernel_state \<Rightarrow>
   (kernel_error + unit) \<times> ('w, 'c) kernel_state" where
  "register_step env recipe step f st =
     (case kv_consume env (length (rs_rows f)) (kn_world st) of
        (Inl e, w) \<Rightarrow> (Inl e, st\<lparr>kn_world := w\<rparr>)
      | (Inr _, w) \<Rightarrow> (case register_table (kv_text env) (kv_engine env) (step_table env step f recipe) (kn_sandbox st) of
          (outcome, s) \<Rightarrow> (lift_sandbox outcome, st\<lparr>kn_sandbox := s, kn_world := w\<rparr>)))"

type_synonym fetches = "(pystr, fetch_result) dict"

definition fetch_api_step ::
  "('w, 'c, 'd) kernel_env \<Rightarrow> capability_recipe \<Rightarrow> narrowed_filters \<Rightarrow> instant \<times> instant \<Rightarrow> role option \<Rightarrow>
   recipe_step \<Rightarrow> fetches \<times> int \<Rightarrow> ('w, 'c) kernel_state \<Rightarrow>
   (kernel_error + fetches \<times> int) \<times> ('w, 'c) kernel_state" where
  "fetch_api_step env recipe filters tr rl step acc st =
     (case rs_operation_id step of
        None \<Rightarrow> (Inl (KernelMes (InvalidRequestError (u ''api step '' @ rs_step_id step @ u '' has no operation''))), st)
      | Some op \<Rightarrow> (case reviewed_params (rs_params step) of
          Inl e \<Rightarrow> (Inl e, st)
        | Inr params \<Rightarrow> (case fetch_step env step op params filters tr (snd acc) rl st of
            (outcome, st') \<Rightarrow> (case degrade (snd acc) outcome of
                Inl e \<Rightarrow> (Inl e, st')
              | Inr (f, calls) \<Rightarrow> (case register_step env recipe step f st' of
                  (outcome', st'') \<Rightarrow>
                    (rbind outcome' (\<lambda>_. Inr (AList.update (rs_step_id step) f (fst acc), calls)), st''))))))"

fun fetch_api_steps ::
  "('w, 'c, 'd) kernel_env \<Rightarrow> capability_recipe \<Rightarrow> narrowed_filters \<Rightarrow> instant \<times> instant \<Rightarrow> role option \<Rightarrow>
   recipe_step list \<Rightarrow> fetches \<times> int \<Rightarrow> ('w, 'c) kernel_state \<Rightarrow>
   (kernel_error + fetches \<times> int) \<times> ('w, 'c) kernel_state" where
  "fetch_api_steps env recipe filters tr rl [] acc st = (Inr acc, st)"
| "fetch_api_steps env recipe filters tr rl (step # steps) acc st =
     (if rs_kind step \<noteq> API then fetch_api_steps env recipe filters tr rl steps acc st
      else (case fetch_api_step env recipe filters tr rl step acc st of
         (Inl e, st') \<Rightarrow> (Inl e, st')
       | (Inr acc', st') \<Rightarrow> fetch_api_steps env recipe filters tr rl steps acc' st'))"

section \<open>Concurrency does not show\<close>

text \<open>The walk over the combinations one at a time, stopping at the first failure.\<close>

fun serial_walk ::
  "(fetch_call \<Rightarrow> kernel_error + fetch_result) \<Rightarrow> fetch_call list \<Rightarrow> fan_out \<Rightarrow> kernel_error + fan_out" where
  "serial_walk ans [] acc = Inr acc"
| "serial_walk ans (c # cs) acc = (case absorb (ans c) acc of Inl e \<Rightarrow> Inl e | Inr acc' \<Rightarrow> serial_walk ans cs acc')"

lemma serial_walk_append:
  "serial_walk ans (xs @ ys) acc = (case rfold absorb (map ans xs) acc of Inl e \<Rightarrow> Inl e | Inr acc' \<Rightarrow> serial_walk ans ys acc')"
  by (induction xs arbitrary: acc) (auto split: sum.splits)

text \<open>Calls whose answers do not depend on when they are made.\<close>

definition answers ::
  "(fetch_call list \<Rightarrow> 'w \<Rightarrow> (kernel_error + fetch_result) list \<times> 'w) \<Rightarrow> (fetch_call \<Rightarrow> kernel_error + fetch_result) \<Rightarrow> bool" where
  "answers gather ans \<longleftrightarrow> (\<forall>calls w. fst (gather calls w) = map ans calls)"

lemma fan_batches_serial:
  "answers gather ans \<Longrightarrow> fst (fan_batches gather width calls acc w) = serial_walk ans calls acc"
proof (induction gather width calls acc w rule: fan_batches.induct)
  case (2 gather width c cs acc w)
  obtain outcomes w' where batch: "gather (take (Suc width) (c # cs)) w = (outcomes, w')" by fastforce
  then have outcomes: "outcomes = map ans (take (Suc width) (c # cs))"
    using 2(2) by (metis answers_def fst_conv)
  have "serial_walk ans (c # cs) acc = (case rfold absorb outcomes acc of Inl e \<Rightarrow> Inl e
      | Inr acc' \<Rightarrow> serial_walk ans (drop width cs) acc')"
    using serial_walk_append [of ans "take (Suc width) (c # cs)" "drop (Suc width) (c # cs)" acc,
      unfolded append_take_drop_id] unfolding outcomes drop_Suc_Cons .
  then show ?case
    using 2(1) [OF batch [symmetric] _ 2(2)] batch by (simp split: sum.splits)
qed simp

lemma serial_walk_Inr:
  "serial_walk ans calls acc = Inr acc' \<longleftrightarrow> (\<exists>fs. map ans calls = map Inr fs \<and>
     acc' = fold (\<lambda>f acc. projr (absorb (Inr f) acc)) fs acc)"
proof (induction calls arbitrary: acc)
  case (Cons c cs)
  show ?case
  proof (cases "ans c")
    case (Inl e)
    then show ?thesis by (auto simp: absorb_def map_eq_Cons_conv Cons_eq_map_conv)
  next
    case (Inr f)
    then show ?thesis using Cons by (fastforce simp: absorb_def Cons_eq_map_conv)
  qed
qed auto

lemma absorbed:
  "fo_rows (fold (\<lambda>f acc. projr (absorb (Inr f) acc)) fs acc) = fo_rows acc @ concat (map rs_rows fs)"
  "fo_calls (fold (\<lambda>f acc. projr (absorb (Inr f) acc)) fs acc) = fo_calls acc + sum_list (map kernel_call_count fs)"
  "fo_complete (fold (\<lambda>f acc. projr (absorb (Inr f) acc)) fs acc) \<longleftrightarrow> fo_complete acc \<and> (\<forall>f \<in> set fs. rs_complete f)"
  by (induction fs arbitrary: acc) (auto simp: absorb_def)

lemma fetch_fanned_serial:
  assumes "answers (gather_calls env) ans" and "bound_values env step_id bindings (kn_sandbox st) = (Inr value_sets, s)"
  shows "fst (fetch_fanned env step_id op bindings params filters tr n rl st) =
    (let combos = combos_of value_sets; covered = take (remaining_budget (kv_settings env) n) combos in
     rbind (serial_walk ans (map (\<lambda>combo. step_call op filters tr rl (with_combo params combo)) covered) nothing_fetched)
       (\<lambda>acc. Inr (fan_result (length covered) (length combos) acc)))"
  unfolding fetch_fanned_def assms(2) Let_def using fan_batches_serial [OF assms(1)]
  by (simp add: case_prod_beta)

text \<open>
  \<^bold>\<open>C6\<close>.  Concurrency does not show in a fan-out.  When the source answers a call the
  same whenever it is made, a step with parameter bindings gives, for every setting of the batch
  size, the same rows in the same order, the same call count, footer, completeness and reason, or the
  same failure, as the walk over its combinations one at a time; that walk stops at the first failure.
\<close>

theorem fan_out_concurrency_irrelevant:
  assumes "answers (gather_calls env) ans"
    and "wide = env\<lparr>kv_settings := (kv_settings env)\<lparr>ks_fanout_concurrency := k\<rparr>\<rparr>"
  shows "fst (fetch_fanned wide step_id op bindings params filters tr n rl st) =
    (case bound_values env step_id bindings (kn_sandbox st) of
       (Inl e, s) \<Rightarrow> Inl e
     | (Inr value_sets, s) \<Rightarrow>
        (let combos = combos_of value_sets; covered = take (remaining_budget (kv_settings env) n) combos in
         rbind (serial_walk ans (map (\<lambda>combo. step_call op filters tr rl (with_combo params combo)) covered) nothing_fetched)
           (\<lambda>acc. Inr (fan_result (length covered) (length combos) acc))))"
proof -
  have cells: "value_text wide = value_text env" by (rule ext) (simp add: assms(2) value_text_def split: cell.split)
  have same: "kv_text wide = kv_text env" "kv_engine wide = kv_engine env" "kv_chars wide = kv_chars env"
    by (simp_all add: assms(2))
  have bound: "bound_values wide step_id bs s = bound_values env step_id bs s" for bs s
  proof (induction bs arbitrary: s)
    case (Cons b bs)
    show ?case unfolding bound_values.simps cells same Cons ..
  qed simp
  have "fetch_one wide = fetch_one env" by (rule ext) (simp add: assms(2) fetch_one_def split: option.split)
  then have ans: "answers (gather_calls wide) ans" using assms by (simp add: answers_def gather_calls_def)
  have budget: "remaining_budget (kv_settings wide) n = remaining_budget (kv_settings env) n"
    by (simp add: assms(2) remaining_budget_def)
  obtain r s where r: "bound_values wide step_id bindings (kn_sandbox st) = (r, s)" by (meson prod.exhaust)
  show ?thesis
  proof (cases r)
    case Inl
    then show ?thesis using r bound by (simp add: fetch_fanned_def)
  next
    case (Inr value_sets)
    note r = r [unfolded Inr]
    show ?thesis
      unfolding fetch_fanned_serial [OF ans r] budget using r unfolding bound by simp
  qed
qed


text \<open>Two material numbers, each with one progress row, and room for one call.\<close>

definition two_materials :: "(table_list, int cell, bind_params) engine" where
  "two_materials = table_engine ([], [[Cell (JStr (u ''m1''))], [Cell (JStr (u ''m2''))]])"

definition answer_row :: "fetch_call \<Rightarrow> kernel_error + fetch_result" where
  "answer_row call = Inr (plain_fetch [fc_params call] 1 True None None)"

text \<open>The actions of a batch one after the other.\<close>

fun in_turn :: "'w fetch_action list \<Rightarrow> 'w \<Rightarrow> (kernel_error + fetch_result) list \<times> 'w" where
  "in_turn [] w = ([], w)"
| "in_turn (a # as) w = (case a w of (r, w') \<Rightarrow> (case in_turn as w' of (rs, w'') \<Rightarrow> (r # rs, w'')))"

lemma in_turn_answers:
  "(\<And>c w. fetch_one env c w = (ans c, w)) \<Longrightarrow> in_turn (map (fetch_one env) calls) w = (map ans calls, w)"
  by (induction calls) simp_all

definition demo_kernel :: "(unit, table_list, int) kernel_env" where
  "demo_kernel = \<lparr>kv_settings = default_kernel_settings\<lparr>ks_max_api_calls := 2\<rparr>, kv_metrics = [], kv_resource_columns = [],
     kv_base_data_operations = {}, kv_employee_roster = None,
     kv_execute = (\<lambda>f r p w. (Inr (plain_fetch [items_or_empty p] 1 True None None), w)),
     kv_gather = in_turn, kv_consume = (\<lambda>_ w. (Inr (), w)),
     kv_release = (\<lambda>_ w. w), kv_discard = (\<lambda>_ w. w), kv_engine = two_materials, kv_text = ascii_text,
     kv_chars = ascii_class, kv_codec = index_codec, kv_decimals = whole_numbers, kv_calendar = ten_days,
     kv_listing = (\<lambda>_. []), kv_zone = (\<lambda>_. 0)\<rparr>"

definition demo_state :: "(unit, table_list) kernel_state" where
  "demo_state = \<lparr>kn_sandbox = open_sandbox, kn_world = ()\<rparr>"

definition material_binding :: "(pystr, param_binding) dict" where
  "material_binding = [(u ''userid'', \<lparr>pb_from_step = u ''pay'', pb_column = u ''m''\<rparr>)]"

lemma demo_answers: "answers (gather_calls demo_kernel) answer_row"
proof -
  have "fetch_one demo_kernel c w = (answer_row c, w)" for c w
    by (simp add: fetch_one_def demo_kernel_def answer_row_def items_or_empty_def none_if_empty_def)
  then show ?thesis using in_turn_answers [of demo_kernel] by (simp add: answers_def gather_calls_def demo_kernel_def)
qed

lemma demo_query_allowed: "assert_read_only ascii_text (distinct_values_sql (u ''pay'') (u ''m'')) = Inr ()"
  by (simp add: assert_read_only_def Let_def first_word_def stripped_sql_def ascii_text_def READ_WORDS_def
      FORBIDDEN_PREFIXES_def FORBIDDEN_TOKENS_def starts_with_def distinct_values_sql_def quoted_def str_eval)

lemma demo_bound:
  "bound_values demo_kernel (u ''progress'') material_binding (kn_sandbox demo_state) =
    (Inr [(u ''userid'', [u ''m1'', u ''m2''])], open_sandbox)"
proof -
  have "binding_identifiers ascii_class (u ''progress'') (u ''userid'', \<lparr>pb_from_step = u ''pay'', pb_column = u ''m''\<rparr>) =
      Inr (u ''pay'', u ''m'')"
    by (simp add: binding_identifiers_def ascii_class_def str_eval)
  then show ?thesis
    using demo_query_allowed
    by (simp add: material_binding_def demo_kernel_def demo_state_def sandbox_execute_def execute_typed_def
        sandbox_conn_def open_sandbox_def two_materials_def table_engine_def rejected_as_def lift_sandbox_def value_text_def)
qed

lemma demo_combos: "combos_of [(u ''userid'', [u ''m1'', u ''m2''])] = [[(u ''userid'', u ''m1'')], [(u ''userid'', u ''m2'')]]"
  by (simp add: combos_of_def)

theorem fan_out_concurrency_irrelevant_witness:
  "fst (fetch_fanned (demo_kernel\<lparr>kv_settings := (kv_settings demo_kernel)\<lparr>ks_fanout_concurrency := 1\<rparr>\<rparr>) (u ''progress'')
     (u ''ScjdQuery'') material_binding [] manager_filters (0, us_day) 0 None demo_state) =
   Inr (plain_fetch [[(u ''userid'', JStr (u ''m1''))], [(u ''userid'', JStr (u ''m2''))]] 2 True None None)"
  unfolding fan_out_concurrency_irrelevant [OF demo_answers refl] demo_bound
  by (simp add: Let_def demo_combos remaining_budget_def demo_kernel_def with_combo_def answer_row_def absorb_def
      nothing_fetched_def step_call_def plain_fetch_def kernel_call_count_def fan_result_def)


end
