(* ===== verification/Cards.thy ===== *)
theory Cards
  imports Kernel
begin

text \<open>
  The card of the front end (\<^verbatim>\<open>ports/card.py\<close>) and its order groups
  (\<^verbatim>\<open>ports/order_views.py\<close>): figures, preview table with grouped and truncated rows,
  chart, notes; order groups with their detail views, paging and status filter.

  Python's rendering of a decimal, its equality of two values, date parsing and printing, and SHA-256
  are parameters (\<open>card_ops\<close>).  A day is its proleptic ordinal.  Labels in Chinese are written as
  code points.  Warnings keep the reason they were worded from.
\<close>

section \<open>Cells\<close>

definition cell_of :: "'d crow \<Rightarrow> pystr \<Rightarrow> 'd cell" where
  "cell_of r name = (case map_of r name of Some v \<Rightarrow> v | None \<Rightarrow> Cell JNull)"

definition absent :: "'d cell \<Rightarrow> bool" where
  "absent v \<longleftrightarrow> v = Cell JNull \<or> v = Cell (JStr UNAVAILABLE_VALUE)"

text \<open>\<open>a or b\<close> on an optional string.\<close>

definition or_else :: "pystr option \<Rightarrow> pystr \<Rightarrow> pystr" where
  "or_else a b = (case a of Some s \<Rightarrow> if s \<noteq> [] then s else b | None \<Rightarrow> b)"

record 'd card_ops =
  cx_cell_eq :: "'d cell \<Rightarrow> 'd cell \<Rightarrow> bool"
  cx_two_places :: "'d \<Rightarrow> 'd option"
  cx_plain :: "'d \<Rightarrow> pystr"
  cx_sha256 :: "pystr \<Rightarrow> pystr"
  cx_dashed_day :: "pystr \<Rightarrow> int option"
  cx_slashed_day :: "pystr \<Rightarrow> int option"
  cx_month_day :: "int \<Rightarrow> pystr"

record card_column =
  cd_name :: pystr
  cd_title :: "pystr option"
  cd_column_type :: "column_type option"
  cd_unit :: "pystr option"

type_synonym named_columns = "(pystr, card_column) dict"

definition card_columns_by_name :: "card_column list \<Rightarrow> named_columns" where
  "card_columns_by_name columns = fold (\<lambda>c. AList.update (cd_name c) c) columns []"

definition numeric_column_type :: "column_type option \<Rightarrow> bool" where
  "numeric_column_type t \<longleftrightarrow> t \<in> CARD_METRIC_TYPES"

text \<open>\<open>_decimal_str\<close>, \<open>_string_cell\<close>, \<open>_cell_text\<close>, \<open>_row_cells\<close>.\<close>

definition decimal_text :: "'d card_ops \<Rightarrow> column_type option \<Rightarrow> 'd \<Rightarrow> pystr" where
  "decimal_text cx t d = cx_plain cx
     (if numeric_column_type t then (case cx_two_places cx d of Some q \<Rightarrow> q | None \<Rightarrow> d) else d)"

definition string_cell ::
  "('w, 'c, 'd) kernel_env \<Rightarrow> 'd card_ops \<Rightarrow> column_type option \<Rightarrow> pystr \<Rightarrow> pystr" where
  "string_cell env cx t s = (case dc_parse (kv_decimals env) s of Some d \<Rightarrow> decimal_text cx t d | None \<Rightarrow> s)"

definition shown_text ::
  "('w, 'c, 'd) kernel_env \<Rightarrow> 'd card_ops \<Rightarrow> column_type option \<Rightarrow> 'd cell \<Rightarrow> pystr" where
  "shown_text env cx t v = (case v of
     Dec d \<Rightarrow> decimal_text cx t d
   | Cell (JStr s) \<Rightarrow> if numeric_column_type t then string_cell env cx t s else s
   | Cell j \<Rightarrow> json_str (kv_codec env) j)"

definition row_cells ::
  "('w, 'c, 'd) kernel_env \<Rightarrow> 'd card_ops \<Rightarrow> named_columns \<Rightarrow> 'd crow \<Rightarrow> pystr option list" where
  "row_cells env cx by_name r = map (\<lambda>(name, c).
     if absent (cell_of r name) then None else Some (shown_text env cx (cd_column_type c) (cell_of r name))) by_name"

section \<open>Actions and charts\<close>

record action_payload =
  ap_label :: pystr
  ap_capability_id :: pystr
  ap_bind_from :: "(pystr, pystr) dict"
  ap_clear_fields :: "pystr list option"

definition action_payload_of :: "card_action_spec \<Rightarrow> action_payload" where
  "action_payload_of a = \<lparr>ap_label = cas_label a, ap_capability_id = cas_capability_id a, ap_bind_from = cas_bind_from a,
     ap_clear_fields = (if cas_clear_fields a = [] then None else Some (cas_clear_fields a))\<rparr>"

datatype granularity = DAILY | WEEKLY

record card_chart =
  ch_unit :: pystr
  ch_granularity :: granularity
  ch_points :: "(pystr \<times> pystr) list"

definition MAX_CHART_DAY_POINTS :: nat where "MAX_CHART_DAY_POINTS = 62"

definition parse_label_date :: "('w, 'c, 'd) kernel_env \<Rightarrow> 'd card_ops \<Rightarrow> 'd cell \<Rightarrow> int option" where
  "parse_label_date env cx v = (let text = py_strip (value_text env v) in
     case cx_dashed_day cx text of Some d \<Rightarrow> Some d | None \<Rightarrow> cx_slashed_day cx text)"

text \<open>The weekday of ordinal 1 is Monday.\<close>

definition week_start :: "int \<Rightarrow> int" where
  "week_start day = day - (day + 6) mod 7"

definition numeric_text :: "('w, 'c, 'd) kernel_env \<Rightarrow> 'd card_ops \<Rightarrow> 'd cell \<Rightarrow> pystr" where
  "numeric_text env cx v = (case v of
     Dec d \<Rightarrow> decimal_text cx None d
   | Cell j \<Rightarrow> (case dc_parse (kv_decimals env) (json_str (kv_codec env) j) of
       Some d \<Rightarrow> decimal_text cx None d | None \<Rightarrow> json_str (kv_codec env) j))"

definition add_decimal_text :: "'d decimals \<Rightarrow> 'd card_ops \<Rightarrow> pystr option \<Rightarrow> pystr \<Rightarrow> pystr" where
  "add_decimal_text dc cx current addition = (case current of
     None \<Rightarrow> addition
   | Some text \<Rightarrow> (case (dc_parse dc text, dc_parse dc addition) of
       (Some a, Some b) \<Rightarrow> (case dc_add dc a b of Some c \<Rightarrow> decimal_text cx None c | None \<Rightarrow> text)
     | _ \<Rightarrow> text))"

text \<open>The points with a readable day, in order of days (Python's sort is stable).\<close>

definition parsed_points ::
  "('w, 'c, 'd) kernel_env \<Rightarrow> 'd card_ops \<Rightarrow> 'd cell list \<Rightarrow> 'd cell list \<Rightarrow> (int \<times> pystr) list" where
  "parsed_points env cx labels values = sort_key fst (List.map_filter (\<lambda>(label, v).
     map_option (\<lambda>day. (day, numeric_text env cx v)) (parse_label_date env cx label)) (zip labels values))"

definition week_buckets :: "'d decimals \<Rightarrow> 'd card_ops \<Rightarrow> (int \<times> pystr) list \<Rightarrow> (int, pystr) dict" where
  "week_buckets dc cx points = fold (\<lambda>(day, v) buckets.
     AList.update (week_start day) (add_decimal_text dc cx (map_of buckets (week_start day)) v) buckets) points []"

definition build_chart_payload ::
  "('w, 'c, 'd) kernel_env \<Rightarrow> 'd card_ops \<Rightarrow> pystr \<Rightarrow> 'd cell list \<Rightarrow> 'd cell list \<Rightarrow> card_chart" where
  "build_chart_payload env cx unit labels values =
     (let parsed = parsed_points env cx labels values;
          weekly = MAX_CHART_DAY_POINTS < length parsed in
      \<lparr>ch_unit = unit, ch_granularity = (if weekly then WEEKLY else DAILY),
       ch_points = map (map_prod (cx_month_day cx) id)
         (if weekly then sort_key fst (week_buckets (kv_decimals env) cx parsed) else parsed)\<rparr>)"

section \<open>Figures\<close>

record figure =
  fg_label :: pystr
  fg_unit :: pystr
  fg_value :: "pystr option"

definition column_named :: "named_columns \<Rightarrow> pystr \<Rightarrow> kernel_error + card_column" where
  "column_named by_name name = (case map_of by_name name of Some c \<Rightarrow> Inr c | None \<Rightarrow> Inl KernelCrash)"

definition metric_value ::
  "('w, 'c, 'd) kernel_env \<Rightarrow> 'd card_ops \<Rightarrow> 'd crow list \<Rightarrow> (pystr, 'd) dict \<Rightarrow> pystr \<Rightarrow> card_column \<Rightarrow> pystr option" where
  "metric_value env cx rows totals name column = (case map_of totals name of
     Some amount \<Rightarrow> Some (decimal_text cx None amount)
   | None \<Rightarrow> (case rows of
       [r] \<Rightarrow> if absent (cell_of r name) then None
         else Some (shown_text env cx (cd_column_type column) (cell_of r name))
     | _ \<Rightarrow> None))"

definition figure_of :: "card_column \<Rightarrow> pystr \<Rightarrow> pystr option \<Rightarrow> figure" where
  "figure_of column name v = \<lparr>fg_label = or_else (cd_title column) name, fg_unit = or_else (cd_unit column) [], fg_value = v\<rparr>"

definition metrics_payload ::
  "('w, 'c, 'd) kernel_env \<Rightarrow> 'd card_ops \<Rightarrow> named_columns \<Rightarrow> 'd crow list \<Rightarrow> (pystr, 'd) dict \<Rightarrow> pystr list \<Rightarrow>
   kernel_error + figure list" where
  "metrics_payload env cx by_name rows totals names = rmap (\<lambda>name. rbind (column_named by_name name)
     (\<lambda>column. Inr (figure_of column name (metric_value env cx rows totals name column)))) names"

type_synonym 'd aux_figure = "pystr \<times> pystr option \<times> 'd cell"

definition aux_figure_payload :: "('w, 'c, 'd) kernel_env \<Rightarrow> 'd card_ops \<Rightarrow> 'd aux_figure \<Rightarrow> figure" where
  "aux_figure_payload env cx item = (case item of (title, unit, v) \<Rightarrow>
     \<lparr>fg_label = title, fg_unit = or_else unit [], fg_value = (if absent v then None else Some (shown_text env cx None v))\<rparr>)"

definition totals_payload ::
  "'d card_ops \<Rightarrow> named_columns \<Rightarrow> (pystr, 'd) dict \<Rightarrow> pystr list \<Rightarrow> kernel_error + figure list" where
  "totals_payload cx by_name totals names = rmap (\<lambda>name. rbind (column_named by_name name)
     (\<lambda>column. Inr (figure_of column name (map_option (decimal_text cx None) (map_of totals name))))) names"

definition unavailable_titles ::
  "('w, 'c, 'd) kernel_env \<Rightarrow> 'd card_ops \<Rightarrow> named_columns \<Rightarrow> 'd crow list \<Rightarrow> (pystr, 'd) dict \<Rightarrow> pystr list \<Rightarrow>
   kernel_error + pystr list" where
  "unavailable_titles env cx by_name rows totals names = rbind (metrics_payload env cx by_name rows totals names)
     (\<lambda>items. Inr (map fg_label (filter (\<lambda>f. fg_value f = None) items)))"

section \<open>The preview table\<close>

record 'd preview_group =
  pv_group :: "'d cell"
  pv_name :: "'d cell"
  pv_row_count :: nat
  pv_total_rows :: nat
  pv_truncated :: bool

record 'd preview_grouping =
  gr_group_by :: pystr
  gr_groups :: "'d preview_group list"
  gr_groups_total :: nat

record 'd preview_table =
  pt_columns :: "pystr list"
  pt_column_titles :: "(pystr \<times> pystr) list"
  pt_total_rows :: nat
  pt_rows :: "pystr option list list"
  pt_grouping :: "'d preview_grouping option"
  pt_preview_max_rows :: "int option"
  pt_truncated :: bool
  pt_page_size :: int
  pt_has_more :: bool
  pt_alert_marker :: "card_alert_marker option"

text \<open>\<open>len(dict.fromkeys(values))\<close>.\<close>

definition distinct_values :: "('v \<Rightarrow> 'v \<Rightarrow> bool) \<Rightarrow> 'v list \<Rightarrow> 'v list" where
  "distinct_values eq vs = fold (\<lambda>v seen. if \<exists>x \<in> set seen. eq x v then seen else seen @ [v]) vs []"

text \<open>\<open>spec.preview_max_rows or MAX_PREVIEW_ROWS\<close>, and the slice with such a bound.\<close>

definition preview_limit :: "card_spec \<Rightarrow> int" where
  "preview_limit spec = (case cs_preview_max_rows spec of Some n \<Rightarrow> if n \<noteq> 0 then n else MAX_PREVIEW_ROWS
     | None \<Rightarrow> MAX_PREVIEW_ROWS)"

definition upto_limit :: "int \<Rightarrow> 'a list \<Rightarrow> 'a list" where
  "upto_limit n xs = (if 0 \<le> n then take (nat n) xs else take (length xs - nat (- n)) xs)"

definition group_entry ::
  "card_spec \<Rightarrow> 'd cell \<Rightarrow> 'd crow list \<Rightarrow> kernel_error + 'd preview_group" where
  "group_entry spec v run =
     (let entry = (\<lambda>name. \<lparr>pv_group = v, pv_name = name, pv_row_count = length (upto_limit (preview_limit spec) run),
        pv_total_rows = length run, pv_truncated = length (upto_limit (preview_limit spec) run) < length run\<rparr>) in
      case cs_group_name_from spec of
        None \<Rightarrow> Inr (entry v)
      | Some column \<Rightarrow> (case run of [] \<Rightarrow> Inl KernelCrash
          | r # _ \<Rightarrow> Inr (entry (if absent (cell_of r column) then v else cell_of r column))))"

text \<open>The loop over the runs of equal groups, with the number of groups still allowed.\<close>

fun grouped_runs ::
  "'d card_ops \<Rightarrow> card_spec \<Rightarrow> pystr \<Rightarrow> nat \<Rightarrow> 'd crow list \<Rightarrow>
   kernel_error + ('d preview_group \<times> 'd crow list) list" where
  "grouped_runs cx spec group_by 0 rows = Inr []"
| "grouped_runs cx spec group_by (Suc n) [] = Inr []"
| "grouped_runs cx spec group_by (Suc n) (r # rows) =
     (let v = cell_of r group_by;
          same = (\<lambda>x. cx_cell_eq cx (cell_of x group_by) v);
          run = takeWhile same (r # rows) in
      rbind (group_entry spec v run) (\<lambda>entry.
      rbind (grouped_runs cx spec group_by n (dropWhile same (r # rows))) (\<lambda>rest.
        Inr ((entry, upto_limit (preview_limit spec) run) # rest))))"

definition grouped_table ::
  "('w, 'c, 'd) kernel_env \<Rightarrow> 'd card_ops \<Rightarrow> card_spec \<Rightarrow> named_columns \<Rightarrow> pystr \<Rightarrow> 'd crow list \<Rightarrow>
   kernel_error + pystr option list list \<times> 'd preview_grouping" where
  "grouped_table env cx spec by_name group_by rows =
     rbind (grouped_runs cx spec group_by (nat (cs_preview_max_groups spec)) rows) (\<lambda>runs. Inr
       (map (row_cells env cx by_name) (concat (map snd runs)),
        \<lparr>gr_group_by = group_by, gr_groups = map fst runs,
         gr_groups_total = length (distinct_values (cx_cell_eq cx) (map (\<lambda>r. cell_of r group_by) rows))\<rparr>))"

definition table_payload ::
  "('w, 'c, 'd) kernel_env \<Rightarrow> 'd card_ops \<Rightarrow> card_spec \<Rightarrow> named_columns \<Rightarrow> 'd crow list \<Rightarrow>
   kernel_error + 'd preview_table" where
  "table_payload env cx spec by_name rows =
     (let table = (\<lambda>cells grouping limit truncated. \<lparr>pt_columns = map fst by_name,
        pt_column_titles = map (\<lambda>(name, c). (name, or_else (cd_title c) name)) by_name,
        pt_total_rows = length rows, pt_rows = cells, pt_grouping = grouping, pt_preview_max_rows = limit,
        pt_truncated = truncated, pt_page_size = preview_limit spec, pt_has_more = truncated,
        pt_alert_marker = cs_alert_marker spec\<rparr>) in
      case cs_group_by spec of
        Some group_by \<Rightarrow> rbind (grouped_table env cx spec by_name group_by rows) (\<lambda>(cells, g). Inr
          (table cells (Some g) (cs_preview_max_rows spec)
            ((\<exists>e \<in> set (gr_groups g). pv_truncated e) \<or> length (gr_groups g) < gr_groups_total g)))
      | None \<Rightarrow> let kept = upto_limit (preview_limit spec) rows in Inr
          (table (map (row_cells env cx by_name) kept) None (Some (preview_limit spec)) (length kept < length rows)))"

section \<open>The card\<close>

datatype table_warning = UpstreamWarning pystr | PaginationWarning pystr | MetricWarning pystr pystr

datatype card_note = ReviewedNote pystr | WarningNote table_warning | IncompleteNote pystr

record 'd card_payload =
  cy_kind :: card_kind
  cy_title :: pystr
  cy_capability_id :: pystr
  cy_metrics :: "figure list"
  cy_totals :: "figure list"
  cy_table :: "'d preview_table option"
  cy_chart :: "card_chart option"
  cy_actions :: "action_payload list"
  cy_unavailable_columns :: "pystr list"
  cy_notes :: "card_note list"

definition card_notes :: "card_spec \<Rightarrow> table_warning list \<Rightarrow> bool \<Rightarrow> pystr option \<Rightarrow> card_note list" where
  "card_notes spec warnings incomplete reason = map ReviewedNote (cs_notes spec) @ map WarningNote warnings @
     (case reason of Some r \<Rightarrow> if incomplete \<and> r \<noteq> [] then [IncompleteNote r] else [] | None \<Rightarrow> [])"

definition build_card ::
  "('w, 'c, 'd) kernel_env \<Rightarrow> 'd card_ops \<Rightarrow> card_spec \<Rightarrow> pystr \<Rightarrow> pystr \<Rightarrow> card_column list \<Rightarrow> 'd crow list \<Rightarrow>
   (pystr, 'd) dict \<Rightarrow> bool \<Rightarrow> pystr option \<Rightarrow> table_warning list \<Rightarrow> card_chart option \<Rightarrow> 'd aux_figure list \<Rightarrow>
   kernel_error + 'd card_payload" where
  "build_card env cx spec capability_id title columns rows totals incomplete reason warnings chart aux_figures =
     (let by_name = card_columns_by_name columns in
      rbind (metrics_payload env cx by_name rows totals (cs_metrics spec)) (\<lambda>metrics.
      rbind (totals_payload cx by_name totals (cs_totals spec)) (\<lambda>shown_totals.
      rbind (if cs_kind spec \<in> {TABLE, RANKING}
          then rbind (table_payload env cx spec (filter (\<lambda>(name, _). name \<notin> set (cs_hidden_columns spec)) by_name) rows)
            (\<lambda>t. Inr (Some t)) else Inr None) (\<lambda>table.
      rbind (unavailable_titles env cx by_name rows totals (cs_metrics spec)) (\<lambda>unavailable. Inr
        \<lparr>cy_kind = cs_kind spec, cy_title = title, cy_capability_id = capability_id,
         cy_metrics = metrics @ map (aux_figure_payload env cx) aux_figures, cy_totals = shown_totals, cy_table = table,
         cy_chart = chart, cy_actions = map action_payload_of (cs_actions spec), cy_unavailable_columns = unavailable,
         cy_notes = card_notes spec warnings incomplete reason\<rparr>)))))"

section \<open>Order views\<close>

datatype order_group_kind = PLAN_GROUP | UNLINKED_GROUP
datatype order_status = AnyStatus | Finished | Unfinished | UnknownStatus

record order_view_selection =
  ov_view_id :: pystr
  ov_group_kind :: order_group_kind
  ov_plan_code :: "pystr option"
  ov_page :: int
  ov_page_size :: int
  ov_status :: order_status
  ov_snapshot_id :: "pystr option"

type_synonym value_error = pystr

definition letter :: "nat \<Rightarrow> bool" where "letter c \<longleftrightarrow> 65 \<le> c \<and> c \<le> 90 \<or> 97 \<le> c \<and> c \<le> 122"
definition digit :: "nat \<Rightarrow> bool" where "digit c \<longleftrightarrow> 48 \<le> c \<and> c \<le> 57"

text \<open>\<open>fullmatch("[A-Za-z][A-Za-z0-9_]{0,63}")\<close>; 95 is the underscore.\<close>

definition view_identifier :: "pystr \<Rightarrow> value_error + unit" where
  "view_identifier s = guard_r (s \<noteq> [] \<and> length s \<le> 64 \<and> letter (hd s) \<and> (\<forall>c \<in> set s. letter c \<or> digit c \<or> c = 95))
     (u ''Invalid order view identifier'')"

definition view_integer :: "pystr \<Rightarrow> int \<Rightarrow> int \<Rightarrow> value_error + unit" where
  "view_integer name bound n = guard_r (1 \<le> n \<and> n \<le> bound) (u ''Invalid order '' @ name)"

definition view_snapshot :: "pystr option \<Rightarrow> value_error + unit" where
  "view_snapshot s = guard_r (case s of None \<Rightarrow> True | Some x \<Rightarrow> length x = 64 \<and>
     (\<forall>c \<in> set x. digit c \<or> 97 \<le> c \<and> c \<le> 102 \<or> 65 \<le> c \<and> c \<le> 70)) (u ''Invalid order snapshot identifier'')"

definition GROUP_LIMIT :: int where "GROUP_LIMIT = 50"
definition PAGE_LIMIT :: int where "PAGE_LIMIT = 100000"
definition PAGE_SIZE_LIMIT :: int where "PAGE_SIZE_LIMIT = 100"

text \<open>The checks of the constructor; the status is one of the four by its type.\<close>

definition valid_selection :: "order_view_selection \<Rightarrow> value_error + unit" where
  "valid_selection sel = rthen (view_identifier (ov_view_id sel))
     (rthen (case ov_group_kind sel of
         PLAN_GROUP \<Rightarrow> guard_r (case ov_plan_code sel of Some p \<Rightarrow> py_strip p \<noteq> [] | None \<Rightarrow> False)
           (u ''A linked order group requires a plan code'')
       | UNLINKED_GROUP \<Rightarrow> guard_r (ov_plan_code sel = None) (u ''An unlinked order group cannot carry a plan code''))
     (rthen (view_integer (u ''page'') PAGE_LIMIT (ov_page sel))
     (rthen (view_integer (u ''page size'') PAGE_SIZE_LIMIT (ov_page_size sel))
     (view_snapshot (ov_snapshot_id sel)))))"

record 'd order_detail =
  od_view_id :: pystr
  od_title :: pystr
  od_group_by :: pystr
  od_columns :: "card_column list"
  od_rows :: "'d crow list"
  od_status_column :: "pystr option"
  od_hidden_columns :: "pystr list"
  od_actions :: "card_action_spec list"

definition valid_detail :: "'d order_detail \<Rightarrow> value_error + unit" where
  "valid_detail d = rthen (view_identifier (od_view_id d))
     (rthen (guard_r (distinct (map cd_name (od_columns d))) (u ''Duplicate order detail columns''))
     (guard_r (case od_status_column d of None \<Rightarrow> True | Some c \<Rightarrow> c \<in> set (map cd_name (od_columns d)))
       (u ''Order detail status column is not declared'')))"

definition plan_key :: "'d cell \<Rightarrow> value_error + pystr option" where
  "plan_key v = (case v of
     Cell JNull \<Rightarrow> Inr None
   | Cell (JStr s) \<Rightarrow> Inr (if py_strip s \<noteq> [] then Some s else None)
   | _ \<Rightarrow> Inl (u ''Invalid order group key''))"

text \<open>The labels of the two states, and of the group without a plan.\<close>

definition FINISHED_LABEL :: pystr where "FINISHED_LABEL = [24050, 23436, 24037]"
definition UNFINISHED_LABEL :: pystr where "UNFINISHED_LABEL = [26410, 23436, 24037]"
definition UNLINKED_LABEL :: pystr where "UNLINKED_LABEL = [26410, 20851, 32852, 35745, 21010, 21495]"

definition status_of :: "'d cell \<Rightarrow> order_status" where
  "status_of v = (if v = Cell (JStr FINISHED_LABEL) then Finished
     else if v = Cell (JStr UNFINISHED_LABEL) then Unfinished else UnknownStatus)"

record column_payload =
  cp_name :: pystr
  cp_title :: pystr
  cp_type :: "column_type option"
  cp_unit :: "pystr option"

definition column_payload_of :: "card_column \<Rightarrow> column_payload" where
  "column_payload_of c = \<lparr>cp_name = cd_name c, cp_title = or_else (cd_title c) (cd_name c), cp_type = cd_column_type c,
     cp_unit = cd_unit c\<rparr>"

text \<open>A summary item: the column and its text, \<open>None\<close> when it is unavailable.\<close>

definition summary_payload ::
  "('w, 'c, 'd) kernel_env \<Rightarrow> 'd card_ops \<Rightarrow> card_column list \<Rightarrow> 'd crow \<Rightarrow>
   value_error + (column_payload \<times> pystr option) list" where
  "summary_payload env cx columns r = (let cells = row_cells env cx (card_columns_by_name columns) r in
     if length cells = length columns then Inr (zip (map column_payload_of columns) cells)
     else Inl (u ''zip() argument 2 is shorter than argument 1''))"

definition state_counts ::
  "('w, 'c, 'd) kernel_env \<Rightarrow> 'd card_ops \<Rightarrow> 'd crow \<Rightarrow> card_column list \<Rightarrow> (pystr \<times> pystr option) list" where
  "state_counts env cx r columns = List.map_filter (\<lambda>state. case map_of (card_columns_by_name columns) (state @ u ''_sheet_count'') of
     None \<Rightarrow> None
   | Some c \<Rightarrow> Some (state, hd (row_cells env cx [(state @ u ''_sheet_count'', c)] r)))
     (map u [''finished'', ''unfinished'', ''unavailable''])"

record view_request =
  vr_view_id :: pystr
  vr_group_kind :: order_group_kind
  vr_plan_code :: "pystr option"
  vr_page :: int
  vr_page_size :: int
  vr_status :: order_status

record detail_payload =
  dp_view_id :: pystr
  dp_title :: pystr
  dp_columns :: "pystr list"
  dp_column_titles :: "(pystr \<times> pystr) list"
  dp_column_metadata :: "column_payload list"
  dp_rows :: "pystr option list list"
  dp_total_rows :: nat
  dp_filtered_total_rows :: nat
  dp_status :: order_status
  dp_page :: int
  dp_page_size :: int
  dp_has_more :: bool
  dp_unavailable_columns :: "column_payload list"
  dp_actions :: "action_payload list"
  dp_capability_id :: pystr
  dp_request :: view_request

text \<open>\<open>rows[start : start + size]\<close> for a start and a size that are not negative.\<close>

definition slice :: "int \<Rightarrow> int \<Rightarrow> 'a list \<Rightarrow> 'a list" where
  "slice start n xs = take (nat n) (drop (nat start) xs)"

definition filtered_rows :: "'d order_detail \<Rightarrow> order_status \<Rightarrow> 'd crow list \<Rightarrow> 'd crow list" where
  "filtered_rows d status rows = (if status = AnyStatus then rows
     else filter (\<lambda>r. status_of (cell_of r (or_else (od_status_column d) [])) = status) rows)"

definition visible_columns :: "'d order_detail \<Rightarrow> card_column list" where
  "visible_columns d = filter (\<lambda>c. cd_name c \<notin> {od_group_by d, u ''plan_missing'', u ''order_code''} \<union> set (od_hidden_columns d))
     (od_columns d)"

definition column_void :: "'d crow list \<Rightarrow> card_column \<Rightarrow> bool" where
  "column_void rows c \<longleftrightarrow> rows \<noteq> [] \<and> (\<forall>r \<in> set rows. absent (cell_of r (cd_name c)))"

definition detail_payload_of ::
  "('w, 'c, 'd) kernel_env \<Rightarrow> 'd card_ops \<Rightarrow> pystr \<Rightarrow> 'd order_detail \<Rightarrow> pystr option \<Rightarrow> order_view_selection option \<Rightarrow> int \<Rightarrow>
   'd crow list \<Rightarrow> detail_payload" where
  "detail_payload_of env cx capability_id d plan selection preview_rows group_rows =
     (let status = (case selection of Some sel \<Rightarrow> ov_status sel | None \<Rightarrow> AnyStatus);
          page = (case selection of Some sel \<Rightarrow> ov_page sel | None \<Rightarrow> 1);
          page_length = (case selection of Some sel \<Rightarrow> ov_page_size sel | None \<Rightarrow> preview_rows);
          filtered = filtered_rows d status group_rows;
          start = (page - 1) * page_length;
          page_rows = slice start page_length filtered;
          shown = filter (\<lambda>c. \<not> column_void group_rows c) (visible_columns d);
          by_name = card_columns_by_name shown in
      \<lparr>dp_view_id = od_view_id d, dp_title = od_title d, dp_columns = map fst by_name,
       dp_column_titles = map (\<lambda>(name, c). (name, or_else (cd_title c) name)) by_name,
       dp_column_metadata = map column_payload_of shown, dp_rows = map (row_cells env cx by_name) page_rows,
       dp_total_rows = length group_rows, dp_filtered_total_rows = length filtered, dp_status = status, dp_page = page,
       dp_page_size = page_length, dp_has_more = (start + int (length page_rows) < int (length filtered)),
       dp_unavailable_columns = map column_payload_of (filter (column_void group_rows) (visible_columns d)),
       dp_actions = map action_payload_of (od_actions d), dp_capability_id = capability_id,
       dp_request = \<lparr>vr_view_id = od_view_id d,
         vr_group_kind = (case plan of None \<Rightarrow> UNLINKED_GROUP | Some _ \<Rightarrow> PLAN_GROUP), vr_plan_code = plan,
         vr_page = page, vr_page_size = page_length, vr_status = status\<rparr>\<rparr>)"

section \<open>Order groups\<close>

record order_group =
  og_id :: pystr
  og_name :: pystr
  og_kind :: order_group_kind
  og_plan_code :: "pystr option"
  og_summary :: "(column_payload \<times> pystr option) list"
  og_state_counts :: "(pystr \<times> pystr option) list"
  og_default_expanded :: bool
  og_views :: "detail_payload list"

record order_groups =
  os_groups_total :: nat
  os_page :: int
  os_page_size :: int
  os_has_more :: bool
  os_groups :: "order_group list"

type_synonym 'd summaries = "(pystr option \<times> 'd crow) list"

fun order_summaries :: "'d crow list \<Rightarrow> 'd summaries \<Rightarrow> value_error + 'd summaries" where
  "order_summaries [] acc = Inr acc"
| "order_summaries (r # rows) acc = (case map_of r (u ''plan_code'') of
     None \<Rightarrow> Inl (u ''Order summary is missing its group key'')
   | Some v \<Rightarrow> rbind (plan_key v) (\<lambda>key.
       if map_of acc key \<noteq> None then Inl (u ''Duplicate order summary group'')
       else order_summaries rows (acc @ [(key, r)])))"

text \<open>The groups and details that are kept: the selected ones, or one page of groups.\<close>

definition kept_groups ::
  "'d summaries \<Rightarrow> 'd order_detail list \<Rightarrow> order_view_selection option \<Rightarrow> int \<Rightarrow> int \<Rightarrow>
   value_error + 'd summaries \<times> 'd order_detail list" where
  "kept_groups summaries details selection max_groups page = (case selection of
     None \<Rightarrow> Inr (slice ((page - 1) * max_groups) max_groups summaries, details)
   | Some sel \<Rightarrow>
       let key = (if ov_group_kind sel = PLAN_GROUP then ov_plan_code sel else None) in
       (case map_of summaries key of
          None \<Rightarrow> Inl (u ''Order group is unavailable in this result'')
        | Some r \<Rightarrow> (case map_of (map (\<lambda>d. (od_view_id d, d)) details) (ov_view_id sel) of
            None \<Rightarrow> Inl (u ''Order detail view is unavailable in this result'')
          | Some d \<Rightarrow> if ov_status sel \<noteq> AnyStatus \<and> od_status_column d = None
              then Inl (u ''Order detail view does not support status filtering'')
              else Inr ([(key, r)], [d]))))"

text \<open>The rows of a detail with their group, in order.\<close>

definition keyed_rows :: "'d order_detail \<Rightarrow> value_error + (pystr option \<times> 'd crow) list" where
  "keyed_rows d = rmap (\<lambda>r. case map_of r (od_group_by d) of
       None \<Rightarrow> Inl (u ''Order detail is missing its group key'')
     | Some v \<Rightarrow> rbind (plan_key v) (\<lambda>key. Inr (key, r))) (od_rows d)"

definition rows_of_group :: "(pystr option \<times> 'd crow) list \<Rightarrow> pystr option \<Rightarrow> 'd crow list" where
  "rows_of_group by_key key = map snd (filter (\<lambda>p. fst p = key) by_key)"

definition SUMMARY_HIDDEN :: "pystr set" where
  "SUMMARY_HIDDEN = set (map u [''plan_code'', ''plan_missing'', ''order_count'', ''order_code''])"

definition group_name :: "pystr option \<Rightarrow> 'd crow \<Rightarrow> pystr" where
  "group_name plan r = (case map_of r (u ''order_code'') of
     Some (Cell (JStr s)) \<Rightarrow> if py_strip s \<noteq> [] \<and> s \<noteq> UNAVAILABLE_VALUE then s else or_else plan UNLINKED_LABEL
   | _ \<Rightarrow> or_else plan UNLINKED_LABEL)"

definition group_id :: "'d card_ops \<Rightarrow> pystr option \<Rightarrow> pystr" where
  "group_id cx plan = (case plan of None \<Rightarrow> u ''unlinked'' | Some p \<Rightarrow> u ''plan:'' @ cx_sha256 cx p)"

definition order_group_of ::
  "('w, 'c, 'd) kernel_env \<Rightarrow> 'd card_ops \<Rightarrow> pystr \<Rightarrow> card_column list \<Rightarrow> ('d order_detail \<times> (pystr option \<times> 'd crow) list) list \<Rightarrow>
   order_view_selection option \<Rightarrow> int \<Rightarrow> bool \<Rightarrow> pystr option \<times> 'd crow \<Rightarrow> value_error + order_group" where
  "order_group_of env cx capability_id summary_columns details selection preview_rows only keyed_group = (case keyed_group of (plan, r) \<Rightarrow>
     rbind (summary_payload env cx (filter (\<lambda>c. cd_name c \<notin> SUMMARY_HIDDEN) summary_columns) r) (\<lambda>summary. Inr
       \<lparr>og_id = group_id cx plan, og_name = group_name plan r,
        og_kind = (case plan of None \<Rightarrow> UNLINKED_GROUP | Some _ \<Rightarrow> PLAN_GROUP), og_plan_code = plan, og_summary = summary,
        og_state_counts = state_counts env cx r summary_columns, og_default_expanded = only,
        og_views = map (\<lambda>(d, by_key). detail_payload_of env cx capability_id d plan selection preview_rows
          (rows_of_group by_key plan)) details\<rparr>))"

definition build_order_groups ::
  "('w, 'c, 'd) kernel_env \<Rightarrow> 'd card_ops \<Rightarrow> pystr \<Rightarrow> 'd crow list \<Rightarrow> card_column list \<Rightarrow> 'd order_detail list \<Rightarrow>
   order_view_selection option \<Rightarrow> int \<Rightarrow> int \<Rightarrow> int \<Rightarrow> value_error + order_groups" where
  "build_order_groups env cx capability_id summary_rows summary_columns details selection max_groups preview_rows page =
     rthen (view_integer (u ''group limit'') GROUP_LIMIT max_groups)
     (rthen (view_integer (u ''preview row limit'') PAGE_SIZE_LIMIT preview_rows)
     (rthen (view_integer (u ''group page'') PAGE_LIMIT page)
     (rthen (guard_r (selection = None \<or> page = 1) (u ''Order detail selection cannot paginate the group list''))
     (rthen (guard_r (distinct (map od_view_id details)) (u ''Duplicate order detail views''))
     (rbind (order_summaries summary_rows []) (\<lambda>summaries.
      rbind (kept_groups summaries details selection max_groups page) (\<lambda>(groups, views).
      rbind (rmap (\<lambda>d. rbind (keyed_rows d) (\<lambda>by_key. Inr (d, by_key))) views) (\<lambda>keyed_views.
      rbind (rmap (order_group_of env cx capability_id summary_columns keyed_views selection preview_rows
          (length summaries = 1)) groups) (\<lambda>payload. Inr
        \<lparr>os_groups_total = length summaries, os_page = page, os_page_size = max_groups,
         os_has_more = (selection = None \<and> (page - 1) * max_groups + int (length groups) < int (length summaries)),
         os_groups = payload\<rparr>)))))))))"

section \<open>Pages\<close>

text \<open>Consecutive pages of one size are the beginning of the list, in order and without a gap.\<close>

lemma slices_concat:
  assumes "0 < m"
  shows "concat (map (\<lambda>p. slice ((p - 1) * m) m xs) [1..int n]) = take (n * nat m) xs"
proof (induction n)
  case (Suc n)
  have "[1..int (Suc n)] = [1..int n] @ [int (Suc n)]"
    using upto_rec2 [of 1 "int (Suc n)"] by simp
  moreover have "nat (int n * m) = n * nat m" by (simp add: nat_mult_distrib)
  ultimately show ?case
    using Suc take_add [of "n * nat m" "nat m" xs] by (simp add: slice_def add.commute)
qed simp

lemma take_part_more:
  assumes "0 \<le> k" "0 < m"
  shows "k + int (min (length xs - nat k) (nat m)) < int (length xs) \<longleftrightarrow> k + m < int (length xs)"
  using assms by (cases "nat k \<le> length xs") (auto simp: min_def nat_le_iff of_nat_diff)

lemma length_slice_more:
  assumes "0 < m" "1 \<le> p"
  shows "(p - 1) * m + int (length (slice ((p - 1) * m) m xs)) < int (length xs) \<longleftrightarrow> p * m < int (length xs)"
proof -
  have "0 \<le> (p - 1) * m" using assms by simp
  moreover have "(p - 1) * m + m = p * m" by (simp add: algebra_simps)
  ultimately show ?thesis using take_part_more [of "(p - 1) * m" m xs] assms(1) by (simp add: slice_def)
qed

lemma take_all_pages: "\<not> int n * m < int (length xs) \<Longrightarrow> 0 < m \<Longrightarrow> take (n * nat m) xs = xs"
  by (rule take_all) (metis int_nat_eq linorder_not_less nat_int nat_le_iff nat_mult_distrib of_nat_0_le_iff of_nat_mult order_less_imp_le)

section \<open>Order groups\<close>

lemma order_summaries_Inr:
  "order_summaries rows acc = Inr summaries \<Longrightarrow> distinct (map fst acc) \<Longrightarrow>
    distinct (map fst summaries) \<and> (\<exists>more. summaries = acc @ more \<and> map snd more = rows \<and>
      (\<forall>(key, r) \<in> set more. \<exists>v. map_of r (u ''plan_code'') = Some v \<and> plan_key v = Inr key))"
proof (induction rows arbitrary: acc)
  case (Cons r rows)
  then obtain v key where v: "map_of r (u ''plan_code'') = Some v" "plan_key v = Inr key" "key \<notin> fst ` set acc"
    and rest: "order_summaries rows (acc @ [(key, r)]) = Inr summaries"
    by (force simp: rbind_Inr image_iff split: option.splits if_splits)
  have "distinct (map fst (acc @ [(key, r)]))" using v(3) Cons.prems(2) by simp
  from Cons.IH [OF rest this] v(1,2) show ?case by auto
qed simp

text \<open>What a successful call has done, without a selection and with one.\<close>

lemma build_order_groups_Inr:
  assumes "build_order_groups env cx capability_id rows columns details selection m preview p = Inr g"
  obtains summaries groups views by_key where "1 \<le> m" "1 \<le> p" "1 \<le> preview"
    and "order_summaries rows [] = Inr summaries"
    and "kept_groups summaries details selection m p = Inr (groups, views)"
    and "rmap (\<lambda>d. rbind (keyed_rows d) (\<lambda>k. Inr (d, k))) views = Inr by_key"
    and "rmap (order_group_of env cx capability_id columns by_key selection preview (length summaries = 1)) groups = Inr (os_groups g)"
    and "os_groups_total g = length summaries" "distinct (map od_view_id details)"
    and "os_has_more g \<longleftrightarrow> selection = None \<and> (p - 1) * m + int (length groups) < int (length summaries)"
  using assms by (auto simp: build_order_groups_def result_simps view_integer_def)

lemma order_group_of_Inr:
  assumes "order_group_of env cx capability_id columns details selection preview only (plan, r) = Inr og"
  shows "og_plan_code og = plan" "og_views og = map (\<lambda>(d, by_key). detail_payload_of env cx capability_id d plan selection preview
    (rows_of_group by_key plan)) details"
  using assms by (auto simp: order_group_of_def rbind_Inr)

lemma order_group_plans:
  "rmap (order_group_of env cx capability_id columns details selection preview only) groups = Inr ogs \<Longrightarrow>
    map og_plan_code ogs = map fst groups"
  by (induction groups arbitrary: ogs) (auto simp: rbind_Inr dest: order_group_of_Inr(1))

lemma build_order_groups_page:
  assumes "build_order_groups env cx capability_id rows columns details None m preview p = Inr g"
    and summaries: "order_summaries rows [] = Inr summaries"
  shows "map og_plan_code (os_groups g) = slice ((p - 1) * m) m (map fst summaries) \<and> os_groups_total g = length summaries \<and>
    (os_has_more g \<longleftrightarrow> p * m < int (length summaries))"
  using assms(1)
proof (rule build_order_groups_Inr)
  fix s groups views by_key
  assume "1 \<le> m" "1 \<le> p" and s: "order_summaries rows [] = Inr s" and "kept_groups s details None m p = Inr (groups, views)"
    and ogs: "rmap (order_group_of env cx capability_id columns by_key None preview (length s = 1)) groups = Inr (os_groups g)"
    and n: "os_groups_total g = length s"
    and more: "os_has_more g \<longleftrightarrow> None = None \<and> (p - 1) * m + int (length groups) < int (length s)"
  moreover have "s = summaries" using s summaries by simp
  ultimately show ?thesis
    using order_group_plans [OF ogs] length_slice_more [of m p summaries]
    by (simp add: kept_groups_def slice_def take_map drop_map)
qed

text \<open>
  \<^bold>\<open>C26\<close>.  Paging the order groups loses and repeats nothing.  The groups of the pages
  up to the last one are, in order, the plan keys of the summary rows, each once; a page says that
  there is more exactly when the pages so far do not cover them, and every page knows their number.
\<close>

theorem order_pages_partition:
  assumes "\<And>p. 1 \<le> p \<Longrightarrow> p \<le> int n \<Longrightarrow>
      build_order_groups env cx capability_id rows columns details None m preview p = Inr (g p)"
    and "1 \<le> n" and "\<not> os_has_more (g (int n))"
  shows "\<exists>keys. list_all2 (\<lambda>r key. \<exists>v. map_of r (u ''plan_code'') = Some v \<and> plan_key v = Inr key) rows keys \<and>
    distinct keys \<and> concat (map (\<lambda>p. map og_plan_code (os_groups (g p))) [1..int n]) = keys \<and>
    (\<forall>p. 1 \<le> p \<and> p \<le> int n \<longrightarrow> os_groups_total (g p) = length keys \<and>
      (os_has_more (g p) \<longleftrightarrow> p * m < int (length keys)))"
proof -
  have last: "1 \<le> int n" "int n \<le> int n" using assms(2) by simp_all
  obtain summaries where summaries: "order_summaries rows [] = Inr summaries" and m: "1 \<le> m"
    using build_order_groups_Inr [OF assms(1) [OF last]] by metis
  let ?keys = "map fst summaries"
  have page: "map og_plan_code (os_groups (g p)) = slice ((p - 1) * m) m ?keys \<and> os_groups_total (g p) = length ?keys \<and>
      (os_has_more (g p) \<longleftrightarrow> p * m < int (length ?keys))" if p: "1 \<le> p" "p \<le> int n" for p
    using build_order_groups_page [OF assms(1) [OF p] summaries] by simp
  have "concat (map (\<lambda>p. map og_plan_code (os_groups (g p))) [1..int n]) = concat (map (\<lambda>p. slice ((p - 1) * m) m ?keys) [1..int n])"
    using page by (intro arg_cong [of _ _ concat]) (auto intro!: map_cong)
  also have "\<dots> = ?keys"
    using slices_concat [where m = m and n = n and xs = ?keys] take_all_pages [where n = n and m = m and xs = ?keys] page [OF last] assms(3) m by simp
  finally have "concat (map (\<lambda>p. map og_plan_code (os_groups (g p))) [1..int n]) = ?keys" .
  moreover have "distinct ?keys" "list_all2 (\<lambda>r key. \<exists>v. map_of r (u ''plan_code'') = Some v \<and> plan_key v = Inr key) rows ?keys"
    using order_summaries_Inr [OF summaries] by (auto simp: list_all2_map1 list_all2_map2 list_all2_same split_def)
  ultimately show ?thesis using page by (intro exI [of _ ?keys]) auto
qed

section \<open>The rows of a selected group\<close>

text \<open>The rows of a detail in a group: those whose key is the group's.\<close>

definition detail_rows_of :: "'d order_detail \<Rightarrow> pystr option \<Rightarrow> 'd crow list" where
  "detail_rows_of d plan = filter (\<lambda>r. \<exists>v. map_of r (od_group_by d) = Some v \<and> plan_key v = Inr plan) (od_rows d)"

lemma rows_of_group_exact:
  "keyed_rows d = Inr by_key \<Longrightarrow> rows_of_group by_key plan = detail_rows_of d plan"
proof -
  have "rmap (\<lambda>r. case map_of r col of None \<Rightarrow> Inl e | Some v \<Rightarrow> rbind (plan_key v) (\<lambda>key. Inr (key, r))) rows = Inr by_key \<Longrightarrow>
      rows_of_group by_key plan = filter (\<lambda>r. \<exists>v. map_of r col = Some v \<and> plan_key v = Inr plan) rows" for rows col e
    by (induction rows arbitrary: by_key) (auto simp: rbind_Inr rows_of_group_def split: option.splits)
  then show "keyed_rows d = Inr by_key \<Longrightarrow> ?thesis" by (simp add: keyed_rows_def detail_rows_of_def)
qed

lemma statuses_partition:
  "length (filtered_rows d Finished rows) + length (filtered_rows d Unfinished rows) + length (filtered_rows d UnknownStatus rows) =
    length rows"
proof (induction rows)
  case (Cons r rows)
  have "status_of v \<noteq> AnyStatus" for v :: "'a cell" by (simp add: status_of_def)
  then show ?case using Cons
    by (cases "status_of (cell_of r (or_else (od_status_column d) []))") (auto simp: filtered_rows_def)
qed (simp add: filtered_rows_def)

text \<open>A page of a selected view.\<close>

definition selected_view :: "order_groups \<Rightarrow> detail_payload" where
  "selected_view g = hd (og_views (hd (os_groups g)))"

lemma build_selected:
  assumes "build_order_groups env cx capability_id rows columns details (Some sel) m preview 1 = Inr g"
  obtains d where "d \<in> set details" "od_view_id d = ov_view_id sel"
    and "selected_view g = detail_payload_of env cx capability_id d (if ov_group_kind sel = PLAN_GROUP then ov_plan_code sel else None)
      (Some sel) preview (detail_rows_of d (if ov_group_kind sel = PLAN_GROUP then ov_plan_code sel else None))"
    and "ov_status sel \<noteq> AnyStatus \<Longrightarrow> od_status_column d \<noteq> None"
proof -
  let ?plan = "if ov_group_kind sel = PLAN_GROUP then ov_plan_code sel else None"
  obtain summaries groups views by_key where kept: "kept_groups summaries details (Some sel) m 1 = Inr (groups, views)"
    and keyed: "rmap (\<lambda>d. rbind (keyed_rows d) (\<lambda>k. Inr (d, k))) views = Inr by_key"
    and ogs: "rmap (order_group_of env cx capability_id columns by_key (Some sel) preview (length summaries = 1)) groups = Inr (os_groups g)"
    by (rule build_order_groups_Inr [OF assms])
  obtain r d where d: "map_of (map (\<lambda>d. (od_view_id d, d)) details) (ov_view_id sel) = Some d" "groups = [(?plan, r)]" "views = [d]"
    and status: "ov_status sel \<noteq> AnyStatus \<Longrightarrow> od_status_column d \<noteq> None"
    using kept by (auto simp: kept_groups_def Let_def split: option.splits if_splits)
  obtain k where k: "keyed_rows d = Inr k" "by_key = [(d, k)]" using keyed d(3) by (auto simp: rbind_Inr)
  obtain og where og: "[og] = os_groups g" "order_group_of env cx capability_id columns by_key (Some sel) preview (length summaries = 1) (?plan, r) = Inr og"
    using ogs d(2) by (auto simp: rbind_Inr)
  have "selected_view g = detail_payload_of env cx capability_id d ?plan (Some sel) preview (detail_rows_of d ?plan)"
    using order_group_of_Inr(2) [OF og(2)] k rows_of_group_exact [OF k(1)] og(1) [symmetric] by (simp add: selected_view_def)
  moreover have "d \<in> set details" "od_view_id d = ov_view_id sel" using map_of_SomeD [OF d(1)] by auto
  ultimately show ?thesis using that status by blast
qed

lemma detail_payload_pages:
  fixes d plan sel preview env cx cid group_rows
  defines "payload \<equiv> detail_payload_of env cx cid d plan (Some sel) preview group_rows"
    and "by_name \<equiv> card_columns_by_name (filter (\<lambda>c. \<not> column_void group_rows c) (visible_columns d))"
  assumes "1 \<le> ov_page sel" "1 \<le> ov_page_size sel"
  shows "dp_rows payload = slice ((ov_page sel - 1) * ov_page_size sel) (ov_page_size sel)
      (map (row_cells env cx by_name) (filtered_rows d (ov_status sel) group_rows))"
    and "dp_has_more payload \<longleftrightarrow> ov_page sel * ov_page_size sel < int (length (filtered_rows d (ov_status sel) group_rows))"
    and "dp_columns payload = map fst by_name"
    and "dp_total_rows payload = length group_rows" "dp_filtered_total_rows payload = length (filtered_rows d (ov_status sel) group_rows)"
  using length_slice_more [of "ov_page_size sel" "ov_page sel" "filtered_rows d (ov_status sel) group_rows"] assms(3,4)
  by (simp_all add: payload_def by_name_def detail_payload_of_def Let_def slice_def take_map drop_map)

text \<open>
  \<^bold>\<open>C27\<close>.  Paging a detail view shows every row of the selected group once.  The rows
  of the pages up to the last one are, in order, the rendered rows of the view that belong to the
  group and have the selected status; each page knows how many there are, and the three statuses
  partition the rows of the group.
\<close>

theorem selected_rows_paged:
  assumes "\<And>p. 1 \<le> p \<Longrightarrow> p \<le> int n \<Longrightarrow>
      build_order_groups env cx capability_id rows columns details (Some (sel\<lparr>ov_page := p\<rparr>)) m preview 1 = Inr (g p)"
    and "1 \<le> n" "1 \<le> ov_page_size sel" and "\<not> dp_has_more (selected_view (g (int n)))"
    and "plan = (if ov_group_kind sel = PLAN_GROUP then ov_plan_code sel else None)"
  shows "\<exists>d \<in> set details. od_view_id d = ov_view_id sel \<and>
    concat (map (\<lambda>p. dp_rows (selected_view (g p))) [1..int n]) =
      map (row_cells env cx (card_columns_by_name (filter (\<lambda>c. \<not> column_void (detail_rows_of d plan) c) (visible_columns d))))
        (filtered_rows d (ov_status sel) (detail_rows_of d plan)) \<and>
    (\<forall>p. 1 \<le> p \<and> p \<le> int n \<longrightarrow>
      dp_total_rows (selected_view (g p)) = length (detail_rows_of d plan) \<and>
      dp_filtered_total_rows (selected_view (g p)) = length (filtered_rows d (ov_status sel) (detail_rows_of d plan))) \<and>
    length (filtered_rows d Finished (detail_rows_of d plan)) + length (filtered_rows d Unfinished (detail_rows_of d plan)) +
      length (filtered_rows d UnknownStatus (detail_rows_of d plan)) = length (detail_rows_of d plan)"
proof -
  have last: "1 \<le> int n" "int n \<le> int n" using assms(2) by simp_all
  have distinct: "distinct (map od_view_id details)" by (rule build_order_groups_Inr [OF assms(1) [OF last]])
  obtain d where d: "d \<in> set details" "od_view_id d = ov_view_id sel"
    by (rule build_selected [OF assms(1) [OF last]]) simp
  let ?rows = "detail_rows_of d plan"
  let ?cells = "map (row_cells env cx (card_columns_by_name (filter (\<lambda>c. \<not> column_void ?rows c) (visible_columns d))))
    (filtered_rows d (ov_status sel) ?rows)"
  have view: "selected_view (g p) = detail_payload_of env cx capability_id d plan (Some (sel\<lparr>ov_page := p\<rparr>)) preview ?rows"
    if p: "1 \<le> p" "p \<le> int n" for p
  proof (rule build_selected [OF assms(1) [OF p]])
    fix d'
    assume "d' \<in> set details" "od_view_id d' = ov_view_id (sel\<lparr>ov_page := p\<rparr>)"
    moreover from this have "d' = d" using d distinct by (auto simp: distinct_map inj_on_def)
    moreover assume "selected_view (g p) = detail_payload_of env cx capability_id d'
      (if ov_group_kind (sel\<lparr>ov_page := p\<rparr>) = PLAN_GROUP then ov_plan_code (sel\<lparr>ov_page := p\<rparr>) else None) (Some (sel\<lparr>ov_page := p\<rparr>)) preview
      (detail_rows_of d' (if ov_group_kind (sel\<lparr>ov_page := p\<rparr>) = PLAN_GROUP then ov_plan_code (sel\<lparr>ov_page := p\<rparr>) else None))"
    ultimately show ?thesis using assms(5) by simp
  qed
  have page: "dp_rows (selected_view (g p)) = slice ((p - 1) * ov_page_size sel) (ov_page_size sel) ?cells"
    "dp_has_more (selected_view (g p)) \<longleftrightarrow> p * ov_page_size sel < int (length ?cells)"
    "dp_total_rows (selected_view (g p)) = length ?rows" "dp_filtered_total_rows (selected_view (g p)) = length ?cells"
    if p: "1 \<le> p" "p \<le> int n" for p
    using detail_payload_pages [of "sel\<lparr>ov_page := p\<rparr>"] p assms(3) by (simp_all add: view [OF p])
  have "concat (map (\<lambda>p. dp_rows (selected_view (g p))) [1..int n]) =
      concat (map (\<lambda>p. slice ((p - 1) * ov_page_size sel) (ov_page_size sel) ?cells) [1..int n])"
    using page(1) by (intro arg_cong [of _ _ concat]) (auto intro!: map_cong)
  also have "\<dots> = ?cells"
    using slices_concat [where m = "ov_page_size sel" and n = n and xs = ?cells]
      take_all_pages [where n = n and m = "ov_page_size sel" and xs = ?cells] page(2) [OF last] assms(3,4) by simp
  finally have "concat (map (\<lambda>p. dp_rows (selected_view (g p))) [1..int n]) = ?cells" .
  then show ?thesis using d page(3,4) statuses_partition by (intro bexI [of _ d]) auto
qed

section \<open>The grouped preview\<close>

text \<open>Equal values stand next to each other.\<close>

fun contiguous :: "('v \<Rightarrow> 'v \<Rightarrow> bool) \<Rightarrow> 'v list \<Rightarrow> bool" where
  "contiguous eq [] \<longleftrightarrow> True"
| "contiguous eq (v # vs) \<longleftrightarrow> (\<forall>w \<in> set (dropWhile (\<lambda>w. eq w v) vs). \<not> eq w v) \<and> contiguous eq vs"

lemma contiguous_dropWhile: "contiguous eq vs \<Longrightarrow> contiguous eq (dropWhile P vs)"
proof (induction vs)
  case (Cons v vs)
  show ?case
  proof (cases "P v")
    case False
    then show ?thesis using Cons.prems by (simp only: dropWhile.simps if_False)
  next
    case True
    moreover have "contiguous eq vs" using Cons.prems unfolding contiguous.simps by (rule conjunct2)
    ultimately show ?thesis using Cons.IH by (simp only: dropWhile.simps if_True)
  qed
qed simp

lemma takeWhile_filter:
  assumes "\<forall>w \<in> set (dropWhile P xs). \<not> P w"
  shows "takeWhile P xs = filter P xs" and "dropWhile P xs = filter (\<lambda>x. \<not> P x) xs"
proof -
  show "takeWhile P xs = filter P xs" using assms by (simp add: takeWhile_eq_filter)
  have "filter (\<lambda>x. \<not> P x) xs = filter (\<lambda>x. \<not> P x) (takeWhile P xs) @ filter (\<lambda>x. \<not> P x) (dropWhile P xs)"
    by (metis filter_append takeWhile_dropWhile_id)
  moreover have "filter (\<lambda>x. \<not> P x) (takeWhile P xs) = []" by (auto simp: filter_empty_conv dest: set_takeWhileD)
  moreover have "filter (\<lambda>x. \<not> P x) (dropWhile P xs) = dropWhile P xs" using assms by (simp add: filter_id_conv)
  ultimately show "dropWhile P xs = filter (\<lambda>x. \<not> P x) xs" by simp
qed

lemma distinct_values_seen:
  assumes "equivp eq"
  shows "fold (\<lambda>v seen. if \<exists>x \<in> set seen. eq x v then seen else seen @ [v]) vs seen =
    seen @ distinct_values eq (filter (\<lambda>w. \<not> (\<exists>x \<in> set seen. eq x w)) vs)"
proof (induction "length vs" arbitrary: vs seen rule: less_induct)
  case less
  show ?case
  proof (cases vs)
    case (Cons v ws)
    let ?new = "filter (\<lambda>w. \<not> (\<exists>x \<in> set seen. eq x w)) ws"
    show ?thesis
    proof (cases "\<exists>x \<in> set seen. eq x v")
      case True
      then show ?thesis using less [of ws seen] Cons by auto
    next
      case False
      have "length ?new < length vs" using Cons by (simp add: le_imp_less_Suc)
      from less [OF this, of "[v]"] have "distinct_values eq (v # ?new) = v # distinct_values eq (filter (\<lambda>w. \<not> eq v w) ?new)"
        by (simp add: distinct_values_def)
      moreover have "filter (\<lambda>w. \<not> eq v w) ?new = filter (\<lambda>w. \<not> (\<exists>x \<in> set (seen @ [v]). eq x w)) ws" by (auto intro: filter_cong)
      ultimately show ?thesis using less [of ws "seen @ [v]"] Cons False by simp
    qed
  qed (simp add: distinct_values_def)
qed

lemma distinct_values_Cons:
  "equivp eq \<Longrightarrow> distinct_values eq (v # vs) = v # distinct_values eq (filter (\<lambda>w. \<not> eq v w) vs)"
  using distinct_values_seen [of eq vs "[v]"] by (simp add: distinct_values_def)

lemma distinct_values_Nil [simp]: "distinct_values eq [] = []"
  by (simp add: distinct_values_def)

lemma set_distinct_values: "equivp eq \<Longrightarrow> set (distinct_values eq vs) \<subseteq> set vs"
proof (induction "length vs" arbitrary: vs rule: less_induct)
  case less
  show ?case
  proof (cases vs)
    case (Cons v ws)
    have "set (distinct_values eq (filter (\<lambda>w. \<not> eq v w) ws)) \<subseteq> set (filter (\<lambda>w. \<not> eq v w) ws)"
      using Cons by (intro less(1) [OF _ less(2)]) (simp add: le_imp_less_Suc)
    then show ?thesis using Cons by (auto simp: distinct_values_Cons [OF less(2)])
  qed simp
qed

text \<open>The distinct values count every value once.\<close>

lemma distinct_values_count:
  assumes "equivp eq"
  shows "(\<Sum>v \<leftarrow> distinct_values eq vs. length (filter (\<lambda>w. eq w v) vs)) = length vs"
proof (induction "length vs" arbitrary: vs rule: less_induct)
  case less
  show ?case
  proof (cases vs)
    case (Cons v ws)
    let ?rest = "filter (\<lambda>w. \<not> eq v w) ws"
    have "filter (\<lambda>w. eq w x) vs = filter (\<lambda>w. eq w x) ?rest" if "x \<in> set (distinct_values eq ?rest)" for x
    proof -
      have "\<not> eq v x" using that set_distinct_values [OF assms, of ?rest] by auto
      then have "eq w x \<longrightarrow> \<not> eq v w" for w using assms by (meson equivp_transp)
      then show ?thesis using \<open>\<not> eq v x\<close> by (auto simp: Cons intro: filter_cong)
    qed
    then have "(\<Sum>x \<leftarrow> distinct_values eq ?rest. length (filter (\<lambda>w. eq w x) vs)) = length ?rest"
      using less [of ?rest] Cons by (simp add: le_imp_less_Suc cong: map_cong)
    moreover have "filter (\<lambda>w. eq w v) ws = filter (\<lambda>w. eq v w) ws"
      using assms by (auto intro: filter_cong dest: equivp_symp)
    moreover have "eq v v" using assms by (rule equivp_reflp)
    ultimately show ?thesis
      using sum_length_filter_compl [of "eq v" ws] by (simp add: Cons distinct_values_Cons [OF assms])
  qed simp
qed

lemma upto_limit_pos: "1 \<le> n \<Longrightarrow> upto_limit n xs = take (nat n) xs"
  by (simp add: upto_limit_def)

text \<open>The rows with a value of the grouping column.\<close>

definition rows_with :: "'d card_ops \<Rightarrow> pystr \<Rightarrow> 'd cell \<Rightarrow> 'd crow list \<Rightarrow> 'd crow list" where
  "rows_with cx col v rows = filter (\<lambda>r. cx_cell_eq cx (cell_of r col) v) rows"

definition entry_exact :: "'d card_ops \<Rightarrow> card_spec \<Rightarrow> pystr \<Rightarrow> 'd crow list \<Rightarrow> 'd preview_group \<times> 'd crow list \<Rightarrow> bool" where
  "entry_exact cx spec col rows = (\<lambda>(e, kept).
     kept = take (nat (preview_limit spec)) (rows_with cx col (pv_group e) rows) \<and> pv_row_count e = length kept \<and>
     pv_total_rows e = length (rows_with cx col (pv_group e) rows) \<and>
     (pv_truncated e \<longleftrightarrow> pv_row_count e < pv_total_rows e))"

lemma group_entry_Inr:
  assumes "group_entry spec v run = Inr e"
  shows "pv_group e = v" "pv_row_count e = length (upto_limit (preview_limit spec) run)" "pv_total_rows e = length run"
    "pv_truncated e \<longleftrightarrow> pv_row_count e < pv_total_rows e"
  using assms by (auto simp: group_entry_def Let_def split: option.splits list.splits)

lemma grouped_runs_exact:
  assumes "equivp (cx_cell_eq cx)" and "1 \<le> preview_limit spec"
  shows "grouped_runs cx spec col n rows = Inr runs \<Longrightarrow> contiguous (cx_cell_eq cx) (map (\<lambda>r. cell_of r col) rows) \<Longrightarrow>
    map (pv_group \<circ> fst) runs = take n (distinct_values (cx_cell_eq cx) (map (\<lambda>r. cell_of r col) rows)) \<and>
    list_all (entry_exact cx spec col rows) runs"
proof (induction n arbitrary: rows runs)
  case (Suc n)
  show ?case
  proof (cases rows)
    case (Cons r rs)
    let ?v = "cell_of r col"
    let ?same = "\<lambda>x. cx_cell_eq cx (cell_of x col) ?v"
    have refl: "cx_cell_eq cx ?v ?v" using assms(1) by (rule equivp_reflp)
    have "\<forall>w \<in> set (dropWhile (\<lambda>w. cx_cell_eq cx w ?v) (map (\<lambda>r. cell_of r col) rs)). \<not> cx_cell_eq cx w ?v"
      using Suc.prems(2) unfolding Cons list.map contiguous.simps by (rule conjunct1)
    then have apart: "\<forall>x \<in> set (dropWhile ?same rows). \<not> ?same x"
      unfolding dropWhile_map comp_def set_map Cons dropWhile.simps if_P [OF refl] by blast
    define run where "run = takeWhile ?same rows"
    define later where "later = dropWhile ?same rows"
    have run: "run = filter ?same rows" and later: "later = filter (\<lambda>x. \<not> ?same x) rows"
      using takeWhile_filter [OF apart] by (simp_all only: run_def later_def)
    obtain e rest where e: "group_entry spec ?v run = Inr e" and rest: "grouped_runs cx spec col n later = Inr rest"
      and runs: "runs = (e, upto_limit (preview_limit spec) run) # rest"
      using Suc.prems(1) unfolding Cons grouped_runs.simps Let_def run_def later_def by (auto simp: rbind_Inr)
    have "contiguous (cx_cell_eq cx) (map (\<lambda>r. cell_of r col) later)"
      using contiguous_dropWhile [OF Suc.prems(2), of "\<lambda>w. cx_cell_eq cx w ?v"] unfolding later_def dropWhile_map comp_def .
    note IH = Suc.IH [OF rest this]
    have same_rows: "\<not> cx_cell_eq cx ?v (pv_group x) \<and> rows_with cx col (pv_group x) rows = rows_with cx col (pv_group x) later"
      if "x \<in> fst ` set rest" for x
    proof -
      have "pv_group x \<in> set (take n (distinct_values (cx_cell_eq cx) (map (\<lambda>r. cell_of r col) later)))"
        using that unfolding conjunct1 [OF IH, symmetric] by auto
      then have "pv_group x \<in> set (map (\<lambda>r. cell_of r col) later)"
        using set_distinct_values [OF assms(1)] in_set_takeD by fast
      then have new: "\<not> cx_cell_eq cx (pv_group x) ?v" by (auto simp: later)
      then have "cx_cell_eq cx w (pv_group x) \<Longrightarrow> \<not> cx_cell_eq cx w ?v" for w
        using assms(1) by (meson equivp_symp equivp_transp)
      then have "rows_with cx col (pv_group x) rows = rows_with cx col (pv_group x) later"
        by (auto simp: rows_with_def later intro!: filter_cong)
      then show ?thesis using new assms(1) by (meson equivp_symp)
    qed
    have "list_all (entry_exact cx spec col rows) rest"
      using IH same_rows by (force simp: list_all_iff entry_exact_def)
    moreover have "entry_exact cx spec col rows (e, upto_limit (preview_limit spec) run)"
      using group_entry_Inr [OF e] run assms(2) by (simp add: entry_exact_def rows_with_def upto_limit_pos)
    moreover have "map (pv_group \<circ> fst) runs = take (Suc n) (distinct_values (cx_cell_eq cx) (map (\<lambda>r. cell_of r col) rows))"
    proof -
      have "(\<lambda>w. \<not> cx_cell_eq cx ?v w) = (\<lambda>w. \<not> cx_cell_eq cx w ?v)"
        using assms(1) by (intro ext) (meson equivp_symp)
      moreover have "later = filter (\<lambda>x. \<not> ?same x) rs" using refl by (simp add: later Cons)
      ultimately have "filter (\<lambda>w. \<not> cx_cell_eq cx ?v w) (map (\<lambda>r. cell_of r col) rs) = map (\<lambda>r. cell_of r col) later"
        by (simp only: filter_map comp_def)
      then show ?thesis
        using conjunct1 [OF IH] group_entry_Inr(1) [OF e]
        by (simp add: runs Cons distinct_values_Cons [OF assms(1)] comp_def)
    qed
    ultimately show ?thesis by (simp add: runs comp_def)
  qed (use Suc.prems in simp)
qed simp

lemma entry_exactD:
  assumes "entry_exact cx spec col rows x"
  shows "snd x = take (pv_row_count (fst x)) (rows_with cx col (pv_group (fst x)) rows)"
    and "pv_row_count (fst x) = min (length (rows_with cx col (pv_group (fst x)) rows)) (nat (preview_limit spec))"
    and "pv_total_rows (fst x) = length (rows_with cx col (pv_group (fst x)) rows)"
    and "pv_truncated (fst x) \<longleftrightarrow> nat (preview_limit spec) < length (rows_with cx col (pv_group (fst x)) rows)"
proof -
  obtain e kept where x: "x = (e, kept)" by fastforce
  show "snd x = take (pv_row_count (fst x)) (rows_with cx col (pv_group (fst x)) rows)"
    and "pv_row_count (fst x) = min (length (rows_with cx col (pv_group (fst x)) rows)) (nat (preview_limit spec))"
    and "pv_total_rows (fst x) = length (rows_with cx col (pv_group (fst x)) rows)"
    and "pv_truncated (fst x) \<longleftrightarrow> nat (preview_limit spec) < length (rows_with cx col (pv_group (fst x)) rows)"
    using assms by (auto simp: entry_exact_def x min_def)
qed

lemma rows_with_count:
  assumes "equivp (cx_cell_eq cx)"
  shows "(\<Sum>v \<leftarrow> distinct_values (cx_cell_eq cx) (map (\<lambda>r. cell_of r col) rows). length (rows_with cx col v rows)) = length rows"
  using distinct_values_count [OF assms, of "map (\<lambda>r. cell_of r col) rows"]
  by (simp add: rows_with_def filter_map comp_def)

lemma rows_with_nonempty:
  assumes "equivp (cx_cell_eq cx)" and "v \<in> set (distinct_values (cx_cell_eq cx) (map (\<lambda>r. cell_of r col) rows))"
  shows "rows_with cx col v rows \<noteq> []"
  using set_distinct_values [OF assms(1)] assms(2) equivp_reflp [OF assms(1)]
  by (fastforce simp: rows_with_def filter_empty_conv)

text \<open>Bounded counts of a prefix against all counts.\<close>

lemma bounded_prefix_le:
  fixes c :: "'v \<Rightarrow> nat"
  shows "(\<Sum>v \<leftarrow> take n vs. min (c v) l) \<le> (\<Sum>v \<leftarrow> vs. c v)"
proof (induction vs arbitrary: n)
  case (Cons v vs)
  show ?case
    using Cons [of "n - 1"] by (cases n) (auto intro: add_mono)
qed simp

lemma bounded_prefix_sum:
  fixes c :: "'v \<Rightarrow> nat"
  assumes "\<forall>v \<in> set vs. 0 < c v"
  shows "(\<Sum>v \<leftarrow> take n vs. min (c v) l) < (\<Sum>v \<leftarrow> vs. c v) \<longleftrightarrow> (\<exists>v \<in> set (take n vs). l < c v) \<or> n < length vs"
  using assms
proof (induction vs arbitrary: n)
  case (Cons v vs)
  show ?case
  proof (cases n)
    case (Suc k)
    then show ?thesis
      using Cons.IH [of k] Cons.prems bounded_prefix_le [of c l k vs] by (cases "c v \<le> l") (auto simp: min_def)
  qed (use Cons.prems in auto)
qed simp

text \<open>
  A grouped preview whose groups stand together says exactly when it leaves rows out.  The contiguity is
  what the docstring of \<open>_grouped_rows\<close> expects of the recipe; nothing in the code checks it, and
  without it a row can be left out unmarked (\<open>scattered_rows_unmarked\<close>).  Under it, the shown
  groups are the first distinct values; cut by the groups' row counts, the flat list of rows falls into the
  first rows of each group, in order; every group knows how many rows it has; and the table is marked
  truncated just when some row is not shown.
\<close>

theorem preview_truncation_exact:
  assumes "table_payload env cx spec by_name rows = Inr t" and "cs_group_by spec = Some col"
    and "equivp (cx_cell_eq cx)" and "1 \<le> preview_limit spec"
    and "contiguous (cx_cell_eq cx) (map (\<lambda>r. cell_of r col) rows)"
  shows "\<exists>g. pt_grouping t = Some g \<and>
    map pv_group (gr_groups g) = take (nat (cs_preview_max_groups spec))
      (distinct_values (cx_cell_eq cx) (map (\<lambda>r. cell_of r col) rows)) \<and>
    pt_rows t = concat (map (\<lambda>e. map (row_cells env cx by_name) (take (pv_row_count e) (rows_with cx col (pv_group e) rows)))
      (gr_groups g)) \<and>
    (\<forall>e \<in> set (gr_groups g). pv_row_count e = min (pv_total_rows e) (nat (preview_limit spec)) \<and>
      pv_total_rows e = length (rows_with cx col (pv_group e) rows)) \<and>
    (pt_truncated t \<longleftrightarrow> length (pt_rows t) < length rows)"
proof -
  let ?vs = "distinct_values (cx_cell_eq cx) (map (\<lambda>r. cell_of r col) rows)"
  let ?n = "nat (cs_preview_max_groups spec)"
  let ?l = "nat (preview_limit spec)"
  obtain runs where runs: "grouped_runs cx spec col ?n rows = Inr runs"
    and t: "pt_grouping t = Some \<lparr>gr_group_by = col, gr_groups = map fst runs, gr_groups_total = length ?vs\<rparr>"
      "pt_rows t = map (row_cells env cx by_name) (concat (map snd runs))"
      "pt_truncated t \<longleftrightarrow> (\<exists>e \<in> set (map fst runs). pv_truncated e) \<or> length runs < length ?vs"
    using assms(1,2) by (auto simp: table_payload_def grouped_table_def rbind_Inr Let_def)
  have groups: "map (pv_group \<circ> fst) runs = take ?n ?vs" and exact: "list_all (entry_exact cx spec col rows) runs"
    using grouped_runs_exact [OF assms(3,4) runs assms(5)] by blast+
  have entry: "snd x = take (pv_row_count (fst x)) (rows_with cx col (pv_group (fst x)) rows)"
    "pv_row_count (fst x) = min (length (rows_with cx col (pv_group (fst x)) rows)) ?l"
    "pv_total_rows (fst x) = length (rows_with cx col (pv_group (fst x)) rows)"
    "pv_truncated (fst x) \<longleftrightarrow> ?l < length (rows_with cx col (pv_group (fst x)) rows)" if "x \<in> set runs" for x
    using that exact entry_exactD by (metis list_all_iff)+
  have rows: "concat (map snd runs) = concat (map (\<lambda>x. take (pv_row_count (fst x)) (rows_with cx col (pv_group (fst x)) rows)) runs)"
    using entry(1) by (intro arg_cong [of _ _ concat] map_cong refl)
  have "length (concat (map snd runs)) = (\<Sum>v \<leftarrow> map (pv_group \<circ> fst) runs. min (length (rows_with cx col v rows)) ?l)"
    unfolding rows using entry(2) by (simp add: length_concat comp_def cong: map_cong)
  then have shown: "length (pt_rows t) = (\<Sum>v \<leftarrow> take ?n ?vs. min (length (rows_with cx col v rows)) ?l)"
    by (simp only: t(2) length_map groups)
  have truncated: "pt_truncated t \<longleftrightarrow> (\<exists>v \<in> set (map (pv_group \<circ> fst) runs). ?l < length (rows_with cx col v rows)) \<or> ?n < length ?vs"
    using entry(4) arg_cong [OF groups, of length] unfolding t(3) by auto
  have nonempty: "\<forall>v \<in> set ?vs. 0 < length (rows_with cx col v rows)"
    using rows_with_nonempty [OF assms(3)] by blast
  have "pt_truncated t \<longleftrightarrow> length (pt_rows t) < length rows"
    unfolding truncated groups shown rows_with_count [OF assms(3), of col rows, symmetric] bounded_prefix_sum [OF nonempty] ..
  moreover have "pt_rows t = concat (map (\<lambda>e. map (row_cells env cx by_name) (take (pv_row_count e) (rows_with cx col (pv_group e) rows)))
      (map fst runs))"
    unfolding t(2) rows by (simp add: map_concat comp_def)
  moreover have "map pv_group (map fst runs) = take ?n ?vs" using groups by simp
  moreover have "\<forall>e \<in> set (map fst runs). pv_row_count e = min (pv_total_rows e) ?l \<and>
      pv_total_rows e = length (rows_with cx col (pv_group e) rows)"
    using entry(2,3) by auto
  ultimately show ?thesis unfolding t(1) by (intro exI conjI) (rule refl | simp only: preview_grouping.simps)+
qed

section \<open>Samples\<close>

definition plain_cards :: "int card_ops" where
  "plain_cards = \<lparr>cx_cell_eq = (=), cx_two_places = Some, cx_plain = dc_str whole_numbers, cx_sha256 = id,
     cx_dashed_day = (\<lambda>_. None), cx_slashed_day = (\<lambda>_. None), cx_month_day = (\<lambda>_. [])\<rparr>"

text \<open>Two plans and the unlinked rows, each with order sheets; the first plan has two, one of them finished.\<close>

definition sheet :: "'d cell \<Rightarrow> string \<Rightarrow> pystr \<Rightarrow> 'd crow" where
  "sheet plan name state = [(u ''plan_code'', plan), (u ''sheet'', Cell (JStr (u name))), (u ''state'', Cell (JStr state))]"

definition sheet_view :: "'d order_detail" where
  "sheet_view = \<lparr>od_view_id = u ''sheets'', od_title = u ''Sheets'', od_group_by = u ''plan_code'',
     od_columns = map (\<lambda>n. \<lparr>cd_name = u n, cd_title = None, cd_column_type = None, cd_unit = None\<rparr>) [''sheet'', ''state''],
     od_rows = [sheet (Cell (JStr (u ''p1''))) ''a'' FINISHED_LABEL, sheet (Cell (JStr (u ''p2''))) ''b'' UNFINISHED_LABEL,
       sheet (Cell (JStr (u ''p1''))) ''c'' UNFINISHED_LABEL],
     od_status_column = Some (u ''state''), od_hidden_columns = [], od_actions = []\<rparr>"

definition plan_summaries :: "'d crow list" where
  "plan_summaries = map (\<lambda>v. [(u ''plan_code'', v)]) [Cell (JStr (u ''p1'')), Cell (JStr (u ''p2'')), Cell JNull]"

definition sample_groups :: "order_view_selection option \<Rightarrow> int \<Rightarrow> value_error + order_groups" where
  "sample_groups selection page = build_order_groups demo_kernel plain_cards (u ''orders'') plan_summaries [] [sheet_view]
     selection 2 10 page"

lemma sample_summaries: "order_summaries plan_summaries [] =
    Inr (zip [Some (u ''p1''), Some (u ''p2''), None] plan_summaries)"
  by (simp add: plan_summaries_def plan_key_def str_eval)

lemma sample_keyed: "keyed_rows sheet_view = Inr (zip [Some (u ''p1''), Some (u ''p2''), Some (u ''p1'')] (od_rows sheet_view))"
  by (simp add: keyed_rows_def sheet_view_def sheet_def plan_key_def str_eval)

lemma sample_group: "\<exists>og. order_group_of demo_kernel plain_cards cid [] details selection 10 only gr = Inr og"
  by (simp add: order_group_of_def summary_payload_def row_cells_def card_columns_by_name_def split_def)

lemma sample_built:
  assumes "p = 1 \<or> p = 2 \<and> selection = None" and "kept_groups (zip [Some (u ''p1''), Some (u ''p2''), None] plan_summaries)
      [sheet_view :: int order_detail] selection 2 p = Inr (groups, [sheet_view])"
  shows "\<exists>g. sample_groups selection p = Inr g"
proof -
  let ?keyed = "[(sheet_view :: int order_detail, zip [Some (u ''p1''), Some (u ''p2''), Some (u ''p1'')] (od_rows sheet_view))]"
  let ?keys = "zip [Some (u ''p1''), Some (u ''p2''), None] (plan_summaries :: int crow list)"
  obtain ogs where ogs: "rmap (order_group_of demo_kernel plain_cards (u ''orders'') [] ?keyed selection 10 (length ?keys = 1)) groups = Inr ogs"
    using rmap_total sample_group by metis
  have views: "rmap (\<lambda>d. rbind (keyed_rows d) (\<lambda>k. Inr (d, k))) [sheet_view :: int order_detail] = Inr ?keyed"
    by (simp add: sample_keyed)
  have "view_integer (u ''group limit'') GROUP_LIMIT 2 = Inr ()" "view_integer (u ''preview row limit'') PAGE_SIZE_LIMIT 10 = Inr ()"
    "view_integer (u ''group page'') PAGE_LIMIT p = Inr ()" "selection = None \<or> p = 1"
    using assms(1) by (auto simp: view_integer_def GROUP_LIMIT_def PAGE_SIZE_LIMIT_def PAGE_LIMIT_def)
  then show ?thesis
    unfolding sample_groups_def build_order_groups_def sample_summaries using assms(2) views ogs by simp
qed

lemma order_pages_partition_witness:
  "\<exists>g. (\<forall>p \<in> {1, 2}. sample_groups None p = Inr (g p)) \<and>
    map og_plan_code (os_groups (g 1)) @ map og_plan_code (os_groups (g 2)) = [Some (u ''p1''), Some (u ''p2''), None]"
proof -
  have kept: "kept_groups (zip [Some (u ''p1''), Some (u ''p2''), None] plan_summaries) [sheet_view :: int order_detail] None 2 p =
      Inr (slice ((p - 1) * 2) 2 (zip [Some (u ''p1''), Some (u ''p2''), None] plan_summaries), [sheet_view])" for p
    by (simp add: kept_groups_def)
  define g where "g p = projr (sample_groups None p)" for p
  have g: "sample_groups None p = Inr (g p)" if "p = 1 \<or> p = 2" for p
    using sample_built [OF _ kept [of p]] that by (auto simp: g_def)
  have built: "build_order_groups demo_kernel plain_cards (u ''orders'') plan_summaries [] [sheet_view] None 2 10 p = Inr (g p)"
    if "1 \<le> p" "p \<le> int 2" for p
    using g [of p] that unfolding sample_groups_def by fastforce
  have more: "\<not> os_has_more (g (int 2))"
    using build_order_groups_page [OF built sample_summaries, of 2] by (simp add: plan_summaries_def)
  obtain keys where keys: "list_all2 (\<lambda>r key. \<exists>v. map_of r (u ''plan_code'') = Some v \<and> plan_key v = Inr key) (plan_summaries :: int crow list) keys"
    and pages: "concat (map (\<lambda>p. map og_plan_code (os_groups (g p))) [1..int 2]) = keys"
    using order_pages_partition [where n = 2, OF built _ more] by auto
  have "keys = [Some (u ''p1''), Some (u ''p2''), None]"
    using keys by (auto simp: plan_summaries_def list_all2_Cons1 plan_key_def str_eval)
  moreover have "[1..int 2] = [1, 2]" by (simp add: upto.simps)
  ultimately show ?thesis using pages g by (intro exI [of _ g]) auto
qed

text \<open>The finished sheets of the first plan, one to a page.\<close>

definition finished_sheets :: order_view_selection where
  "finished_sheets = \<lparr>ov_view_id = u ''sheets'', ov_group_kind = PLAN_GROUP, ov_plan_code = Some (u ''p1''), ov_page = 1,
     ov_page_size = 1, ov_status = Finished, ov_snapshot_id = None\<rparr>"

lemma selected_rows_paged_witness:
  "\<exists>g. sample_groups (Some finished_sheets) 1 = Inr g \<and> length (dp_rows (selected_view g)) = 1 \<and>
    dp_total_rows (selected_view g) = 2"
proof -
  have kept: "\<exists>r. kept_groups (zip [Some (u ''p1''), Some (u ''p2''), None] plan_summaries) [sheet_view :: int order_detail]
      (Some (finished_sheets\<lparr>ov_page := 1\<rparr>)) 2 1 = Inr ([(Some (u ''p1''), r)], [sheet_view])"
    by (simp add: kept_groups_def finished_sheets_def sheet_view_def plan_summaries_def)
  then obtain g where g: "sample_groups (Some (finished_sheets\<lparr>ov_page := 1\<rparr>)) 1 = Inr g"
    using sample_built by blast
  have rows: "detail_rows_of (sheet_view :: int order_detail) (Some (u ''p1'')) =
      [sheet (Cell (JStr (u ''p1''))) ''a'' FINISHED_LABEL, sheet (Cell (JStr (u ''p1''))) ''c'' UNFINISHED_LABEL]"
    by (simp add: detail_rows_of_def sheet_view_def sheet_def plan_key_def str_eval)
  have filtered: "length (filtered_rows (sheet_view :: int order_detail) Finished (detail_rows_of sheet_view (Some (u ''p1'')))) = 1"
    unfolding rows by (simp add: filtered_rows_def sheet_view_def sheet_def cell_of_def or_else_def status_of_def
        FINISHED_LABEL_def UNFINISHED_LABEL_def str_eval)
  have sel: "finished_sheets\<lparr>ov_page := p\<rparr> = finished_sheets\<lparr>ov_page := 1\<rparr>" if "1 \<le> p" "p \<le> int 1" for p using that by simp
  have built: "build_order_groups demo_kernel plain_cards (u ''orders'') plan_summaries [] [sheet_view]
      (Some (finished_sheets\<lparr>ov_page := p\<rparr>)) 2 10 1 = Inr g" if "1 \<le> p" "p \<le> int 1" for p
    using g unfolding sel [OF that] sample_groups_def .
  have plan: "Some (u ''p1'') = (if ov_group_kind finished_sheets = PLAN_GROUP then ov_plan_code finished_sheets else None)"
    by (simp add: finished_sheets_def)
  have view: "selected_view g = detail_payload_of demo_kernel plain_cards (u ''orders'') sheet_view (Some (u ''p1''))
      (Some (finished_sheets\<lparr>ov_page := 1\<rparr>)) 10 (detail_rows_of sheet_view (Some (u ''p1'')))"
    by (rule build_selected [OF built [of 1]]) (simp_all add: finished_sheets_def)
  have "\<not> dp_has_more (selected_view g)"
    unfolding view by (subst detail_payload_pages(2)) (use filtered in \<open>simp_all add: finished_sheets_def\<close>)
  then obtain d where d: "d \<in> {sheet_view}" and pages: "concat (map (\<lambda>p. dp_rows (selected_view g)) [1..int 1]) =
      map (row_cells demo_kernel plain_cards (card_columns_by_name (filter (\<lambda>c. \<not> column_void (detail_rows_of d (Some (u ''p1''))) c)
        (visible_columns d)))) (filtered_rows d (ov_status finished_sheets) (detail_rows_of d (Some (u ''p1''))))"
    and n: "dp_total_rows (selected_view g) = length (detail_rows_of d (Some (u ''p1'')))"
    using selected_rows_paged [where n = 1 and g = "\<lambda>_. g", OF built _ _ _ plan] by (auto simp: finished_sheets_def)
  have "[1..int 1] = [1]" by simp
  then have "length (dp_rows (selected_view g)) = 1"
    using arg_cong [OF pages, of length] filtered d by (simp add: finished_sheets_def)
  moreover have "finished_sheets\<lparr>ov_page := 1\<rparr> = finished_sheets" by (simp add: finished_sheets_def)
  ultimately show ?thesis using g n d rows by auto
qed

text \<open>Four rows of two groups, one row to a group.\<close>

definition dept_row :: "string \<Rightarrow> 'd crow" where
  "dept_row d = [(u ''dept'', Cell (JStr (u d)))]"

definition dept_card :: card_spec where
  "dept_card = \<lparr>cs_kind = TABLE, cs_metrics = [], cs_totals = [], cs_preview_max_rows = Some 1, cs_preview_max_groups = 5,
     cs_group_by = Some (u ''dept''), cs_group_name_from = None, cs_rank_column = None, cs_alert_marker = None,
     cs_actions = [], cs_notes = [], cs_hidden_columns = []\<rparr>"

lemma preview_truncation_exact_witness:
  "\<exists>t. table_payload demo_kernel plain_cards dept_card [] (map dept_row [''d1'', ''d1'', ''d2'']) = Inr t \<and>
    length (pt_rows t) = 2 \<and> pt_truncated t"
proof -
  let ?rows = "map dept_row [''d1'', ''d1'', ''d2''] :: int crow list"
  have eq: "equivp (cx_cell_eq plain_cards)" "cx_cell_eq plain_cards = (=)" by (simp_all add: plain_cards_def identity_equivp)
  have depts: "map (\<lambda>r. cell_of r (u ''dept'')) ?rows = map (Cell \<circ> JStr \<circ> u) [''d1'', ''d1'', ''d2'']"
    by (simp add: dept_row_def cell_of_def)
  have together: "contiguous (cx_cell_eq plain_cards) (map (\<lambda>r. cell_of r (u ''dept'')) ?rows)"
    unfolding depts eq(2) by (simp add: str_eval)
  have "\<exists>t. table_payload demo_kernel plain_cards dept_card [] ?rows = Inr t"
    by (simp add: table_payload_def dept_card_def grouped_table_def group_entry_def Let_def numeral_eq_Suc)
  then obtain t where t: "table_payload demo_kernel plain_cards dept_card [] ?rows = Inr t" by blast
  have limit: "1 \<le> preview_limit dept_card" "preview_limit dept_card = 1" by (simp_all add: preview_limit_def dept_card_def)
  have col: "cs_group_by dept_card = Some (u ''dept'')" by (simp add: dept_card_def)
  have distinct: "distinct_values (=) (map (Cell \<circ> JStr \<circ> u) [''d1'', ''d1'', ''d2''] :: int cell list) =
      map (Cell \<circ> JStr \<circ> u) [''d1'', ''d2'']"
    by (simp add: distinct_values_def str_eval)
  note exact = preview_truncation_exact [OF t col eq(1) limit(1) together]
  obtain g where G: "pt_grouping t = Some g" using exact by blast
  have g: "map pv_group (gr_groups g) = take (nat (cs_preview_max_groups dept_card)) (map (Cell \<circ> JStr \<circ> u) [''d1'', ''d2''])"
    using exact [unfolded depts eq(2) distinct] by (simp add: G)
  have cells: "pt_rows t = concat (map (\<lambda>e. map (row_cells demo_kernel plain_cards [])
      (take (pv_row_count e) (rows_with plain_cards (u ''dept'') (pv_group e) ?rows))) (gr_groups g))"
    and counts: "\<forall>e \<in> set (gr_groups g). pv_row_count e = min (pv_total_rows e) (nat (preview_limit dept_card)) \<and>
      pv_total_rows e = length (rows_with plain_cards (u ''dept'') (pv_group e) ?rows)"
    and trunc: "pt_truncated t \<longleftrightarrow> length (pt_rows t) < length ?rows"
    using exact unfolding G option.inject by blast+
  have two: "length (gr_groups g) = 2" using arg_cong [OF g, of length] by (simp add: dept_card_def)
  have some: "0 < length (rows_with plain_cards (u ''dept'') (pv_group e) ?rows)" if "e \<in> set (gr_groups g)" for e
    using imageI [OF that, of pv_group] arg_cong [OF g, of set]
    by (auto simp: dept_card_def rows_with_def dept_row_def cell_of_def eq(2))
  have "length (take (pv_row_count e) (rows_with plain_cards (u ''dept'') (pv_group e) ?rows)) = 1"
    if "e \<in> set (gr_groups g)" for e
  proof -
    have "pv_row_count e = min (length (rows_with plain_cards (u ''dept'') (pv_group e) ?rows)) 1"
      using that counts limit(2) by simp
    then show ?thesis using some [OF that] by (cases "rows_with plain_cards (u ''dept'') (pv_group e) ?rows") simp_all
  qed
  then have "length (pt_rows t) = 2"
    using two by (simp add: cells length_concat comp_def sum_list_triv cong: map_cong)
  then show ?thesis using t trunc by auto
qed

text \<open>
  Groups that do not stand together: the rows of \<open>d1\<close> come first and last, the preview shows two
  groups, and the last row is neither shown nor reported, while the table says that nothing is left out.
\<close>

lemma scattered_rows_unmarked:
  "\<exists>t. table_payload demo_kernel plain_cards (dept_card\<lparr>cs_preview_max_groups := 2\<rparr>) []
      (map dept_row [''d1'', ''d2'', ''d1'']) = Inr t \<and>
    length (pt_rows t) = 2 \<and> pt_total_rows t = 3 \<and> \<not> pt_truncated t"
proof -
  have "distinct_values (=) [Cell (JStr (u ''d1'')), Cell (JStr (u ''d2'')), Cell (JStr (u ''d1'')) :: int cell] =
      [Cell (JStr (u ''d1'')), Cell (JStr (u ''d2''))]"
    by (simp add: distinct_values_def str_eval)
  then show ?thesis
    by (simp add: table_payload_def dept_card_def grouped_table_def group_entry_def Let_def numeral_eq_Suc dept_row_def cell_of_def
        preview_limit_def upto_limit_def plain_cards_def str_eval)
qed

end
