(* ===== verification/KernelTable.thy ===== *)
theory KernelTable
  imports Cards
begin

text \<open>
  The execution kernel (\<^verbatim>\<open>execution/kernel.py\<close>), second half: the result table of a run
  (compute steps, metric gating, totals, auxiliary outputs, details, card), the shadow validation
  against the realtime baseline, the observation of ownership values, and the whole run with the
  context of its card.

  A parameter (\<open>table_env\<close>) is the digest that identifies the data of a run: the code hashes a JSON
  rendering of recipe, request and fetched rows.  A warning is the reason it was worded from.
  Reconciliation against the footer only logs, and the dates of the cached fetches shown with a
  result are left out.
\<close>

record column_meta =
  cm_name :: pystr
  cm_metric_name :: "pystr option"
  cm_metric_version :: "pystr option"
  cm_source_operations :: "pystr list"
  cm_column_type :: "column_type option"
  cm_unit :: "pystr option"
  cm_title :: "pystr option"

record 'd detail_table =
  dt_view_id :: pystr
  dt_title :: pystr
  dt_group_by :: pystr
  dt_columns :: "column_meta list"
  dt_rows :: "'d crow list"
  dt_status_column :: "pystr option"
  dt_hidden_columns :: "pystr list"

text \<open>The card of a result: the payload, and what the order views add to it.  \<open>kc_context\<close> is the
  context of follow-up requests, \<open>kc_snapshot\<close> the identity of the data, repeated in the requests of
  the groups and views.\<close>

record drill_context =
  dx_time_range :: "instant \<times> instant"
  dx_order_codes :: "pystr list"
  dx_style_codes :: "pystr list"
  dx_plan_codes :: "pystr list"
  dx_material_ids :: "pystr list"
  dx_dept_ids :: "pystr list"
  dx_employee_uid :: "pystr option"

record 'd result_card =
  kc_payload :: "'d card_payload"
  kc_order_groups :: "order_groups option"
  kc_context :: "drill_context option"
  kc_snapshot :: "pystr option"
  kc_next_group_page :: "int option"

record 'd result_table =
  rt_capability_id :: pystr
  rt_columns :: "column_meta list"
  rt_rows :: "'d crow list"
  rt_totals :: "(pystr, 'd) dict"
  rt_source_operations :: "pystr list"
  rt_warnings :: "table_warning list"
  rt_incomplete :: bool
  rt_incomplete_reason :: "pystr option"
  rt_card :: "'d result_card option"
  rt_detail_tables :: "'d detail_table list"
  rt_hidden_columns :: "pystr list"

record paging_request =
  pg_order_view :: "order_view_selection option"
  pg_group_page :: int
  pg_group_page_size :: int
  pg_data_snapshot_id :: "pystr option"

type_synonym 'd outputs = "(pystr, 'd crow list) dict"

record run_request =
  rq_filters :: narrowed_filters
  rq_time_range :: "instant \<times> instant"
  rq_role :: "role option"
  rq_caller_employee_id :: "pystr option"
  rq_caller_dept_ids :: "pystr set option"
  rq_paging :: paging_request

record 'd table_env =
  te_cards :: "'d card_ops"
  te_snapshot_id :: "capability_recipe \<Rightarrow> run_request \<Rightarrow> fetches \<Rightarrow> pystr"

section \<open>Values\<close>

definition decimal_or_zero :: "('w, 'c, 'd) kernel_env \<Rightarrow> 'd cell \<Rightarrow> 'd" where
  "decimal_or_zero env v = (case v of Dec d \<Rightarrow> d
     | Cell j \<Rightarrow> (case dc_parse (kv_decimals env) (json_str (kv_codec env) j) of Some d \<Rightarrow> d
         | None \<Rightarrow> dc_zero (kv_decimals env)))"

definition decimal_of :: "('w, 'c, 'd) kernel_env \<Rightarrow> 'd cell \<Rightarrow> 'd option" where
  "decimal_of env v = (case v of Dec d \<Rightarrow> Some d | Cell j \<Rightarrow> dc_parse (kv_decimals env) (json_str (kv_codec env) j))"

text \<open>\<open>sum(values, Decimal("0"))\<close>.\<close>

definition sum_decimals :: "'d decimals \<Rightarrow> 'd list \<Rightarrow> kernel_error + 'd" where
  "sum_decimals dc xs = rfold (\<lambda>x acc. opt_result KernelCrash (dc_add dc acc x)) xs (dc_zero dc)"

definition numeric_type :: "column_type option \<Rightarrow> bool" where
  "numeric_type t \<longleftrightarrow> t = Some MONEY \<or> t = Some QUANTITY"

definition to_value :: "('w, 'c, 'd) kernel_env \<Rightarrow> column_meta \<Rightarrow> 'd cell \<Rightarrow> 'd cell" where
  "to_value env column v = (if absent v then v
     else case v of Cell (JStr s) \<Rightarrow> if numeric_type (cm_column_type column) then Dec (decimal_or_zero env v) else v
       | _ \<Rightarrow> v)"

section \<open>Sources\<close>

text \<open>The operations that feed a step: its own and those of its dependencies.  The recursion ends
  because recipes are acyclic; the number of dependencies bounds its depth.\<close>

definition api_operation :: "capability_recipe \<Rightarrow> pystr \<Rightarrow> pystr set" where
  "api_operation recipe step_id = (case map_of (rev (map (\<lambda>s. (rs_step_id s, rs_operation_id s))
     (filter (\<lambda>s. rs_kind s = API \<and> rs_operation_id s \<noteq> None) (cr_steps recipe)))) step_id of
       Some (Some op) \<Rightarrow> (if op \<noteq> [] then {op} else {}) | _ \<Rightarrow> {})"

definition step_named :: "capability_recipe \<Rightarrow> pystr \<Rightarrow> recipe_step option" where
  "step_named recipe step_id = find (\<lambda>s. rs_step_id s = step_id) (rev (cr_steps recipe))"

fun upstream_api :: "capability_recipe \<Rightarrow> nat \<Rightarrow> recipe_step \<Rightarrow> pystr set" where
  "upstream_api recipe 0 step = api_operation recipe (rs_step_id step)"
| "upstream_api recipe (Suc fuel) step = api_operation recipe (rs_step_id step) \<union>
     (\<Union>d \<in> set (rs_depends_on step). case step_named recipe d of
        Some s \<Rightarrow> upstream_api recipe fuel s | None \<Rightarrow> {})"

definition dependency_count :: "capability_recipe \<Rightarrow> nat" where
  "dependency_count recipe = sum_list (map (\<lambda>s. length (rs_depends_on s)) (cr_steps recipe))"

definition source_operations_of :: "capability_recipe \<Rightarrow> pystr \<Rightarrow> pystr list" where
  "source_operations_of recipe step_id = (case step_named recipe step_id of
     Some s \<Rightarrow> sorted_list_of_set (upstream_api recipe (dependency_count recipe) s) | None \<Rightarrow> [])"

definition all_source_operations :: "capability_recipe \<Rightarrow> pystr list" where
  "all_source_operations recipe = sorted_list_of_set (set (filter (\<lambda>op. op \<noteq> [])
     (List.map_filter rs_operation_id (filter (\<lambda>s. rs_kind s = API) (cr_steps recipe)))))"

definition first_footer :: "fetches \<Rightarrow> footer option" where
  "first_footer fs = (case find (\<lambda>f. rs_footer f \<noteq> None) (map snd fs) of Some f \<Rightarrow> rs_footer f | None \<Rightarrow> None)"

definition first_api_rows :: "fetches \<Rightarrow> row list" where
  "first_api_rows fs = (case find (\<lambda>f. rs_rows f \<noteq> []) (map snd fs) of Some f \<Rightarrow> rs_rows f | None \<Rightarrow> [])"

definition sum_field :: "('w, 'c, 'd) kernel_env \<Rightarrow> row list \<Rightarrow> pystr \<Rightarrow> kernel_error + 'd" where
  "sum_field env rows field = sum_decimals (kv_decimals env)
     (map (\<lambda>r. decimal_or_zero env (Cell (case map_of r field of Some v \<Rightarrow> v | None \<Rightarrow> JNull))) rows)"

text \<open>The loop over incomplete fetches: the last one decides the reason.\<close>

definition fetch_reason :: "fetch_result \<Rightarrow> pystr" where
  "fetch_reason f = (case rs_reason f of Some r \<Rightarrow> if r \<noteq> [] then r else u ''incomplete'' | None \<Rightarrow> u ''incomplete'')"

definition table_reason :: "fetch_result \<Rightarrow> pystr" where
  "table_reason f = (if starts_with (u ''upstream_'') (fetch_reason f) then fetch_reason f
     else u ''pagination_'' @ fetch_reason f)"

definition fetch_warning :: "fetch_result \<Rightarrow> table_warning" where
  "fetch_warning f = (if starts_with (u ''upstream_'') (fetch_reason f) then UpstreamWarning (fetch_reason f)
     else PaginationWarning (fetch_reason f))"

definition fetch_state_of :: "fetches \<Rightarrow> pystr option \<times> table_warning list" where
  "fetch_state_of fs = (let bad = filter (\<lambda>f. \<not> rs_complete f) (map snd fs) in
     (if bad = [] then None else Some (table_reason (last bad)), map fetch_warning bad))"

section \<open>Compute steps\<close>

definition dependency_empty :: "pystr list \<Rightarrow> fetches \<Rightarrow> bool" where
  "dependency_empty depends_on fs \<longleftrightarrow> depends_on \<noteq> [] \<and>
     (\<forall>d \<in> set depends_on. case map_of fs d of None \<Rightarrow> True | Some f \<Rightarrow> rs_rows f = [])"

definition filter_values :: "narrowed_filters \<Rightarrow> pystr \<Rightarrow> pystr set option" where
  "filter_values f key = (if key = u ''order_codes'' then nf_order_codes f
     else if key = u ''style_codes'' then nf_style_codes f
     else if key = u ''plan_codes'' then nf_plan_codes f
     else if key = u ''material_ids'' then nf_material_ids f
     else if key = u ''requested_dept_ids'' then nf_requested_dept_ids f else None)"

definition business_filter_params ::
  "('w, 'c, 'd) kernel_env \<Rightarrow> (pystr, pystr) dict option \<Rightarrow> narrowed_filters \<Rightarrow> kernel_error + bind_params option" where
  "business_filter_params env bindings f =
     (if items_or_empty bindings = [] then Inr None
      else rbind (rmap (\<lambda>(param, key). if key \<notin> BUSINESS_FILTER_KEYS
          then Inl (KernelMes (InvalidRequestError (u ''unknown business filter binding: '' @ key)))
          else Inr (param, case filter_values f key of Some vs \<Rightarrow> if vs = {} then [] else kv_listing env vs | None \<Rightarrow> []))
        (items_or_empty bindings)) (\<lambda>ps. Inr (Some ps)))"

definition compute_columns :: "capability_recipe \<Rightarrow> pystr \<Rightarrow> pystr list" where
  "compute_columns recipe step_id =
     (let names = map rc_name (filter (\<lambda>c. rc_source_step c = step_id) (cr_result_columns recipe)) in
      if names = [] then [u ''value''] else names)"

text \<open>\<open>dict(zip(columns, row))\<close>.\<close>

definition dict_zip :: "pystr list \<Rightarrow> 'd cell list \<Rightarrow> 'd crow" where
  "dict_zip columns r = fold (\<lambda>(c, v). AList.update c v) (zip columns r) []"

definition run_compute_step ::
  "('w, 'c, 'd) kernel_env \<Rightarrow> capability_recipe \<Rightarrow> fetches \<Rightarrow> narrowed_filters \<Rightarrow> recipe_step \<Rightarrow> 'c sandbox \<Rightarrow>
   (kernel_error + 'd crow list) \<times> 'c sandbox" where
  "run_compute_step env recipe fs f step s =
     (case rs_compute step of
        None \<Rightarrow> (Inl (KernelMes (InvalidRequestError (u ''local step '' @ rs_step_id step @ u '' has no compute''))), s)
      | Some sql \<Rightarrow>
          if dependency_empty (rs_depends_on step) fs then (Inr [], s)
          else (case business_filter_params env (rs_filter_bindings step) f of
              Inl e \<Rightarrow> (Inl e, s)
            | Inr params \<Rightarrow> (case sandbox_execute (kv_text env) (kv_engine env) sql params s of
                (answer, s') \<Rightarrow> (rbind (rejected_as (u ''sandbox rejected local compute for '' @ rs_step_id step) answer)
                   (\<lambda>rows. let columns = compute_columns recipe (rs_step_id step) in
                      Inr (map (dict_zip columns) (filter (\<lambda>r. length r = length columns) rows))), s'))))"

fun run_compute_steps ::
  "('w, 'c, 'd) kernel_env \<Rightarrow> capability_recipe \<Rightarrow> fetches \<Rightarrow> narrowed_filters \<Rightarrow> recipe_step list \<Rightarrow> 'd outputs \<Rightarrow>
   'c sandbox \<Rightarrow> (kernel_error + 'd outputs) \<times> 'c sandbox" where
  "run_compute_steps env recipe fs f [] acc s = (Inr acc, s)"
| "run_compute_steps env recipe fs f (step # steps) acc s =
     (if rs_kind step \<noteq> LOCAL then run_compute_steps env recipe fs f steps acc s
      else (case run_compute_step env recipe fs f step s of
         (Inl e, s') \<Rightarrow> (Inl e, s')
       | (Inr rows, s') \<Rightarrow> run_compute_steps env recipe fs f steps (AList.update (rs_step_id step) rows acc) s'))"

definition run_aux_step ::
  "('w, 'c, 'd) kernel_env \<Rightarrow> fetches \<Rightarrow> narrowed_filters \<Rightarrow> aux_output \<Rightarrow> 'c sandbox \<Rightarrow>
   (kernel_error + 'd crow list) \<times> 'c sandbox" where
  "run_aux_step env fs f aux s =
     (if dependency_empty (ao_depends_on aux) fs then (Inr [], s)
      else (case business_filter_params env (ao_filter_bindings aux) f of
          Inl e \<Rightarrow> (Inl e, s)
        | Inr params \<Rightarrow> (case execute_typed (kv_text env) (kv_engine env) (ao_compute aux) params s of
            (answer, s') \<Rightarrow> (rbind (rejected_as (u ''sandbox rejected aux compute for '' @ ao_aux_id aux) answer)
               (\<lambda>(columns, rows). Inr (map (dict_zip columns) rows)), s'))))"

fun run_aux_steps ::
  "('w, 'c, 'd) kernel_env \<Rightarrow> fetches \<Rightarrow> narrowed_filters \<Rightarrow> aux_output list \<Rightarrow> 'd outputs \<Rightarrow> 'c sandbox \<Rightarrow>
   (kernel_error + 'd outputs) \<times> 'c sandbox" where
  "run_aux_steps env fs f [] acc s = (Inr acc, s)"
| "run_aux_steps env fs f (aux # rest) acc s =
     (case run_aux_step env fs f aux s of
        (Inl e, s') \<Rightarrow> (Inl e, s')
      | (Inr rows, s') \<Rightarrow> run_aux_steps env fs f rest (AList.update (ao_aux_id aux) rows acc) s')"

section \<open>Rendering\<close>

definition is_detail :: "capability_recipe \<Rightarrow> bool" where
  "is_detail recipe \<longleftrightarrow> (\<exists>s \<in> set (cr_steps recipe). rs_kind s = API \<and>
     (\<exists>c \<in> set (cr_result_columns recipe). rc_source_step c = rs_step_id s))"

definition render_compute_rows :: "capability_recipe \<Rightarrow> 'd outputs \<Rightarrow> 'd crow list" where
  "render_compute_rows recipe outputs =
     (case find (\<lambda>s. rs_kind s = LOCAL \<and> map_of outputs (rs_step_id s) \<noteq> None) (cr_steps recipe) of
        Some s \<Rightarrow> the (map_of outputs (rs_step_id s)) | None \<Rightarrow> [])"

definition render_detail_cell :: "('w, 'c, 'd) kernel_env \<Rightarrow> row \<Rightarrow> result_column \<Rightarrow> 'd cell" where
  "render_detail_cell env r column = (case map_of r (rc_name column) of
     None \<Rightarrow> Cell JNull
   | Some (JStr s) \<Rightarrow> if numeric_type (rc_column_type column) then Dec (decimal_or_zero env (Cell (JStr s))) else Cell (JStr s)
   | Some v \<Rightarrow> Cell v)"

definition render_detail_rows ::
  "('w, 'c, 'd) kernel_env \<Rightarrow> capability_recipe \<Rightarrow> fetches \<Rightarrow> 'd crow list" where
  "render_detail_rows env recipe fs = (case find (\<lambda>s. rs_kind s = API) (cr_steps recipe) of
     None \<Rightarrow> []
   | Some s \<Rightarrow> (case map_of fs (rs_step_id s) of
       None \<Rightarrow> []
     | Some f \<Rightarrow> map (\<lambda>r. fold (\<lambda>column. AList.update (rc_name column) (render_detail_cell env r column))
         (cr_result_columns recipe) []) (rs_rows f)))"

definition resolve_metric ::
  "('w, 'c, 'd) kernel_env \<Rightarrow> capability_recipe \<Rightarrow> result_column \<Rightarrow> kernel_error + metric_definition option" where
  "resolve_metric env recipe column = (case rc_metric column of
     None \<Rightarrow> Inr None
   | Some name \<Rightarrow> (case map_of (cr_metric_versions recipe) name of
       None \<Rightarrow> Inl (KernelMes (InvalidRequestError (u ''result column '' @ rc_name column @ u '' metric has no version'')))
     | Some version \<Rightarrow> map_sum KernelMes Some (registry_resolve (kv_metrics env) name version)))"

definition column_meta_of :: "capability_recipe \<Rightarrow> result_column \<Rightarrow> metric_definition option \<Rightarrow> column_meta" where
  "column_meta_of recipe column metric = \<lparr>cm_name = rc_name column, cm_metric_name = map_option md_name metric,
     cm_metric_version = map_option md_version metric,
     cm_source_operations = source_operations_of recipe (rc_source_step column),
     cm_column_type = rc_column_type column, cm_unit = rc_unit column, cm_title = rc_title column\<rparr>"

definition column_unavailable :: "metric_definition option \<Rightarrow> bool" where
  "column_unavailable metric \<longleftrightarrow> (case metric of Some m \<Rightarrow> \<not> allows_numeric_rendering m | None \<Rightarrow> False)"

text \<open>The columns with their metrics.\<close>

definition resolved_columns ::
  "('w, 'c, 'd) kernel_env \<Rightarrow> capability_recipe \<Rightarrow> result_column list \<Rightarrow>
   kernel_error + (column_meta \<times> metric_definition option) list" where
  "resolved_columns env recipe columns = rmap (\<lambda>column. rbind (resolve_metric env recipe column)
     (\<lambda>metric. Inr (column_meta_of recipe column metric, metric))) columns"

definition unavailable_columns :: "(column_meta \<times> metric_definition option) list \<Rightarrow> pystr set" where
  "unavailable_columns resolved = (cm_name \<circ> fst) ` set (filter (column_unavailable \<circ> snd) resolved)"

definition gated_row :: "pystr set \<Rightarrow> pystr list \<Rightarrow> 'd crow \<Rightarrow> 'd crow" where
  "gated_row unavailable names r = fold (\<lambda>name. AList.update name
     (if name \<in> unavailable then Cell (JStr UNAVAILABLE_VALUE) else cell_of r name)) names []"

text \<open>The first unavailable metric marks the table, unless a fetch already did or it has no rows.\<close>

definition metric_gate ::
  "'d crow list \<Rightarrow> (column_meta \<times> metric_definition option) list \<Rightarrow> pystr option \<times> table_warning list \<Rightarrow>
   pystr option \<times> table_warning list" where
  "metric_gate rendered resolved st = (case st of (reason, warnings) \<Rightarrow>
     if reason \<noteq> None \<or> rendered = [] then st
     else case find (column_unavailable \<circ> snd) resolved of
       Some (_, Some m) \<Rightarrow> (Some (u ''metric_unavailable:'' @ md_name m),
         warnings @ [MetricWarning (md_name m) (md_assumption_status m)])
     | _ \<Rightarrow> st)"

section \<open>Totals\<close>

definition numeric_cells :: "'d crow list \<Rightarrow> pystr \<Rightarrow> 'd cell list" where
  "numeric_cells rows name = filter (\<lambda>v. \<not> absent v) (map (\<lambda>r. cell_of r name) rows)"

definition add_column_total ::
  "('w, 'c, 'd) kernel_env \<Rightarrow> 'd crow list \<Rightarrow> result_column \<Rightarrow> (pystr, 'd) dict \<Rightarrow> kernel_error + (pystr, 'd) dict" where
  "add_column_total env rows column totals =
     (if rc_aggregation column = AGG_NONE \<or> \<not> numeric_type (rc_column_type column) \<or>
         numeric_cells rows (rc_name column) = []
      then Inr totals
      else rbind (rmap (\<lambda>v. opt_result KernelCrash (decimal_of env v)) (numeric_cells rows (rc_name column))) (\<lambda>ds.
        rbind (sum_decimals (kv_decimals env) ds) (\<lambda>total. Inr (AList.update (rc_name column) total totals))))"

definition build_totals ::
  "('w, 'c, 'd) kernel_env \<Rightarrow> capability_recipe \<Rightarrow> 'd crow list \<Rightarrow> fetches \<Rightarrow> kernel_error + (pystr, 'd) dict" where
  "build_totals env recipe rows fs =
     rbind (rfold (add_column_total env rows) (cr_result_columns recipe) []) (\<lambda>totals.
       if totals \<noteq> [] \<or> fs = [] then Inr totals
       else rbind (sum_field env (first_api_rows fs) (u ''je'')) (\<lambda>je.
         if \<not> dc_eq (kv_decimals env) je (dc_zero (kv_decimals env)) \<or> first_api_rows fs \<noteq> []
         then Inr [(u ''je'', je)] else Inr []))"

definition apply_aux_total ::
  "('w, 'c, 'd) kernel_env \<Rightarrow> 'd crow list \<Rightarrow> aux_metric \<Rightarrow> (pystr, 'd) dict \<Rightarrow> kernel_error + (pystr, 'd) dict" where
  "apply_aux_total env rows metric totals = (case am_total_key metric of
     None \<Rightarrow> Inr totals
   | Some key \<Rightarrow>
       if 1 < length rows then Inl (KernelMes (InvalidRequestError (u ''nonadditive total requires one reviewed row'')))
       else let v = (case rows of [] \<Rightarrow> Cell JNull | r # _ \<Rightarrow> cell_of r (am_name metric)) in
         if absent v then Inr (AList.delete key totals)
         else case decimal_of env v of
           None \<Rightarrow> Inl (KernelMes (InvalidRequestError (u ''nonadditive total is invalid'')))
         | Some d \<Rightarrow> if dc_is_finite (kv_decimals env) d then Inr (AList.update key d totals)
             else Inl (KernelMes (InvalidRequestError (u ''nonadditive total is invalid''))))"

definition aux_rows :: "'d outputs \<Rightarrow> aux_output \<Rightarrow> 'd crow list" where
  "aux_rows results aux = (case map_of results (ao_aux_id aux) of Some rows \<Rightarrow> rows | None \<Rightarrow> [])"

definition apply_aux_totals ::
  "('w, 'c, 'd) kernel_env \<Rightarrow> capability_recipe \<Rightarrow> 'd outputs \<Rightarrow> (pystr, 'd) dict \<Rightarrow> kernel_error + (pystr, 'd) dict" where
  "apply_aux_totals env recipe results totals = rfold (\<lambda>aux. rfold (apply_aux_total env (aux_rows results aux))
     (ao_metrics aux)) (cr_aux_outputs recipe) totals"

section \<open>Details\<close>

definition detail_table_of ::
  "('w, 'c, 'd) kernel_env \<Rightarrow> capability_recipe \<Rightarrow> 'd outputs \<Rightarrow> aux_output \<Rightarrow> kernel_error + 'd detail_table" where
  "detail_table_of env recipe results aux = rbind (resolved_columns env recipe (ao_columns aux)) (\<lambda>resolved. Inr
     \<lparr>dt_view_id = ao_aux_id aux,
      dt_title = (case ao_title aux of Some t \<Rightarrow> if t \<noteq> [] then t else ao_aux_id aux | None \<Rightarrow> ao_aux_id aux),
      dt_group_by = (case ao_group_by aux of Some g \<Rightarrow> if g \<noteq> [] then g else u ''plan_code'' | None \<Rightarrow> u ''plan_code''),
      dt_columns = map fst resolved,
      dt_rows = map (gated_row (unavailable_columns resolved) (map (cm_name \<circ> fst) resolved)) (aux_rows results aux),
      dt_status_column = ao_status_column aux, dt_hidden_columns = ao_hidden_columns aux\<rparr>)"

definition build_detail_tables ::
  "('w, 'c, 'd) kernel_env \<Rightarrow> capability_recipe \<Rightarrow> 'd outputs \<Rightarrow> kernel_error + 'd detail_table list" where
  "build_detail_tables env recipe results = rmap (detail_table_of env recipe results)
     (filter (\<lambda>aux. ao_into aux = INTO_DETAILS) (cr_aux_outputs recipe))"

section \<open>The table\<close>

text \<open>Everything after the compute steps and before the auxiliary outputs.\<close>

record 'd table_draft =
  td_columns :: "(column_meta \<times> metric_definition option) list"
  td_rows :: "'d crow list"
  td_totals :: "(pystr, 'd) dict"
  td_reason :: "pystr option"
  td_warnings :: "table_warning list"

definition draft_table ::
  "('w, 'c, 'd) kernel_env \<Rightarrow> capability_recipe \<Rightarrow> fetches \<Rightarrow> 'd outputs \<Rightarrow> kernel_error + 'd table_draft" where
  "draft_table env recipe fs outputs =
     (let rendered = (if is_detail recipe then render_detail_rows env recipe fs else render_compute_rows recipe outputs) in
      rbind (resolved_columns env recipe (cr_result_columns recipe)) (\<lambda>resolved.
        let rows = map (gated_row (unavailable_columns resolved) (map (cm_name \<circ> fst) resolved)) rendered;
            gate = metric_gate rendered resolved (fetch_state_of fs) in
        rbind (build_totals env recipe rows fs) (\<lambda>totals. Inr
          \<lparr>td_columns = resolved, td_rows = rows, td_totals = totals, td_reason = fst gate, td_warnings = snd gate\<rparr>)))"

definition card_columns :: "column_meta list \<Rightarrow> card_column list" where
  "card_columns = map (\<lambda>c. \<lparr>cd_name = cm_name c, cd_title = cm_title c, cd_column_type = cm_column_type c,
     cd_unit = cm_unit c\<rparr>)"

text \<open>The chart of the last charting output with rows, and the figures of the others.\<close>

definition aux_cards ::
  "('w, 'c, 'd) kernel_env \<Rightarrow> 'd card_ops \<Rightarrow> capability_recipe \<Rightarrow> 'd outputs \<Rightarrow> card_chart option \<times> 'd aux_figure list" where
  "aux_cards env cx recipe results = fold (\<lambda>aux (chart, figures).
     let rows = aux_rows results aux in
     if ao_into aux = INTO_CHART
     then (if rows = [] then chart else Some (build_chart_payload env cx (or_else (ao_chart_unit aux) [])
         (map (\<lambda>r. cell_of r (ao_label_column aux)) rows) (map (\<lambda>r. cell_of r (ao_value_column aux)) rows)), figures)
     else (chart, figures @ map (\<lambda>m. (am_title m, am_unit m, case rows of [] \<Rightarrow> Cell JNull
       | r # _ \<Rightarrow> if absent (cell_of r (am_name m)) then Cell JNull else cell_of r (am_name m))) (ao_metrics aux)))
     (cr_aux_outputs recipe) (None, [])"

definition order_detail_of :: "capability_recipe \<Rightarrow> 'd detail_table \<Rightarrow> 'd order_detail" where
  "order_detail_of recipe dt = \<lparr>od_view_id = dt_view_id dt, od_title = dt_title dt, od_group_by = dt_group_by dt,
     od_columns = card_columns (dt_columns dt), od_rows = dt_rows dt, od_status_column = dt_status_column dt,
     od_hidden_columns = dt_hidden_columns dt,
     od_actions = concat (map ao_actions (filter (\<lambda>aux. ao_aux_id aux = dt_view_id dt) (cr_aux_outputs recipe)))\<rparr>"

text \<open>The order groups of a card; any \<open>ValueError\<close> is one refusal.\<close>

definition card_order_groups ::
  "'d table_env \<Rightarrow> ('w, 'c, 'd) kernel_env \<Rightarrow> capability_recipe \<Rightarrow> card_spec \<Rightarrow> 'd crow list \<Rightarrow> column_meta list \<Rightarrow>
   'd detail_table list \<Rightarrow> paging_request \<Rightarrow> kernel_error + order_groups" where
  "card_order_groups te env recipe spec rows columns details paging =
     map_sum (\<lambda>_. KernelMes (InvalidRequestError (u ''order_view_unavailable''))) id
       (rthen (for_each (valid_detail \<circ> order_detail_of recipe) details)
         (build_order_groups env (te_cards te) (cr_capability_id recipe) rows
           (card_columns (filter (\<lambda>c. cm_name c \<notin> set (cs_hidden_columns spec)) columns))
           (map (order_detail_of recipe) details) (pg_order_view paging)
           (min (min (cs_preview_max_groups spec) (pg_group_page_size paging)) 50)
           (case cs_preview_max_rows spec of Some n \<Rightarrow> if n \<noteq> 0 then n else 10 | None \<Rightarrow> 10) (pg_group_page paging)))"

text \<open>\<open>_build_card\<close> and the order groups: no card without a declaration or without rows.\<close>

definition build_result_card ::
  "'d table_env \<Rightarrow> ('w, 'c, 'd) kernel_env \<Rightarrow> capability_recipe \<Rightarrow> paging_request \<Rightarrow> 'd table_draft \<Rightarrow> (pystr, 'd) dict \<Rightarrow>
   'd outputs \<Rightarrow> 'd detail_table list \<Rightarrow> kernel_error + 'd result_card option" where
  "build_result_card te env recipe paging draft totals results details = (case cr_card recipe of
     None \<Rightarrow> Inr None
   | Some spec \<Rightarrow> if td_rows draft = [] then Inr None
       else (case aux_cards env (te_cards te) recipe results of (chart, figures) \<Rightarrow>
         rbind (build_card env (te_cards te) spec (cr_capability_id recipe) (cr_title recipe)
           (card_columns (map fst (td_columns draft))) (td_rows draft) totals (td_reason draft \<noteq> None) (td_reason draft)
           (td_warnings draft) chart figures) (\<lambda>payload.
         rbind (if details = [] then Inr None
             else rbind (card_order_groups te env recipe spec (td_rows draft) (map fst (td_columns draft)) details paging)
               (\<lambda>g. Inr (Some g))) (\<lambda>groups. Inr (Some
           \<lparr>kc_payload = payload, kc_order_groups = groups, kc_context = None, kc_snapshot = None,
            kc_next_group_page = None\<rparr>)))))"

definition finish_table ::
  "'d table_env \<Rightarrow> ('w, 'c, 'd) kernel_env \<Rightarrow> capability_recipe \<Rightarrow> paging_request \<Rightarrow> 'd table_draft \<Rightarrow> 'd outputs \<Rightarrow>
   kernel_error + 'd result_table" where
  "finish_table te env recipe paging draft results =
     rbind (apply_aux_totals env recipe results (td_totals draft)) (\<lambda>totals.
     rbind (build_detail_tables env recipe results) (\<lambda>details.
     rbind (build_result_card te env recipe paging draft totals results details) (\<lambda>card. Inr
       \<lparr>rt_capability_id = cr_capability_id recipe, rt_columns = map fst (td_columns draft), rt_rows = td_rows draft,
        rt_totals = totals, rt_source_operations = all_source_operations recipe, rt_warnings = td_warnings draft,
        rt_incomplete = (td_reason draft \<noteq> None), rt_incomplete_reason = td_reason draft, rt_card = card,
        rt_detail_tables = details,
        rt_hidden_columns = (case cr_card recipe of Some c \<Rightarrow> cs_hidden_columns c | None \<Rightarrow> [])\<rparr>)))"

definition build_table ::
  "'d table_env \<Rightarrow> ('w, 'c, 'd) kernel_env \<Rightarrow> capability_recipe \<Rightarrow> fetches \<Rightarrow> narrowed_filters \<Rightarrow> paging_request \<Rightarrow>
   'c sandbox \<Rightarrow> (kernel_error + 'd result_table) \<times> 'c sandbox" where
  "build_table te env recipe fs f paging s =
     (case run_compute_steps env recipe fs f (cr_steps recipe) [] s of
        (Inl e, s') \<Rightarrow> (Inl e, s')
      | (Inr outputs, s') \<Rightarrow> (case draft_table env recipe fs outputs of
          Inl e \<Rightarrow> (Inl e, s')
        | Inr draft \<Rightarrow> (case run_aux_steps env fs f (cr_aux_outputs recipe) [] s' of
            (results, s'') \<Rightarrow> (rbind results (finish_table te env recipe paging draft), s''))))"

text \<open>\<open>run_sandbox_call\<close>: whatever the computation raises is reported as an invalid request.\<close>

definition bounded :: "(kernel_error + 'a) \<times> 's \<Rightarrow> (kernel_error + 'a) \<times> 's" where
  "bounded r = (case r of
     (Inl e, s) \<Rightarrow> (Inl (KernelMes (InvalidRequestError (u ''bounded sandbox computation failed''))), s) | _ \<Rightarrow> r)"

section \<open>Shadow validation\<close>

definition dict_eq :: "('v \<Rightarrow> 'v \<Rightarrow> bool) \<Rightarrow> (pystr, 'v) dict \<Rightarrow> (pystr, 'v) dict \<Rightarrow> bool" where
  "dict_eq eq a b \<longleftrightarrow> fst ` set a = fst ` set b \<and>
     (\<forall>k \<in> fst ` set a. eq (the (map_of a k)) (the (map_of b k)))"

definition rows_eq :: "'d table_env \<Rightarrow> 'd crow list \<Rightarrow> 'd crow list \<Rightarrow> bool" where
  "rows_eq te = list_all2 (dict_eq (cx_cell_eq (te_cards te)))"

definition detail_eq :: "'d table_env \<Rightarrow> 'd detail_table \<Rightarrow> 'd detail_table \<Rightarrow> bool" where
  "detail_eq te a b \<longleftrightarrow> dt_view_id a = dt_view_id b \<and> dt_title a = dt_title b \<and> dt_group_by a = dt_group_by b \<and>
     dt_columns a = dt_columns b \<and> rows_eq te (dt_rows a) (dt_rows b) \<and> dt_status_column a = dt_status_column b \<and>
     dt_hidden_columns a = dt_hidden_columns b"

text \<open>Cards compare as dictionaries: only the values of the grouping column are not texts.\<close>

definition preview_group_eq :: "'d table_env \<Rightarrow> 'd preview_group \<Rightarrow> 'd preview_group \<Rightarrow> bool" where
  "preview_group_eq te a b \<longleftrightarrow> cx_cell_eq (te_cards te) (pv_group a) (pv_group b) \<and>
     cx_cell_eq (te_cards te) (pv_name a) (pv_name b) \<and> pv_row_count a = pv_row_count b \<and>
     pv_total_rows a = pv_total_rows b \<and> pv_truncated a = pv_truncated b"

definition grouping_eq :: "'d table_env \<Rightarrow> 'd preview_grouping \<Rightarrow> 'd preview_grouping \<Rightarrow> bool" where
  "grouping_eq te a b \<longleftrightarrow> gr_group_by a = gr_group_by b \<and> list_all2 (preview_group_eq te) (gr_groups a) (gr_groups b) \<and>
     gr_groups_total a = gr_groups_total b"

definition preview_eq :: "'d table_env \<Rightarrow> 'd preview_table \<Rightarrow> 'd preview_table \<Rightarrow> bool" where
  "preview_eq te a b \<longleftrightarrow> rel_option (grouping_eq te) (pt_grouping a) (pt_grouping b) \<and>
     a\<lparr>pt_grouping := None\<rparr> = b\<lparr>pt_grouping := None\<rparr>"

definition card_eq :: "'d table_env \<Rightarrow> 'd result_card \<Rightarrow> 'd result_card \<Rightarrow> bool" where
  "card_eq te a b \<longleftrightarrow> rel_option (preview_eq te) (cy_table (kc_payload a)) (cy_table (kc_payload b)) \<and>
     (kc_payload a)\<lparr>cy_table := None\<rparr> = (kc_payload b)\<lparr>cy_table := None\<rparr> \<and> kc_order_groups a = kc_order_groups b \<and>
     kc_context a = kc_context b \<and> kc_snapshot a = kc_snapshot b \<and> kc_next_group_page a = kc_next_group_page b"

definition tables_agree ::
  "'d table_env \<Rightarrow> ('w, 'c, 'd) kernel_env \<Rightarrow> 'd result_table \<Rightarrow> 'd result_table \<Rightarrow> bool" where
  "tables_agree te env a b \<longleftrightarrow> rt_columns a = rt_columns b \<and> rows_eq te (rt_rows a) (rt_rows b) \<and>
     dict_eq (dc_eq (kv_decimals env)) (rt_totals a) (rt_totals b) \<and> rel_option (card_eq te) (rt_card a) (rt_card b) \<and>
     list_all2 (detail_eq te) (rt_detail_tables a) (rt_detail_tables b) \<and> rt_incomplete a = rt_incomplete b \<and>
     rt_incomplete_reason a = rt_incomplete_reason b \<and> rt_warnings a = rt_warnings b"

text \<open>The baseline of a fetch, and the fetch itself when it has none.\<close>

definition shadow_of :: "fetch_result \<Rightarrow> fetch_result" where
  "shadow_of f = (case rs_shadow_result f of Some baseline \<Rightarrow> with_shadow baseline None | None \<Rightarrow> f)"

fun replace_step_tables ::
  "('w, 'c, 'd) kernel_env \<Rightarrow> capability_recipe \<Rightarrow> fetches \<Rightarrow> recipe_step list \<Rightarrow> 'c sandbox \<Rightarrow>
   (kernel_error + unit) \<times> 'c sandbox" where
  "replace_step_tables env recipe fs [] s = (Inr (), s)"
| "replace_step_tables env recipe fs (step # steps) s =
     (case (if rs_kind step = API then map_of fs (rs_step_id step) else None) of
        None \<Rightarrow> replace_step_tables env recipe fs steps s
      | Some f \<Rightarrow> (case replace_table (kv_text env) (kv_engine env) (step_table env step f recipe) s of
          (Inl e, s') \<Rightarrow> (lift_sandbox (Inl e), s')
        | (Inr _, s') \<Rightarrow> replace_step_tables env recipe fs steps s'))"

definition settle :: "(fetch_result \<Rightarrow> 'w \<Rightarrow> 'w) \<Rightarrow> fetches \<Rightarrow> 'w \<Rightarrow> 'w" where
  "settle act fs w = fold (\<lambda>f. if rs_shadow_result f \<noteq> None then act f else id) (map snd fs) w"

definition without_provenance :: "fetch_result \<Rightarrow> fetch_result" where
  "without_provenance f = f\<lparr>rs_cache_source := None, rs_cache_generated_at := None, rs_shadow_result := None\<rparr>"

definition verify_final_shadow ::
  "'d table_env \<Rightarrow> ('w, 'c, 'd) kernel_env \<Rightarrow> capability_recipe \<Rightarrow> fetches \<Rightarrow> narrowed_filters \<Rightarrow> paging_request \<Rightarrow>
   'd result_table \<Rightarrow> ('w, 'c) kernel_state \<Rightarrow>
   (kernel_error + 'd result_table \<times> fetches) \<times> ('w, 'c) kernel_state" where
  "verify_final_shadow te env recipe fs f paging cached st =
     (if \<forall>r \<in> snd ` set fs. rs_shadow_result r = None then (Inr (cached, fs), st)
      else let baseline = map (map_prod id shadow_of) fs in
        (case replace_step_tables env recipe baseline (cr_steps recipe) (kn_sandbox st) of
           (Inl e, s) \<Rightarrow> (Inl e, st\<lparr>kn_sandbox := s\<rparr>)
         | (Inr _, s) \<Rightarrow> (case bounded (build_table te env recipe baseline f paging s) of
             (Inl e, s') \<Rightarrow> (Inl e, st\<lparr>kn_sandbox := s'\<rparr>)
           | (Inr realtime, s') \<Rightarrow>
               if tables_agree te env cached realtime
               then (Inr (cached, fs), st\<lparr>kn_sandbox := s', kn_world := settle (kv_release env) fs (kn_world st)\<rparr>)
               else (Inr (realtime, map (map_prod id without_provenance) baseline),
                 st\<lparr>kn_sandbox := s', kn_world := settle (kv_discard env) fs (kn_world st)\<rparr>))))"

section \<open>Ownership\<close>

record ownership =
  ow_uids :: "pystr list"
  ow_depts :: "pystr list"

definition observed_values :: "('w, 'c, 'd) kernel_env \<Rightarrow> row list \<Rightarrow> pystr \<Rightarrow> pystr set" where
  "observed_values env rows column = set (List.map_filter (\<lambda>r. case map_of r column of
     None \<Rightarrow> None
   | Some v \<Rightarrow> if v = JNull \<or> v = JStr [] then None else Some (json_str (kv_codec env) v)) rows)"

text \<open>The fetches of business operations: those of a step with an operation that is not base data.\<close>

definition business_fetches :: "('w, 'c, 'd) kernel_env \<Rightarrow> capability_recipe \<Rightarrow> fetches \<Rightarrow> fetch_result list" where
  "business_fetches env recipe fs = map snd (filter (\<lambda>(step_id, f).
     case map_of (rev (map (\<lambda>s. (rs_step_id s, rs_operation_id s))
        (filter (\<lambda>s. rs_kind s = API \<and> rs_operation_id s \<noteq> None) (cr_steps recipe)))) step_id of
       Some (Some op) \<Rightarrow> op \<notin> kv_base_data_operations env | _ \<Rightarrow> False) fs)"

definition observe_ownership ::
  "('w, 'c, 'd) kernel_env \<Rightarrow> capability_recipe \<Rightarrow> fetches \<Rightarrow> ownership" where
  "observe_ownership env recipe fs =
     (let rows = concat (map rs_rows (business_fetches env recipe fs)) in
      \<lparr>ow_uids = sorted_list_of_set (observed_values env rows (u ''uid'')),
       ow_depts = sorted_list_of_set (observed_values env rows (u ''dept''))\<rparr>)"

section \<open>The run\<close>

text \<open>A detail view as a table of its own, for exports; the two columns in front say which plan a row
  belongs to.  The labels are written as code points.\<close>

record 'd render_table =
  nt_capability_id :: pystr
  nt_title :: pystr
  nt_columns :: "column_meta list"
  nt_rows :: "'d crow list"
  nt_source_operations :: "pystr list"
  nt_warnings :: "table_warning list"
  nt_incomplete :: bool
  nt_incomplete_reason :: "pystr option"
  nt_hidden_columns :: "pystr list"

definition PLAN_TITLE :: pystr where "PLAN_TITLE = [35745, 21010, 21495]"
definition LINK_TITLE :: pystr where "LINK_TITLE = [20851, 32852, 29366, 24577]"
definition LINKED :: pystr where "LINKED = [24050, 20851, 32852]"
definition UNLINKED :: pystr where "UNLINKED = [26410, 20851, 32852]"

definition LINK_COLUMNS :: "pystr set" where "LINK_COLUMNS = {u ''order_code'', u ''plan_link_state''}"

definition export_status :: "('w, 'c, 'd) kernel_env \<Rightarrow> 'd cell \<Rightarrow> order_status" where
  "export_status env v = (let text = value_text env v in
     if text = FINISHED_LABEL then Finished else if text = UNFINISHED_LABEL then Unfinished else UnknownStatus)"

definition exported_rows ::
  "('w, 'c, 'd) kernel_env \<Rightarrow> 'd detail_table \<Rightarrow> order_view_selection option \<Rightarrow> 'd crow list" where
  "exported_rows env dt selection = (case selection of
     None \<Rightarrow> dt_rows dt
   | Some sel \<Rightarrow> if ov_view_id sel = dt_view_id dt \<and> ov_status sel \<noteq> AnyStatus
       then filter (\<lambda>r. export_status env (cell_of r (or_else (dt_status_column dt) [])) = ov_status sel) (dt_rows dt)
       else dt_rows dt)"

definition unlinked_row :: "'d detail_table \<Rightarrow> 'd crow \<Rightarrow> bool" where
  "unlinked_row dt r \<longleftrightarrow> cell_of r (u ''plan_missing'') = Cell (JBool True) \<or>
     (case cell_of r (dt_group_by dt) of Cell JNull \<Rightarrow> True | Cell (JStr s) \<Rightarrow> py_strip s = [] | _ \<Rightarrow> False)"

definition export_row :: "('w, 'c, 'd) kernel_env \<Rightarrow> 'd detail_table \<Rightarrow> column_meta list \<Rightarrow> 'd crow \<Rightarrow> 'd crow" where
  "export_row env dt export_columns r =
     [(u ''order_code'', if unlinked_row dt r then Cell (JStr UNLINKED_LABEL) else cell_of r (dt_group_by dt)),
      (u ''plan_link_state'', Cell (JStr (if unlinked_row dt r then UNLINKED else LINKED)))] @
     fold (\<lambda>c. AList.update (cm_name c) (to_value env c (cell_of r (cm_name c)))) export_columns []"

definition link_column :: "'d result_table \<Rightarrow> pystr \<Rightarrow> pystr \<Rightarrow> column_meta" where
  "link_column t name title = \<lparr>cm_name = name, cm_metric_name = None, cm_metric_version = None,
     cm_source_operations = rt_source_operations t, cm_column_type = None, cm_unit = None, cm_title = Some title\<rparr>"

definition detail_render_table ::
  "('w, 'c, 'd) kernel_env \<Rightarrow> 'd result_table \<Rightarrow> order_view_selection option \<Rightarrow> 'd detail_table \<Rightarrow> 'd render_table" where
  "detail_render_table env t selection dt =
     (let export_columns = filter (\<lambda>c. cm_name c \<notin> LINK_COLUMNS) (dt_columns dt) in
      \<lparr>nt_capability_id = rt_capability_id t, nt_title = dt_title dt,
       nt_columns = [link_column t (u ''order_code'') PLAN_TITLE, link_column t (u ''plan_link_state'') LINK_TITLE] @ export_columns,
       nt_rows = map (export_row env dt export_columns) (exported_rows env dt selection),
       nt_source_operations = rt_source_operations t, nt_warnings = rt_warnings t, nt_incomplete = rt_incomplete t,
       nt_incomplete_reason = rt_incomplete_reason t, nt_hidden_columns = dt_hidden_columns dt\<rparr>)"

record 'd run_result =
  rr_capability_id :: pystr
  rr_column_names :: "pystr list"
  rr_rows :: "'d cell list list"
  rr_column_types :: "(pystr, column_type) dict"
  rr_column_units :: "(pystr, pystr) dict"
  rr_column_titles :: "(pystr, pystr) dict"
  rr_totals :: "(pystr, 'd) dict"
  rr_source_operations :: "pystr list"
  rr_incomplete :: bool
  rr_incomplete_reason :: "pystr option"
  rr_api_call_count :: int
  rr_warnings :: "table_warning list"
  rr_observed :: ownership
  rr_card :: "'d result_card option"
  rr_detail_tables :: "'d render_table list"
  rr_hidden_columns :: "pystr list"

definition order_view_invalid :: "kernel_error + unit" where
  "order_view_invalid = Inl (KernelMes (InvalidRequestError (u ''order_view_invalid'')))"

definition validate_order_view :: "capability_recipe \<Rightarrow> order_view_selection option \<Rightarrow> kernel_error + unit" where
  "validate_order_view recipe selection = (case selection of
     None \<Rightarrow> Inr ()
   | Some sel \<Rightarrow>
       if 1 < ov_page sel \<and> ov_snapshot_id sel = None then order_view_invalid
       else (case find (\<lambda>aux. ao_into aux = INTO_DETAILS \<and> ao_aux_id aux = ov_view_id sel) (cr_aux_outputs recipe) of
           None \<Rightarrow> order_view_invalid
         | Some view \<Rightarrow> if ov_status sel \<noteq> AnyStatus \<and> ao_status_column view = None then order_view_invalid else Inr ()))"

definition snapshot_id_valid :: "pystr \<Rightarrow> bool" where
  "snapshot_id_valid s \<longleftrightarrow> length s = 64 \<and> set s \<subseteq> set (u ''0123456789abcdef'')"

definition validate_group_page :: "capability_recipe \<Rightarrow> paging_request \<Rightarrow> kernel_error + unit" where
  "validate_group_page recipe p =
     (if \<not> (1 \<le> pg_group_page p \<and> pg_group_page p \<le> 100000) then order_view_invalid
      else if \<not> (1 \<le> pg_group_page_size p \<and> pg_group_page_size p \<le> 50) then order_view_invalid
      else if pg_order_view p \<noteq> None \<and> pg_group_page p \<noteq> 1 then order_view_invalid
      else if 1 < pg_group_page p \<and> pg_data_snapshot_id p = None then order_view_invalid
      else if (case pg_data_snapshot_id p of Some s \<Rightarrow> \<not> snapshot_id_valid s | None \<Rightarrow> False) then order_view_invalid
      else if (pg_group_page p \<noteq> 1 \<or> pg_group_page_size p \<noteq> 50 \<or> pg_data_snapshot_id p \<noteq> None) \<and>
         \<not> (\<exists>aux \<in> set (cr_aux_outputs recipe). ao_into aux = INTO_DETAILS) then order_view_invalid
      else Inr ())"

definition METADATA_TABLE :: pystr where "METADATA_TABLE = u ''_meta''"
definition DEPT_SCOPE_TABLE :: pystr where "DEPT_SCOPE_TABLE = u ''_dept_scope''"

definition allowed_tables :: "capability_recipe \<Rightarrow> pystr list" where
  "allowed_tables recipe = map rs_step_id (filter (\<lambda>s. rs_kind s = API) (cr_steps recipe)) @
     [METADATA_TABLE, DEPT_SCOPE_TABLE]"

definition natural_days :: "(instant \<Rightarrow> int) \<Rightarrow> instant \<times> instant \<Rightarrow> int" where
  "natural_days zone tr = max (local_day zone (snd tr) - local_day zone (fst tr)) 1"

text \<open>The sole member of a set, or the empty string.\<close>

definition single_value :: "pystr set option \<Rightarrow> pystr" where
  "single_value values = (case values of Some vs \<Rightarrow> if card vs = 1 then the_elem vs else [] | None \<Rightarrow> [])"

definition group_kind_text :: "order_group_kind \<Rightarrow> pystr" where
  "group_kind_text k = (case k of PLAN_GROUP \<Rightarrow> u ''plan'' | UNLINKED_GROUP \<Rightarrow> u ''unlinked'')"

definition meta_row ::
  "kernel_settings \<Rightarrow> (instant \<Rightarrow> int) \<Rightarrow> pystr \<Rightarrow> run_request \<Rightarrow> row" where
  "meta_row settings zone today q = (let f = rq_filters q in
     [(u ''days'', JInt (natural_days zone (rq_time_range q))), (u ''today'', JStr today),
      (u ''self_uid'', JStr (case rq_caller_employee_id q of Some e \<Rightarrow> e | None \<Rightarrow> single_value (nf_employee_ids f))),
      (u ''self_dept'', JStr (single_value (case rq_caller_dept_ids q of Some ds \<Rightarrow> Some ds | None \<Rightarrow> nf_dept_ids f))),
      (u ''whole_tenant'', JBool (rq_role q = Some OWNER)),
      (u ''filter_employee'', JBool (nf_employee_ids f \<noteq> None)),
      (u ''filter_dept'', JBool (if rq_role q = Some OWNER then nf_requested_dept_ids f \<noteq> None else nf_dept_ids f \<noteq> None)),
      (u ''warning_ratio_pct'', JInt (ks_delivery_warning_ratio_percent settings)),
      (u ''warning_fallback_days'', JInt (ks_delivery_warning_fallback_days settings)),
      (u ''order_view_kind'', JStr (case pg_order_view (rq_paging q) of None \<Rightarrow> [] | Some sel \<Rightarrow> group_kind_text (ov_group_kind sel))),
      (u ''order_view_plan'', JStr (case pg_order_view (rq_paging q) of None \<Rightarrow> [] | Some sel \<Rightarrow> or_else (ov_plan_code sel) []))])"

definition META_COLUMNS :: "(pystr \<times> pystr) list" where
  "META_COLUMNS = map (map_prod u u) [(''days'', ''INTEGER''), (''today'', ''VARCHAR''), (''self_uid'', ''VARCHAR''),
     (''self_dept'', ''VARCHAR''), (''whole_tenant'', ''BOOLEAN''), (''filter_employee'', ''BOOLEAN''),
     (''filter_dept'', ''BOOLEAN''), (''warning_ratio_pct'', ''INTEGER''), (''warning_fallback_days'', ''INTEGER''),
     (''order_view_kind'', ''VARCHAR''), (''order_view_plan'', ''VARCHAR'')]"

definition register_meta ::
  "('w, 'c, 'd) kernel_env \<Rightarrow> pystr \<Rightarrow> run_request \<Rightarrow> 'c sandbox \<Rightarrow>
   (kernel_error + unit) \<times> 'c sandbox" where
  "register_meta env today q s =
     (case register_table (kv_text env) (kv_engine env) \<lparr>sbt_name = METADATA_TABLE,
         sbt_rows = [meta_row (kv_settings env) (kv_zone env) today q], sbt_columns = META_COLUMNS\<rparr> s of
        (Inl e, s') \<Rightarrow> (lift_sandbox (Inl e), s')
      | (Inr _, s') \<Rightarrow> map_prod lift_sandbox id (register_table (kv_text env) (kv_engine env)
          \<lparr>sbt_name = DEPT_SCOPE_TABLE, sbt_rows = map (\<lambda>d. [(u ''dept_id'', JStr d)])
             (case nf_dept_ids (rq_filters q) of Some ds \<Rightarrow> sorted_list_of_set ds | None \<Rightarrow> []),
           sbt_columns = [(u ''dept_id'', u ''VARCHAR'')]\<rparr> s'))"

text \<open>\<open>{c.name: f(c) for c in columns if f(c) is not None}\<close>.\<close>

definition column_dict :: "(column_meta \<Rightarrow> 'v option) \<Rightarrow> column_meta list \<Rightarrow> (pystr, 'v) dict" where
  "column_dict f columns = fold (\<lambda>c. case f c of Some v \<Rightarrow> AList.update (cm_name c) v | None \<Rightarrow> id) columns []"

definition to_run_result ::
  "('w, 'c, 'd) kernel_env \<Rightarrow> 'd result_table \<Rightarrow> int \<Rightarrow> ownership \<Rightarrow> order_view_selection option \<Rightarrow> 'd run_result" where
  "to_run_result env t calls observed selection = \<lparr>rr_capability_id = rt_capability_id t,
     rr_column_names = map cm_name (rt_columns t),
     rr_rows = map (\<lambda>r. map (\<lambda>c. to_value env c (cell_of r (cm_name c))) (rt_columns t)) (rt_rows t),
     rr_column_types = column_dict cm_column_type (rt_columns t), rr_column_units = column_dict cm_unit (rt_columns t),
     rr_column_titles = column_dict cm_title (rt_columns t),
     rr_totals = rt_totals t, rr_source_operations = rt_source_operations t, rr_incomplete = rt_incomplete t,
     rr_incomplete_reason = rt_incomplete_reason t, rr_api_call_count = calls, rr_warnings = rt_warnings t,
     rr_observed = observed, rr_card = rt_card t,
     rr_detail_tables = map (detail_render_table env t selection) (rt_detail_tables t),
     rr_hidden_columns = rt_hidden_columns t\<rparr>"

text \<open>The context of the card.  A request that names the identity of earlier data is refused when the
  data has changed.\<close>

definition sorted_codes :: "pystr set option \<Rightarrow> pystr list" where
  "sorted_codes s = (case s of Some xs \<Rightarrow> sorted_list_of_set xs | None \<Rightarrow> [])"

definition drill_context_of :: "run_request \<Rightarrow> drill_context" where
  "drill_context_of q = (let f = rq_filters q in
     \<lparr>dx_time_range = rq_time_range q, dx_order_codes = sorted_codes (nf_order_codes f),
      dx_style_codes = sorted_codes (nf_style_codes f), dx_plan_codes = sorted_codes (nf_plan_codes f),
      dx_material_ids = sorted_codes (nf_material_ids f), dx_dept_ids = sorted_codes (nf_requested_dept_ids f),
      dx_employee_uid = (case nf_employee_ids f of Some es \<Rightarrow> if card es = 1 then Some (the_elem es) else None | None \<Rightarrow> None)\<rparr>)"

definition view_refused :: "pystr \<Rightarrow> kernel_error + 'a" where
  "view_refused m = Inl (KernelMes (InvalidRequestError m))"

definition attach_order_view_context ::
  "'d table_env \<Rightarrow> capability_recipe \<Rightarrow> run_request \<Rightarrow> fetches \<Rightarrow> 'd run_result \<Rightarrow> kernel_error + 'd run_result" where
  "attach_order_view_context te recipe q fs result =
     (let snapshot = te_snapshot_id te recipe q fs; selection = pg_order_view (rq_paging q) in
      if (case selection of Some sel \<Rightarrow> ov_snapshot_id sel \<noteq> None \<and> ov_snapshot_id sel \<noteq> Some snapshot | None \<Rightarrow> False)
      then view_refused (u ''order_view_snapshot_changed'')
      else if pg_data_snapshot_id (rq_paging q) \<noteq> None \<and> pg_data_snapshot_id (rq_paging q) \<noteq> Some snapshot
      then view_refused (u ''order_view_snapshot_changed'')
      else (case rr_card result of
          None \<Rightarrow> if selection \<noteq> None then view_refused (u ''order_view_unavailable'') else Inr result
        | Some c \<Rightarrow> let contextual = c\<lparr>kc_context := Some (drill_context_of q)\<rparr> in
            (case kc_order_groups c of
               None \<Rightarrow> if selection \<noteq> None then view_refused (u ''order_view_unavailable'')
                 else Inr (result\<lparr>rr_card := Some contextual\<rparr>)
             | Some g \<Rightarrow> if selection \<noteq> None \<and> os_groups g = [] then view_refused (u ''order_view_unavailable'')
                 else Inr (result\<lparr>rr_card := Some (contextual\<lparr>kc_snapshot := Some snapshot,
                   kc_next_group_page := Some (os_page g + 1)\<rparr>)\<rparr>))))"

text \<open>Everything inside the sandbox's block: the fetches, the table and its validation.\<close>

definition run_in_sandbox ::
  "'d table_env \<Rightarrow> ('w, 'c, 'd) kernel_env \<Rightarrow> capability_recipe \<Rightarrow> run_request \<Rightarrow> ('w, 'c) kernel_state \<Rightarrow>
   (kernel_error + 'd result_table \<times> fetches \<times> int) \<times> ('w, 'c) kernel_state" where
  "run_in_sandbox te env recipe q st =
     (case fetch_api_steps env recipe (rq_filters q) (rq_time_range q) (rq_role q) (cr_steps recipe) ([], 0) st of
        (Inl e, st') \<Rightarrow> (Inl e, st')
      | (Inr (fs, calls), st') \<Rightarrow>
          (case bounded (build_table te env recipe fs (rq_filters q) (rq_paging q) (kn_sandbox st')) of
             (Inl e, s) \<Rightarrow> (Inl e, st'\<lparr>kn_sandbox := s\<rparr>)
           | (Inr t, s) \<Rightarrow>
               (case verify_final_shadow te env recipe fs (rq_filters q) (rq_paging q) t (st'\<lparr>kn_sandbox := s\<rparr>) of
                  (outcome, st'') \<Rightarrow> (rbind outcome (\<lambda>(final, fs'). Inr (final, fs', calls)), st''))))"

definition kernel_run ::
  "'d table_env \<Rightarrow> ('w, 'c, 'd) kernel_env \<Rightarrow> recipe_registry \<Rightarrow> pystr \<Rightarrow> pystr \<Rightarrow> run_request \<Rightarrow> 'w \<Rightarrow>
   (kernel_error + 'd run_result) \<times> 'w" where
  "kernel_run te env registry capability today q w =
     (case rbind (map_sum KernelMes id (registry_get registry capability)) (\<lambda>recipe.
         rthen (validate_order_view recipe (pg_order_view (rq_paging q)))
         (rthen (validate_group_page recipe (rq_paging q))
         (rbind (lift_sandbox (new_sandbox (kv_text env) (allowed_tables recipe))) (\<lambda>s. Inr (recipe, s))))) of
        Inl e \<Rightarrow> (Inl e, w)
      | Inr (recipe, s) \<Rightarrow> (case register_meta env today q s of
          (Inl e, _) \<Rightarrow> (Inl e, w)
        | (Inr _, s') \<Rightarrow> (case run_in_sandbox te env recipe q \<lparr>kn_sandbox = s', kn_world = w\<rparr> of
            (outcome, st) \<Rightarrow> (rbind outcome (\<lambda>(t, fs, calls). attach_order_view_context te recipe q fs
                (to_run_result env t calls (observe_ownership env recipe fs) (pg_order_view (rq_paging q)))),
              kn_world st))))"

section \<open>Sources, exactly\<close>

text \<open>The walk over the dependencies reaches every step it should: the number of dependencies is fuel
  enough, because a shortest path uses each of them at most once.\<close>

definition depends :: "capability_recipe \<Rightarrow> (recipe_step \<times> recipe_step) set" where
  "depends recipe = {(a, b). a \<in> set (cr_steps recipe) \<and> (\<exists>d \<in> set (rs_depends_on a). step_named recipe d = Some b)}"

lemma step_named_member: "step_named recipe d = Some s \<Longrightarrow> s \<in> set (cr_steps recipe)"
  unfolding step_named_def by (metis find_Some_iff nth_mem set_rev)

lemma upstream_api_step:
  assumes "s \<in> set (cr_steps recipe)"
  shows "op \<in> upstream_api recipe (Suc n) s \<longleftrightarrow>
    op \<in> api_operation recipe (rs_step_id s) \<or> (\<exists>t. (s, t) \<in> depends recipe \<and> op \<in> upstream_api recipe n t)"
  using assms by (fastforce simp: depends_def split: option.splits)

lemma upstream_api_relpow:
  assumes "s \<in> set (cr_steps recipe)"
  shows "op \<in> upstream_api recipe n s \<longleftrightarrow>
    (\<exists>k \<le> n. \<exists>t. (s, t) \<in> depends recipe ^^ k \<and> op \<in> api_operation recipe (rs_step_id t))"
  using assms
proof (induction n arbitrary: s)
  case (Suc n)
  let ?found = "\<lambda>t. op \<in> api_operation recipe (rs_step_id t)"
  have member: "t \<in> set (cr_steps recipe)" if "(s, t) \<in> depends recipe" for t
    using that step_named_member by (auto simp: depends_def)
  have split: "(\<exists>k \<le> Suc n. Q k) \<longleftrightarrow> Q 0 \<or> (\<exists>k \<le> n. Q (Suc k))" for Q :: "nat \<Rightarrow> bool"
    by (metis Suc_le_mono le0 old.nat.exhaust)
  have "(\<exists>t. (s, t) \<in> depends recipe ^^ Suc k \<and> ?found t) \<longleftrightarrow>
      (\<exists>v. (s, v) \<in> depends recipe \<and> (\<exists>t. (v, t) \<in> depends recipe ^^ k \<and> ?found t))" for k
    by (metis relpow_Suc_D2 relpow_Suc_I2)
  then show ?case
    unfolding upstream_api_step [OF Suc.prems] split using Suc.IH [OF member]
    by (simp del: relpow.simps(2)) blast
qed simp

lemma depends_as_list: "depends recipe = set (concat (map (\<lambda>s. List.map_filter (\<lambda>d. map_option (Pair s) (step_named recipe d))
    (rs_depends_on s)) (cr_steps recipe)))"
  by (force simp: depends_def List.map_filter_def)

lemma length_map_filter_le: "length (List.map_filter f xs) \<le> length xs"
  by (simp add: List.map_filter_def)

lemma depends_card: "card (depends recipe) \<le> dependency_count recipe"
proof -
  have "length (concat (map (\<lambda>s. List.map_filter (\<lambda>d. map_option (Pair s) (step_named recipe d)) (rs_depends_on s)) xs))
      \<le> sum_list (map (\<lambda>s. length (rs_depends_on s)) xs)" for xs
    by (induction xs) (auto simp del: length_concat intro!: add_mono length_map_filter_le)
  then show ?thesis
    unfolding depends_as_list dependency_count_def using card_length order_trans by blast
qed

lemma upstream_api_complete:
  assumes "s \<in> set (cr_steps recipe)"
  shows "upstream_api recipe (dependency_count recipe) s =
    (\<Union>t \<in> (depends recipe)\<^sup>* `` {s}. api_operation recipe (rs_step_id t))"
proof -
  have "finite (depends recipe)" by (simp add: depends_as_list)
  then have "(depends recipe)\<^sup>* = (\<Union>n \<in> {n. n \<le> card (depends recipe)}. depends recipe ^^ n)"
    by (rule rtrancl_finite_eq_relpow)
  then have within: "(\<exists>k \<le> card (depends recipe). (s, t) \<in> depends recipe ^^ k) \<longleftrightarrow> (s, t) \<in> (depends recipe)\<^sup>*" for t
    by simp
  have "(\<exists>k \<le> dependency_count recipe. (s, t) \<in> depends recipe ^^ k) \<longleftrightarrow> (s, t) \<in> (depends recipe)\<^sup>*" for t
    using depends_card [of recipe] within [of t] by (meson order_trans relpow_imp_rtrancl)
  then have "op \<in> upstream_api recipe (dependency_count recipe) s \<longleftrightarrow>
      (\<exists>t. (s, t) \<in> (depends recipe)\<^sup>* \<and> op \<in> api_operation recipe (rs_step_id t))" for op
    unfolding upstream_api_relpow [OF assms] by metis
  then show ?thesis by (auto simp del: upstream_api.simps)
qed

end
