(* ===== verification/KernelResults.thy ===== *)
theory KernelResults
  imports KernelTable
begin

text \<open>
  What the execution kernel promises of its results: the rows and the card hide a metric that is not
  confirmed (and where its number shows all the same), a table says when it is incomplete, an upstream failure degrades a step and never the run,
  and the shadow validation serves the realtime answer.  The definitions are those of the theories
  \<open>Kernel\<close> and \<open>KernelTable\<close>.
\<close>

section \<open>Taking a table apart\<close>

lemma build_table_Inr:
  assumes "build_table te env recipe fs f paging s = (Inr t, s')"
  obtains outputs draft results where "draft_table env recipe fs outputs = Inr draft"
    and "finish_table te env recipe paging draft results = Inr t"
  using assms by (auto simp: build_table_def rbind_Inr split: sum.splits prod.splits)

lemma finish_table_Inr:
  assumes "finish_table te env recipe paging draft results = Inr t"
  shows "rt_columns t = map fst (td_columns draft)" "rt_rows t = td_rows draft"
    "rt_warnings t = td_warnings draft" "rt_incomplete_reason t = td_reason draft"
    "rt_incomplete t \<longleftrightarrow> td_reason draft \<noteq> None" "rt_source_operations t = all_source_operations recipe"
    "apply_aux_totals env recipe results (td_totals draft) = Inr (rt_totals t)"
    "build_detail_tables env recipe results = Inr (rt_detail_tables t)"
    "build_result_card te env recipe paging draft (rt_totals t) results (rt_detail_tables t) = Inr (rt_card t)"
  using assms by (auto simp: finish_table_def rbind_Inr)

lemma draft_table_Inr:
  assumes "draft_table env recipe fs outputs = Inr draft"
  obtains rendered where "resolved_columns env recipe (cr_result_columns recipe) = Inr (td_columns draft)"
    and "td_rows draft = map (gated_row (unavailable_columns (td_columns draft)) (map (cm_name \<circ> fst) (td_columns draft))) rendered"
    and "(td_reason draft, td_warnings draft) = metric_gate rendered (td_columns draft) (fetch_state_of fs)"
    and "build_totals env recipe (td_rows draft) fs = Inr (td_totals draft)"
  using assms by (auto simp: draft_table_def rbind_Inr Let_def)

lemma resolved_columnsD:
  assumes "resolved_columns env recipe columns = Inr resolved"
  shows "list_all2 (\<lambda>c r. resolve_metric env recipe c = Inr (snd r) \<and> fst r = column_meta_of recipe c (snd r)) columns resolved"
  using assms by (auto simp: resolved_columns_def rmap_Inr rbind_Inr elim!: list_all2_mono)

lemma column_name_of [simp]: "cm_name (column_meta_of recipe c m) = rc_name c"
  by (simp add: column_meta_of_def)

text \<open>A column whose metric may not be shown as a number.\<close>

definition hidden_metric :: "('w, 'c, 'd) kernel_env \<Rightarrow> capability_recipe \<Rightarrow> result_column \<Rightarrow> bool" where
  "hidden_metric env recipe c \<longleftrightarrow>
     (case resolve_metric env recipe c of Inr m \<Rightarrow> column_unavailable m | Inl _ \<Rightarrow> False)"

lemma unavailable_columns_resolved:
  assumes "resolved_columns env recipe columns = Inr resolved"
  shows "unavailable_columns resolved = rc_name ` {c \<in> set columns. hidden_metric env recipe c}"
    and "map (cm_name \<circ> fst) resolved = map rc_name columns"
  using resolved_columnsD [OF assms]
  by (induction columns resolved rule: list_all2_induct) (auto simp: unavailable_columns_def hidden_metric_def)

section \<open>Rows\<close>

lemma map_of_updates:
  "map_of (fold (\<lambda>k. AList.update k (g k)) ks d) k = (if k \<in> set ks then Some (g k) else map_of d k)"
  by (induction ks arbitrary: d) (auto simp: update_conv')

lemma gated_row_value:
  "map_of (gated_row bad names r) k =
     (if k \<in> set names then Some (if k \<in> bad then Cell (JStr UNAVAILABLE_VALUE) else cell_of r k) else None)"
  by (simp add: gated_row_def map_of_updates)

definition shown_unavailable :: "'d crow list \<Rightarrow> pystr \<Rightarrow> bool" where
  "shown_unavailable rows name \<longleftrightarrow> (\<forall>r \<in> set rows. map_of r name = Some (Cell (JStr UNAVAILABLE_VALUE)))"

lemma gated_rows_shown:
  assumes "resolved_columns env recipe columns = Inr resolved" and "c \<in> set columns" "hidden_metric env recipe c"
  shows "shown_unavailable (map (gated_row (unavailable_columns resolved) (map (cm_name \<circ> fst) resolved)) rows) (rc_name c)"
  unfolding unavailable_columns_resolved [OF assms(1)] shown_unavailable_def using assms(2,3)
  by (auto simp: gated_row_value)

section \<open>Totals\<close>

lemma shown_unavailable_no_cells: "shown_unavailable rows name \<Longrightarrow> numeric_cells rows name = []"
  by (auto simp: numeric_cells_def shown_unavailable_def cell_of_def absent_def filter_empty_conv)

lemma add_column_total_keys:
  assumes "add_column_total env rows column totals = Inr totals'"
  shows "fst ` set totals' \<subseteq> fst ` set totals \<union> {rc_name column} \<and>
    (numeric_cells rows (rc_name column) = [] \<longrightarrow> totals' = totals)"
  using assms set_update_subset by (fastforce simp: add_column_total_def rbind_Inr split: if_splits)

lemma column_totals_skip:
  assumes "numeric_cells rows name = []"
  shows "rfold (add_column_total env rows) columns totals = Inr totals' \<Longrightarrow> name \<notin> fst ` set totals \<Longrightarrow>
    name \<notin> fst ` set totals'"
proof (induction columns arbitrary: totals)
  case (Cons c columns)
  then obtain t where t: "add_column_total env rows c totals = Inr t" and rest: "rfold (add_column_total env rows) columns t = Inr totals'"
    by (auto simp: rbind_Inr)
  have "name \<notin> fst ` set t" using add_column_total_keys [OF t] Cons.prems(2) assms by (cases "rc_name c = name") auto
  then show ?case by (rule Cons.IH [OF rest])
qed simp

lemma build_totals_skip:
  assumes "build_totals env recipe rows fs = Inr totals" and "numeric_cells rows name = []"
  shows "name \<in> fst ` set totals \<Longrightarrow> name = u ''je''"
  using assms column_totals_skip [OF assms(2), of env "cr_result_columns recipe" "[]"]
  by (auto simp: build_totals_def rbind_Inr split: if_splits)

lemma aux_total_keys:
  assumes "apply_aux_total env rows m totals = Inr totals'"
  shows "fst ` set totals' \<subseteq> fst ` set totals \<union> set_option (am_total_key m)"
proof -
  have "totals' = totals \<or> (\<exists>k v. am_total_key m = Some k \<and> totals' \<in> {AList.delete k totals, AList.update k v totals})"
    using assms by (auto simp: apply_aux_total_def Let_def split: option.splits if_splits)
  then show ?thesis
    by (elim disjE exE conjE; simp add: AList.dom_update keys_delete_image subset_insertI2 Diff_subset)
      (elim disjE; simp add: AList.dom_update keys_delete_image; blast)
qed

lemma aux_totals_keys:
  "rfold (apply_aux_total env rows) ms totals = Inr totals' \<Longrightarrow>
    fst ` set totals' \<subseteq> fst ` set totals \<union> (\<Union>m \<in> set ms. set_option (am_total_key m))"
proof (induction ms arbitrary: totals)
  case (Cons m ms)
  then obtain t where t: "apply_aux_total env rows m totals = Inr t" and rest: "rfold (apply_aux_total env rows) ms t = Inr totals'"
    by (auto simp: rbind_Inr)
  then show ?case
    using Cons.IH [OF rest] aux_total_keys [OF t] by auto
qed simp

definition aux_total_names :: "capability_recipe \<Rightarrow> pystr set" where
  "aux_total_names recipe = (\<Union>aux \<in> set (cr_aux_outputs recipe). \<Union>m \<in> set (ao_metrics aux). set_option (am_total_key m))"

lemma all_aux_totals_keys:
  "rfold (\<lambda>aux. rfold (apply_aux_total env (rows aux)) (ao_metrics aux)) auxs totals = Inr totals' \<Longrightarrow>
    fst ` set totals' \<subseteq> fst ` set totals \<union> (\<Union>aux \<in> set auxs. \<Union>m \<in> set (ao_metrics aux). set_option (am_total_key m))"
proof (induction auxs arbitrary: totals)
  case (Cons a auxs)
  then obtain t where t: "rfold (apply_aux_total env (rows a)) (ao_metrics a) totals = Inr t"
    and rest: "rfold (\<lambda>aux. rfold (apply_aux_total env (rows aux)) (ao_metrics aux)) auxs t = Inr totals'"
    by (auto simp: rbind_Inr)
  show ?case using Cons.IH [OF rest] aux_totals_keys [OF t] by auto
qed simp

section \<open>Unconfirmed metrics\<close>

lemma metric_gate_found:
  assumes "resolved_columns env recipe columns = Inr resolved"
  shows "find (column_unavailable \<circ> snd) resolved = None \<longleftrightarrow> (\<forall>c \<in> set columns. \<not> hidden_metric env recipe c)"
    and "find (column_unavailable \<circ> snd) resolved = Some r \<Longrightarrow> snd r \<noteq> None"
proof -
  show "find (column_unavailable \<circ> snd) resolved = None \<longleftrightarrow> (\<forall>c \<in> set columns. \<not> hidden_metric env recipe c)"
    using resolved_columnsD [OF assms]
    by (induction columns resolved rule: list_all2_induct) (auto simp: hidden_metric_def)
  show "snd r \<noteq> None" if "find (column_unavailable \<circ> snd) resolved = Some r"
    using that by (auto simp: find_Some_iff column_unavailable_def split: option.splits)
qed

lemma metric_gate_None:
  assumes "resolved_columns env recipe columns = Inr resolved"
  shows "fst (metric_gate rendered resolved st) = None \<longleftrightarrow>
    fst st = None \<and> (rendered = [] \<or> (\<forall>c \<in> set columns. \<not> hidden_metric env recipe c))"
  using metric_gate_found [OF assms]
  by (cases "find (column_unavailable \<circ> snd) resolved") (auto simp: metric_gate_def split: prod.splits option.splits)

lemma metric_gate_reason:
  assumes "resolved_columns env recipe columns = Inr resolved" and "c \<in> set columns" "hidden_metric env recipe c"
  shows "rendered \<noteq> [] \<Longrightarrow> fst (metric_gate rendered resolved st) \<noteq> None"
  using metric_gate_None [OF assms(1)] assms(2,3) by blast

lemma detail_shown:
  assumes "build_detail_tables env recipe results = Inr tables" and "dt \<in> set tables"
  obtains aux where "aux \<in> set (cr_aux_outputs recipe)" "map cm_name (dt_columns dt) = map rc_name (ao_columns aux)"
    and "\<forall>c \<in> set (ao_columns aux). hidden_metric env recipe c \<longrightarrow> shown_unavailable (dt_rows dt) (rc_name c)"
proof -
  obtain aux where aux: "aux \<in> set (cr_aux_outputs recipe)" "detail_table_of env recipe results aux = Inr dt"
    using list_all2_member(1) [OF assms(1) [unfolded build_detail_tables_def rmap_Inr] assms(2)] by auto
  then obtain resolved where r: "resolved_columns env recipe (ao_columns aux) = Inr resolved"
    and rows: "dt_rows dt = map (gated_row (unavailable_columns resolved) (map (cm_name \<circ> fst) resolved)) (aux_rows results aux)"
    and "dt_columns dt = map fst resolved"
    by (auto simp: detail_table_of_def rbind_Inr)
  moreover have "map (cm_name \<circ> fst) resolved = map rc_name (ao_columns aux)" by (rule unavailable_columns_resolved(2) [OF r])
  ultimately show ?thesis using gated_rows_shown [OF r, of _ "aux_rows results aux"] aux(1)
    by (intro that [of aux]) (simp_all add: comp_def)
qed

lemma build_table_hides:
  assumes "build_table te env recipe fs f paging s = (Inr t, s')"
  shows "(\<forall>c \<in> set (cr_result_columns recipe). hidden_metric env recipe c \<longrightarrow>
      shown_unavailable (rt_rows t) (rc_name c) \<and>
      (rc_name c \<in> fst ` set (rt_totals t) \<longrightarrow> rc_name c = u ''je'' \<or> rc_name c \<in> aux_total_names recipe) \<and>
      (rt_rows t \<noteq> [] \<longrightarrow> rt_incomplete t)) \<and>
    (\<forall>dt \<in> set (rt_detail_tables t). \<exists>aux \<in> set (cr_aux_outputs recipe). map cm_name (dt_columns dt) = map rc_name (ao_columns aux) \<and>
      (\<forall>c \<in> set (ao_columns aux). hidden_metric env recipe c \<longrightarrow> shown_unavailable (dt_rows dt) (rc_name c)))"
proof -
  obtain outputs draft results where draft: "draft_table env recipe fs outputs = Inr draft"
    and fin: "finish_table te env recipe paging draft results = Inr t" using build_table_Inr [OF assms] .
  note t = finish_table_Inr [OF fin]
  obtain rendered where cols: "resolved_columns env recipe (cr_result_columns recipe) = Inr (td_columns draft)"
    and rows: "td_rows draft = map (gated_row (unavailable_columns (td_columns draft)) (map (cm_name \<circ> fst) (td_columns draft))) rendered"
    and gate: "(td_reason draft, td_warnings draft) = metric_gate rendered (td_columns draft) (fetch_state_of fs)"
    and totals: "build_totals env recipe (td_rows draft) fs = Inr (td_totals draft)"
    using draft_table_Inr [OF draft] .
  have "shown_unavailable (rt_rows t) (rc_name c) \<and>
      (rc_name c \<in> fst ` set (rt_totals t) \<longrightarrow> rc_name c = u ''je'' \<or> rc_name c \<in> aux_total_names recipe) \<and>
      (rt_rows t \<noteq> [] \<longrightarrow> rt_incomplete t)" if c: "c \<in> set (cr_result_columns recipe)" "hidden_metric env recipe c" for c
  proof (intro conjI impI)
    show shown: "shown_unavailable (rt_rows t) (rc_name c)"
      using gated_rows_shown [OF cols c] rows t(2) by simp
    show "rc_name c = u ''je'' \<or> rc_name c \<in> aux_total_names recipe" if "rc_name c \<in> fst ` set (rt_totals t)"
      using that all_aux_totals_keys [OF t(7) [unfolded apply_aux_totals_def]]
        build_totals_skip [OF totals shown_unavailable_no_cells [OF shown [unfolded t(2)]]]
      by (auto simp: aux_total_names_def)
    show "rt_incomplete t" if "rt_rows t \<noteq> []"
      using that gate metric_gate_reason [OF cols c] t(2,5) rows by (metis fst_conv map_is_Nil_conv)
  qed
  moreover have "\<exists>aux \<in> set (cr_aux_outputs recipe). map cm_name (dt_columns dt) = map rc_name (ao_columns aux) \<and>
      (\<forall>c \<in> set (ao_columns aux). hidden_metric env recipe c \<longrightarrow> shown_unavailable (dt_rows dt) (rc_name c))"
    if "dt \<in> set (rt_detail_tables t)" for dt
    using detail_shown [OF t(8) that] by blast
  ultimately show ?thesis by blast
qed
section \<open>Upstream failures\<close>

lemma lift_sandbox_degrades: "lift_sandbox r = Inl e \<Longrightarrow> (\<And>m. r = Inl (SandboxMes m) \<Longrightarrow> \<not> degrades (KernelMes m)) \<Longrightarrow> \<not> degrades e"
  by (cases r) (auto simp: lift_sandbox_def split: sandbox_error.splits)

lemma refusals_not_upstream [simp]:
  "validate_identifier tx name = Inl (SandboxMes m) \<Longrightarrow> \<not> degrades (KernelMes m)"
  "sandbox_conn en s = Inl (SandboxMes m) \<Longrightarrow> \<not> degrades (KernelMes m)"
  by (auto simp: validate_identifier_def sandbox_conn_def guard_r_def split: if_splits option.splits)

lemma load_rows_not_upstream [simp]:
  "load_rows tx en t c = (Inl (SandboxMes m), c') \<Longrightarrow> \<not> degrades (KernelMes m)"
  by (auto simp: load_rows_def split: if_splits prod.splits sum.splits bool.splits dest!: for_each_Inl)

lemma register_not_upstream:
  "register_table tx en t s = (Inl (SandboxMes m), s') \<Longrightarrow> \<not> degrades (KernelMes m)"
  by (auto simp: register_table_def guard_r_def rthen_Inl split: sum.splits prod.splits if_splits)

lemma replace_not_upstream:
  "replace_table tx en t s = (Inl (SandboxMes m), s') \<Longrightarrow> \<not> degrades (KernelMes m)"
  by (auto simp: replace_table_def guard_r_def rthen_Inl split: sum.splits prod.splits if_splits
      dest!: for_each_Inl dest: register_not_upstream)

text \<open>The control of a run raises only its own stop.\<close>

definition control_only :: "('w, 'c, 'd) kernel_env \<Rightarrow> bool" where
  "control_only env \<longleftrightarrow> (\<forall>n w e w'. kv_consume env n w = (Inl e, w') \<longrightarrow> \<not> degrades e)"

lemma fetch_api_step_not_upstream:
  assumes "control_only env" and "fetch_api_step env recipe filters tr rl step acc st = (Inl e, st')"
  shows "\<not> degrades e"
  using assms by (auto simp: fetch_api_step_def reviewed_params_def register_step_def degrade_def control_only_def rbind_Inl
      split: option.splits sum.splits prod.splits if_splits
      dest!: lift_sandbox_degrades dest: register_not_upstream)

text \<open>A degraded step leaves the call counter as it was, however many calls were made.\<close>

lemma degraded_step_not_counted:
  assumes "rs_operation_id step = Some op" and "reviewed_params (rs_params step) = Inr params"
    and "fetch_step env step op params filters tr (snd acc) rl st = (Inl e, st1)" and "degrades e"
    and "fetch_api_step env recipe filters tr rl step acc st = (Inr acc', st')"
  shows "acc' = (AList.update (rs_step_id step) (degraded_fetch e) (fst acc), snd acc)"
  using assms by (auto simp: fetch_api_step_def degrade_def rbind_Inr split: prod.splits)

lemma fetch_api_steps_not_upstream:
  assumes "control_only env"
  shows "fetch_api_steps env recipe filters tr rl steps acc st = (Inl e, st') \<Longrightarrow> \<not> degrades e"
proof (induction steps arbitrary: acc st)
  case (Cons step steps)
  then show ?case
    using fetch_api_step_not_upstream [OF assms] by (auto split: if_splits sum.splits prod.splits)
qed simp

lemma fetch_api_steps_keys:
  "fetch_api_steps env recipe filters tr rl steps acc st = (Inr (fs, calls), st') \<Longrightarrow>
    fst ` set fs = fst ` set (fst acc) \<union> rs_step_id ` {s \<in> set steps. rs_kind s = API}"
proof (induction steps arbitrary: acc st)
  case (Cons step steps)
  show ?case
  proof (cases "rs_kind step = API")
    case False
    then show ?thesis using Cons by (auto simp: split: if_splits)
  next
    case True
    then obtain acc' st1 where one: "fetch_api_step env recipe filters tr rl step acc st = (Inr acc', st1)"
      and rest: "fetch_api_steps env recipe filters tr rl steps acc' st1 = (Inr (fs, calls), st')"
      using Cons.prems by (auto split: sum.splits prod.splits)
    then obtain f where "fst acc' = AList.update (rs_step_id step) f (fst acc)"
      by (auto simp: fetch_api_step_def rbind_Inr split: option.splits sum.splits prod.splits)
    then show ?thesis using Cons.IH [OF rest] True by (auto simp: AList.dom_update)
  qed
qed simp

lemma fetch_api_steps_append:
  "fetch_api_steps env recipe filters tr rl (xs @ ys) acc st = (case fetch_api_steps env recipe filters tr rl xs acc st of
     (Inl e, st') \<Rightarrow> (Inl e, st') | (Inr acc', st') \<Rightarrow> fetch_api_steps env recipe filters tr rl ys acc' st')"
  by (induction xs arbitrary: acc st) (auto split: sum.splits prod.splits)

lemma fetch_api_step_Inr:
  assumes "fetch_api_step env recipe filters tr rl step acc st = (Inr acc', st')"
  obtains op params r st1 f where "rs_operation_id step = Some op" and "reviewed_params (rs_params step) = Inr params"
    and "fetch_step env step op params filters tr (snd acc) rl st = (r, st1)"
    and "case r of Inr (g, _) \<Rightarrow> f = g | Inl d \<Rightarrow> degrades d \<and> f = degraded_fetch d"
    and "register_step env recipe step f st1 = (Inr (), st')" and "fst acc' = AList.update (rs_step_id step) f (fst acc)"
  using assms by (auto simp: fetch_api_step_def degrade_def rbind_Inr split: option.splits sum.splits prod.splits if_splits
      intro!: that)

lemma fetch_api_steps_keep:
  "fetch_api_steps env recipe filters tr rl steps acc st = (Inr (fs, calls), st') \<Longrightarrow>
    n \<notin> rs_step_id ` {s \<in> set steps. rs_kind s = API} \<Longrightarrow> map_of fs n = map_of (fst acc) n"
proof (induction steps arbitrary: acc st)
  case (Cons step steps)
  show ?case
  proof (cases "rs_kind step = API")
    case False
    then have "{s \<in> set (step # steps). rs_kind s = API} = {s \<in> set steps. rs_kind s = API}" by auto
    then show ?thesis using Cons.IH [of acc st] Cons.prems False by simp
  next
    case True
    then obtain acc' st1 where one: "fetch_api_step env recipe filters tr rl step acc st = (Inr acc', st1)"
      and rest: "fetch_api_steps env recipe filters tr rl steps acc' st1 = (Inr (fs, calls), st')"
      using Cons.prems by (auto split: sum.splits prod.splits)
    obtain f where "fst acc' = AList.update (rs_step_id step) f (fst acc)" using fetch_api_step_Inr [OF one] by metis
    moreover have "n \<noteq> rs_step_id step" "n \<notin> rs_step_id ` {s \<in> set steps. rs_kind s = API}"
      using Cons.prems(2) True by auto
    ultimately show ?thesis using Cons.IH [OF rest] by (simp add: update_conv')
  qed
qed simp

text \<open>The fetch of one step in a run that went through: what its turn gave, or the degraded fetch.\<close>

lemma fetch_of_step:
  assumes "fetch_api_steps env recipe filters tr rl steps acc st = (Inr (fs, calls), st')"
    and "steps = pre @ step # post" "rs_kind step = API"
    and "rs_step_id step \<notin> rs_step_id ` {s \<in> set post. rs_kind s = API}"
  obtains acc0 st0 op params r st1 f where
    "fetch_api_steps env recipe filters tr rl pre acc st = (Inr acc0, st0)"
    and "rs_operation_id step = Some op" and "reviewed_params (rs_params step) = Inr params"
    and "fetch_step env step op params filters tr (snd acc0) rl st0 = (r, st1)"
    and "case r of Inr (g, _) \<Rightarrow> f = g | Inl d \<Rightarrow> degrades d \<and> f = degraded_fetch d"
    and "map_of fs (rs_step_id step) = Some f"
proof -
  obtain acc0 st0 where pre: "fetch_api_steps env recipe filters tr rl pre acc st = (Inr acc0, st0)"
    and rest: "fetch_api_steps env recipe filters tr rl (step # post) acc0 st0 = (Inr (fs, calls), st')"
    using assms(1) unfolding assms(2) fetch_api_steps_append by (auto split: sum.splits prod.splits)
  then obtain acc1 st1 where one: "fetch_api_step env recipe filters tr rl step acc0 st0 = (Inr acc1, st1)"
    and post: "fetch_api_steps env recipe filters tr rl post acc1 st1 = (Inr (fs, calls), st')"
    using assms(3) by (auto split: sum.splits prod.splits)
  obtain op params r st2 f where step: "rs_operation_id step = Some op" "reviewed_params (rs_params step) = Inr params"
    "fetch_step env step op params filters tr (snd acc0) rl st0 = (r, st2)"
    "case r of Inr (g, _) \<Rightarrow> f = g | Inl d \<Rightarrow> degrades d \<and> f = degraded_fetch d"
    and acc1: "fst acc1 = AList.update (rs_step_id step) f (fst acc0)" using fetch_api_step_Inr [OF one] .
  have "map_of fs (rs_step_id step) = Some f"
    using fetch_api_steps_keep [OF post assms(4)] by (simp add: acc1 update_conv')
  then show ?thesis using that [OF pre step] by blast
qed

section \<open>Shadow validation\<close>

lemma bounded_Inr [simp]: "bounded r = (Inr x, s) \<longleftrightarrow> r = (Inr x, s)"
  by (auto simp: bounded_def split: prod.splits sum.splits)

lemma bounded_not_upstream: "bounded r = (Inl e, s) \<Longrightarrow> \<not> degrades e"
  by (auto simp: bounded_def split: prod.splits sum.splits)

lemma replace_step_tables_not_upstream:
  "replace_step_tables env recipe fs steps s = (Inl e, s') \<Longrightarrow> \<not> degrades e"
proof (induction steps arbitrary: s)
  case (Cons step steps)
  then show ?case
    by (auto split: if_splits option.splits prod.splits sum.splits
        dest!: lift_sandbox_degrades dest: replace_not_upstream)
qed simp

text \<open>The tables of the steps hold exactly the rows of these fetches (and the sandbox has counted them).\<close>

definition holds_fetches ::
  "((pystr \<times> pystr) list \<Rightarrow> (pystr \<times> json option) list \<Rightarrow> 'x) \<Rightarrow> ('c \<Rightarrow> pystr \<Rightarrow> ((pystr \<times> pystr) list \<times> 'x list) option) \<Rightarrow>
   ('w, 'c, 'd) kernel_env \<Rightarrow> capability_recipe \<Rightarrow> fetches \<Rightarrow> 'c sandbox \<Rightarrow> bool" where
  "holds_fetches load content env recipe fs s \<longleftrightarrow> (\<forall>step \<in> set (cr_steps recipe). rs_kind step = API \<longrightarrow>
     (\<exists>f. map_of fs (rs_step_id step) = Some f \<and>
        map_of (sb_row_counts s) (rs_step_id step) = Some (length (rs_rows f)) \<and>
        sb_content content s (rs_step_id step) = Some (loaded load (step_table env step f recipe))))"

definition api_steps :: "recipe_step list \<Rightarrow> recipe_step list" where
  "api_steps steps = filter (\<lambda>s. rs_kind s = API) steps"

lemma register_step_holds:
  assumes "engine_laws (kv_engine env) load content" and "register_step env recipe step f st = (Inr x, st')"
  shows "map_of (sb_row_counts (kn_sandbox st')) =
      (map_of (sb_row_counts (kn_sandbox st)))(rs_step_id step \<mapsto> length (rs_rows f))"
    and "sb_content content (kn_sandbox st') =
      (sb_content content (kn_sandbox st))(rs_step_id step \<mapsto> loaded load (step_table env step f recipe))"
proof -
  obtain s where reg: "register_table (kv_text env) (kv_engine env) (step_table env step f recipe) (kn_sandbox st) = (Inr (), s)"
    and st': "kn_sandbox st' = s"
    using assms(2) by (auto simp: register_step_def lift_sandbox_def map_sum_Inr split: sum.splits prod.splits)
  show "map_of (sb_row_counts (kn_sandbox st')) =
      (map_of (sb_row_counts (kn_sandbox st)))(rs_step_id step \<mapsto> length (rs_rows f))"
    using reg unfolding st' by (auto simp: register_table_def step_table_def update_conv' split: sum.splits prod.splits if_splits)
  show "sb_content content (kn_sandbox st') =
      (sb_content content (kn_sandbox st))(rs_step_id step \<mapsto> loaded load (step_table env step f recipe))"
    using register_table_content(1) [OF assms(1) reg refl] unfolding st' by (simp add: step_table_def)
qed

text \<open>The fan-out reads its values with \<open>SELECT DISTINCT\<close>, which changes no table.\<close>

definition distinct_reads_only :: "('w, 'c, 'd) kernel_env \<Rightarrow> ('c \<Rightarrow> pystr \<Rightarrow> 't option) \<Rightarrow> bool" where
  "distinct_reads_only env content \<longleftrightarrow>
     (\<forall>from_step column. reads_only (kv_engine env) content (distinct_values_sql from_step column))"

lemma sandbox_execute_keeps:
  assumes "engine_laws en load content" and "sandbox_execute tx en sql params s = (r, s')" and "reads_only en content sql"
  shows "sb_row_counts s' = sb_row_counts s \<and> sb_content content s' = sb_content content s"
proof -
  obtain answer where run: "execute_typed tx en sql params s = (answer, s')"
    using assms(2) by (auto simp: sandbox_execute_def map_prod_def split: prod.splits)
  have "sb_row_counts s' = sb_row_counts s"
    using run by (auto simp: execute_typed_def split: sum.splits prod.splits)
  then show ?thesis using execute_typed_content [OF assms(1) run assms(3)] by simp
qed

lemma bound_values_keep:
  assumes "engine_laws (kv_engine env) load content" and "distinct_reads_only env content"
  shows "bound_values env step_id bs s = (r, s') \<Longrightarrow>
    sb_row_counts s' = sb_row_counts s \<and> sb_content content s' = sb_content content s"
proof (induction bs arbitrary: s r)
  case (Cons b bs)
  show ?case
  proof (cases "binding_identifiers (kv_chars env) step_id b")
    case Inl
    then show ?thesis using Cons.prems by simp
  next
    case (Inr ids)
    obtain from_step column where ids: "ids = (from_step, column)" by fastforce
    obtain r1 s1 where run: "sandbox_execute (kv_text env) (kv_engine env) (distinct_values_sql from_step column) None s = (r1, s1)"
      by fastforce
    have one: "sb_row_counts s1 = sb_row_counts s \<and> sb_content content s1 = sb_content content s"
      using sandbox_execute_keeps [OF assms(1) run] assms(2) by (simp add: distinct_reads_only_def)
    show ?thesis
      using Cons.prems Cons.IH [of s1] one run Inr ids by (auto split: sum.splits prod.splits)
  qed
qed simp

lemma fetch_step_keeps:
  assumes "engine_laws (kv_engine env) load content" and "distinct_reads_only env content"
    and "fetch_step env step op params filters tr n rl st = (r, st')"
  shows "sb_row_counts (kn_sandbox st') = sb_row_counts (kn_sandbox st) \<and>
    sb_content content (kn_sandbox st') = sb_content content (kn_sandbox st)"
  using assms(3) by (auto simp: fetch_step_def fetch_fanned_def Let_def split: if_splits sum.splits prod.splits
      dest: bound_values_keep [OF assms(1,2)])

text \<open>What a list of steps leaves in the fetches and in the sandbox.\<close>

definition steps_held ::
  "((pystr \<times> pystr) list \<Rightarrow> (pystr \<times> json option) list \<Rightarrow> 'x) \<Rightarrow> ('c \<Rightarrow> pystr \<Rightarrow> ((pystr \<times> pystr) list \<times> 'x list) option) \<Rightarrow>
   ('w, 'c, 'd) kernel_env \<Rightarrow> capability_recipe \<Rightarrow> recipe_step list \<Rightarrow> fetches \<Rightarrow> 'c sandbox \<Rightarrow> bool" where
  "steps_held load content env recipe steps fs s \<longleftrightarrow> (\<forall>step \<in> set (api_steps steps).
     \<exists>f. map_of fs (rs_step_id step) = Some f \<and> map_of (sb_row_counts s) (rs_step_id step) = Some (length (rs_rows f)) \<and>
        sb_content content s (rs_step_id step) = Some (loaded load (step_table env step f recipe)))"

lemma holds_fetches_steps: "holds_fetches load content env recipe fs s \<longleftrightarrow> steps_held load content env recipe (cr_steps recipe) fs s"
  by (auto simp: holds_fetches_def steps_held_def api_steps_def)

lemma fetch_api_steps_held:
  assumes laws: "engine_laws (kv_engine env) load content" and reads: "distinct_reads_only env content"
  shows "fetch_api_steps env recipe filters tr rl steps acc st = (Inr (fs, calls), st') \<Longrightarrow>
    distinct (map rs_step_id (api_steps steps)) \<Longrightarrow>
    (\<forall>n. n \<notin> rs_step_id ` set (api_steps steps) \<longrightarrow> map_of fs n = map_of (fst acc) n \<and>
       map_of (sb_row_counts (kn_sandbox st')) n = map_of (sb_row_counts (kn_sandbox st)) n \<and>
       sb_content content (kn_sandbox st') n = sb_content content (kn_sandbox st) n) \<and>
    steps_held load content env recipe steps fs (kn_sandbox st')"
proof (induction steps arbitrary: acc st)
  case (Cons step steps)
  show ?case
  proof (cases "rs_kind step = API")
    case False
    then show ?thesis using Cons by (simp add: api_steps_def steps_held_def)
  next
    case True
    then obtain acc' st1 where one: "fetch_api_step env recipe filters tr rl step acc st = (Inr acc', st1)"
      and rest: "fetch_api_steps env recipe filters tr rl steps acc' st1 = (Inr (fs, calls), st')"
      using Cons.prems by (auto split: sum.splits prod.splits)
    obtain op params r st0 f where "rs_operation_id step = Some op" "reviewed_params (rs_params step) = Inr params"
      and fetched: "fetch_step env step op params filters tr (snd acc) rl st = (r, st0)"
      and "case r of Inr (g, _) \<Rightarrow> f = g | Inl d \<Rightarrow> degrades d \<and> f = degraded_fetch d"
      and reg: "register_step env recipe step f st0 = (Inr (), st1)"
      and f: "fst acc' = AList.update (rs_step_id step) f (fst acc)" using fetch_api_step_Inr [OF one] .
    note held = register_step_holds [OF laws reg] fetch_step_keeps [OF laws reads fetched]
    have ids: "api_steps (step # steps) = step # api_steps steps" using True by (simp add: api_steps_def)
    have IH: "(\<forall>n. n \<notin> rs_step_id ` set (api_steps steps) \<longrightarrow> map_of fs n = map_of (fst acc') n \<and>
       map_of (sb_row_counts (kn_sandbox st')) n = map_of (sb_row_counts (kn_sandbox st1)) n \<and>
       sb_content content (kn_sandbox st') n = sb_content content (kn_sandbox st1) n) \<and>
      steps_held load content env recipe steps fs (kn_sandbox st')"
      using Cons.IH [OF rest] Cons.prems(2) by (simp add: ids)
    have fresh: "rs_step_id step \<notin> rs_step_id ` set (api_steps steps)" using Cons.prems(2) by (auto simp: ids)
    have own: "map_of fs (rs_step_id step) = Some f"
        "map_of (sb_row_counts (kn_sandbox st')) (rs_step_id step) = Some (length (rs_rows f))"
        "sb_content content (kn_sandbox st') (rs_step_id step) = Some (loaded load (step_table env step f recipe))"
      using IH fresh held(1,2) f by (simp_all add: update_conv')
    have others: "map_of fs n = map_of (fst acc) n \<and>
        map_of (sb_row_counts (kn_sandbox st')) n = map_of (sb_row_counts (kn_sandbox st)) n \<and>
        sb_content content (kn_sandbox st') n = sb_content content (kn_sandbox st) n"
      if "n \<notin> rs_step_id ` set (api_steps (step # steps))" for n
      using that IH held f by (simp add: ids update_conv')
    show ?thesis using own others IH by (simp add: ids steps_held_def)
  qed
qed (simp add: steps_held_def api_steps_def)

lemma replace_step_tables_held:
  assumes laws: "engine_laws (kv_engine env) load content"
  shows "replace_step_tables env recipe fs steps s = (Inr (), s') \<Longrightarrow>
    distinct (map rs_step_id (api_steps steps)) \<Longrightarrow> rs_step_id ` set (api_steps steps) \<subseteq> fst ` set fs \<Longrightarrow>
    (\<forall>n. n \<notin> rs_step_id ` set (api_steps steps) \<longrightarrow>
       map_of (sb_row_counts s') n = map_of (sb_row_counts s) n \<and> sb_content content s' n = sb_content content s n) \<and>
    steps_held load content env recipe steps fs s'"
proof (induction steps arbitrary: s)
  case (Cons step steps)
  show ?case
  proof (cases "rs_kind step = API")
    case False
    then show ?thesis using Cons by (simp add: api_steps_def steps_held_def)
  next
    case True
    have ids: "api_steps (step # steps) = step # api_steps steps" using True by (simp add: api_steps_def)
    have "rs_step_id step \<in> fst ` set fs" using Cons.prems(3) by (simp add: ids)
    then obtain f where f: "map_of fs (rs_step_id step) = Some f" by (metis map_of_eq_None_iff option.exhaust)
    obtain s1 where one: "replace_table (kv_text env) (kv_engine env) (step_table env step f recipe) s = (Inr (), s1)"
      and rest: "replace_step_tables env recipe fs steps s1 = (Inr (), s')"
      using Cons.prems(1) True f by (auto simp: lift_sandbox_def split: sum.splits prod.splits)
    have counts: "map_of (sb_row_counts s1) = (map_of (sb_row_counts s))(rs_step_id step \<mapsto> length (rs_rows f))"
      using one by (auto simp: replace_table_def register_table_def step_table_def update_conv' delete_conv' fun_eq_iff
          split: sum.splits prod.splits if_splits)
    have content: "sb_content content s1 = (sb_content content s)(rs_step_id step \<mapsto> loaded load (step_table env step f recipe))"
      using replace_table_content(1) [OF laws one refl] by (simp add: step_table_def)
    have fresh: "rs_step_id step \<notin> rs_step_id ` set (api_steps steps)" using Cons.prems(2) by (auto simp: ids)
    have "(\<forall>n. n \<notin> rs_step_id ` set (api_steps steps) \<longrightarrow>
       map_of (sb_row_counts s') n = map_of (sb_row_counts s1) n \<and> sb_content content s' n = sb_content content s1 n) \<and>
      steps_held load content env recipe steps fs s'"
      using Cons.IH [OF rest] Cons.prems(2,3) by (simp add: ids)
    then show ?thesis using fresh counts content f by (auto simp: ids steps_held_def)
  qed
qed (simp add: steps_held_def api_steps_def)

lemma shadow_of_None: "rs_shadow_result f = None \<Longrightarrow> shadow_of f = f"
  by (simp add: shadow_of_def)

lemma baseline_without_shadow: "\<forall>r \<in> snd ` set fs. rs_shadow_result r = None \<Longrightarrow> map (map_prod id shadow_of) fs = fs"
  by (rule map_idI) (auto simp: shadow_of_None)

lemma tables_agree_refl:
  assumes "\<And>x. cx_cell_eq (te_cards te) x x" and "\<And>d. dc_eq (kv_decimals env) d d"
  shows "tables_agree te env t t"
proof -
  have "rows_eq te rows rows" for rows
    using assms(1) by (auto simp: rows_eq_def dict_eq_def list_all2_same)
  moreover have "card_eq te c c" for c
    using assms(1) by (auto simp: card_eq_def preview_eq_def grouping_eq_def preview_group_eq_def list_all2_same intro!: option.rel_refl)
  ultimately show ?thesis
    using assms by (auto simp: tables_agree_def detail_eq_def dict_eq_def list_all2_same option.rel_refl)
qed

lemma run_in_sandbox_Inr:
  assumes "run_in_sandbox te env recipe q st = (Inr (t, fs', calls), st')"
  obtains fs st0 cached s where
    "fetch_api_steps env recipe (rq_filters q) (rq_time_range q) (rq_role q) (cr_steps recipe) ([], 0) st = (Inr (fs, calls), st0)"
    and "build_table te env recipe fs (rq_filters q) (rq_paging q) (kn_sandbox st0) = (Inr cached, s)"
    and "verify_final_shadow te env recipe fs (rq_filters q) (rq_paging q) cached (st0\<lparr>kn_sandbox := s\<rparr>) = (Inr (t, fs'), st')"
  using assms by (auto simp: run_in_sandbox_def rbind_Inr split: sum.splits prod.splits)

lemma verify_final_shadow_Inr:
  assumes "verify_final_shadow te env recipe fs f paging cached st = (Inr (t, fs'), st')"
  shows "(\<forall>r \<in> snd ` set fs. rs_shadow_result r = None) \<and> t = cached \<and> fs' = fs \<and> st' = st \<or>
    (\<exists>s realtime s'. replace_step_tables env recipe (map (map_prod id shadow_of) fs) (cr_steps recipe) (kn_sandbox st) = (Inr (), s) \<and>
      build_table te env recipe (map (map_prod id shadow_of) fs) f paging s = (Inr realtime, s') \<and>
      (tables_agree te env cached realtime \<and> t = cached \<and> fs' = fs \<or>
       t = realtime \<and> fs' = map (map_prod id without_provenance) (map (map_prod id shadow_of) fs)))"
  using assms by (auto simp: verify_final_shadow_def Let_def split: if_splits sum.splits prod.splits)

lemma map_of_map_prod: "map_of (map (map_prod id g) xs) = map_option g \<circ> map_of xs"
  by (rule ext, induction xs) auto

lemma holds_fetched:
  assumes "engine_laws (kv_engine env) load content" "distinct_reads_only env content"
    and "fetch_api_steps env recipe filters tr rl (cr_steps recipe) ([], 0) st = (Inr (fs, calls), st')"
    and "distinct (map rs_step_id (api_steps (cr_steps recipe)))"
  shows "holds_fetches load content env recipe fs (kn_sandbox st')"
  using fetch_api_steps_held [OF assms(1,2) assms(3,4)] by (simp add: holds_fetches_steps)

lemma holds_replaced:
  assumes "engine_laws (kv_engine env) load content"
    and "replace_step_tables env recipe fs (cr_steps recipe) s = (Inr (), s')"
    and "distinct (map rs_step_id (api_steps (cr_steps recipe)))"
    and "rs_step_id ` {x \<in> set (cr_steps recipe). rs_kind x = API} \<subseteq> fst ` set fs"
  shows "holds_fetches load content env recipe fs s'"
  using replace_step_tables_held [OF assms(1,2,3)] assms(4) by (simp add: holds_fetches_steps api_steps_def)


section \<open>Completeness\<close>

lemma fetch_state_without_provenance:
  "fetch_state_of (map (map_prod id without_provenance) fs) = fetch_state_of fs"
proof -
  have "fetch_reason (without_provenance f) = fetch_reason f" for f
    by (simp add: fetch_reason_def without_provenance_def)
  then have same: "table_reason (without_provenance f) = table_reason f" "fetch_warning (without_provenance f) = fetch_warning f" for f
    by (simp_all add: table_reason_def fetch_warning_def)
  have "filter (\<lambda>f. \<not> rs_complete f) (map snd (map (map_prod id without_provenance) fs)) =
      map without_provenance (filter (\<lambda>f. \<not> rs_complete f) (map snd fs))"
    by (induction fs) (auto simp: without_provenance_def)
  then show ?thesis
    using same by (auto simp: fetch_state_of_def Let_def last_map comp_def)
qed

text \<open>The table a run serves was built from fetches of this completeness.\<close>

lemma run_built:
  assumes "run_in_sandbox te env recipe q st = (Inr (t, fs, calls), st')"
  obtains fs' s s' where "build_table te env recipe fs' (rq_filters q) (rq_paging q) s = (Inr t, s')"
    and "fetch_state_of fs' = fetch_state_of fs" and "fst ` set fs = rs_step_id ` {x \<in> set (cr_steps recipe). rs_kind x = API}"
proof -
  obtain fs0 st0 cached s where fetched:
    "fetch_api_steps env recipe (rq_filters q) (rq_time_range q) (rq_role q) (cr_steps recipe) ([], 0) st = (Inr (fs0, calls), st0)"
    and built: "build_table te env recipe fs0 (rq_filters q) (rq_paging q) (kn_sandbox st0) = (Inr cached, s)"
    and verified: "verify_final_shadow te env recipe fs0 (rq_filters q) (rq_paging q) cached (st0\<lparr>kn_sandbox := s\<rparr>) = (Inr (t, fs), st')"
    using run_in_sandbox_Inr [OF assms] .
  have keys: "fst ` set fs0 = rs_step_id ` {x \<in> set (cr_steps recipe). rs_kind x = API}"
    using fetch_api_steps_keys [OF fetched] by simp
  have keys': "fst ` set (map (map_prod id without_provenance) (map (map_prod id shadow_of) fs0)) = fst ` set fs0"
    by (simp add: image_image)
  note result = that
  have served: thesis if "t = cached" "fs = fs0"
    using result [OF built [folded that(1)]] keys that(2) by simp
  from verify_final_shadow_Inr [OF verified] show ?thesis
  proof (elim disjE exE conjE)
    fix s1 realtime s2
    assume "build_table te env recipe (map (map_prod id shadow_of) fs0) (rq_filters q) (rq_paging q) s1 = (Inr realtime, s2)"
      and "t = realtime" "fs = map (map_prod id without_provenance) (map (map_prod id shadow_of) fs0)"
    then show ?thesis
      by (intro result) (simp_all only: fetch_state_without_provenance keys keys')
  qed (rule served; assumption)+
qed

text \<open>
  \<^bold>\<open>C9\<close>.  A run says exactly when its answer is incomplete.  After a run there is one
  fetch for every API step of the recipe and no other; the table is complete just when all of them
  are and, unless it has no rows, none of its columns is unconfirmed; every incomplete fetch is among
  the warnings, in order, and the last one gives the reason.
\<close>

theorem incomplete_exactly_when:
  assumes "run_in_sandbox te env recipe q st = (Inr (t, fs, calls), st')"
    and "partial = filter (\<lambda>f. \<not> rs_complete f) (map snd fs)"
  shows "fst ` set fs = rs_step_id ` {x \<in> set (cr_steps recipe). rs_kind x = API} \<and>
    (\<not> rt_incomplete t \<longleftrightarrow> partial = [] \<and>
       (rt_rows t = [] \<or> (\<forall>c \<in> set (cr_result_columns recipe). \<not> hidden_metric env recipe c))) \<and>
    take (length partial) (rt_warnings t) = map fetch_warning partial \<and>
    (partial \<noteq> [] \<longrightarrow> rt_incomplete_reason t = Some (table_reason (last partial)))"
proof -
  obtain fs' s s' where built: "build_table te env recipe fs' (rq_filters q) (rq_paging q) s = (Inr t, s')"
    and state: "fetch_state_of fs' = fetch_state_of fs"
    and keys: "fst ` set fs = rs_step_id ` {x \<in> set (cr_steps recipe). rs_kind x = API}"
    using run_built [OF assms(1)] .
  obtain outputs draft results where draft: "draft_table env recipe fs' outputs = Inr draft"
    and fin: "finish_table te env recipe (rq_paging q) draft results = Inr t" using build_table_Inr [OF built] .
  note t = finish_table_Inr [OF fin]
  obtain rendered where cols: "resolved_columns env recipe (cr_result_columns recipe) = Inr (td_columns draft)"
    and rows: "td_rows draft = map (gated_row (unavailable_columns (td_columns draft)) (map (cm_name \<circ> fst) (td_columns draft))) rendered"
    and gate: "(td_reason draft, td_warnings draft) = metric_gate rendered (td_columns draft) (fetch_state_of fs)"
    using draft_table_Inr [OF draft] unfolding state by metis
  have of_state: "fetch_state_of fs = (if partial = [] then None else Some (table_reason (last partial)), map fetch_warning partial)"
    by (simp add: fetch_state_of_def assms(2) Let_def)
  have incomplete: "\<not> rt_incomplete t \<longleftrightarrow> partial = [] \<and>
      (rt_rows t = [] \<or> (\<forall>c \<in> set (cr_result_columns recipe). \<not> hidden_metric env recipe c))"
    using metric_gate_None [OF cols, of rendered "fetch_state_of fs"] gate rows unfolding t(2,5) of_state
    by (metis fst_conv list.map_disc_iff option.distinct(1))
  have "metric_gate rendered (td_columns draft) (fetch_state_of fs) =
      (Some (table_reason (last partial)), map fetch_warning partial)" if "partial \<noteq> []"
    using that by (simp add: metric_gate_def of_state)
  then show ?thesis
    using keys incomplete gate t(3,4) by (cases "partial = []") auto
qed

section \<open>The whole run\<close>

lemma verify_final_shadow_not_upstream:
  "verify_final_shadow te env recipe fs f paging cached st = (Inl e, st') \<Longrightarrow> \<not> degrades e"
  by (auto simp: verify_final_shadow_def Let_def split: if_splits sum.splits prod.splits
      dest: replace_step_tables_not_upstream bounded_not_upstream)

lemma run_in_sandbox_not_upstream:
  assumes "control_only env" and "run_in_sandbox te env recipe q st = (Inl e, st')"
  shows "\<not> degrades e"
  using assms(2) by (auto simp: run_in_sandbox_def rbind_Inl split: sum.splits prod.splits
      dest: fetch_api_steps_not_upstream [OF assms(1)] bounded_not_upstream verify_final_shadow_not_upstream)

lemma register_meta_not_upstream: "register_meta env today q s = (Inl e, s') \<Longrightarrow> \<not> degrades e"
  by (auto simp: register_meta_def Let_def map_prod_def split: sum.splits prod.splits
      dest!: lift_sandbox_degrades dest: register_not_upstream)

lemma validation_not_upstream [simp]:
  "validate_order_view recipe sel = Inl e \<Longrightarrow> \<not> degrades e"
  "validate_group_page recipe p = Inl e \<Longrightarrow> \<not> degrades e"
  by (auto simp: validate_order_view_def validate_group_page_def order_view_invalid_def Let_def
      split: option.splits if_splits)

lemma new_sandbox_not_upstream: "new_sandbox tx allowed = Inl (SandboxMes m) \<Longrightarrow> \<not> degrades (KernelMes m)"
  by (auto simp: new_sandbox_def rthen_Inl dest!: for_each_Inl)

lemma attach_Inr:
  assumes "attach_order_view_context te recipe q fs r = Inr r'"
  shows "\<exists>c. r' = r\<lparr>rr_card := c\<rparr> \<and> rel_option (\<lambda>a b. kc_payload a = kc_payload b \<and> kc_order_groups a = kc_order_groups b) (rr_card r) c"
    and "pg_data_snapshot_id (rq_paging q) = Some s \<Longrightarrow> s = te_snapshot_id te recipe q fs"
    and "pg_order_view (rq_paging q) = Some sel \<Longrightarrow> ov_snapshot_id sel = Some s \<Longrightarrow> s = te_snapshot_id te recipe q fs"
proof -
  show "\<exists>c. r' = r\<lparr>rr_card := c\<rparr> \<and> rel_option (\<lambda>a b. kc_payload a = kc_payload b \<and> kc_order_groups a = kc_order_groups b) (rr_card r) c"
  proof (cases "rr_card r")
    case None
    then show ?thesis
      using assms by (intro exI [of _ None]) (auto simp: attach_order_view_context_def view_refused_def Let_def split: if_splits)
  next
    case (Some c)
    then show ?thesis
      using assms by (intro exI [of _ "rr_card r'"])
        (auto simp: attach_order_view_context_def view_refused_def Let_def split: if_splits option.splits)
  qed
  show "pg_data_snapshot_id (rq_paging q) = Some s \<Longrightarrow> s = te_snapshot_id te recipe q fs"
    and "pg_order_view (rq_paging q) = Some sel \<Longrightarrow> ov_snapshot_id sel = Some s \<Longrightarrow> s = te_snapshot_id te recipe q fs"
    using assms by (auto simp: attach_order_view_context_def view_refused_def Let_def split: if_splits)
qed

lemma kernel_run_Inr:
  assumes "kernel_run te env registry capability today q w = (Inr r, w')"
  obtains recipe s st' t fs calls where "registry_get registry capability = Inr recipe"
    and "run_in_sandbox te env recipe q \<lparr>kn_sandbox = s, kn_world = w\<rparr> = (Inr (t, fs, calls), st')" and "w' = kn_world st'"
    and "attach_order_view_context te recipe q fs
      (to_run_result env t calls (observe_ownership env recipe fs) (pg_order_view (rq_paging q))) = Inr r"
  using assms by (auto simp: kernel_run_def result_simps map_sum_Inr split: sum.splits prod.splits intro!: that)

lemma attach_not_upstream: "attach_order_view_context te recipe q fs r = Inl e \<Longrightarrow> \<not> degrades e"
  by (auto simp: attach_order_view_context_def view_refused_def Let_def split: if_splits option.splits)

text \<open>
  \<^bold>\<open>C36\<close>.  The upstream never aborts a run.  When the run control raises only its own
  stop, no run fails with an upstream failure (invalid or unavailable answer, rate limit, timeout).
  And when the steps of a recipe went through, the fetch recorded for each API step (the last one of its
  identifier) is what its turn returned, or, if that was an upstream failure, an empty incomplete fetch
  whose reason is the label of the failure.
\<close>

theorem upstream_never_aborts_a_run:
  assumes "control_only env"
    and "fetch_api_steps env recipe filters tr rl (cr_steps recipe) ([], 0) st = (Inr (fs, calls), st')"
    and "cr_steps recipe = pre @ step # post" and "rs_kind step = API"
    and "rs_step_id step \<notin> rs_step_id ` {s \<in> set post. rs_kind s = API}"
  shows "(\<forall>te registry capability today q w e w'.
      kernel_run te env registry capability today q w = (Inl e, w') \<longrightarrow> \<not> degrades e) \<and>
    (\<exists>fs0 n st0 op params r st1 f. fetch_api_steps env recipe filters tr rl pre ([], 0) st = (Inr (fs0, n), st0) \<and>
       rs_operation_id step = Some op \<and> reviewed_params (rs_params step) = Inr params \<and>
       fetch_step env step op params filters tr n rl st0 = (r, st1) \<and> map_of fs (rs_step_id step) = Some f \<and>
       (case r of Inr (g, _) \<Rightarrow> f = g
        | Inl d \<Rightarrow> degrades d \<and> rs_rows f = [] \<and> \<not> rs_complete f \<and> rs_reason f = Some (upstream_reason d)))"
proof -
  have "\<not> degrades e" if "kernel_run te env registry capability today q w = (Inl e, w')"
    for te registry capability today q w e w'
    using that
    by (auto simp: kernel_run_def result_simps rthen_Inl registry_get_def split: sum.splits prod.splits option.splits
        dest!: lift_sandbox_degrades
        dest: new_sandbox_not_upstream register_meta_not_upstream attach_not_upstream run_in_sandbox_not_upstream [OF assms(1)])
  moreover obtain acc0 st0 op params r st1 f where pre: "fetch_api_steps env recipe filters tr rl pre ([], 0) st = (Inr acc0, st0)"
    and step: "rs_operation_id step = Some op" "reviewed_params (rs_params step) = Inr params"
      "fetch_step env step op params filters tr (snd acc0) rl st0 = (r, st1)"
    and f: "case r of Inr (g, _) \<Rightarrow> f = g | Inl d \<Rightarrow> degrades d \<and> f = degraded_fetch d" "map_of fs (rs_step_id step) = Some f"
    using fetch_of_step [OF assms(2-5)] .
  moreover have "case r of Inr (g, _) \<Rightarrow> f = g
      | Inl d \<Rightarrow> degrades d \<and> rs_rows f = [] \<and> \<not> rs_complete f \<and> rs_reason f = Some (upstream_reason d)"
    using f(1) by (auto simp: degraded_fetch_def plain_fetch_def split: sum.splits)
  ultimately show ?thesis by (intro conjI allI impI exI [of _ "fst acc0"] exI [of _ "snd acc0"] exI [of _ st0]
        exI [of _ op] exI [of _ params] exI [of _ r] exI [of _ st1] exI [of _ f]) simp_all
qed

lemma resolved_names:
  assumes "resolved_columns env recipe columns = Inr resolved"
  shows "map cm_name (map fst resolved) = map rc_name columns"
  using unavailable_columns_resolved(2) [OF assms] by (simp add: comp_def)

lemma build_table_names:
  assumes "build_table te env recipe fs f paging s = (Inr t, s')"
  shows "map cm_name (rt_columns t) = map rc_name (cr_result_columns recipe)"
proof -
  obtain outputs draft results where draft: "draft_table env recipe fs outputs = Inr draft"
    and fin: "finish_table te env recipe paging draft results = Inr t" using build_table_Inr [OF assms] .
  show ?thesis
    using draft_table_Inr [OF draft] resolved_names finish_table_Inr(1) [OF fin] by metis
qed

lemma shown_value:
  "shown_unavailable rows name \<Longrightarrow> r \<in> set rows \<Longrightarrow> cm_name c = name \<Longrightarrow>
    to_value env c (cell_of r (cm_name c)) = Cell (JStr UNAVAILABLE_VALUE)"
  by (simp add: shown_unavailable_def cell_of_def to_value_def absent_def)

lemma export_row_shown:
  assumes "c \<in> set cols" "\<forall>x \<in> set cols. cm_name x \<notin> LINK_COLUMNS" "map_of r (cm_name c) = Some (Cell (JStr UNAVAILABLE_VALUE))"
  shows "map_of (export_row env dt cols r) (cm_name c) = Some (Cell (JStr UNAVAILABLE_VALUE))"
proof -
  have folded: "map_of (fold (\<lambda>c. AList.update (cm_name c) (to_value env c (cell_of r (cm_name c)))) cs d) (cm_name c) =
      (if cm_name c \<in> cm_name ` set cs then Some (Cell (JStr UNAVAILABLE_VALUE)) else map_of d (cm_name c))" for cs d
    using assms(3) by (induction cs arbitrary: d) (auto simp: update_conv' to_value_def cell_of_def absent_def)
  have "cm_name c \<notin> LINK_COLUMNS" using assms(1,2) by blast
  then show ?thesis
    using folded [of cols "[]"] assms(1) by (auto simp: export_row_def LINK_COLUMNS_def)
qed

lemma detail_render_shown:
  assumes "shown_unavailable (dt_rows d) (rc_name c)" and "map cm_name (dt_columns d) = map rc_name cols" "c \<in> set cols"
    and "rc_name c \<notin> LINK_COLUMNS"
  shows "shown_unavailable (nt_rows (detail_render_table env t sel d)) (rc_name c)"
proof -
  let ?cols = "filter (\<lambda>c. cm_name c \<notin> LINK_COLUMNS) (dt_columns d)"
  have "rc_name c \<in> cm_name ` set (dt_columns d)"
    using arg_cong [OF assms(2), of set] assms(3) by simp
  then obtain x where x: "x \<in> set ?cols" "cm_name x = rc_name c" using assms(4) by auto
  have "set (exported_rows env d sel) \<subseteq> set (dt_rows d)" by (auto simp: exported_rows_def split: option.splits)
  then have "map_of (export_row env d ?cols r) (rc_name c) = Some (Cell (JStr UNAVAILABLE_VALUE))"
    if "r \<in> set (exported_rows env d sel)" for r
    using that assms(1) export_row_shown [OF x(1)] unfolding x(2) by (metis (no_types, lifting) mem_Collect_eq set_filter
      shown_unavailable_def subsetD)
  then show ?thesis by (auto simp: detail_render_table_def shown_unavailable_def Let_def)
qed

text \<open>A card that shows no number under a name: neither in its preview rows nor, unless there is a total of
  that name, among its figures.\<close>

definition card_hides :: "card_spec \<Rightarrow> (pystr, 'd) dict \<Rightarrow> 'd result_card \<Rightarrow> pystr \<Rightarrow> bool" where
  "card_hides spec totals k name \<longleftrightarrow>
     (\<forall>t. cy_table (kc_payload k) = Some t \<longrightarrow> (\<forall>i < length (pt_columns t). pt_columns t ! i = name \<longrightarrow>
        (\<forall>cells \<in> set (pt_rows t). cells ! i = None))) \<and>
     (name \<notin> fst ` set totals \<longrightarrow> (\<forall>i < length (cs_metrics spec). cs_metrics spec ! i = name \<longrightarrow>
        fg_value (cy_metrics (kc_payload k) ! i) = None))"

lemma table_payload_rows:
  assumes "table_payload env cx spec by_name rows = Inr t"
  shows "set (pt_rows t) \<subseteq> row_cells env cx by_name ` set rows" and "pt_columns t = map fst by_name"
proof -
  have kept: "set (upto_limit l xs) \<subseteq> set xs" for l and xs :: "'z list"
    by (auto simp: upto_limit_def dest: in_set_takeD)
  have "grouped_runs cx spec col n rs = Inr runs \<Longrightarrow> set (concat (map snd runs)) \<subseteq> set rs" for col n rs runs
  proof (induction cx spec col n rs arbitrary: runs rule: grouped_runs.induct)
    case (3 cx spec col n r rs)
    let ?same = "\<lambda>x. cx_cell_eq cx (cell_of x col) (cell_of r col)"
    obtain e rest where rest: "grouped_runs cx spec col n (dropWhile ?same (r # rs)) = Inr rest"
      and runs: "runs = (e, upto_limit (preview_limit spec) (takeWhile ?same (r # rs))) # rest" and e: "group_entry spec (cell_of r col) (takeWhile ?same (r # rs)) = Inr e"
      using "3.prems" unfolding grouped_runs.simps Let_def by (auto simp only: rbind_Inr)
    have "set (concat (map snd rest)) \<subseteq> set (dropWhile ?same (r # rs))"
      using "3.IH" [OF refl refl refl e rest] by blast
    then show ?case
      using kept [of "preview_limit spec" "takeWhile ?same (r # rs)"] set_dropWhileD [of _ ?same "r # rs"] set_takeWhileD [of _ ?same "r # rs"]
      unfolding runs by (simp only: list.map concat.simps set_append snd_conv) blast
  qed auto
  note runs = this
  show "set (pt_rows t) \<subseteq> row_cells env cx by_name ` set rows"
  proof (cases "cs_group_by spec")
    case None
    then have "pt_rows t = map (row_cells env cx by_name) (upto_limit (preview_limit spec) rows)"
      using assms by (auto simp: table_payload_def Let_def)
    then show ?thesis using image_mono [OF kept] by simp
  next
    case (Some col)
    then obtain rs where rs: "grouped_runs cx spec col (nat (cs_preview_max_groups spec)) rows = Inr rs"
      and t: "pt_rows t = map (row_cells env cx by_name) (concat (map snd rs))"
      using assms by (auto simp: table_payload_def grouped_table_def rbind_Inr Let_def)
    show ?thesis unfolding t set_map by (rule image_mono [OF runs [OF rs]])
  qed
  show "pt_columns t = map fst by_name"
    using assms by (auto simp: table_payload_def rbind_Inr Let_def split: option.splits prod.splits)
qed

lemma row_cells_absent:
  assumes "absent (cell_of r name)" and "i < length by_name" "fst (by_name ! i) = name"
  shows "row_cells env cx by_name r ! i = None"
  using assms by (simp add: row_cells_def split_def)

lemma shown_absent: "shown_unavailable rows name \<Longrightarrow> r \<in> set rows \<Longrightarrow> absent (cell_of r name)"
  by (simp add: shown_unavailable_def cell_of_def absent_def)

lemma metrics_payload_hide:
  assumes "metrics_payload env cx by_name rows totals names = Inr figures" and "shown_unavailable rows name"
    and "name \<notin> fst ` set totals" "i < length names" "names ! i = name"
  shows "fg_value (figures ! i) = None" and "length figures = length names"
proof -
  have all: "list_all2 (\<lambda>n f. \<exists>c. f = figure_of c n (metric_value env cx rows totals n c)) names figures"
    using assms(1) by (auto simp: metrics_payload_def rmap_Inr rbind_Inr elim!: list_all2_mono)
  then show "length figures = length names" by (simp add: list_all2_lengthD)
  have "metric_value env cx rows totals name c = None" for c
    using assms(2,3) shown_absent [OF assms(2)]
    by (auto simp: metric_value_def map_of_eq_None_iff [symmetric] split: option.splits list.splits)
  then show "fg_value (figures ! i) = None"
    using list_all2_nthD [OF all assms(4)] assms(5) by (auto simp: figure_of_def)
qed

lemma build_card_hides:
  assumes "build_card env cx spec cid title columns rows totals inc reason ws chart figures = Inr payload"
    and "shown_unavailable rows name" and "kc_payload k = payload"
  shows "card_hides spec totals k name"
proof -
  obtain metrics table where m: "metrics_payload env cx (card_columns_by_name columns) rows totals (cs_metrics spec) = Inr metrics"
    and table: "(if cs_kind spec \<in> {TABLE, RANKING} then rbind (table_payload env cx spec
       (filter (\<lambda>(name, _). name \<notin> set (cs_hidden_columns spec)) (card_columns_by_name columns)) rows) (\<lambda>t. Inr (Some t)) else Inr None) = Inr table"
    and payload: "cy_metrics payload = metrics @ map (aux_figure_payload env cx) figures" "cy_table payload = table"
    using assms(1) by (auto simp: build_card_def rbind_Inr Let_def simp del: insert_iff)
  have cells: "cells ! i = None" if some: "table = Some t" and cell: "i < length (pt_columns t)" "pt_columns t ! i = name" "cells \<in> set (pt_rows t)" for t i cells
  proof -
    obtain by_name where t: "table_payload env cx spec by_name rows = Inr t"
      using table some by (auto simp: rbind_Inr split: if_splits)
    obtain r where r: "r \<in> set rows" "cells = row_cells env cx by_name r"
      using table_payload_rows(1) [OF t] cell(3) by blast
    show ?thesis
      using row_cells_absent [OF shown_absent [OF assms(2) r(1)], of i by_name env cx] cell(1,2) r(2)
      by (simp add: table_payload_rows(2) [OF t])
  qed
  have "fg_value (cy_metrics payload ! i) = None"
    if "name \<notin> fst ` set totals" "i < length (cs_metrics spec)" "cs_metrics spec ! i = name" for i
    using metrics_payload_hide [OF m assms(2) that] that(2) by (simp add: payload(1) nth_append)
  then show ?thesis using cells assms(3) payload(2) by (simp add: card_hides_def)
qed

lemma build_table_card_hides:
  assumes "build_table te env recipe fs f paging s = (Inr t, s')" and "rt_card t = Some k"
    and "shown_unavailable (rt_rows t) name"
  shows "\<exists>spec. cr_card recipe = Some spec \<and> card_hides spec (rt_totals t) k name"
proof -
  obtain outputs draft results where fin: "finish_table te env recipe paging draft results = Inr t"
    using build_table_Inr [OF assms(1)] .
  note t = finish_table_Inr [OF fin]
  show ?thesis
    using t(9) assms(2,3) build_card_hides unfolding t(2)
    by (fastforce simp: build_result_card_def rbind_Inr split: option.splits if_splits prod.splits)
qed

text \<open>
  \<^bold>\<open>C5\<close>.  The rows of an unconfirmed column are hidden.  In every result of a run, a
  column whose metric is registered but not confirmed holds the word for unavailable in every row, and
  its own cells give no total: a total under its name is the fallback total \<open>je\<close> of
  \<open>_build_totals\<close> (which does show the hidden number, see
  \<open>fallback_total_bypasses_the_gate\<close>) or one that an auxiliary output supplies.  The card
  shows such a column neither in the preview nor, without such a total, as a figure; a result with such a
  column and any row is marked incomplete; and the exported detail tables hide their unconfirmed columns
  alike, the link columns, which are not metrics, apart.
\<close>

theorem unconfirmed_rows_hidden:
  assumes "kernel_run te env registry capability today q w = (Inr r, w')"
    and "registry_get registry capability = Inr recipe"
  shows "rr_column_names r = map rc_name (cr_result_columns recipe) \<and>
    (\<forall>i < length (cr_result_columns recipe). hidden_metric env recipe (cr_result_columns recipe ! i) \<longrightarrow>
       (\<forall>row \<in> set (rr_rows r). row ! i = Cell (JStr UNAVAILABLE_VALUE)) \<and>
       (rr_column_names r ! i \<in> fst ` set (rr_totals r) \<longrightarrow>
          rr_column_names r ! i = u ''je'' \<or> rr_column_names r ! i \<in> aux_total_names recipe) \<and>
       (\<forall>k. rr_card r = Some k \<longrightarrow>
          (\<exists>spec. cr_card recipe = Some spec \<and> card_hides spec (rr_totals r) k (rr_column_names r ! i))) \<and>
       (rr_rows r \<noteq> [] \<longrightarrow> rr_incomplete r)) \<and>
    (\<forall>dt \<in> set (rr_detail_tables r). \<exists>aux \<in> set (cr_aux_outputs recipe).
       \<forall>c \<in> set (ao_columns aux). hidden_metric env recipe c \<and> rc_name c \<notin> LINK_COLUMNS \<longrightarrow>
         shown_unavailable (nt_rows dt) (rc_name c))"
proof -
  obtain s st' t fs calls where run: "run_in_sandbox te env recipe q \<lparr>kn_sandbox = s, kn_world = w\<rparr> = (Inr (t, fs, calls), st')"
    and attach: "attach_order_view_context te recipe q fs
      (to_run_result env t calls (observe_ownership env recipe fs) (pg_order_view (rq_paging q))) = Inr r"
    using kernel_run_Inr [OF assms(1)] assms(2) by (metis Inr_inject)
  obtain c where r: "r = (to_run_result env t calls (observe_ownership env recipe fs) (pg_order_view (rq_paging q)))\<lparr>rr_card := c\<rparr>"
    and c: "rel_option (\<lambda>a b. kc_payload a = kc_payload b \<and> kc_order_groups a = kc_order_groups b) (rt_card t) c"
    using attach_Inr(1) [OF attach] by (auto simp: to_run_result_def)
  obtain fs' s1 s2 where built: "build_table te env recipe fs' (rq_filters q) (rq_paging q) s1 = (Inr t, s2)"
    using run_built [OF run] .
  note names = build_table_names [OF built]
  note hides = build_table_hides [OF built]
  have len: "length (rt_columns t) = length (cr_result_columns recipe)" using names map_eq_imp_length_eq by blast
  have nth: "cm_name (rt_columns t ! i) = rc_name (cr_result_columns recipe ! i)" if "i < length (cr_result_columns recipe)" for i
    using names that len by (metis nth_map)
  have rows: "\<forall>row \<in> set (rr_rows r). row ! i = Cell (JStr UNAVAILABLE_VALUE)"
    if "i < length (cr_result_columns recipe)" "hidden_metric env recipe (cr_result_columns recipe ! i)" for i
    using that hides nth [OF that(1)] shown_value [of "rt_rows t" "rc_name (cr_result_columns recipe ! i)"] len
    by (auto simp: r to_run_result_def)
  have cards: "\<exists>spec. cr_card recipe = Some spec \<and> card_hides spec (rr_totals r) k (rc_name (cr_result_columns recipe ! i))"
    if i: "i < length (cr_result_columns recipe)" "hidden_metric env recipe (cr_result_columns recipe ! i)" and k: "c = Some k" for i k
  proof -
    obtain k' where k': "rt_card t = Some k'" "kc_payload k' = kc_payload k" using c k by (auto simp: option_rel_Some2)
    show ?thesis
      using build_table_card_hides [OF built k'(1)] hides i k'(2) by (fastforce simp: r to_run_result_def card_hides_def)
  qed
  have "\<exists>aux \<in> set (cr_aux_outputs recipe). \<forall>c \<in> set (ao_columns aux). hidden_metric env recipe c \<and> rc_name c \<notin> LINK_COLUMNS \<longrightarrow>
      shown_unavailable (nt_rows dt) (rc_name c)" if dt: "dt \<in> set (rr_detail_tables r)" for dt
  proof -
    obtain d where d: "d \<in> set (rt_detail_tables t)" "dt = detail_render_table env t (pg_order_view (rq_paging q)) d"
      using dt by (auto simp: r to_run_result_def)
    then show ?thesis using hides detail_render_shown by metis
  qed
  then show ?thesis
    using hides names len rows cards by (auto simp: r to_run_result_def)
qed

section \<open>A run\<close>

text \<open>One wage column whose metric is not confirmed, over one fetched row.\<close>

definition wage_recipe :: capability_recipe where
  "wage_recipe = (demo_recipe [demo_step ''pay'' []])
     \<lparr>cr_result_columns := [\<lparr>rc_name = u ''je'', rc_source_step = u ''pay'', rc_title = None, rc_metric = Some (u ''wage''),
        rc_column_type = Some MONEY, rc_unit = None, rc_aggregation = AGG_SUM\<rparr>],
      cr_metric_versions := [(u ''wage'', u ''1'')]\<rparr>"

text \<open>A kernel whose executor gives one answer, and the rows with one wage.\<close>

definition answer_kernel :: "kernel_error + fetch_result \<Rightarrow> (unit, table_list, int) kernel_env" where
  "answer_kernel a = demo_kernel\<lparr>kv_metrics := new_metric_registry [\<lparr>md_name = u ''wage'', md_version = u ''1'',
       md_status = UNCONFIRMED, md_assumption_status = u ''open''\<rparr>],
     kv_execute := (\<lambda>f r p w. (a, w))\<rparr>"

definition wage_rows :: "string \<Rightarrow> row list" where
  "wage_rows d = [[(u ''je'', JStr (u d))]]"

definition wage_kernel :: "(unit, table_list, int) kernel_env" where
  "wage_kernel = answer_kernel (Inr (plain_fetch (wage_rows ''7'') 1 True None None))"

definition no_cards :: "int table_env" where
  "no_cards = \<lparr>te_cards = plain_cards, te_snapshot_id = (\<lambda>_ _ _. [])\<rparr>"

definition first_page :: paging_request where
  "first_page = \<lparr>pg_order_view = None, pg_group_page = 1, pg_group_page_size = 50, pg_data_snapshot_id = None\<rparr>"

definition wage_request :: run_request where
  "wage_request = \<lparr>rq_filters = manager_filters, rq_time_range = (0, us_day), rq_role = None,
     rq_caller_employee_id = None, rq_caller_dept_ids = None, rq_paging = first_page\<rparr>"

definition wage_registry :: recipe_registry where
  "wage_registry = \<lparr>rr_version = 1, rr_recipes = [(u ''wages'', wage_recipe)]\<rparr>"

definition wage_fetches :: fetches where
  "wage_fetches = [(u ''pay'', plain_fetch (wage_rows ''7'') 1 True None None)]"

text \<open>Registering and replacing a table in an open sandbox of this engine succeed.\<close>

definition open_for :: "pystr list \<Rightarrow> 'c sandbox \<Rightarrow> bool" where
  "open_for allowed s \<longleftrightarrow> \<not> sb_closed s \<and> sb_allowed_tables s = set allowed"

definition plain_columns :: "(pystr \<times> pystr) list \<Rightarrow> bool" where
  "plain_columns columns \<longleftrightarrow> list_all (valid_identifier ascii_text) (map fst columns) \<and>
     list_all (bulk_capable_type ascii_text) (map snd columns)"

lemma wage_registers:
  assumes "open_for allowed s" and "sbt_name t \<in> set allowed" and "valid_identifier ascii_text (sbt_name t)"
    and "plain_columns (sbt_columns t)"
  obtains s' where "register_table ascii_text two_materials t s = (Inr (), s')" and "open_for allowed s'"
    and "sb_registered s' = insert (sbt_name t) (sb_registered s)"
proof -
  have "for_each (validate_identifier ascii_text) (map fst (sbt_columns t)) = Inr ()"
    using assms(4) by (auto simp: for_each_Inr validate_identifier_def list_all_iff plain_columns_def)
  then have load: "\<exists>c'. (if sbt_rows t = [] then (Inr (), c) else load_rows ascii_text two_materials t c) = (Inr (), c')" for c
    using assms(4) by (simp add: load_rows_def two_materials_def table_engine_def plain_columns_def)
  have create: "\<exists>c'. en_create two_materials name columns c = (Inr (), c')" for name columns c
    by (simp add: two_materials_def table_engine_def)
  have conn: "sandbox_conn two_materials s = Inr (case sb_connection s of Some c \<Rightarrow> c | None \<Rightarrow> en_connect two_materials)"
    using assms(1) by (simp add: sandbox_conn_def open_for_def)
  obtain c1 where c1: "en_create two_materials (sbt_name t) (sbt_columns t)
      (case sb_connection s of Some c \<Rightarrow> c | None \<Rightarrow> en_connect two_materials) = (Inr (), c1)" using create by metis
  obtain c2 where c2: "(if sbt_rows t = [] then (Inr (), c1) else load_rows ascii_text two_materials t c1) = (Inr (), c2)"
    using load by metis
  have "rthen (validate_identifier ascii_text (sbt_name t)) (rthen (guard_r (sb_allowed_tables s = {} \<or> sbt_name t \<in> sb_allowed_tables s)
      (SandboxMes (ForbiddenError (u ''table name is not in the reviewed whitelist'')))) r) = r" for r :: "sandbox_error + table_list"
    using assms(1-3) by (simp add: validate_identifier_def open_for_def)
  then show ?thesis
    using that assms(1) by (simp add: register_table_def conn c1 c2 open_for_def)
qed

lemma wage_replaces:
  assumes "open_for allowed s" and "sbt_name t \<in> set allowed" and "valid_identifier ascii_text (sbt_name t)"
    and "plain_columns (sbt_columns t)" and "sbt_name t \<in> sb_registered s"
  obtains s' where "replace_table ascii_text two_materials t s = (Inr (), s')" and "open_for allowed s'"
proof -
  have columns: "for_each (\<lambda>(column, sql_type). rthen (validate_identifier ascii_text column)
      (guard_r (bulk_capable_type ascii_text sql_type)
        (SandboxMes (InvalidRequestError (u ''replacement schema uses an unsupported column type''))))) (sbt_columns t) = Inr ()"
    using assms(4) by (fastforce simp: for_each_Inr result_simps list_all_iff plain_columns_def)
  obtain c where conn: "sandbox_conn two_materials s = Inr c"
    using assms(1) by (auto simp: sandbox_conn_def open_for_def)
  let ?s1 = "s\<lparr>sb_connection := Some (AList.delete (sbt_name t) c), sb_registered := sb_registered s - {sbt_name t},
    sb_row_counts := AList.delete (sbt_name t) (sb_row_counts s)\<rparr>"
  have "open_for allowed ?s1" using assms(1) by (simp add: open_for_def)
  from wage_registers [OF this assms(2-4)] obtain s' where
    "register_table ascii_text two_materials t ?s1 = (Inr (), s')" "open_for allowed s'" by blast
  then show ?thesis
    using that assms(3,5) conn columns
    by (simp add: replace_table_def validate_identifier_def two_materials_def table_engine_def)
qed

lemma wage_env [simp]: "kv_text (answer_kernel a) = ascii_text" "kv_engine (answer_kernel a) = two_materials"
  "kv_consume (answer_kernel a) n w = (Inr (), w)" "kv_decimals (answer_kernel a) = whole_numbers"
  "kv_resource_columns (answer_kernel a) = []"
  by (simp_all add: answer_kernel_def demo_kernel_def)

lemma wage_answer [simp]: "fetch_one (answer_kernel a) call w = (a, w)"
  by (simp add: fetch_one_def answer_kernel_def demo_kernel_def split: option.split)

lemma wage_step: "rs_operation_id (demo_step ''pay'' []) = Some (u ''EmpScan'')" "rs_params (demo_step ''pay'' []) = None"
  "rs_kind (demo_step ''pay'' []) = API" "cr_steps wage_recipe = [demo_step ''pay'' []]" "rs_step_id (demo_step ''pay'' []) = u ''pay''"
  by (simp_all add: demo_step_def wage_recipe_def demo_recipe_def)

lemma wage_columns:
  assumes "rs_rows f \<in> {[], wage_rows d}"
  shows "plain_columns (sbt_columns (step_table (answer_kernel a) (demo_step ''pay'' []) f wage_recipe))"
    and "sbt_name (step_table (answer_kernel a) (demo_step ''pay'' []) f wage_recipe) = u ''pay''"
    and "valid_identifier ascii_text (u ''pay'')"
  using assms
  by (auto simp: step_table_def table_columns_for_def table_columns_def wage_recipe_def demo_recipe_def wage_rows_def
      demo_step_def from_keys_def valid_identifier_def ascii_text_def bulk_capable_type_def BULK_SQL_TYPES_def plain_columns_def
      str_eval)

text \<open>The one step of the recipe, with the answer or its degraded fetch.\<close>

lemma wage_fetched:
  assumes "open_for allowed s" "u ''pay'' \<in> set allowed" and "rs_rows f \<in> {[], wage_rows d}"
    and "a = Inr f \<and> calls = kernel_call_count f \<or> (\<exists>e. a = Inl e \<and> degrades e \<and> f = degraded_fetch e \<and> calls = 0)"
  obtains st0 where "fetch_api_steps (answer_kernel a) wage_recipe (rq_filters wage_request) (rq_time_range wage_request)
      (rq_role wage_request) (cr_steps wage_recipe) ([], 0) \<lparr>kn_sandbox = s, kn_world = ()\<rparr> = (Inr ([(u ''pay'', f)], calls), st0)"
    and "open_for allowed (kn_sandbox st0)" and "u ''pay'' \<in> sb_registered (kn_sandbox st0)"
proof -
  let ?table = "step_table (answer_kernel a) (demo_step ''pay'' []) f wage_recipe"
  obtain s' where reg: "register_table ascii_text two_materials ?table s = (Inr (), s')" "open_for allowed s'"
      "sb_registered s' = insert (u ''pay'') (sb_registered s)"
    using wage_registers [OF assms(1), of ?table] wage_columns [OF assms(3)] assms(2) by metis
  have one: "fetch_step (answer_kernel a) (demo_step ''pay'' []) (u ''EmpScan'') [] (rq_filters wage_request)
      (rq_time_range wage_request) 0 (rq_role wage_request) \<lparr>kn_sandbox = s, kn_world = ()\<rparr> =
      (rbind a (\<lambda>g. Inr (g, kernel_call_count g)), \<lparr>kn_sandbox = s, kn_world = ()\<rparr>)"
    by (simp add: fetch_step_def demo_step_def items_or_empty_def fetch_one_def answer_kernel_def demo_kernel_def step_call_def)
  have "degrade 0 (rbind a (\<lambda>g. Inr (g, kernel_call_count g))) = Inr (f, calls)"
    using assms(4) by (auto simp: degrade_def)
  then have "fetch_api_steps (answer_kernel a) wage_recipe (rq_filters wage_request) (rq_time_range wage_request)
      (rq_role wage_request) (cr_steps wage_recipe) ([], 0) \<lparr>kn_sandbox = s, kn_world = ()\<rparr> =
      (Inr ([(u ''pay'', f)], calls), \<lparr>kn_sandbox = s', kn_world = ()\<rparr>)"
    using reg(1) one by (simp add: wage_step fetch_api_step_def reviewed_params_def items_or_empty_def register_step_def lift_sandbox_def)
  then show ?thesis by (rule that) (simp_all add: reg)
qed

lemma wage_hidden: "resolve_metric (answer_kernel a) wage_recipe c = Inr (Some \<lparr>md_name = u ''wage'', md_version = u ''1'',
    md_status = UNCONFIRMED, md_assumption_status = u ''open''\<rparr>)" if "rc_metric c = Some (u ''wage'')"
  using that by (simp add: resolve_metric_def wage_recipe_def answer_kernel_def new_metric_registry_def register_metric_def
      registry_resolve_def)

definition digit :: "string \<Rightarrow> int \<Rightarrow> bool" where
  "digit d n \<longleftrightarrow> (d, n) \<in> {(''7'', 7), (''9'', 9)}"

lemma digit_value: "digit d n \<Longrightarrow> decimal_or_zero (answer_kernel a) (Cell (JStr (u d))) = n"
  by (auto simp: digit_def decimal_or_zero_def whole_numbers_def decimal_value_def opt_result_def str_eval)

lemma wage_totals:
  assumes "digit d n" "rs_rows f = wage_rows d"
  shows "build_totals (answer_kernel a) wage_recipe [[(u ''je'', Cell (JStr UNAVAILABLE_VALUE))]] [(u ''pay'', f)] = Inr [(u ''je'', n)]"
proof -
  have "sum_field (answer_kernel a) (wage_rows d) (u ''je'') = Inr n"
    using digit_value [OF assms(1)] by (simp add: sum_field_def sum_decimals_def wage_rows_def whole_numbers_def
      opt_result_def)
  moreover have "wage_rows d \<noteq> []" by (simp add: wage_rows_def)
  moreover have "n \<noteq> 0" using assms(1) by (auto simp: digit_def)
  ultimately show ?thesis
    by (simp add: build_totals_def wage_recipe_def demo_recipe_def add_column_total_def numeric_cells_def cell_of_def absent_def
        first_api_rows_def assms(2) whole_numbers_def)
qed

lemma wage_built:
  assumes "digit d n" "rs_rows p = wage_rows d"
  obtains t s' where "build_table no_cards (answer_kernel a) wage_recipe [(u ''pay'', p)] f first_page s = (Inr t, s')"
    and "rt_rows t = [[(u ''je'', Cell (JStr UNAVAILABLE_VALUE))]]" "rt_totals t = [(u ''je'', n)]"
proof -
  have resolved: "\<exists>c m. resolved_columns (answer_kernel a) wage_recipe (cr_result_columns wage_recipe) = Inr [(c, Some m)] \<and>
      cm_name c = u ''je'' \<and> \<not> allows_numeric_rendering m"
    using wage_hidden [of "hd (cr_result_columns wage_recipe)"]
    by (simp add: resolved_columns_def wage_recipe_def allows_numeric_rendering_def)
  have steps: "run_compute_steps (answer_kernel a) wage_recipe [(u ''pay'', p)] f (cr_steps wage_recipe) [] s = (Inr [], s)"
    by (simp add: wage_recipe_def demo_recipe_def demo_step_def)
  have rendered: "is_detail wage_recipe" "render_detail_rows (answer_kernel a) wage_recipe [(u ''pay'', p)] = [[(u ''je'', Dec n)]]"
    using digit_value [OF assms(1), of a]
    by (simp_all add: is_detail_def wage_recipe_def demo_recipe_def demo_step_def render_detail_rows_def assms(2) wage_rows_def
        render_detail_cell_def numeric_type_def)
  obtain c m where c: "resolved_columns (answer_kernel a) wage_recipe (cr_result_columns wage_recipe) = Inr [(c, Some m)]"
      "cm_name c = u ''je''" "\<not> allows_numeric_rendering m" using resolved by blast
  have gone: "unavailable_columns [(c, Some m)] = {u ''je''}"
    using c by (auto simp: unavailable_columns_def column_unavailable_def)
  have "\<exists>draft. draft_table (answer_kernel a) wage_recipe [(u ''pay'', p)] [] = Inr draft \<and>
      td_rows draft = [[(u ''je'', Cell (JStr UNAVAILABLE_VALUE))]] \<and> td_totals draft = [(u ''je'', n)]"
    using c wage_totals [OF assms] gone by (simp add: draft_table_def rendered gated_row_def Let_def)
  then obtain draft where draft: "draft_table (answer_kernel a) wage_recipe [(u ''pay'', p)] [] = Inr draft"
      "td_rows draft = [[(u ''je'', Cell (JStr UNAVAILABLE_VALUE))]]" "td_totals draft = [(u ''je'', n)]" by blast
  have none: "cr_aux_outputs wage_recipe = []" and card_none: "cr_card wage_recipe = None"
    by (simp_all add: wage_recipe_def demo_recipe_def)
  have "\<exists>t. finish_table no_cards (answer_kernel a) wage_recipe first_page draft [] = Inr t \<and>
      rt_rows t = td_rows draft \<and> rt_totals t = td_totals draft"
    by (simp add: finish_table_def apply_aux_totals_def none build_detail_tables_def build_result_card_def card_none)
  then show ?thesis
    using that draft steps by (auto simp: build_table_def none)
qed

text \<open>The sandbox of the run, with its two metadata tables.\<close>

lemma wage_allowed: "allowed_tables wage_recipe = map u [''pay'', ''_meta'', ''_dept_scope'']"
  by (simp add: allowed_tables_def wage_recipe_def demo_recipe_def demo_step_def METADATA_TABLE_def DEPT_SCOPE_TABLE_def)

lemma wage_sandbox:
  obtains s0 s1 where "new_sandbox ascii_text (allowed_tables wage_recipe) = Inr s0"
    and "register_meta (answer_kernel a) [] wage_request s0 = (Inr (), s1)"
    and "open_for (allowed_tables wage_recipe) s1" and "u ''pay'' \<in> set (allowed_tables wage_recipe)"
proof -
  have valid: "list_all (valid_identifier ascii_text) (allowed_tables wage_recipe)"
    by (simp add: wage_allowed valid_identifier_def ascii_text_def str_eval)
  then have "\<exists>s0. new_sandbox ascii_text (allowed_tables wage_recipe) = Inr s0 \<and> open_for (allowed_tables wage_recipe) s0"
    by (auto simp: new_sandbox_def validate_identifier_def wage_allowed open_for_def)
  then obtain s0 :: "table_list sandbox" where s0: "new_sandbox ascii_text (allowed_tables wage_recipe) = Inr s0"
      "open_for (allowed_tables wage_recipe) s0" by blast
  have columns: "plain_columns META_COLUMNS" "plain_columns [(u ''dept_id'', u ''VARCHAR'')]"
    by (simp_all add: META_COLUMNS_def valid_identifier_def ascii_text_def bulk_capable_type_def BULK_SQL_TYPES_def plain_columns_def
        str_eval)
  let ?meta = "\<lparr>sbt_name = METADATA_TABLE, sbt_rows = [meta_row (kv_settings (answer_kernel a)) (kv_zone (answer_kernel a)) [] wage_request],
    sbt_columns = META_COLUMNS\<rparr>"
  let ?scope = "\<lparr>sbt_name = DEPT_SCOPE_TABLE, sbt_rows = map (\<lambda>d. [(u ''dept_id'', JStr d)])
           (case nf_dept_ids (rq_filters wage_request) of Some ds \<Rightarrow> sorted_list_of_set ds | None \<Rightarrow> []),
         sbt_columns = [(u ''dept_id'', u ''VARCHAR'')]\<rparr>"
  have names: "METADATA_TABLE = u ''_meta''" "DEPT_SCOPE_TABLE = u ''_dept_scope''"
    by (simp_all add: METADATA_TABLE_def DEPT_SCOPE_TABLE_def)
  obtain s' where s': "register_table ascii_text two_materials ?meta s0 = (Inr (), s')" "open_for (allowed_tables wage_recipe) s'"
    using wage_registers [OF s0(2), of ?meta] columns valid by (auto simp: wage_allowed names)
  obtain s1 where "register_table ascii_text two_materials ?scope s' = (Inr (), s1)" "open_for (allowed_tables wage_recipe) s1"
    using wage_registers [OF s'(2), of ?scope] columns valid by (auto simp: wage_allowed names)
  then show ?thesis using that s0(1) s'(1) by (simp add: register_meta_def lift_sandbox_def wage_allowed)
qed

text \<open>The run serves the fallback total under the name of the column it hides.\<close>

lemma wage_in_sandbox:
  obtains s0 s1 t st' where "new_sandbox ascii_text (allowed_tables wage_recipe) = Inr s0"
    and "register_meta wage_kernel [] wage_request s0 = (Inr (), s1)"
    and "run_in_sandbox no_cards wage_kernel wage_recipe wage_request \<lparr>kn_sandbox = s1, kn_world = ()\<rparr> =
      (Inr (t, wage_fetches, 1), st')"
    and "rt_rows t = [[(u ''je'', Cell (JStr UNAVAILABLE_VALUE))]]" "rt_totals t = [(u ''je'', 7)]"
proof -
  let ?f = "plain_fetch (wage_rows ''7'') 1 True None None"
  obtain s0 s1 where s0: "new_sandbox ascii_text (allowed_tables wage_recipe) = Inr s0"
    and s1: "register_meta wage_kernel [] wage_request s0 = (Inr (), s1)" "open_for (allowed_tables wage_recipe) s1"
      "u ''pay'' \<in> set (allowed_tables wage_recipe)" unfolding wage_kernel_def by (rule wage_sandbox)
  have rows: "rs_rows ?f = wage_rows ''7''" "kernel_call_count ?f = 1" "rs_shadow_result ?f = None"
    by (simp_all add: plain_fetch_def kernel_call_count_def)
  obtain st0 where fetched: "fetch_api_steps wage_kernel wage_recipe (rq_filters wage_request) (rq_time_range wage_request)
    (rq_role wage_request) (cr_steps wage_recipe) ([], 0) \<lparr>kn_sandbox = s1, kn_world = ()\<rparr> = (Inr ([(u ''pay'', ?f)], 1), st0)"
    unfolding wage_kernel_def by (rule wage_fetched [OF s1(2,3), of ?f "''7''" "Inr ?f" 1]) (simp_all add: rows)
  obtain t s2 where built: "build_table no_cards wage_kernel wage_recipe [(u ''pay'', ?f)] (rq_filters wage_request) first_page (kn_sandbox st0) = (Inr t, s2)"
    and t: "rt_rows t = [[(u ''je'', Cell (JStr UNAVAILABLE_VALUE))]]" "rt_totals t = [(u ''je'', 7)]"
    unfolding wage_kernel_def by (rule wage_built [of "''7''" 7 ?f]) (simp_all add: rows digit_def)
  have "verify_final_shadow no_cards wage_kernel wage_recipe [(u ''pay'', ?f)] (rq_filters wage_request) first_page t st =
      (Inr (t, [(u ''pay'', ?f)]), st)" for st
    by (simp add: verify_final_shadow_def rows)
  then have run: "run_in_sandbox no_cards wage_kernel wage_recipe wage_request \<lparr>kn_sandbox = s1, kn_world = ()\<rparr> =
      (Inr (t, wage_fetches, 1), st0\<lparr>kn_sandbox := s2\<rparr>)"
    using fetched built by (simp add: run_in_sandbox_def wage_request_def bounded_def wage_fetches_def)
  show ?thesis using that [OF s0(1) s1(1) run t] .
qed

lemma wage_run:
  obtains r w' where "kernel_run no_cards wage_kernel wage_registry (u ''wages'') [] wage_request () = (Inr r, w')"
    and "rr_totals r = [(u ''je'', 7)]" "rr_rows r = [[Cell (JStr UNAVAILABLE_VALUE)]]"
proof -
  obtain s0 s1 t st' where s0: "new_sandbox ascii_text (allowed_tables wage_recipe) = Inr s0"
    and s1: "register_meta wage_kernel [] wage_request s0 = (Inr (), s1)"
    and run: "run_in_sandbox no_cards wage_kernel wage_recipe wage_request \<lparr>kn_sandbox = s1, kn_world = ()\<rparr> =
      (Inr (t, wage_fetches, 1), st')"
    and t: "rt_rows t = [[(u ''je'', Cell (JStr UNAVAILABLE_VALUE))]]" "rt_totals t = [(u ''je'', 7)]"
    using wage_in_sandbox .
  obtain fs s s2 where built: "build_table no_cards wage_kernel wage_recipe fs (rq_filters wage_request) (rq_paging wage_request) s = (Inr t, s2)"
    using run_built [OF run] .
  obtain draft results where fin: "finish_table no_cards wage_kernel wage_recipe (rq_paging wage_request) draft results = Inr t"
    using build_table_Inr [OF built] .
  have "cr_card wage_recipe = None" by (simp add: wage_recipe_def demo_recipe_def)
  then have no_card: "rt_card t = None" using finish_table_Inr(9) [OF fin] by (simp add: build_result_card_def)
  have "map cm_name (rt_columns t) = [u ''je'']"
    using build_table_names [OF built] by (simp add: wage_recipe_def)
  then obtain c where c: "rt_columns t = [c]" "cm_name c = u ''je''" by auto
  have ok: "registry_get wage_registry (u ''wages'') = Inr wage_recipe"
      "validate_order_view wage_recipe None = Inr ()"
      "validate_group_page wage_recipe (rq_paging wage_request) = Inr ()"
    by (simp_all add: registry_get_def wage_registry_def validate_order_view_def validate_group_page_def wage_request_def first_page_def)
  have "kernel_run no_cards wage_kernel wage_registry (u ''wages'') [] wage_request () =
      (Inr (to_run_result wage_kernel t 1 (observe_ownership wage_kernel wage_recipe wage_fetches) None), kn_world st')"
  proof -
    have "pg_order_view (rq_paging wage_request) = None" "pg_data_snapshot_id (rq_paging wage_request) = None"
      by (simp_all add: wage_request_def first_page_def)
    moreover have "kv_text wage_kernel = ascii_text" by (simp add: wage_kernel_def wage_env)
    ultimately show ?thesis
      using no_card by (simp add: kernel_run_def ok s0 lift_sandbox_def s1 run attach_order_view_context_def to_run_result_def)
  qed
  then show ?thesis
    by (rule that) (simp_all add: to_run_result_def t c cell_of_def to_value_def absent_def)
qed

lemma wage_column_hidden: "hidden_metric wage_kernel wage_recipe (cr_result_columns wage_recipe ! 0)"
  using wage_hidden [of "cr_result_columns wage_recipe ! 0"]
  by (simp add: hidden_metric_def wage_kernel_def wage_recipe_def column_unavailable_def allows_numeric_rendering_def)

text \<open>The fallback total shows the number that the gate hides from the rows.\<close>

lemma fallback_total_bypasses_the_gate:
  "\<exists>r w'. kernel_run no_cards wage_kernel wage_registry (u ''wages'') [] wage_request () = (Inr r, w') \<and>
    rr_totals r = [(u ''je'', 7)] \<and> hidden_metric wage_kernel wage_recipe (cr_result_columns wage_recipe ! 0) \<and>
    rc_name (cr_result_columns wage_recipe ! 0) = u ''je''"
  using wage_run wage_column_hidden by (simp add: wage_recipe_def) metis

theorem unconfirmed_rows_hidden_witness:
  "\<exists>r w'. kernel_run no_cards wage_kernel wage_registry (u ''wages'') [] wage_request () = (Inr r, w') \<and>
    rr_rows r \<noteq> [] \<and> (\<forall>row \<in> set (rr_rows r). row ! 0 = Cell (JStr UNAVAILABLE_VALUE)) \<and> rr_incomplete r"
proof -
  obtain r w' where run: "kernel_run no_cards wage_kernel wage_registry (u ''wages'') [] wage_request () = (Inr r, w')"
    and rows: "rr_rows r = [[Cell (JStr UNAVAILABLE_VALUE)]]" using wage_run .
  have reg: "registry_get wage_registry (u ''wages'') = Inr wage_recipe" by (simp add: registry_get_def wage_registry_def)
  have "0 < length (cr_result_columns wage_recipe)" by (simp add: wage_recipe_def)
  then have "(\<forall>row \<in> set (rr_rows r). row ! 0 = Cell (JStr UNAVAILABLE_VALUE)) \<and> (rr_rows r \<noteq> [] \<longrightarrow> rr_incomplete r)"
    using unconfirmed_rows_hidden [OF run reg] wage_column_hidden by blast
  then show ?thesis using run rows by (intro exI conjI) auto
qed

theorem incomplete_exactly_when_witness:
  "\<exists>s t st'. run_in_sandbox no_cards wage_kernel wage_recipe wage_request \<lparr>kn_sandbox = s, kn_world = ()\<rparr> =
      (Inr (t, wage_fetches, 1), st') \<and> rt_incomplete t \<and> fst ` set wage_fetches = {u ''pay''}"
proof -
  obtain s0 s1 t st' where run: "run_in_sandbox no_cards wage_kernel wage_recipe wage_request \<lparr>kn_sandbox = s1, kn_world = ()\<rparr> =
      (Inr (t, wage_fetches, 1), st')"
    and t: "rt_rows t = [[(u ''je'', Cell (JStr UNAVAILABLE_VALUE))]]"
    using wage_in_sandbox .
  have "cr_result_columns wage_recipe ! 0 \<in> set (cr_result_columns wage_recipe)" by (simp add: wage_recipe_def)
  then have "rt_incomplete t"
    using incomplete_exactly_when [OF run refl] t wage_column_hidden by (metis list.distinct(1))
  then show ?thesis using run by (auto simp: wage_fetches_def)
qed

text \<open>A cached wage of 7 whose realtime baseline says 9, and a source that times out.\<close>

definition cached_wage :: fetch_result where
  "cached_wage = (plain_fetch (wage_rows ''7'') 1 True None None)
     \<lparr>rs_cache_source := Some (u ''query''), rs_shadow_result := Some
       \<lparr>rs_rows = wage_rows ''9'', rs_total = 1, rs_pages_fetched = 1, rs_complete = True, rs_reason = None, rs_footer = None,
        rs_cache_source = None, rs_cache_generated_at = None, rs_shadow_result = (), rs_source_call_count = None\<rparr>\<rparr>"

definition shadow_kernel :: "(unit, table_list, int) kernel_env" where
  "shadow_kernel = answer_kernel (Inr cached_wage)"

lemma cached_wage_rows: "rs_rows cached_wage = wage_rows ''7''" "kernel_call_count cached_wage = 1"
  "rs_shadow_result cached_wage \<noteq> None" "rs_rows (shadow_of cached_wage) = wage_rows ''9''"
  by (simp_all add: cached_wage_def plain_fetch_def kernel_call_count_def shadow_of_def with_shadow_def)

lemma shadow_run:
  obtains s1 st0 t fs' st' where "fetch_api_steps shadow_kernel wage_recipe (rq_filters wage_request) (rq_time_range wage_request)
      (rq_role wage_request) (cr_steps wage_recipe) ([], 0) \<lparr>kn_sandbox = s1, kn_world = ()\<rparr> = (Inr ([(u ''pay'', cached_wage)], 1), st0)"
    and "run_in_sandbox no_cards shadow_kernel wage_recipe wage_request \<lparr>kn_sandbox = s1, kn_world = ()\<rparr> = (Inr (t, fs', 1), st')"
proof -
  let ?tables = "allowed_tables wage_recipe"
  obtain s0 s1 where "new_sandbox ascii_text ?tables = Inr s0"
    and s1: "register_meta shadow_kernel [] wage_request s0 = (Inr (), s1)" "open_for ?tables s1" "u ''pay'' \<in> set ?tables"
    unfolding shadow_kernel_def by (rule wage_sandbox)
  obtain st0 where fetched: "fetch_api_steps shadow_kernel wage_recipe (rq_filters wage_request) (rq_time_range wage_request)
      (rq_role wage_request) (cr_steps wage_recipe) ([], 0) \<lparr>kn_sandbox = s1, kn_world = ()\<rparr> = (Inr ([(u ''pay'', cached_wage)], 1), st0)"
    and st0: "open_for ?tables (kn_sandbox st0)" "u ''pay'' \<in> sb_registered (kn_sandbox st0)"
    unfolding shadow_kernel_def
    by (rule wage_fetched [OF s1(2,3), of cached_wage "''7''" "Inr cached_wage" 1]) (simp_all add: cached_wage_rows)
  obtain t s2 where built: "build_table no_cards shadow_kernel wage_recipe [(u ''pay'', cached_wage)] (rq_filters wage_request) first_page (kn_sandbox st0) = (Inr t, s2)"
    unfolding shadow_kernel_def by (rule wage_built [of "''7''" 7 cached_wage]) (simp_all add: cached_wage_rows digit_def)
  have "s2 = kn_sandbox st0"
  proof -
    have "run_compute_steps shadow_kernel wage_recipe [(u ''pay'', cached_wage)] (rq_filters wage_request) (cr_steps wage_recipe) []
        (kn_sandbox st0) = (Inr [], kn_sandbox st0)" "cr_aux_outputs wage_recipe = []"
      by (simp_all add: wage_recipe_def demo_recipe_def demo_step_def)
    then show ?thesis using built by (auto simp: build_table_def split: sum.splits prod.splits)
  qed
  then have s2: "open_for ?tables s2" "u ''pay'' \<in> sb_registered s2" using st0 by simp_all
  let ?table = "step_table shadow_kernel (demo_step ''pay'' []) (shadow_of cached_wage) wage_recipe"
  have "rs_rows (shadow_of cached_wage) \<in> {[], wage_rows ''9''}" by (simp add: cached_wage_rows)
  note columns = wage_columns(1,2) [OF this, where a = "Inr cached_wage", folded shadow_kernel_def] wage_columns(3) [OF this]
  obtain s3 where "replace_table ascii_text two_materials ?table s2 = (Inr (), s3)"
    using wage_replaces [OF s2(1), of ?table] columns s1(3) s2(2) by metis
  then have replaced: "replace_step_tables shadow_kernel wage_recipe [(u ''pay'', shadow_of cached_wage)] (cr_steps wage_recipe) s2 = (Inr (), s3)"
    by (simp add: wage_step shadow_kernel_def)
  obtain t' s4 where rebuilt: "build_table no_cards shadow_kernel wage_recipe [(u ''pay'', shadow_of cached_wage)] (rq_filters wage_request) first_page s3 = (Inr t', s4)"
    unfolding shadow_kernel_def by (rule wage_built [of "''9''" 9 "shadow_of cached_wage"]) (simp_all add: cached_wage_rows digit_def)
  have "\<exists>r st'. verify_final_shadow no_cards shadow_kernel wage_recipe [(u ''pay'', cached_wage)] (rq_filters wage_request) first_page t
      (st0\<lparr>kn_sandbox := s2\<rparr>) = (Inr r, st')"
    using cached_wage_rows(3) by (simp add: verify_final_shadow_def replaced rebuilt bounded_def)
  then obtain r st' where "verify_final_shadow no_cards shadow_kernel wage_recipe [(u ''pay'', cached_wage)] (rq_filters wage_request) first_page t
      (st0\<lparr>kn_sandbox := s2\<rparr>) = (Inr r, st')" by blast
  then have "run_in_sandbox no_cards shadow_kernel wage_recipe wage_request \<lparr>kn_sandbox = s1, kn_world = ()\<rparr> =
      (Inr (fst r, snd r, 1), st')"
    using fetched built by (simp add: run_in_sandbox_def wage_request_def bounded_def case_prod_beta)
  then show ?thesis using that fetched by blast
qed

lemma wage_engine: "engine_laws (kv_engine (answer_kernel a)) (\<lambda>_ row. row) map_of" "distinct_reads_only (answer_kernel a) map_of"
  "distinct (map rs_step_id (api_steps (cr_steps wage_recipe)))"
  unfolding distinct_reads_only_def wage_env two_materials_def
    apply (rule table_engine_laws)
   apply (simp add: reads_only_def table_engine_def)
  apply (simp add: wage_step api_steps_def)
  done


theorem upstream_never_aborts_a_run_witness:
  "\<exists>s fs st'. fetch_api_steps (answer_kernel (Inl (KernelMes (MesTimeoutError [])))) wage_recipe (rq_filters wage_request)
      (rq_time_range wage_request) (rq_role wage_request) (cr_steps wage_recipe) ([], 0) \<lparr>kn_sandbox = s, kn_world = ()\<rparr> =
      (Inr (fs, 0), st') \<and>
    (\<exists>f. map_of fs (u ''pay'') = Some f \<and> rs_rows f = [] \<and> \<not> rs_complete f \<and> rs_reason f = Some (u ''upstream_timeout''))"
proof -
  let ?e = "KernelMes (MesTimeoutError [])" and ?tables = "allowed_tables wage_recipe"
  let ?env = "answer_kernel (Inl ?e)"
  obtain s0 s1 where "new_sandbox ascii_text ?tables = Inr s0" "register_meta ?env [] wage_request s0 = (Inr (), s1)"
    and s1: "open_for ?tables s1" "u ''pay'' \<in> set ?tables" by (rule wage_sandbox)
  obtain st0 where fetched: "fetch_api_steps ?env wage_recipe (rq_filters wage_request) (rq_time_range wage_request)
      (rq_role wage_request) (cr_steps wage_recipe) ([], 0) \<lparr>kn_sandbox = s1, kn_world = ()\<rparr> =
      (Inr ([(u ''pay'', degraded_fetch ?e)], 0), st0)"
    by (rule wage_fetched [OF s1, of "degraded_fetch ?e" "''7''" "Inl ?e" 0]) (simp_all add: degraded_fetch_def plain_fetch_def)
  have control: "control_only ?env" by (simp add: control_only_def)
  have steps: "cr_steps wage_recipe = [] @ demo_step ''pay'' [] # []" by (simp add: wage_step)
  have down: "fetch_step ?env (demo_step ''pay'' []) op params filters tr n rl st = (r, st1) \<Longrightarrow> r = Inl ?e" for op params filters tr n rl st r st1
    by (simp add: fetch_step_def demo_step_def items_or_empty_def)
  have last: "rs_step_id (demo_step ''pay'' []) \<notin> rs_step_id ` {s \<in> set []. rs_kind s = API}" by simp
  obtain r f op params n st2 st1 where f: "map_of [(u ''pay'', degraded_fetch ?e)] (rs_step_id (demo_step ''pay'' [])) = Some f"
    and r: "fetch_step ?env (demo_step ''pay'' []) op params (rq_filters wage_request) (rq_time_range wage_request) n
        (rq_role wage_request) st2 = (r, st1)"
    and c: "case r of Inr (g, _) \<Rightarrow> f = g
        | Inl d \<Rightarrow> degrades d \<and> rs_rows f = [] \<and> \<not> rs_complete f \<and> rs_reason f = Some (upstream_reason d)"
    using conjunct2 [OF upstream_never_aborts_a_run [OF control fetched steps wage_step(3) last]] by (elim exE conjE) blast
  have "rs_rows f = [] \<and> \<not> rs_complete f \<and> rs_reason f = Some (u ''upstream_timeout'')"
    using c by (simp add: down [OF r])
  moreover have "map_of [(u ''pay'', degraded_fetch ?e)] (u ''pay'') = Some f" using f by (simp only: wage_step)
  ultimately show ?thesis using fetched by blast
qed

end
