(* ===== verification/Spec2Isabelle.thy ===== *)
theory Spec2Isabelle
  imports Authorization Dag Pager Rollup Lifecycle Context Consistency PlatformAuth Ops Gateway KernelResults
begin

text \<open>
  Verification of \<^verbatim>\<open>factory_agent\<close>, a service that answers questions about the production and
  payroll of a factory.  Paths are relative to \<^verbatim>\<open>src/src/factory_agent/\<close>.

  \<^bold>\<open>The program.\<close>  A request is authorized against the memberships and departments of the MES
  (the upstream system), its filters are narrowed to the authorized scope, and a reviewed recipe answers
  it: API steps are fetched from the MES through the scoped executor (or a shared cache of owner
  snapshots), registered as tables of a DuckDB sandbox, combined by SQL, and rendered as a result table
  with a card.  Conversations and their runs are durable rows that recover from crashes.  Every question
  and upstream call is metered; a second, operator-facing surface rolls the metering up, reports on it
  and manages tenants.  Language models are reached through a gateway that routes around unhealthy
  endpoints.

  \<^bold>\<open>Shared ground.\<close>
  \<^item> \<open>Prelude\<close>: Python strings as lists of code points, exceptions as left values of sums
    (\<open>rbind\<close>, \<open>rmap\<close>), dictionaries as association lists in insertion order; the collections
    \<open>result_simps\<close>, \<open>dict_simps\<close>.  \<open>Strings\<close>, \<open>Counting\<close>, \<open>Json\<close>: what the code uses of Python's
    strings, counters and JSON values.
  \<^item> \<open>Tables\<close>: a table as the list of its rows, unique keys, \<^verbatim>\<open>ON CONFLICT\<close> and
    \<^verbatim>\<open>UPDATE ... RETURNING\<close>.  \<open>Paging\<close>: keyset cursors, with the locale
    \<open>keyset_order\<close> interpreted for ascending and descending listings.

  \<^bold>\<open>Authorization and scope.\<close>
  \<^item> \<open>Domain\<close>: the frozen dataclasses of \<^verbatim>\<open>domain/\<close> as records with checked constructors.
  \<^item> \<open>Session\<close> (\<^verbatim>\<open>domain/session.py\<close>): the conversation machine, its transition table,
    the step relation \<open>session_step\<close> and the reachable machines; invariants by rule induction.
  \<^item> \<open>Authorization\<close> (\<^verbatim>\<open>application/authorization.py\<close>,
    \<^verbatim>\<open>permission_matrix.py\<close>): issuing and revalidating an authorization; the locale
    \<open>version_assigner\<close>, interpreted on the fixed assigner.
  \<^item> \<open>Filters\<close> (\<^verbatim>\<open>application/filters.py\<close>, \<^verbatim>\<open>business_filters.py\<close>): what narrowing
    lets through and refuses, and how names resolve.
  \<^item> \<open>Consistency\<close> (\<^verbatim>\<open>application/consistency.py\<close>): the safety net over results.

  \<^bold>\<open>From recipe to result.\<close>
  \<^item> \<open>Executor\<close> (\<^verbatim>\<open>data_api/catalog.py\<close>, \<^verbatim>\<open>execution/executor.py\<close>): the catalog and
    the only way to the MES; the locale \<open>scope_verifier\<close>, interpreted on \<open>StrictScopeVerifier\<close>.
  \<^item> \<open>Recipes\<close> (\<^verbatim>\<open>execution/recipes.py\<close>) and \<open>Dag\<close> (\<^verbatim>\<open>execution/dag.py\<close>): loading and
    validating recipes; a run as an explicit list of start and finish events, so that the theorems
    speak of every interleaving of a wave.
  \<^item> \<open>Pager\<close> (\<^verbatim>\<open>data_api/pagination.py\<close>): the bounded walk over the pages of one operation.
  \<^item> \<open>AuthCache\<close> (\<^verbatim>\<open>application/cache.py\<close>, \<^verbatim>\<open>infrastructure/cache.py\<close>): the
    authorization-aware cache over the locale \<open>cache_provider\<close>, interpreted on the Redis store with
    expiry and outages.  \<open>Detail\<close> (\<^verbatim>\<open>data_api/progress_detail.py\<close>), \<open>ResultCache\<close> and
    \<open>CachedFetch\<close> (\<^verbatim>\<open>data_api/result_cache.py\<close>): row views, snapshots and the executor in
    front of the cache.
  \<^item> \<open>Sandbox\<close> (\<^verbatim>\<open>execution/sandbox_runtime.py\<close>): DuckDB is the record \<open>engine\<close>; what the code
    relies on is \<open>engine_laws\<close>, and \<open>table_engine\<close> shows that the laws can hold.
  \<^item> \<open>Kernel\<close>, \<open>KernelTable\<close> (\<^verbatim>\<open>execution/kernel.py\<close>): the run of a recipe, first the
    fetches with their fan-out, then tables, totals, details, shadow validation and the whole run;
    \<open>Cards\<close> (\<^verbatim>\<open>ports/card.py\<close>, \<^verbatim>\<open>ports/order_views.py\<close>): the card and its paged order
    views.  \<open>KernelResults\<close> holds what the kernel promises of a result.

  \<^bold>\<open>Durable conversations and metering.\<close>
  \<^item> \<open>Usage\<close> (\<^verbatim>\<open>application/usage.py\<close>, \<^verbatim>\<open>persistence/metering.py\<close>), \<open>DebugTrace\<close>,
    \<open>SessionStore\<close> (\<^verbatim>\<open>persistence/\<close>: \<^verbatim>\<open>tables.py\<close>, \<^verbatim>\<open>queries.py\<close>,
    \<^verbatim>\<open>session_store.py\<close>): the record \<open>session_db\<close> of tables and one definition per statement; the
    locale \<open>run_ledger\<close> is the lifecycle of a run, interpreted on the store.
  \<^item> \<open>Lifecycle\<close> (\<^verbatim>\<open>application/session/\<close>): recovery sweeps and history; \<open>Context\<close>
    (\<^verbatim>\<open>application/context.py\<close>): the bounded history handed to the model.
  \<^item> \<open>Rollup\<close> (\<^verbatim>\<open>application/rollup.py\<close>, \<^verbatim>\<open>persistence/rollup_store.py\<close>).

  \<^bold>\<open>The operator surface\<close> (\<^verbatim>\<open>statistics/\<close>).
  \<^item> \<open>StatStore\<close> (\<^verbatim>\<open>store.py\<close>): the protocol as a record of operations, its in-memory and its
    PostgreSQL implementation, the locale \<open>tenant_store\<close> interpreted on both.
  \<^item> \<open>Tenants\<close> (\<^verbatim>\<open>tenants.py\<close>), \<open>PlatformAuth\<close> (\<^verbatim>\<open>platform_auth.py\<close>), \<open>Ops\<close>
    (\<^verbatim>\<open>ops.py\<close>): services over any store; the locales \<open>usage_reader\<close> (a store cut down to some
    tenants' metering) and \<open>registry_reader\<close> (to their registry rows) carry the confinement of
    every report.

  \<^bold>\<open>Models.\<close>  \<open>Routing\<close> and \<open>Gateway\<close>: the deployment registry, the endpoint health monitor, and the
  gateway that rebuilds its router as endpoints fail and recover.

  \<^bold>\<open>How the model corresponds to the code.\<close>  A class with state is a record that its operations take
  and return; a raise is a left value, and state written before a raise is kept when the code keeps it.
  Collaborators that are not in the repository (the MES, Redis, PostgreSQL, DuckDB, bcrypt, HMAC, SHA-256,
  the model router, YAML and JSON codecs, decimals, calendars, Unicode tables) are parameters; what a
  theorem relies on of them is a named hypothesis (\<open>engine_laws\<close>, \<open>codec_roundtrip\<close>, \<open>calendar_laws\<close>,
  \<open>hex_digests\<close>, \<open>auth_laws\<close>, \<open>codec_laws\<close>) that its witness discharges for a concrete instance.
  Concurrency is an explicit order of events: interleaved operations on the store, start and finish
  events of a wave, the order of a fan-out (\<open>kv_gather\<close>), probes that finish in any order.

  \<^bold>\<open>Bounds.\<close>  Python's integers are \<open>int\<close> or \<open>nat\<close>; no width matters in this code.  Loops are
  structural or have a measure (the pager: its page budget and its single resize).  \<open>walk_pages\<close> takes one
  unit of fuel per request, and one more than the number of rows is proved to suffice; the search for
  the API step behind an output (\<open>upstream_api\<close>) takes the number of declared dependencies, with which it
  is proved to find every operation reachable through them.

  \<^bold>\<open>What is not modelled.\<close>  The asynchronous pipeline around a turn and the prompts and
  interpretation of model output, the HTTP clients and routes, exporters, observability, configuration
  and wiring, migrations and scripts, personal preferences and push, and the free-form analysis that an
  external package drives.  Within modelled components, logging, tracing, alerts and endless background
  loops are left out.  Floating-point sums are real numbers.
\<close>

end
